(* ===== verification/Prelude.thy ===== *)
theory Prelude
  imports Main "HOL-Library.Word"
begin

text \<open>
  Shared vocabulary of the development: machine integers, HTTP outcomes, and the
  state-and-error monad in which every request handler of the hub is written.

  A handler of the source is an \<^verbatim>\<open>async fn\<close> returning
  \<^verbatim>\<open>Result<T, (StatusCode, String)>\<close> that reads and writes the database and the
  in-memory maps of \<^verbatim>\<open>AppState\<close>. Its model is a function from the state to a result and
  the state it leaves behind; an early return with an error keeps the writes made before it,
  because the source runs its statements outside a transaction.
\<close>

named_theorems ok_iffs \<open>when a step of a handler succeeds, and with which state\<close>
named_theorems run_simps \<open>running one step of a handler\<close>
named_theorems keeps \<open>compositional rules for state predicates a handler preserves\<close>
named_theorems wps \<open>weakest preconditions of the handler monad\<close>

subsection \<open>Machine integers\<close>

type_synonym u8 = "8 word"
type_synonym u32 = "32 word"
type_synonym u64 = "64 word"

text \<open>
  An \<^verbatim>\<open>i64\<close> is an \<^typ>\<open>int\<close> in range; additions are written with the wrap-around of a
  release build. \<^verbatim>\<open>x as i64\<close> on a \<^verbatim>\<open>u64\<close> is \<^term>\<open>sint\<close>, \<^verbatim>\<open>y as u64\<close> on an
  \<^verbatim>\<open>i64\<close> is \<^term>\<open>word_of_int\<close>.
\<close>

definition wrap_i64 :: "int \<Rightarrow> int" where
  "wrap_i64 x = (x + 2 ^ 63) mod 2 ^ 64 - 2 ^ 63"

definition i64_range :: "int \<Rightarrow> bool" where
  "i64_range x \<longleftrightarrow> - (2 ^ 63) \<le> x \<and> x < 2 ^ 63"

lemma wrap_i64_range [simp]: "i64_range (wrap_i64 x)"
  by (simp add: wrap_i64_def i64_range_def)

lemma wrap_i64_id: "i64_range x \<Longrightarrow> wrap_i64 x = x"
  by (simp add: wrap_i64_def i64_range_def)

text \<open>Rust strings are UTF-8 byte sequences; a HOL \<^typ>\<open>char\<close> is one byte.\<close>

definition as_bytes :: "string \<Rightarrow> u8 list" where
  "as_bytes s = map of_char s"

lemma length_as_bytes [simp]: "length (as_bytes s) = length s"
  by (simp add: as_bytes_def)

lemma as_bytes_Nil [simp]: "as_bytes [] = []"
  by (simp add: as_bytes_def)

lemma as_bytes_Cons [simp]: "as_bytes (c # s) = of_char c # as_bytes s"
  by (simp add: as_bytes_def)

lemma as_bytes_append [simp]: "as_bytes (s @ t) = as_bytes s @ as_bytes t"
  by (simp add: as_bytes_def)

lemma of_char_u8_inject [simp]: "(of_char c :: u8) = of_char d \<longleftrightarrow> c = d"
proof
  assume "(of_char c :: u8) = of_char d"
  then have "(of_nat (of_char c) :: u8) = of_nat (of_char d)"
    by (simp only: of_nat_of_char)
  then have "take_bit 8 (of_char c :: nat) = take_bit 8 (of_char d)"
    by (simp only: word_of_nat_eq_iff) simp
  moreover have "take_bit 8 (of_char e :: nat) = of_char e" for e
    using nat_of_char_less_256 [of e] by (simp add: take_bit_nat_eq_self)
  ultimately show "c = d" by simp
qed simp

lemma as_bytes_inject [simp]: "as_bytes s = as_bytes t \<longleftrightarrow> s = t"
proof
  assume "as_bytes s = as_bytes t"
  then show "s = t"
    by (induction s arbitrary: t) (auto simp: as_bytes_def map_eq_Cons_conv Cons_eq_map_conv)
qed simp

text \<open>\<^verbatim>\<open>&s[..n]\<close> panics unless byte \<open>n\<close> starts a character.\<close>

definition is_char_boundary :: "string \<Rightarrow> nat \<Rightarrow> bool" where
  "is_char_boundary s n \<longleftrightarrow>
     n = length s \<or>
     (n < length s \<and> \<not> (128 \<le> (of_char (s ! n) :: nat) \<and> (of_char (s ! n) :: nat) < 192))"

text \<open>\<^verbatim>\<open>i64::to_string\<close>.\<close>

fun show_nat :: "nat \<Rightarrow> string" where
  "show_nat n = (if n < 10 then [char_of (48 + n)]
     else show_nat (n div 10) @ [char_of (48 + n mod 10)])"

declare show_nat.simps [simp del]

definition show_int :: "int \<Rightarrow> string" where
  "show_int i = (if i < 0 then CHR ''-'' # show_nat (nat (- i)) else show_nat (nat i))"

text \<open>\<^verbatim>\<open>str::parse\<close> to an unsigned integer below \<open>bound\<close>: an optional plus, then decimal digits.\<close>

fun parse_digits :: "nat \<Rightarrow> string \<Rightarrow> nat option" where
  "parse_digits acc [] = Some acc"
| "parse_digits acc (c # cs) =
     (let d = of_char c :: nat
      in if 48 \<le> d \<and> d \<le> 57 then parse_digits (acc * 10 + (d - 48)) cs else None)"

definition parse_unsigned :: "nat \<Rightarrow> string \<Rightarrow> nat option" where
  "parse_unsigned bound s =
     (let digits = (case s of [] \<Rightarrow> [] | c # cs \<Rightarrow> if c = CHR ''+'' then cs else s)
      in if digits = [] then None
         else case parse_digits 0 digits of None \<Rightarrow> None
           | Some n \<Rightarrow> if n < bound then Some n else None)"

lemma of_char_digit: "d < 10 \<Longrightarrow> (of_char (char_of (48 + d :: nat) :: char) :: nat) = 48 + d"
  by (simp add: take_bit_eq_mod)

lemma parse_digits_append:
  "parse_digits a (xs @ ys) = (case parse_digits a xs of None \<Rightarrow> None | Some b \<Rightarrow> parse_digits b ys)"
  by (induction xs arbitrary: a) (auto simp: Let_def)

lemma parse_show_nat: "parse_digits 0 (show_nat n) = Some n"
proof (induction n rule: show_nat.induct)
  case (1 n)
  show ?case
  proof (cases "n < 10")
    case True
    with of_char_digit [of n] show ?thesis by (simp add: show_nat.simps [of n] Let_def)
  next
    case False
    with 1 of_char_digit [of "n mod 10"] show ?thesis
      by (simp add: show_nat.simps [of n] parse_digits_append Let_def)
  qed
qed

lemma show_nat_chars: "c \<in> set (show_nat n) \<Longrightarrow> 48 \<le> (of_char c :: nat) \<and> (of_char c :: nat) \<le> 57"
proof (induction n rule: show_nat.induct)
  case (1 n)
  show ?case
  proof (cases "n < 10")
    case True
    with 1(2) of_char_digit [of n] show ?thesis by (simp add: show_nat.simps [of n])
  next
    case False
    with 1 of_char_digit [of "n mod 10"] show ?thesis by (auto simp: show_nat.simps [of n])
  qed
qed

lemma show_nat_nonempty: "show_nat n \<noteq> []"
  by (subst show_nat.simps) simp

lemma show_int_no_colon: "CHR '':'' \<notin> set (show_int i)"
  using show_nat_chars [of "CHR '':''"] by (auto simp: show_int_def)

text \<open>\<^verbatim>\<open>str::trim\<close> removes the characters with Unicode property White_Space, given here in UTF-8.\<close>

definition white_space :: "string list" where
  "white_space =
     map (\<lambda>n. [char_of (n :: nat)]) [9, 10, 11, 12, 13, 32] @
     map (map (char_of :: nat \<Rightarrow> char))
       ([[194, 133], [194, 160], [225, 154, 128], [226, 128, 168], [226, 128, 169],
         [226, 128, 175], [226, 129, 159], [227, 128, 128]] @
        map (\<lambda>n. [226, 128, n]) [128, 129, 130, 131, 132, 133, 134, 135, 136, 137, 138])"

function strip_prefixes :: "string list \<Rightarrow> string \<Rightarrow> string" where
  "strip_prefixes ws s =
     (case List.find (\<lambda>w. w \<noteq> [] \<and> take (length w) s = w) ws of
        None \<Rightarrow> s | Some w \<Rightarrow> strip_prefixes ws (drop (length w) s))"
  by pat_completeness auto
termination
proof (relation "measure (\<lambda>(ws, s). length s)")
  fix ws s w
  assume "List.find (\<lambda>w. w \<noteq> [] \<and> take (length w) s = w) ws = Some w"
  then have "w \<noteq> []" "take (length w) s = w" by (auto simp: find_Some_iff)
  then have "0 < length w" "0 < length s" by auto
  then show "((ws, drop (length w) s), ws, s) \<in> measure (\<lambda>(ws, s). length s)" by simp
qed simp

declare strip_prefixes.simps [simp del]

definition trim :: "string \<Rightarrow> string" where
  "trim s = rev (strip_prefixes (map rev white_space) (rev (strip_prefixes white_space s)))"

text \<open>Printable ASCII without blanks has nothing to trim.\<close>

definition printable :: "string \<Rightarrow> bool" where
  "printable s \<longleftrightarrow> list_all (\<lambda>c. 33 \<le> (of_char c :: nat) \<and> (of_char c :: nat) \<le> 126) s"

lemma strip_prefixes_id:
  assumes "\<And>w. w \<in> set ws \<Longrightarrow> w \<noteq> [] \<Longrightarrow> hd w \<notin> set s"
  shows "strip_prefixes ws s = s"
proof -
  have "\<not> (w \<noteq> [] \<and> take (length w) s = w)" if "w \<in> set ws" for w
    using assms [OF that] by (metis hd_in_set in_set_takeD)
  then have "List.find (\<lambda>w. w \<noteq> [] \<and> take (length w) s = w) ws = None" by (auto simp: find_None_iff)
  then show ?thesis by (subst strip_prefixes.simps) simp
qed

lemma white_space_ends: "w \<in> set white_space \<Longrightarrow> w \<noteq> [] \<and>
    \<not> (33 \<le> (of_char (hd w) :: nat) \<and> (of_char (hd w) :: nat) \<le> 126) \<and>
    \<not> (33 \<le> (of_char (hd (rev w)) :: nat) \<and> (of_char (hd (rev w)) :: nat) \<le> 126)"
  unfolding white_space_def by (auto simp: take_bit_eq_mod)

lemma trim_printable: "printable s \<Longrightarrow> trim s = s"
proof -
  assume p: "printable s"
  have "strip_prefixes white_space s = s"
    by (rule strip_prefixes_id) (use p white_space_ends in \<open>fastforce simp: printable_def list_all_iff\<close>)
  moreover have "strip_prefixes (map rev white_space) (rev s) = rev s"
    by (rule strip_prefixes_id) (use p white_space_ends in \<open>fastforce simp: printable_def list_all_iff\<close>)
  ultimately show ?thesis by (simp add: trim_def)
qed

text \<open>\<^verbatim>\<open>trim_end_matches('/')\<close>, applied to base URLs.\<close>

definition trim_end_slash :: "string \<Rightarrow> string" where
  "trim_end_slash x = rev (dropWhile (\<lambda>c. c = CHR ''/'') (rev x))"

subsection \<open>HTTP outcomes\<close>

text \<open>The status codes the handlers name; \<open>STATUS\<close> is any other, passed on from another server.\<close>

datatype status_code =
    OK | CREATED | NO_CONTENT
  | BAD_REQUEST | UNAUTHORIZED | FORBIDDEN | NOT_FOUND | CONFLICT | GONE
  | PAYLOAD_TOO_LARGE | UNPROCESSABLE_ENTITY | TOO_MANY_REQUESTS
  | INTERNAL_SERVER_ERROR | BAD_GATEWAY | SERVICE_UNAVAILABLE
  | STATUS nat

text \<open>
  The constraints of the SQLite schema that a statement can violate. The pool is opened with
  sqlx's defaults, so foreign keys are enforced.
\<close>

datatype db_constraint = UNIQUE | FOREIGN_KEY | NOT_NULL

text \<open>
  How a handler can fail: an error reply \<^verbatim>\<open>(StatusCode, String)\<close>; the reply
  \<^verbatim>\<open>(INTERNAL_SERVER_ERROR, format!("DB error: {e}"))\<close>, whose text is the database
  driver's and is kept as the violated constraint; or a panic of the handler task.
\<close>

datatype failure =
    Reject status_code string
  | DbError db_constraint
  | Panic

type_synonym 'a result = "failure + 'a"
type_synonym ('s, 'a) handler = "'s \<Rightarrow> 'a result \<times> 's"

subsection \<open>The handler monad\<close>

definition ret :: "'a \<Rightarrow> ('s, 'a) handler" where
  "ret x = (\<lambda>s. (Inr x, s))"

definition fail :: "failure \<Rightarrow> ('s, 'a) handler" where
  "fail e = (\<lambda>s. (Inl e, s))"

definition and_then :: "('s, 'a) handler \<Rightarrow> ('a \<Rightarrow> ('s, 'b) handler) \<Rightarrow> ('s, 'b) handler" where
  "and_then m f = (\<lambda>s. case m s of (Inl e, t) \<Rightarrow> (Inl e, t) | (Inr x, t) \<Rightarrow> f x t)"

definition gets :: "('s \<Rightarrow> 'a) \<Rightarrow> ('s, 'a) handler" where
  "gets f = (\<lambda>s. (Inr (f s), s))"

definition modify :: "('s \<Rightarrow> 's) \<Rightarrow> ('s, unit) handler" where
  "modify f = (\<lambda>s. (Inr (), f s))"

text \<open>\<^verbatim>\<open>?\<close> on a value already computed, and the two forms of early return.\<close>

definition lift :: "'a result \<Rightarrow> ('s, 'a) handler" where
  "lift r = (\<lambda>s. (r, s))"

definition check :: "bool \<Rightarrow> failure \<Rightarrow> ('s, unit) handler" where
  "check b e = (if b then ret () else fail e)"

definition ok_or :: "'a option \<Rightarrow> failure \<Rightarrow> ('s, 'a) handler" where
  "ok_or x e = (case x of None \<Rightarrow> fail e | Some v \<Rightarrow> ret v)"

text \<open>A statement that may violate a constraint: on success the new state, otherwise nothing.\<close>

definition exec :: "('s \<Rightarrow> failure + 's) \<Rightarrow> ('s, unit) handler" where
  "exec f = (\<lambda>s. case f s of Inl e \<Rightarrow> (Inl e, s) | Inr t \<Rightarrow> (Inr (), t))"

text \<open>A statement whose outcome the code ignores (\<^verbatim>\<open>let _ = ...\<close>).\<close>

definition ignoring :: "('s, 'a) handler \<Rightarrow> ('s, unit) handler" where
  "ignoring m = (\<lambda>s. (Inr (), snd (m s)))"

fun for_each :: "('x \<Rightarrow> ('s, unit) handler) \<Rightarrow> 'x list \<Rightarrow> ('s, unit) handler" where
  "for_each f [] = ret ()"
| "for_each f (x # xs) = and_then (f x) (\<lambda>_. for_each f xs)"

text \<open>The \<open>ok_iffs\<close> collection takes a successful run apart, step by step.\<close>

lemma ret_ok [ok_iffs]: "ret x s = (Inr y, t) \<longleftrightarrow> y = x \<and> t = s"
  by (auto simp: ret_def)

lemma fail_ok [ok_iffs]: "fail e s = (Inr y, t) \<longleftrightarrow> False"
  by (simp add: fail_def)

lemma and_then_ok [ok_iffs]:
  "and_then m f s = (Inr y, u) \<longleftrightarrow> (\<exists>x t. m s = (Inr x, t) \<and> f x t = (Inr y, u))"
  by (auto simp: and_then_def split: prod.splits sum.splits)

lemma gets_ok [ok_iffs]: "gets f s = (Inr y, t) \<longleftrightarrow> y = f s \<and> t = s"
  by (auto simp: gets_def)

lemma modify_ok [ok_iffs]: "modify f s = (Inr y, t) \<longleftrightarrow> t = f s"
  by (auto simp: modify_def)

lemma lift_ok [ok_iffs]: "lift r s = (Inr y, t) \<longleftrightarrow> r = Inr y \<and> t = s"
  by (auto simp: lift_def)

lemma check_ok [ok_iffs]: "check b e s = (Inr y, t) \<longleftrightarrow> b \<and> t = s"
  by (auto simp: check_def ret_def fail_def)

lemma ok_or_ok [ok_iffs]: "ok_or x e s = (Inr y, t) \<longleftrightarrow> x = Some y \<and> t = s"
  by (auto simp: ok_or_def ret_def fail_def split: option.splits)

lemma exec_ok [ok_iffs]: "exec f s = (Inr y, t) \<longleftrightarrow> f s = Inr t"
  by (auto simp: exec_def split: sum.splits)

lemma ignoring_ok [ok_iffs]: "ignoring m s = (Inr y, t) \<longleftrightarrow> t = snd (m s)"
  by (auto simp: ignoring_def)

lemma if_ok [ok_iffs]:
  "(if b then m else n) s = (Inr y, t) \<longleftrightarrow> (if b then m s = (Inr y, t) else n s = (Inr y, t))"
  by simp

text \<open>The \<open>run_simps\<close> collection evaluates a run on a known state.\<close>

lemmas run_defs [run_simps] =
  ret_def fail_def and_then_def gets_def modify_def lift_def check_def ok_or_def exec_def
  ignoring_def

text \<open>A run known to succeed, for concrete runs that are only evaluated that far.\<close>

lemma succeeded: "\<not> isl (fst p) \<Longrightarrow> \<exists>x t. p = (Inr x, t)"
  by (cases p; cases "fst p") auto

subsection \<open>State predicates a handler preserves\<close>

text \<open>
  \<open>preserves P m\<close>: whatever the outcome, \<open>m\<close> leaves a state in \<open>P\<close> when started in one.
  The rules below reduce a handler to its writing statements.
\<close>

definition preserves :: "('s \<Rightarrow> bool) \<Rightarrow> ('s, 'a) handler \<Rightarrow> bool" where
  "preserves P m \<longleftrightarrow> (\<forall>s. P s \<longrightarrow> P (snd (m s)))"

lemma preservesD: "preserves P m \<Longrightarrow> P s \<Longrightarrow> m s = (r, t) \<Longrightarrow> P t"
  by (force simp: preserves_def)

lemma preserves_ret [keeps]: "preserves P (ret x)"
  by (simp add: preserves_def ret_def)

lemma preserves_fail [keeps]: "preserves P (fail e)"
  by (simp add: preserves_def fail_def)

lemma preserves_and_then [keeps]:
  "preserves P m \<Longrightarrow> (\<And>x. preserves P (f x)) \<Longrightarrow> preserves P (and_then m f)"
  unfolding preserves_def and_then_def
  by (auto split: prod.splits sum.splits)

lemma preserves_gets [keeps]: "preserves P (gets f)"
  by (simp add: preserves_def gets_def)

lemma preserves_lift [keeps]: "preserves P (lift r)"
  by (simp add: preserves_def lift_def)

lemma preserves_check [keeps]: "preserves P (check b e)"
  by (simp add: check_def preserves_ret preserves_fail)

lemma preserves_check_then:
  "(b \<Longrightarrow> preserves P (f ())) \<Longrightarrow> preserves P (and_then (check b e) f)"
  by (cases b) (auto simp: preserves_def and_then_def check_def ret_def fail_def)

lemma preserves_ok_or [keeps]: "preserves P (ok_or x e)"
  by (simp add: ok_or_def preserves_ret preserves_fail split: option.split)

lemma preserves_if [keeps]:
  "preserves P m \<Longrightarrow> preserves P n \<Longrightarrow> preserves P (if b then m else n)"
  by simp

lemma preserves_case_option [keeps]:
  "preserves P m \<Longrightarrow> (\<And>x. preserves P (f x)) \<Longrightarrow>
   preserves P (case z of None \<Rightarrow> m | Some x \<Rightarrow> f x)"
  by (cases z) auto

lemma preserves_ignoring [keeps]: "preserves P m \<Longrightarrow> preserves P (ignoring m)"
  by (simp add: preserves_def ignoring_def)

lemma preserves_for_each [keeps]: "(\<And>x. preserves P (f x)) \<Longrightarrow> preserves P (for_each f xs)"
  by (induction xs) (auto intro: preserves_ret preserves_and_then)

lemma preserves_modify: "(\<And>s. P s \<Longrightarrow> P (f s)) \<Longrightarrow> preserves P (modify f)"
  by (simp add: preserves_def modify_def)

lemma preserves_exec: "(\<And>s t. P s \<Longrightarrow> f s = Inr t \<Longrightarrow> P t) \<Longrightarrow> preserves P (exec f)"
  by (auto simp: preserves_def exec_def split: sum.splits)

subsection \<open>Weakest preconditions\<close>

text \<open>
  \<open>wp m Q E s\<close>: run in \<open>s\<close>, the handler \<open>m\<close> either returns a value and a state in \<open>Q\<close>, or fails
  with a failure and a state in \<open>E\<close>. The \<open>wps\<close> collection computes it along the structure of a
  handler; only a loop needs an invariant.
\<close>

definition wp :: "('s, 'a) handler \<Rightarrow> ('a \<Rightarrow> 's \<Rightarrow> bool) \<Rightarrow> (failure \<Rightarrow> 's \<Rightarrow> bool) \<Rightarrow> 's \<Rightarrow> bool" where
  "wp m Q E s = (case m s of (Inl e, t) \<Rightarrow> E e t | (Inr x, t) \<Rightarrow> Q x t)"

lemma wp_ret [wps]: "wp (ret x) Q E s = Q x s"
  by (simp add: wp_def ret_def)

lemma wp_fail [wps]: "wp (fail e) Q E s = E e s"
  by (simp add: wp_def fail_def)

lemma wp_and_then [wps]: "wp (and_then m f) Q E s = wp m (\<lambda>x. wp (f x) Q E) E s"
  by (auto simp: wp_def and_then_def split: prod.splits sum.splits)

lemma wp_gets [wps]: "wp (gets f) Q E s = Q (f s) s"
  by (simp add: wp_def gets_def)

lemma wp_modify [wps]: "wp (modify f) Q E s = Q () (f s)"
  by (simp add: wp_def modify_def)

lemma wp_lift [wps]: "wp (lift r) Q E s = (case r of Inl e \<Rightarrow> E e s | Inr x \<Rightarrow> Q x s)"
  by (auto simp: wp_def lift_def split: sum.splits)

lemma wp_check [wps]: "wp (check b e) Q E s = (if b then Q () s else E e s)"
  by (simp add: check_def wp_ret wp_fail)

lemma wp_ok_or [wps]: "wp (ok_or x e) Q E s = (case x of None \<Rightarrow> E e s | Some v \<Rightarrow> Q v s)"
  by (auto simp: ok_or_def wp_ret wp_fail split: option.splits)

lemma wp_exec [wps]: "wp (exec f) Q E s = (case f s of Inl e \<Rightarrow> E e s | Inr t \<Rightarrow> Q () t)"
  by (auto simp: wp_def exec_def split: sum.splits)

lemma wp_ignoring [wps]: "wp (ignoring m) Q E s = Q () (snd (m s))"
  by (simp add: wp_def ignoring_def)

lemma wp_if [wps]: "wp (if b then m else n) Q E s = (if b then wp m Q E s else wp n Q E s)"
  by simp

lemma wp_case_option [wps]:
  "wp (case z of None \<Rightarrow> m | Some x \<Rightarrow> f x) Q E s =
     (case z of None \<Rightarrow> wp m Q E s | Some x \<Rightarrow> wp (f x) Q E s)"
  by (cases z) auto

lemma wp_check_then:
  "E e s \<Longrightarrow> (b \<Longrightarrow> wp (f ()) Q E s) \<Longrightarrow> wp (and_then (check b e) f) Q E s"
  by (simp add: wps)

lemma wp_for_each:
  assumes "I s" and "\<And>x t. x \<in> set xs \<Longrightarrow> I t \<Longrightarrow> wp (f x) (\<lambda>_. I) E t" and "\<And>t. I t \<Longrightarrow> Q () t"
  shows "wp (for_each f xs) Q E s"
  using assms(1,2)
proof (induction xs arbitrary: s)
  case Nil
  then show ?case by (simp add: wps assms(3))
next
  case (Cons x xs)
  then have "wp (f x) (\<lambda>_. I) E s" by simp
  then have "wp (f x) (\<lambda>_. wp (for_each f xs) Q E) E s"
    using Cons.IH Cons.prems(2) by (fastforce simp: wp_def split: prod.splits sum.splits)
  then show ?case by (simp add: wps)
qed

lemma wp_mono:
  "wp m Q E s \<Longrightarrow> (\<And>x t. Q x t \<Longrightarrow> Q' x t) \<Longrightarrow> (\<And>e t. E e t \<Longrightarrow> E' e t) \<Longrightarrow> wp m Q' E' s"
  by (auto simp: wp_def split: prod.splits sum.splits)

lemma wp_okD: "wp m Q E s \<Longrightarrow> m s = (Inr x, t) \<Longrightarrow> Q x t"
  by (simp add: wp_def)

lemma wp_always: "wp m (\<lambda>_. P) (\<lambda>_. P) s \<longleftrightarrow> P (snd (m s))"
  by (auto simp: wp_def split: prod.splits sum.splits)

lemma preserves_wp: "preserves P m \<Longrightarrow> P s \<Longrightarrow> wp m (\<lambda>_. P) (\<lambda>_. P) s"
  by (simp add: wp_always preserves_def)

text \<open>A step that never writes, such as a chain of checks.\<close>

lemma wp_pure:
  assumes "\<And>P. preserves P m" "\<And>e. E e s" "\<And>x. wp (f x) Q E s"
  shows "wp (and_then m f) Q E s"
proof -
  obtain r t where m: "m s = (r, t)" by (cases "m s")
  then have "t = s" using assms(1) [of "\<lambda>u. u = s"] by (auto simp: preserves_def)
  with m assms(2,3) show ?thesis by (cases r) (auto simp: wp_def and_then_def)
qed

lemma preserves_if_wp: "(\<And>s. P s \<Longrightarrow> wp m (\<lambda>_. P) (\<lambda>_. P) s) \<Longrightarrow> preserves P m"
  by (simp add: wp_always preserves_def)

text \<open>A step that only reads.\<close>

lemma wp_reading:
  assumes "\<And>P. preserves P m"
  shows "wp m Q E s = (case fst (m s) of Inl e \<Rightarrow> E e s | Inr x \<Rightarrow> Q x s)"
proof -
  have "snd (m s) = s" using assms [of "\<lambda>t. t = s"] by (simp add: preserves_def)
  then show ?thesis by (cases "m s") (auto simp: wp_def split: sum.splits)
qed

lemma and_then_assoc: "and_then (and_then m f) g = and_then m (\<lambda>x. and_then (f x) g)"
  by (auto simp: and_then_def fun_eq_iff split: prod.splits sum.splits)

subsection \<open>Runs of a deterministic machine\<close>

primrec run :: "('s \<Rightarrow> 'e \<Rightarrow> 's) \<Rightarrow> 's \<Rightarrow> 'e list \<Rightarrow> 's" where
  "run step s [] = s"
| "run step s (e # es) = run step (step s e) es"

lemma run_append: "run step s (es @ fs) = run step (run step s es) fs"
  by (induction es arbitrary: s) auto

lemma run_invariant: "(\<And>s e. P s \<Longrightarrow> P (step s e)) \<Longrightarrow> P s \<Longrightarrow> P (run step s es)"
  by (induction es arbitrary: s) auto

subsection \<open>Tracing a fact back to the request that established it\<close>

text \<open>
  \<open>holds k s\<close> is a bit of the state, such as a membership, and \<open>grants s op k\<close> the condition under
  which the request \<open>op\<close> may set it. A bit that was not set at first has such a request in the run.
\<close>

locale traced =
  fixes ok :: "'s \<Rightarrow> bool"
    and step :: "'s \<Rightarrow> 'op \<Rightarrow> 's"
    and holds :: "'k \<Rightarrow> 's \<Rightarrow> bool"
    and grants :: "'s \<Rightarrow> 'op \<Rightarrow> 'k \<Rightarrow> bool"
  assumes ok_step: "ok s \<Longrightarrow> ok (step s op)"
    and holds_step: "ok s \<Longrightarrow> holds k (step s op) \<Longrightarrow> holds k s \<or> grants s op k"
begin

lemma granted_in_run:
  assumes "ok s" "holds k (run step s ops)" "\<not> holds k s"
  shows "\<exists>pre op post. ops = pre @ op # post \<and> grants (run step s pre) op k"
  using assms
proof (induction ops arbitrary: s)
  case (Cons op ops)
  show ?case
  proof (cases "holds k (step s op)")
    case True
    with Cons.prems holds_step have "grants s op k" by blast
    then show ?thesis by (intro exI [of _ "[]"]) auto
  next
    case False
    with Cons.IH [of "step s op"] Cons.prems ok_step obtain pre op' post where
      "ops = pre @ op' # post" "grants (run step (step s op) pre) op' k" by auto
    then show ?thesis by (intro exI [of _ "op # pre"]) auto
  qed
qed simp

end

end
