(* ===== verification/Crypto.thy ===== *)
theory Crypto
  imports Prelude
begin

text \<open>
  The cryptographic boundary of the identity crate (\<^verbatim>\<open>identity/src/lib.rs\<close>).

  Ed25519, SHA-2 and the hex codec are third-party crates. They enter the model as one record of
  functions, an argument \<open>K\<close> of every definition that reaches them. What a theorem needs of
  them is a named predicate on \<open>K\<close> stating documented behaviour of the crate.
\<close>

record crypto =
  hex_encode :: "u8 list \<Rightarrow> string"
  hex_decode :: "string \<Rightarrow> string + u8 list"  \<comment> \<open>\<open>Inl\<close> is the error's display text\<close>
  sha256 :: "u8 list \<Rightarrow> u8 list"
  sha512 :: "u8 list \<Rightarrow> u8 list"
  verifying_key_ok :: "u8 list \<Rightarrow> bool"  \<comment> \<open>\<^verbatim>\<open>VerifyingKey::from_bytes\<close> succeeds\<close>
  ed25519_verify :: "u8 list \<Rightarrow> u8 list \<Rightarrow> u8 list \<Rightarrow> bool"
    \<comment> \<open>key bytes, message, signature bytes\<close>
  ed25519_public :: "u8 list \<Rightarrow> u8 list"  \<comment> \<open>public key bytes of a 32-byte seed\<close>
  ed25519_sign :: "u8 list \<Rightarrow> u8 list \<Rightarrow> u8 list"  \<comment> \<open>seed, message\<close>

text \<open>Documented behaviour of the crates, as named hypotheses.\<close>

definition hex_roundtrip :: "crypto \<Rightarrow> bool" where
  "hex_roundtrip K \<longleftrightarrow> (\<forall>bs. hex_decode K (hex_encode K bs) = Inr bs)"

definition signing_correct :: "crypto \<Rightarrow> bool" where
  "signing_correct K \<longleftrightarrow>
     (\<forall>seed m. length seed = 32 \<longrightarrow>
        length (ed25519_public K seed) = 32 \<and>
        verifying_key_ok K (ed25519_public K seed) \<and>
        length (ed25519_sign K seed m) = 64 \<and>
        ed25519_verify K (ed25519_public K seed) m (ed25519_sign K seed m))"

subsection \<open>Signature verification\<close>

text \<open>
  \<^verbatim>\<open>verify_signature\<close>: errors are \<^verbatim>\<open>anyhow\<close> values whose display text is the outermost
  context, which is what the handlers interpolate.
\<close>

definition verify_signature ::
    "crypto \<Rightarrow> string \<Rightarrow> u8 list \<Rightarrow> u8 list \<Rightarrow> string + unit" where
  "verify_signature K public_key_hex message signature_bytes =
     (case hex_decode K public_key_hex of
        Inl _ \<Rightarrow> Inl ''Invalid public key hex''
      | Inr pub_bytes \<Rightarrow>
          if length pub_bytes \<noteq> 32 then Inl ''Public key must be 32 bytes''
          else if \<not> verifying_key_ok K pub_bytes then Inl ''Invalid public key bytes''
          else if length signature_bytes \<noteq> 64 then Inl ''Signature must be 64 bytes''
          else if \<not> ed25519_verify K pub_bytes message signature_bytes
            then Inl ''Signature verification failed''
          else Inr ())"

lemma verify_signature_ok:
  "verify_signature K pk m sig = Inr u \<longleftrightarrow>
     (\<exists>pub. hex_decode K pk = Inr pub \<and> length pub = 32 \<and> verifying_key_ok K pub \<and>
        length sig = 64 \<and> ed25519_verify K pub m sig)"
  by (auto simp: verify_signature_def split: sum.splits)

subsection \<open>The identity of a device or hub\<close>

text \<open>\<^verbatim>\<open>Identity\<close>: the signing key is its 32-byte seed.\<close>

record identity =
  signing_key :: "u8 list"
  security_nonce :: u64
  security_level :: nat

definition public_key_hex :: "crypto \<Rightarrow> identity \<Rightarrow> string" where
  "public_key_hex K i = hex_encode K (ed25519_public K (signing_key i))"

definition sign :: "crypto \<Rightarrow> identity \<Rightarrow> u8 list \<Rightarrow> u8 list" where
  "sign K i m = ed25519_sign K (signing_key i) m"

text \<open>
  The identity file. \<^verbatim>\<open>SavedIdentity\<close> is what \<^verbatim>\<open>save\<close> hands to \<^verbatim>\<open>serde_json\<close> and
  what \<^verbatim>\<open>load\<close> gets back from it; the JSON text and the file system are left out.
\<close>

record saved_identity =
  secret_key :: string
  saved_nonce :: "u64 option"
  saved_level :: "nat option"

definition save :: "crypto \<Rightarrow> identity \<Rightarrow> saved_identity" where
  "save K i = \<lparr>secret_key = hex_encode K (signing_key i),
               saved_nonce = Some (security_nonce i), saved_level = Some (security_level i)\<rparr>"

definition load :: "crypto \<Rightarrow> saved_identity \<Rightarrow> string + identity" where
  "load K d =
     (case hex_decode K (secret_key d) of
        Inl _ \<Rightarrow> Inl ''Invalid hex in identity file''
      | Inr secret_bytes \<Rightarrow>
          if length secret_bytes \<noteq> 32 then Inl ''Secret key must be exactly 32 bytes''
          else Inr \<lparr>signing_key = secret_bytes,
                    security_nonce = (case saved_nonce d of None \<Rightarrow> 0 | Some n \<Rightarrow> n),
                    security_level = (case saved_level d of None \<Rightarrow> 0 | Some l \<Rightarrow> l)\<rparr>)"

lemma load_save:
  assumes "hex_roundtrip K" and "length (signing_key i) = 32"
  shows "load K (save K i) = Inr i"
  using assms by (simp add: load_def save_def hex_roundtrip_def)

lemma sign_verifies:
  assumes "hex_roundtrip K" "signing_correct K" "length (signing_key i) = 32"
  shows "verify_signature K (public_key_hex K i) m (sign K i m) = Inr ()"
  using assms
  by (simp add: verify_signature_def public_key_hex_def sign_def hex_roundtrip_def
      signing_correct_def)

text \<open>
  \<^verbatim>\<open>dh_keypair\<close>: the X25519 scalar, \<^verbatim>\<open>SHA-512(seed)[..32]\<close> with the clamping of RFC 7748.
\<close>

unbundle bit_operations_syntax

definition dh_scalar :: "crypto \<Rightarrow> identity \<Rightarrow> u8 list" where
  "dh_scalar K i =
     (let hash = sha512 K (signing_key i);
          scalar0 = take 32 hash;
          scalar1 = scalar0[0 := scalar0 ! 0 AND 248];
          scalar2 = scalar1[31 := scalar1 ! 31 AND 127];
          scalar3 = scalar2[31 := scalar2 ! 31 OR 64]
      in scalar3)"

text \<open>
  A concrete instance of the boundary, used by the witnesses: hex digits are the characters of
  the bytes, a key is its own seed, and a signature is the key followed by 32 bytes that depend
  on the message.
\<close>

definition pad_to :: "nat \<Rightarrow> u8 list \<Rightarrow> u8 list" where
  "pad_to n bs = take n (bs @ replicate n 0)"

lemma length_pad_to [simp]: "length (pad_to n bs) = n"
  by (simp add: pad_to_def)

definition demo_crypto :: crypto where
  "demo_crypto =
     \<lparr>hex_encode = map (\<lambda>b. char_of (unat b)),
      hex_decode = (\<lambda>s. Inr (as_bytes s)),
      sha256 = pad_to 32, sha512 = pad_to 64,
      verifying_key_ok = (\<lambda>_. True),
      ed25519_verify = (\<lambda>pk m sig. sig = pad_to 32 pk @ pad_to 32 m),
      ed25519_public = (\<lambda>seed. seed),
      ed25519_sign = (\<lambda>seed m. pad_to 32 seed @ pad_to 32 m)\<rparr>"

lemma demo_crypto_sel [simp]:
  "hex_encode demo_crypto bs = map (\<lambda>b. char_of (unat b)) bs"
  "hex_decode demo_crypto s = Inr (as_bytes s)"
  "sha256 demo_crypto m = pad_to 32 m"
  "sha512 demo_crypto m = pad_to 64 m"
  "verifying_key_ok demo_crypto pk"
  "ed25519_verify demo_crypto pk m sig \<longleftrightarrow> sig = pad_to 32 pk @ pad_to 32 m"
  "ed25519_public demo_crypto seed = seed"
  "ed25519_sign demo_crypto seed m = pad_to 32 seed @ pad_to 32 m"
  by (simp_all add: demo_crypto_def)

lemma as_bytes_char_of_unat: "as_bytes (map (\<lambda>b. char_of (unat b)) bs) = bs"
proof -
  have "(of_char (char_of (unat b) :: char) :: u8) = b" for b :: u8
  proof -
    have "unat b < 2 ^ 8" using unsigned_less [of b] by simp
    then have "(of_char (char_of (unat b) :: char) :: nat) = unat b"
      by (simp add: of_char_of)
    then have "(of_nat (of_char (char_of (unat b) :: char)) :: u8) = of_nat (unat b)"
      by (simp only:)
    then show ?thesis by (simp only: of_nat_of_char of_nat_unat ucast_id)
  qed
  then show ?thesis by (induction bs) (simp_all add: as_bytes_def)
qed

lemma demo_key_bytes: "as_bytes (public_key_hex demo_crypto i) = signing_key i"
  by (simp add: public_key_hex_def as_bytes_char_of_unat)

lemma demo_hex_roundtrip: "hex_roundtrip demo_crypto"
  by (simp add: hex_roundtrip_def as_bytes_char_of_unat)

lemma demo_signing_correct: "signing_correct demo_crypto"
  by (simp add: signing_correct_def)

end
