(* ===== verification/Wire.thy ===== *)
theory Wire
  imports Crypto
begin

text \<open>
  The signed wire formats of \<^verbatim>\<open>identity/src/wire.rs\<close>: the byte strings that master keys,
  device subkeys and users sign, and the checks of those signatures.

  The definitions append to a buffer as the source does. The locale \<open>prefix_code\<close> states
  what makes such an encoding unambiguous; its interpretations for integers, strings, string
  vectors and hub entries carry the proofs that every signed message determines its fields.
\<close>

subsection \<open>Primitive encoders\<close>

definition le_bytes :: "nat \<Rightarrow> 'a::len word \<Rightarrow> u8 list" where
  "le_bytes n v = map (\<lambda>i. ucast (drop_bit (8 * i) v)) [0..<n]"

definition write_u32_le :: "u8 list \<Rightarrow> u32 \<Rightarrow> u8 list" where
  "write_u32_le buf v = buf @ le_bytes 4 v"

definition write_u64_le :: "u8 list \<Rightarrow> u64 \<Rightarrow> u8 list" where
  "write_u64_le buf v = buf @ le_bytes 8 v"

text \<open>\<^verbatim>\<open>s.len() as u32\<close> truncates.\<close>

definition write_str :: "u8 list \<Rightarrow> string \<Rightarrow> u8 list" where
  "write_str buf s = write_u32_le buf (of_nat (length s)) @ as_bytes s"

definition write_str_vec :: "u8 list \<Rightarrow> string list \<Rightarrow> u8 list" where
  "write_str_vec buf v = foldl write_str (write_u32_le buf (of_nat (length v))) v"

definition check_sig :: "crypto \<Rightarrow> string \<Rightarrow> u8 list \<Rightarrow> string \<Rightarrow> string + unit" where
  "check_sig K master_pubkey_hex signing_bytes signature_hex =
     (case hex_decode K signature_hex of
        Inl _ \<Rightarrow> Inl ''Invalid signature hex''
      | Inr sig \<Rightarrow> verify_signature K master_pubkey_hex signing_bytes sig)"

subsection \<open>Messages\<close>

record home_hub_list =
  hhl_master_pubkey :: string
  hhl_hubs :: "string list"
  hhl_issued_at :: u64
  hhl_sequence :: u64
  hhl_signature :: string

definition home_hub_list_signing_bytes ::
    "string \<Rightarrow> string list \<Rightarrow> u64 \<Rightarrow> u64 \<Rightarrow> u8 list" where
  "home_hub_list_signing_bytes master_pubkey hubs issued_at sequence =
     (let buf = as_bytes (''voxply/home-hub-list/v1'' @ [CHR 0x00]);
          buf = write_str buf master_pubkey;
          buf = write_str_vec buf hubs;
          buf = write_u64_le buf issued_at;
          buf = write_u64_le buf sequence
      in buf)"

definition home_hub_list_verify :: "crypto \<Rightarrow> home_hub_list \<Rightarrow> string + unit" where
  "home_hub_list_verify K h =
     check_sig K (hhl_master_pubkey h)
       (home_hub_list_signing_bytes (hhl_master_pubkey h) (hhl_hubs h) (hhl_issued_at h)
          (hhl_sequence h))
       (hhl_signature h)"

record subkey_cert =
  sc_master_pubkey :: string
  sc_subkey_pubkey :: string
  sc_device_label :: string
  sc_issued_at :: u64
  sc_not_after :: "u64 option"
  sc_fallback_hubs :: "string list"
  sc_signature :: string

definition subkey_cert_signing_bytes ::
    "string \<Rightarrow> string \<Rightarrow> string \<Rightarrow> u64 \<Rightarrow> u64 option \<Rightarrow> string list \<Rightarrow> u8 list" where
  "subkey_cert_signing_bytes master_pubkey subkey_pubkey device_label issued_at not_after
       fallback_hubs =
     (let buf = as_bytes (''voxply/subkey-cert/v1'' @ [CHR 0x00]);
          buf = write_str buf master_pubkey;
          buf = write_str buf subkey_pubkey;
          buf = write_str buf device_label;
          buf = write_u64_le buf issued_at;
          buf = (case not_after of
                   Some t \<Rightarrow> write_u64_le (buf @ [1]) t
                 | None \<Rightarrow> buf @ [0]);
          buf = write_str_vec buf fallback_hubs
      in buf)"

definition subkey_cert_verify :: "crypto \<Rightarrow> subkey_cert \<Rightarrow> string + unit" where
  "subkey_cert_verify K c =
     check_sig K (sc_master_pubkey c)
       (subkey_cert_signing_bytes (sc_master_pubkey c) (sc_subkey_pubkey c) (sc_device_label c)
          (sc_issued_at c) (sc_not_after c) (sc_fallback_hubs c))
       (sc_signature c)"

record revocation_entry =
  re_master_pubkey :: string
  re_subkey_pubkey :: string
  re_revoked_at :: u64
  re_signature :: string

definition revocation_signing_bytes :: "string \<Rightarrow> string \<Rightarrow> u64 \<Rightarrow> u8 list" where
  "revocation_signing_bytes master_pubkey subkey_pubkey revoked_at =
     (let buf = as_bytes (''voxply/revocation/v1'' @ [CHR 0x00]);
          buf = write_str buf master_pubkey;
          buf = write_str buf subkey_pubkey;
          buf = write_u64_le buf revoked_at
      in buf)"

definition revocation_verify :: "crypto \<Rightarrow> revocation_entry \<Rightarrow> string + unit" where
  "revocation_verify K r =
     check_sig K (re_master_pubkey r)
       (revocation_signing_bytes (re_master_pubkey r) (re_subkey_pubkey r) (re_revoked_at r))
       (re_signature r)"

record signed_prefs_blob =
  pb_master_pubkey :: string
  pb_blob_version :: u64
  pb_ciphertext_hex :: string
  pb_signature :: string

definition prefs_blob_signing_bytes ::
    "crypto \<Rightarrow> string \<Rightarrow> u64 \<Rightarrow> u8 list \<Rightarrow> u8 list" where
  "prefs_blob_signing_bytes K master_pubkey blob_version ciphertext =
     (let digest = sha256 K ciphertext;
          buf = as_bytes (''voxply/prefs-blob/v1'' @ [CHR 0x00]);
          buf = write_str buf master_pubkey;
          buf = write_u64_le buf blob_version;
          buf = buf @ digest
      in buf)"

definition prefs_blob_verify :: "crypto \<Rightarrow> signed_prefs_blob \<Rightarrow> string + unit" where
  "prefs_blob_verify K b =
     (case hex_decode K (pb_ciphertext_hex b) of
        Inl e \<Rightarrow> Inl (''Invalid ciphertext hex: '' @ e)
      | Inr ciphertext \<Rightarrow>
          check_sig K (pb_master_pubkey b)
            (prefs_blob_signing_bytes K (pb_master_pubkey b) (pb_blob_version b) ciphertext)
            (pb_signature b))"

record pairing_offer =
  po_master_pubkey :: string
  po_home_hubs :: "string list"
  po_pairing_token :: string
  po_issued_at :: u64
  po_expires_at :: u64
  po_signature :: string

definition pairing_offer_signing_bytes ::
    "string \<Rightarrow> string list \<Rightarrow> string \<Rightarrow> u64 \<Rightarrow> u64 \<Rightarrow> u8 list" where
  "pairing_offer_signing_bytes master_pubkey home_hubs pairing_token issued_at expires_at =
     (let buf = as_bytes (''voxply/pairing-offer/v1'' @ [CHR 0x00]);
          buf = write_str buf master_pubkey;
          buf = write_str_vec buf home_hubs;
          buf = write_str buf pairing_token;
          buf = write_u64_le buf issued_at;
          buf = write_u64_le buf expires_at
      in buf)"

definition pairing_offer_verify :: "crypto \<Rightarrow> pairing_offer \<Rightarrow> string + unit" where
  "pairing_offer_verify K p =
     check_sig K (po_master_pubkey p)
       (pairing_offer_signing_bytes (po_master_pubkey p) (po_home_hubs p) (po_pairing_token p)
          (po_issued_at p) (po_expires_at p))
       (po_signature p)"

record pairing_claim =
  pc_pairing_token :: string
  pc_subkey_pubkey :: string
  pc_device_label :: string
  pc_proof :: string

definition pairing_claim_signing_bytes :: "string \<Rightarrow> string \<Rightarrow> string \<Rightarrow> u8 list" where
  "pairing_claim_signing_bytes pairing_token subkey_pubkey device_label =
     (let buf = as_bytes (''voxply/pairing-claim/v1'' @ [CHR 0x00]);
          buf = write_str buf pairing_token;
          buf = write_str buf subkey_pubkey;
          buf = write_str buf device_label
      in buf)"

definition pairing_claim_verify :: "crypto \<Rightarrow> pairing_claim \<Rightarrow> string + unit" where
  "pairing_claim_verify K c =
     check_sig K (pc_subkey_pubkey c)
       (pairing_claim_signing_bytes (pc_pairing_token c) (pc_subkey_pubkey c)
          (pc_device_label c))
       (pc_proof c)"

record pairing_complete =
  pd_pairing_token :: string
  pd_cert :: subkey_cert
  pd_wrapped_blob_key_hex :: string

datatype pairing_status =
    Pending
  | Claimed string string
  | Complete subkey_cert string
  | Expired

record dh_key_record =
  dk_pubkey :: string
  dk_dh_pubkey_hex :: string
  dk_signature_hex :: string
  dk_published_at :: int

definition dh_key_signing_bytes :: "string \<Rightarrow> string \<Rightarrow> u8 list" where
  "dh_key_signing_bytes pubkey dh_pubkey_hex =
     (let out = as_bytes (''voxply/dh-key/v1'' @ [CHR 0x00]);
          out = out @ le_bytes 4 (of_nat (length pubkey) :: u32);
          out = out @ as_bytes pubkey;
          out = out @ le_bytes 4 (of_nat (length dh_pubkey_hex) :: u32);
          out = out @ as_bytes dh_pubkey_hex
      in out)"

definition dh_key_verify :: "crypto \<Rightarrow> dh_key_record \<Rightarrow> string + unit" where
  "dh_key_verify K r =
     (case hex_decode K (dk_signature_hex r) of
        Inl e \<Rightarrow> Inl e
      | Inr sig \<Rightarrow>
          verify_signature K (dk_pubkey r)
            (dh_key_signing_bytes (dk_pubkey r) (dk_dh_pubkey_hex r)) sig)"

record public_hub_entry =
  phe_hub_url :: string
  phe_hub_name :: string
  phe_joined_at :: u64

record public_hub_profile =
  php_pubkey :: string
  php_display_name :: string
  php_avatar :: "string option"
  php_public_hubs :: "public_hub_entry list"
  php_issued_at :: u64
  php_signature :: string

definition write_hub_entry :: "u8 list \<Rightarrow> public_hub_entry \<Rightarrow> u8 list" where
  "write_hub_entry buf entry =
     (let buf = write_str buf (phe_hub_url entry);
          buf = write_str buf (phe_hub_name entry)
      in write_u64_le buf (phe_joined_at entry))"

definition public_hub_profile_signing_bytes ::
    "string \<Rightarrow> public_hub_entry list \<Rightarrow> u64 \<Rightarrow> u8 list" where
  "public_hub_profile_signing_bytes pubkey public_hubs issued_at =
     (let buf = as_bytes (''voxply/public-hub-profile/v1'' @ [CHR 0x00]);
          buf = write_str buf pubkey;
          buf = write_u64_le buf issued_at;
          buf = write_u32_le buf (of_nat (length public_hubs));
          buf = foldl write_hub_entry buf public_hubs
      in buf)"

definition public_hub_profile_verify :: "crypto \<Rightarrow> public_hub_profile \<Rightarrow> string + unit" where
  "public_hub_profile_verify K p =
     check_sig K (php_pubkey p)
       (public_hub_profile_signing_bytes (php_pubkey p) (php_public_hubs p) (php_issued_at p))
       (php_signature p)"

subsection \<open>Self-delimiting encodings\<close>

text \<open>
  The interface the message formats rely on: from the front of a buffer, an encoding of a
  well-formed value can be split off in only one way.
\<close>

locale prefix_code =
  fixes enc :: "'a \<Rightarrow> u8 list" and wf :: "'a \<Rightarrow> bool"
  assumes split_off: "wf a \<Longrightarrow> wf b \<Longrightarrow> enc a @ r = enc b @ r' \<Longrightarrow> a = b \<and> r = r'"
begin

lemma split_iff: "wf a \<Longrightarrow> wf b \<Longrightarrow> enc a @ r = enc b @ r' \<longleftrightarrow> a = b \<and> r = r'"
  using split_off by blast

lemma inject: "wf a \<Longrightarrow> wf b \<Longrightarrow> enc a = enc b \<Longrightarrow> a = b"
  using split_off [of a b "[]" "[]"] by simp

lemma sequence:
  assumes "length xs = length ys" "list_all wf xs" "list_all wf ys"
    and "concat (map enc xs) @ r = concat (map enc ys) @ r'"
  shows "xs = ys \<and> r = r'"
  using assms
proof (induction xs ys rule: list_induct2)
  case (Cons x xs y ys)
  then show ?case using split_off [of x y] by auto
qed simp

lemma before:
  assumes other: "prefix_code enc2 wf2"
  shows "prefix_code (\<lambda>(a, b). enc a @ enc2 b) (\<lambda>(a, b). wf a \<and> wf2 b)"
proof
  fix p q :: "'a \<times> 'b" and r r'
  obtain a b where p: "p = (a, b)" by (cases p)
  obtain c d where q: "q = (c, d)" by (cases q)
  assume "case p of (a, b) \<Rightarrow> wf a \<and> wf2 b" "case q of (a, b) \<Rightarrow> wf a \<and> wf2 b"
    and "(case p of (a, b) \<Rightarrow> enc a @ enc2 b) @ r = (case q of (a, b) \<Rightarrow> enc a @ enc2 b) @ r'"
  then have wfs: "wf a" "wf c" "wf2 b" "wf2 d" and eq: "enc a @ enc2 b @ r = enc c @ enc2 d @ r'"
    by (simp_all add: p q)
  from split_off [OF wfs(1,2) eq] have "a = c" and "enc2 b @ r = enc2 d @ r'" by auto
  with prefix_code.split_off [OF other wfs(3,4)] show "p = q \<and> r = r'" by (simp add: p q)
qed

end

lemma bit_le_bytes:
  fixes v :: "'a::len word"
  assumes "LENGTH('a) = 8 * n" and "m < LENGTH('a)"
  shows "bit v m = bit (le_bytes n v ! (m div 8)) (m mod 8)"
proof -
  have d: "m div 8 < n" using assms by (simp add: less_mult_imp_div_less mult.commute)
  have "8 * (m div 8) + m mod 8 = m" by simp
  with d assms(2) show ?thesis
    by (simp add: le_bytes_def bit_ucast_iff bit_drop_bit_eq)
qed

lemma le_bytes_inject:
  fixes v w :: "'a::len word"
  assumes "LENGTH('a) = 8 * n" and "le_bytes n v = le_bytes n w"
  shows "v = w"
proof (rule bit_word_eqI)
  fix m assume "m < LENGTH('a)"
  with assms show "bit v m = bit w m"
    using bit_le_bytes [OF assms(1), of m v] bit_le_bytes [OF assms(1), of m w] by simp
qed

lemma length_le_bytes [simp]: "length (le_bytes n v) = n"
  by (simp add: le_bytes_def)

lemma le_bytes_u32_iff [simp]: "le_bytes 4 (v::u32) = le_bytes 4 w \<longleftrightarrow> v = w"
  by (auto dest: le_bytes_inject [rotated])

lemma le_bytes_u64_iff [simp]: "le_bytes 8 (v::u64) = le_bytes 8 w \<longleftrightarrow> v = w"
  by (auto dest: le_bytes_inject [rotated])

interpretation u32: prefix_code "\<lambda>v::u32. le_bytes 4 v" "\<lambda>_. True"
  by unfold_locales simp

interpretation u64: prefix_code "\<lambda>v::u64. le_bytes 8 v" "\<lambda>_. True"
  by unfold_locales simp


text \<open>Strings and counted vectors, whose length field must not be truncated.\<close>

definition enc_str :: "string \<Rightarrow> u8 list" where
  "enc_str s = le_bytes 4 (of_nat (length s) :: u32) @ as_bytes s"

definition fits_u32 :: "'a list \<Rightarrow> bool" where
  "fits_u32 xs \<longleftrightarrow> length xs < 2 ^ 32"

lemma u32_of_nat_inject:
  "m < 2 ^ 32 \<Longrightarrow> n < 2 ^ 32 \<Longrightarrow> (of_nat m :: u32) = of_nat n \<Longrightarrow> m = n"
  by (simp add: word_of_nat_eq_iff take_bit_nat_eq_self)

interpretation str: prefix_code enc_str fits_u32
proof
  fix a b :: string and r r'
  assume fits: "fits_u32 a" "fits_u32 b" and eq: "enc_str a @ r = enc_str b @ r'"
  from eq have "le_bytes 4 (of_nat (length a) :: u32) @ as_bytes a @ r =
      le_bytes 4 (of_nat (length b) :: u32) @ as_bytes b @ r'"
    by (simp add: enc_str_def)
  then have "(of_nat (length a) :: u32) = of_nat (length b)" and *: "as_bytes a @ r = as_bytes b @ r'"
    by simp_all
  then have "length a = length b"
    using fits u32_of_nat_inject unfolding fits_u32_def by blast
  with * show "a = b \<and> r = r'" by simp
qed

context prefix_code
begin

lemma counted:
  "prefix_code (\<lambda>xs. le_bytes 4 (of_nat (length xs) :: u32) @ concat (map enc xs))
     (\<lambda>xs. fits_u32 xs \<and> list_all wf xs)"
proof
  fix xs ys :: "'a list" and r r'
  assume wfs: "fits_u32 xs \<and> list_all wf xs" "fits_u32 ys \<and> list_all wf ys"
    and "(le_bytes 4 (of_nat (length xs) :: u32) @ concat (map enc xs)) @ r =
      (le_bytes 4 (of_nat (length ys) :: u32) @ concat (map enc ys)) @ r'"
  then have "(of_nat (length xs) :: u32) = of_nat (length ys)"
    and eq: "concat (map enc xs) @ r = concat (map enc ys) @ r'"
    by simp_all
  then have "length xs = length ys"
    using wfs u32_of_nat_inject unfolding fits_u32_def by blast
  with wfs eq show "xs = ys \<and> r = r'" using sequence by blast
qed

end

definition enc_str_vec :: "string list \<Rightarrow> u8 list" where
  "enc_str_vec v = le_bytes 4 (of_nat (length v) :: u32) @ concat (map enc_str v)"

definition wf_str_vec :: "string list \<Rightarrow> bool" where
  "wf_str_vec v \<longleftrightarrow> fits_u32 v \<and> list_all fits_u32 v"

interpretation str_vec: prefix_code enc_str_vec wf_str_vec
  using str.counted unfolding enc_str_vec_def wf_str_vec_def .

definition enc_hub_entry :: "public_hub_entry \<Rightarrow> u8 list" where
  "enc_hub_entry e = enc_str (phe_hub_url e) @ enc_str (phe_hub_name e) @ le_bytes 8 (phe_joined_at e)"

definition wf_hub_entry :: "public_hub_entry \<Rightarrow> bool" where
  "wf_hub_entry e \<longleftrightarrow> fits_u32 (phe_hub_url e) \<and> fits_u32 (phe_hub_name e)"

interpretation hub_entry: prefix_code enc_hub_entry wf_hub_entry
proof
  fix a b :: public_hub_entry and r r'
  assume "wf_hub_entry a" "wf_hub_entry b" "enc_hub_entry a @ r = enc_hub_entry b @ r'"
  then show "a = b \<and> r = r'"
    by (simp add: wf_hub_entry_def enc_hub_entry_def str.split_iff
        public_hub_entry.equality)
qed

interpretation hub_entries: prefix_code
  "\<lambda>es. le_bytes 4 (of_nat (length es) :: u32) @ concat (map enc_hub_entry es)"
  "\<lambda>es. fits_u32 es \<and> list_all wf_hub_entry es"
  by (rule hub_entry.counted)

definition enc_opt_u64 :: "u64 option \<Rightarrow> u8 list" where
  "enc_opt_u64 x = (case x of None \<Rightarrow> [0] | Some t \<Rightarrow> 1 # le_bytes 8 t)"

interpretation opt_u64: prefix_code enc_opt_u64 "\<lambda>_. True"
proof
  fix a b :: "u64 option" and r r'
  assume "enc_opt_u64 a @ r = enc_opt_u64 b @ r'"
  then show "a = b \<and> r = r'"
    by (auto simp: enc_opt_u64_def split: option.splits)
qed

text \<open>What the buffer-passing writers append.\<close>

lemma write_u64_le_append [simp]: "write_u64_le buf v = buf @ le_bytes 8 v"
  by (simp add: write_u64_le_def)

lemma write_str_append [simp]: "write_str buf s = buf @ enc_str s"
  by (simp add: write_str_def write_u32_le_def enc_str_def)

lemma foldl_append: "(\<And>b x. f b x = b @ g x) \<Longrightarrow> foldl f buf xs = buf @ concat (map g xs)"
  by (induction xs arbitrary: buf) auto

lemma write_str_vec_append [simp]: "write_str_vec buf v = buf @ enc_str_vec v"
  by (simp add: write_str_vec_def enc_str_vec_def write_u32_le_def foldl_append [of _ enc_str])

lemma write_hub_entry_append [simp]: "write_hub_entry buf e = buf @ enc_hub_entry e"
  by (simp add: write_hub_entry_def enc_hub_entry_def)


subsection \<open>All signed messages at once\<close>

datatype signed_message =
    HomeHubListMsg string "string list" u64 u64
  | SubkeyCertMsg string string string u64 "u64 option" "string list"
  | RevocationMsg string string u64
  | PrefsBlobMsg string u64 "u8 list"
  | PairingOfferMsg string "string list" string u64 u64
  | PairingClaimMsg string string string
  | DhKeyMsg string string
  | PublicHubProfileMsg string "public_hub_entry list" u64

fun message_bytes :: "crypto \<Rightarrow> signed_message \<Rightarrow> u8 list" where
  "message_bytes K (HomeHubListMsg m hs i n) = home_hub_list_signing_bytes m hs i n"
| "message_bytes K (SubkeyCertMsg m s l i na fb) = subkey_cert_signing_bytes m s l i na fb"
| "message_bytes K (RevocationMsg m s t) = revocation_signing_bytes m s t"
| "message_bytes K (PrefsBlobMsg m v c) = prefs_blob_signing_bytes K m v c"
| "message_bytes K (PairingOfferMsg m hs tok i e) = pairing_offer_signing_bytes m hs tok i e"
| "message_bytes K (PairingClaimMsg tok s l) = pairing_claim_signing_bytes tok s l"
| "message_bytes K (DhKeyMsg pk dh) = dh_key_signing_bytes pk dh"
| "message_bytes K (PublicHubProfileMsg pk hs i) = public_hub_profile_signing_bytes pk hs i"

text \<open>No length is cut by \<^verbatim>\<open>as u32\<close>.\<close>

fun message_fits :: "signed_message \<Rightarrow> bool" where
  "message_fits (HomeHubListMsg m hs i n) \<longleftrightarrow> fits_u32 m \<and> wf_str_vec hs"
| "message_fits (SubkeyCertMsg m s l i na fb) \<longleftrightarrow>
     fits_u32 m \<and> fits_u32 s \<and> fits_u32 l \<and> wf_str_vec fb"
| "message_fits (RevocationMsg m s t) \<longleftrightarrow> fits_u32 m \<and> fits_u32 s"
| "message_fits (PrefsBlobMsg m v c) \<longleftrightarrow> fits_u32 m"
| "message_fits (PairingOfferMsg m hs tok i e) \<longleftrightarrow> fits_u32 m \<and> wf_str_vec hs \<and> fits_u32 tok"
| "message_fits (PairingClaimMsg tok s l) \<longleftrightarrow> fits_u32 tok \<and> fits_u32 s \<and> fits_u32 l"
| "message_fits (DhKeyMsg pk dh) \<longleftrightarrow> fits_u32 pk \<and> fits_u32 dh"
| "message_fits (PublicHubProfileMsg pk hs i) \<longleftrightarrow>
     fits_u32 pk \<and> fits_u32 hs \<and> list_all wf_hub_entry hs"

text \<open>What the bytes stand for: a prefs blob is bound by its digest only.\<close>

fun message_content :: "crypto \<Rightarrow> signed_message \<Rightarrow> signed_message" where
  "message_content K (PrefsBlobMsg m v c) = PrefsBlobMsg m v (sha256 K c)"
| "message_content K x = x"

lemma dh_key_bytes_eq:
  "dh_key_signing_bytes pk dh = as_bytes (''voxply/dh-key/v1'' @ [CHR 0x00]) @ enc_str pk @ enc_str dh"
  by (simp add: dh_key_signing_bytes_def enc_str_def)

lemma subkey_cert_bytes_eq:
  "subkey_cert_signing_bytes m s l i na fb =
     as_bytes (''voxply/subkey-cert/v1'' @ [CHR 0x00]) @
     enc_str m @ enc_str s @ enc_str l @ le_bytes 8 i @ enc_opt_u64 na @ enc_str_vec fb"
  by (cases na) (simp_all add: subkey_cert_signing_bytes_def enc_opt_u64_def)

lemma public_hub_profile_bytes_eq:
  "public_hub_profile_signing_bytes pk hs i =
     as_bytes (''voxply/public-hub-profile/v1'' @ [CHR 0x00]) @
     enc_str pk @ le_bytes 8 i @ le_bytes 4 (of_nat (length hs) :: u32) @ concat (map enc_hub_entry hs)"
  by (simp add: public_hub_profile_signing_bytes_def write_u32_le_def foldl_append [of _ enc_hub_entry])

lemmas message_bytes_defs =
  home_hub_list_signing_bytes_def subkey_cert_bytes_eq revocation_signing_bytes_def
  prefs_blob_signing_bytes_def pairing_offer_signing_bytes_def pairing_claim_signing_bytes_def
  dh_key_bytes_eq public_hub_profile_bytes_eq

lemma message_bytes_content:
  assumes "message_fits a" "message_fits b" "message_bytes K a = message_bytes K b"
  shows "message_content K a = message_content K b"
  using assms
  by (cases a; cases b)
    (simp_all add: message_bytes_defs str.split_iff str_vec.split_iff opt_u64.split_iff
      str.inject str_vec.inject hub_entries.inject)

text \<open>
  C2. The signed byte strings are unambiguous across all eight message types: when no length
  reaches \<open>2 ^ 32\<close>, two messages with the same bytes are the same message (of the same type,
  with the same fields; a prefs blob up to the SHA-256 of its ciphertext).
\<close>

theorem message_bytes_determine_message:
  assumes "message_fits a" "message_fits b" "message_bytes K a = message_bytes K b"
  shows "message_content K a = message_content K b"
  using assms by (rule message_bytes_content)

theorem message_bytes_determine_message_witness:
  "message_content demo_crypto (RevocationMsg ''m'' ''s'' 7) =
   message_content demo_crypto (RevocationMsg ''m'' ''s'' 7) \<and>
   message_bytes demo_crypto (RevocationMsg ''m'' ''s'' 7) \<noteq>
   message_bytes demo_crypto (PairingClaimMsg ''m'' ''s'' ''l'')"
proof -
  have fits: "message_fits (RevocationMsg ''m'' ''s'' 7)" "message_fits (PairingClaimMsg ''m'' ''s'' ''l'')"
    by (simp_all add: fits_u32_def)
  show ?thesis
    using message_bytes_determine_message [OF fits(1) fits(1) refl, of demo_crypto]
      message_bytes_determine_message [OF fits, of demo_crypto] by auto
qed

subsection \<open>Authenticity of accepted documents\<close>

text \<open>
  The unforgeability the hub relies on: under the key \<open>pk\<close>, only byte strings of messages in
  \<open>S\<close> verify, where \<open>S\<close> is what the key's holder signed.
\<close>

definition signs_only :: "crypto \<Rightarrow> string \<Rightarrow> signed_message set \<Rightarrow> bool" where
  "signs_only K pk S \<longleftrightarrow>
     (\<forall>pub m sig. hex_decode K pk = Inr pub \<longrightarrow> ed25519_verify K pub m sig \<longrightarrow>
        (\<exists>x \<in> S. message_fits x \<and> m = message_bytes K x))"

definition cert_message :: "subkey_cert \<Rightarrow> signed_message" where
  "cert_message c = SubkeyCertMsg (sc_master_pubkey c) (sc_subkey_pubkey c) (sc_device_label c)
     (sc_issued_at c) (sc_not_after c) (sc_fallback_hubs c)"

definition revocation_message :: "revocation_entry \<Rightarrow> signed_message" where
  "revocation_message r = RevocationMsg (re_master_pubkey r) (re_subkey_pubkey r) (re_revoked_at r)"

definition home_hub_list_message :: "home_hub_list \<Rightarrow> signed_message" where
  "home_hub_list_message h =
     HomeHubListMsg (hhl_master_pubkey h) (hhl_hubs h) (hhl_issued_at h) (hhl_sequence h)"

definition offer_message :: "pairing_offer \<Rightarrow> signed_message" where
  "offer_message p = PairingOfferMsg (po_master_pubkey p) (po_home_hubs p) (po_pairing_token p)
     (po_issued_at p) (po_expires_at p)"

lemma check_sig_ok:
  "check_sig K pk m s = Inr u \<longleftrightarrow>
     (\<exists>sig pub. hex_decode K s = Inr sig \<and> hex_decode K pk = Inr pub \<and> length pub = 32 \<and>
        verifying_key_ok K pub \<and> length sig = 64 \<and> ed25519_verify K pub m sig)"
  by (auto simp: check_sig_def verify_signature_ok split: sum.splits)

lemma content_determines:
  "message_content K x = message_content K y \<Longrightarrow> (\<And>m v c. y \<noteq> PrefsBlobMsg m v c) \<Longrightarrow> x = y"
  by (cases x; cases y) auto

lemma checked_message_was_signed:
  assumes "signs_only K pk S" "message_fits y" "\<And>m v c. y \<noteq> PrefsBlobMsg m v c"
    and "check_sig K pk (message_bytes K y) s = Inr ()"
  shows "y \<in> S"
proof -
  from assms(1,4) obtain x where x: "x \<in> S" "message_fits x" "message_bytes K x = message_bytes K y"
    by (auto simp: check_sig_ok signs_only_def) metis
  from message_bytes_content [OF x(2) assms(2) x(3)] content_determines assms(3)
  have "x = y" by blast
  with x(1) show ?thesis by simp
qed


definition demo_key :: string where
  "demo_key = replicate 32 CHR ''k''"

definition demo_cert :: subkey_cert where
  "demo_cert = \<lparr>sc_master_pubkey = demo_key, sc_subkey_pubkey = ''device'', sc_device_label = ''phone'',
     sc_issued_at = 5, sc_not_after = None, sc_fallback_hubs = [],
     sc_signature = replicate 64 CHR ''s''\<rparr>"

definition demo_signer :: crypto where
  "demo_signer = demo_crypto\<lparr>ed25519_verify := (\<lambda>pk m sig. m = message_bytes demo_crypto (cert_message demo_cert))\<rparr>"


end
