(* ===== verification/Pow.thy ===== *)
theory Pow
  imports Wire
begin

text \<open>
  Proof of work (\<^verbatim>\<open>identity/src/pow.rs\<close>): counting leading zero bits of a digest, searching a
  nonce, and checking a claimed level. The search loop has no bound of its own, so it is a
  \<^theory_text>\<open>partial_function (option)\<close>: \<open>None\<close> is a search that never returns.
\<close>

subsection \<open>Definitions\<close>

text \<open>\<^verbatim>\<open>u8::leading_zeros\<close>.\<close>

definition leading_zeros :: "u8 \<Rightarrow> nat" where
  "leading_zeros b = length (takeWhile (\<lambda>i. \<not> bit b i) [7, 6, 5, 4, 3, 2, 1, 0])"

fun leading_zero_bits :: "u8 list \<Rightarrow> nat" where
  "leading_zero_bits [] = 0"
| "leading_zero_bits (byte # hash) =
     (if byte = 0 then 8 + leading_zero_bits hash else leading_zeros byte)"

definition hash_level :: "crypto \<Rightarrow> string \<Rightarrow> u64 \<Rightarrow> nat" where
  "hash_level K pk_hex nonce =
     leading_zero_bits (sha256 K (as_bytes pk_hex @ le_bytes 8 nonce))"

partial_function (option) search_loop ::
    "(u64 \<Rightarrow> nat) \<Rightarrow> nat \<Rightarrow> u64 \<Rightarrow> u64 \<Rightarrow> nat \<Rightarrow> (u64 \<times> nat) option" where
  "search_loop lvl target_level nonce best_nonce best_level =
     (let nonce = nonce + 1; level = lvl nonce
      in if best_level < level
         then if target_level \<le> level then Some (nonce, level)
              else search_loop lvl target_level nonce nonce level
         else search_loop lvl target_level nonce best_nonce best_level)"

definition compute_security_level ::
    "crypto \<Rightarrow> string \<Rightarrow> u64 \<Rightarrow> nat \<Rightarrow> (u64 \<times> nat) option" where
  "compute_security_level K pk_hex start_nonce target_level =
     (let best_level = (if start_nonce > 0 then hash_level K pk_hex start_nonce else 0)
      in if start_nonce > 0 \<and> target_level \<le> best_level then Some (start_nonce, best_level)
         else search_loop (hash_level K pk_hex) target_level start_nonce start_nonce
                best_level)"

definition verify_security_level :: "crypto \<Rightarrow> string \<Rightarrow> u64 \<Rightarrow> nat \<Rightarrow> bool" where
  "verify_security_level K pk_hex nonce claimed_level \<longleftrightarrow>
     claimed_level = 0 \<or> claimed_level \<le> hash_level K pk_hex nonce"

text \<open>\<^verbatim>\<open>Identity::improve_security_level\<close>: the identity and the level reached.\<close>

definition improve_security_level ::
    "crypto \<Rightarrow> identity \<Rightarrow> nat \<Rightarrow> (identity \<times> nat) option" where
  "improve_security_level K i target_level =
     map_option (\<lambda>(nonce, level). (i\<lparr>security_nonce := nonce, security_level := level\<rparr>, level))
       (compute_security_level K (public_key_hex K i) (security_nonce i) target_level)"

subsection \<open>Leading zero bits\<close>

definition msb_bits :: "u8 list \<Rightarrow> bool list" where
  "msb_bits bs = concat (map (\<lambda>b. map (bit b) [7, 6, 5, 4, 3, 2, 1, 0]) bs)"

lemma byte_zero_iff: "b = 0 \<longleftrightarrow> (\<forall>i \<in> set [7, 6, 5, 4, 3, 2, 1, 0::nat]. \<not> bit b i)" for b :: u8
proof
  assume "\<forall>i \<in> set [7, 6, 5, 4, 3, 2, 1, 0::nat]. \<not> bit b i"
  then have "\<not> bit b i" if "i < 8" for i
    using that by (auto simp: less_Suc_eq numeral_eq_Suc)
  then show "b = 0" by (auto intro!: bit_word_eqI)
qed simp

lemma takeWhile_append_long:
  "\<exists>x \<in> set xs. \<not> P x \<Longrightarrow> length (takeWhile P (xs @ ys)) = length (takeWhile P xs)"
  by (auto simp: takeWhile_append)

lemma le_length_takeWhile:
  "n \<le> length (takeWhile P xs) \<longleftrightarrow> n \<le> length xs \<and> (\<forall>i < n. P (xs ! i))"
proof (induction xs arbitrary: n)
  case (Cons x xs)
  then show ?case by (cases n) (auto simp: All_less_Suc2)
qed auto

lemma leading_zero_bits_msb: "leading_zero_bits bs = length (takeWhile Not (msb_bits bs))"
proof (induction bs)
  case (Cons b bs)
  let ?bits = "map (bit b) [7, 6, 5, 4, 3, 2, 1, 0]"
  have split: "msb_bits (b # bs) = ?bits @ msb_bits bs" by (simp add: msb_bits_def)
  show ?case
  proof (cases "b = 0")
    case True
    then show ?thesis using Cons by (simp add: msb_bits_def)
  next
    case False
    then have "\<exists>x \<in> set ?bits. \<not> Not x" using byte_zero_iff [of b] by auto
    then have "length (takeWhile Not (msb_bits (b # bs))) = length (takeWhile Not ?bits)"
      unfolding split by (rule takeWhile_append_long)
    also have "\<dots> = leading_zeros b"
      by (simp add: leading_zeros_def takeWhile_map comp_def)
    finally show ?thesis using False by simp
  qed
qed (simp add: msb_bits_def)

lemma length_msb_bits: "length (msb_bits bs) = 8 * length bs"
  by (induction bs) (simp_all add: msb_bits_def)

text \<open>
  \<^verbatim>\<open>leading_zero_bits\<close> counts the zero bits at the front of the digest read most
  significant bit first, across byte boundaries: a level \<open>n\<close> is reached exactly when the first
  \<open>n\<close> bits exist and are all zero.
\<close>

theorem leading_zero_bits_correct:
  "n \<le> leading_zero_bits bs \<longleftrightarrow> n \<le> 8 * length bs \<and> (\<forall>i < n. \<not> msb_bits bs ! i)"
  by (simp add: leading_zero_bits_msb le_length_takeWhile length_msb_bits)

theorem leading_zero_bits_correct_witness:
  "11 \<le> leading_zero_bits [0, 16] \<and> \<not> 12 \<le> leading_zero_bits [0, 16]"
proof -
  have "list_all (\<lambda>i. \<not> msb_bits [0, 16] ! i) [0..<11]" by code_simp
  then have "i < 11 \<Longrightarrow> \<not> msb_bits [0, 16] ! i" for i by (auto simp: list_all_iff)
  moreover have "msb_bits [0, 16] ! 11" by code_simp
  ultimately show ?thesis
    using leading_zero_bits_correct [of 11 "[0, 16]"] leading_zero_bits_correct [of 12 "[0, 16]"] by auto
qed

subsection \<open>The nonce search\<close>

declare search_loop.simps [code]

text \<open>A nonce that ends the search: the loop wants an improvement, so at least level 1.\<close>

definition qualifies :: "(u64 \<Rightarrow> nat) \<Rightarrow> nat \<Rightarrow> u64 \<Rightarrow> bool" where
  "qualifies lvl target_level nonce \<longleftrightarrow> max 1 target_level \<le> lvl nonce"

lemma search_loop_finds:
  assumes "best_level < max 1 target"
    and "qualifies lvl target (nonce + of_nat (Suc k))"
    and "\<And>j. j < k \<Longrightarrow> \<not> qualifies lvl target (nonce + of_nat (Suc j))"
  shows "search_loop lvl target nonce best_nonce best_level =
    Some (nonce + of_nat (Suc k), lvl (nonce + of_nat (Suc k)))"
  using assms
proof (induction k arbitrary: nonce best_nonce best_level)
  case 0
  then have "best_level < lvl (nonce + 1)" "target \<le> lvl (nonce + 1)"
    by (auto simp: qualifies_def)
  then show ?case by (subst search_loop.simps) (simp add: Let_def)
next
  case (Suc k)
  let ?n = "nonce + 1"
  have low: "lvl ?n < max 1 target"
    using Suc.prems(3) [of 0] by (auto simp: qualifies_def less_max_iff_disj)
  have shift: "nonce + of_nat (Suc (Suc j)) = ?n + of_nat (Suc j)" for j by simp
  have rec: "search_loop lvl target ?n b l = Some (?n + of_nat (Suc k), lvl (?n + of_nat (Suc k)))"
    if "l < max 1 target" for b l
  proof (rule Suc.IH [OF that])
    show "qualifies lvl target (?n + of_nat (Suc k))" using Suc.prems(2) by (simp only: shift)
    show "\<not> qualifies lvl target (?n + of_nat (Suc j))" if "j < k" for j
      using Suc.prems(3) [of "Suc j"] that by (metis shift Suc_less_eq)
  qed
  have "\<not> target \<le> lvl ?n" if "best_level < lvl ?n" using that low by linarith
  then have "search_loop lvl target nonce best_nonce best_level =
      Some (?n + of_nat (Suc k), lvl (?n + of_nat (Suc k)))"
    using rec low Suc.prems(1) by (subst search_loop.simps) (auto simp: Let_def simp del: of_nat_Suc)
  then show ?case by (simp only: shift)
qed

lemma some_later_qualifies:
  assumes "qualifies lvl target n"
  shows "\<exists>k. qualifies lvl target (nonce + of_nat (Suc k))"
proof -
  have "nonce + of_nat (Suc (unat (n - nonce - 1))) = n"
    by (simp add: algebra_simps)
  with assms show ?thesis by metis
qed

lemma compute_security_level_finds:
  assumes "qualifies (hash_level K pk) target n"
  obtains nonce where "compute_security_level K pk start target = Some (nonce, hash_level K pk nonce)"
    "target \<le> hash_level K pk nonce"
proof (cases "start > 0 \<and> target \<le> hash_level K pk start")
  case True
  then show ?thesis using that [of start] by (simp add: compute_security_level_def)
next
  case False
  define Q where "Q k \<longleftrightarrow> qualifies (hash_level K pk) target (start + of_nat (Suc k))" for k
  define k where "k = (LEAST k. Q k)"
  have "\<exists>k. Q k" using some_later_qualifies [OF assms, of start] by (simp only: Q_def)
  then have "Q k" unfolding k_def by (rule LeastI_ex)
  moreover have "\<not> Q j" if "j < k" for j using that not_less_Least unfolding k_def by blast
  moreover have "(if start > 0 then hash_level K pk start else 0) < max 1 target"
    using False by auto
  ultimately have "search_loop (hash_level K pk) target start start
      (if start > 0 then hash_level K pk start else 0) =
      Some (start + of_nat (Suc k), hash_level K pk (start + of_nat (Suc k)))"
    by (intro search_loop_finds) (auto simp: Q_def)
  with False \<open>Q k\<close> show ?thesis
    using that [of "start + of_nat (Suc k)"]
    by (auto simp: compute_security_level_def Let_def Q_def qualifies_def)
qed

text \<open>
  C6. The nonce search returns whenever some nonce reaches the target (and level 1, since the
  loop only stops at an improvement): wherever it starts, the identity it produces carries a
  nonce whose proof the hub's \<^verbatim>\<open>verify_security_level\<close> accepts at the recorded level, which
  is at least the target.
\<close>

theorem improve_security_level_total_and_sound:
  assumes "max 1 target \<le> hash_level K (public_key_hex K i) n"
  shows "\<exists>i' level. improve_security_level K i target = Some (i', level) \<and>
    target \<le> level \<and> security_level i' = level \<and> signing_key i' = signing_key i \<and>
    verify_security_level K (public_key_hex K i') (security_nonce i') (security_level i')"
proof -
  from assms have "qualifies (hash_level K (public_key_hex K i)) target n"
    by (simp add: qualifies_def)
  from compute_security_level_finds [OF this, of "security_nonce i"] obtain nonce where
    "compute_security_level K (public_key_hex K i) (security_nonce i) target =
      Some (nonce, hash_level K (public_key_hex K i) nonce)"
    "target \<le> hash_level K (public_key_hex K i) nonce" by blast
  then show ?thesis
    by (simp add: improve_security_level_def verify_security_level_def public_key_hex_def)
qed

definition demo_identity :: identity where
  "demo_identity = \<lparr>signing_key = replicate 32 0, security_nonce = 0, security_level = 0\<rparr>"

theorem improve_security_level_witness:
  "\<exists>i' level. improve_security_level demo_crypto demo_identity 8 = Some (i', level) \<and>
    8 \<le> level \<and> security_level i' = level \<and> signing_key i' = signing_key demo_identity \<and>
    verify_security_level demo_crypto (public_key_hex demo_crypto i') (security_nonce i')
      (security_level i')"
proof (rule improve_security_level_total_and_sound)
  show "max 1 8 \<le> hash_level demo_crypto (public_key_hex demo_crypto demo_identity) 0"
    by (simp add: hash_level_def demo_key_bytes demo_identity_def pad_to_def numeral_eq_Suc)
qed

end
