(* ===== verification/Sql_Table.thy ===== *)
theory Sql_Table
  imports Prelude
begin

text \<open>
  The SQLite statements the hub issues, on a table kept as the list of its rows in rowid order.
  A row conflicts with another when they agree on the primary key or on a UNIQUE column; a
  foreign key is a condition on the database, passed as a boolean. A SELECT without ORDER BY
  returns rows in rowid order here; SQL leaves that order open and no theorem rests on it.

  The interface \<open>row_store\<close> collects what the components rely on when a table is only written by
  \<^verbatim>\<open>INSERT OR REPLACE\<close> (or an upsert that overwrites every column) and \<^verbatim>\<open>DELETE\<close>: the rows
  behave as a finite map under the primary key, and the last write to a key decides what a later
  SELECT finds.
\<close>

named_theorems rows \<open>membership of rows after a statement\<close>

subsection \<open>Statements\<close>

definition fetch_optional :: "('r \<Rightarrow> bool) \<Rightarrow> 'r list \<Rightarrow> 'r option" where
  "fetch_optional P t = List.find P t"

definition exists_row :: "('r \<Rightarrow> bool) \<Rightarrow> 'r list \<Rightarrow> bool" where
  "exists_row P t \<longleftrightarrow> (\<exists>r \<in> set t. P r)"

definition count_rows :: "('r \<Rightarrow> bool) \<Rightarrow> 'r list \<Rightarrow> nat" where
  "count_rows P t = length (filter P t)"

definition insert_row ::
    "('r \<Rightarrow> 'r \<Rightarrow> bool) \<Rightarrow> bool \<Rightarrow> 'r \<Rightarrow> 'r list \<Rightarrow> failure + 'r list" where
  "insert_row conflicts fk r t =
     (if exists_row (conflicts r) t then Inl (DbError UNIQUE)
      else if \<not> fk then Inl (DbError FOREIGN_KEY)
      else Inr (t @ [r]))"

definition insert_or_ignore ::
    "('r \<Rightarrow> 'r \<Rightarrow> bool) \<Rightarrow> bool \<Rightarrow> 'r \<Rightarrow> 'r list \<Rightarrow> failure + 'r list" where
  "insert_or_ignore conflicts fk r t =
     (if exists_row (conflicts r) t then Inr t
      else if \<not> fk then Inl (DbError FOREIGN_KEY)
      else Inr (t @ [r]))"

definition insert_or_replace ::
    "('r \<Rightarrow> 'r \<Rightarrow> bool) \<Rightarrow> bool \<Rightarrow> 'r \<Rightarrow> 'r list \<Rightarrow> failure + 'r list" where
  "insert_or_replace conflicts fk r t =
     (if \<not> fk then Inl (DbError FOREIGN_KEY)
      else Inr (filter (\<lambda>q. \<not> conflicts r q) t @ [r]))"

text \<open>\<^verbatim>\<open>INSERT ... ON CONFLICT(pk) DO UPDATE SET\<close>, \<open>f\<close> being the assignment.\<close>

definition upsert ::
    "('r \<Rightarrow> 'r \<Rightarrow> bool) \<Rightarrow> bool \<Rightarrow> 'r \<Rightarrow> ('r \<Rightarrow> 'r) \<Rightarrow> 'r list \<Rightarrow> failure + 'r list" where
  "upsert conflicts fk r f t =
     (if exists_row (conflicts r) t then Inr (map (\<lambda>q. if conflicts r q then f q else q) t)
      else if \<not> fk then Inl (DbError FOREIGN_KEY)
      else Inr (t @ [r]))"

definition update_where :: "('r \<Rightarrow> bool) \<Rightarrow> ('r \<Rightarrow> 'r) \<Rightarrow> 'r list \<Rightarrow> 'r list" where
  "update_where P f t = map (\<lambda>r. if P r then f r else r) t"

text \<open>\<^verbatim>\<open>UPDATE\<close> of a UNIQUE column.\<close>

definition update_unique ::
    "('r \<Rightarrow> 'k) \<Rightarrow> ('r \<Rightarrow> bool) \<Rightarrow> ('r \<Rightarrow> 'r) \<Rightarrow> 'r list \<Rightarrow> failure + 'r list" where
  "update_unique column P f t =
     (let u = update_where P f t
      in if distinct (map column u) then Inr u else Inl (DbError UNIQUE))"

definition delete_where :: "('r \<Rightarrow> bool) \<Rightarrow> 'r list \<Rightarrow> 'r list" where
  "delete_where P t = filter (\<lambda>r. \<not> P r) t"

text \<open>Writing a table back: the statement's outcome becomes the handler step's.\<close>

definition writing :: "('s \<Rightarrow> failure + 't) \<Rightarrow> ('t \<Rightarrow> 's \<Rightarrow> 's) \<Rightarrow> ('s, unit) handler" where
  "writing stmt put = exec (\<lambda>s. case stmt s of Inl e \<Rightarrow> Inl e | Inr t \<Rightarrow> Inr (put t s))"

text \<open>\<^verbatim>\<open>.map_err(...)\<close> on a step.\<close>

definition map_err :: "(failure \<Rightarrow> failure) \<Rightarrow> ('s, 'a) handler \<Rightarrow> ('s, 'a) handler" where
  "map_err g m = (\<lambda>s. case m s of (Inl e, t) \<Rightarrow> (Inl (g e), t) | (Inr x, t) \<Rightarrow> (Inr x, t))"

lemmas sql_defs [run_simps] =
  fetch_optional_def exists_row_def count_rows_def insert_row_def insert_or_ignore_def
  insert_or_replace_def upsert_def update_where_def update_unique_def
  delete_where_def writing_def map_err_def

subsection \<open>What a statement leaves behind\<close>

lemma fetch_optional_Some_iff:
  "fetch_optional P t = Some r \<longleftrightarrow>
     (\<exists>i < length t. P (t ! i) \<and> r = t ! i \<and> (\<forall>j < i. \<not> P (t ! j)))"
  by (simp add: fetch_optional_def find_Some_iff)

lemma fetch_optional_SomeD: "fetch_optional P t = Some r \<Longrightarrow> r \<in> set t \<and> P r"
  by (auto simp: fetch_optional_def find_Some_iff)

lemma fetch_optional_None_iff: "fetch_optional P t = None \<longleftrightarrow> (\<forall>r \<in> set t. \<not> P r)"
  by (auto simp: fetch_optional_def find_None_iff)

lemma fetch_optional_append:
  "fetch_optional P (t @ u) =
     (case fetch_optional P t of None \<Rightarrow> fetch_optional P u | Some r \<Rightarrow> Some r)"
  by (induction t) (auto simp: fetch_optional_def)

lemma fetch_optional_Nil [simp]: "fetch_optional P [] = None"
  by (simp add: fetch_optional_def)

lemma fetch_optional_Cons [simp]:
  "fetch_optional P (r # t) = (if P r then Some r else fetch_optional P t)"
  by (simp add: fetch_optional_def)

lemma fetch_optional_filter:
  "(\<And>r. r \<in> set t \<Longrightarrow> P r \<Longrightarrow> Q r) \<Longrightarrow> fetch_optional P (filter Q t) = fetch_optional P t"
  by (induction t) (auto simp: fetch_optional_def)

lemma fetch_optional_filter_None:
  "(\<And>r. r \<in> set t \<Longrightarrow> Q r \<Longrightarrow> \<not> P r) \<Longrightarrow> fetch_optional P (filter Q t) = None"
  by (auto simp: fetch_optional_None_iff)

lemma insert_row_ok [ok_iffs]:
  "insert_row conflicts fk r t = Inr u \<longleftrightarrow>
     \<not> exists_row (conflicts r) t \<and> fk \<and> u = t @ [r]"
  by (auto simp: insert_row_def)

lemma insert_or_ignore_ok [ok_iffs]:
  "insert_or_ignore conflicts fk r t = Inr u \<longleftrightarrow>
     (if exists_row (conflicts r) t then u = t else fk \<and> u = t @ [r])"
  by (auto simp: insert_or_ignore_def)

lemma insert_or_replace_ok [ok_iffs]:
  "insert_or_replace conflicts fk r t = Inr u \<longleftrightarrow>
     fk \<and> u = filter (\<lambda>q. \<not> conflicts r q) t @ [r]"
  by (auto simp: insert_or_replace_def)

lemma update_unique_ok [ok_iffs]:
  "update_unique column P f t = Inr u \<longleftrightarrow>
     distinct (map column (update_where P f t)) \<and> u = update_where P f t"
  by (auto simp: update_unique_def Let_def)

lemma upsert_ok [ok_iffs]:
  "upsert conflicts fk r f t = Inr u \<longleftrightarrow>
     (if exists_row (conflicts r) t
      then u = map (\<lambda>q. if conflicts r q then f q else q) t else fk \<and> u = t @ [r])"
  by (auto simp: upsert_def)

lemma writing_ok [ok_iffs]:
  "writing stmt put s = (Inr y, u) \<longleftrightarrow> (\<exists>t. stmt s = Inr t \<and> u = put t s)"
  by (auto simp: writing_def exec_def split: sum.splits)

lemma map_err_ok [ok_iffs]: "map_err g m s = (Inr y, t) \<longleftrightarrow> m s = (Inr y, t)"
  by (auto simp: map_err_def split: prod.splits sum.splits)

lemma preserves_writing:
  "(\<And>s t. P s \<Longrightarrow> stmt s = Inr t \<Longrightarrow> P (put t s)) \<Longrightarrow> preserves P (writing stmt put)"
  unfolding writing_def by (intro preserves_exec) (auto split: sum.splits)

lemma preserves_map_err [keeps]: "preserves P m \<Longrightarrow> preserves P (map_err g m)"
  unfolding preserves_def map_err_def by (auto split: prod.splits sum.splits)

lemma wp_writing [wps]:
  "wp (writing stmt put) Q E s = (case stmt s of Inl e \<Rightarrow> E e s | Inr t \<Rightarrow> Q () (put t s))"
  by (auto simp: writing_def wps split: sum.splits)

lemma wp_map_err [wps]: "wp (map_err g m) Q E s = wp m Q (\<lambda>e. E (g e)) s"
  by (auto simp: wp_def map_err_def split: prod.splits sum.splits)

lemma set_update_where [rows]: "set (update_where P f t) = (\<lambda>r. if P r then f r else r) ` set t"
  by (simp add: update_where_def)

lemma set_delete_where [rows]: "set (delete_where P t) = {r \<in> set t. \<not> P r}"
  by (auto simp: delete_where_def)

lemma exists_row_iff [rows]: "exists_row P t \<longleftrightarrow> (\<exists>r \<in> set t. P r)"
  by (simp add: exists_row_def)

lemma count_rows_pos_iff [rows]: "0 < count_rows P t \<longleftrightarrow> (\<exists>r \<in> set t. P r)"
  by (auto simp: count_rows_def filter_empty_conv)

subsection \<open>Keys\<close>

text \<open>No two rows conflict: what the schema guarantees of every stored table.\<close>

definition keyed :: "('r \<Rightarrow> 'k) \<Rightarrow> 'r list \<Rightarrow> bool" where
  "keyed key t \<longleftrightarrow> distinct (map key t)"

definition same_key :: "('r \<Rightarrow> 'k) \<Rightarrow> 'r \<Rightarrow> 'r \<Rightarrow> bool" where
  "same_key key r q \<longleftrightarrow> key q = key r"

lemma keyed_Nil [simp]: "keyed key []"
  by (simp add: keyed_def)

lemma keyed_snoc: "keyed key (t @ [r]) \<longleftrightarrow> keyed key t \<and> (\<forall>q \<in> set t. key q \<noteq> key r)"
  by (simp add: keyed_def) (metis imageE imageI)

lemma keyed_insert:
  assumes "keyed key t" "\<not> exists_row (conflicts r) t"
    and "\<And>q. key q = key r \<Longrightarrow> conflicts r q"
  shows "keyed key (t @ [r])"
  using assms by (auto simp: keyed_snoc exists_row_iff)

lemma keyed_filter [simp]: "keyed key t \<Longrightarrow> keyed key (filter P t)"
  by (induction t) (auto simp: keyed_def)

lemma keyed_delete_where: "keyed key t \<Longrightarrow> keyed key (delete_where P t)"
  by (simp add: delete_where_def)

lemma keyed_map_same:
  "(\<And>r. r \<in> set t \<Longrightarrow> key (f r) = key r) \<Longrightarrow> keyed key (map f t) = keyed key t"
  by (simp add: keyed_def comp_def cong: map_cong)

lemma keyed_update_where:
  "keyed key t \<Longrightarrow> (\<And>r. key (f r) = key r) \<Longrightarrow> keyed key (update_where P f t)"
  by (simp add: update_where_def keyed_map_same)

lemma keyed_insert_or_replace:
  "keyed key t \<Longrightarrow> keyed key (filter (\<lambda>q. \<not> same_key key r q) t @ [r])"
  by (auto simp: keyed_snoc same_key_def)

lemma keyed_unique: "keyed key t \<Longrightarrow> r \<in> set t \<Longrightarrow> q \<in> set t \<Longrightarrow> key r = key q \<Longrightarrow> r = q"
  by (auto simp: keyed_def distinct_map inj_on_def)

lemma keyed_fetch:
  assumes "keyed key t" "r \<in> set t"
  shows "fetch_optional (\<lambda>q. key q = key r) t = Some r"
proof -
  obtain q where "fetch_optional (\<lambda>q. key q = key r) t = Some q"
    using assms(2) fetch_optional_None_iff [of "\<lambda>q. key q = key r" t] by (metis option.exhaust)
  with fetch_optional_SomeD [OF this] keyed_unique [OF assms(1) _ assms(2)] show ?thesis by simp
qed

subsection \<open>A table as a finite map\<close>

datatype ('k, 'r) write_event = Put 'r | Remove 'k

locale row_store =
  fixes wf :: "'t \<Rightarrow> bool"
    and key :: "'r \<Rightarrow> 'k"
    and lookup :: "'k \<Rightarrow> 't \<Rightarrow> 'r option"
    and put :: "'r \<Rightarrow> 't \<Rightarrow> 't"
    and remove :: "'k \<Rightarrow> 't \<Rightarrow> 't"
  assumes lookup_put: "lookup k (put r t) = (if k = key r then Some r else lookup k t)"
    and lookup_remove: "lookup k (remove j t) = (if k = j then None else lookup k t)"
    and wf_put: "wf t \<Longrightarrow> wf (put r t)"
    and wf_remove: "wf t \<Longrightarrow> wf (remove k t)"
begin

fun apply_event :: "'t \<Rightarrow> ('k, 'r) write_event \<Rightarrow> 't" where
  "apply_event t (Put r) = put r t"
| "apply_event t (Remove k) = remove k t"

fun outcome :: "'k \<Rightarrow> 'r option \<Rightarrow> ('k, 'r) write_event \<Rightarrow> 'r option" where
  "outcome k x (Put r) = (if key r = k then Some r else x)"
| "outcome k x (Remove j) = (if j = k then None else x)"

lemma lookup_apply: "lookup k (apply_event t e) = outcome k (lookup k t) e"
  by (cases e) (auto simp: lookup_put lookup_remove)

lemma last_write_decides: "lookup k (run apply_event t es) = foldl (outcome k) (lookup k t) es"
  by (induction es arbitrary: t) (simp_all add: lookup_apply)

lemma wf_run: "wf t \<Longrightarrow> wf (run apply_event t es)"
proof (rule run_invariant)
  show "wf u \<Longrightarrow> wf (apply_event u e)" for u e by (cases e) (auto simp: wf_put wf_remove)
qed

lemma lookup_after_put: "lookup (key r) (put r t) = Some r"
  by (simp add: lookup_put)

lemma lookup_after_remove: "lookup k (remove k t) = None"
  by (simp add: lookup_remove)

end

text \<open>The rows under a key function, written by \<^verbatim>\<open>INSERT OR REPLACE\<close> and \<^verbatim>\<open>DELETE\<close>.\<close>

definition row_at :: "('r \<Rightarrow> 'k) \<Rightarrow> 'k \<Rightarrow> 'r list \<Rightarrow> 'r option" where
  "row_at key k t = fetch_optional (\<lambda>r. key r = k) t"

definition replace_row :: "('r \<Rightarrow> 'k) \<Rightarrow> 'r \<Rightarrow> 'r list \<Rightarrow> 'r list" where
  "replace_row key r t = filter (\<lambda>q. \<not> same_key key r q) t @ [r]"

definition delete_key :: "('r \<Rightarrow> 'k) \<Rightarrow> 'k \<Rightarrow> 'r list \<Rightarrow> 'r list" where
  "delete_key key k t = delete_where (\<lambda>r. key r = k) t"

interpretation tbl: row_store "keyed key" key "row_at key" "replace_row key" "delete_key key"
  for key :: "'r \<Rightarrow> 'k"
proof unfold_locales
  show "row_at key k (replace_row key r t) = (if k = key r then Some r else row_at key k t)"
    for k r t
  proof (cases "k = key r")
    case True
    then show ?thesis
      by (simp add: row_at_def replace_row_def fetch_optional_append same_key_def
          fetch_optional_filter_None)
  next
    case False
    then have "fetch_optional (\<lambda>q. key q = k) (filter (\<lambda>q. key q \<noteq> key r) t) =
        fetch_optional (\<lambda>q. key q = k) t" by (intro fetch_optional_filter) auto
    with False show ?thesis
      by (auto simp: row_at_def replace_row_def fetch_optional_append same_key_def
          split: option.splits)
  qed
  show "row_at key k (delete_key key j t) = (if k = j then None else row_at key k t)" for k j t
  proof (cases "k = j")
    case True
    then show ?thesis
      by (simp add: row_at_def delete_key_def delete_where_def fetch_optional_filter_None)
  next
    case False
    then show ?thesis
      unfolding row_at_def delete_key_def delete_where_def by (auto intro: fetch_optional_filter)
  qed
  show "keyed key t \<Longrightarrow> keyed key (replace_row key r t)" for t r
    by (simp add: replace_row_def keyed_insert_or_replace)
  show "keyed key t \<Longrightarrow> keyed key (delete_key key k t)" for t k
    by (simp add: delete_key_def keyed_delete_where)
qed

lemma row_at_update_where:
  assumes "\<And>r. key (f r) = key r"
  shows "row_at key j (update_where (\<lambda>r. key r = i) f t) =
    (if j = i then map_option f (row_at key i t) else row_at key j t)"
  by (induction t) (auto simp: row_at_def update_where_def assms)

lemma row_at_key: "row_at key k t = Some r \<Longrightarrow> key r = k \<and> r \<in> set t"
  using fetch_optional_SomeD [of "\<lambda>r. key r = k" t r] by (auto simp: row_at_def)

lemma row_at_append:
  "row_at key k (t @ u) = (case row_at key k t of None \<Rightarrow> row_at key k u | Some r \<Rightarrow> Some r)"
  unfolding row_at_def by (rule fetch_optional_append)

lemma row_at_None_iff: "row_at key k t = None \<longleftrightarrow> (\<forall>r \<in> set t. key r \<noteq> k)"
  by (simp add: row_at_def fetch_optional_None_iff)

lemma row_at_keyed: "keyed key t \<Longrightarrow> r \<in> set t \<Longrightarrow> row_at key (key r) t = Some r"
  by (simp add: row_at_def keyed_fetch)

lemma set_replace_row [rows]: "set (replace_row key r t) = insert r {q \<in> set t. key q \<noteq> key r}"
  by (auto simp: replace_row_def same_key_def)

lemma set_delete_key [rows]: "set (delete_key key k t) = {q \<in> set t. key q \<noteq> k}"
  by (auto simp: delete_key_def rows)

lemma row_at_upsert:
  assumes "\<And>q. key q = key r \<Longrightarrow> key (f q) = key r" "upsert (same_key key) fk r f t = Inr u"
  shows "row_at key k u = (if k = key r then Some (case row_at key k t of None \<Rightarrow> r | Some q \<Rightarrow> f q)
    else row_at key k t)"
proof (cases "exists_row (same_key key r) t")
  case True
  have mapped: "row_at key k (map (\<lambda>q. if same_key key r q then f q else q) t) =
      (if k = key r then map_option f (row_at key k t) else row_at key k t)"
    using assms(1) by (induction t) (auto simp: row_at_def same_key_def)
  from True have "row_at key (key r) t \<noteq> None" by (auto simp: row_at_None_iff exists_row_iff same_key_def)
  with True assms(2) mapped show ?thesis by (auto simp: upsert_ok split: option.splits)
next
  case False
  then have "row_at key (key r) t = None" by (auto simp: row_at_None_iff exists_row_iff same_key_def)
  with False assms(2) show ?thesis
    by (auto simp: upsert_ok row_at_def fetch_optional_append split: option.splits)
qed

lemma row_at_insert_or_ignore:
  assumes "insert_or_ignore (same_key key) fk r t = Inr u"
  shows "row_at key k u = (if k = key r \<and> row_at key k t = None then Some r else row_at key k t)"
proof (cases "exists_row (same_key key r) t")
  case True
  then have "row_at key (key r) t \<noteq> None" by (auto simp: row_at_None_iff exists_row_iff same_key_def)
  with True assms show ?thesis by (auto simp: insert_or_ignore_ok)
next
  case False
  with assms show ?thesis
    by (auto simp: insert_or_ignore_ok row_at_def fetch_optional_append split: option.splits)
qed

lemma row_at_insert_row:
  assumes "insert_row (same_key key) fk r t = Inr u"
  shows "row_at key k u = (if k = key r then Some r else row_at key k t)"
    and "row_at key (key r) t = None"
proof -
  from assms have u: "u = t @ [r]" and none: "row_at key (key r) t = None"
    by (auto simp: insert_row_ok row_at_None_iff exists_row_iff same_key_def)
  show "row_at key k u = (if k = key r then Some r else row_at key k t)"
  proof (cases "k = key r")
    case True
    then show ?thesis using u none by (simp add: row_at_append) (simp add: row_at_def)
  next
    case False
    then show ?thesis using u by (simp add: row_at_def fetch_optional_append split: option.splits)
  qed
  show "row_at key (key r) t = None" by (rule none)
qed

lemma set_upsert:
  "upsert conflicts fk r f t = Inr u \<Longrightarrow> q \<in> set u \<Longrightarrow> q = r \<or> q \<in> set t \<or> (\<exists>p \<in> set t. conflicts r p \<and> q = f p)"
  by (auto simp: upsert_ok split: if_splits)

lemma set_insert_or_ignore:
  "insert_or_ignore conflicts fk r t = Inr u \<Longrightarrow> q \<in> set u \<Longrightarrow> q = r \<or> q \<in> set t"
  by (auto simp: insert_or_ignore_ok split: if_splits)

lemma fetch_update_any:
  "(\<And>r. P (f r) = P r) \<Longrightarrow>
   fetch_optional P (update_where Q f t) = map_option (\<lambda>r. if Q r then f r else r) (fetch_optional P t)"
  by (induction t) (auto simp: update_where_def)

lemma fetch_live:
  "keyed key t \<Longrightarrow> fetch_optional (\<lambda>h. key h = i \<and> P h) t =
     (case row_at key i t of None \<Rightarrow> None | Some h \<Rightarrow> if P h then Some h else None)"
  by (induction t)
    (auto simp: row_at_def keyed_def split: option.splits dest!: fetch_optional_SomeD)

lemma row_at_update_any:
  "(\<And>r. key (f r) = key r) \<Longrightarrow>
   row_at key k (update_where P f t) = map_option (\<lambda>r. if P r then f r else r) (row_at key k t)"
  by (induction t) (auto simp: row_at_def update_where_def)

lemma keyed_append_fresh: "keyed key t \<Longrightarrow> row_at key (key r) t = None \<Longrightarrow> keyed key (t @ [r])"
  by (auto simp: keyed_snoc row_at_None_iff)

lemma update_last:
  "(\<forall>q \<in> set t. key q \<noteq> key r) \<Longrightarrow> update_where (\<lambda>q. key q = key r) f (t @ [r]) = t @ [f r]"
  by (induction t) (auto simp: update_where_def)

lemma count_rows_append [simp]: "count_rows P (t @ u) = count_rows P t + count_rows P u"
  by (simp add: count_rows_def)

lemma count_rows_single [simp]: "count_rows P [r] = (if P r then 1 else 0)"
  by (simp add: count_rows_def)

lemma count_rows_update_le:
  "(\<And>r. P (f r) \<Longrightarrow> P r) \<Longrightarrow> count_rows P (update_where Q f t) \<le> count_rows P t"
  by (induction t) (auto simp: count_rows_def update_where_def)

end
