(* ===== verification/Hub_Schema.thy ===== *)
theory Hub_Schema
  imports Sql_Table Wire
begin

text \<open>
  The state of a hub process: the tables of \<^verbatim>\<open>hub/src/db/migrations.rs\<close> that the modelled
  handlers read or write, and the in-memory part of \<^verbatim>\<open>AppState\<close> they use. A row is a record with
  the columns of its \<^verbatim>\<open>CREATE TABLE\<close> and \<^verbatim>\<open>ALTER TABLE\<close> statements; a nullable column is an
  option, an INTEGER an \<^typ>\<open>int\<close>, a flag column keeps its integer. A JSON column holds the value it
  encodes.

  The invariant \<open>schema_ok\<close> states the primary keys, UNIQUE columns and foreign keys of the tables
  that authorisation rests on.
\<close>

subsection \<open>JSON values\<close>

datatype json = JNull | JBool bool | JNum int | JStr string | JArr "json list"
  | JObj "(string \<times> json) list"

text \<open>\<^verbatim>\<open>Value::get\<close>, and the conversions to a scalar.\<close>

fun field :: "string \<Rightarrow> json \<Rightarrow> json option" where
  "field k (JObj kvs) = map_of kvs k"
| "field k _ = None"

fun as_bool :: "json \<Rightarrow> bool option" where
  "as_bool (JBool b) = Some b"
| "as_bool _ = None"

fun as_i64 :: "json \<Rightarrow> int option" where
  "as_i64 (JNum n) = (if i64_range n then Some n else None)"
| "as_i64 _ = None"

fun as_str :: "json \<Rightarrow> string option" where
  "as_str (JStr x) = Some x"
| "as_str _ = None"

definition json_opt :: "string option \<Rightarrow> json" where
  "json_opt x = (case x of None \<Rightarrow> JNull | Some v \<Rightarrow> JStr v)"

subsection \<open>Users, sessions, settings\<close>

record user_row =
  user_key :: string
  user_display_name :: "string option"
  user_first_seen :: int
  user_last_seen :: int
  user_approval :: string
  user_avatar :: "string option"
  user_master :: "string option"
  user_is_bot :: int
  user_lobby_status :: string
  user_lobby_entered :: "int option"
  user_pow_level :: int
  user_is_bot_removed :: int
  user_bot_invite_token :: "string option"
  user_bot_invite_expires :: "int option"
  user_is_webhook :: int

record session_row =
  session_token :: string
  session_user :: string
  session_created :: int
  session_expires :: "int option"
  session_warned :: "int option"

record setting_row =
  setting_key :: string
  setting_value :: string

subsection \<open>Channels and what hangs off them\<close>

record channel_row =
  channel_id :: string
  channel_name :: string
  channel_created_by :: string
  channel_parent :: "string option"
  channel_is_category :: int
  channel_order :: int
  channel_description :: "string option"
  channel_icon :: "string option"
  channel_color :: "string option"
  channel_svg :: "string option"
  channel_min_talk_power :: int
  channel_type :: string
  channel_created :: int

record attachment =
  att_name :: string
  att_mime :: string
  att_data_b64 :: string

record message_row =
  msg_id :: string
  msg_channel :: string
  msg_sender :: string
  msg_content :: string
  msg_created :: int
  msg_edited :: "int option"
  msg_attachments :: "attachment list option"
  msg_reply_to :: "string option"
  msg_visible_to :: "string option"
  msg_embeds :: "json list option"

record reaction_row =
  reaction_message :: string
  reaction_emoji :: string
  reaction_user :: string
  reaction_created :: int

record component_row =
  component_id :: string
  component_message :: string
  component_row_idx :: int
  component_idx :: int
  component_type :: string
  component_config :: json
  component_expires :: "int option"

record channel_settings_row =
  cs_channel :: string
  cs_min_talk_power :: int

record shared_channel_row =
  shared_alliance :: string
  shared_channel :: string
  shared_at :: int

record webhook_row =
  webhook_id :: string
  webhook_channel :: string
  webhook_token_hash :: string
  webhook_display_name :: string
  webhook_avatar :: "string option"
  webhook_created_by :: string
  webhook_rate_limit :: int
  webhook_active :: int
  webhook_created :: int

record post_row =
  post_id :: string
  post_channel :: string
  post_author :: string
  post_title :: string
  post_body :: string
  post_created :: int
  post_edited :: "int option"
  post_pinned :: int
  post_locked :: int
  post_reply_count :: int
  post_last_activity :: int
  post_deleted :: "int option"

record reply_row =
  reply_id :: string
  reply_post :: string
  reply_author :: string
  reply_body :: string
  reply_created :: int
  reply_edited :: "int option"
  reply_to_id :: "string option"
  reply_deleted :: "int option"

subsection \<open>Roles\<close>

record role_row =
  role_id :: string
  role_name :: string
  role_priority :: int
  role_display_separately :: int
  role_talk_power :: int
  role_created :: int

record role_permission_row =
  rp_role :: string
  rp_permission :: string

record user_role_row =
  ur_user :: string
  ur_role :: string
  ur_assigned :: int

subsection \<open>Moderation\<close>

record ban_row =
  ban_target :: string
  ban_by :: string
  ban_reason :: "string option"
  ban_created :: int

record mute_row =
  mute_target :: string
  mute_by :: string
  mute_reason :: "string option"
  mute_expires :: "int option"
  mute_created :: int

record voice_mute_row =
  vm_target :: string
  vm_by :: string
  vm_reason :: "string option"
  vm_created :: int

record channel_ban_row =
  cb_channel :: string
  cb_target :: string
  cb_by :: string
  cb_reason :: "string option"
  cb_created :: int

record channel_voice_mute_row =
  cvm_channel :: string
  cvm_pubkey :: string
  cvm_by :: string
  cvm_at :: string

record raise_hand_row =
  hand_id :: string
  hand_channel :: string
  hand_pubkey :: string
  hand_at :: string

record invite_row =
  invite_code :: string
  invite_by :: string
  invite_max_uses :: "int option"
  invite_uses :: int
  invite_expires :: "int option"
  invite_created :: int

subsection \<open>Bots and challenge tokens\<close>

record bot_profile_row =
  bp_pubkey :: string
  bp_name :: string
  bp_avatar_url :: "string option"
  bp_description :: "string option"
  bp_webhook_url :: "string option"
  bp_homepage_url :: "string option"
  bp_capabilities :: "string list"
  bp_updated :: int

record bot_command_row =
  bc_pubkey :: string
  bc_name :: string
  bc_description :: string
  bc_args :: "string option"
  bc_scope :: string
  bc_privileged :: int
  bc_cooldown :: int

record bot_token_row =
  bt_token :: string
  bt_pubkey :: string
  bt_created_by :: string
  bt_created :: int

record challenge_token_row =
  ct_token :: string
  ct_pubkey :: string
  ct_issued :: int
  ct_expires :: int
  ct_consumed :: "int option"

subsection \<open>Master-signed state\<close>

record designation_row =
  des_master :: string
  des_hubs :: "string list"
  des_issued :: int
  des_sequence :: int
  des_signature :: string
  des_updated :: int

record device_row =
  dev_master :: string
  dev_subkey :: string
  dev_label :: string
  dev_issued :: int
  dev_not_after :: "int option"
  dev_fallback :: "string list"
  dev_signature :: string
  dev_registered :: int

record revocation_row =
  rev_master :: string
  rev_subkey :: string
  rev_at :: int
  rev_signature :: string
  rev_registered :: int

record prefs_row =
  prefs_master :: string
  prefs_version :: int
  prefs_ciphertext :: string
  prefs_signature :: string
  prefs_updated :: int

record offer_row =
  offer_token :: string
  offer_master :: string
  offer_home_hubs :: "string list"
  offer_issued :: int
  offer_expires :: int
  offer_signature :: string
  offer_state :: string
  offer_subkey :: "string option"
  offer_label :: "string option"
  offer_proof :: "string option"
  offer_cert :: "subkey_cert option"
  offer_wrapped :: "string option"
  offer_created :: int
  offer_updated :: int

record dh_key_row =
  dh_key_pubkey :: string
  dh_key_hex :: string
  dh_key_signature :: string
  dh_key_published :: int

subsection \<open>Recovery and direct-message blocks\<close>

record recovery_settings_row =
  rs_owner :: string
  rs_threshold :: int
  rs_created :: int

record recovery_contact_row =
  rc_owner :: string
  rc_contact :: string
  rc_created :: int

record rotation_row =
  rot_id :: string
  rot_old :: string
  rot_new :: string
  rot_reason :: "string option"
  rot_status :: string
  rot_created :: int
  rot_decided_at :: "int option"
  rot_decided_by :: "string option"

record attestation_row =
  att_id :: string
  att_request :: string
  att_attester :: string
  att_signature :: string
  att_at :: int

record dm_block_row =
  blk_owner :: string
  blk_blocked :: string

subsection \<open>Friends and direct messages\<close>

record friend_row =
  friend_a :: string
  friend_b :: string
  friend_status :: string
  friend_created :: int
  friend_hub_url :: "string option"
  friend_display_name :: "string option"

record conversation_row =
  conv_id :: string
  conv_type :: string
  conv_created :: int

record conversation_member_row =
  cm_conversation :: string
  cm_key :: string
  cm_joined :: int
  cm_hub_url :: "string option"

record encrypted_envelope =
  env_sender :: string
  env_conv :: string
  env_ciphertext_hex :: string
  env_nonce_hex :: string
  env_dh_pubkey_hex :: string
  env_signature_hex :: string

record dm_message_row =
  dm_id :: string
  dm_conversation :: string
  dm_sender :: string
  dm_content :: string
  dm_attachments :: "attachment list option"
  dm_signature :: "string option"
  dm_created :: int
  dm_is_encrypted :: int
  dm_ciphertext :: "encrypted_envelope option"

record outbox_row =
  out_message :: string
  out_hub_url :: string
  out_attempts :: int
  out_next_attempt :: int
  out_last_error :: "string option"
  out_bounced :: "int option"

record peer_row =
  peer_key :: string
  peer_name :: string
  peer_url :: string
  peer_added :: int

subsection \<open>Bot subscriptions and the audit log\<close>

record bot_scope_row =
  scope_bot :: string
  scope_channel :: string

record bot_subscription_row =
  sub_bot :: string
  sub_event :: string
  sub_channel :: string

record audit_row =
  audit_id :: string
  audit_seq :: int
  audit_type :: string
  audit_at :: int
  audit_actor :: "string option"
  audit_target :: "string option"
  audit_channel :: "string option"
  audit_payload :: json

subsection \<open>Games\<close>

record hub_game_row =
  hg_id :: string
  hg_name :: string
  hg_description :: "string option"
  hg_version :: string
  hg_entry_url :: string
  hg_thumbnail :: "string option"
  hg_author :: "string option"
  hg_min_players :: int
  hg_max_players :: int
  hg_installed_by :: string
  hg_installed_at :: int
  hg_manifest_url :: string

record game_session_row =
  gs_id :: string
  gs_channel :: string
  gs_game :: string
  gs_host :: string
  gs_state :: json
  gs_created :: string
  gs_ended :: "string option"

record shared_kv_row =
  skv_session :: string
  skv_key :: string
  skv_value :: string
  skv_updated :: string

record enabled_game_row =
  eg_game :: string
  eg_at :: string
  eg_by :: string

record channel_game_row =
  cg_channel :: string
  cg_game :: string

text \<open>A \<^verbatim>\<open>GameSessionState\<close>, and the frames about games that go to a channel's subscribers.\<close>

record live_session =
  ls_channel :: string
  ls_game :: string
  ls_host :: string
  ls_players :: "string set"
  ls_state :: json

datatype game_frame =
    GameSessionCreated string string string string
  | GameSessionJoined string string
  | GameStateUpdated string json
  | GameSessionEnded string

record game_tables =
  hub_games :: "hub_game_row list"
  game_sessions :: "game_session_row list"
  game_shared_kv :: "shared_kv_row list"
  enabled_games :: "enabled_game_row list"
  channel_games :: "channel_game_row list"
  active_game_sessions :: "string \<rightharpoonup> live_session"

subsection \<open>Alliances and peers' channels\<close>

record alliance_row =
  al_id :: string
  al_name :: string
  al_created_by :: string
  al_created :: int

record alliance_member_row =
  am_alliance :: string
  am_hub_key :: string
  am_hub_name :: string
  am_hub_url :: string
  am_joined :: int

record pending_invite_row =
  pi_id :: string
  pi_alliance :: string
  pi_alliance_name :: string
  pi_from_url :: string
  pi_from_name :: string
  pi_from_key :: string
  pi_token :: string
  pi_created :: int
  pi_message :: "string option"

record fed_channel_row =
  fc_id :: string
  fc_peer :: string
  fc_remote :: string
  fc_name :: string
  fc_created :: int
  fc_synced :: int

record fed_message_row =
  fm_id :: string
  fm_channel :: string
  fm_remote :: string
  fm_sender :: string
  fm_content :: string
  fm_created :: int

record federation_tables =
  alliances :: "alliance_row list"
  alliance_members :: "alliance_member_row list"
  pending_alliance_invites :: "pending_invite_row list"
  federated_channels :: "fed_channel_row list"
  federated_messages :: "fed_message_row list"

subsection \<open>Surveys\<close>

record survey_row =
  survey_id :: string
  survey_enabled :: int
  survey_updated :: int

record question_row =
  q_id :: string
  q_survey :: string
  q_prompt :: string
  q_kind :: string
  q_required :: int
  q_order :: int

record choice_row =
  ch_id :: string
  ch_question :: string
  ch_label :: string
  ch_order :: int

record choice_role_row =
  cr_choice :: string
  cr_role :: string

record response_row =
  resp_row_id :: string
  resp_pubkey :: string
  resp_survey :: string
  resp_submitted :: int

record answer_row =
  ans_response :: string
  ans_question :: string
  ans_choice :: "string option"
  ans_text :: "string option"

record survey_tables =
  surveys :: "survey_row list"
  survey_questions :: "question_row list"
  survey_choices :: "choice_row list"
  survey_choice_roles :: "choice_role_row list"
  survey_responses :: "response_row list"
  survey_answers :: "answer_row list"

subsection \<open>Hosted bots\<close>

record bot_row =
  bot_key :: string
  bot_display_name :: string
  bot_created_by :: string
  bot_token_hash :: string
  bot_webhook_url :: "string option"
  bot_created :: int

record slash_command_row =
  sc_id :: string
  sc_bot :: string
  sc_command :: string
  sc_description :: string
  sc_created :: int

record bot_event_row =
  be_id :: string
  be_bot :: string
  be_type :: string
  be_payload :: string
  be_created :: int
  be_delivered :: int

record bot_tables =
  bots :: "bot_row list"
  bot_slash_commands :: "slash_command_row list"
  bot_event_queue :: "bot_event_row list"

subsection \<open>Certifications and badges\<close>

record cert_payload =
  cp_subject_kind :: string
  cp_issuer_pubkey :: string
  cp_issuer_url :: string
  cp_subject_pubkey :: string
  cp_member_since :: int
  cp_standing :: string
  cp_pow_level :: "nat option"
  cp_issued_at :: int
  cp_expires_at :: int
  cp_capabilities :: "string list"

record issuance_row =
  ci_id :: string
  ci_subject :: string
  ci_pow_level :: "int option"
  ci_member_since :: int
  ci_issued :: int
  ci_expires :: int
  ci_revoked :: "int option"
  ci_standing :: string
  ci_payload :: cert_payload
  ci_signature :: string

record user_cert_row =
  uc_id :: string
  uc_master :: string
  uc_issuer :: string
  uc_issuer_url :: string
  uc_payload :: cert_payload
  uc_signature :: string
  uc_expires :: int

record cert_tables =
  cert_issuances :: "issuance_row list"
  user_certs :: "user_cert_row list"

record badge_offer_row =
  bo_id :: string
  bo_from_key :: string
  bo_from_url :: string
  bo_label :: string
  bo_note :: "string option"
  bo_payload :: string
  bo_signature :: string
  bo_created :: string

record hub_badge_row =
  hb_id :: string
  hb_issuer_key :: string
  hb_issuer_url :: string
  hb_label :: string
  hb_payload :: string
  hb_signature :: string
  hb_accepted :: string

record issued_badge_row =
  ib_id :: string
  ib_recipient_url :: string
  ib_recipient_key :: string
  ib_label :: string
  ib_payload :: string
  ib_signature :: string
  ib_issued :: string
  ib_expires :: "string option"

record badge_tables =
  badge_offers :: "badge_offer_row list"
  hub_badges :: "hub_badge_row list"
  issued_badges :: "issued_badge_row list"

subsection \<open>Puzzles at the door, profiles, icons\<close>

record bot_challenge_row =
  bch_id :: string
  bch_pubkey :: string
  bch_kind :: string
  bch_expected :: "string option"
  bch_created :: int
  bch_expires :: int
  bch_consumed :: "int option"

record profile_row =
  prof_pubkey :: string
  prof_profile :: public_hub_profile
  prof_updated :: int

record icon_row =
  icon_id :: string
  icon_name :: string
  icon_svg :: string
  icon_uploaded_by :: string
  icon_created :: int

record front_tables =
  bot_challenges :: "bot_challenge_row list"
  public_hub_profiles :: "profile_row list"
  hub_icons :: "icon_row list"

subsection \<open>Voice and screen sharing\<close>

text \<open>
  The in-memory maps are association lists whose order is the iteration order of the
  \<^verbatim>\<open>HashMap\<close>; a socket address is its port, since \<^verbatim>\<open>VoiceJoin\<close> always uses the loopback host.
\<close>

datatype voice_frame =
    VoiceParticipantJoined string string "string option"
  | VoiceParticipantLeft string string
  | VoiceParticipantSpeaking string string bool

record stream_meta =
  sm_kind :: string
  sm_mime :: string
  sm_has_audio :: bool
  sm_sharer :: string
  sm_init_chunk :: "u8 list option"
  sm_started :: nat

record active_share =
  share_streams :: "(string \<times> stream_meta) list"
  share_viewers :: "string set"

record chunk_event =
  ce_channel :: string
  ce_stream :: string
  ce_sharer :: string
  ce_seq :: u32
  ce_is_init :: bool
  ce_data :: "u8 list"

text \<open>The signaling frames that are forwarded to one addressee.\<close>

datatype share_signal =
    ScreenShareOfferIn string string string string
  | ScreenShareAnswerIn string string string string
  | ScreenShareIceIn string string string string
  | ScreenShareViewerJoined string string
  | ScreenShareViewerLeft string string

record live_state =
  online_users :: "string set"
  bot_sessions :: "string \<rightharpoonup> nat"
  voice_channels :: "(string \<times> (string \<times> 16 word) list) list"
  voice_addr_map :: "(16 word \<times> string \<times> string) list"
  voice_event_tx :: "(string \<times> voice_frame) list"
  screen_shares :: "((string \<times> string) \<times> active_share) list"
  screen_share_tx :: "chunk_event list"

subsection \<open>Broadcasts to WebSocket clients\<close>

record reply_context =
  rc_message :: string
  rc_sender :: string
  rc_sender_name :: "string option"
  rc_preview :: string

record reaction_summary =
  rs_emoji :: string
  rs_count :: int
  rs_me :: bool

record message_response =
  mr_id :: string
  mr_channel :: string
  mr_sender :: string
  mr_sender_name :: "string option"
  mr_content :: string
  mr_created :: int
  mr_edited :: "int option"
  mr_attachments :: "attachment list"
  mr_reactions :: "reaction_summary list"
  mr_reply_to :: "reply_context option"
  mr_visible_to :: "string option"

datatype chat_event =
    NewMessage string message_response
  | EditedMessage string message_response
  | DeletedMessage string string
  | ReactionsUpdated string string "reaction_summary list"
  | GameEvent string game_frame
  | TypingEvent string string "string option" bool
  | ScreenShareStarted string string string string string bool
  | ScreenShareStopped string string string
  | ScreenShareSignal string string share_signal

text \<open>A \<^verbatim>\<open>DmEvent::Message\<close>.\<close>

record dm_event =
  dme_conversation :: string
  dme_sender :: string
  dme_sender_name :: "string option"
  dme_content :: string
  dme_timestamp :: int

datatype dm_push = DmSent dm_event | DmTyping string string "string option" bool

subsection \<open>The hub process\<close>

text \<open>
  A pending challenge of \<^verbatim>\<open>AppState\<close>; \<^verbatim>\<open>Instant\<close>s are milliseconds of the monotonic clock. An
  audit event handed to \<^verbatim>\<open>tokio::spawn(publish_hub_event(...))\<close> is kept in \<open>spawned\<close>, in the
  order the handlers started the tasks; \<open>chat_tx\<close> and \<open>dm_tx\<close> hold what was sent on the broadcast
  channels of these names.
\<close>

record pending_challenge =
  challenge_bytes :: "u8 list"
  challenge_expires :: nat

record hub_event =
  ev_type :: string
  ev_actor :: "string option"
  ev_target :: "string option"
  ev_channel :: "string option"
  ev_payload :: json

record hub =
  users :: "user_row list"
  sessions :: "session_row list"
  hub_settings :: "setting_row list"
  channels :: "channel_row list"
  messages :: "message_row list"
  message_reactions :: "reaction_row list"
  message_components :: "component_row list"
  channel_settings :: "channel_settings_row list"
  alliance_shared_channels :: "shared_channel_row list"
  webhooks :: "webhook_row list"
  posts :: "post_row list"
  post_replies :: "reply_row list"
  roles :: "role_row list"
  role_permissions :: "role_permission_row list"
  user_roles :: "user_role_row list"
  bans :: "ban_row list"
  mutes :: "mute_row list"
  voice_mutes :: "voice_mute_row list"
  channel_bans :: "channel_ban_row list"
  channel_voice_mutes :: "channel_voice_mute_row list"
  raise_hand_requests :: "raise_hand_row list"
  invites :: "invite_row list"
  bot_profiles :: "bot_profile_row list"
  bot_commands :: "bot_command_row list"
  bot_tokens :: "bot_token_row list"
  challenge_tokens :: "challenge_token_row list"
  home_hub_designations :: "designation_row list"
  subkey_certs :: "device_row list"
  subkey_revocations :: "revocation_row list"
  prefs_blobs :: "prefs_row list"
  pairing_offers :: "offer_row list"
  dh_keys :: "dh_key_row list"
  recovery_settings :: "recovery_settings_row list"
  recovery_contacts :: "recovery_contact_row list"
  key_rotation_requests :: "rotation_row list"
  rotation_attestations :: "attestation_row list"
  dm_blocks :: "dm_block_row list"
  friends :: "friend_row list"
  conversations :: "conversation_row list"
  conversation_members :: "conversation_member_row list"
  dm_messages :: "dm_message_row list"
  dm_outbox :: "outbox_row list"
  peers :: "peer_row list"
  bot_channel_scope :: "bot_scope_row list"
  bot_subscriptions :: "bot_subscription_row list"
  hub_audit_seq :: int
  hub_audit_log :: "audit_row list"
  peer_tokens :: "string \<rightharpoonup> string"
  chat_tx :: "chat_event list"
  dm_tx :: "dm_push list"
  pending_challenges :: "string \<rightharpoonup> pending_challenge"
  spawned :: "hub_event list"
  farm_url :: "string option"
  cached_farm_pubkey :: "string option"
  last_farm_pubkey_fetch :: int
  game_state :: game_tables
  federation :: federation_tables
  survey_state :: survey_tables
  bot_hosting :: bot_tables
  cert_ledger :: cert_tables
  badge_state :: badge_tables
  front_desk :: front_tables
  live :: live_state

type_synonym 'a hub_handler = "(hub, 'a) handler"

definition spawn_publish_hub_event ::
    "string \<Rightarrow> string option \<Rightarrow> string option \<Rightarrow> string option \<Rightarrow> json \<Rightarrow> unit hub_handler" where
  "spawn_publish_hub_event ty actor target channel payload =
     modify (\<lambda>s. s\<lparr>spawned := spawned s @
       [\<lparr>ev_type = ty, ev_actor = actor, ev_target = target, ev_channel = channel,
         ev_payload = payload\<rparr>]\<rparr>)"

text \<open>The state the migrations leave in an empty database, in a process with no farm.\<close>

definition seeded_role :: "string \<Rightarrow> string \<Rightarrow> int \<Rightarrow> role_row" where
  "seeded_role i n p = \<lparr>role_id = i, role_name = n, role_priority = p,
     role_display_separately = 0, role_talk_power = 0, role_created = 0\<rparr>"

definition seeded_permission :: "string \<Rightarrow> string \<Rightarrow> role_permission_row" where
  "seeded_permission r p = \<lparr>rp_role = r, rp_permission = p\<rparr>"

definition seeded_setting :: "string \<Rightarrow> string \<Rightarrow> setting_row" where
  "seeded_setting k v = \<lparr>setting_key = k, setting_value = v\<rparr>"

definition initial_roles :: "role_row list" where
  "initial_roles =
    [seeded_role ''builtin-everyone'' ''@everyone'' 0,
     seeded_role ''builtin-owner'' ''Owner'' 999999]"

definition initial_role_permissions :: "role_permission_row list" where
  "initial_role_permissions =
    [seeded_permission ''builtin-everyone'' ''send_messages'',
     seeded_permission ''builtin-everyone'' ''read_messages'',
     seeded_permission ''builtin-owner'' ''admin'',
     seeded_permission ''builtin-everyone'' ''create_posts'',
     seeded_permission ''builtin-owner'' ''manage_posts'',
     seeded_permission ''builtin-everyone'' ''start_game'',
     seeded_permission ''builtin-owner'' ''manage_games'']"

definition initial_settings :: "setting_row list" where
  "initial_settings =
    [seeded_setting ''invite_only'' ''false'',
     seeded_setting ''min_security_level'' ''0'',
     seeded_setting ''require_approval'' ''false'',
     seeded_setting ''max_channel_depth'' ''0'',
     seeded_setting ''lobby_enabled'' ''1'',
     seeded_setting ''lobby_welcome_md'' [],
     seeded_setting ''challenge_mode'' ''off'',
     seeded_setting ''challenge_difficulty'' ''easy'',
     seeded_setting ''min_pow_level'' ''0'',
     seeded_setting ''cert_auto_issue'' ''true'',
     seeded_setting ''cert_standing_days'' ''30'',
     seeded_setting ''cert_validity_days'' ''90'',
     seeded_setting ''cert_min_pow_level'' ''0'',
     seeded_setting ''cert_mode'' ''none'',
     seeded_setting ''cert_trusted_issuers'' ''[]'',
     seeded_setting ''cert_require'' ''{}'',
     seeded_setting ''hub_tags'' ''[]'',
     seeded_setting ''hub_nsfw'' ''false'']"

definition initial :: hub where
  "initial = \<lparr>users = [], sessions = [], hub_settings = initial_settings, channels = [],
     messages = [], message_reactions = [], message_components = [], channel_settings = [],
     alliance_shared_channels = [], webhooks = [], posts = [], post_replies = [],
     roles = initial_roles, role_permissions = initial_role_permissions, user_roles = [],
     bans = [], mutes = [], voice_mutes = [], channel_bans = [], channel_voice_mutes = [],
     raise_hand_requests = [], invites = [], bot_profiles = [], bot_commands = [],
     bot_tokens = [], challenge_tokens = [], home_hub_designations = [], subkey_certs = [],
     subkey_revocations = [], prefs_blobs = [], pairing_offers = [], dh_keys = [],
     recovery_settings = [], recovery_contacts = [], key_rotation_requests = [],
     rotation_attestations = [], dm_blocks = [], friends = [], conversations = [],
     conversation_members = [], dm_messages = [], dm_outbox = [], peers = [], bot_channel_scope = [],
     bot_subscriptions = [], hub_audit_seq = 0, hub_audit_log = [], peer_tokens = Map.empty, chat_tx = [],
     dm_tx = [], pending_challenges = Map.empty, spawned = [],
     farm_url = None, cached_farm_pubkey = None, last_farm_pubkey_fetch = 0,
     game_state = \<lparr>hub_games = [], game_sessions = [], game_shared_kv = [], enabled_games = [], channel_games = [],
       active_game_sessions = Map.empty\<rparr>,
     federation = \<lparr>alliances = [], alliance_members = [], pending_alliance_invites = [], federated_channels = [],
       federated_messages = []\<rparr>,
     survey_state = \<lparr>surveys = [], survey_questions = [], survey_choices = [], survey_choice_roles = [],
       survey_responses = [], survey_answers = []\<rparr>,
     bot_hosting = \<lparr>bots = [], bot_slash_commands = [], bot_event_queue = []\<rparr>,
     cert_ledger = \<lparr>cert_issuances = [], user_certs = []\<rparr>,
     badge_state = \<lparr>badge_offers = [], hub_badges = [], issued_badges = []\<rparr>,
     front_desk = \<lparr>bot_challenges = [], public_hub_profiles = [], hub_icons = []\<rparr>,
     live = \<lparr>online_users = {}, bot_sessions = Map.empty, voice_channels = [], voice_addr_map = [],
       voice_event_tx = [], screen_shares = [], screen_share_tx = []\<rparr>\<rparr>"

subsection \<open>Shared queries\<close>

definition user_exists :: "hub \<Rightarrow> string \<Rightarrow> bool" where
  "user_exists s pk \<longleftrightarrow> exists_row (\<lambda>u. user_key u = pk) (users s)"

definition channel_exists :: "hub \<Rightarrow> string \<Rightarrow> bool" where
  "channel_exists s c \<longleftrightarrow> exists_row (\<lambda>r. channel_id r = c) (channels s)"

definition role_exists :: "hub \<Rightarrow> string \<Rightarrow> bool" where
  "role_exists s r \<longleftrightarrow> exists_row (\<lambda>q. role_id q = r) (roles s)"

definition setting :: "string \<Rightarrow> hub \<Rightarrow> string option" where
  "setting k s = map_option setting_value (row_at setting_key k (hub_settings s))"

text \<open>The row an \<^verbatim>\<open>INSERT INTO users\<close> makes, every other column at its DEFAULT.\<close>

definition new_user :: "string \<Rightarrow> int \<Rightarrow> string \<Rightarrow> string option \<Rightarrow> user_row" where
  "new_user pk now status master = \<lparr>user_key = pk, user_display_name = None,
     user_first_seen = now, user_last_seen = now, user_approval = status, user_avatar = None,
     user_master = master, user_is_bot = 0, user_lobby_status = ''none'',
     user_lobby_entered = None, user_pow_level = 0, user_is_bot_removed = 0,
     user_bot_invite_token = None, user_bot_invite_expires = None, user_is_webhook = 0\<rparr>"

subsection \<open>The schema's constraints on the tables authorisation rests on\<close>

definition roles_keyed :: "hub \<Rightarrow> bool" where
  "roles_keyed s \<longleftrightarrow> keyed role_id (roles s) \<and> keyed role_name (roles s)"

definition role_refs_ok :: "hub \<Rightarrow> bool" where
  "role_refs_ok s \<longleftrightarrow>
     (\<forall>p \<in> set (role_permissions s). role_exists s (rp_role p)) \<and>
     (\<forall>u \<in> set (user_roles s). role_exists s (ur_role u) \<and> user_exists s (ur_user u))"

definition builtins_present :: "hub \<Rightarrow> bool" where
  "builtins_present s \<longleftrightarrow>
     seeded_role ''builtin-everyone'' ''@everyone'' 0 \<in> set (roles s) \<and>
     seeded_role ''builtin-owner'' ''Owner'' 999999 \<in> set (roles s)"

definition schema_ok :: "hub \<Rightarrow> bool" where
  "schema_ok s \<longleftrightarrow> keyed user_key (users s) \<and> keyed session_token (sessions s) \<and>
     (\<forall>x \<in> set (sessions s). user_exists s (session_user x)) \<and>
     roles_keyed s \<and>
     keyed (\<lambda>p. (rp_role p, rp_permission p)) (role_permissions s) \<and>
     keyed (\<lambda>u. (ur_user u, ur_role u)) (user_roles s) \<and>
     role_refs_ok s"

lemma schema_ok_initial: "schema_ok initial"
  by (simp add: schema_ok_def initial_def initial_roles_def initial_role_permissions_def
      seeded_role_def seeded_permission_def roles_keyed_def role_refs_ok_def role_exists_def
      exists_row_def keyed_def)

end
