(* ===== verification/Permissions.thy ===== *)
theory Permissions
  imports Hub_Schema
begin

text \<open>
  Effective permissions of a user, from \<^verbatim>\<open>hub/src/permissions.rs\<close>, and the interface every
  privileged component relies on: a \<open>hierarchy\<close>, in which an operation of an actor cannot touch
  what ranks at or above the actor. The client lemma of the interface says what that gives for
  any sequence of requests by any number of cooperating users.
\<close>

subsection \<open>Permission names\<close>

definition SEND_MESSAGES :: string where "SEND_MESSAGES = ''send_messages''"
definition READ_MESSAGES :: string where "READ_MESSAGES = ''read_messages''"
definition MANAGE_CHANNELS :: string where "MANAGE_CHANNELS = ''manage_channels''"
definition MANAGE_MESSAGES :: string where "MANAGE_MESSAGES = ''manage_messages''"
definition MANAGE_ROLES :: string where "MANAGE_ROLES = ''manage_roles''"
definition KICK_MEMBERS :: string where "KICK_MEMBERS = ''kick_members''"
definition BAN_MEMBERS :: string where "BAN_MEMBERS = ''ban_members''"
definition MUTE_MEMBERS :: string where "MUTE_MEMBERS = ''mute_members''"
definition TIMEOUT_MEMBERS :: string where "TIMEOUT_MEMBERS = ''timeout_members''"
definition MANAGE_GAMES :: string where "MANAGE_GAMES = ''manage_games''"
definition MANAGE_CHANNEL_ICONS :: string where "MANAGE_CHANNEL_ICONS = ''manage_channel_icons''"
definition ADMIN :: string where "ADMIN = ''admin''"
definition CREATE_POSTS :: string where "CREATE_POSTS = ''create_posts''"
definition MANAGE_POSTS :: string where "MANAGE_POSTS = ''manage_posts''"
definition START_GAME :: string where "START_GAME = ''start_game''"

lemmas permission_names [run_simps] =
  SEND_MESSAGES_def READ_MESSAGES_def MANAGE_CHANNELS_def MANAGE_MESSAGES_def MANAGE_ROLES_def
  KICK_MEMBERS_def BAN_MEMBERS_def MUTE_MEMBERS_def TIMEOUT_MEMBERS_def MANAGE_GAMES_def
  MANAGE_CHANNEL_ICONS_def ADMIN_def CREATE_POSTS_def MANAGE_POSTS_def START_GAME_def

subsection \<open>UserPermissions\<close>

record user_perms =
  perm_roles :: "role_row list"
  effective :: "string set"
  max_priority :: int

definition has_permission :: "user_perms \<Rightarrow> string \<Rightarrow> bool" where
  "has_permission p permission \<longleftrightarrow> ADMIN \<in> effective p \<or> permission \<in> effective p"

definition require_permission :: "user_perms \<Rightarrow> string \<Rightarrow> unit hub_handler" where
  "require_permission p permission =
     check (has_permission p permission)
       (Reject FORBIDDEN (''Missing permission: '' @ permission))"

definition fetch_permissions :: "hub \<Rightarrow> string list \<Rightarrow> string set" where
  "fetch_permissions s role_ids =
     (if role_ids = [] then {}
      else set (map rp_permission
        (filter (\<lambda>p. rp_role p \<in> set role_ids) (role_permissions s))))"

text \<open>The INNER JOIN of \<^verbatim>\<open>roles\<close> with the user's rows of \<^verbatim>\<open>user_roles\<close>.\<close>

definition roles_of :: "hub \<Rightarrow> string \<Rightarrow> role_row list" where
  "roles_of s pk =
     [r. r \<leftarrow> roles s, ur \<leftarrow> user_roles s, role_id r = ur_role ur \<and> ur_user ur = pk]"

text \<open>\<^verbatim>\<open>roles.iter().map(|r| r.priority).max().unwrap_or(0)\<close>\<close>

definition max_or_zero :: "int list \<Rightarrow> int" where
  "max_or_zero ps = (case ps of [] \<Rightarrow> 0 | p # qs \<Rightarrow> fold max qs p)"

definition user_permissions :: "string \<Rightarrow> hub \<Rightarrow> user_perms" where
  "user_permissions pk s =
     (let rs = roles_of s pk
      in \<lparr>perm_roles = rs, effective = fetch_permissions s (map role_id rs),
          max_priority = max_or_zero (map role_priority rs)\<rparr>)"

lemma require_permission_ok [ok_iffs]:
  "require_permission p permission s = (Inr y, t) \<longleftrightarrow> has_permission p permission \<and> t = s"
  by (simp add: require_permission_def ok_iffs)

lemma preserves_require [keeps]: "preserves P (require_permission p permission)"
  by (simp add: require_permission_def keeps)

lemma wp_require [wps]:
  "wp (require_permission p permission) Q E s =
     (if has_permission p permission then Q () s
      else E (Reject FORBIDDEN (''Missing permission: '' @ permission)) s)"
  by (simp add: require_permission_def wps)

subsection \<open>Characterisation\<close>

definition priority_of :: "hub \<Rightarrow> string \<Rightarrow> int" where
  "priority_of s pk = max_priority (user_permissions pk s)"

definition holds_role :: "hub \<Rightarrow> string \<Rightarrow> role_row \<Rightarrow> bool" where
  "holds_role s pk r \<longleftrightarrow>
     r \<in> set (roles s) \<and> (\<exists>ur \<in> set (user_roles s). ur_role ur = role_id r \<and> ur_user ur = pk)"

lemma set_roles_of: "r \<in> set (roles_of s pk) \<longleftrightarrow> holds_role s pk r"
  by (auto simp: roles_of_def holds_role_def)

lemma max_or_zero_le_iff:
  "max_or_zero ps \<le> n \<longleftrightarrow> (if ps = [] then 0 \<le> n else \<forall>p \<in> set ps. p \<le> n)"
proof -
  have "fold max qs p \<le> n \<longleftrightarrow> p \<le> n \<and> (\<forall>q \<in> set qs. q \<le> n)" for qs and p :: int
    by (induction qs arbitrary: p) auto
  then show ?thesis by (auto simp: max_or_zero_def split: list.splits)
qed

lemma max_or_zero_eq_Max: "ps \<noteq> [] \<Longrightarrow> max_or_zero ps = Max (set ps)"
  by (cases ps) (simp_all add: max_or_zero_def flip: Max.set_eq_fold)

lemma priority_of_eq: "priority_of s pk = max_or_zero (map role_priority (roles_of s pk))"
  by (simp add: priority_of_def user_permissions_def Let_def)

lemma priority_le_iff:
  "0 \<le> n \<Longrightarrow> priority_of s pk \<le> n \<longleftrightarrow> (\<forall>r. holds_role s pk r \<longrightarrow> role_priority r \<le> n)"
  by (auto simp: priority_of_eq max_or_zero_le_iff simp flip: set_roles_of)

lemma holds_role_priority: "holds_role s pk r \<Longrightarrow> role_priority r \<le> priority_of s pk"
  using max_or_zero_le_iff [of "map role_priority (roles_of s pk)" "priority_of s pk"]
  by (auto simp: priority_of_eq simp flip: set_roles_of split: if_splits)

lemma max_priority_eq [simp]: "max_priority (user_permissions pk s) = priority_of s pk"
  by (simp add: priority_of_def)

lemma effective_iff:
  "p \<in> effective (user_permissions pk s) \<longleftrightarrow>
     (\<exists>r q. holds_role s pk r \<and> q \<in> set (role_permissions s) \<and> rp_role q = role_id r \<and>
        rp_permission q = p)"
proof -
  have "p \<in> effective (user_permissions pk s) \<longleftrightarrow>
      (\<exists>q \<in> set (role_permissions s). rp_role q \<in> role_id ` set (roles_of s pk) \<and>
        rp_permission q = p)"
    by (auto simp: user_permissions_def Let_def fetch_permissions_def)
  also have "\<dots> \<longleftrightarrow> (\<exists>r q. holds_role s pk r \<and> q \<in> set (role_permissions s) \<and>
      rp_role q = role_id r \<and> rp_permission q = p)"
    unfolding set_roles_of [symmetric] by blast
  finally show ?thesis .
qed

text \<open>Permissions depend on the three role tables only.\<close>

lemma user_permissions_cong:
  "roles s = roles t \<Longrightarrow> role_permissions s = role_permissions t \<Longrightarrow> user_roles s = user_roles t \<Longrightarrow>
   user_permissions pk s = user_permissions pk t"
  unfolding user_permissions_def roles_of_def fetch_permissions_def by (simp only:)

text \<open>
  What \<^verbatim>\<open>UserPermissions::has\<close> means over the tables: a user has a permission exactly when
  some role assigned to them, and present in \<^verbatim>\<open>roles\<close>, carries that permission or \<^verbatim>\<open>admin\<close>;
  in particular a user with no role has none.
\<close>

theorem has_permission_iff_role_grants:
  "has_permission (user_permissions pk s) permission \<longleftrightarrow>
     (\<exists>ur \<in> set (user_roles s). \<exists>r \<in> set (roles s). \<exists>p \<in> set (role_permissions s).
        ur_user ur = pk \<and> ur_role ur = role_id r \<and> rp_role p = role_id r \<and>
        (rp_permission p = ''admin'' \<or> rp_permission p = permission))"
  by (auto simp: has_permission_def effective_iff holds_role_def ADMIN_def)

subsection \<open>A concrete hub\<close>

text \<open>
  The state the witnesses of the hub components run on: an owner, a moderator whose role has
  priority 10, and a plain member.
\<close>

definition demo_owner :: string where "demo_owner = ''owner-key-000000''"
definition demo_mod :: string where "demo_mod = ''moderator-key-00''"
definition demo_member :: string where "demo_member = ''member-key-00000''"

definition demo_membership :: "string \<Rightarrow> string \<Rightarrow> user_role_row" where
  "demo_membership u r = \<lparr>ur_user = u, ur_role = r, ur_assigned = 1\<rparr>"

definition demo_session :: "string \<Rightarrow> string \<Rightarrow> session_row" where
  "demo_session t u = \<lparr>session_token = t, session_user = u, session_created = 1,
     session_expires = None, session_warned = None\<rparr>"

definition demo_hub :: hub where
  "demo_hub = initial\<lparr>
     users := [new_user demo_owner 1 ''approved'' None, new_user demo_mod 1 ''approved'' None,
       new_user demo_member 1 ''approved'' None],
     sessions := [demo_session ''t-owner'' demo_owner, demo_session ''t-member'' demo_member],
     roles := initial_roles @ [seeded_role ''mods'' ''Moderators'' 10],
     role_permissions := initial_role_permissions @ map (seeded_permission ''mods'')
       [MANAGE_ROLES, MANAGE_CHANNELS, BAN_MEMBERS, KICK_MEMBERS, MUTE_MEMBERS, TIMEOUT_MEMBERS],
     user_roles := [demo_membership demo_owner ''builtin-owner'', demo_membership demo_mod ''mods'',
       demo_membership demo_member ''builtin-everyone'']\<rparr>"

lemmas demo_defs = demo_hub_def initial_def initial_roles_def initial_role_permissions_def
  seeded_role_def seeded_permission_def demo_membership_def demo_session_def demo_owner_def
  demo_mod_def demo_member_def new_user_def

lemma demo_schema: "schema_ok demo_hub"
  by (simp add: schema_ok_def roles_keyed_def role_refs_ok_def role_exists_def user_exists_def
      exists_row_def keyed_def demo_defs permission_names)

lemma demo_priorities [simp]:
  "priority_of demo_hub demo_owner = 999999" "priority_of demo_hub demo_mod = 10"
  "priority_of demo_hub demo_member = 0"
  by (simp_all add: priority_of_eq roles_of_def max_or_zero_def demo_defs)

lemma demo_mod_permissions [simp]:
  "effective (user_permissions demo_mod demo_hub) =
     {MANAGE_ROLES, MANAGE_CHANNELS, BAN_MEMBERS, KICK_MEMBERS, MUTE_MEMBERS, TIMEOUT_MEMBERS}"
  by (simp add: user_permissions_def fetch_permissions_def roles_of_def Let_def demo_defs)

subsection \<open>The hierarchy interface\<close>

text \<open>
  \<open>step s op\<close> is the state a request leaves behind, whatever its outcome; \<open>view n s\<close> is the part of
  the state that ranks at or above \<open>n\<close>. Ranks are compared with \<open>0 \<le> n\<close> because a user
  without roles has priority 0.
\<close>

locale hierarchy =
  fixes inv :: "'s \<Rightarrow> bool"
    and step :: "'s \<Rightarrow> 'op \<Rightarrow> 's"
    and actor :: "'op \<Rightarrow> 'u"
    and rank :: "'s \<Rightarrow> 'u \<Rightarrow> int"
    and view :: "int \<Rightarrow> 's \<Rightarrow> 'v"
  assumes inv_step: "inv s \<Longrightarrow> inv (step s op)"
    and view_step: "inv s \<Longrightarrow> 0 \<le> n \<Longrightarrow> rank s (actor op) \<le> n \<Longrightarrow> view n (step s op) = view n s"
    and rank_step:
      "inv s \<Longrightarrow> 0 \<le> n \<Longrightarrow> rank s (actor op) \<le> n \<Longrightarrow> rank s u \<le> n \<Longrightarrow> rank (step s op) u \<le> n"
begin

lemma inv_run: "inv s \<Longrightarrow> inv (run step s ops)"
  by (rule run_invariant) (rule inv_step)

lemma coalition:
  assumes "inv s" "0 \<le> n" "\<forall>op \<in> set ops. rank s (actor op) \<le> n"
  shows "view n (run step s ops) = view n s \<and>
    (\<forall>u. rank s u \<le> n \<longrightarrow> rank (run step s ops) u \<le> n)"
  using assms(1,3)
proof (induction ops arbitrary: s)
  case (Cons op ops)
  have actor: "rank s (actor op) \<le> n" using Cons.prems by simp
  have up: "rank (step s op) u \<le> n" if "rank s u \<le> n" for u
    by (rule rank_step [OF Cons.prems(1) assms(2) actor that])
  have "\<forall>o' \<in> set ops. rank (step s op) (actor o') \<le> n" using up Cons.prems(2) by auto
  from Cons.IH [OF inv_step [OF Cons.prems(1)] this] show ?case
    using view_step [OF Cons.prems(1) assms(2) actor] up by auto
qed simp

end

end
