(* ===== verification/Roles.thy ===== *)
theory Roles
  imports Permissions
begin

text \<open>
  The role endpoints of \<^verbatim>\<open>hub/src/routes/roles.rs\<close>. A handler takes the key of the authenticated
  user (\<^verbatim>\<open>AuthUser\<close>), the random UUID and the clock as arguments.

  Main results: whatever a request's outcome, roles at or above the caller's own priority, their
  permissions and their members are untouched, and no user is lifted to the caller's priority
  (the \<open>hierarchy\<close> interface); the schema constraints survive every outcome; the built-in roles
  cannot be edited and the last owner cannot be removed.
\<close>

subsection \<open>Requests and responses\<close>

record create_role_request =
  crr_name :: string
  crr_permissions :: "string list"
  crr_priority :: int
  crr_display_separately :: bool

record update_role_request =
  urr_name :: "string option"
  urr_permissions :: "string list option"
  urr_priority :: "int option"
  urr_display_separately :: "bool option"

record role_response =
  resp_id :: string
  resp_name :: string
  resp_permissions :: "string list"
  resp_priority :: int
  resp_display_separately :: bool
  resp_created :: int

subsection \<open>Statements\<close>

definition role_conflicts :: "role_row \<Rightarrow> role_row \<Rightarrow> bool" where
  "role_conflicts r q \<longleftrightarrow> role_id q = role_id r \<or> role_name q = role_name r"

definition insert_role :: "role_row \<Rightarrow> unit hub_handler" where
  "insert_role r = writing (\<lambda>s. insert_row role_conflicts True r (roles s)) (\<lambda>t s. s\<lparr>roles := t\<rparr>)"

definition insert_role_permission :: "string \<Rightarrow> string \<Rightarrow> unit hub_handler" where
  "insert_role_permission i p =
     writing (\<lambda>s. insert_row (same_key (\<lambda>q. (rp_role q, rp_permission q))) (role_exists s i)
         \<lparr>rp_role = i, rp_permission = p\<rparr> (role_permissions s))
       (\<lambda>t s. s\<lparr>role_permissions := t\<rparr>)"

definition delete_role_permissions :: "string \<Rightarrow> unit hub_handler" where
  "delete_role_permissions i =
     modify (\<lambda>s. s\<lparr>role_permissions := delete_where (\<lambda>q. rp_role q = i) (role_permissions s)\<rparr>)"

definition update_role_row :: "string \<Rightarrow> (role_row \<Rightarrow> role_row) \<Rightarrow> unit hub_handler" where
  "update_role_row i f = modify (\<lambda>s. s\<lparr>roles := update_where (\<lambda>r. role_id r = i) f (roles s)\<rparr>)"

definition rename_role :: "string \<Rightarrow> string \<Rightarrow> unit hub_handler" where
  "rename_role i n =
     writing (\<lambda>s. update_unique role_name (\<lambda>r. role_id r = i) (\<lambda>r. r\<lparr>role_name := n\<rparr>) (roles s))
       (\<lambda>t s. s\<lparr>roles := t\<rparr>)"

definition user_role_fk :: "hub \<Rightarrow> string \<Rightarrow> string \<Rightarrow> bool" where
  "user_role_fk s pk i \<longleftrightarrow> user_exists s pk \<and> role_exists s i"

definition insert_user_role :: "string \<Rightarrow> string \<Rightarrow> int \<Rightarrow> unit hub_handler" where
  "insert_user_role pk i now =
     writing (\<lambda>s. insert_row (same_key (\<lambda>q. (ur_user q, ur_role q))) (user_role_fk s pk i)
         \<lparr>ur_user = pk, ur_role = i, ur_assigned = now\<rparr> (user_roles s))
       (\<lambda>t s. s\<lparr>user_roles := t\<rparr>)"

definition insert_or_ignore_user_role :: "string \<Rightarrow> string \<Rightarrow> int \<Rightarrow> unit hub_handler" where
  "insert_or_ignore_user_role pk i now =
     writing (\<lambda>s. insert_or_ignore (same_key (\<lambda>q. (ur_user q, ur_role q))) (user_role_fk s pk i)
         \<lparr>ur_user = pk, ur_role = i, ur_assigned = now\<rparr> (user_roles s))
       (\<lambda>t s. s\<lparr>user_roles := t\<rparr>)"

definition delete_user_roles :: "(user_role_row \<Rightarrow> bool) \<Rightarrow> unit hub_handler" where
  "delete_user_roles P = modify (\<lambda>s. s\<lparr>user_roles := delete_where P (user_roles s)\<rparr>)"

text \<open>
  \<^verbatim>\<open>DELETE FROM roles\<close> fails while a row of \<^verbatim>\<open>role_permissions\<close> or \<^verbatim>\<open>user_roles\<close> refers to the
  role.
\<close>

definition delete_role_row :: "string \<Rightarrow> unit hub_handler" where
  "delete_role_row i =
     writing (\<lambda>s. if exists_row (\<lambda>q. rp_role q = i) (role_permissions s) \<or>
                     exists_row (\<lambda>q. ur_role q = i) (user_roles s)
                  then Inl (DbError FOREIGN_KEY)
                  else Inr (delete_where (\<lambda>r. role_id r = i) (roles s)))
       (\<lambda>t s. s\<lparr>roles := t\<rparr>)"

subsection \<open>Helpers of the module\<close>

definition require_not_builtin :: "string \<Rightarrow> unit hub_handler" where
  "require_not_builtin i =
     check (\<not> (i = ''builtin-owner'' \<or> i = ''builtin-everyone''))
       (Reject FORBIDDEN ''Cannot modify built-in roles'')"

definition get_role :: "string \<Rightarrow> role_row hub_handler" where
  "get_role i =
     and_then (gets (\<lambda>s. row_at role_id i (roles s))) (\<lambda>r.
     ok_or r (Reject NOT_FOUND ''Role not found''))"

definition role_permission_names :: "hub \<Rightarrow> string \<Rightarrow> string list" where
  "role_permission_names s i =
     map rp_permission (filter (\<lambda>p. rp_role p = i) (role_permissions s))"

definition to_response :: "role_row \<Rightarrow> string list \<Rightarrow> role_response" where
  "to_response r ps = \<lparr>resp_id = role_id r, resp_name = role_name r, resp_permissions = ps,
     resp_priority = role_priority r,
     resp_display_separately = (role_display_separately r \<noteq> 0), resp_created = role_created r\<rparr>"

definition by_priority_desc :: "role_row list \<Rightarrow> role_row list" where
  "by_priority_desc rs = sort_key (\<lambda>r. - role_priority r) rs"

definition flag :: "bool \<Rightarrow> int" where
  "flag b = (if b then 1 else 0)"

subsection \<open>Endpoints\<close>

definition list_roles :: "role_response list hub_handler" where
  "list_roles =
     gets (\<lambda>s. map (\<lambda>r. to_response r (role_permission_names s (role_id r)))
       (by_priority_desc (roles s)))"

definition role_unique_error :: "string \<Rightarrow> failure \<Rightarrow> failure" where
  "role_unique_error n e =
     (if e = DbError UNIQUE then Reject CONFLICT (''Role '' @ [CHR 0x27] @ n @ [CHR 0x27] @ '' already exists'')
      else e)"

definition create_role ::
    "string \<Rightarrow> string \<Rightarrow> int \<Rightarrow> create_role_request \<Rightarrow> (status_code \<times> role_response) hub_handler" where
  "create_role user uuid now req =
     and_then (gets (user_permissions user)) (\<lambda>perms.
     and_then (require_permission perms MANAGE_ROLES) (\<lambda>_.
     and_then (check (\<not> max_priority perms \<le> crr_priority req)
       (Reject FORBIDDEN ''Cannot create role with priority >= your own'')) (\<lambda>_.
     and_then (map_err (role_unique_error (crr_name req))
       (insert_role \<lparr>role_id = uuid, role_name = crr_name req, role_priority = crr_priority req,
          role_display_separately = flag (crr_display_separately req), role_talk_power = 0,
          role_created = now\<rparr>)) (\<lambda>_.
     and_then (for_each (insert_role_permission uuid) (crr_permissions req)) (\<lambda>_.
     ret (CREATED, \<lparr>resp_id = uuid, resp_name = crr_name req,
       resp_permissions = crr_permissions req, resp_priority = crr_priority req,
       resp_display_separately = crr_display_separately req, resp_created = now\<rparr>))))))"

definition update_role ::
    "string \<Rightarrow> string \<Rightarrow> update_role_request \<Rightarrow> role_response hub_handler" where
  "update_role user i req =
     and_then (require_not_builtin i) (\<lambda>_.
     and_then (gets (user_permissions user)) (\<lambda>perms.
     and_then (require_permission perms MANAGE_ROLES) (\<lambda>_.
     and_then (get_role i) (\<lambda>existing.
     and_then (check (\<not> max_priority perms \<le> role_priority existing)
       (Reject FORBIDDEN ''Cannot modify role with priority >= your own'')) (\<lambda>_.
     and_then (case urr_priority req of None \<Rightarrow> ret () | Some p \<Rightarrow>
       and_then (check (\<not> max_priority perms \<le> p)
         (Reject FORBIDDEN ''Cannot set priority >= your own'')) (\<lambda>_.
       update_role_row i (\<lambda>r. r\<lparr>role_priority := p\<rparr>))) (\<lambda>_.
     and_then (case urr_name req of None \<Rightarrow> ret () | Some n \<Rightarrow> rename_role i n) (\<lambda>_.
     and_then (case urr_permissions req of None \<Rightarrow> ret () | Some ps \<Rightarrow>
       and_then (delete_role_permissions i) (\<lambda>_.
       for_each (insert_role_permission i) ps)) (\<lambda>_.
     and_then (case urr_display_separately req of None \<Rightarrow> ret () | Some b \<Rightarrow>
       update_role_row i (\<lambda>r. r\<lparr>role_display_separately := flag b\<rparr>)) (\<lambda>_.
     and_then (get_role i) (\<lambda>updated.
     and_then (gets (\<lambda>s. role_permission_names s i)) (\<lambda>ps.
     ret (to_response updated ps))))))))))))"

definition delete_role :: "string \<Rightarrow> string \<Rightarrow> status_code hub_handler" where
  "delete_role user i =
     and_then (require_not_builtin i) (\<lambda>_.
     and_then (gets (user_permissions user)) (\<lambda>perms.
     and_then (require_permission perms MANAGE_ROLES) (\<lambda>_.
     and_then (get_role i) (\<lambda>existing.
     and_then (check (\<not> max_priority perms \<le> role_priority existing)
       (Reject FORBIDDEN ''Cannot delete role with priority >= your own'')) (\<lambda>_.
     and_then (delete_user_roles (\<lambda>q. ur_role q = i)) (\<lambda>_.
     and_then (delete_role_permissions i) (\<lambda>_.
     and_then (delete_role_row i) (\<lambda>_.
     ret NO_CONTENT))))))))"

definition assign_role :: "string \<Rightarrow> string \<Rightarrow> string \<Rightarrow> int \<Rightarrow> status_code hub_handler" where
  "assign_role user pk i now =
     and_then (gets (user_permissions user)) (\<lambda>perms.
     and_then (require_permission perms MANAGE_ROLES) (\<lambda>_.
     and_then (get_role i) (\<lambda>role.
     and_then (check (\<not> max_priority perms \<le> role_priority role)
       (Reject FORBIDDEN ''Cannot assign role with priority >= your own'')) (\<lambda>_.
     and_then (insert_or_ignore_user_role pk i now) (\<lambda>_.
     ret OK)))))"

definition remove_role :: "string \<Rightarrow> string \<Rightarrow> string \<Rightarrow> status_code hub_handler" where
  "remove_role user pk i =
     and_then (check (i \<noteq> ''builtin-everyone'')
       (Reject FORBIDDEN ''Cannot remove @everyone role'')) (\<lambda>_.
     and_then (gets (user_permissions user)) (\<lambda>perms.
     and_then (require_permission perms MANAGE_ROLES) (\<lambda>_.
     and_then (get_role i) (\<lambda>role.
     and_then (check (\<not> max_priority perms \<le> role_priority role)
       (Reject FORBIDDEN ''Cannot remove role with priority >= your own'')) (\<lambda>_.
     and_then (if i = ''builtin-owner''
       then and_then (gets (\<lambda>s. count_rows (\<lambda>q. ur_role q = ''builtin-owner'') (user_roles s))) (\<lambda>n.
            check (\<not> n \<le> 1) (Reject FORBIDDEN ''Cannot remove the last owner''))
       else ret ()) (\<lambda>_.
     and_then (delete_user_roles (\<lambda>q. ur_user q = pk \<and> ur_role q = i)) (\<lambda>_.
     ret OK)))))))"

definition get_user_roles :: "string \<Rightarrow> role_response list hub_handler" where
  "get_user_roles pk =
     gets (\<lambda>s. map (\<lambda>r. to_response r (role_permission_names s (role_id r)))
       (by_priority_desc (roles_of s pk)))"

definition list_role_members :: "string \<Rightarrow> string \<Rightarrow> string list hub_handler" where
  "list_role_members user i =
     and_then (gets (user_permissions user)) (\<lambda>perms.
     and_then (require_permission perms MANAGE_ROLES) (\<lambda>_.
     gets (\<lambda>s. map ur_user (filter (\<lambda>q. ur_role q = i) (user_roles s)))))"

subsection \<open>Requests that write, as one type of operations\<close>

datatype role_op =
    CreateRole string string int create_role_request
  | UpdateRole string string update_role_request
  | DeleteRole string string
  | AssignRole string string string int
  | RemoveRole string string string

fun role_actor :: "role_op \<Rightarrow> string" where
  "role_actor (CreateRole user _ _ _) = user"
| "role_actor (UpdateRole user _ _) = user"
| "role_actor (DeleteRole user _) = user"
| "role_actor (AssignRole user _ _ _) = user"
| "role_actor (RemoveRole user _ _) = user"

fun role_step :: "hub \<Rightarrow> role_op \<Rightarrow> hub" where
  "role_step s (CreateRole user uuid now req) = snd (create_role user uuid now req s)"
| "role_step s (UpdateRole user i req) = snd (update_role user i req s)"
| "role_step s (DeleteRole user i) = snd (delete_role user i s)"
| "role_step s (AssignRole user pk i now) = snd (assign_role user pk i now s)"
| "role_step s (RemoveRole user pk i) = snd (remove_role user pk i s)"

subsection \<open>The schema survives every outcome\<close>

lemmas schema_defs = schema_ok_def roles_keyed_def role_refs_ok_def role_exists_def user_exists_def
  user_role_fk_def exists_row_def

lemma schema_insert_role [keeps]: "preserves schema_ok (insert_role r)"
  unfolding insert_role_def
  by (rule preserves_writing)
    (auto simp: ok_iffs schema_defs keyed_snoc role_conflicts_def)

lemma schema_insert_role_permission [keeps]: "preserves schema_ok (insert_role_permission i p)"
  unfolding insert_role_permission_def
  by (rule preserves_writing) (auto simp: ok_iffs schema_defs keyed_snoc same_key_def)

lemma schema_delete_role_permissions [keeps]: "preserves schema_ok (delete_role_permissions i)"
  unfolding delete_role_permissions_def
  by (rule preserves_modify) (auto simp: schema_defs keyed_delete_where rows)

lemma role_exists_update:
  "(\<And>r. role_id (f r) = role_id r) \<Longrightarrow>
   role_exists (s\<lparr>roles := update_where P f (roles s)\<rparr>) i = role_exists s i"
  by (auto simp: role_exists_def exists_row_def rows)

lemma schema_update_role_row:
  assumes "\<And>r. role_id (f r) = role_id r" "\<And>r. role_name (f r) = role_name r"
  shows "preserves schema_ok (update_role_row i f)"
  unfolding update_role_row_def
  by (rule preserves_modify)
    (auto simp: schema_ok_def roles_keyed_def role_refs_ok_def role_exists_update [OF assms(1)]
      keyed_update_where assms user_exists_def)

lemma schema_rename_role [keeps]: "preserves schema_ok (rename_role i n)"
  unfolding rename_role_def
  by (rule preserves_writing)
    (auto simp: ok_iffs schema_ok_def roles_keyed_def role_refs_ok_def role_exists_update
      keyed_update_where user_exists_def keyed_def [of role_name])

lemma schema_insert_user_role [keeps]: "preserves schema_ok (insert_user_role pk i now)"
  unfolding insert_user_role_def
  by (rule preserves_writing) (auto simp: ok_iffs schema_defs keyed_snoc same_key_def)

lemma schema_insert_or_ignore_user_role [keeps]:
  "preserves schema_ok (insert_or_ignore_user_role pk i now)"
  unfolding insert_or_ignore_user_role_def
  by (rule preserves_writing)
    (auto simp: ok_iffs schema_defs keyed_snoc same_key_def split: if_splits)

lemma schema_delete_user_roles [keeps]: "preserves schema_ok (delete_user_roles P)"
  unfolding delete_user_roles_def
  by (rule preserves_modify) (auto simp: schema_defs keyed_delete_where rows)

lemma schema_delete_role_row [keeps]: "preserves schema_ok (delete_role_row i)"
  unfolding delete_role_row_def
  by (rule preserves_writing)
    (fastforce simp: schema_defs keyed_delete_where rows split: if_splits)

lemma preserves_get_role [keeps]: "preserves P (get_role i)"
  unfolding get_role_def by (intro keeps)

lemma preserves_require_not_builtin [keeps]: "preserves P (require_not_builtin i)"
  unfolding require_not_builtin_def by (intro keeps)

lemma schema_role_step: "schema_ok s \<Longrightarrow> schema_ok (role_step s op)"
proof -
  have "preserves schema_ok (create_role user uuid now req)" for user uuid now req
    unfolding create_role_def by (intro keeps)
  moreover have "preserves schema_ok (update_role user i req)" for user i req
    unfolding update_role_def by (intro keeps schema_update_role_row) simp_all
  moreover have "preserves schema_ok (delete_role user i)" for user i
    unfolding delete_role_def by (intro keeps)
  moreover have "preserves schema_ok (assign_role user pk i now)" for user pk i now
    unfolding assign_role_def by (intro keeps)
  moreover have "preserves schema_ok (remove_role user pk i)" for user pk i
    unfolding remove_role_def by (intro keeps)
  ultimately show "schema_ok s \<Longrightarrow> schema_ok (role_step s op)"
    by (cases op) (simp_all add: preserves_def)
qed

text \<open>
  Every role endpoint keeps the schema, whatever its outcome: ids and names of roles stay
  unique, every permission row and every membership refers to an existing role (and user), even
  when a request fails half-way through its statements.
\<close>

theorem role_requests_keep_schema:
  assumes "schema_ok s"
  shows "schema_ok (run role_step s ops)"
  by (rule run_invariant) (rule schema_role_step, assumption, rule assms)

theorem role_requests_keep_schema_witness:
  "schema_ok (run role_step demo_hub [DeleteRole demo_owner ''mods''])"
  by (rule role_requests_keep_schema) (rule demo_schema)

subsection \<open>The priority ceiling\<close>

definition high_ids :: "int \<Rightarrow> hub \<Rightarrow> string set" where
  "high_ids n s = role_id ` {r \<in> set (roles s). n \<le> role_priority r}"

text \<open>Roles at or above a priority, with the permissions they carry and their members.\<close>

definition at_or_above ::
    "int \<Rightarrow> hub \<Rightarrow> role_row list \<times> role_permission_row list \<times> user_role_row list" where
  "at_or_above n s =
     (filter (\<lambda>r. n \<le> role_priority r) (roles s),
      filter (\<lambda>p. rp_role p \<in> high_ids n s) (role_permissions s),
      filter (\<lambda>u. ur_role u \<in> high_ids n s) (user_roles s))"

text \<open>
  What the statements of a request keep once its guard has established that role \<open>i\<close> lies below
  \<open>n\<close>: the view from \<open>n\<close> up, and that the users in \<open>U\<close> hold no role above \<open>n\<close>.
\<close>

definition guarded :: "int \<Rightarrow> string \<Rightarrow>
    (role_row list \<times> role_permission_row list \<times> user_role_row list) \<Rightarrow> string set \<Rightarrow> hub \<Rightarrow> bool" where
  "guarded n i V U s \<longleftrightarrow> at_or_above n s = V \<and> i \<notin> high_ids n s \<and>
     (\<forall>u \<in> U. \<forall>r. holds_role s u r \<longrightarrow> role_priority r \<le> n)"

lemmas guard_defs = guarded_def at_or_above_def holds_role_def

lemma high_ids_cong: "roles s = roles t \<Longrightarrow> high_ids n s = high_ids n t"
  by (simp add: high_ids_def)

lemma high_ids_frame [simp]:
  "high_ids n (s\<lparr>role_permissions := x\<rparr>) = high_ids n s"
  "high_ids n (s\<lparr>user_roles := y\<rparr>) = high_ids n s"
  by (simp_all add: high_ids_def)

lemma filter_update_low:
  "(\<And>r. r \<in> set t \<Longrightarrow> P r \<Longrightarrow> \<not> H r \<and> \<not> H (f r)) \<Longrightarrow>
   filter H (update_where P f t) = filter H t"
  by (induction t) (auto simp: update_where_def)

lemma filter_delete_low:
  "(\<And>r. r \<in> set t \<Longrightarrow> P r \<Longrightarrow> \<not> H r) \<Longrightarrow> filter H (delete_where P t) = filter H t"
  by (induction t) (auto simp: delete_where_def)

lemma filter_delete_all: "filter P (delete_where P t) = []"
  by (simp add: filter_empty_conv rows)

lemma high_ids_eq_filter: "high_ids n s = role_id ` set (filter (\<lambda>r. n \<le> role_priority r) (roles s))"
  by (simp add: high_ids_def)

lemma guarded_insert_role:
  "role_priority r < n \<Longrightarrow> role_id r = i \<Longrightarrow> preserves (guarded n i V U) (insert_role r)"
  unfolding insert_role_def
  by (rule preserves_writing) (auto simp: ok_iffs guard_defs high_ids_eq_filter)

lemma guarded_insert_role_permission [keeps]:
  "preserves (guarded n i V U) (insert_role_permission i p)"
  unfolding insert_role_permission_def
  by (rule preserves_writing) (auto simp: ok_iffs guard_defs)

lemma guarded_delete_role_permissions [keeps]:
  "preserves (guarded n i V U) (delete_role_permissions i)"
  unfolding delete_role_permissions_def
  by (rule preserves_modify)
    (auto simp: guard_defs rows intro!: filter_delete_low)

lemma guarded_roles_update:
  assumes "guarded n i V U s"
    and "\<And>r. role_id (f r) = role_id r" "\<And>r. role_priority r < n \<Longrightarrow> role_priority (f r) < n"
  shows "guarded n i V U (s\<lparr>roles := update_where (\<lambda>r. role_id r = i) f (roles s)\<rparr>)"
proof -
  have low: "role_priority r < n" if "r \<in> set (roles s)" "role_id r = i" for r
    using assms(1) that by (force simp: guarded_def high_ids_def not_le)
  have "filter (\<lambda>r. n \<le> role_priority r) (update_where (\<lambda>r. role_id r = i) f (roles s)) =
      filter (\<lambda>r. n \<le> role_priority r) (roles s)"
    using low assms(3) by (intro filter_update_low) (auto simp: not_le)
  moreover have "role_priority r \<le> n"
    if "u \<in> U" "holds_role (s\<lparr>roles := update_where (\<lambda>r. role_id r = i) f (roles s)\<rparr>) u r" for u r
  proof -
    from that(2) obtain q where q: "q \<in> set (roles s)" "r = (if role_id q = i then f q else q)"
      by (auto simp: holds_role_def rows)
    from q(2) have "role_id r = role_id q" by (simp add: assms(2))
    with q(1) that(2) have "holds_role s u q" by (simp add: holds_role_def)
    with assms(1) that(1) q low [of q] assms(3) [of q] show ?thesis
      by (auto simp: guarded_def less_imp_le)
  qed
  ultimately show ?thesis using assms(1)
    by (simp add: guarded_def at_or_above_def high_ids_eq_filter)
qed

lemma guarded_update_role_row:
  "(\<And>r. role_id (f r) = role_id r) \<Longrightarrow> (\<And>r. role_priority r < n \<Longrightarrow> role_priority (f r) < n) \<Longrightarrow>
   preserves (guarded n i V U) (update_role_row i f)"
  unfolding update_role_row_def by (rule preserves_modify) (rule guarded_roles_update)

lemma guarded_rename_role [keeps]: "preserves (guarded n i V U) (rename_role i m)"
  unfolding rename_role_def
  by (rule preserves_writing) (auto simp: ok_iffs intro!: guarded_roles_update)

lemma guarded_insert_or_ignore_user_role [keeps]:
  "preserves (guarded n i V U) (insert_or_ignore_user_role pk i now)"
  unfolding insert_or_ignore_user_role_def
  by (rule preserves_writing)
    (auto simp: ok_iffs guard_defs high_ids_def not_le less_imp_le split: if_splits)

lemma guarded_delete_user_roles [keeps]:
  "(\<And>u. P u \<Longrightarrow> ur_role u = i) \<Longrightarrow> preserves (guarded n i V U) (delete_user_roles P)"
  unfolding delete_user_roles_def
  by (rule preserves_modify)
    (auto simp: guard_defs rows intro!: filter_delete_low)

lemma guarded_delete_role_row [keeps]: "preserves (guarded n i V U) (delete_role_row i)"
  unfolding delete_role_row_def
proof (rule preserves_writing)
  fix s t
  assume g: "guarded n i V U s" and "(if exists_row (\<lambda>q. rp_role q = i) (role_permissions s) \<or>
      exists_row (\<lambda>q. ur_role q = i) (user_roles s) then Inl (DbError FOREIGN_KEY)
      else Inr (delete_where (\<lambda>r. role_id r = i) (roles s))) = Inr t"
  then have t: "t = delete_where (\<lambda>r. role_id r = i) (roles s)" by (simp split: if_splits)
  have "filter (\<lambda>r. n \<le> role_priority r) t = filter (\<lambda>r. n \<le> role_priority r) (roles s)"
    using g unfolding t by (auto simp: guarded_def high_ids_def intro!: filter_delete_low)
  with g show "guarded n i V U (s\<lparr>roles := t\<rparr>)"
    by (auto simp: guard_defs high_ids_eq_filter) (auto simp: t rows)
qed

text \<open>The guard shared by the four endpoints that name an existing role.\<close>

lemma wp_ceiling:
  assumes "keyed role_id (roles s)" "priority_of s user \<le> n" "\<And>e. E e s"
    and "\<And>r. role_id r = i \<Longrightarrow> i \<notin> high_ids n s \<Longrightarrow> wp (rest (user_permissions user s) r) Q E s"
  shows "wp (and_then (gets (user_permissions user)) (\<lambda>perms.
     and_then (require_permission perms p) (\<lambda>_.
     and_then (get_role i) (\<lambda>r.
     and_then (check (\<not> max_priority perms \<le> role_priority r) err) (\<lambda>_. rest perms r))))) Q E s"
proof -
  have low: "i \<notin> high_ids n s"
    if "row_at role_id i (roles s) = Some r" "role_priority r < priority_of s user" for r
  proof
    assume "i \<in> high_ids n s"
    then obtain q where "q \<in> set (roles s)" "role_id q = i" "n \<le> role_priority q"
      by (auto simp: high_ids_def)
    with keyed_fetch [OF assms(1), of q] that assms(2) show False by (simp add: row_at_def)
  qed
  have "role_id r = i" if "row_at role_id i (roles s) = Some r" for r
    using that fetch_optional_SomeD [of "\<lambda>r. role_id r = i"] by (auto simp: row_at_def)
  with low assms(4) have rest: "wp (rest (user_permissions user s) r) Q E s"
    if "row_at role_id i (roles s) = Some r" "role_priority r < priority_of s user" for r
    using that by blast
  show ?thesis
    by (simp add: wps require_permission_def get_role_def not_le assms(3) rest split: option.split)
qed

lemma guarded_start:
  "i \<notin> high_ids n s \<Longrightarrow> 0 \<le> n \<Longrightarrow> guarded n i (at_or_above n s) {u. priority_of s u \<le> n} s"
  by (auto simp: guarded_def priority_le_iff)

lemma guarded_end:
  "guarded n i V U t \<Longrightarrow> 0 \<le> n \<Longrightarrow> at_or_above n t = V \<and> (\<forall>u \<in> U. priority_of t u \<le> n)"
  by (auto simp: guarded_def priority_le_iff)

definition ceiling_kept :: "int \<Rightarrow> hub \<Rightarrow> hub \<Rightarrow> bool" where
  "ceiling_kept n s t \<longleftrightarrow>
     at_or_above n t = at_or_above n s \<and> (\<forall>u. priority_of s u \<le> n \<longrightarrow> priority_of t u \<le> n)"

lemma ceiling_kept_refl [simp]: "ceiling_kept n s s"
  by (simp add: ceiling_kept_def)

lemma guarded_ceiling:
  assumes "preserves (guarded n i (at_or_above n s) {u. priority_of s u \<le> n}) m"
    and "i \<notin> high_ids n s" "0 \<le> n"
  shows "wp m (\<lambda>_. ceiling_kept n s) (\<lambda>_. ceiling_kept n s) s"
proof -
  let ?U = "{u. priority_of s u \<le> n}"
  from preserves_wp [OF assms(1) guarded_start [OF assms(2,3)]]
  have "guarded n i (at_or_above n s) ?U (snd (m s))" by (simp only: wp_always)
  from guarded_end [OF this assms(3)] show ?thesis by (simp add: wp_always ceiling_kept_def)
qed

lemma create_role_ceiling:
  assumes "0 \<le> n" "priority_of s user \<le> n"
  shows "ceiling_kept n s (snd (create_role user uuid now req s))"
proof (cases "uuid \<in> high_ids n s")
  case True
  then have "role_exists s uuid" by (auto simp: high_ids_def role_exists_def exists_row_def)
  then have "snd (create_role user uuid now req s) = s"
    by (auto simp: create_role_def require_permission_def insert_role_def run_simps
        role_conflicts_def role_exists_def)
  then show ?thesis by simp
next
  case False
  let ?G = "guarded n uuid (at_or_above n s) {u. priority_of s u \<le> n}"
  have rest: "preserves ?G (and_then (map_err g (insert_role
      \<lparr>role_id = uuid, role_name = a, role_priority = p, role_display_separately = b,
       role_talk_power = 0, role_created = now\<rparr>)) (\<lambda>_.
      and_then (for_each (insert_role_permission uuid) ps) (\<lambda>_. ret z)))"
    if "p < n" for g a b p ps z using that by (intro keeps guarded_insert_role) simp_all
  have lt: "p < n" if "p < priority_of s user" for p using that assms(2) by linarith
  show ?thesis
    unfolding wp_always [symmetric] create_role_def wp_and_then [of "gets _"] wp_gets
      wp_and_then [of "check _ _"] wp_and_then [of "require_permission _ _"]
      require_permission_def wp_check
    by (simp add: not_le guarded_ceiling [OF rest [OF lt] False assms(1)])
qed

lemma update_role_ceiling:
  assumes "keyed role_id (roles s)" "0 \<le> n" "priority_of s user \<le> n"
  shows "ceiling_kept n s (snd (update_role user i req s))"
proof -
  have lt: "p < n" if "\<not> max_priority (user_permissions user s) \<le> p" for p
    using that assms(3) by simp
  show ?thesis
    unfolding wp_always [symmetric] update_role_def require_not_builtin_def
    by (intro wp_check_then wp_ceiling [OF assms(1,3)] ceiling_kept_refl
        guarded_ceiling [where i = i, OF _ _ assms(2)] preserves_check_then keeps
        guarded_update_role_row) (simp_all add: lt)
qed

lemma delete_role_ceiling:
  assumes "keyed role_id (roles s)" "0 \<le> n" "priority_of s user \<le> n"
  shows "ceiling_kept n s (snd (delete_role user i s))"
  unfolding wp_always [symmetric] delete_role_def require_not_builtin_def
  by (intro wp_check_then wp_ceiling [OF assms(1,3)] ceiling_kept_refl
      guarded_ceiling [where i = i, OF _ _ assms(2)] keeps) simp_all

lemma assign_role_ceiling:
  assumes "keyed role_id (roles s)" "0 \<le> n" "priority_of s user \<le> n"
  shows "ceiling_kept n s (snd (assign_role user pk i now s))"
  unfolding wp_always [symmetric] assign_role_def
  by (intro wp_ceiling [OF assms(1,3)] ceiling_kept_refl
      guarded_ceiling [where i = i, OF _ _ assms(2)] keeps) simp_all

lemma remove_role_ceiling:
  assumes "keyed role_id (roles s)" "0 \<le> n" "priority_of s user \<le> n"
  shows "ceiling_kept n s (snd (remove_role user pk i s))"
  unfolding wp_always [symmetric] remove_role_def
  by (intro wp_check_then wp_ceiling [OF assms(1,3)] ceiling_kept_refl
      guarded_ceiling [where i = i, OF _ _ assms(2)] keeps) simp_all

lemma role_step_ceiling:
  assumes "schema_ok s" "0 \<le> n" "priority_of s (role_actor op) \<le> n"
  shows "ceiling_kept n s (role_step s op)"
proof -
  have "keyed role_id (roles s)" using assms(1) by (simp add: schema_ok_def roles_keyed_def)
  then show ?thesis using assms(2,3)
    by (cases op) (simp_all add: create_role_ceiling update_role_ceiling delete_role_ceiling
        assign_role_ceiling remove_role_ceiling)
qed

interpretation role_hierarchy: hierarchy schema_ok role_step role_actor priority_of at_or_above
proof unfold_locales
  show "schema_ok s \<Longrightarrow> schema_ok (role_step s op)" for s op by (rule schema_role_step)
  show "at_or_above n (role_step s op) = at_or_above n s"
    if "schema_ok s" "0 \<le> n" "priority_of s (role_actor op) \<le> n" for s n op
    using role_step_ceiling [OF that] by (simp add: ceiling_kept_def)
  show "priority_of (role_step s op) u \<le> n"
    if "schema_ok s" "0 \<le> n" "priority_of s (role_actor op) \<le> n" "priority_of s u \<le> n" for s n op u
    using role_step_ceiling [OF that(1-3)] that(4) by (simp add: ceiling_kept_def)
qed

text \<open>
  C3. No coalition climbs: however many role requests users of priority at most \<open>n\<close> send, and
  whether they succeed, fail or stop half-way, every role at or above \<open>n\<close>, the permissions it
  carries and its members are exactly what they were, and no user who was at most \<open>n\<close> ends above
  \<open>n\<close>.
\<close>

theorem role_requests_respect_ceiling:
  assumes "schema_ok s" "0 \<le> n" "\<forall>op \<in> set ops. priority_of s (role_actor op) \<le> n"
  shows "at_or_above n (run role_step s ops) = at_or_above n s \<and>
    (\<forall>u. priority_of s u \<le> n \<longrightarrow> priority_of (run role_step s ops) u \<le> n)"
  by (rule role_hierarchy.coalition [OF assms])

theorem role_requests_respect_ceiling_witness:
  "at_or_above 10 (run role_step demo_hub [AssignRole demo_mod demo_member ''builtin-everyone'' 7,
      RemoveRole demo_mod demo_owner ''builtin-owner'']) = at_or_above 10 demo_hub \<and>
   priority_of (run role_step demo_hub [AssignRole demo_mod demo_member ''builtin-everyone'' 7,
      RemoveRole demo_mod demo_owner ''builtin-owner'']) demo_member \<le> 10"
  using role_requests_respect_ceiling [OF demo_schema, of 10
      "[AssignRole demo_mod demo_member ''builtin-everyone'' 7,
        RemoveRole demo_mod demo_owner ''builtin-owner'']"]
  by (simp del: run.simps)

subsection \<open>Built-in roles and the last owner\<close>

definition builtin_ids :: "string list" where
  "builtin_ids = [''builtin-owner'', ''builtin-everyone'']"

definition builtin_part :: "hub \<Rightarrow> role_row list \<times> role_permission_row list" where
  "builtin_part s = (filter (\<lambda>r. role_id r \<in> set builtin_ids) (roles s),
     filter (\<lambda>p. rp_role p \<in> set builtin_ids) (role_permissions s))"

definition has_owner :: "hub \<Rightarrow> bool" where
  "has_owner s \<longleftrightarrow> exists_row (\<lambda>q. ur_role q = ''builtin-owner'') (user_roles s)"

definition owners_ok :: "(role_row list \<times> role_permission_row list) \<Rightarrow> hub \<Rightarrow> bool" where
  "owners_ok B s \<longleftrightarrow> builtin_part s = B \<and> has_owner s"

lemmas owner_defs = owners_ok_def builtin_part_def has_owner_def exists_row_def

lemma owners_insert_role:
  "role_id r \<notin> set builtin_ids \<Longrightarrow> preserves (owners_ok B) (insert_role r)"
  unfolding insert_role_def
  by (rule preserves_writing) (auto simp: ok_iffs owner_defs)

lemma owners_insert_role_permission:
  "i \<notin> set builtin_ids \<Longrightarrow> preserves (owners_ok B) (insert_role_permission i p)"
  unfolding insert_role_permission_def
  by (rule preserves_writing) (auto simp: ok_iffs owner_defs)

lemma owners_delete_role_permissions:
  "i \<notin> set builtin_ids \<Longrightarrow> preserves (owners_ok B) (delete_role_permissions i)"
  unfolding delete_role_permissions_def
  by (rule preserves_modify) (auto simp: owner_defs intro!: filter_delete_low)

lemma owners_update_role_row:
  "i \<notin> set builtin_ids \<Longrightarrow> (\<And>r. role_id (f r) = role_id r) \<Longrightarrow>
   preserves (owners_ok B) (update_role_row i f)"
  unfolding update_role_row_def
  by (rule preserves_modify) (auto simp: owner_defs intro!: filter_update_low)

lemma owners_rename_role: "i \<notin> set builtin_ids \<Longrightarrow> preserves (owners_ok B) (rename_role i n)"
  unfolding rename_role_def
  by (rule preserves_writing) (auto simp: ok_iffs owner_defs intro!: filter_update_low)

lemma owners_insert_or_ignore_user_role [keeps]:
  "preserves (owners_ok B) (insert_or_ignore_user_role pk i now)"
  unfolding insert_or_ignore_user_role_def
  by (rule preserves_writing) (auto simp: ok_iffs owner_defs split: if_splits)

lemma owners_delete_user_roles:
  "i \<noteq> ''builtin-owner'' \<Longrightarrow> (\<And>q. P q \<Longrightarrow> ur_role q = i) \<Longrightarrow>
   preserves (owners_ok B) (delete_user_roles P)"
  unfolding delete_user_roles_def
  by (rule preserves_modify) (auto simp: owner_defs rows)

lemma owners_delete_role_row: "i \<notin> set builtin_ids \<Longrightarrow> preserves (owners_ok B) (delete_role_row i)"
  unfolding delete_role_row_def
  by (rule preserves_writing)
    (auto simp: owner_defs split: if_splits intro!: filter_delete_low)

lemma require_not_builtin_then:
  "(i \<notin> set builtin_ids \<Longrightarrow> preserves P (f ())) \<Longrightarrow> preserves P (and_then (require_not_builtin i) f)"
  unfolding require_not_builtin_def
  by (rule preserves_check_then) (simp add: builtin_ids_def)

lemma one_owner_left:
  assumes "keyed (\<lambda>u. (ur_user u, ur_role u)) t" "1 < count_rows (\<lambda>q. ur_role q = i) t"
  shows "exists_row (\<lambda>q. ur_role q = i) (delete_where (\<lambda>q. ur_user q = pk \<and> ur_role q = i) t)"
proof (rule ccontr)
  let ?L = "map (\<lambda>u. (ur_user u, ur_role u)) (filter (\<lambda>q. ur_role q = i) t)"
  assume "\<not> ?thesis"
  then have "set ?L \<subseteq> {(pk, i)}" by (auto simp: exists_row_def rows)
  then have "card (set ?L) \<le> 1" using card_mono [of "{(pk, i)}" "set ?L"] by simp
  moreover have "distinct ?L" using keyed_filter [OF assms(1)] by (simp add: keyed_def)
  ultimately show False using assms(2) distinct_card [of ?L] by (simp add: count_rows_def)
qed

lemma remove_role_owners:
  assumes "schema_ok s" "owners_ok B s"
  shows "owners_ok B (snd (remove_role user pk i s))"
proof (cases "i = ''builtin-owner''")
  case True
  have k: "keyed (\<lambda>u. (ur_user u, ur_role u)) (user_roles s)"
    using assms(1) by (simp add: schema_ok_def)
  show ?thesis
    unfolding wp_always [symmetric] remove_role_def True require_permission_def get_role_def
      delete_user_roles_def
    using assms(2) one_owner_left [OF k, of "''builtin-owner''" pk]
    by (simp add: wps owners_ok_def has_owner_def builtin_part_def split: option.split)
next
  case False
  then have "preserves (owners_ok B) (remove_role user pk i)"
    unfolding remove_role_def by (intro keeps owners_delete_user_roles [of i]) simp_all
  then show ?thesis using assms(2) by (simp add: preserves_def)
qed

lemma create_role_owners:
  assumes "builtins_present s" "owners_ok B s"
  shows "owners_ok B (snd (create_role user uuid now req s))"
proof (cases "uuid \<in> set builtin_ids")
  case True
  then have "role_exists s uuid"
    using assms(1) by (force simp: builtins_present_def role_exists_def exists_row_def
        builtin_ids_def seeded_role_def)
  then have "snd (create_role user uuid now req s) = s"
    by (auto simp: create_role_def require_permission_def insert_role_def run_simps
        role_conflicts_def role_exists_def)
  with assms(2) show ?thesis by simp
next
  case False
  then have "preserves (owners_ok B) (create_role user uuid now req)"
    unfolding create_role_def
    by (intro keeps owners_insert_role owners_insert_role_permission) simp_all
  then show ?thesis using assms(2) by (simp add: preserves_def)
qed

lemma role_step_owners:
  assumes "schema_ok s" "builtins_present s" "owners_ok B s"
  shows "owners_ok B (role_step s op)"
proof -
  have "preserves (owners_ok B) (update_role user i req)" for user i req
    unfolding update_role_def
    by (intro require_not_builtin_then keeps owners_update_role_row owners_rename_role
        owners_insert_role_permission owners_delete_role_permissions) simp_all
  moreover have "preserves (owners_ok B) (delete_role user i)" for user i
    unfolding delete_role_def
    by (intro require_not_builtin_then keeps owners_delete_user_roles [of i] owners_delete_role_row
        owners_delete_role_permissions) (simp_all add: builtin_ids_def)
  moreover have "preserves (owners_ok B) (assign_role user pk i now)" for user pk i now
    unfolding assign_role_def by (intro keeps)
  ultimately show ?thesis using assms
    by (cases op) (simp_all add: preserves_def remove_role_owners create_role_owners)
qed

lemma builtins_present_part:
  "builtin_part t = builtin_part s \<Longrightarrow> builtins_present t = builtins_present s"
proof -
  have iff: "seeded_role b n p \<in> set (roles s) \<longleftrightarrow> seeded_role b n p \<in> set (fst (builtin_part s))"
    if "b \<in> set builtin_ids" for b n p s using that by (simp add: builtin_part_def seeded_role_def)
  assume "builtin_part t = builtin_part s"
  then show ?thesis
    unfolding builtins_present_def by (simp add: iff builtin_ids_def)
qed

text \<open>
  C5. Role requests never touch a built-in role and never leave the hub without an owner: along
  any sequence of role requests, whatever their outcomes, the rows of \<^verbatim>\<open>builtin-owner\<close> and
  \<^verbatim>\<open>builtin-everyone\<close> and the permissions they carry stay as they are, and if someone holds the
  Owner role at the start, someone still does at the end.
\<close>

theorem role_requests_keep_builtins_and_an_owner:
  assumes "schema_ok s" "builtins_present s" "has_owner s"
  shows "builtin_part (run role_step s ops) = builtin_part s \<and> has_owner (run role_step s ops)"
proof -
  let ?I = "\<lambda>t. schema_ok t \<and> builtins_present t \<and> owners_ok (builtin_part s) t"
  have "?I (run role_step s ops)"
  proof (rule run_invariant)
    show "?I (role_step t op)" if "?I t" for t op
      using that role_step_owners [of t "builtin_part s" op] schema_role_step [of t op]
        builtins_present_part [of "role_step t op" t]
      by (auto simp: owners_ok_def)
    show "?I s" using assms by (simp add: owners_ok_def)
  qed
  then show ?thesis by (simp add: owners_ok_def)
qed

theorem role_requests_keep_builtins_witness:
  "builtin_part (run role_step demo_hub [DeleteRole demo_owner ''builtin-owner'',
      RemoveRole demo_owner demo_owner ''builtin-owner'']) = builtin_part demo_hub \<and>
   has_owner (run role_step demo_hub [DeleteRole demo_owner ''builtin-owner'',
      RemoveRole demo_owner demo_owner ''builtin-owner''])"
  by (rule role_requests_keep_builtins_and_an_owner [OF demo_schema])
    (simp_all add: builtins_present_def has_owner_def exists_row_def demo_defs)

subsection \<open>What a successful request does\<close>

lemma for_each_insert_permissions:
  assumes "distinct ps" "role_exists s i"
    "\<forall>q \<in> set (role_permissions s). rp_role q = i \<longrightarrow> rp_permission q \<notin> set ps"
  shows "for_each (insert_role_permission i) ps s =
    (Inr (), s\<lparr>role_permissions := role_permissions s @ map (seeded_permission i) ps\<rparr>)"
  using assms
proof (induction ps arbitrary: s)
  case (Cons p ps)
  let ?t = "s\<lparr>role_permissions := role_permissions s @ [seeded_permission i p]\<rparr>"
  have "insert_role_permission i p s = (Inr (), ?t)"
    using Cons.prems
    by (auto simp: insert_role_permission_def run_simps same_key_def seeded_permission_def)
  moreover have "for_each (insert_role_permission i) ps ?t =
      (Inr (), ?t\<lparr>role_permissions := role_permissions ?t @ map (seeded_permission i) ps\<rparr>)"
    using Cons.prems
    by (intro Cons.IH) (auto simp: role_exists_def seeded_permission_def)
  ultimately show ?case by (simp add: and_then_def)
qed (simp add: ret_def)

lemma for_each_permissions_ok:
  "for_each (insert_role_permission i) ps s = (Inr (), t) \<Longrightarrow>
   t = s\<lparr>role_permissions := role_permissions s @ map (seeded_permission i) ps\<rparr>"
proof (induction ps arbitrary: s)
  case (Cons p ps)
  then obtain u where u: "insert_role_permission i p s = (Inr (), u)"
    "for_each (insert_role_permission i) ps u = (Inr (), t)" by (auto simp: ok_iffs)
  from u(1) have "u = s\<lparr>role_permissions := role_permissions s @ [seeded_permission i p]\<rparr>"
    by (simp add: insert_role_permission_def ok_iffs seeded_permission_def)
  with Cons.IH [OF u(2)] show ?case by simp
qed (simp add: ok_iffs)

text \<open>The row and permissions of role \<open>i\<close> in \<open>t\<close>; everything else in the role tables as in \<open>s\<close>.\<close>

definition only_role_changed :: "string \<Rightarrow> hub \<Rightarrow> hub \<Rightarrow> role_row \<Rightarrow> string list \<Rightarrow> bool" where
  "only_role_changed i s t r ps \<longleftrightarrow> row_at role_id i (roles t) = Some r \<and>
     role_permission_names t i = ps \<and> user_roles t = user_roles s \<and>
     (\<forall>j. j \<noteq> i \<longrightarrow> row_at role_id j (roles t) = row_at role_id j (roles s) \<and>
        role_permission_names t j = role_permission_names s j)"

lemma only_role_changed_refl:
  "row_at role_id i (roles s) = Some r \<Longrightarrow> only_role_changed i s s r (role_permission_names s i)"
  by (simp add: only_role_changed_def)

lemma only_role_changed_row:
  "only_role_changed i s t r ps \<Longrightarrow> (\<And>r. role_id (f r) = role_id r) \<Longrightarrow>
   only_role_changed i s (t\<lparr>roles := update_where (\<lambda>r. role_id r = i) f (roles t)\<rparr>) (f r) ps"
  by (simp add: only_role_changed_def role_permission_names_def row_at_update_where)

lemma only_role_changed_perms:
  "only_role_changed i s t r ps \<Longrightarrow>
   only_role_changed i s (t\<lparr>role_permissions := delete_where (\<lambda>q. rp_role q = i) (role_permissions t) @
     map (seeded_permission i) qs\<rparr>) r qs"
proof -
  have "filter (\<lambda>p. rp_role p = j) (delete_where (\<lambda>q. rp_role q = i) u) =
      filter (\<lambda>p. rp_role p = j) u" if "j \<noteq> i" for j and u :: "role_permission_row list"
    using that by (intro filter_delete_low) auto
  then show "only_role_changed i s t r ps \<Longrightarrow> ?thesis"
    by (auto simp: only_role_changed_def role_permission_names_def filter_delete_all comp_def
        seeded_permission_def)
qed

definition apply_update :: "update_role_request \<Rightarrow> role_row \<Rightarrow> role_row" where
  "apply_update req r =
     r\<lparr>role_priority := (case urr_priority req of None \<Rightarrow> role_priority r | Some p \<Rightarrow> p),
       role_name := (case urr_name req of None \<Rightarrow> role_name r | Some n \<Rightarrow> n),
       role_display_separately := (case urr_display_separately req of
         None \<Rightarrow> role_display_separately r | Some b \<Rightarrow> flag b)\<rparr>"

lemma update_role_ok:
  assumes "update_role user i req s = (Inr resp, t)"
  obtains old where "row_at role_id i (roles s) = Some old"
    "role_priority old < priority_of s user"
    "\<And>p. urr_priority req = Some p \<Longrightarrow> p < priority_of s user"
    "only_role_changed i s t (apply_update req old)
       (case urr_permissions req of None \<Rightarrow> role_permission_names s i | Some ps \<Rightarrow> ps)"
    "resp = to_response (apply_update req old)
       (case urr_permissions req of None \<Rightarrow> role_permission_names s i | Some ps \<Rightarrow> ps)"
proof -
  let ?opt = "\<lambda>x m. (case x of None \<Rightarrow> ret () | Some v \<Rightarrow> m v) :: unit hub_handler"
  from assms obtain old s1 s2 s3 s4 where old: "row_at role_id i (roles s) = Some old"
    "role_priority old < priority_of s user"
    and s1: "?opt (urr_priority req) (\<lambda>p. and_then (check (\<not> max_priority (user_permissions user s) \<le> p)
         (Reject FORBIDDEN ''Cannot set priority >= your own'')) (\<lambda>_.
       update_role_row i (\<lambda>r. r\<lparr>role_priority := p\<rparr>))) s = (Inr (), s1)"
    and s2: "?opt (urr_name req) (rename_role i) s1 = (Inr (), s2)"
    and s3: "?opt (urr_permissions req) (\<lambda>ps. and_then (delete_role_permissions i) (\<lambda>_.
       for_each (insert_role_permission i) ps)) s2 = (Inr (), s3)"
    and s4: "?opt (urr_display_separately req)
       (\<lambda>b. update_role_row i (\<lambda>r. r\<lparr>role_display_separately := flag b\<rparr>)) s3 = (Inr (), s4)"
    and r: "t = s4" "\<exists>new. row_at role_id i (roles t) = Some new \<and>
       resp = to_response new (role_permission_names t i)"
    by (auto simp: update_role_def ok_iffs get_role_def require_not_builtin_def not_le)
  let ?ps = "case urr_permissions req of None \<Rightarrow> role_permission_names s i | Some ps \<Rightarrow> ps"
  define r1 where "r1 = (case urr_priority req of None \<Rightarrow> old | Some p \<Rightarrow> old\<lparr>role_priority := p\<rparr>)"
  define r2 where "r2 = (case urr_name req of None \<Rightarrow> r1 | Some n \<Rightarrow> r1\<lparr>role_name := n\<rparr>)"
  have p: "p < priority_of s user" if "urr_priority req = Some p" for p
    using s1 that by (simp add: ok_iffs)
  have "only_role_changed i s s1 r1 (role_permission_names s i)"
    using s1 only_role_changed_refl [OF old(1)] unfolding r1_def
    by (auto simp: ok_iffs update_role_row_def only_role_changed_row split: option.splits)
  then have "only_role_changed i s s2 r2 (role_permission_names s i)"
    using s2 unfolding r2_def
    by (auto simp: ok_iffs rename_role_def only_role_changed_row split: option.splits)
  then have "only_role_changed i s s3 r2 ?ps"
    using s3 by (auto simp: ok_iffs delete_role_permissions_def dest!: for_each_permissions_ok
        intro: only_role_changed_perms split: option.splits)
  then have c: "only_role_changed i s t (apply_update req old) ?ps"
    using s4 unfolding r(1) apply_update_def r1_def r2_def
    by (auto simp: ok_iffs update_role_row_def split: option.splits
        dest: only_role_changed_row [where f = "\<lambda>r. r\<lparr>role_display_separately := flag b\<rparr>" for b])
  show thesis by (rule that [OF old p c]) (use r c in \<open>auto simp: only_role_changed_def\<close>)
qed

text \<open>
  What a successful \<^verbatim>\<open>update_role\<close> does: the target was below the caller and stays below;
  exactly the requested fields of exactly that role change, its permissions become the requested
  list (or stay), memberships and all other roles are untouched, and the reply reports the stored
  role.
\<close>

theorem update_role_effect:
  assumes "update_role user i req s = (Inr resp, t)"
  shows "\<exists>old. row_at role_id i (roles s) = Some old \<and>
    role_priority old < priority_of s user \<and>
    role_priority (apply_update req old) < priority_of s user \<and>
    only_role_changed i s t (apply_update req old)
      (case urr_permissions req of None \<Rightarrow> role_permission_names s i | Some ps \<Rightarrow> ps) \<and>
    resp = to_response (apply_update req old) (role_permission_names t i)"
  by (rule update_role_ok [OF assms])
    (auto simp: apply_update_def only_role_changed_def split: option.splits)

definition demo_update :: update_role_request where
  "demo_update = \<lparr>urr_name = Some ''Staff'', urr_permissions = Some [KICK_MEMBERS],
     urr_priority = Some 5, urr_display_separately = None\<rparr>"

lemma demo_owner_permissions [simp]:
  "has_permission (user_permissions demo_owner demo_hub) p"
  by (simp add: has_permission_def user_permissions_def fetch_permissions_def roles_of_def Let_def
      demo_defs permission_names)

theorem update_role_effect_witness:
  "\<exists>resp t old. update_role demo_owner ''mods'' demo_update demo_hub = (Inr resp, t) \<and>
    row_at role_id ''mods'' (roles demo_hub) = Some old \<and>
    role_priority old < priority_of demo_hub demo_owner \<and>
    role_priority (apply_update demo_update old) < priority_of demo_hub demo_owner \<and>
    only_role_changed ''mods'' demo_hub t (apply_update demo_update old) [KICK_MEMBERS] \<and>
    resp = to_response (apply_update demo_update old) (role_permission_names t ''mods'')"
proof -
  have "\<not> isl (fst (update_role demo_owner ''mods'' demo_update demo_hub))" by code_simp
  then obtain resp t where r: "update_role demo_owner ''mods'' demo_update demo_hub = (Inr resp, t)"
    using succeeded by blast
  from update_role_effect [OF r] r show ?thesis by (auto simp: demo_update_def)
qed

subsection \<open>Granting through a new role\<close>

lemma roles_of_append:
  "(\<And>ur. ur \<in> set (user_roles s) \<Longrightarrow> ur_role ur \<noteq> role_id r) \<Longrightarrow>
   roles_of (s\<lparr>roles := roles s @ [r], role_permissions := x\<rparr>) pk = roles_of s pk"
  by (auto simp: roles_of_def) blast

definition fresh_role :: "string \<Rightarrow> string \<Rightarrow> hub \<Rightarrow> bool" where
  "fresh_role uuid n s \<longleftrightarrow> \<not> exists_row (\<lambda>q. role_id q = uuid \<or> role_name q = n) (roles s)"

definition created_role :: "string \<Rightarrow> int \<Rightarrow> create_role_request \<Rightarrow> role_row" where
  "created_role uuid now req = \<lparr>role_id = uuid, role_name = crr_name req,
     role_priority = crr_priority req, role_display_separately = flag (crr_display_separately req),
     role_talk_power = 0, role_created = now\<rparr>"

lemma create_role_succeeds:
  assumes "schema_ok s" "has_permission (user_permissions user s) MANAGE_ROLES"
    "crr_priority req < priority_of s user" "fresh_role uuid (crr_name req) s"
    "distinct (crr_permissions req)"
  shows "create_role user uuid now req s =
    (Inr (CREATED, to_response (created_role uuid now req) (crr_permissions req)),
     s\<lparr>roles := roles s @ [created_role uuid now req],
       role_permissions := role_permissions s @ map (seeded_permission uuid) (crr_permissions req)\<rparr>)"
proof -
  let ?r = "created_role uuid now req"
  let ?s = "s\<lparr>roles := roles s @ [?r]\<rparr>"
  have fresh: "\<forall>q \<in> set (role_permissions s). rp_role q \<noteq> uuid"
    using assms(1,4) by (auto simp: schema_defs fresh_role_def)
  have ins: "insert_role ?r s = (Inr (), ?s)"
    using assms(4)
    by (auto simp: insert_role_def run_simps role_conflicts_def fresh_role_def created_role_def)
  have perms: "for_each (insert_role_permission uuid) (crr_permissions req) ?s = (Inr (),
      ?s\<lparr>role_permissions := role_permissions ?s @ map (seeded_permission uuid) (crr_permissions req)\<rparr>)"
    using fresh assms(5)
    by (intro for_each_insert_permissions) (auto simp: role_exists_def exists_row_def created_role_def)
  have resp: "to_response ?r (crr_permissions req) = \<lparr>resp_id = uuid, resp_name = crr_name req,
       resp_permissions = crr_permissions req, resp_priority = crr_priority req,
       resp_display_separately = crr_display_separately req, resp_created = now\<rparr>"
    by (simp add: to_response_def created_role_def flag_def)
  show ?thesis
    unfolding create_role_def resp created_role_def [symmetric]
    using assms(2,3) ins perms
    by (simp add: and_then_def gets_def require_permission_def check_def ret_def map_err_def)
qed

lemma assign_role_succeeds:
  assumes "has_permission (user_permissions user s) MANAGE_ROLES"
    "row_at role_id i (roles s) = Some r" "role_priority r < priority_of s user" "user_exists s pk"
  shows "\<exists>t. assign_role user pk i now s = (Inr OK, t) \<and> roles t = roles s \<and>
    role_permissions t = role_permissions s \<and>
    (\<exists>ur \<in> set (user_roles t). ur_user ur = pk \<and> ur_role ur = i)"
proof -
  have "role_exists s i"
    using row_at_key [OF assms(2)] by (auto simp: role_exists_def exists_row_def)
  with assms show ?thesis
    by (auto simp: assign_role_def and_then_def gets_def require_permission_def check_def ret_def
        get_role_def ok_or_def insert_or_ignore_user_role_def writing_def exec_def
        insert_or_ignore_def user_role_fk_def exists_row_def same_key_def)
qed

text \<open>
  The ceiling guards priorities, not permissions: a user with \<^verbatim>\<open>manage_roles\<close> and any
  priority can create a role below their own that carries an arbitrary duplicate-free list of
  permissions, \<^verbatim>\<open>admin\<close> included, and assign it to any registered user, themselves included;
  both requests succeed, and with \<^verbatim>\<open>admin\<close> in the list that user then has every permission.
\<close>

theorem manage_roles_can_grant_admin:
  assumes "schema_ok s" "has_permission (user_permissions user s) MANAGE_ROLES"
    "crr_priority req < priority_of s user" "fresh_role uuid (crr_name req) s"
    "distinct (crr_permissions req)" "ADMIN \<in> set (crr_permissions req)" "user_exists s pk"
  shows "\<exists>resp t u. create_role user uuid now req s = (Inr resp, t) \<and>
    assign_role user pk uuid now t = (Inr OK, u) \<and>
    (\<forall>permission. has_permission (user_permissions pk u) permission)"
proof -
  let ?r = "created_role uuid now req"
  let ?t = "s\<lparr>roles := roles s @ [?r], role_permissions :=
    role_permissions s @ map (seeded_permission uuid) (crr_permissions req)\<rparr>"
  have unused: "ur_role ur \<noteq> role_id ?r" if "ur \<in> set (user_roles s)" for ur
    using that assms(1,4) by (auto simp: schema_defs fresh_role_def created_role_def)
  then have ro: "roles_of ?t user = roles_of s user" by (rule roles_of_append)
  then have prio: "priority_of ?t user = priority_of s user" by (simp add: priority_of_eq)
  have hold: "holds_role ?t user q" if "holds_role s user q" for q
    using that ro set_roles_of by metis
  have perm: "has_permission (user_permissions user ?t) MANAGE_ROLES"
    using assms(2) hold unfolding has_permission_def effective_iff by fastforce
  have row: "row_at role_id uuid (roles ?t) = Some ?r"
  proof -
    have "row_at role_id uuid (roles s) = None"
      using assms(4) by (auto simp: row_at_None_iff fresh_role_def exists_row_def)
    then show ?thesis by (simp add: row_at_append) (simp add: row_at_def created_role_def)
  qed
  have "role_priority ?r < priority_of ?t user" "user_exists ?t pk"
    using prio assms(3,7) by (simp_all add: created_role_def user_exists_def)
  from assign_role_succeeds [OF perm row this, of now] obtain u ur where
    u: "assign_role user pk uuid now ?t = (Inr OK, u)" "roles u = roles ?t"
      "role_permissions u = role_permissions ?t"
    and ur: "ur \<in> set (user_roles u)" "ur_user ur = pk" "ur_role ur = uuid"
    by blast
  from ur u have "holds_role u pk ?r" by (auto simp: holds_role_def created_role_def)
  then have "ADMIN \<in> effective (user_permissions pk u)"
    using assms(6) u(3) unfolding effective_iff
    by (force simp: seeded_permission_def created_role_def)
  then show ?thesis
    using create_role_succeeds [OF assms(1-5)] u(1) by (auto simp: has_permission_def)
qed

definition demo_admin_role :: create_role_request where
  "demo_admin_role = \<lparr>crr_name = ''helper'', crr_permissions = [ADMIN], crr_priority = 1,
     crr_display_separately = False\<rparr>"

theorem manage_roles_can_grant_admin_witness:
  "\<exists>resp t u. create_role demo_mod ''uuid-1'' 5 demo_admin_role demo_hub = (Inr resp, t) \<and>
    assign_role demo_mod demo_mod ''uuid-1'' 5 t = (Inr OK, u) \<and>
    (\<forall>permission. has_permission (user_permissions demo_mod u) permission)"
  by (rule manage_roles_can_grant_admin [OF demo_schema])
    (simp_all add: has_permission_def demo_admin_role_def, simp_all add: fresh_role_def
      user_exists_def exists_row_def demo_defs)

end
