(* ===== verification/Moderation.thy ===== *)
theory Moderation
  imports Roles "HOL-Library.Char_ord" "HOL-Library.List_Lexorder"
begin

text \<open>
  The moderation endpoints of \<^verbatim>\<open>hub/src/routes/moderation.rs\<close>: bans, mutes and timeouts, kicks,
  channel bans (both route families), hub-wide and per-channel voice mutes, talk power and raised
  hands, with the enforcement helpers other modules call.

  Two interfaces are used. \<open>sanction\<close> says when a sanction is in force after any sequence of
  requests: the last request on its target that was granted decides. \<open>hierarchy\<close> (from
  \<open>Permissions\<close>) gives the upward protection: moderators cannot reach users at or above their own
  priority.
\<close>

subsection \<open>The guard\<close>

definition require_can_moderate :: "string \<Rightarrow> string \<Rightarrow> string \<Rightarrow> unit hub_handler" where
  "require_can_moderate actor_key target_key permission =
     and_then (gets (user_permissions actor_key)) (\<lambda>actor_perms.
     and_then (require_permission actor_perms permission) (\<lambda>_.
     and_then (gets (user_permissions target_key)) (\<lambda>target_perms.
     check (\<not> max_priority actor_perms \<le> max_priority target_perms)
       (Reject FORBIDDEN ''Cannot moderate a user with equal or higher priority''))))"

definition require_own :: "string \<Rightarrow> string \<Rightarrow> unit hub_handler" where
  "require_own user permission =
     and_then (gets (user_permissions user)) (\<lambda>perms. require_permission perms permission)"

text \<open>\<^verbatim>\<open>tracing::info!("...", &key[..16])\<close>: the slice panics on a short key.\<close>

definition log_prefix :: "string \<Rightarrow> unit hub_handler" where
  "log_prefix key = check (is_char_boundary key 16) Panic"

definition delete_sessions_of :: "string \<Rightarrow> unit hub_handler" where
  "delete_sessions_of pk =
     modify (\<lambda>s. s\<lparr>sessions := delete_where (\<lambda>x. session_user x = pk) (sessions s)\<rparr>)"

subsection \<open>Bans\<close>

definition ban_user ::
    "string \<Rightarrow> string \<Rightarrow> string option \<Rightarrow> int \<Rightarrow> (status_code \<times> ban_row) hub_handler" where
  "ban_user user target reason now =
     (let row = \<lparr>ban_target = target, ban_by = user, ban_reason = reason, ban_created = now\<rparr>
      in and_then (require_can_moderate user target BAN_MEMBERS) (\<lambda>_.
         and_then (writing (\<lambda>s. insert_or_replace (same_key ban_target) (user_exists s target) row (bans s))
           (\<lambda>t s. s\<lparr>bans := t\<rparr>)) (\<lambda>_.
         and_then (delete_sessions_of target) (\<lambda>_.
         and_then (log_prefix target) (\<lambda>_.
         and_then (spawn_publish_hub_event ''member.banned'' (Some user) (Some target) None
           (JObj [(''reason'', json_opt reason)])) (\<lambda>_.
         ret (CREATED, row)))))))"

definition unban_user :: "string \<Rightarrow> string \<Rightarrow> status_code hub_handler" where
  "unban_user user target =
     and_then (require_own user BAN_MEMBERS) (\<lambda>_.
     and_then (modify (\<lambda>s. s\<lparr>bans := delete_key ban_target target (bans s)\<rparr>)) (\<lambda>_.
     ret NO_CONTENT))"

definition list_bans :: "string \<Rightarrow> ban_row list hub_handler" where
  "list_bans user =
     and_then (require_own user BAN_MEMBERS) (\<lambda>_.
     gets (\<lambda>s. sort_key (\<lambda>r. - ban_created r) (bans s)))"

subsection \<open>Mutes and timeouts\<close>

definition replace_mute :: "mute_row \<Rightarrow> unit hub_handler" where
  "replace_mute row =
     writing (\<lambda>s. insert_or_replace (same_key mute_target) (user_exists s (mute_target row)) row (mutes s))
       (\<lambda>t s. s\<lparr>mutes := t\<rparr>)"

definition mute_user ::
    "string \<Rightarrow> string \<Rightarrow> string option \<Rightarrow> int \<Rightarrow> (status_code \<times> mute_row) hub_handler" where
  "mute_user user target reason now =
     (let row = \<lparr>mute_target = target, mute_by = user, mute_reason = reason, mute_expires = None,
                 mute_created = now\<rparr>
      in and_then (require_can_moderate user target MUTE_MEMBERS) (\<lambda>_.
         and_then (replace_mute row) (\<lambda>_.
         and_then (log_prefix target) (\<lambda>_.
         ret (CREATED, row)))))"

definition unmute_user :: "string \<Rightarrow> string \<Rightarrow> status_code hub_handler" where
  "unmute_user user target =
     and_then (require_own user MUTE_MEMBERS) (\<lambda>_.
     and_then (modify (\<lambda>s. s\<lparr>mutes := delete_key mute_target target (mutes s)\<rparr>)) (\<lambda>_.
     ret NO_CONTENT))"

definition list_mutes :: "string \<Rightarrow> mute_row list hub_handler" where
  "list_mutes user =
     and_then (require_own user MUTE_MEMBERS) (\<lambda>_.
     gets (\<lambda>s. sort_key (\<lambda>r. - mute_created r) (mutes s)))"

text \<open>\<^verbatim>\<open>now + req.duration_seconds as i64\<close>\<close>

definition timeout_expiry :: "int \<Rightarrow> u64 \<Rightarrow> int" where
  "timeout_expiry now duration_seconds = wrap_i64 (now + sint duration_seconds)"

definition timeout_user ::
    "string \<Rightarrow> string \<Rightarrow> string option \<Rightarrow> u64 \<Rightarrow> int \<Rightarrow> (status_code \<times> mute_row) hub_handler" where
  "timeout_user user target reason duration_seconds now =
     (let row = \<lparr>mute_target = target, mute_by = user, mute_reason = reason,
                 mute_expires = Some (timeout_expiry now duration_seconds), mute_created = now\<rparr>
      in and_then (require_can_moderate user target TIMEOUT_MEMBERS) (\<lambda>_.
         and_then (replace_mute row) (\<lambda>_.
         and_then (log_prefix target) (\<lambda>_.
         ret (CREATED, row)))))"

subsection \<open>Kick\<close>

definition kick_user :: "string \<Rightarrow> string \<Rightarrow> status_code hub_handler" where
  "kick_user user target =
     and_then (require_can_moderate user target KICK_MEMBERS) (\<lambda>_.
     and_then (delete_sessions_of target) (\<lambda>_.
     and_then (log_prefix target) (\<lambda>_.
     and_then (spawn_publish_hub_event ''member.kicked'' (Some user) (Some target) None (JObj [])) (\<lambda>_.
     ret OK))))"

subsection \<open>Channel bans\<close>

definition cb_key :: "channel_ban_row \<Rightarrow> string \<times> string" where
  "cb_key r = (cb_channel r, cb_target r)"

definition replace_channel_ban :: "channel_ban_row \<Rightarrow> unit hub_handler" where
  "replace_channel_ban row =
     writing (\<lambda>s. insert_or_replace (same_key cb_key)
         (channel_exists s (cb_channel row) \<and> user_exists s (cb_target row)) row (channel_bans s))
       (\<lambda>t s. s\<lparr>channel_bans := t\<rparr>)"

definition delete_channel_ban :: "string \<Rightarrow> string \<Rightarrow> unit hub_handler" where
  "delete_channel_ban channel target =
     modify (\<lambda>s. s\<lparr>channel_bans := delete_key cb_key (channel, target) (channel_bans s)\<rparr>)"

definition channel_ban :: "string \<Rightarrow> string \<Rightarrow> string \<Rightarrow> string option \<Rightarrow> int \<Rightarrow>
    (status_code \<times> channel_ban_row) hub_handler" where
  "channel_ban user channel target reason now =
     (let row = \<lparr>cb_channel = channel, cb_target = target, cb_by = user, cb_reason = reason,
                 cb_created = now\<rparr>
      in and_then (require_can_moderate user target MUTE_MEMBERS) (\<lambda>_.
         and_then (replace_channel_ban row) (\<lambda>_.
         ret (CREATED, row))))"

definition channel_bans_of :: "string \<Rightarrow> hub \<Rightarrow> channel_ban_row list" where
  "channel_bans_of channel s =
     sort_key (\<lambda>r. - cb_created r) (filter (\<lambda>r. cb_channel r = channel) (channel_bans s))"

definition list_channel_bans :: "string \<Rightarrow> string \<Rightarrow> channel_ban_row list hub_handler" where
  "list_channel_bans user channel =
     and_then (require_own user MUTE_MEMBERS) (\<lambda>_. gets (channel_bans_of channel))"

definition channel_unban :: "string \<Rightarrow> string \<Rightarrow> string \<Rightarrow> status_code hub_handler" where
  "channel_unban user channel target =
     and_then (require_own user MUTE_MEMBERS) (\<lambda>_.
     and_then (delete_channel_ban channel target) (\<lambda>_.
     ret NO_CONTENT))"

text \<open>
  The second route family answers with (channel, key, moderator, timestamp as text); its text
  timestamp is stored in the same INTEGER column.
\<close>

definition channel_ban_v2 :: "string \<Rightarrow> string \<Rightarrow> string \<Rightarrow> int \<Rightarrow>
    (status_code \<times> string \<times> string \<times> string \<times> string) hub_handler" where
  "channel_ban_v2 user channel pubkey now =
     and_then (require_can_moderate user pubkey BAN_MEMBERS) (\<lambda>_.
     and_then (replace_channel_ban \<lparr>cb_channel = channel, cb_target = pubkey, cb_by = user,
       cb_reason = None, cb_created = now\<rparr>) (\<lambda>_.
     ret (CREATED, channel, pubkey, user, show_int now)))"

definition channel_unban_v2 :: "string \<Rightarrow> string \<Rightarrow> string \<Rightarrow> status_code hub_handler" where
  "channel_unban_v2 user channel pubkey =
     and_then (require_own user BAN_MEMBERS) (\<lambda>_.
     and_then (delete_channel_ban channel pubkey) (\<lambda>_.
     ret NO_CONTENT))"

definition list_channel_bans_v2 ::
    "string \<Rightarrow> string \<Rightarrow> (string \<times> string \<times> string \<times> string) list hub_handler" where
  "list_channel_bans_v2 user channel =
     and_then (require_own user BAN_MEMBERS) (\<lambda>_.
     gets (\<lambda>s. map (\<lambda>r. (cb_channel r, cb_target r, cb_by r, show_int (cb_created r)))
       (channel_bans_of channel s)))"

subsection \<open>Voice mutes\<close>

definition voice_mute ::
    "string \<Rightarrow> string \<Rightarrow> string option \<Rightarrow> int \<Rightarrow> (status_code \<times> voice_mute_row) hub_handler" where
  "voice_mute user target reason now =
     (let row = \<lparr>vm_target = target, vm_by = user, vm_reason = reason, vm_created = now\<rparr>
      in and_then (require_can_moderate user target MUTE_MEMBERS) (\<lambda>_.
         and_then (writing (\<lambda>s. insert_or_replace (same_key vm_target) (user_exists s target) row (voice_mutes s))
           (\<lambda>t s. s\<lparr>voice_mutes := t\<rparr>)) (\<lambda>_.
         ret (CREATED, row))))"

definition voice_unmute :: "string \<Rightarrow> string \<Rightarrow> status_code hub_handler" where
  "voice_unmute user target =
     and_then (require_own user MUTE_MEMBERS) (\<lambda>_.
     and_then (modify (\<lambda>s. s\<lparr>voice_mutes := delete_key vm_target target (voice_mutes s)\<rparr>)) (\<lambda>_.
     ret NO_CONTENT))"

definition list_voice_mutes :: "string \<Rightarrow> voice_mute_row list hub_handler" where
  "list_voice_mutes user =
     and_then (require_own user MUTE_MEMBERS) (\<lambda>_.
     gets (\<lambda>s. sort_key (\<lambda>r. - vm_created r) (voice_mutes s)))"

definition cvm_key :: "channel_voice_mute_row \<Rightarrow> string \<times> string" where
  "cvm_key r = (cvm_channel r, cvm_pubkey r)"

definition channel_voice_mute :: "string \<Rightarrow> string \<Rightarrow> string \<Rightarrow> int \<Rightarrow>
    (status_code \<times> channel_voice_mute_row) hub_handler" where
  "channel_voice_mute user channel pubkey now =
     (let row = \<lparr>cvm_channel = channel, cvm_pubkey = pubkey, cvm_by = user, cvm_at = show_int now\<rparr>
      in and_then (require_can_moderate user pubkey MUTE_MEMBERS) (\<lambda>_.
         and_then (writing (\<lambda>s. insert_or_replace (same_key cvm_key) True row (channel_voice_mutes s))
           (\<lambda>t s. s\<lparr>channel_voice_mutes := t\<rparr>)) (\<lambda>_.
         ret (CREATED, row))))"

definition channel_voice_unmute :: "string \<Rightarrow> string \<Rightarrow> string \<Rightarrow> status_code hub_handler" where
  "channel_voice_unmute user channel pubkey =
     and_then (require_own user MUTE_MEMBERS) (\<lambda>_.
     and_then (modify (\<lambda>s. s\<lparr>channel_voice_mutes :=
       delete_key cvm_key (channel, pubkey) (channel_voice_mutes s)\<rparr>)) (\<lambda>_.
     ret NO_CONTENT))"

text \<open>\<^verbatim>\<open>ORDER BY muted_at DESC\<close> on a TEXT column is the reverse of the byte order.\<close>

definition list_channel_voice_mutes :: "string \<Rightarrow> string \<Rightarrow> channel_voice_mute_row list hub_handler" where
  "list_channel_voice_mutes user channel =
     and_then (require_own user MUTE_MEMBERS) (\<lambda>_.
     gets (\<lambda>s. rev (sort_key cvm_at
       (rev (filter (\<lambda>r. cvm_channel r = channel) (channel_voice_mutes s))))))"

subsection \<open>Talk power\<close>

definition set_talk_power :: "string \<Rightarrow> string \<Rightarrow> int \<Rightarrow> status_code hub_handler" where
  "set_talk_power user channel min_power =
     and_then (require_own user ADMIN) (\<lambda>_.
     and_then (writing (\<lambda>s. upsert (same_key cs_channel) (channel_exists s channel)
         \<lparr>cs_channel = channel, cs_min_talk_power = min_power\<rparr>
         (\<lambda>r. r\<lparr>cs_min_talk_power := min_power\<rparr>) (channel_settings s))
       (\<lambda>t s. s\<lparr>channel_settings := t\<rparr>)) (\<lambda>_.
     ret OK))"

definition get_talk_power :: "string \<Rightarrow> (string \<times> int) hub_handler" where
  "get_talk_power channel =
     gets (\<lambda>s. (channel, case row_at cs_channel channel (channel_settings s) of
       None \<Rightarrow> 0 | Some r \<Rightarrow> cs_min_talk_power r))"

subsection \<open>Raised hands\<close>

definition hand_conflicts :: "raise_hand_row \<Rightarrow> raise_hand_row \<Rightarrow> bool" where
  "hand_conflicts r q \<longleftrightarrow> hand_id q = hand_id r \<or>
     (hand_channel q = hand_channel r \<and> hand_pubkey q = hand_pubkey r)"

definition raise_hand ::
    "string \<Rightarrow> string \<Rightarrow> string \<Rightarrow> int \<Rightarrow> (status_code \<times> raise_hand_row) hub_handler" where
  "raise_hand user channel uuid now =
     (let row = \<lparr>hand_id = uuid, hand_channel = channel, hand_pubkey = user, hand_at = show_int now\<rparr>
      in and_then (writing (\<lambda>s. insert_or_replace hand_conflicts True row (raise_hand_requests s))
           (\<lambda>t s. s\<lparr>raise_hand_requests := t\<rparr>)) (\<lambda>_.
         ret (CREATED, row)))"

definition lower_hand :: "string \<Rightarrow> string \<Rightarrow> string \<Rightarrow> status_code hub_handler" where
  "lower_hand user channel pubkey =
     and_then (if pubkey \<noteq> user then require_own user MUTE_MEMBERS else ret ()) (\<lambda>_.
     and_then (modify (\<lambda>s. s\<lparr>raise_hand_requests :=
       delete_where (\<lambda>r. hand_channel r = channel \<and> hand_pubkey r = pubkey) (raise_hand_requests s)\<rparr>)) (\<lambda>_.
     ret NO_CONTENT))"

definition list_raise_hands :: "string \<Rightarrow> raise_hand_row list hub_handler" where
  "list_raise_hands channel =
     gets (\<lambda>s. sort_key hand_at (filter (\<lambda>r. hand_channel r = channel) (raise_hand_requests s)))"

subsection \<open>Enforcement helpers\<close>

definition is_channel_voice_muted :: "hub \<Rightarrow> string \<Rightarrow> string \<Rightarrow> bool" where
  "is_channel_voice_muted s channel pubkey \<longleftrightarrow>
     0 < count_rows (\<lambda>r. cvm_channel r = channel \<and> cvm_pubkey r = pubkey) (channel_voice_mutes s)"

definition has_raised_hand :: "hub \<Rightarrow> string \<Rightarrow> string \<Rightarrow> bool" where
  "has_raised_hand s channel pubkey \<longleftrightarrow>
     0 < count_rows (\<lambda>r. hand_channel r = channel \<and> hand_pubkey r = pubkey) (raise_hand_requests s)"

definition is_banned :: "hub \<Rightarrow> string \<Rightarrow> bool" where
  "is_banned s pk \<longleftrightarrow> 0 < count_rows (\<lambda>r. ban_target r = pk) (bans s)"

definition is_muted :: "int \<Rightarrow> hub \<Rightarrow> string \<Rightarrow> bool" where
  "is_muted now s pk \<longleftrightarrow>
     0 < count_rows (\<lambda>r. mute_target r = pk \<and>
           (case mute_expires r of None \<Rightarrow> True | Some e \<Rightarrow> now < e)) (mutes s)"

definition is_channel_banned :: "hub \<Rightarrow> string \<Rightarrow> string \<Rightarrow> bool" where
  "is_channel_banned s channel pk \<longleftrightarrow>
     0 < count_rows (\<lambda>r. cb_channel r = channel \<and> cb_target r = pk) (channel_bans s)"

definition is_voice_muted :: "hub \<Rightarrow> string \<Rightarrow> bool" where
  "is_voice_muted s pk \<longleftrightarrow> 0 < count_rows (\<lambda>r. vm_target r = pk) (voice_mutes s)"

subsection \<open>Requests that write, as one type of operations\<close>

datatype moderation_op =
    BanUser string string "string option" int
  | UnbanUser string string
  | MuteUser string string "string option" int
  | UnmuteUser string string
  | TimeoutUser string string "string option" u64 int
  | KickUser string string
  | ChannelBan string string string "string option" int
  | ChannelUnban string string string
  | ChannelBanV2 string string string int
  | ChannelUnbanV2 string string string
  | VoiceMute string string "string option" int
  | VoiceUnmute string string
  | ChannelVoiceMute string string string int
  | ChannelVoiceUnmute string string string
  | SetTalkPower string string int
  | RaiseHand string string string int
  | LowerHand string string string

fun moderation_actor :: "moderation_op \<Rightarrow> string" where
  "moderation_actor (BanUser user _ _ _) = user"
| "moderation_actor (UnbanUser user _) = user"
| "moderation_actor (MuteUser user _ _ _) = user"
| "moderation_actor (UnmuteUser user _) = user"
| "moderation_actor (TimeoutUser user _ _ _ _) = user"
| "moderation_actor (KickUser user _) = user"
| "moderation_actor (ChannelBan user _ _ _ _) = user"
| "moderation_actor (ChannelUnban user _ _) = user"
| "moderation_actor (ChannelBanV2 user _ _ _) = user"
| "moderation_actor (ChannelUnbanV2 user _ _) = user"
| "moderation_actor (VoiceMute user _ _ _) = user"
| "moderation_actor (VoiceUnmute user _) = user"
| "moderation_actor (ChannelVoiceMute user _ _ _) = user"
| "moderation_actor (ChannelVoiceUnmute user _ _) = user"
| "moderation_actor (SetTalkPower user _ _) = user"
| "moderation_actor (RaiseHand user _ _ _) = user"
| "moderation_actor (LowerHand user _ _) = user"

fun moderation_step :: "hub \<Rightarrow> moderation_op \<Rightarrow> hub" where
  "moderation_step s (BanUser user t r now) = snd (ban_user user t r now s)"
| "moderation_step s (UnbanUser user t) = snd (unban_user user t s)"
| "moderation_step s (MuteUser user t r now) = snd (mute_user user t r now s)"
| "moderation_step s (UnmuteUser user t) = snd (unmute_user user t s)"
| "moderation_step s (TimeoutUser user t r d now) = snd (timeout_user user t r d now s)"
| "moderation_step s (KickUser user t) = snd (kick_user user t s)"
| "moderation_step s (ChannelBan user c t r now) = snd (channel_ban user c t r now s)"
| "moderation_step s (ChannelUnban user c t) = snd (channel_unban user c t s)"
| "moderation_step s (ChannelBanV2 user c t now) = snd (channel_ban_v2 user c t now s)"
| "moderation_step s (ChannelUnbanV2 user c t) = snd (channel_unban_v2 user c t s)"
| "moderation_step s (VoiceMute user t r now) = snd (voice_mute user t r now s)"
| "moderation_step s (VoiceUnmute user t) = snd (voice_unmute user t s)"
| "moderation_step s (ChannelVoiceMute user c t now) = snd (channel_voice_mute user c t now s)"
| "moderation_step s (ChannelVoiceUnmute user c t) = snd (channel_voice_unmute user c t s)"
| "moderation_step s (SetTalkPower user c p) = snd (set_talk_power user c p s)"
| "moderation_step s (RaiseHand user c uuid now) = snd (raise_hand user c uuid now s)"
| "moderation_step s (LowerHand user c t) = snd (lower_hand user c t s)"

lemmas moderation_endpoints =
  ban_user_def unban_user_def mute_user_def unmute_user_def timeout_user_def kick_user_def
  channel_ban_def channel_unban_def channel_ban_v2_def channel_unban_v2_def voice_mute_def
  voice_unmute_def channel_voice_mute_def channel_voice_unmute_def set_talk_power_def
  raise_hand_def lower_hand_def

subsection \<open>Guards evaluated\<close>

definition may_moderate :: "hub \<Rightarrow> string \<Rightarrow> string \<Rightarrow> string \<Rightarrow> bool" where
  "may_moderate s actor target permission \<longleftrightarrow>
     has_permission (user_permissions actor s) permission \<and> priority_of s target < priority_of s actor"

lemma require_can_moderate_run [run_simps]:
  "require_can_moderate a t p s =
     (if may_moderate s a t p then Inr ()
      else Inl (if has_permission (user_permissions a s) p
        then Reject FORBIDDEN ''Cannot moderate a user with equal or higher priority''
        else Reject FORBIDDEN (''Missing permission: '' @ p)), s)"
  by (simp add: require_can_moderate_def require_permission_def run_defs may_moderate_def)

lemma require_own_run [run_simps]:
  "require_own a p s =
     (if has_permission (user_permissions a s) p then Inr ()
      else Inl (Reject FORBIDDEN (''Missing permission: '' @ p)), s)"
  by (simp add: require_own_def require_permission_def run_defs)

lemma preserves_require_can_moderate [keeps]: "preserves P (require_can_moderate a t p)"
  unfolding require_can_moderate_def by (intro keeps)

lemma preserves_require_own [keeps]: "preserves P (require_own a p)"
  unfolding require_own_def by (intro keeps)

lemma preserves_log_prefix [keeps]: "preserves P (log_prefix k)"
  unfolding log_prefix_def by (intro keeps)

text \<open>
  The state after a request, in one equation per table it may write: guards, foreign keys and
  the panics after a write are all accounted for.
\<close>

lemmas effect_simps = run_defs require_can_moderate_run require_own_run moderation_endpoints
  writing_def delete_sessions_of_def log_prefix_def Let_def spawn_publish_hub_event_def
  replace_mute_def replace_channel_ban_def delete_channel_ban_def insert_or_replace_def

lemma moderation_bans:
  "bans (moderation_step s op) =
     (case op of
        BanUser user target reason now \<Rightarrow>
          if may_moderate s user target BAN_MEMBERS \<and> user_exists s target
          then replace_row ban_target \<lparr>ban_target = target, ban_by = user, ban_reason = reason,
            ban_created = now\<rparr> (bans s) else bans s
      | UnbanUser user target \<Rightarrow>
          if has_permission (user_permissions user s) BAN_MEMBERS
          then delete_key ban_target target (bans s) else bans s
      | _ \<Rightarrow> bans s)"
  by (cases op) (auto simp: effect_simps replace_row_def upsert_def)

lemma moderation_mutes:
  "mutes (moderation_step s op) =
     (case op of
        MuteUser user target reason now \<Rightarrow>
          if may_moderate s user target MUTE_MEMBERS \<and> user_exists s target
          then replace_row mute_target \<lparr>mute_target = target, mute_by = user, mute_reason = reason,
            mute_expires = None, mute_created = now\<rparr> (mutes s) else mutes s
      | TimeoutUser user target reason d now \<Rightarrow>
          if may_moderate s user target TIMEOUT_MEMBERS \<and> user_exists s target
          then replace_row mute_target \<lparr>mute_target = target, mute_by = user, mute_reason = reason,
            mute_expires = Some (timeout_expiry now d), mute_created = now\<rparr> (mutes s) else mutes s
      | UnmuteUser user target \<Rightarrow>
          if has_permission (user_permissions user s) MUTE_MEMBERS
          then delete_key mute_target target (mutes s) else mutes s
      | _ \<Rightarrow> mutes s)"
  by (cases op) (auto simp: effect_simps replace_row_def upsert_def)

lemma moderation_voice_mutes:
  "voice_mutes (moderation_step s op) =
     (case op of
        VoiceMute user target reason now \<Rightarrow>
          if may_moderate s user target MUTE_MEMBERS \<and> user_exists s target
          then replace_row vm_target \<lparr>vm_target = target, vm_by = user, vm_reason = reason,
            vm_created = now\<rparr> (voice_mutes s) else voice_mutes s
      | VoiceUnmute user target \<Rightarrow>
          if has_permission (user_permissions user s) MUTE_MEMBERS
          then delete_key vm_target target (voice_mutes s) else voice_mutes s
      | _ \<Rightarrow> voice_mutes s)"
  by (cases op) (auto simp: effect_simps replace_row_def upsert_def)

lemma moderation_channel_bans:
  "channel_bans (moderation_step s op) =
     (case op of
        ChannelBan user c target reason now \<Rightarrow>
          if may_moderate s user target MUTE_MEMBERS \<and> channel_exists s c \<and> user_exists s target
          then replace_row cb_key \<lparr>cb_channel = c, cb_target = target, cb_by = user,
            cb_reason = reason, cb_created = now\<rparr> (channel_bans s) else channel_bans s
      | ChannelBanV2 user c target now \<Rightarrow>
          if may_moderate s user target BAN_MEMBERS \<and> channel_exists s c \<and> user_exists s target
          then replace_row cb_key \<lparr>cb_channel = c, cb_target = target, cb_by = user,
            cb_reason = None, cb_created = now\<rparr> (channel_bans s) else channel_bans s
      | ChannelUnban user c target \<Rightarrow>
          if has_permission (user_permissions user s) MUTE_MEMBERS
          then delete_key cb_key (c, target) (channel_bans s) else channel_bans s
      | ChannelUnbanV2 user c target \<Rightarrow>
          if has_permission (user_permissions user s) BAN_MEMBERS
          then delete_key cb_key (c, target) (channel_bans s) else channel_bans s
      | _ \<Rightarrow> channel_bans s)"
  by (cases op) (auto simp: effect_simps replace_row_def upsert_def)

lemma moderation_channel_voice_mutes:
  "channel_voice_mutes (moderation_step s op) =
     (case op of
        ChannelVoiceMute user c target now \<Rightarrow>
          if may_moderate s user target MUTE_MEMBERS
          then replace_row cvm_key \<lparr>cvm_channel = c, cvm_pubkey = target, cvm_by = user,
            cvm_at = show_int now\<rparr> (channel_voice_mutes s) else channel_voice_mutes s
      | ChannelVoiceUnmute user c target \<Rightarrow>
          if has_permission (user_permissions user s) MUTE_MEMBERS
          then delete_key cvm_key (c, target) (channel_voice_mutes s) else channel_voice_mutes s
      | _ \<Rightarrow> channel_voice_mutes s)"
  by (cases op) (auto simp: effect_simps replace_row_def upsert_def)

lemma moderation_sessions:
  "sessions (moderation_step s op) =
     (case op of
        BanUser user target reason now \<Rightarrow>
          if may_moderate s user target BAN_MEMBERS \<and> user_exists s target
          then delete_where (\<lambda>x. session_user x = target) (sessions s) else sessions s
      | KickUser user target \<Rightarrow>
          if may_moderate s user target KICK_MEMBERS
          then delete_where (\<lambda>x. session_user x = target) (sessions s) else sessions s
      | _ \<Rightarrow> sessions s)"
  by (cases op) (auto simp: effect_simps upsert_def)

lemma moderation_frame [simp]:
  "users (moderation_step s op) = users s" "roles (moderation_step s op) = roles s"
  "role_permissions (moderation_step s op) = role_permissions s"
  "user_roles (moderation_step s op) = user_roles s" "channels (moderation_step s op) = channels s"
  by (cases op; auto simp: effect_simps upsert_def)+

lemma moderation_priority [simp]: "priority_of (moderation_step s op) u = priority_of s u"
  by (simp add: priority_of_eq roles_of_def)

lemma moderation_permissions [simp]:
  "user_permissions u (moderation_step s op) = user_permissions u s"
  by (rule user_permissions_cong) simp_all

declare moderation_step.simps [simp del]

subsection \<open>When a sanction is in force\<close>

text \<open>
  \<open>decides s op k\<close> tells what a request settles for the sanction on \<open>k\<close>: \<open>Some True\<close> when it is
  granted and imposes it, \<open>Some False\<close> when it is granted and lifts it, \<open>None\<close> when it is refused
  or concerns something else.
\<close>

locale sanction =
  fixes step :: "'s \<Rightarrow> 'op \<Rightarrow> 's"
    and decides :: "'s \<Rightarrow> 'op \<Rightarrow> 'k \<Rightarrow> bool option"
    and active :: "'k \<Rightarrow> 's \<Rightarrow> bool"
  assumes active_step:
    "active k (step s op) = (case decides s op k of None \<Rightarrow> active k s | Some b \<Rightarrow> b)"
begin

primrec decisions :: "'k \<Rightarrow> 's \<Rightarrow> 'op list \<Rightarrow> bool list" where
  "decisions k s [] = []"
| "decisions k s (op # ops) =
     (case decides s op k of None \<Rightarrow> [] | Some b \<Rightarrow> [b]) @ decisions k (step s op) ops"

lemma last_granted_decides:
  "active k (run step s ops) \<longleftrightarrow>
     (if decisions k s ops = [] then active k s else last (decisions k s ops))"
  by (induction ops arbitrary: s) (auto simp: active_step split: option.splits)

lemma never_imposed:
  "\<not> active k s \<Longrightarrow> True \<notin> set (decisions k s ops) \<Longrightarrow> \<not> active k (run step s ops)"
  unfolding last_granted_decides by (metis last_in_set)

lemma decisions_imposed:
  "True \<in> set (decisions k s ops) \<Longrightarrow>
   \<exists>pre op post. ops = pre @ op # post \<and> decides (run step s pre) op k = Some True"
proof (induction ops arbitrary: s)
  case (Cons op ops)
  show ?case
  proof (cases "decides s op k = Some True")
    case True
    then show ?thesis by (intro exI [of _ "[]"]) auto
  next
    case False
    with Cons.prems have "True \<in> set (decisions k (step s op) ops)" by (auto split: option.splits)
    from Cons.IH [OF this] obtain pre o' post where
      "ops = pre @ o' # post" "decides (run step (step s op) pre) o' k = Some True" by blast
    then show ?thesis by (intro exI [of _ "op # pre"]) auto
  qed
qed simp

end

definition ban_decides :: "hub \<Rightarrow> moderation_op \<Rightarrow> string \<Rightarrow> bool option" where
  "ban_decides s op k =
     (case op of
        BanUser user t _ _ \<Rightarrow>
          if t = k \<and> may_moderate s user t BAN_MEMBERS \<and> user_exists s t then Some True else None
      | UnbanUser user t \<Rightarrow>
          if t = k \<and> has_permission (user_permissions user s) BAN_MEMBERS then Some False else None
      | _ \<Rightarrow> None)"

text \<open>A timeout settles the mute at the observed time \<open>at\<close>: in force while that precedes its end.\<close>

definition mute_decides :: "int \<Rightarrow> hub \<Rightarrow> moderation_op \<Rightarrow> string \<Rightarrow> bool option" where
  "mute_decides at s op k =
     (case op of
        MuteUser user t _ _ \<Rightarrow>
          if t = k \<and> may_moderate s user t MUTE_MEMBERS \<and> user_exists s t then Some True else None
      | TimeoutUser user t _ d now \<Rightarrow>
          if t = k \<and> may_moderate s user t TIMEOUT_MEMBERS \<and> user_exists s t
          then Some (at < timeout_expiry now d) else None
      | UnmuteUser user t \<Rightarrow>
          if t = k \<and> has_permission (user_permissions user s) MUTE_MEMBERS then Some False else None
      | _ \<Rightarrow> None)"

definition voice_mute_decides :: "hub \<Rightarrow> moderation_op \<Rightarrow> string \<Rightarrow> bool option" where
  "voice_mute_decides s op k =
     (case op of
        VoiceMute user t _ _ \<Rightarrow>
          if t = k \<and> may_moderate s user t MUTE_MEMBERS \<and> user_exists s t then Some True else None
      | VoiceUnmute user t \<Rightarrow>
          if t = k \<and> has_permission (user_permissions user s) MUTE_MEMBERS then Some False else None
      | _ \<Rightarrow> None)"

definition channel_ban_decides :: "hub \<Rightarrow> moderation_op \<Rightarrow> string \<times> string \<Rightarrow> bool option" where
  "channel_ban_decides s op k =
     (case op of
        ChannelBan user c t _ _ \<Rightarrow>
          if (c, t) = k \<and> may_moderate s user t MUTE_MEMBERS \<and> channel_exists s c \<and> user_exists s t
          then Some True else None
      | ChannelBanV2 user c t _ \<Rightarrow>
          if (c, t) = k \<and> may_moderate s user t BAN_MEMBERS \<and> channel_exists s c \<and> user_exists s t
          then Some True else None
      | ChannelUnban user c t \<Rightarrow>
          if (c, t) = k \<and> has_permission (user_permissions user s) MUTE_MEMBERS
          then Some False else None
      | ChannelUnbanV2 user c t \<Rightarrow>
          if (c, t) = k \<and> has_permission (user_permissions user s) BAN_MEMBERS
          then Some False else None
      | _ \<Rightarrow> None)"

definition channel_voice_mute_decides ::
    "hub \<Rightarrow> moderation_op \<Rightarrow> string \<times> string \<Rightarrow> bool option" where
  "channel_voice_mute_decides s op k =
     (case op of
        ChannelVoiceMute user c t _ \<Rightarrow>
          if (c, t) = k \<and> may_moderate s user t MUTE_MEMBERS then Some True else None
      | ChannelVoiceUnmute user c t \<Rightarrow>
          if (c, t) = k \<and> has_permission (user_permissions user s) MUTE_MEMBERS
          then Some False else None
      | _ \<Rightarrow> None)"

lemma is_banned_iff: "is_banned s pk \<longleftrightarrow> (\<exists>r \<in> set (bans s). ban_target r = pk)"
  by (simp add: is_banned_def rows)

lemma is_muted_iff:
  "is_muted now s pk \<longleftrightarrow> (\<exists>r \<in> set (mutes s). mute_target r = pk \<and>
     (case mute_expires r of None \<Rightarrow> True | Some e \<Rightarrow> now < e))"
  by (simp add: is_muted_def rows)

lemma is_voice_muted_iff: "is_voice_muted s pk \<longleftrightarrow> (\<exists>r \<in> set (voice_mutes s). vm_target r = pk)"
  by (simp add: is_voice_muted_def rows)

lemma is_channel_banned_iff:
  "is_channel_banned s c pk \<longleftrightarrow> (\<exists>r \<in> set (channel_bans s). cb_key r = (c, pk))"
  by (auto simp: is_channel_banned_def rows cb_key_def)

lemma is_channel_voice_muted_iff:
  "is_channel_voice_muted s c pk \<longleftrightarrow> (\<exists>r \<in> set (channel_voice_mutes s). cvm_key r = (c, pk))"
  by (auto simp: is_channel_voice_muted_def rows cvm_key_def)

interpretation ban: sanction moderation_step ban_decides "\<lambda>k s. is_banned s k"
  by unfold_locales (auto simp: is_banned_iff moderation_bans ban_decides_def rows
      split: moderation_op.splits)

interpretation mute: sanction moderation_step "mute_decides at" "\<lambda>k s. is_muted at s k" for at
  by unfold_locales (auto simp: is_muted_iff moderation_mutes mute_decides_def rows
      split: moderation_op.splits)

interpretation vmute: sanction moderation_step voice_mute_decides "\<lambda>k s. is_voice_muted s k"
  by unfold_locales (auto simp: is_voice_muted_iff moderation_voice_mutes voice_mute_decides_def
      rows split: moderation_op.splits)

interpretation cban: sanction moderation_step channel_ban_decides
    "\<lambda>k s. is_channel_banned s (fst k) (snd k)"
  by unfold_locales (auto simp: is_channel_banned_iff moderation_channel_bans
      channel_ban_decides_def cb_key_def rows split: moderation_op.splits)

interpretation cvmute: sanction moderation_step channel_voice_mute_decides
    "\<lambda>k s. is_channel_voice_muted s (fst k) (snd k)"
  by unfold_locales (auto simp: is_channel_voice_muted_iff moderation_channel_voice_mutes
      channel_voice_mute_decides_def cvm_key_def rows split: moderation_op.splits)

text \<open>
  A ban holds until it is lifted: once a ban request on a user has been granted, the user stays
  banned through any later moderation requests, as long as no unban of that user is granted, and
  has no session left.
\<close>

theorem ban_holds_until_unban:
  assumes "ban_decides (run moderation_step s pre) (BanUser user k reason now) k = Some True"
    and "\<forall>qs op rs. post = qs @ op # rs \<longrightarrow>
      ban_decides (run moderation_step s (pre @ BanUser user k reason now # qs)) op k \<noteq> Some False"
  shows "is_banned (run moderation_step s (pre @ BanUser user k reason now # post)) k \<and>
    \<not> exists_row (\<lambda>x. session_user x = k)
      (sessions (run moderation_step s (pre @ BanUser user k reason now # post)))"
  using assms(2)
proof (induction post rule: rev_induct)
  case Nil
  have step: "run moderation_step s (pre @ [BanUser user k reason now]) =
      moderation_step (run moderation_step s pre) (BanUser user k reason now)" by (simp add: run_append)
  have "sessions (moderation_step (run moderation_step s pre) (BanUser user k reason now)) =
      delete_where (\<lambda>x. session_user x = k) (sessions (run moderation_step s pre))"
    using assms(1) by (simp add: moderation_sessions ban_decides_def split: if_splits)
  then show ?case
    unfolding step using assms(1) ban.active_step [where op = "BanUser user k reason now"]
    by (simp add: exists_row_def rows)
next
  case (snoc op post)
  let ?t = "run moderation_step s (pre @ BanUser user k reason now # post)"
  have ih: "is_banned ?t k \<and> \<not> exists_row (\<lambda>x. session_user x = k) (sessions ?t)"
    by (rule snoc.IH) (use snoc.prems in \<open>metis append_Cons append_assoc\<close>)
  have "ban_decides ?t op k \<noteq> Some False" using snoc.prems by simp
  moreover have "run moderation_step s (pre @ BanUser user k reason now # post @ [op]) =
      moderation_step ?t op" by (simp add: run_append)
  moreover have "set (sessions (moderation_step ?t op)) \<subseteq> set (sessions ?t)"
    by (auto simp: moderation_sessions rows split: moderation_op.splits if_splits)
  ultimately show ?case
    using ih ban.active_step [where k = k and s = ?t and op = op] by (auto simp: exists_row_def split: option.splits)
qed

theorem ban_holds_until_unban_witness:
  "is_banned (run moderation_step demo_hub ([] @ BanUser demo_mod demo_member None 5 #
      [UnbanUser demo_member demo_member])) demo_member \<and>
   \<not> exists_row (\<lambda>x. session_user x = demo_member)
     (sessions (run moderation_step demo_hub ([] @ BanUser demo_mod demo_member None 5 #
      [UnbanUser demo_member demo_member])))"
proof (rule ban_holds_until_unban)
  show "ban_decides (run moderation_step demo_hub []) (BanUser demo_mod demo_member None 5) demo_member
      = Some True"
    by code_simp
  have no: "\<not> has_permission (user_permissions demo_member demo_hub) BAN_MEMBERS" by code_simp
  show "\<forall>qs op rs. [UnbanUser demo_member demo_member] = qs @ op # rs \<longrightarrow>
      ban_decides (run moderation_step demo_hub ([] @ BanUser demo_mod demo_member None 5 # qs)) op
        demo_member \<noteq> Some False"
    using no by (auto simp: Cons_eq_append_conv ban_decides_def)
qed

subsection \<open>Moderators cannot reach up\<close>

definition high_sessions :: "int \<Rightarrow> hub \<Rightarrow> session_row list" where
  "high_sessions n s = filter (\<lambda>x. n \<le> priority_of s (session_user x)) (sessions s)"

interpretation moderation_hierarchy:
  hierarchy "\<lambda>_. True" moderation_step moderation_actor priority_of high_sessions
proof unfold_locales
  show "high_sessions n (moderation_step s op) = high_sessions n s"
    if "priority_of s (moderation_actor op) \<le> n" for n s op
  proof -
    have "filter (\<lambda>x. n \<le> priority_of s (session_user x)) (sessions (moderation_step s op)) =
        filter (\<lambda>x. n \<le> priority_of s (session_user x)) (sessions s)"
      using that unfolding moderation_sessions
      by (cases op) (auto simp: may_moderate_def intro!: filter_delete_low)
    then show ?thesis by (simp add: high_sessions_def)
  qed
qed simp_all

definition sanctioned :: "int \<Rightarrow> hub \<Rightarrow> string \<Rightarrow> bool" where
  "sanctioned at s u \<longleftrightarrow> is_banned s u \<or> is_muted at s u \<or> is_voice_muted s u \<or>
     (\<exists>c. is_channel_banned s c u) \<or> (\<exists>c. is_channel_voice_muted s c u)"

lemma demo_sanctions:
  "bans demo_hub = []" "mutes demo_hub = []" "voice_mutes demo_hub = []" "channel_bans demo_hub = []"
  "channel_voice_mutes demo_hub = []"
  by (simp_all add: demo_hub_def initial_def)

lemma run_priority [simp]: "priority_of (run moderation_step s ops) u = priority_of s u"
  by (induction ops arbitrary: s) simp_all

lemma imposes_below:
  "ban_decides s op u = Some True \<or> mute_decides at s op u = Some True \<or>
   voice_mute_decides s op u = Some True \<or> channel_ban_decides s op (c, u) = Some True \<or>
   channel_voice_mute_decides s op (c, u) = Some True \<Longrightarrow>
   priority_of s u < priority_of s (moderation_actor op)"
  by (cases op) (auto simp: ban_decides_def mute_decides_def voice_mute_decides_def
      channel_ban_decides_def channel_voice_mute_decides_def may_moderate_def split: if_splits)

lemma reach_up_unsanctioned:
  assumes "\<forall>op \<in> set ops. priority_of s (moderation_actor op) \<le> priority_of s u"
    and "\<not> sanctioned at s u"
  shows "\<not> sanctioned at (run moderation_step s ops) u"
proof -
  have low: "\<not> priority_of (run moderation_step s pre) u <
      priority_of (run moderation_step s pre) (moderation_actor op)" if "ops = pre @ op # post" for pre op post
    using assms(1) that by (simp add: not_less)
  note none = contrapos_nn [OF low imposes_below]
  have "True \<notin> set (ban.decisions u s ops)"
    using ban.decisions_imposed [of u s ops] none by metis
  moreover have "True \<notin> set (mute.decisions at u s ops)"
    using mute.decisions_imposed [where k = u and at = at and s = s and ops = ops] none by metis
  moreover have "True \<notin> set (vmute.decisions u s ops)"
    using vmute.decisions_imposed [of u s ops] none by metis
  moreover have "True \<notin> set (cban.decisions (c, u) s ops)" for c
    using cban.decisions_imposed [of "(c, u)" s ops] none by metis
  moreover have "True \<notin> set (cvmute.decisions (c, u) s ops)" for c
    using cvmute.decisions_imposed [of "(c, u)" s ops] none by metis
  ultimately show ?thesis
    using assms(2) ban.never_imposed mute.never_imposed vmute.never_imposed
      cban.never_imposed [of s "(_, u)"] cvmute.never_imposed [of s "(_, u)"]
    by (simp add: sanctioned_def)
qed

text \<open>
  C4. Moderators cannot reach up: however many moderation requests users of at most \<open>u\<close>'s priority
  send, through whichever endpoints, \<open>u\<close> does not become banned, muted (at any observed time),
  voice-muted, channel-banned or channel-voice-muted, and loses no session.
\<close>

theorem moderators_cannot_reach_up:
  assumes "\<forall>op \<in> set ops. priority_of s (moderation_actor op) \<le> priority_of s u"
    and "0 \<le> priority_of s u" and "\<not> sanctioned at s u"
  shows "\<not> sanctioned at (run moderation_step s ops) u \<and>
    filter (\<lambda>x. session_user x = u) (sessions (run moderation_step s ops)) =
    filter (\<lambda>x. session_user x = u) (sessions s)"
proof -
  have "high_sessions (priority_of s u) (run moderation_step s ops) = high_sessions (priority_of s u) s"
    using moderation_hierarchy.coalition [of "priority_of s u" ops s] assms(1,2) by simp
  then have "filter (\<lambda>x. session_user x = u)
      (high_sessions (priority_of s u) (run moderation_step s ops)) =
      filter (\<lambda>x. session_user x = u) (high_sessions (priority_of s u) s)" by simp
  moreover have "filter (\<lambda>x. session_user x = u) (high_sessions (priority_of t u) t) =
      filter (\<lambda>x. session_user x = u) (sessions t)" for t
    by (auto simp: high_sessions_def intro!: filter_cong)
  ultimately show ?thesis
    using reach_up_unsanctioned [OF assms(1,3)] by (metis run_priority)
qed

theorem moderators_cannot_reach_up_witness:
  "\<not> sanctioned 9 (run moderation_step demo_hub [BanUser demo_mod demo_owner None 5,
      KickUser demo_mod demo_owner]) demo_owner \<and>
   filter (\<lambda>x. session_user x = demo_owner) (sessions (run moderation_step demo_hub
      [BanUser demo_mod demo_owner None 5, KickUser demo_mod demo_owner])) =
   filter (\<lambda>x. session_user x = demo_owner) (sessions demo_hub)"
  by (rule moderators_cannot_reach_up)
    (simp_all add: sanctioned_def is_banned_def is_muted_def is_voice_muted_def
      is_channel_banned_def is_channel_voice_muted_def count_rows_def demo_sanctions)

subsection \<open>Timeouts\<close>

lemma sint_high: "2 ^ 63 \<le> uint (d :: u64) \<Longrightarrow> sint d = uint d - 2 ^ 64"
proof -
  assume "2 ^ 63 \<le> uint d"
  moreover have "uint d < 2 ^ 64" using uint_bounded [of d] by simp
  ultimately have "(uint d - 2 ^ 63 + 2 ^ 64) mod 2 ^ 64 = uint d - 2 ^ 63"
    by (subst mod_add_self2, intro mod_pos_pos_trivial) simp_all
  then have "(uint d + 2 ^ 63) mod 2 ^ 64 = uint d - 2 ^ 63" by (simp add: add.commute)
  then show ?thesis
    by (simp add: sint_uint signed_take_bit_eq_take_bit_shift take_bit_eq_mod)
qed

lemma sint_low: "uint (d :: u64) < 2 ^ 63 \<Longrightarrow> sint d = uint d"
  by (simp add: sint_uint signed_take_bit_eq_take_bit_shift take_bit_eq_mod)

lemma timeout_expiry_exact:
  "0 \<le> now \<Longrightarrow> now + uint d < 2 ^ 63 \<Longrightarrow> timeout_expiry now d = now + uint d"
  using wrap_i64_id [of "now + uint d"] uint_ge_0 [of d]
  by (simp add: timeout_expiry_def sint_low i64_range_def)

lemma timeout_expiry_wrapped:
  "0 \<le> now \<Longrightarrow> now < 2 ^ 63 \<Longrightarrow> 2 ^ 63 \<le> uint d \<Longrightarrow> timeout_expiry now d < now"
  using uint_bounded [of d]
  by (simp add: timeout_expiry_def sint_high wrap_i64_id i64_range_def)

text \<open>
  A timeout lasts exactly as long as asked, while the sum fits: right after a granted timeout of
  \<open>d\<close> seconds the target is muted at every time before \<open>now + d\<close> and at none from then on,
  whatever mute was in place before (a permanent mute is cut short). A duration of \<open>2\<^sup>6\<^sup>3\<close> seconds or
  more wraps: the timeout is stored already expired and the target is not muted at all.
\<close>

theorem timeout_window:
  assumes "may_moderate s user u TIMEOUT_MEMBERS" "user_exists s u" "0 \<le> now" "now < 2 ^ 63"
  shows "(now + uint d < 2 ^ 63 \<longrightarrow>
      (\<forall>at. is_muted at (snd (timeout_user user u reason d now s)) u \<longleftrightarrow> at < now + uint d)) \<and>
    (2 ^ 63 \<le> uint d \<longrightarrow> \<not> is_muted now (snd (timeout_user user u reason d now s)) u)"
proof -
  have muted: "is_muted at (snd (timeout_user user u reason d now s)) u \<longleftrightarrow> at < timeout_expiry now d" for at
    using mute.active_step [where k = u and s = s and op = "TimeoutUser user u reason d now" and at = at]
      assms(1,2) by (simp add: moderation_step.simps mute_decides_def)
  show ?thesis
    using timeout_expiry_exact [OF assms(3), of d] timeout_expiry_wrapped [OF assms(3,4), of d]
    by (auto simp: muted)
qed

theorem timeout_window_witness:
  "(\<forall>at. is_muted at (snd (timeout_user demo_mod demo_member None 60 5 demo_hub)) demo_member
      \<longleftrightarrow> at < 65) \<and>
   \<not> is_muted 5 (snd (timeout_user demo_mod demo_member None (push_bit 63 1) 5 demo_hub)) demo_member"
proof -
  have m: "may_moderate demo_hub demo_mod demo_member TIMEOUT_MEMBERS" by code_simp
  have e: "user_exists demo_hub demo_member" by code_simp
  show ?thesis
    using timeout_window [OF m e, of 5 60 None] timeout_window [OF m e, of 5 "push_bit 63 1" None]
    by simp
qed

text \<open>
  Every outcome of \<^verbatim>\<open>ban_user\<close>: missing permission, a target of equal or higher priority, an
  unknown target (a foreign-key failure), a target key that cannot be cut at byte 16 (the handler
  panics while logging, after the ban and the logout are stored), and success; in the last two
  cases the ban is in force.
\<close>

theorem ban_user_outcomes:
  "fst (ban_user user target reason now s) =
     (if \<not> has_permission (user_permissions user s) BAN_MEMBERS
      then Inl (Reject FORBIDDEN ''Missing permission: ban_members'')
      else if priority_of s user \<le> priority_of s target
      then Inl (Reject FORBIDDEN ''Cannot moderate a user with equal or higher priority'')
      else if \<not> user_exists s target then Inl (DbError FOREIGN_KEY)
      else if \<not> is_char_boundary target 16 then Inl Panic
      else Inr (CREATED, \<lparr>ban_target = target, ban_by = user, ban_reason = reason, ban_created = now\<rparr>))
   \<and> is_banned (snd (ban_user user target reason now s)) target =
     (is_banned s target \<or> (may_moderate s user target BAN_MEMBERS \<and> user_exists s target))"
proof
  show "is_banned (snd (ban_user user target reason now s)) target =
      (is_banned s target \<or> (may_moderate s user target BAN_MEMBERS \<and> user_exists s target))"
    using ban.active_step [where k = target and s = s and op = "BanUser user target reason now"]
    by (auto simp: moderation_step.simps ban_decides_def)
qed (auto simp: effect_simps may_moderate_def BAN_MEMBERS_def)

end
