(* ===== verification/Invites.thy ===== *)
theory Invites
  imports Moderation
begin

text \<open>
  Invite codes, from \<^verbatim>\<open>hub/src/routes/invites.rs\<close>: creation, listing, revocation, and the
  redemption that \<^verbatim>\<open>verify\<close> performs for new users.

  Redemption reads the row and increments it in two statements. Run one at a time, redemptions
  never exceed \<^verbatim>\<open>max_uses\<close>; the step relation \<open>redeem\<close> interleaves the two statements of several
  requests and shows both that the limit can be exceeded and by how much.
\<close>

subsection \<open>Endpoints\<close>

definition insert_invite :: "invite_row \<Rightarrow> unit hub_handler" where
  "insert_invite r =
     writing (\<lambda>s. insert_row (same_key invite_code) True r (invites s)) (\<lambda>t s. s\<lparr>invites := t\<rparr>)"

text \<open>\<^verbatim>\<open>generate_invite_code\<close>: the hexadecimal form of six random bytes.\<close>

definition generate_invite_code :: "crypto \<Rightarrow> u8 list \<Rightarrow> string" where
  "generate_invite_code K bytes = hex_encode K bytes"

definition create_invite :: "crypto \<Rightarrow> string \<Rightarrow> int option \<Rightarrow> int option \<Rightarrow> u8 list \<Rightarrow> int \<Rightarrow>
    (status_code \<times> invite_row) hub_handler" where
  "create_invite K user max_uses expires_in_seconds bytes now =
     and_then (gets (user_permissions user)) (\<lambda>perms.
     and_then (require_permission perms MANAGE_CHANNELS) (\<lambda>_.
     let row = \<lparr>invite_code = generate_invite_code K bytes, invite_by = user,
       invite_max_uses = max_uses, invite_uses = 0,
       invite_expires = map_option (\<lambda>d. wrap_i64 (now + d)) expires_in_seconds,
       invite_created = now\<rparr> in
     and_then (insert_invite row) (\<lambda>_.
     ret (CREATED, row))))"

definition list_invites :: "string \<Rightarrow> invite_row list hub_handler" where
  "list_invites user =
     and_then (gets (user_permissions user)) (\<lambda>perms.
     and_then (require_permission perms MANAGE_CHANNELS) (\<lambda>_.
     gets (\<lambda>s. sort_key (\<lambda>r. - invite_created r) (invites s))))"

definition revoke_invite :: "string \<Rightarrow> string \<Rightarrow> status_code hub_handler" where
  "revoke_invite user code =
     and_then (gets (user_permissions user)) (\<lambda>perms.
     and_then (require_permission perms MANAGE_CHANNELS) (\<lambda>_.
     and_then (modify (\<lambda>s. s\<lparr>invites := delete_key invite_code code (invites s)\<rparr>)) (\<lambda>_.
     ret NO_CONTENT)))"

text \<open>The two checks on the row that was read.\<close>

definition invite_usable :: "int \<Rightarrow> invite_row \<Rightarrow> unit hub_handler" where
  "invite_usable now r =
     and_then (case invite_expires r of None \<Rightarrow> ret () | Some e \<Rightarrow>
       check (\<not> e < now) (Reject FORBIDDEN ''Invite code has expired'')) (\<lambda>_.
     case invite_max_uses r of None \<Rightarrow> ret () | Some m \<Rightarrow>
       check (\<not> m \<le> invite_uses r) (Reject FORBIDDEN ''Invite code has been used up''))"

definition increment_uses :: "string \<Rightarrow> unit hub_handler" where
  "increment_uses code =
     modify (\<lambda>s. s\<lparr>invites := update_where (\<lambda>r. invite_code r = code)
       (\<lambda>r. r\<lparr>invite_uses := invite_uses r + 1\<rparr>) (invites s)\<rparr>)"

definition validate_and_use_invite :: "string \<Rightarrow> int \<Rightarrow> unit hub_handler" where
  "validate_and_use_invite code now =
     and_then (gets (\<lambda>s. row_at invite_code code (invites s))) (\<lambda>r.
     and_then (ok_or r (Reject FORBIDDEN ''Invalid invite code'')) (\<lambda>invite.
     and_then (invite_usable now invite) (\<lambda>_.
     increment_uses code)))"

definition is_invite_only :: "hub \<Rightarrow> bool" where
  "is_invite_only s \<longleftrightarrow> setting ''invite_only'' s = Some ''true''"

subsection \<open>One redemption\<close>

definition redeemable :: "int \<Rightarrow> invite_row \<Rightarrow> bool" where
  "redeemable now r \<longleftrightarrow>
     (case invite_expires r of None \<Rightarrow> True | Some e \<Rightarrow> now \<le> e) \<and>
     (case invite_max_uses r of None \<Rightarrow> True | Some m \<Rightarrow> invite_uses r < m)"

lemma invite_usable_run:
  "redeemable now r \<Longrightarrow> invite_usable now r s = (Inr (), s)"
  "\<not> redeemable now r \<Longrightarrow> \<exists>e. invite_usable now r s = (Inl e, s)"
  by (auto simp: invite_usable_def redeemable_def run_defs split: option.splits)

lemma validate_run:
  "row_at invite_code code (invites s) = Some r \<Longrightarrow> redeemable now r \<Longrightarrow>
   validate_and_use_invite code now s = (Inr (), snd (increment_uses code s))"
  by (simp add: validate_and_use_invite_def and_then_def gets_def ok_or_def ret_def
      invite_usable_run increment_uses_def modify_def)

lemma validate_refused:
  assumes "\<And>r. row_at invite_code code (invites s) = Some r \<Longrightarrow> \<not> redeemable now r"
  shows "\<exists>e. validate_and_use_invite code now s = (Inl e, s)"
proof (cases "row_at invite_code code (invites s)")
  case None
  then show ?thesis by (simp add: validate_and_use_invite_def run_defs)
next
  case (Some r)
  with invite_usable_run(2) [OF assms, of r s] show ?thesis
    by (auto simp: validate_and_use_invite_def and_then_def gets_def ok_or_def ret_def)
qed

lemma increment_row:
  "row_at invite_code c (invites (snd (increment_uses code s))) =
     (if c = code then map_option (\<lambda>r. r\<lparr>invite_uses := invite_uses r + 1\<rparr>)
        (row_at invite_code code (invites s))
      else row_at invite_code c (invites s))"
  by (simp add: increment_uses_def modify_def row_at_update_where)

subsection \<open>Sequences of requests\<close>

datatype invite_op =
    CreateInvite crypto string "int option" "int option" "u8 list" int
  | RevokeInvite string string
  | Redeem string int

fun invite_step :: "hub \<Rightarrow> invite_op \<Rightarrow> hub" where
  "invite_step s (CreateInvite K user m d b now) = snd (create_invite K user m d b now s)"
| "invite_step s (RevokeInvite user code) = snd (revoke_invite user code s)"
| "invite_step s (Redeem code now) = snd (validate_and_use_invite code now s)"

text \<open>The redemptions of a code that succeed along a run.\<close>

primrec redeemed :: "string \<Rightarrow> hub \<Rightarrow> invite_op list \<Rightarrow> nat" where
  "redeemed code s [] = 0"
| "redeemed code s (op # ops) =
     (case op of Redeem c now \<Rightarrow>
        if c = code \<and> fst (validate_and_use_invite c now s) = Inr () then 1 else 0 | _ \<Rightarrow> 0)
     + redeemed code (invite_step s op) ops"

fun revokes :: "string \<Rightarrow> invite_op \<Rightarrow> bool" where
  "revokes code (RevokeInvite _ c) = (c = code)"
| "revokes code _ = False"

lemma create_keeps_row:
  "row_at invite_code code (invites s) = Some r \<Longrightarrow>
   row_at invite_code code (invites (snd (create_invite K user m d b now s))) = Some r"
  by (auto simp: create_invite_def require_permission_def insert_invite_def Let_def run_defs
      writing_def insert_row_def row_at_append)

lemma revoke_keeps_row:
  "c \<noteq> code \<Longrightarrow> row_at invite_code code (invites (snd (revoke_invite user c s))) =
     row_at invite_code code (invites s)"
  by (auto simp: revoke_invite_def require_permission_def run_defs tbl.lookup_remove)

lemma redeem_row:
  assumes "row_at invite_code code (invites s) = Some r"
  shows "\<exists>r'. row_at invite_code code (invites (snd (validate_and_use_invite c now s))) = Some r' \<and>
    invite_max_uses r' = invite_max_uses r \<and>
    (if c = code \<and> fst (validate_and_use_invite c now s) = Inr ()
     then invite_uses r' = invite_uses r + 1 \<and>
       (\<forall>m. invite_max_uses r = Some m \<longrightarrow> invite_uses r < m)
     else r' = r)"
proof (cases "\<exists>q. row_at invite_code c (invites s) = Some q \<and> redeemable now q")
  case True
  then obtain q where "row_at invite_code c (invites s) = Some q" "redeemable now q" by blast
  with validate_run [OF this] assms show ?thesis
    by (auto simp: increment_row redeemable_def)
next
  case False
  with validate_refused [of c s now] assms show ?thesis by auto
qed

text \<open>
  C8. Redemptions run one at a time respect the limit: along any sequence of invite requests that
  does not revoke a code, the stored counter grows by exactly the number of successful
  redemptions of that code, and for a code limited to \<open>m\<close> uses at most \<open>m\<close> minus the uses already
  counted succeed.
\<close>

theorem redemptions_within_limit:
  assumes "row_at invite_code code (invites s) = Some r" "\<forall>op \<in> set ops. \<not> revokes code op"
  shows "\<exists>r'. row_at invite_code code (invites (run invite_step s ops)) = Some r' \<and>
    invite_uses r' = invite_uses r + int (redeemed code s ops) \<and>
    (\<forall>m. invite_max_uses r = Some m \<longrightarrow>
       int (redeemed code s ops) \<le> max 0 (m - invite_uses r))"
  using assms
proof (induction ops arbitrary: s r)
  case (Cons op ops)
  have "\<exists>r1. row_at invite_code code (invites (invite_step s op)) = Some r1 \<and>
      invite_max_uses r1 = invite_max_uses r \<and>
      (case op of Redeem c now \<Rightarrow>
         if c = code \<and> fst (validate_and_use_invite c now s) = Inr ()
         then invite_uses r1 = invite_uses r + 1 \<and>
           (\<forall>m. invite_max_uses r = Some m \<longrightarrow> invite_uses r < m) else r1 = r
       | _ \<Rightarrow> r1 = r)"
  proof (cases op)
    case (Redeem c now)
    then show ?thesis using redeem_row [OF Cons.prems(1), of c now] by simp
  qed (use Cons.prems create_keeps_row revoke_keeps_row in auto)
  then obtain r1 where r1: "row_at invite_code code (invites (invite_step s op)) = Some r1"
    "invite_max_uses r1 = invite_max_uses r"
    "case op of Redeem c now \<Rightarrow>
         if c = code \<and> fst (validate_and_use_invite c now s) = Inr ()
         then invite_uses r1 = invite_uses r + 1 \<and>
           (\<forall>m. invite_max_uses r = Some m \<longrightarrow> invite_uses r < m) else r1 = r
       | _ \<Rightarrow> r1 = r" by blast
  from Cons.IH [OF r1(1)] Cons.prems(2) r1(2,3) show ?case
    by (cases op) (auto split: if_splits)
qed simp

definition demo_invite :: invite_row where
  "demo_invite = \<lparr>invite_code = ''abc'', invite_by = demo_owner, invite_max_uses = Some 1,
     invite_uses = 0, invite_expires = None, invite_created = 1\<rparr>"

definition demo_invites :: hub where
  "demo_invites = demo_hub\<lparr>invites := [demo_invite]\<rparr>"

lemma demo_invites_row [simp]: "row_at invite_code ''abc'' (invites demo_invites) = Some demo_invite"
  by (simp add: demo_invites_def row_at_def demo_invite_def)

theorem redemptions_within_limit_witness:
  "\<exists>r'. row_at invite_code ''abc'' (invites (run invite_step demo_invites
      [Redeem ''abc'' 5, Redeem ''abc'' 6])) = Some r' \<and>
    invite_uses r' = int (redeemed ''abc'' demo_invites [Redeem ''abc'' 5, Redeem ''abc'' 6]) \<and>
    redeemed ''abc'' demo_invites [Redeem ''abc'' 5, Redeem ''abc'' 6] \<le> 1"
  using redemptions_within_limit [of "''abc''" demo_invites demo_invite "[Redeem ''abc'' 5, Redeem ''abc'' 6]"]
  by (auto simp: demo_invite_def simp del: run.simps redeemed.simps)

subsection \<open>Concurrent redemptions\<close>

text \<open>
  Several requests redeem one code at the same time. Each first reads the row and checks it, then
  increments the counter; between the two statements the others may run.
\<close>

datatype redeemer = Start | Checked | Redeemed | Refused

definition check_invite :: "string \<Rightarrow> int \<Rightarrow> unit hub_handler" where
  "check_invite code now =
     and_then (gets (\<lambda>s. row_at invite_code code (invites s))) (\<lambda>r.
     and_then (ok_or r (Reject FORBIDDEN ''Invalid invite code'')) (invite_usable now))"

lemma validate_is_check_then_increment:
  "validate_and_use_invite code now = and_then (check_invite code now) (\<lambda>_. increment_uses code)"
  by (auto simp: validate_and_use_invite_def check_invite_def and_then_def gets_def fun_eq_iff
      split: prod.splits sum.splits)

inductive redeem :: "string \<Rightarrow> int \<Rightarrow> hub \<times> redeemer list \<Rightarrow> hub \<times> redeemer list \<Rightarrow> bool"
  for code :: string and now :: int where
  read_ok: "i < length ts \<Longrightarrow> ts ! i = Start \<Longrightarrow> fst (check_invite code now s) = Inr () \<Longrightarrow>
    redeem code now (s, ts) (s, ts[i := Checked])"
| read_refused: "i < length ts \<Longrightarrow> ts ! i = Start \<Longrightarrow> fst (check_invite code now s) = Inl e \<Longrightarrow>
    redeem code now (s, ts) (s, ts[i := Refused])"
| increment: "i < length ts \<Longrightarrow> ts ! i = Checked \<Longrightarrow>
    redeem code now (s, ts) (snd (increment_uses code s), ts[i := Redeemed])"

inductive_simps redeem_iff: "redeem code now (s, ts) (s', ts')"

lemma check_invite_ok:
  "fst (check_invite code now s) = Inr () \<longleftrightarrow>
     (\<exists>r. row_at invite_code code (invites s) = Some r \<and> redeemable now r)"
proof (cases "row_at invite_code code (invites s)")
  case (Some r)
  then show ?thesis
    using invite_usable_run(1) [of now r s] invite_usable_run(2) [of now r s]
    by (cases "redeemable now r") (auto simp: check_invite_def run_defs)
qed (simp add: check_invite_def run_defs)

lemma count_list_update:
  "i < length ts \<Longrightarrow> count_list (ts[i := y]) x =
     (count_list ts x + (if y = x then 1 else 0)) - (if ts ! i = x then 1 else 0)"
proof (induction ts arbitrary: i)
  case (Cons t ts)
  have "0 < count_list ts x" if "j < length ts" "ts ! j = x" for j
    using that by (metis count_list_0_iff gr0I nth_mem)
  with Cons show ?case by (cases i) (auto simp: Suc_diff_le)
qed simp

lemma count_list_le_length: "count_list ts x \<le> length ts"
  by (induction ts) auto

text \<open>The invariant: what was counted plus what is still allowed to count stays bounded.\<close>

definition race_inv :: "string \<Rightarrow> int \<Rightarrow> int \<Rightarrow> nat \<Rightarrow> hub \<times> redeemer list \<Rightarrow> bool" where
  "race_inv code u m n st \<longleftrightarrow> (case st of (s, ts) \<Rightarrow> length ts = n \<and>
     (\<exists>r. row_at invite_code code (invites s) = Some r \<and> invite_max_uses r = Some m \<and>
        invite_uses r = u + int (count_list ts Redeemed) \<and>
        (0 < count_list ts Checked \<longrightarrow>
           invite_uses r + int (count_list ts Checked) \<le> m - 1 + int n) \<and>
        (0 < count_list ts Redeemed \<longrightarrow> invite_uses r \<le> m - 1 + int n)))"

lemma race_inv_step:
  assumes "redeem code now st st'" "race_inv code u m n st"
  shows "race_inv code u m n st'"
  using assms
proof (induction rule: redeem.induct)
  case (read_ok i ts s)
  then obtain r where r: "row_at invite_code code (invites s) = Some r" "redeemable now r"
    by (auto simp: check_invite_ok)
  then have "int (count_list (ts[i := Checked]) Checked) \<le> int n" "invite_uses r \<le> m - 1"
    using read_ok.prems count_list_le_length [of "ts[i := Checked]" Checked]
    by (auto simp: race_inv_def redeemable_def)
  with read_ok r show ?case by (auto simp: race_inv_def count_list_update)
next
  case (read_refused i ts s e)
  then show ?case by (auto simp: race_inv_def count_list_update)
next
  case (increment i ts s)
  then have "0 < count_list ts Checked" by (metis count_list_0_iff gr0I nth_mem)
  with increment show ?case
    by (auto simp: race_inv_def increment_row count_list_update of_nat_diff)
qed

text \<open>
  How far concurrent redemptions overshoot: when \<open>n\<close> requests redeem the same code at once, with
  their reads and increments interleaved in any order, every increment is counted, and a code
  limited to \<open>m\<close> uses is used at most \<open>m - 1 + n\<close> times.
\<close>

theorem concurrent_redemptions_bounded:
  assumes "row_at invite_code code (invites s) = Some r" "invite_max_uses r = Some m"
    "invite_uses r \<le> m" "0 < n"
    "(redeem code now)\<^sup>*\<^sup>* (s, replicate n Start) (t, ts)"
  shows "\<exists>r'. row_at invite_code code (invites t) = Some r' \<and>
    invite_uses r' = invite_uses r + int (count_list ts Redeemed) \<and>
    invite_uses r' \<le> m - 1 + int n"
proof -
  have zero: "count_list (replicate n Start) x = 0" if "x \<noteq> Start" for x
    using that by (induction n) auto
  have start: "race_inv code (invite_uses r) m n (s, replicate n Start)"
    using assms(1,2) zero by (simp add: race_inv_def)
  from assms(5) have "race_inv code (invite_uses r) m n (t, ts)"
    by (induction rule: rtranclp_induct) (auto intro: start race_inv_step)
  moreover have "1 \<le> int n" using assms(4) by linarith
  ultimately show ?thesis using assms(3)
    by (cases "count_list ts Redeemed = 0") (auto simp: race_inv_def)
qed

text \<open>
  The limit is not enforced under concurrency: any number of simultaneous requests can all
  redeem one code that has a single use left (here: whenever it is redeemable at all), because
  each of them may read the row before any of them increments it.
\<close>

theorem concurrent_redemptions_can_exceed_limit:
  assumes "row_at invite_code code (invites s) = Some r" "redeemable now r"
  shows "\<exists>t r'. (redeem code now)\<^sup>*\<^sup>* (s, replicate n Start) (t, replicate n Redeemed) \<and>
    row_at invite_code code (invites t) = Some r' \<and> invite_uses r' = invite_uses r + int n"
proof -
  have ok: "fst (check_invite code now s) = Inr ()" using assms by (auto simp: check_invite_ok)
  have check_one: "redeem code now (s, replicate k Checked @ replicate (Suc j) Start)
      (s, replicate (Suc k) Checked @ replicate j Start)" for k j
    using read_ok [of k "replicate k Checked @ replicate (Suc j) Start" code now s] ok
    by (simp add: nth_append replicate_app_Cons_same list_update_append)
  have checks: "(redeem code now)\<^sup>*\<^sup>* (s, replicate k Checked @ replicate j Start)
      (s, replicate (k + j) Checked)" for k j
  proof (induction j arbitrary: k)
    case (Suc j)
    show ?case using converse_rtranclp_into_rtranclp [OF check_one [of k j] Suc.IH [of "Suc k"]]
      by simp
  qed simp
  have inc_one: "redeem code now (u, replicate k Redeemed @ replicate (Suc j) Checked)
      (snd (increment_uses code u), replicate (Suc k) Redeemed @ replicate j Checked)" for u k j
    using increment [of k "replicate k Redeemed @ replicate (Suc j) Checked" code now u]
    by (simp add: nth_append replicate_app_Cons_same list_update_append)
  have incs: "\<exists>t r'. (redeem code now)\<^sup>*\<^sup>* (u, replicate k Redeemed @ replicate j Checked)
      (t, replicate (k + j) Redeemed) \<and> row_at invite_code code (invites t) = Some r' \<and>
      invite_uses r' = invite_uses q + int j"
    if "row_at invite_code code (invites u) = Some q" for u k j q
    using that
  proof (induction j arbitrary: u k q)
    case (Suc j)
    have "row_at invite_code code (invites (snd (increment_uses code u))) =
        Some (q\<lparr>invite_uses := invite_uses q + 1\<rparr>)" by (simp add: increment_row Suc.prems)
    from Suc.IH [OF this, of "Suc k"] obtain t r' where t:
      "(redeem code now)\<^sup>*\<^sup>* (snd (increment_uses code u),
         replicate (Suc k) Redeemed @ replicate j Checked) (t, replicate (Suc k + j) Redeemed)"
      "row_at invite_code code (invites t) = Some r'" "invite_uses r' = invite_uses q + 1 + int j"
      by auto
    from converse_rtranclp_into_rtranclp [where r = "redeem code now", OF inc_one [of u k j] t(1)] t(2,3)
    show ?case by auto
  qed auto
  from incs [OF assms(1), of 0 n] checks [of 0 n] show ?thesis by (auto intro: rtranclp_trans)
qed

theorem concurrent_redemptions_bounded_witness:
  "\<exists>r'. row_at invite_code ''abc'' (invites (snd (increment_uses ''abc'' demo_invites))) = Some r' \<and>
    invite_uses r' = invite_uses demo_invite + int (count_list [Redeemed, Start] Redeemed) \<and>
    invite_uses r' \<le> 1 - 1 + int 2"
proof (rule concurrent_redemptions_bounded)
  have "fst (check_invite ''abc'' 5 demo_invites) = Inr ()"
    by (simp add: check_invite_ok redeemable_def demo_invite_def)
  then have "redeem ''abc'' 5 (demo_invites, [Start, Start]) (demo_invites, [Checked, Start])"
    using read_ok [of 0 "[Start, Start]"] by simp
  moreover have "redeem ''abc'' 5 (demo_invites, [Checked, Start])
      (snd (increment_uses ''abc'' demo_invites), [Redeemed, Start])"
    using increment [of 0 "[Checked, Start]"] by simp
  ultimately show "(redeem ''abc'' 5)\<^sup>*\<^sup>* (demo_invites, replicate 2 Start)
      (snd (increment_uses ''abc'' demo_invites), [Redeemed, Start])"
    by (auto simp: numeral_2_eq_2 intro: rtranclp.rtrancl_into_rtrancl)
qed (simp_all add: demo_invite_def)

theorem concurrent_redemptions_can_exceed_limit_witness:
  "\<exists>t r'. (redeem ''abc'' 5)\<^sup>*\<^sup>* (demo_invites, replicate 3 Start) (t, replicate 3 Redeemed) \<and>
    row_at invite_code ''abc'' (invites t) = Some r' \<and> invite_uses r' = invite_uses demo_invite + int 3"
  by (rule concurrent_redemptions_can_exceed_limit) (simp_all add: redeemable_def demo_invite_def)

end
