(* ===== verification/Channels.thy ===== *)
theory Channels
  imports Moderation
begin

text \<open>
  The channel tree, from \<^verbatim>\<open>hub/src/routes/channels.rs\<close>: creation with its depth limit, update with
  the cycle check, reordering, listing and deletion with the schema's cascades. The voice
  read-outs of the same file only render the in-memory voice map and are not modelled.
\<close>

subsection \<open>Requests\<close>

record create_channel_request =
  ccr_name :: string
  ccr_parent :: "string option"
  ccr_is_category :: bool
  ccr_description :: "string option"
  ccr_channel_type :: "string option"

record update_channel_request =
  ucr_name :: "string option"
  ucr_description :: "string option"
  ucr_parent :: "string option option"
  ucr_icon :: "string option option"
  ucr_color :: "string option option"
  ucr_svg :: "string option option"
  ucr_min_talk_power :: "int option"

record channel_response =
  cr_id :: string
  cr_name :: string
  cr_created_by :: string
  cr_parent :: "string option"
  cr_is_category :: bool
  cr_order :: int
  cr_description :: "string option"
  cr_icon :: "string option"
  cr_color :: "string option"
  cr_svg :: "string option"
  cr_created :: int
  cr_type :: string

subsection \<open>Walking up the tree\<close>

text \<open>\<^verbatim>\<open>SELECT parent_id FROM channels WHERE id = ?\<close>, flattened: None for a root or a missing row.\<close>

definition parent_of :: "hub \<Rightarrow> string \<Rightarrow> string option" where
  "parent_of s c = (case row_at channel_id c (channels s) of None \<Rightarrow> None | Some r \<Rightarrow> channel_parent r)"

function node_depth_loop :: "hub \<Rightarrow> nat \<Rightarrow> string \<Rightarrow> nat result" where
  "node_depth_loop s depth current =
     (case parent_of s current of
        None \<Rightarrow> Inr depth
      | Some p \<Rightarrow>
          (let depth' = depth + 1
           in if 50 < depth'
              then Inl (Reject BAD_REQUEST ''Channel nesting depth exceeds safety limit'')
              else node_depth_loop s depth' p))"
  by pat_completeness auto
termination by (relation "measure (\<lambda>(s, depth, current). 51 - depth)") auto

declare node_depth_loop.simps [simp del]

definition node_depth :: "hub \<Rightarrow> string option \<Rightarrow> nat result" where
  "node_depth s parent_id =
     (case parent_id of None \<Rightarrow> Inr 0 | Some pid \<Rightarrow> node_depth_loop s 1 pid)"

primrec is_ancestor_loop :: "nat \<Rightarrow> hub \<Rightarrow> string \<Rightarrow> string \<Rightarrow> bool" where
  "is_ancestor_loop 0 s candidate current = False"
| "is_ancestor_loop (Suc n) s candidate current =
     (case parent_of s current of
        None \<Rightarrow> False
      | Some p \<Rightarrow> if p = candidate then True else is_ancestor_loop n s candidate p)"

definition is_ancestor :: "hub \<Rightarrow> string \<Rightarrow> string \<Rightarrow> bool" where
  "is_ancestor s candidate start = is_ancestor_loop 50 s candidate start"

definition read_max_depth :: "hub \<Rightarrow> nat" where
  "read_max_depth s =
     (case setting ''max_channel_depth'' s of None \<Rightarrow> 0
      | Some v \<Rightarrow> (case parse_unsigned (2 ^ 32) v of None \<Rightarrow> 0 | Some n \<Rightarrow> n))"

subsection \<open>Creation\<close>

definition require_category_parent :: "string \<Rightarrow> unit hub_handler" where
  "require_category_parent parent_id =
     and_then (gets (\<lambda>s. row_at channel_id parent_id (channels s))) (\<lambda>row.
     case row of
       None \<Rightarrow> fail (Reject NOT_FOUND ''Parent channel not found'')
     | Some r \<Rightarrow> check (channel_is_category r \<noteq> 0)
         (Reject BAD_REQUEST ''Parent must be a category''))"

definition enforce_create_depth :: "string option \<Rightarrow> bool \<Rightarrow> unit hub_handler" where
  "enforce_create_depth parent_id is_category =
     and_then (gets read_max_depth) (\<lambda>max_depth.
     if 0 < max_depth then
       and_then (gets (\<lambda>s. node_depth s parent_id)) (\<lambda>d.
       and_then (lift d) (\<lambda>new_depth.
       and_then (check (\<not> max_depth - 1 < new_depth) (Reject BAD_REQUEST ''depth_exceeded'')) (\<lambda>_.
       check (\<not> (is_category \<and> max_depth - 1 \<le> new_depth))
         (Reject BAD_REQUEST ''category_at_max_depth''))))
     else ret ())"

definition effective_channel_type :: "bool \<Rightarrow> string option \<Rightarrow> string result" where
  "effective_channel_type is_category ty =
     (if is_category then Inr ''text''
      else case ty of
        None \<Rightarrow> Inr ''text''
      | Some t \<Rightarrow>
          if t = ''text'' then Inr ''text''
          else if t = ''forum'' then Inr ''forum''
          else Inl (Reject BAD_REQUEST (''unknown channel_type: '' @ t)))"

text \<open>\<^verbatim>\<open>SELECT COALESCE(MAX(display_order), -1) + 1\<close>\<close>

definition next_order :: "hub \<Rightarrow> int" where
  "next_order s =
     (case channels s of [] \<Rightarrow> 0
      | c # cs \<Rightarrow> fold max (map channel_order cs) (channel_order c) + 1)"

definition channel_conflicts :: "channel_row \<Rightarrow> channel_row \<Rightarrow> bool" where
  "channel_conflicts r q \<longleftrightarrow> channel_id q = channel_id r \<or> channel_name q = channel_name r"

definition parent_fk :: "hub \<Rightarrow> string option \<Rightarrow> bool" where
  "parent_fk s p \<longleftrightarrow> (case p of None \<Rightarrow> True | Some c \<Rightarrow> channel_exists s c)"

definition insert_channel :: "channel_row \<Rightarrow> unit hub_handler" where
  "insert_channel r =
     writing (\<lambda>s. insert_row channel_conflicts
         (user_exists s (channel_created_by r) \<and> parent_fk s (channel_parent r)) r (channels s))
       (\<lambda>t s. s\<lparr>channels := t\<rparr>)"

definition channel_unique_error :: "string \<Rightarrow> failure \<Rightarrow> failure" where
  "channel_unique_error n e =
     (if e = DbError UNIQUE
      then Reject CONFLICT (''Channel '' @ [CHR 0x27] @ n @ [CHR 0x27] @ '' already exists'') else e)"

definition to_channel_response :: "channel_row \<Rightarrow> channel_response" where
  "to_channel_response r = \<lparr>cr_id = channel_id r, cr_name = channel_name r,
     cr_created_by = channel_created_by r, cr_parent = channel_parent r,
     cr_is_category = (channel_is_category r \<noteq> 0), cr_order = channel_order r,
     cr_description = channel_description r, cr_icon = channel_icon r, cr_color = channel_color r,
     cr_svg = channel_svg r, cr_created = channel_created r, cr_type = channel_type r\<rparr>"

definition new_channel ::
    "string \<Rightarrow> string \<Rightarrow> int \<Rightarrow> create_channel_request \<Rightarrow> string \<Rightarrow> int \<Rightarrow> channel_row" where
  "new_channel user uuid now req ty ord = \<lparr>channel_id = uuid, channel_name = ccr_name req,
     channel_created_by = user, channel_parent = ccr_parent req,
     channel_is_category = flag (ccr_is_category req), channel_order = ord,
     channel_description = ccr_description req, channel_icon = None, channel_color = None,
     channel_svg = None, channel_min_talk_power = 0, channel_type = ty, channel_created = now\<rparr>"

definition store_channel :: "string \<Rightarrow> channel_row \<Rightarrow> (status_code \<times> channel_response) hub_handler" where
  "store_channel user row =
     and_then (map_err (channel_unique_error (channel_name row)) (insert_channel row)) (\<lambda>_.
     and_then (spawn_publish_hub_event ''channel.created'' (Some user) None (Some (channel_id row))
       (JObj [(''channel_id'', JStr (channel_id row)), (''name'', JStr (channel_name row))])) (\<lambda>_.
     ret (CREATED, to_channel_response row)))"

definition create_channel :: "string \<Rightarrow> string \<Rightarrow> int \<Rightarrow> create_channel_request \<Rightarrow>
    (status_code \<times> channel_response) hub_handler" where
  "create_channel user uuid now req =
     and_then (gets (user_permissions user)) (\<lambda>perms.
     and_then (require_permission perms MANAGE_CHANNELS) (\<lambda>_.
     and_then (case ccr_parent req of None \<Rightarrow> ret () | Some p \<Rightarrow> require_category_parent p) (\<lambda>_.
     and_then (enforce_create_depth (ccr_parent req) (ccr_is_category req)) (\<lambda>_.
     and_then (lift (effective_channel_type (ccr_is_category req) (ccr_channel_type req))) (\<lambda>ty.
     and_then (gets next_order) (\<lambda>ord.
     store_channel user (new_channel user uuid now req ty ord)))))))"

subsection \<open>Update\<close>

definition enforce_move :: "string \<Rightarrow> string \<Rightarrow> unit hub_handler" where
  "enforce_move channel parent_id =
     and_then (check (parent_id \<noteq> channel)
       (Reject BAD_REQUEST (''A channel can'' @ [CHR 0x27] @ ''t be its own parent''))) (\<lambda>_.
     and_then (require_category_parent parent_id) (\<lambda>_.
     and_then (gets (\<lambda>s. is_ancestor s channel parent_id)) (\<lambda>anc.
     and_then (check (\<not> anc)
       (Reject BAD_REQUEST ''Cannot move a channel into its own descendant'')) (\<lambda>_.
     and_then (gets read_max_depth) (\<lambda>max_depth.
     if 0 < max_depth then
       and_then (gets (\<lambda>s. node_depth s (Some parent_id))) (\<lambda>d.
       and_then (lift d) (\<lambda>parent_depth.
       let moved_depth = parent_depth + 1; max_code_depth = max_depth - 1 in
       and_then (check (\<not> max_code_depth < moved_depth) (Reject BAD_REQUEST ''depth_exceeded'')) (\<lambda>_.
       and_then (gets (\<lambda>s. case row_at channel_id channel (channels s) of
         None \<Rightarrow> 0 | Some r \<Rightarrow> channel_is_category r)) (\<lambda>is_cat.
       check (\<not> (is_cat = 1 \<and> max_code_depth \<le> moved_depth))
         (Reject BAD_REQUEST ''category_at_max_depth'')))))
     else ret ())))))"

text \<open>The columns the assembled \<^verbatim>\<open>UPDATE channels SET ...\<close> assigns.\<close>

definition apply_channel_update :: "update_channel_request \<Rightarrow> channel_row \<Rightarrow> channel_row" where
  "apply_channel_update req r =
     r\<lparr>channel_description := (case ucr_description req of None \<Rightarrow> channel_description r | d \<Rightarrow> d),
       channel_icon := (case ucr_icon req of None \<Rightarrow> channel_icon r | Some x \<Rightarrow> x),
       channel_color := (case ucr_color req of None \<Rightarrow> channel_color r | Some x \<Rightarrow> x),
       channel_svg := (case ucr_svg req of None \<Rightarrow> channel_svg r | Some x \<Rightarrow> x),
       channel_parent := (case ucr_parent req of None \<Rightarrow> channel_parent r | Some x \<Rightarrow> x),
       channel_min_talk_power := (case ucr_min_talk_power req of
         None \<Rightarrow> channel_min_talk_power r | Some p \<Rightarrow> p)\<rparr>"

definition needs_update :: "update_channel_request \<Rightarrow> bool" where
  "needs_update req \<longleftrightarrow> ucr_description req \<noteq> None \<or> ucr_icon req \<noteq> None \<or> ucr_color req \<noteq> None \<or>
     ucr_svg req \<noteq> None \<or> ucr_parent req \<noteq> None \<or> ucr_min_talk_power req \<noteq> None"

definition update_channel_row :: "string \<Rightarrow> (channel_row \<Rightarrow> channel_row) \<Rightarrow> unit hub_handler" where
  "update_channel_row c f =
     modify (\<lambda>s. s\<lparr>channels := update_where (\<lambda>r. channel_id r = c) f (channels s)\<rparr>)"

definition rename_channel :: "string \<Rightarrow> string \<Rightarrow> unit hub_handler" where
  "rename_channel c name =
     and_then (check (trim name \<noteq> [])
       (Reject BAD_REQUEST ''Channel name cannot be empty'')) (\<lambda>_.
     map_err (\<lambda>e. if e = DbError UNIQUE
         then Reject CONFLICT ''A channel with that name already exists'' else e)
       (writing (\<lambda>s. update_unique channel_name (\<lambda>r. channel_id r = c)
           (\<lambda>r. r\<lparr>channel_name := trim name\<rparr>) (channels s))
         (\<lambda>t s. s\<lparr>channels := t\<rparr>)))"

definition update_channel ::
    "string \<Rightarrow> string \<Rightarrow> update_channel_request \<Rightarrow> status_code hub_handler" where
  "update_channel user c req =
     and_then (gets (user_permissions user)) (\<lambda>perms.
     and_then (gets (\<lambda>s. channel_exists s c)) (\<lambda>found.
     and_then (check found (Reject NOT_FOUND ''Channel not found'')) (\<lambda>_.
     and_then (if ucr_name req \<noteq> None \<or> ucr_description req \<noteq> None \<or> ucr_parent req \<noteq> None
       then require_permission perms MANAGE_CHANNELS else ret ()) (\<lambda>_.
     and_then (if ucr_icon req \<noteq> None \<or> ucr_color req \<noteq> None \<or> ucr_svg req \<noteq> None
       then require_permission perms MANAGE_CHANNEL_ICONS else ret ()) (\<lambda>_.
     and_then (if ucr_min_talk_power req \<noteq> None then require_permission perms ADMIN else ret ()) (\<lambda>_.
     and_then (case ucr_parent req of None \<Rightarrow> ret () | Some po \<Rightarrow>
       (case po of None \<Rightarrow> ret () | Some p \<Rightarrow> enforce_move c p)) (\<lambda>_.
     and_then (if needs_update req then update_channel_row c (apply_channel_update req) else ret ()) (\<lambda>_.
     and_then (case ucr_name req of None \<Rightarrow> ret () | Some name \<Rightarrow> rename_channel c name) (\<lambda>_.
     ret OK)))))))))"

subsection \<open>Listing and reordering\<close>

definition list_channels :: "channel_response list hub_handler" where
  "list_channels =
     gets (\<lambda>s. map to_channel_response
       (sort_key channel_order (sort_key channel_created (channels s))))"

definition set_order :: "nat \<times> string \<Rightarrow> unit hub_handler" where
  "set_order ic = update_channel_row (snd ic) (\<lambda>r. r\<lparr>channel_order := int (fst ic)\<rparr>)"

definition reorder_channels :: "string \<Rightarrow> string list \<Rightarrow> status_code hub_handler" where
  "reorder_channels user channel_ids =
     and_then (gets (user_permissions user)) (\<lambda>perms.
     and_then (require_permission perms MANAGE_CHANNELS) (\<lambda>_.
     and_then (for_each set_order (enumerate 0 channel_ids)) (\<lambda>_.
     ret OK)))"

subsection \<open>Deletion\<close>

text \<open>Deleting messages cascades to their reactions and components.\<close>

definition delete_messages_of :: "string \<Rightarrow> unit hub_handler" where
  "delete_messages_of c =
     modify (\<lambda>s. let gone = set (map msg_id (filter (\<lambda>m. msg_channel m = c) (messages s))) in
       s\<lparr>messages := delete_where (\<lambda>m. msg_channel m = c) (messages s),
         message_reactions := delete_where (\<lambda>x. reaction_message x \<in> gone) (message_reactions s),
         message_components := delete_where (\<lambda>x. component_message x \<in> gone) (message_components s)\<rparr>)"

text \<open>
  \<^verbatim>\<open>DELETE FROM channels\<close> fails while a child channel, message, ban, setting, alliance share or
  webhook refers to the channel; posts and their replies go with it, and a reply elsewhere that
  quotes a deleted one loses the reference.
\<close>

definition channel_referenced :: "string \<Rightarrow> hub \<Rightarrow> bool" where
  "channel_referenced c s \<longleftrightarrow>
     exists_row (\<lambda>r. channel_parent r = Some c \<and> channel_id r \<noteq> c) (channels s) \<or>
     exists_row (\<lambda>m. msg_channel m = c) (messages s) \<or>
     exists_row (\<lambda>b. cb_channel b = c) (channel_bans s) \<or>
     exists_row (\<lambda>x. cs_channel x = c) (channel_settings s) \<or>
     exists_row (\<lambda>x. shared_channel x = c) (alliance_shared_channels s) \<or>
     exists_row (\<lambda>w. webhook_channel w = c) (webhooks s)"

definition delete_channel_row :: "string \<Rightarrow> unit hub_handler" where
  "delete_channel_row c =
     exec (\<lambda>s. if channel_referenced c s then Inl (DbError FOREIGN_KEY)
       else let gone = set (map post_id (filter (\<lambda>p. post_channel p = c) (posts s)));
                gone_replies = set (map reply_id (filter (\<lambda>q. reply_post q \<in> gone) (post_replies s))) in
         Inr (s\<lparr>channels := delete_where (\<lambda>r. channel_id r = c) (channels s),
           posts := delete_where (\<lambda>p. post_channel p = c) (posts s),
           post_replies := update_where
             (\<lambda>q. case reply_to_id q of None \<Rightarrow> False | Some i \<Rightarrow> i \<in> gone_replies)
             (\<lambda>q. q\<lparr>reply_to_id := None\<rparr>)
             (delete_where (\<lambda>q. reply_post q \<in> gone) (post_replies s))\<rparr>))"

definition delete_channel :: "string \<Rightarrow> string \<Rightarrow> status_code hub_handler" where
  "delete_channel user c =
     and_then (gets (user_permissions user)) (\<lambda>perms.
     and_then (require_permission perms MANAGE_CHANNELS) (\<lambda>_.
     and_then (gets (\<lambda>s. channel_exists s c)) (\<lambda>found.
     and_then (check found (Reject NOT_FOUND ''Channel not found'')) (\<lambda>_.
     and_then (gets (\<lambda>s. count_rows (\<lambda>r. channel_parent r = Some c) (channels s))) (\<lambda>children.
     and_then (check (\<not> 0 < children)
       (Reject CONFLICT ''Cannot delete: category still has channels'')) (\<lambda>_.
     and_then (delete_messages_of c) (\<lambda>_.
     and_then (modify (\<lambda>s. s\<lparr>channel_bans := delete_where (\<lambda>b. cb_channel b = c) (channel_bans s)\<rparr>)) (\<lambda>_.
     and_then (modify (\<lambda>s. s\<lparr>channel_settings :=
       delete_where (\<lambda>x. cs_channel x = c) (channel_settings s)\<rparr>)) (\<lambda>_.
     and_then (modify (\<lambda>s. s\<lparr>alliance_shared_channels :=
       delete_where (\<lambda>x. shared_channel x = c) (alliance_shared_channels s)\<rparr>)) (\<lambda>_.
     and_then (delete_channel_row c) (\<lambda>_.
     and_then (spawn_publish_hub_event ''channel.deleted'' (Some user) None (Some c)
       (JObj [(''channel_id'', JStr c)])) (\<lambda>_.
     ret NO_CONTENT))))))))))))"

subsection \<open>Requests that write, as one type of operations\<close>

datatype channel_op =
    CreateChannel string string int create_channel_request
  | UpdateChannel string string update_channel_request
  | ReorderChannels string "string list"
  | DeleteChannel string string

fun channel_step :: "hub \<Rightarrow> channel_op \<Rightarrow> hub" where
  "channel_step s (CreateChannel user uuid now req) = snd (create_channel user uuid now req s)"
| "channel_step s (UpdateChannel user c req) = snd (update_channel user c req s)"
| "channel_step s (ReorderChannels user cs) = snd (reorder_channels user cs s)"
| "channel_step s (DeleteChannel user c) = snd (delete_channel user c s)"

subsection \<open>Ancestors\<close>

primrec ups :: "hub \<Rightarrow> nat \<Rightarrow> string \<Rightarrow> string option" where
  "ups s 0 c = Some c"
| "ups s (Suc n) c = (case parent_of s c of None \<Rightarrow> None | Some p \<Rightarrow> ups s n p)"

definition forest :: "hub \<Rightarrow> bool" where
  "forest s \<longleftrightarrow> (\<forall>c. \<exists>n. ups s n c = None)"

definition shallow :: "nat \<Rightarrow> hub \<Rightarrow> bool" where
  "shallow n s \<longleftrightarrow> (\<forall>c. ups s (Suc n) c = None)"

definition depth_is :: "hub \<Rightarrow> string \<Rightarrow> nat \<Rightarrow> bool" where
  "depth_is s c d \<longleftrightarrow> ups s d c \<noteq> None \<and> ups s (Suc d) c = None"

lemma ups_add: "ups s (m + n) c = (case ups s m c of None \<Rightarrow> None | Some a \<Rightarrow> ups s n a)"
  by (induction m arbitrary: c) (auto split: option.splits)

lemma ups_None_mono: "ups s m c = None \<Longrightarrow> m \<le> n \<Longrightarrow> ups s n c = None"
  using ups_add [of s m "n - m" c] by simp

lemma is_ancestor_loop_iff:
  "is_ancestor_loop n s a c \<longleftrightarrow> (\<exists>j. 1 \<le> j \<and> j \<le> n \<and> ups s j c = Some a)"
proof (induction n arbitrary: c)
  case (Suc n)
  show ?case
  proof (cases "parent_of s c")
    case None
    then have "ups s j c \<noteq> Some a" if "1 \<le> j" for j using that by (cases j) auto
    with None show ?thesis by auto
  next
    case (Some p)
    have "(\<exists>j. 1 \<le> j \<and> j \<le> Suc n \<and> ups s j c = Some a) \<longleftrightarrow>
        (\<exists>j. j \<le> n \<and> ups s j p = Some a)"
    proof
      assume "\<exists>j. 1 \<le> j \<and> j \<le> Suc n \<and> ups s j c = Some a"
      then obtain j where "1 \<le> j" "j \<le> Suc n" "ups s j c = Some a" by blast
      then show "\<exists>j. j \<le> n \<and> ups s j p = Some a" using Some by (cases j) auto
    next
      assume "\<exists>j. j \<le> n \<and> ups s j p = Some a"
      then obtain j where "j \<le> n" "ups s j p = Some a" by blast
      then show "\<exists>j. 1 \<le> j \<and> j \<le> Suc n \<and> ups s j c = Some a"
        using Some by (intro exI [of _ "Suc j"]) simp
    qed
    also have "\<dots> \<longleftrightarrow> p = a \<or> (\<exists>j. 1 \<le> j \<and> j \<le> n \<and> ups s j p = Some a)"
      by (metis One_nat_def Suc_leI le0 not_gr_zero option.inject ups.simps(1))
    finally show ?thesis using Some Suc.IH [of p] by simp
  qed
qed simp

lemma depth_is_Suc:
  "parent_of s c = Some p \<Longrightarrow> depth_is s c d \<longleftrightarrow> (\<exists>e. d = Suc e \<and> depth_is s p e)"
  by (cases d) (auto simp: depth_is_def)

lemma depth_is_root: "parent_of s c = None \<Longrightarrow> depth_is s c d \<longleftrightarrow> d = 0"
  by (cases d) (auto simp: depth_is_def)

lemma node_depth_loop_correct:
  "node_depth_loop s k c = Inr n \<Longrightarrow> \<exists>d. depth_is s c d \<and> n = k + d"
proof (induction s k c rule: node_depth_loop.induct)
  case (1 s k c)
  show ?case
  proof (cases "parent_of s c")
    case None
    with "1.prems" show ?thesis by (simp add: node_depth_loop.simps depth_is_root)
  next
    case (Some p)
    with "1.prems" have "\<not> 50 < k + 1" "node_depth_loop s (k + 1) p = Inr n"
      by (auto simp: node_depth_loop.simps [of s k c] Let_def split: if_splits)
    from "1.IH" [OF Some refl this] obtain d where "depth_is s p d" "n = k + 1 + d" by auto
    with Some show ?thesis by (intro exI [of _ "Suc d"]) (auto simp: depth_is_Suc)
  qed
qed

lemma node_depth_loop_returns:
  "depth_is s c d \<Longrightarrow> k + d \<le> 50 \<Longrightarrow> node_depth_loop s k c = Inr (k + d)"
proof (induction d arbitrary: k c)
  case 0
  then have "parent_of s c = None" by (auto simp: depth_is_def split: option.splits)
  then show ?case by (simp add: node_depth_loop.simps)
next
  case (Suc d)
  then obtain p where "parent_of s c = Some p" by (auto simp: depth_is_def split: option.splits)
  with Suc show ?case by (simp add: node_depth_loop.simps [of s k c] depth_is_Suc Let_def)
qed

text \<open>
  \<^verbatim>\<open>node_depth\<close> computes the depth of the tree: whenever it answers \<open>n\<close> for a parent, the parent
  sits at depth \<open>n - 1\<close>, and it does answer for every parent of depth at most 49; deeper chains,
  cycles included, are refused by the safety limit instead of looping.
\<close>

theorem node_depth_correct:
  "(\<forall>n. node_depth s (Some p) = Inr n \<longleftrightarrow> (\<exists>d. depth_is s p d \<and> n = Suc d \<and> d \<le> 49)) \<and>
   node_depth s None = Inr 0"
proof -
  have bound: "d \<le> 49" if "depth_is s p d" "node_depth_loop s 1 p = Inr (Suc d)" for d
  proof -
    have "node_depth_loop s k c = Inr m \<Longrightarrow> k \<le> 50 \<Longrightarrow> m \<le> 50" for k c m
    proof (induction s k c rule: node_depth_loop.induct)
      case (1 s k c)
      then show ?case
        by (auto simp: node_depth_loop.simps [of s k c] Let_def split: option.splits if_splits)
    qed
    from this [OF that(2)] show ?thesis by simp
  qed
  show ?thesis
  proof (intro conjI allI iffI)
    show "\<exists>d. depth_is s p d \<and> n = Suc d \<and> d \<le> 49" if "node_depth s (Some p) = Inr n" for n
    proof -
      from that have n: "node_depth_loop s 1 p = Inr n" by (simp add: node_depth_def)
      from node_depth_loop_correct [OF n] obtain d where "depth_is s p d" "n = Suc d" by auto
      with bound n show ?thesis by blast
    qed
    show "node_depth s (Some p) = Inr n" if "\<exists>d. depth_is s p d \<and> n = Suc d \<and> d \<le> 49" for n
      using that node_depth_loop_returns [of s p _ 1] by (auto simp: node_depth_def)
  qed (simp add: node_depth_def)
qed

subsection \<open>Moving a channel\<close>

definition shape :: "hub \<Rightarrow> (string \<times> int) list" where
  "shape s = map (\<lambda>r. (channel_id r, channel_is_category r)) (channels s)"

definition move_ok :: "hub \<Rightarrow> string \<Rightarrow> string option \<Rightarrow> bool" where
  "move_ok s c np \<longleftrightarrow> (case np of None \<Rightarrow> True | Some p \<Rightarrow> p \<noteq> c \<and> \<not> is_ancestor s c p \<and>
     (\<exists>q. row_at channel_id p (channels s) = Some q \<and> channel_is_category q \<noteq> 0))"

definition moved :: "hub \<Rightarrow> string \<Rightarrow> hub \<Rightarrow> bool" where
  "moved s c t \<longleftrightarrow> shape t = shape s \<and>
     ((\<forall>x. parent_of t x = parent_of s x) \<or>
      (\<exists>np. move_ok s c np \<and> (\<forall>x. parent_of t x = (if x = c then np else parent_of s x))))"

lemma moved_refl [simp]: "moved s c s"
  by (simp add: moved_def)

lemma wp_enforce_move:
  "(\<And>e. E e s) \<Longrightarrow> (move_ok s c (Some p) \<Longrightarrow> Q () s) \<Longrightarrow> wp (enforce_move c p) Q E s"
  unfolding enforce_move_def require_category_parent_def move_ok_def
  by (auto simp: wps Let_def split: option.splits sum.splits)

lemma parent_of_update:
  assumes "\<And>r. channel_id (f r) = channel_id r"
  shows "parent_of (s\<lparr>channels := update_where (\<lambda>r. channel_id r = c) f (channels s)\<rparr>) x =
    (if x = c then (case row_at channel_id c (channels s) of None \<Rightarrow> None | Some r \<Rightarrow> channel_parent (f r))
     else parent_of s x)"
  by (simp add: parent_of_def row_at_update_where assms split: option.splits)

lemma shape_update:
  "(\<And>r. channel_id (f r) = channel_id r) \<Longrightarrow> (\<And>r. channel_is_category (f r) = channel_is_category r) \<Longrightarrow>
   shape (s\<lparr>channels := update_where P f (channels s)\<rparr>) = shape s"
  by (simp add: shape_def update_where_def)

lemma parent_of_same:
  assumes "\<And>r. channel_id (f r) = channel_id r" "\<And>r. channel_parent (f r) = channel_parent r"
  shows "parent_of (s\<lparr>channels := update_where (\<lambda>r. channel_id r = c) f (channels s)\<rparr>) x = parent_of s x"
  by (simp add: parent_of_update assms(1)) (simp add: parent_of_def assms(2) split: option.split)

lemma moved_rename: "preserves (moved s c) (rename_channel d name)"
  unfolding rename_channel_def
  by (intro keeps preserves_writing) (auto simp: ok_iffs moved_def shape_update parent_of_same)

lemma update_channel_moved: "moved s c (snd (update_channel user c req s))"
proof -
  let ?M = "moved s c"
  have tail: "wp (and_then (if needs_update req then update_channel_row c (apply_channel_update req) else ret ())
      (\<lambda>_. and_then (case ucr_name req of None \<Rightarrow> ret () | Some name \<Rightarrow> rename_channel c name) (\<lambda>_.
      ret OK))) (\<lambda>_. ?M) (\<lambda>_. ?M) s"
    if ok: "\<And>np. ucr_parent req = Some np \<Longrightarrow> move_ok s c np" "channel_exists s c"
  proof -
    let ?t = "s\<lparr>channels := update_where (\<lambda>r. channel_id r = c) (apply_channel_update req) (channels s)\<rparr>"
    obtain r where r: "row_at channel_id c (channels s) = Some r"
      using ok(2) row_at_None_iff [of channel_id c "channels s"]
      by (auto simp: channel_exists_def exists_row_def)
    have "parent_of ?t x = (if x = c then (case ucr_parent req of None \<Rightarrow> parent_of s c | Some np \<Rightarrow> np)
        else parent_of s x)" for x
      using r by (subst parent_of_update)
        (auto simp: apply_channel_update_def parent_of_def split: option.splits)
    then have "?M ?t"
      using ok(1) by (cases "ucr_parent req")
        (auto simp: moved_def shape_update apply_channel_update_def)
    moreover have rest: "preserves ?M (and_then (case ucr_name req of None \<Rightarrow> ret ()
        | Some name \<Rightarrow> rename_channel c name) (\<lambda>_. ret OK))"
      by (intro keeps moved_rename)
    ultimately show ?thesis
      using preserves_wp [OF rest, of ?t] preserves_wp [OF rest, of s]
      by (auto simp: wp_and_then [of "if _ then _ else _"] wp_and_then [of "update_channel_row _ _"]
          wp_and_then [of "ret _"] update_channel_row_def wp_modify wp_ret)
  qed
  have none: "move_ok s c None" by (simp add: move_ok_def)
  have rest: "wp (and_then (case ucr_parent req of None \<Rightarrow> ret () | Some po \<Rightarrow>
        (case po of None \<Rightarrow> ret () | Some p \<Rightarrow> enforce_move c p)) (\<lambda>_.
      and_then (if needs_update req then update_channel_row c (apply_channel_update req) else ret ())
      (\<lambda>_. and_then (case ucr_name req of None \<Rightarrow> ret () | Some name \<Rightarrow> rename_channel c name) (\<lambda>_.
      ret OK)))) (\<lambda>_. ?M) (\<lambda>_. ?M) s" if ex: "channel_exists s c"
    proof (cases "ucr_parent req")
      case None
      show ?thesis
        by (simp only: None option.case wp_and_then [of "ret ()"] wp_ret, intro tail ex)
          (simp add: None)
    next
      case np: (Some np)
      show ?thesis
      proof (cases np)
        case None
        show ?thesis
          by (simp only: np None option.case wp_and_then [of "ret ()"] wp_ret, intro tail ex)
            (simp add: np None none)
      next
        case (Some p)
        show ?thesis
          by (simp only: np Some option.case wp_and_then [of "enforce_move _ _"],
              intro wp_enforce_move moved_refl tail ex) (simp add: np Some)
      qed
    qed
  show ?thesis
    unfolding wp_always [symmetric] update_channel_def wp_and_then [of "gets _"] wp_gets
    by (rule wp_check_then, rule moved_refl, (rule wp_pure, (intro keeps)[1], rule moved_refl)+,
        rule rest)
qed

subsection \<open>Growing, shrinking and reordering\<close>

definition grown :: "hub \<Rightarrow> hub \<Rightarrow> bool" where
  "grown s t \<longleftrightarrow> channels t = channels s \<or>
     (\<exists>row. channels t = channels s @ [row] \<and> \<not> exists_row (channel_conflicts row) (channels s) \<and>
        (\<forall>p. channel_parent row = Some p \<longrightarrow>
           (\<exists>q. row_at channel_id p (channels s) = Some q \<and> channel_is_category q \<noteq> 0)))"

lemma grown_refl [simp]: "grown s s"
  by (simp add: grown_def)

lemma wp_require_category_parent:
  "(\<And>e. E e s) \<Longrightarrow>
   (\<And>q. row_at channel_id p (channels s) = Some q \<Longrightarrow> channel_is_category q \<noteq> 0 \<Longrightarrow> wp (f ()) Q E s) \<Longrightarrow>
   wp (and_then (require_category_parent p) f) Q E s"
  by (auto simp: require_category_parent_def wps split: option.splits)

lemma preserves_require_category_parent [keeps]: "preserves P (require_category_parent p)"
  unfolding require_category_parent_def by (intro keeps)

lemma preserves_enforce_create_depth [keeps]: "preserves P (enforce_create_depth p b)"
  unfolding enforce_create_depth_def by (intro keeps)

lemma store_channel_grown:
  assumes "\<And>p. channel_parent row = Some p \<Longrightarrow>
    \<exists>q. row_at channel_id p (channels s) = Some q \<and> channel_is_category q \<noteq> 0"
  shows "wp (store_channel user row) (\<lambda>_. grown s) (\<lambda>_. grown s) s"
  using assms
  by (auto simp: store_channel_def insert_channel_def spawn_publish_hub_event_def wps insert_row_def
      grown_def)

lemma create_channel_grown: "grown s (snd (create_channel user uuid now req s))"
proof -
  let ?G = "\<lambda>_. grown s"
  have rest: "wp (and_then (enforce_create_depth po (ccr_is_category req)) (\<lambda>_.
     and_then (lift (effective_channel_type (ccr_is_category req) (ccr_channel_type req))) (\<lambda>ty.
     and_then (gets next_order) (\<lambda>ord.
     store_channel user (new_channel user uuid now req ty ord))))) ?G ?G s"
    if "\<And>p. ccr_parent req = Some p \<Longrightarrow>
      \<exists>q. row_at channel_id p (channels s) = Some q \<and> channel_is_category q \<noteq> 0" for po
    by ((rule wp_pure, (intro keeps)[1], rule grown_refl)+, rule store_channel_grown)
      (use that in \<open>simp add: new_channel_def\<close>)
  show ?thesis
    unfolding wp_always [symmetric] create_channel_def wp_and_then [of "gets (user_permissions _)"] wp_gets
    by (rule wp_pure [OF preserves_require grown_refl], cases "ccr_parent req")
      (auto simp: wp_and_then [of "ret _"] wp_ret intro!: rest wp_require_category_parent)
qed

lemma reorder_only_orders:
  assumes "\<And>t c k. I t \<Longrightarrow> I (t\<lparr>channels := update_where (\<lambda>r. channel_id r = c)
      (\<lambda>r. r\<lparr>channel_order := k\<rparr>) (channels t)\<rparr>)"
  shows "preserves I (reorder_channels user cs)"
  unfolding reorder_channels_def set_order_def update_channel_row_def
  by (intro keeps preserves_modify assms)

lemma delete_channel_channels:
  "channels (snd (delete_channel user c s)) = channels s \<or>
   (channels (snd (delete_channel user c s)) = delete_where (\<lambda>r. channel_id r = c) (channels s) \<and>
    \<not> exists_row (\<lambda>r. channel_parent r = Some c) (channels s))"
proof -
  let ?P = "\<lambda>t. channels t = channels s \<or> (channels t = delete_where (\<lambda>r. channel_id r = c) (channels s) \<and>
    \<not> exists_row (\<lambda>r. channel_parent r = Some c) (channels s))"
  have "wp (delete_channel user c) (\<lambda>_. ?P) (\<lambda>_. ?P) s"
    by (simp add: delete_channel_def require_permission_def delete_messages_of_def
        delete_channel_row_def spawn_publish_hub_event_def wps Let_def rows)
      (auto simp: count_rows_def exists_row_def filter_empty_conv)
  then show ?thesis by (simp add: wp_def split: prod.splits sum.splits)
qed

subsection \<open>Invariants of the tree\<close>

definition tree_ok :: "hub \<Rightarrow> bool" where
  "tree_ok s \<longleftrightarrow> keyed channel_id (channels s) \<and>
     (\<forall>r \<in> set (channels s). \<forall>p. channel_parent r = Some p \<longrightarrow>
        (\<exists>q \<in> set (channels s). channel_id q = p \<and> channel_is_category q \<noteq> 0))"

text \<open>The invariant in terms of the shape and the parent function.\<close>

lemma tree_ok_iff:
  "tree_ok s \<longleftrightarrow> keyed channel_id (channels s) \<and>
     (\<forall>c p. parent_of s c = Some p \<longrightarrow> (\<exists>k. (p, k) \<in> set (shape s) \<and> k \<noteq> 0))"
proof -
  have cat: "(\<exists>k. (p, k) \<in> set (shape s) \<and> k \<noteq> 0) \<longleftrightarrow>
      (\<exists>q \<in> set (channels s). channel_id q = p \<and> channel_is_category q \<noteq> 0)" for p
    by (auto simp: shape_def)
  have "parent_of s c = Some p \<longleftrightarrow> (\<exists>r \<in> set (channels s). channel_id r = c \<and> channel_parent r = Some p)"
    if "keyed channel_id (channels s)" for c p
  proof
    assume "parent_of s c = Some p"
    then obtain r where "row_at channel_id c (channels s) = Some r" "channel_parent r = Some p"
      by (auto simp: parent_of_def split: option.splits)
    then show "\<exists>r \<in> set (channels s). channel_id r = c \<and> channel_parent r = Some p"
      using row_at_key by metis
  next
    assume "\<exists>r \<in> set (channels s). channel_id r = c \<and> channel_parent r = Some p"
    then obtain r where "r \<in> set (channels s)" "channel_id r = c" "channel_parent r = Some p" by blast
    with row_at_keyed [OF that] show "parent_of s c = Some p" by (auto simp: parent_of_def)
  qed
  then show ?thesis unfolding tree_ok_def cat by blast
qed

lemma keyed_shape: "shape t = shape s \<Longrightarrow> keyed channel_id (channels t) = keyed channel_id (channels s)"
proof -
  have "map channel_id (channels u) = map fst (shape u)" for u by (simp add: shape_def)
  then show "shape t = shape s \<Longrightarrow> ?thesis" by (simp add: keyed_def)
qed

lemma tree_ok_cong:
  "shape t = shape s \<Longrightarrow> (\<And>x. parent_of t x = parent_of s x) \<Longrightarrow> tree_ok t = tree_ok s"
  unfolding tree_ok_iff using keyed_shape [of t s] by simp

lemma move_target_in_shape:
  "move_ok s c (Some p) \<Longrightarrow> \<exists>k. (p, k) \<in> set (shape s) \<and> k \<noteq> 0"
  by (force simp: move_ok_def shape_def dest: row_at_key)

lemma tree_ok_moved: "tree_ok s \<Longrightarrow> moved s c t \<Longrightarrow> tree_ok t"
  unfolding moved_def
proof (elim conjE disjE exE)
  fix np
  assume ok: "tree_ok s" and sh: "shape t = shape s" and mv: "move_ok s c np"
    and par: "\<forall>x. parent_of t x = (if x = c then np else parent_of s x)"
  have "\<exists>k. (p, k) \<in> set (shape t) \<and> k \<noteq> 0" if "parent_of t x = Some p" for x p
    using that par ok mv sh move_target_in_shape [of s c p]
    by (auto simp: tree_ok_iff split: if_splits)
  then show "tree_ok t" using ok keyed_shape [OF sh] by (simp add: tree_ok_iff)
qed (simp add: tree_ok_cong [of t s])

lemma tree_ok_grown: "tree_ok s \<Longrightarrow> grown s t \<Longrightarrow> tree_ok t"
  unfolding grown_def
proof (elim disjE exE conjE)
  show "tree_ok s \<Longrightarrow> channels t = channels s \<Longrightarrow> tree_ok t" by (simp add: tree_ok_def)
next
  fix row
  assume "tree_ok s" "channels t = channels s @ [row]" "\<not> exists_row (channel_conflicts row) (channels s)"
    "\<forall>p. channel_parent row = Some p \<longrightarrow>
      (\<exists>q. row_at channel_id p (channels s) = Some q \<and> channel_is_category q \<noteq> 0)"
  then show "tree_ok t"
    by (auto simp: tree_ok_def keyed_snoc exists_row_def channel_conflicts_def dest!: row_at_key)
qed

lemma tree_ok_order:
  "tree_ok t \<Longrightarrow> tree_ok (t\<lparr>channels := update_where (\<lambda>r. channel_id r = c)
      (\<lambda>r. r\<lparr>channel_order := k\<rparr>) (channels t)\<rparr>)"
  by (subst tree_ok_cong [of _ t]) (simp_all add: shape_update parent_of_same)

lemma tree_ok_step: "tree_ok s \<Longrightarrow> tree_ok (channel_step s op)"
proof (cases op)
  case (CreateChannel user uuid now req)
  then show "tree_ok s \<Longrightarrow> ?thesis" using tree_ok_grown [OF _ create_channel_grown] by simp
next
  case (UpdateChannel user c req)
  then show "tree_ok s \<Longrightarrow> ?thesis" using tree_ok_moved [OF _ update_channel_moved] by simp
next
  case (ReorderChannels user cs)
  then show "tree_ok s \<Longrightarrow> ?thesis"
    using reorder_only_orders [where I = tree_ok, OF tree_ok_order] by (simp add: preserves_def)
next
  case (DeleteChannel user c)
  then show "tree_ok s \<Longrightarrow> ?thesis"
    using delete_channel_channels [of user c s]
    by (auto simp: tree_ok_def rows keyed_delete_where exists_row_def) metis
qed

text \<open>
  Channels only ever hang under categories: along any sequence of channel requests, whatever
  their outcomes, channel ids stay unique and every parent reference names an existing channel
  that is a category.
\<close>

theorem parents_stay_categories:
  assumes "tree_ok s"
  shows "tree_ok (run channel_step s ops)"
  by (rule run_invariant) (rule tree_ok_step, assumption, rule assms)

definition demo_category :: "string \<Rightarrow> string option \<Rightarrow> create_channel_request" where
  "demo_category n p = \<lparr>ccr_name = n, ccr_parent = p, ccr_is_category = True,
     ccr_description = None, ccr_channel_type = None\<rparr>"

lemma demo_tree: "tree_ok demo_hub"
  by (simp add: tree_ok_def demo_hub_def initial_def)

theorem parents_stay_categories_witness:
  "tree_ok (run channel_step demo_hub [CreateChannel demo_mod ''c1'' 5 (demo_category ''top'' None),
     CreateChannel demo_mod ''c2'' 6 (demo_category ''sub'' (Some ''c1'')), DeleteChannel demo_mod ''c1''])"
  by (rule parents_stay_categories) (rule demo_tree)

subsection \<open>No cycles\<close>

lemma ups_subset:
  "(\<And>x y. parent_of t x = Some y \<Longrightarrow> parent_of s x = Some y) \<Longrightarrow> ups s n x = None \<Longrightarrow> ups t n x = None"
proof (induction n arbitrary: x)
  case (Suc n)
  then show ?case by (cases "parent_of t x") (auto split: option.splits)
qed simp

lemma forest_subset:
  "(\<And>x y. parent_of t x = Some y \<Longrightarrow> parent_of s x = Some y) \<Longrightarrow> forest s \<Longrightarrow> forest t"
  unfolding forest_def using ups_subset [of t s] by blast

text \<open>Attaching \<open>c\<close> under \<open>p\<close>, when the chain above \<open>p\<close> ends without meeting \<open>c\<close>.\<close>

lemma forest_attach:
  assumes "forest s" "\<And>j. ups s j p \<noteq> Some c"
    and par: "\<And>x. parent_of t x = (if x = c then Some p else parent_of s x)"
  shows "forest t"
proof -
  have same: "ups t n x = ups s n x" if "\<And>j. ups s j x \<noteq> Some c" for n x
    using that
  proof (induction n arbitrary: x)
    case (Suc n)
    have "x \<noteq> c" using Suc.prems [of 0] by simp
    show ?case
    proof (cases "parent_of s x")
      case (Some y)
      have "ups s j y \<noteq> Some c" for j using Suc.prems [of "Suc j"] Some by simp
      with Suc.IH [of y] Some \<open>x \<noteq> c\<close> show ?thesis by (simp add: par)
    qed (simp add: par \<open>x \<noteq> c\<close>)
  qed simp
  obtain k where "ups s k p = None" using assms(1) by (auto simp: forest_def)
  with same [OF assms(2)] have "ups t (Suc k) c = None" by (simp add: par)
  moreover have "\<exists>m. ups t m x = None" if "ups s n x = None" "ups t (Suc k) c = None" for n x
    using that
  proof (induction n arbitrary: x)
    case (Suc n)
    show ?case
    proof (cases "x = c \<or> parent_of s x = None")
      case True
      then show ?thesis
      proof (cases "x = c")
        case False
        with True par [of x] have "ups t (Suc 0) x = None" by simp
        then show ?thesis by blast
      qed (use Suc.prems(2) in blast)
    next
      case False
      then obtain y where y: "parent_of s x = Some y" "x \<noteq> c" by auto
      with Suc.prems have "ups s n y = None" by simp
      from Suc.IH [OF this Suc.prems(2)] obtain m where "ups t m y = None" by blast
      with y show ?thesis by (intro exI [of _ "Suc m"]) (simp add: par)
    qed
  qed simp
  ultimately show ?thesis using assms(1) unfolding forest_def by blast
qed

lemma forest_moved:
  assumes "forest s" "shallow 50 s" "moved s c t"
  shows "forest t"
  using assms(3) unfolding moved_def
proof (elim conjE disjE exE)
  show "\<forall>x. parent_of t x = parent_of s x \<Longrightarrow> forest t"
    using forest_subset [of t s] assms(1) by simp
next
  fix np
  assume ok: "move_ok s c np" and par: "\<forall>x. parent_of t x = (if x = c then np else parent_of s x)"
  show "forest t"
  proof (cases np)
    case None
    show ?thesis by (rule forest_subset [OF _ assms(1)]) (simp add: par None split: if_splits)
  next
    case (Some p)
    have "ups s j p \<noteq> Some c" for j
    proof
      assume up: "ups s j p = Some c"
      have "j \<le> 50" using assms(2) up ups_None_mono [of s 51 p j]
        by (cases "j \<le> 50") (auto simp: shallow_def numeral_eq_Suc)
      moreover have "1 \<le> j" using ok up Some by (cases j) (auto simp: move_ok_def)
      ultimately show False
        using ok up Some by (auto simp: move_ok_def is_ancestor_def is_ancestor_loop_iff)
    qed
    with forest_attach [OF assms(1), of p c t] par Some show ?thesis by auto
  qed
qed

lemma forest_grown:
  assumes "tree_ok s" "forest s" "grown s t"
  shows "forest t"
  using assms(3) unfolding grown_def
proof (elim disjE exE conjE)
  show "channels t = channels s \<Longrightarrow> forest t"
    using forest_subset [of t s] assms(2) by (simp add: parent_of_def)
next
  fix row
  assume t: "channels t = channels s @ [row]" and new: "\<not> exists_row (channel_conflicts row) (channels s)"
    and cat: "\<forall>p. channel_parent row = Some p \<longrightarrow>
      (\<exists>q. row_at channel_id p (channels s) = Some q \<and> channel_is_category q \<noteq> 0)"
  let ?c = "channel_id row"
  have fresh: "row_at channel_id ?c (channels s) = None"
    using new by (auto simp: row_at_None_iff exists_row_def channel_conflicts_def)
  have par: "parent_of t x = (if x = ?c then channel_parent row else parent_of s x)" for x
    using fresh by (simp add: parent_of_def t row_at_append)
      (auto simp: row_at_def split: option.splits)
  show "forest t"
  proof (cases "channel_parent row")
    case None
    show ?thesis by (rule forest_subset [OF _ assms(2)]) (simp add: par None split: if_splits)
  next
    case (Some p)
    have "ups s j p \<noteq> Some ?c" for j
    proof
      assume up: "ups s j p = Some ?c"
      have "x \<noteq> ?c" if "(x, k) \<in> set (shape s)" for x k
        using that fresh by (auto simp: shape_def row_at_None_iff)
      moreover have "\<exists>k. (p, k) \<in> set (shape s)"
        using cat Some by (force simp: shape_def dest: row_at_key)
      then have "\<exists>k. (x, k) \<in> set (shape s)" if "ups s j p = Some x" for x
        using that
      proof (induction j arbitrary: p)
        case (Suc j)
        then obtain q where "parent_of s p = Some q" "ups s j q = Some x"
          by (auto split: option.splits)
        moreover from this(1) have "\<exists>k. (q, k) \<in> set (shape s)"
          using assms(1) by (auto simp: tree_ok_iff)
        ultimately show ?case using Suc.IH by blast
      qed simp
      ultimately show False using up by blast
    qed
    with forest_attach [OF assms(2), of p ?c t] par Some show ?thesis by auto
  qed
qed

text \<open>
  C7. The channel graph stays free of cycles: starting from a well-formed forest in which no chain
  of parents is longer than 50, one channel request of any kind, whatever its outcome, leaves a
  graph in which every chain of parents still ends.
\<close>

theorem channel_requests_keep_forest:
  assumes "tree_ok s" "forest s" "shallow 50 s"
  shows "forest (channel_step s op)"
proof (cases op)
  case (CreateChannel user uuid now req)
  then show ?thesis using forest_grown [OF assms(1,2) create_channel_grown] by simp
next
  case (UpdateChannel user c req)
  then show ?thesis using forest_moved [OF assms(2,3) update_channel_moved] by simp
next
  case (ReorderChannels user cs)
  have "forest (t\<lparr>channels := update_where (\<lambda>r. channel_id r = c)
      (\<lambda>r. r\<lparr>channel_order := k\<rparr>) (channels t)\<rparr>)" if "forest t" for t c k
    by (rule forest_subset [OF _ that]) (simp add: parent_of_same)
  with ReorderChannels assms(2) reorder_only_orders [where I = forest] show ?thesis
    by (simp add: preserves_def)
next
  case (DeleteChannel user c)
  have "parent_of (channel_step s op) x = Some y \<Longrightarrow> parent_of s x = Some y" for x y
    using delete_channel_channels [of user c s] DeleteChannel tbl.lookup_remove [of channel_id x c "channels s"]
    by (auto simp: parent_of_def delete_key_def split: if_splits)
  then show ?thesis by (rule forest_subset [OF _ assms(2)])
qed

theorem channel_requests_keep_forest_witness:
  "forest (channel_step demo_hub (CreateChannel demo_mod ''c1'' 5 (demo_category ''top'' None)))"
proof (rule channel_requests_keep_forest [OF demo_tree])
  have root: "ups demo_hub (Suc n) c = None" for n c
    by (simp add: parent_of_def demo_hub_def initial_def row_at_def)
  show "forest demo_hub" unfolding forest_def using root by blast
  show "shallow 50 demo_hub" unfolding shallow_def using root by blast
qed

lemma cycle_not_forest: "ups s (Suc n) c = Some c \<Longrightarrow> \<not> forest s"
proof
  assume c: "ups s (Suc n) c = Some c" and "forest s"
  then obtain m where "ups s m c = None" by (auto simp: forest_def)
  moreover have "ups s (Suc n * m) c = Some c"
  proof (induction m)
    case (Suc m)
    then show ?case using ups_add [of s "Suc n" "Suc n * m" c] c by simp
  qed simp
  ultimately show False using ups_None_mono [of s m c "Suc n * m"] by simp
qed

text \<open>A chain of nested categories, made through the API.\<close>

definition deep_id :: "nat \<Rightarrow> string" where
  "deep_id i = replicate (Suc i) CHR ''c''"

definition deep_parent :: "nat \<Rightarrow> string option" where
  "deep_parent i = (if i = 0 then None else Some (deep_id (i - 1)))"

definition deep_hub :: "nat \<Rightarrow> hub" where
  "deep_hub n = run channel_step demo_hub
     (map (\<lambda>i. CreateChannel demo_mod (deep_id i) 5 (demo_category (deep_id i) (deep_parent i))) [0..<n])"

definition move_to :: "string \<Rightarrow> update_channel_request" where
  "move_to p = \<lparr>ucr_name = None, ucr_description = None, ucr_parent = Some (Some p),
     ucr_icon = None, ucr_color = None, ucr_svg = None, ucr_min_talk_power = None\<rparr>"

lemma deep_id_inject [simp]: "deep_id i = deep_id j \<longleftrightarrow> i = j"
  by (auto simp: deep_id_def dest: arg_cong [of _ _ length])

definition deep_shape :: "nat \<Rightarrow> hub \<Rightarrow> bool" where
  "deep_shape n s \<longleftrightarrow>
     map (\<lambda>r. (channel_id r, channel_name r, channel_parent r, channel_is_category r)) (channels s) =
     map (\<lambda>i. (deep_id i, deep_id i, deep_parent i, 1)) [0..<n] \<and>
     user_permissions demo_mod s = user_permissions demo_mod demo_hub \<and>
     user_exists s demo_mod \<and> read_max_depth s = 0"

lemma deep_shape_map:
  assumes "deep_shape n s"
  shows "length (channels s) = n" "map channel_id (channels s) = map deep_id [0..<n]"
    "map channel_name (channels s) = map deep_id [0..<n]"
    "map channel_parent (channels s) = map deep_parent [0..<n]"
    "map channel_is_category (channels s) = replicate n 1"
proof -
  let ?f = "\<lambda>r. (channel_id r, channel_name r, channel_parent r, channel_is_category r)"
  have eq: "map ?f (channels s) = map (\<lambda>i. (deep_id i, deep_id i, deep_parent i, 1)) [0..<n]"
    using assms by (simp add: deep_shape_def)
  from arg_cong [OF eq, of length] show "length (channels s) = n" by simp
  from arg_cong [OF eq, of "map fst"] show "map channel_id (channels s) = map deep_id [0..<n]"
    by (simp add: comp_def)
  from arg_cong [OF eq, of "map (fst \<circ> snd)"] show "map channel_name (channels s) = map deep_id [0..<n]"
    by (simp add: comp_def)
  from arg_cong [OF eq, of "map (fst \<circ> snd \<circ> snd)"]
  show "map channel_parent (channels s) = map deep_parent [0..<n]" by (simp add: comp_def)
  from arg_cong [OF eq, of "map (snd \<circ> snd \<circ> snd)"]
  show "map channel_is_category (channels s) = replicate n 1" by (simp add: comp_def map_replicate_const)
qed

lemma deep_shape_nth:
  assumes "deep_shape n s" "i < n"
  shows "channels s ! i \<in> set (channels s)" "channel_id (channels s ! i) = deep_id i"
    "channel_parent (channels s ! i) = deep_parent i" "channel_is_category (channels s ! i) = 1"
proof -
  note eqs = deep_shape_map [OF assms(1)]
  show "channels s ! i \<in> set (channels s)" using assms(2) eqs(1) by simp
  show "channel_id (channels s ! i) = deep_id i"
    using arg_cong [OF eqs(2), of "\<lambda>xs. xs ! i"] eqs(1) assms(2) by simp
  show "channel_parent (channels s ! i) = deep_parent i"
    using arg_cong [OF eqs(4), of "\<lambda>xs. xs ! i"] eqs(1) assms(2) by simp
  show "channel_is_category (channels s ! i) = 1"
    using arg_cong [OF eqs(5), of "\<lambda>xs. xs ! i"] eqs(1) assms(2) by simp
qed

lemma deep_row:
  assumes "deep_shape n s" "i < n"
  shows "row_at channel_id (deep_id i) (channels s) = Some (channels s ! i)"
proof -
  have "keyed channel_id (channels s)"
    by (simp add: keyed_def deep_shape_map [OF assms(1)] distinct_map inj_on_def)
  from row_at_keyed [OF this deep_shape_nth(1) [OF assms]] show ?thesis
    by (simp add: deep_shape_nth [OF assms])
qed

lemma deep_parent_of:
  "deep_shape n s \<Longrightarrow> i < n \<Longrightarrow> parent_of s (deep_id i) = deep_parent i"
  by (simp add: parent_of_def deep_row deep_shape_nth)

lemma deep_shape_create:
  assumes "deep_shape n s"
  shows "deep_shape (Suc n) (snd (create_channel demo_mod (deep_id n) 5
    (demo_category (deep_id n) (deep_parent n)) s))"
proof -
  let ?row = "new_channel demo_mod (deep_id n) 5 (demo_category (deep_id n) (deep_parent n)) ''text'' (next_order s)"
  have free: "\<not> exists_row (channel_conflicts ?row) (channels s)"
  proof
    assume "exists_row (channel_conflicts ?row) (channels s)"
    then obtain r where "r \<in> set (channels s)" "channel_id r = deep_id n \<or> channel_name r = deep_id n"
      by (auto simp: exists_row_def channel_conflicts_def new_channel_def demo_category_def)
    then have "deep_id n \<in> set (map channel_id (channels s)) \<or> deep_id n \<in> set (map channel_name (channels s))"
      by force
    then show False by (auto simp: deep_shape_map [OF assms])
  qed
  have parent: "wp (require_category_parent p) Q E s = Q () s" if "deep_parent n = Some p" for p Q E
    using that deep_row [OF assms, of "n - 1"] deep_shape_nth(4) [OF assms, of "n - 1"]
    by (auto simp: deep_parent_def require_category_parent_def wps split: if_splits)
  have fk: "parent_fk s (deep_parent n)"
    using deep_shape_nth [OF assms, of "n - 1"]
    by (cases "n = 0") (auto simp: deep_parent_def parent_fk_def channel_exists_def exists_row_def)
  have s: "user_permissions demo_mod s = user_permissions demo_mod demo_hub"
    "user_exists s demo_mod" "read_max_depth s = 0" using assms by (auto simp: deep_shape_def)
  have "wp (create_channel demo_mod (deep_id n) 5 (demo_category (deep_id n) (deep_parent n)))
      (\<lambda>_. deep_shape (Suc n)) (\<lambda>_. deep_shape (Suc n)) s"
    unfolding create_channel_def
    using free fk s assms
    by (cases "deep_parent n"; simp add: wps require_permission_def has_permission_def
        demo_category_def parent enforce_create_depth_def effective_channel_type_def)
      (auto simp: store_channel_def insert_channel_def insert_row_def wps spawn_publish_hub_event_def
        new_channel_def deep_shape_def user_exists_def flag_def read_max_depth_def setting_def
        demo_category_def intro!: trans [OF user_permissions_cong s(1)])
  then show ?thesis by (simp only: wp_always)
qed

lemma deep_hub_shape: "deep_shape n (deep_hub n)"
proof (induction n)
  case 0
  show ?case
    by (simp add: deep_shape_def deep_hub_def user_exists_def exists_row_def read_max_depth_def setting_def)
      (simp add: demo_defs initial_settings_def row_at_def seeded_setting_def parse_unsigned_def Let_def)
next
  case (Suc n)
  have "deep_hub (Suc n) = snd (create_channel demo_mod (deep_id n) 5
      (demo_category (deep_id n) (deep_parent n)) (deep_hub n))"
    by (simp add: deep_hub_def run_append)
  with deep_shape_create [OF Suc.IH] show ?case by simp
qed

lemma deep_ups: "deep_shape n s \<Longrightarrow> j \<le> i \<Longrightarrow> i < n \<Longrightarrow> ups s j (deep_id i) = Some (deep_id (i - j))"
  by (induction j arbitrary: i) (auto simp: deep_parent_of deep_parent_def)

text \<open>
  Without a depth limit (the default) the cycle check can be outrun: after 52 nested categories
  have been created through the API, moving the topmost one under the innermost one is accepted,
  because \<^verbatim>\<open>is_ancestor\<close> gives up after 50 steps, and the channels form a cycle.
\<close>

theorem deep_move_closes_cycle:
  "fst (update_channel demo_mod (deep_id 0) (move_to (deep_id 51)) (deep_hub 52)) = Inr OK \<and>
   \<not> forest (snd (update_channel demo_mod (deep_id 0) (move_to (deep_id 51)) (deep_hub 52)))"
proof -
  let ?s = "deep_hub 52"
  let ?t = "?s\<lparr>channels := update_where (\<lambda>r. channel_id r = deep_id 0)
    (apply_channel_update (move_to (deep_id 51))) (channels ?s)\<rparr>"
  note sh = deep_hub_shape [of 52]
  have no: "\<not> is_ancestor ?s (deep_id 0) (deep_id 51)"
    unfolding is_ancestor_def is_ancestor_loop_iff by (auto simp: deep_ups [OF sh])
  have ex: "channel_exists ?s (deep_id 0)"
    using deep_shape_nth [OF sh, of 0] by (auto simp: channel_exists_def exists_row_def)
  have upd: "update_channel demo_mod (deep_id 0) (move_to (deep_id 51)) ?s = (Inr OK, ?t)"
    using sh no ex
    by (simp add: update_channel_def enforce_move_def require_category_parent_def
        require_permission_def has_permission_def update_channel_row_def needs_update_def move_to_def
        run_defs deep_row [OF sh] deep_shape_nth [OF sh] deep_shape_def)
  have par: "parent_of ?t (deep_id i) = (if i = 0 then Some (deep_id 51) else deep_parent i)" if "i < 52" for i
    using that by (subst parent_of_update)
      (auto simp: apply_channel_update_def move_to_def deep_row [OF sh] deep_parent_of [OF sh])
  have "ups ?t j (deep_id i) = Some (deep_id (i - j))" if "j \<le> i" "i < 52" for i j
    using that by (induction j arbitrary: i) (auto simp: par deep_parent_def)
  from this [of 51 51] par [of 0] have "ups ?t (Suc 51) (deep_id 0) = Some (deep_id 0)"
    by (simp only: ups.simps(2)) simp
  then have "\<not> forest ?t" by (rule cycle_not_forest)
  then show ?thesis unfolding upd by simp
qed

text \<open>
  The depth limit is not the same for a move as for a creation: under one and the same category
  whose children sit at depth \<open>d\<close>, a plain channel can be created when \<open>d\<close> is below the limit, but
  an existing one can be moved there only when \<open>d + 1\<close> is, since \<^verbatim>\<open>update_channel\<close> adds one to a
  depth that already counts the child.
\<close>

theorem move_counts_depth_twice:
  assumes "0 < read_max_depth s" "node_depth s (Some p) = Inr d"
    and "row_at channel_id p (channels s) = Some q" "channel_is_category q \<noteq> 0"
    and "row_at channel_id c (channels s) = Some r" "channel_is_category r = 0"
    and "p \<noteq> c" "\<not> is_ancestor s c p"
  shows "(fst (enforce_create_depth (Some p) False s) = Inr () \<longleftrightarrow> d < read_max_depth s) \<and>
    (fst (enforce_move c p s) = Inr () \<longleftrightarrow> d + 1 < read_max_depth s)"
  using assms
  by (auto simp: enforce_create_depth_def enforce_move_def require_category_parent_def run_simps Let_def)

definition demo_limited :: hub where
  "demo_limited = demo_hub\<lparr>hub_settings := [\<lparr>setting_key = ''max_channel_depth'', setting_value = ''2''\<rparr>],
     channels := [new_channel demo_mod ''c1'' 5 (demo_category ''top'' None) ''text'' 0,
       (new_channel demo_mod ''c2'' 5 (demo_category ''leaf'' None) ''text'' 1)\<lparr>channel_is_category := 0\<rparr>]\<rparr>"

theorem move_counts_depth_twice_witness:
  "fst (enforce_create_depth (Some ''c1'') False demo_limited) = Inr () \<and>
   fst (enforce_move ''c2'' ''c1'' demo_limited) \<noteq> Inr ()"
proof -
  have lim: "read_max_depth demo_limited = 2"
    by (simp add: read_max_depth_def setting_def demo_limited_def row_at_def parse_unsigned_def Let_def)
  have d: "node_depth demo_limited (Some ''c1'') = Inr 1" by code_simp
  have c1: "row_at channel_id ''c1'' (channels demo_limited) = Some (channels demo_limited ! 0)"
    by code_simp
  have c2: "row_at channel_id ''c2'' (channels demo_limited) = Some (channels demo_limited ! 1)"
    by code_simp
  have "channel_is_category (channels demo_limited ! 0) \<noteq> 0" "channel_is_category (channels demo_limited ! 1) = 0"
    "\<not> is_ancestor demo_limited ''c2'' ''c1''"
    by code_simp+
  with move_counts_depth_twice [OF _ d c1 _ c2] lim show ?thesis by simp
qed

text \<open>
  C9. What \<^verbatim>\<open>delete_channel\<close> does for a caller with \<^verbatim>\<open>manage_channels\<close> on a channel without
  children: without webhooks the channel, its messages, bans, settings, alliance shares and posts
  go and every other channel stays; with a webhook the request ends in a foreign-key error, the
  channel stays, and its messages, bans, settings and shares are gone all the same.
\<close>

theorem delete_channel_effect:
  assumes "has_permission (user_permissions user s) MANAGE_CHANNELS" "channel_exists s c"
    and "\<not> exists_row (\<lambda>r. channel_parent r = Some c) (channels s)"
  shows "let hooked = exists_row (\<lambda>w. webhook_channel w = c) (webhooks s);
      result = fst (delete_channel user c s); t = snd (delete_channel user c s) in
    result = (if hooked then Inl (DbError FOREIGN_KEY) else Inr NO_CONTENT) \<and>
    channels t = (if hooked then channels s else delete_where (\<lambda>r. channel_id r = c) (channels s)) \<and>
    posts t = (if hooked then posts s else delete_where (\<lambda>p. post_channel p = c) (posts s)) \<and>
    messages t = delete_where (\<lambda>m. msg_channel m = c) (messages s) \<and>
    channel_bans t = delete_where (\<lambda>b. cb_channel b = c) (channel_bans s) \<and>
    channel_settings t = delete_where (\<lambda>x. cs_channel x = c) (channel_settings s) \<and>
    alliance_shared_channels t = delete_where (\<lambda>x. shared_channel x = c) (alliance_shared_channels s)"
proof -
  have none: "\<not> exists_row P (delete_where P xs)" for P and xs :: "'a list"
    by (auto simp: exists_row_def delete_where_def)
  have "count_rows (\<lambda>r. channel_parent r = Some c) (channels s) = 0"
    "\<not> exists_row (\<lambda>r. channel_parent r = Some c \<and> channel_id r \<noteq> c) (channels s)"
    using assms(3) by (auto simp: count_rows_def exists_row_def filter_empty_conv)
  with assms(1,2) show ?thesis
    by (auto simp: delete_channel_def delete_messages_of_def delete_channel_row_def channel_referenced_def
        spawn_publish_hub_event_def require_permission_def run_simps Let_def none)
qed

definition demo_hooked :: hub where
  "demo_hooked = demo_limited\<lparr>webhooks := [\<lparr>webhook_id = ''w'', webhook_channel = ''c2'',
     webhook_token_hash = [], webhook_display_name = ''hook'', webhook_avatar = None,
     webhook_created_by = demo_mod, webhook_rate_limit = 60, webhook_active = 1, webhook_created = 5\<rparr>]\<rparr>"

theorem delete_channel_effect_witness:
  "fst (delete_channel demo_mod ''c1'' demo_hooked) = Inr NO_CONTENT \<and>
   fst (delete_channel demo_mod ''c2'' demo_hooked) = Inl (DbError FOREIGN_KEY)"
proof -
  have perm: "has_permission (user_permissions demo_mod demo_hooked) MANAGE_CHANNELS" by code_simp
  have "channel_exists demo_hooked ''c1''" "channel_exists demo_hooked ''c2''"
    "\<not> exists_row (\<lambda>r. channel_parent r = Some ''c1'') (channels demo_hooked)"
    "\<not> exists_row (\<lambda>r. channel_parent r = Some ''c2'') (channels demo_hooked)"
    "\<not> exists_row (\<lambda>w. webhook_channel w = ''c1'') (webhooks demo_hooked)"
    "exists_row (\<lambda>w. webhook_channel w = ''c2'') (webhooks demo_hooked)"
    by code_simp+
  with delete_channel_effect [OF perm] show ?thesis by (simp add: Let_def)
qed

end
