(* ===== verification/Identity_Store.thy ===== *)
theory Identity_Store
  imports Permissions
begin

text \<open>
  The home-hub side of an identity, from \<^verbatim>\<open>hub/src/routes/identity.rs\<close> and
  \<^verbatim>\<open>hub/src/routes/dh_keys.rs\<close>: the designation of home hubs, the device registry, revocations,
  the encrypted preferences blob, the set of blocked direct-message senders and the published DH
  keys. Nothing but the signature protects most of these writes, so the theorems are about what
  the store can ever hold: documents signed by their owner, and for the two versioned documents
  never an older one again.

  The interface \<open>versioned_store\<close> is the contract of the designation and of the preferences blob:
  a stored document is only ever replaced by a genuine one of a higher version.
\<close>

subsection \<open>The designation of home hubs\<close>

definition bad_if :: "string \<Rightarrow> string + unit \<Rightarrow> unit hub_handler" where
  "bad_if prefix r = lift (case r of Inl e \<Rightarrow> Inl (Reject BAD_REQUEST (prefix @ e)) | Inr u \<Rightarrow> Inr u)"

definition require_same_master :: "string \<Rightarrow> string \<Rightarrow> unit hub_handler" where
  "require_same_master body_master master =
     check (body_master = master)
       (Reject BAD_REQUEST ''master_pubkey mismatch between URL and body'')"

text \<open>The guard \<^verbatim>\<open>if (body.sequence as i64) <= seq\<close> on a stored version.\<close>

definition require_newer :: "string \<Rightarrow> int option \<Rightarrow> u64 \<Rightarrow> unit hub_handler" where
  "require_newer what current v =
     (case current of None \<Rightarrow> ret ()
      | Some c \<Rightarrow> check (\<not> sint v \<le> c)
          (Reject CONFLICT (what @ '' must exceed current ('' @ show_int c @ '')'')))"

definition designation_doc :: "designation_row \<Rightarrow> home_hub_list" where
  "designation_doc r = \<lparr>hhl_master_pubkey = des_master r, hhl_hubs = des_hubs r,
     hhl_issued_at = word_of_int (des_issued r), hhl_sequence = word_of_int (des_sequence r),
     hhl_signature = des_signature r\<rparr>"

definition get_designation :: "string \<Rightarrow> home_hub_list hub_handler" where
  "get_designation master =
     and_then (gets (\<lambda>s. row_at des_master master (home_hub_designations s))) (\<lambda>row.
     and_then (ok_or row (Reject NOT_FOUND ''No designation'')) (\<lambda>r.
     ret (designation_doc r)))"

definition designation_of :: "home_hub_list \<Rightarrow> int \<Rightarrow> designation_row" where
  "designation_of b now = \<lparr>des_master = hhl_master_pubkey b, des_hubs = hhl_hubs b,
     des_issued = sint (hhl_issued_at b), des_sequence = sint (hhl_sequence b),
     des_signature = hhl_signature b, des_updated = now\<rparr>"

definition set_designation :: "home_hub_list \<Rightarrow> int \<Rightarrow> designation_row \<Rightarrow> designation_row" where
  "set_designation b now q = q\<lparr>des_hubs := hhl_hubs b, des_issued := sint (hhl_issued_at b),
     des_sequence := sint (hhl_sequence b), des_signature := hhl_signature b, des_updated := now\<rparr>"

definition put_designation :: "crypto \<Rightarrow> string \<Rightarrow> home_hub_list \<Rightarrow> int \<Rightarrow> status_code hub_handler" where
  "put_designation K master body now =
     and_then (require_same_master (hhl_master_pubkey body) master) (\<lambda>_.
     and_then (bad_if ''Bad signature: '' (home_hub_list_verify K body)) (\<lambda>_.
     and_then (gets (\<lambda>s. map_option des_sequence (row_at des_master master (home_hub_designations s)))) (\<lambda>current.
     and_then (require_newer ''sequence'' current (hhl_sequence body)) (\<lambda>_.
     and_then (writing (\<lambda>s. upsert (same_key des_master) True (designation_of body now)
         (set_designation body now) (home_hub_designations s))
       (\<lambda>t s. s\<lparr>home_hub_designations := t\<rparr>)) (\<lambda>_.
     ret OK)))))"

subsection \<open>The device registry\<close>

definition device_cert :: "device_row \<Rightarrow> subkey_cert" where
  "device_cert r = \<lparr>sc_master_pubkey = dev_master r, sc_subkey_pubkey = dev_subkey r,
     sc_device_label = dev_label r, sc_issued_at = word_of_int (dev_issued r),
     sc_not_after = map_option word_of_int (dev_not_after r),
     sc_fallback_hubs = dev_fallback r, sc_signature = dev_signature r\<rparr>"

definition list_devices :: "string \<Rightarrow> subkey_cert list hub_handler" where
  "list_devices master =
     gets (\<lambda>s. map device_cert
       (sort_key dev_issued (filter (\<lambda>r. dev_master r = master) (subkey_certs s))))"

definition device_of :: "subkey_cert \<Rightarrow> int \<Rightarrow> device_row" where
  "device_of c now = \<lparr>dev_master = sc_master_pubkey c, dev_subkey = sc_subkey_pubkey c,
     dev_label = sc_device_label c, dev_issued = sint (sc_issued_at c),
     dev_not_after = map_option sint (sc_not_after c), dev_fallback = sc_fallback_hubs c,
     dev_signature = sc_signature c, dev_registered = now\<rparr>"

definition set_device :: "subkey_cert \<Rightarrow> device_row \<Rightarrow> device_row" where
  "set_device c q = q\<lparr>dev_label := sc_device_label c, dev_issued := sint (sc_issued_at c),
     dev_not_after := map_option sint (sc_not_after c), dev_fallback := sc_fallback_hubs c,
     dev_signature := sc_signature c\<rparr>"

definition upsert_device :: "subkey_cert \<Rightarrow> int \<Rightarrow> unit hub_handler" where
  "upsert_device c now =
     writing (\<lambda>s. upsert (same_key (\<lambda>r. (dev_master r, dev_subkey r))) True (device_of c now)
         (set_device c) (subkey_certs s))
       (\<lambda>t s. s\<lparr>subkey_certs := t\<rparr>)"

definition post_device :: "crypto \<Rightarrow> string \<Rightarrow> subkey_cert \<Rightarrow> int \<Rightarrow> status_code hub_handler" where
  "post_device K master cert now =
     and_then (require_same_master (sc_master_pubkey cert) master) (\<lambda>_.
     and_then (bad_if ''Bad signature: '' (subkey_cert_verify K cert)) (\<lambda>_.
     and_then (upsert_device cert now) (\<lambda>_.
     ret OK)))"

subsection \<open>Revocations\<close>

definition revocation_doc :: "revocation_row \<Rightarrow> revocation_entry" where
  "revocation_doc r = \<lparr>re_master_pubkey = rev_master r, re_subkey_pubkey = rev_subkey r,
     re_revoked_at = word_of_int (rev_at r), re_signature = rev_signature r\<rparr>"

definition list_revocations :: "string \<Rightarrow> revocation_entry list hub_handler" where
  "list_revocations master =
     gets (\<lambda>s. map revocation_doc
       (sort_key rev_at (filter (\<lambda>r. rev_master r = master) (subkey_revocations s))))"

definition revocation_of :: "revocation_entry \<Rightarrow> int \<Rightarrow> revocation_row" where
  "revocation_of e now = \<lparr>rev_master = re_master_pubkey e, rev_subkey = re_subkey_pubkey e,
     rev_at = sint (re_revoked_at e), rev_signature = re_signature e, rev_registered = now\<rparr>"

definition post_revocation ::
    "crypto \<Rightarrow> string \<Rightarrow> revocation_entry \<Rightarrow> int \<Rightarrow> status_code hub_handler" where
  "post_revocation K master entry now =
     and_then (require_same_master (re_master_pubkey entry) master) (\<lambda>_.
     and_then (bad_if ''Bad signature: '' (revocation_verify K entry)) (\<lambda>_.
     and_then (writing (\<lambda>s. insert_or_ignore (same_key (\<lambda>r. (rev_master r, rev_subkey r))) True
         (revocation_of entry now) (subkey_revocations s))
       (\<lambda>t s. s\<lparr>subkey_revocations := t\<rparr>)) (\<lambda>_.
     ret OK)))"

subsection \<open>The preferences blob\<close>

definition prefs_doc :: "prefs_row \<Rightarrow> signed_prefs_blob" where
  "prefs_doc r = \<lparr>pb_master_pubkey = prefs_master r, pb_blob_version = word_of_int (prefs_version r),
     pb_ciphertext_hex = prefs_ciphertext r, pb_signature = prefs_signature r\<rparr>"

definition get_prefs :: "string \<Rightarrow> signed_prefs_blob hub_handler" where
  "get_prefs master =
     and_then (gets (\<lambda>s. row_at prefs_master master (prefs_blobs s))) (\<lambda>row.
     and_then (ok_or row (Reject NOT_FOUND ''No prefs blob'')) (\<lambda>r.
     ret (prefs_doc r)))"

definition prefs_of :: "signed_prefs_blob \<Rightarrow> int \<Rightarrow> prefs_row" where
  "prefs_of b now = \<lparr>prefs_master = pb_master_pubkey b, prefs_version = sint (pb_blob_version b),
     prefs_ciphertext = pb_ciphertext_hex b, prefs_signature = pb_signature b,
     prefs_updated = now\<rparr>"

definition set_prefs :: "signed_prefs_blob \<Rightarrow> int \<Rightarrow> prefs_row \<Rightarrow> prefs_row" where
  "set_prefs b now q = q\<lparr>prefs_version := sint (pb_blob_version b), prefs_ciphertext := pb_ciphertext_hex b,
     prefs_signature := pb_signature b, prefs_updated := now\<rparr>"

definition put_prefs :: "crypto \<Rightarrow> string \<Rightarrow> signed_prefs_blob \<Rightarrow> int \<Rightarrow> status_code hub_handler" where
  "put_prefs K master blob now =
     and_then (require_same_master (pb_master_pubkey blob) master) (\<lambda>_.
     and_then (bad_if ''Bad signature: '' (prefs_blob_verify K blob)) (\<lambda>_.
     and_then (gets (\<lambda>s. map_option prefs_version (row_at prefs_master master (prefs_blobs s)))) (\<lambda>current.
     and_then (require_newer ''blob_version'' current (pb_blob_version blob)) (\<lambda>_.
     and_then (writing (\<lambda>s. upsert (same_key prefs_master) True (prefs_of blob now)
         (set_prefs blob now) (prefs_blobs s))
       (\<lambda>t s. s\<lparr>prefs_blobs := t\<rparr>)) (\<lambda>_.
     ret OK)))))"

subsection \<open>Blocked senders\<close>

definition insert_dm_block :: "string \<Rightarrow> string \<Rightarrow> unit hub_handler" where
  "insert_dm_block owner pk =
     writing (\<lambda>s. insert_or_ignore (same_key (\<lambda>b. (blk_owner b, blk_blocked b))) True
         \<lparr>blk_owner = owner, blk_blocked = pk\<rparr> (dm_blocks s))
       (\<lambda>t s. s\<lparr>dm_blocks := t\<rparr>)"

definition put_dm_blocks :: "string \<Rightarrow> string list \<Rightarrow> status_code hub_handler" where
  "put_dm_blocks user pubkeys =
     and_then (modify (\<lambda>s. s\<lparr>dm_blocks := delete_where (\<lambda>b. blk_owner b = user) (dm_blocks s)\<rparr>)) (\<lambda>_.
     and_then (for_each (insert_dm_block user) pubkeys) (\<lambda>_.
     ret OK))"

definition get_dm_blocks :: "string \<Rightarrow> string list hub_handler" where
  "get_dm_blocks user = gets (\<lambda>s. map blk_blocked (filter (\<lambda>b. blk_owner b = user) (dm_blocks s)))"

definition is_dm_blocked :: "hub \<Rightarrow> string \<Rightarrow> string \<Rightarrow> bool" where
  "is_dm_blocked s recipient sender \<longleftrightarrow>
     0 < count_rows (\<lambda>b. blk_owner b = recipient \<and> blk_blocked b = sender) (dm_blocks s)"

subsection \<open>Published DH keys\<close>

definition put_dh_key ::
    "crypto \<Rightarrow> string \<Rightarrow> string \<Rightarrow> string \<Rightarrow> string \<Rightarrow> int \<Rightarrow> status_code hub_handler" where
  "put_dh_key K user pubkey dh_pubkey_hex signature_hex now =
     and_then (check (pubkey = user) (Reject FORBIDDEN ''Can only publish your own DH key'')) (\<lambda>_.
     and_then (bad_if ''Invalid signature: '' (dh_key_verify K \<lparr>dk_pubkey = pubkey,
       dk_dh_pubkey_hex = dh_pubkey_hex, dk_signature_hex = signature_hex, dk_published_at = 0\<rparr>)) (\<lambda>_.
     and_then (writing (\<lambda>s. upsert (same_key dh_key_pubkey) (user_exists s pubkey)
         \<lparr>dh_key_pubkey = pubkey, dh_key_hex = dh_pubkey_hex, dh_key_signature = signature_hex,
          dh_key_published = now\<rparr>
         (\<lambda>q. q\<lparr>dh_key_hex := dh_pubkey_hex, dh_key_signature := signature_hex,
           dh_key_published := now\<rparr>) (dh_keys s))
       (\<lambda>t s. s\<lparr>dh_keys := t\<rparr>)) (\<lambda>_.
     ret OK)))"

definition get_dh_key :: "string \<Rightarrow> (string \<times> string \<times> int) hub_handler" where
  "get_dh_key pubkey =
     and_then (gets (\<lambda>s. row_at dh_key_pubkey pubkey (dh_keys s))) (\<lambda>row.
     case row of
       Some r \<Rightarrow> ret (dh_key_hex r, dh_key_signature r, dh_key_published r)
     | None \<Rightarrow> fail (Reject NOT_FOUND ''No DH key published''))"

subsection \<open>Requests that write, as one type of operations\<close>

datatype identity_op =
    PutDesignation string home_hub_list int
  | PostDevice string subkey_cert int
  | PostRevocation string revocation_entry int
  | PutPrefs string signed_prefs_blob int
  | PutDmBlocks string "string list"
  | PutDhKey string string string string int

fun identity_step :: "crypto \<Rightarrow> hub \<Rightarrow> identity_op \<Rightarrow> hub" where
  "identity_step K s (PutDesignation m b now) = snd (put_designation K m b now s)"
| "identity_step K s (PostDevice m c now) = snd (post_device K m c now s)"
| "identity_step K s (PostRevocation m e now) = snd (post_revocation K m e now s)"
| "identity_step K s (PutPrefs m b now) = snd (put_prefs K m b now s)"
| "identity_step K s (PutDmBlocks u pks) = snd (put_dm_blocks u pks s)"
| "identity_step K s (PutDhKey u pk dh sig now) = snd (put_dh_key K u pk dh sig now s)"

subsection \<open>Versioned documents\<close>

locale versioned_store =
  fixes step :: "'s \<Rightarrow> 'op \<Rightarrow> 's"
    and stored :: "'s \<Rightarrow> string \<Rightarrow> 'r option"
    and version :: "'r \<Rightarrow> int"
    and genuine :: "string \<Rightarrow> 'r \<Rightarrow> bool"
  assumes replaced_by_newer: "stored (step s op) k \<noteq> stored s k \<Longrightarrow>
      \<exists>r. stored (step s op) k = Some r \<and> genuine k r \<and> (\<forall>q. stored s k = Some q \<longrightarrow> version q < version r)"
begin

lemma never_older:
  "stored s k = Some q \<Longrightarrow>
   \<exists>r. stored (run step s ops) k = Some r \<and> (r = q \<or> (version q < version r \<and> genuine k r))"
proof (induction ops arbitrary: s q)
  case (Cons op ops)
  show ?case
  proof (cases "stored (step s op) k = stored s k")
    case True
    with Cons show ?thesis by simp
  next
    case False
    with replaced_by_newer [OF False] Cons.prems obtain r
      where r: "stored (step s op) k = Some r" "genuine k r" "version q < version r" by auto
    with Cons.IH [OF r(1)] show ?thesis by fastforce
  qed
qed simp

lemma always_genuine:
  assumes "\<And>q. stored s k = Some q \<Longrightarrow> genuine k q" "stored (run step s ops) k = Some r"
  shows "genuine k r"
proof -
  have "\<forall>q. stored (run step s ops) k = Some q \<longrightarrow> genuine k q"
  proof (rule run_invariant)
    show "\<forall>q. stored (step t op) k = Some q \<longrightarrow> genuine k q"
      if "\<forall>q. stored t k = Some q \<longrightarrow> genuine k q" for t op
      using that replaced_by_newer [of t op k] by fastforce
  qed (use assms(1) in blast)
  with assms(2) show ?thesis by blast
qed

end

lemma bad_if_ok [ok_iffs]: "bad_if p r s = (Inr u, t) \<longleftrightarrow> r = Inr () \<and> t = s"
  by (auto simp: bad_if_def lift_def split: sum.splits)

lemma preserves_bad_if [keeps]: "preserves P (bad_if p r)"
  unfolding bad_if_def by (intro keeps)

lemma preserves_require_same_master [keeps]: "preserves P (require_same_master a b)"
  unfolding require_same_master_def by (intro keeps)

lemma preserves_require_newer [keeps]: "preserves P (require_newer w c v)"
  unfolding require_newer_def by (intro keeps)

lemma require_newer_ok [ok_iffs]:
  "require_newer w c v s = (Inr u, t) \<longleftrightarrow> (\<forall>x. c = Some x \<longrightarrow> x < sint v) \<and> t = s"
  by (auto simp: require_newer_def ok_iffs not_le split: option.splits)

lemma require_same_master_ok [ok_iffs]:
  "require_same_master a b s = (Inr u, t) \<longleftrightarrow> a = b \<and> t = s"
  by (simp add: require_same_master_def ok_iffs)

text \<open>
  What the two versioned writes do, on every branch: a document is stored when it names the owner
  of the URL, verifies, and its version exceeds the stored one, both read as signed integers.
\<close>

definition newer_than :: "int option \<Rightarrow> u64 \<Rightarrow> bool" where
  "newer_than current v \<longleftrightarrow> (case current of None \<Rightarrow> True | Some c \<Rightarrow> c < sint v)"

definition designation_accepted :: "crypto \<Rightarrow> string \<Rightarrow> home_hub_list \<Rightarrow> hub \<Rightarrow> bool" where
  "designation_accepted K m b s \<longleftrightarrow> hhl_master_pubkey b = m \<and> home_hub_list_verify K b = Inr () \<and>
     newer_than (map_option des_sequence (row_at des_master m (home_hub_designations s))) (hhl_sequence b)"

definition prefs_accepted :: "crypto \<Rightarrow> string \<Rightarrow> signed_prefs_blob \<Rightarrow> hub \<Rightarrow> bool" where
  "prefs_accepted K m b s \<longleftrightarrow> pb_master_pubkey b = m \<and> prefs_blob_verify K b = Inr () \<and>
     newer_than (map_option prefs_version (row_at prefs_master m (prefs_blobs s))) (pb_blob_version b)"

lemmas guard_defs = run_defs writing_def require_same_master_def bad_if_def require_newer_def
  newer_than_def designation_accepted_def prefs_accepted_def not_le

lemma upsert_free_ok: "\<exists>u. upsert conflicts True r f t = Inr u"
  by (simp add: upsert_def)

lemma row_at_overwrite:
  assumes "\<And>q. key q = key r \<Longrightarrow> f q = r" "upsert (same_key key) fk r f t = Inr u"
  shows "row_at key k u = (if k = key r then Some r else row_at key k t)"
  using row_at_upsert [OF _ assms(2), of k] assms(1) by (auto dest!: row_at_key split: option.splits)

lemma set_designation_eq: "des_master q = des_master (designation_of b now) \<Longrightarrow>
    set_designation b now q = designation_of b now"
  by (cases q) (simp add: designation_of_def set_designation_def)

lemma set_prefs_eq: "prefs_master q = prefs_master (prefs_of b now) \<Longrightarrow> set_prefs b now q = prefs_of b now"
  by (cases q) (simp add: prefs_of_def set_prefs_def)

lemma put_designation_effect:
  "fst (put_designation K m b now s) = Inr OK \<longleftrightarrow> designation_accepted K m b s"
  "row_at des_master k (home_hub_designations (snd (put_designation K m b now s))) =
     (if designation_accepted K m b s \<and> k = m
      then Some (designation_of b now) else row_at des_master k (home_hub_designations s))"
proof -
  obtain u where u: "upsert (same_key des_master) True (designation_of b now) (set_designation b now)
      (home_hub_designations s) = Inr u"
    by (rule exE [OF upsert_free_ok])
  show "fst (put_designation K m b now s) = Inr OK \<longleftrightarrow> designation_accepted K m b s"
    by (auto simp: put_designation_def guard_defs u split: sum.splits option.splits)
  have "row_at des_master k u = (if k = hhl_master_pubkey b
      then Some (designation_of b now) else row_at des_master k (home_hub_designations s))"
    using row_at_overwrite [OF set_designation_eq u, of k] by (simp add: designation_of_def)
  then show "row_at des_master k (home_hub_designations (snd (put_designation K m b now s))) =
     (if designation_accepted K m b s \<and> k = m
      then Some (designation_of b now) else row_at des_master k (home_hub_designations s))"
    by (auto simp: put_designation_def guard_defs u split: sum.splits option.splits)
qed

lemma put_prefs_effect:
  "fst (put_prefs K m b now s) = Inr OK \<longleftrightarrow> prefs_accepted K m b s"
  "row_at prefs_master k (prefs_blobs (snd (put_prefs K m b now s))) =
     (if prefs_accepted K m b s \<and> k = m then Some (prefs_of b now) else row_at prefs_master k (prefs_blobs s))"
proof -
  obtain u where u: "upsert (same_key prefs_master) True (prefs_of b now) (set_prefs b now)
      (prefs_blobs s) = Inr u"
    by (rule exE [OF upsert_free_ok])
  show "fst (put_prefs K m b now s) = Inr OK \<longleftrightarrow> prefs_accepted K m b s"
    by (auto simp: put_prefs_def guard_defs u split: sum.splits option.splits)
  have "row_at prefs_master k u = (if k = pb_master_pubkey b
      then Some (prefs_of b now) else row_at prefs_master k (prefs_blobs s))"
    using row_at_overwrite [OF set_prefs_eq u, of k] by (simp add: prefs_of_def)
  then show "row_at prefs_master k (prefs_blobs (snd (put_prefs K m b now s))) =
     (if prefs_accepted K m b s \<and> k = m then Some (prefs_of b now) else row_at prefs_master k (prefs_blobs s))"
    by (auto simp: put_prefs_def guard_defs u split: sum.splits option.splits)
qed

text \<open>Every other request leaves the table alone.\<close>

lemma preserves_put_dm_blocks:
  "(\<And>s t. P s \<Longrightarrow> P (s\<lparr>dm_blocks := t\<rparr>)) \<Longrightarrow> preserves P (put_dm_blocks u pks)"
  unfolding put_dm_blocks_def insert_dm_block_def
  by (intro keeps preserves_modify preserves_writing) auto

lemma designations_elsewhere:
  "home_hub_designations (snd (post_device K m c now s)) = home_hub_designations s"
  "home_hub_designations (snd (post_revocation K m e now s)) = home_hub_designations s"
  "home_hub_designations (snd (put_prefs K m b now s)) = home_hub_designations s"
  "home_hub_designations (snd (put_dm_blocks u pks s)) = home_hub_designations s"
  "home_hub_designations (snd (put_dh_key K u pk dh sig now s)) = home_hub_designations s"
  using preserves_put_dm_blocks [of "\<lambda>t. home_hub_designations t = home_hub_designations s" u pks]
  by (auto simp: post_device_def upsert_device_def post_revocation_def put_prefs_def put_dh_key_def guard_defs
      preserves_def split: sum.splits option.splits)

lemma prefs_elsewhere:
  "prefs_blobs (snd (post_device K m c now s)) = prefs_blobs s"
  "prefs_blobs (snd (post_revocation K m e now s)) = prefs_blobs s"
  "prefs_blobs (snd (put_designation K m h now s)) = prefs_blobs s"
  "prefs_blobs (snd (put_dm_blocks u pks s)) = prefs_blobs s"
  "prefs_blobs (snd (put_dh_key K u pk dh sig now s)) = prefs_blobs s"
  using preserves_put_dm_blocks [of "\<lambda>t. prefs_blobs t = prefs_blobs s" u pks]
  by (auto simp: post_device_def upsert_device_def post_revocation_def put_designation_def put_dh_key_def
      guard_defs preserves_def split: sum.splits option.splits)

lemma designation_doc_of: "designation_doc (designation_of b now) = b"
  by (simp add: designation_doc_def designation_of_def)

lemma prefs_doc_of: "prefs_doc (prefs_of b now) = b"
  by (simp add: prefs_doc_def prefs_of_def)

definition genuine_designation :: "crypto \<Rightarrow> string \<Rightarrow> designation_row \<Rightarrow> bool" where
  "genuine_designation K k r \<longleftrightarrow> des_master r = k \<and>
     home_hub_list_verify K (designation_doc r) = Inr () \<and>
     des_sequence r = sint (hhl_sequence (designation_doc r))"

definition genuine_prefs :: "crypto \<Rightarrow> string \<Rightarrow> prefs_row \<Rightarrow> bool" where
  "genuine_prefs K k r \<longleftrightarrow> prefs_master r = k \<and> prefs_blob_verify K (prefs_doc r) = Inr () \<and>
     prefs_version r = sint (pb_blob_version (prefs_doc r))"

interpretation designations: versioned_store "identity_step K"
  "\<lambda>s k. row_at des_master k (home_hub_designations s)" des_sequence "genuine_designation K" for K
proof unfold_locales
  fix s op k
  assume *: "row_at des_master k (home_hub_designations (identity_step K s op)) \<noteq>
    row_at des_master k (home_hub_designations s)"
  show "\<exists>r. row_at des_master k (home_hub_designations (identity_step K s op)) = Some r \<and>
    genuine_designation K k r \<and>
    (\<forall>q. row_at des_master k (home_hub_designations s) = Some q \<longrightarrow> des_sequence q < des_sequence r)"
  proof (cases op)
    case (PutDesignation m b now)
    with * show ?thesis
      by (auto simp: put_designation_effect designation_accepted_def newer_than_def genuine_designation_def
          designation_doc_of split: if_splits) (auto simp: designation_of_def)
  qed (use * in \<open>auto simp: designations_elsewhere\<close>)
qed

interpretation prefs: versioned_store "identity_step K"
  "\<lambda>s k. row_at prefs_master k (prefs_blobs s)" prefs_version "genuine_prefs K" for K
proof unfold_locales
  fix s op k
  assume *: "row_at prefs_master k (prefs_blobs (identity_step K s op)) \<noteq> row_at prefs_master k (prefs_blobs s)"
  show "\<exists>r. row_at prefs_master k (prefs_blobs (identity_step K s op)) = Some r \<and> genuine_prefs K k r \<and>
    (\<forall>q. row_at prefs_master k (prefs_blobs s) = Some q \<longrightarrow> prefs_version q < prefs_version r)"
  proof (cases op)
    case (PutPrefs m b now)
    with * show ?thesis
      by (auto simp: put_prefs_effect prefs_accepted_def newer_than_def genuine_prefs_def prefs_doc_of
          split: if_splits) (auto simp: prefs_of_def)
  qed (use * in \<open>auto simp: prefs_elsewhere\<close>)
qed

text \<open>Documents signed with the concrete crypto, for the witnesses.\<close>

lemma check_sig_signed:
  assumes "hex_roundtrip K" "signing_correct K" "length (signing_key i) = 32"
  shows "check_sig K (public_key_hex K i) m (hex_encode K (sign K i m)) = Inr ()"
  using sign_verifies [OF assms, of m] assms(1) by (simp add: check_sig_def hex_roundtrip_def)

definition demo_master :: identity where
  "demo_master = \<lparr>signing_key = replicate 32 7, security_nonce = 0, security_level = 0\<rparr>"

definition demo_master_key :: string where
  "demo_master_key = public_key_hex demo_crypto demo_master"

definition demo_signature :: "u8 list \<Rightarrow> string" where
  "demo_signature m = hex_encode demo_crypto (sign demo_crypto demo_master m)"

lemma demo_signature_ok: "check_sig demo_crypto demo_master_key m (demo_signature m) = Inr ()"
  unfolding demo_master_key_def demo_signature_def
  by (intro check_sig_signed demo_hex_roundtrip demo_signing_correct) (simp add: demo_master_def)

definition demo_designation :: "u64 \<Rightarrow> home_hub_list" where
  "demo_designation n = \<lparr>hhl_master_pubkey = demo_master_key, hhl_hubs = [''https://hub''],
     hhl_issued_at = 5, hhl_sequence = n, hhl_signature = demo_signature
       (home_hub_list_signing_bytes demo_master_key [''https://hub''] 5 n)\<rparr>"

definition demo_prefs :: "u64 \<Rightarrow> signed_prefs_blob" where
  "demo_prefs n = \<lparr>pb_master_pubkey = demo_master_key, pb_blob_version = n, pb_ciphertext_hex = ''ab'',
     pb_signature = demo_signature (prefs_blob_signing_bytes demo_crypto demo_master_key n (as_bytes ''ab''))\<rparr>"

lemma demo_designation_verifies: "home_hub_list_verify demo_crypto (demo_designation n) = Inr ()"
  by (simp add: home_hub_list_verify_def demo_designation_def demo_signature_ok)

lemma demo_prefs_verifies: "prefs_blob_verify demo_crypto (demo_prefs n) = Inr ()"
  by (simp add: prefs_blob_verify_def demo_prefs_def demo_signature_ok del: as_bytes_Cons)

lemma demo_designation_put:
  "fst (put_designation demo_crypto demo_master_key (demo_designation n) now initial) = Inr OK"
  by (simp add: put_designation_effect designation_accepted_def demo_designation_verifies newer_than_def
      initial_def row_at_def) (simp add: demo_designation_def)

lemma demo_prefs_put:
  "fst (put_prefs demo_crypto demo_master_key (demo_prefs n) now initial) = Inr OK"
  by (simp add: put_prefs_effect prefs_accepted_def demo_prefs_verifies newer_than_def
      initial_def row_at_def) (simp add: demo_prefs_def)

text \<open>
  No rollback of the designation: once \<^verbatim>\<open>put_designation\<close> has accepted a list, whatever
  identity requests follow, \<^verbatim>\<open>get_designation\<close> returns that list or one of a higher sequence number
  that its master signed.
\<close>

theorem designation_never_rolls_back:
  assumes "put_designation K k d now s = (Inr OK, t)"
  shows "\<exists>d'. fst (get_designation k (run (identity_step K) t ops)) = Inr d' \<and>
    (d' = d \<or> (sint (hhl_sequence d) < sint (hhl_sequence d') \<and> hhl_master_pubkey d' = k \<and>
               home_hub_list_verify K d' = Inr ()))"
proof -
  have acc: "designation_accepted K k d s" using assms put_designation_effect(1) [of K k d now s] by simp
  then have "row_at des_master k (home_hub_designations t) = Some (designation_of d now)"
    using assms put_designation_effect(2) [of k K k d now s] by simp
  from designations.never_older [OF this, of K ops] obtain r where
    r: "row_at des_master k (home_hub_designations (run (identity_step K) t ops)) = Some r"
      "r = designation_of d now \<or>
       (des_sequence (designation_of d now) < des_sequence r \<and> genuine_designation K k r)" by blast
  then have "fst (get_designation k (run (identity_step K) t ops)) = Inr (designation_doc r)"
    by (simp add: get_designation_def run_defs)
  moreover have "hhl_master_pubkey (designation_doc r) = des_master r" by (simp add: designation_doc_def)
  moreover have "des_sequence (designation_of d now) = sint (hhl_sequence d)" by (simp add: designation_of_def)
  ultimately show ?thesis
    using r(2) unfolding genuine_designation_def by (metis designation_doc_of)
qed

theorem designation_never_rolls_back_witness:
  "\<exists>d'. fst (get_designation demo_master_key (run (identity_step demo_crypto)
      (snd (put_designation demo_crypto demo_master_key (demo_designation 1) 5 initial))
      [PutDesignation demo_master_key (demo_designation 2) 6])) = Inr d' \<and>
    (d' = demo_designation 1 \<or> (sint (hhl_sequence (demo_designation 1)) < sint (hhl_sequence d') \<and>
      hhl_master_pubkey d' = demo_master_key \<and> home_hub_list_verify demo_crypto d' = Inr ()))"
  by (rule designation_never_rolls_back [where now = 5 and s = initial, OF prod_eqI])
    (simp_all add: demo_designation_put)

text \<open>
  No rollback of the preferences blob, in the same sense.
\<close>

theorem prefs_never_roll_back:
  assumes "put_prefs K k b now s = (Inr OK, t)"
  shows "\<exists>b'. fst (get_prefs k (run (identity_step K) t ops)) = Inr b' \<and>
    (b' = b \<or> (sint (pb_blob_version b) < sint (pb_blob_version b') \<and> pb_master_pubkey b' = k \<and>
               prefs_blob_verify K b' = Inr ()))"
proof -
  have acc: "prefs_accepted K k b s" using assms put_prefs_effect(1) [of K k b now s] by simp
  then have "row_at prefs_master k (prefs_blobs t) = Some (prefs_of b now)"
    using assms put_prefs_effect(2) [of k K k b now s] by simp
  from prefs.never_older [OF this, of K ops] obtain r where
    r: "row_at prefs_master k (prefs_blobs (run (identity_step K) t ops)) = Some r"
      "r = prefs_of b now \<or> (prefs_version (prefs_of b now) < prefs_version r \<and> genuine_prefs K k r)" by blast
  then have "fst (get_prefs k (run (identity_step K) t ops)) = Inr (prefs_doc r)"
    by (simp add: get_prefs_def run_defs)
  moreover have "pb_master_pubkey (prefs_doc r) = prefs_master r" by (simp add: prefs_doc_def)
  moreover have "prefs_version (prefs_of b now) = sint (pb_blob_version b)" by (simp add: prefs_of_def)
  ultimately show ?thesis
    using r(2) unfolding genuine_prefs_def by (metis prefs_doc_of)
qed

theorem prefs_never_roll_back_witness:
  "\<exists>b'. fst (get_prefs demo_master_key (run (identity_step demo_crypto)
      (snd (put_prefs demo_crypto demo_master_key (demo_prefs 1) 5 initial))
      [PutPrefs demo_master_key (demo_prefs 2) 6])) = Inr b' \<and>
    (b' = demo_prefs 1 \<or> (sint (pb_blob_version (demo_prefs 1)) < sint (pb_blob_version b') \<and>
      pb_master_pubkey b' = demo_master_key \<and> prefs_blob_verify demo_crypto b' = Inr ()))"
  by (rule prefs_never_roll_back [where now = 5 and s = initial, OF prod_eqI])
    (simp_all add: demo_prefs_put)

text \<open>
  Sequence numbers are \<^verbatim>\<open>u64\<close> on the wire and compared as \<^verbatim>\<open>i64\<close>: a designation with the
  largest signed number is final, although half of the unsigned numbers are above it.
\<close>

theorem top_sequence_is_final:
  assumes "put_designation K k d now s = (Inr OK, t)" "hhl_sequence d = 0x7FFFFFFFFFFFFFFF"
  shows "fst (get_designation k (run (identity_step K) t ops)) = Inr d"
proof -
  have "designation_accepted K k d s" using assms(1) put_designation_effect(1) [of K k d now s] by simp
  then have row: "row_at des_master k (home_hub_designations t) = Some (designation_of d now)"
    using assms(1) put_designation_effect(2) [of k K k d now s] by simp
  have top: "des_sequence (designation_of d now) = 2 ^ 63 - 1" by (simp add: designation_of_def assms(2))
  have "\<not> 2 ^ 63 - 1 < sint w" for w :: u64 using sint_lt [of w] by simp
  with designations.never_older [OF row, of K ops] top
  have "row_at des_master k (home_hub_designations (run (identity_step K) t ops)) = Some (designation_of d now)"
    unfolding genuine_designation_def by auto
  then show ?thesis by (simp add: get_designation_def run_defs designation_doc_of)
qed

theorem top_sequence_is_final_witness:
  "fst (get_designation demo_master_key (run (identity_step demo_crypto)
      (snd (put_designation demo_crypto demo_master_key (demo_designation 0x7FFFFFFFFFFFFFFF) 5 initial))
      [PutDesignation demo_master_key (demo_designation 0x8000000000000000) 6])) =
   Inr (demo_designation 0x7FFFFFFFFFFFFFFF)"
proof (rule top_sequence_is_final)
  show "put_designation demo_crypto demo_master_key (demo_designation 0x7FFFFFFFFFFFFFFF) 5 initial =
    (Inr OK, snd (put_designation demo_crypto demo_master_key (demo_designation 0x7FFFFFFFFFFFFFFF) 5 initial))"
    by (rule surjective_pairing [THEN trans], simp only: demo_designation_put)
qed (simp add: demo_designation_def)

subsection \<open>Revocations and blocked senders\<close>

text \<open>
  \<^verbatim>\<open>put_dm_blocks\<close> always succeeds, replaces the caller's block set by exactly the given keys and
  touches nobody else's.
\<close>

theorem put_dm_blocks_replaces:
  "fst (put_dm_blocks u pks s) = Inr OK \<and>
   is_dm_blocked (snd (put_dm_blocks u pks s)) r x = (if r = u then x \<in> set pks else is_dm_blocked s r x)"
proof -
  let ?blocked = "\<lambda>t r x. \<exists>b \<in> set (dm_blocks t). blk_owner b = r \<and> blk_blocked b = x"
  have "wp (for_each (insert_dm_block u) pks)
      (\<lambda>_ t'. \<forall>r x. ?blocked t' r x = (?blocked t r x \<or> r = u \<and> x \<in> set pks)) (\<lambda>_ _. False) t" for t
  proof (induction pks arbitrary: t)
    case (Cons pk pks)
    have ins: "wp (insert_dm_block u pk) (\<lambda>_ t'. \<forall>r x. ?blocked t' r x = (?blocked t r x \<or> r = u \<and> x = pk))
        (\<lambda>_ _. False) t"
      by (auto simp: insert_dm_block_def wps insert_or_ignore_def exists_row_iff same_key_def)
    show ?case unfolding for_each.simps wp_and_then
    proof (rule wp_mono [OF ins])
      fix y and t' :: hub
      assume step: "\<forall>r x. ?blocked t' r x = (?blocked t r x \<or> r = u \<and> x = pk)"
      show "wp (for_each (insert_dm_block u) pks)
          (\<lambda>_ t'. \<forall>r x. ?blocked t' r x = (?blocked t r x \<or> r = u \<and> x \<in> set (pk # pks))) (\<lambda>_ _. False) t'"
        by (rule wp_mono [OF Cons.IH]) (use step in auto)
    qed
  qed (simp add: wps)
  then have "wp (put_dm_blocks u pks) (\<lambda>c t'. c = OK \<and>
      (\<forall>r x. ?blocked t' r x = (if r = u then x \<in> set pks else ?blocked s r x))) (\<lambda>_ _. False) s"
    unfolding put_dm_blocks_def wps
    by (rule wp_mono) (auto simp: rows)
  then show ?thesis
    by (auto simp: wp_def is_dm_blocked_def count_rows_pos_iff split: prod.splits sum.splits)
qed

end
