(* ===== verification/Pairing.thy ===== *)
theory Pairing
  imports Identity_Store
begin

text \<open>
  Pairing a new device, from \<^verbatim>\<open>hub/src/routes/pairing.rs\<close>. An offer signed by the master key is
  posted under a token, claimed by a device that proves possession of its subkey, and completed
  with a certificate; all four endpoints are unauthenticated, so the row of a token is a small
  state machine that only signatures and the expiry protect.

  A handler reads the clock several times; \<open>clk i\<close> is its \<open>i\<close>-th reading. The abstract
  specification is the inductive relation \<open>pairing_spec\<close> on the phase of a token, and every request
  is shown to refine it.
\<close>

subsection \<open>The endpoints\<close>

definition MAX_OFFER_LIFETIME_SECS :: u64 where
  "MAX_OFFER_LIFETIME_SECS = 300"

text \<open>\<^verbatim>\<open>u64::saturating_sub\<close>\<close>

definition saturating_sub :: "u64 \<Rightarrow> u64 \<Rightarrow> u64" where
  "saturating_sub a b = (if a < b then 0 else a - b)"

definition prune_expired :: "int \<Rightarrow> unit hub_handler" where
  "prune_expired now =
     modify (\<lambda>s. s\<lparr>pairing_offers := delete_where (\<lambda>r. offer_expires r < now) (pairing_offers s)\<rparr>)"

definition offer_of :: "pairing_offer \<Rightarrow> int \<Rightarrow> int \<Rightarrow> offer_row" where
  "offer_of x created updated = \<lparr>offer_token = po_pairing_token x, offer_master = po_master_pubkey x,
     offer_home_hubs = po_home_hubs x, offer_issued = sint (po_issued_at x),
     offer_expires = sint (po_expires_at x), offer_signature = po_signature x,
     offer_state = ''pending'', offer_subkey = None, offer_label = None, offer_proof = None,
     offer_cert = None, offer_wrapped = None, offer_created = created, offer_updated = updated\<rparr>"

definition insert_offer :: "offer_row \<Rightarrow> unit hub_handler" where
  "insert_offer r =
     writing (\<lambda>s. insert_or_ignore (same_key offer_token) True r (pairing_offers s))
       (\<lambda>t s. s\<lparr>pairing_offers := t\<rparr>)"

definition post_offer :: "crypto \<Rightarrow> (nat \<Rightarrow> int) \<Rightarrow> pairing_offer \<Rightarrow> status_code hub_handler" where
  "post_offer K clk offer =
     and_then (bad_if ''Bad signature: '' (pairing_offer_verify K offer)) (\<lambda>_.
     and_then (check (\<not> po_expires_at offer \<le> po_issued_at offer)
       (Reject BAD_REQUEST ''expires_at must exceed issued_at'')) (\<lambda>_.
     and_then (check (\<not> MAX_OFFER_LIFETIME_SECS < saturating_sub (po_expires_at offer) (po_issued_at offer))
       (Reject BAD_REQUEST ''offer lifetime exceeds 5 minutes'')) (\<lambda>_.
     and_then (check (\<not> po_expires_at offer \<le> word_of_int (clk 0))
       (Reject BAD_REQUEST ''offer is already expired'')) (\<lambda>_.
     and_then (check (\<not> length (po_pairing_token offer) < 32)
       (Reject BAD_REQUEST ''pairing_token too short'')) (\<lambda>_.
     and_then (prune_expired (clk 1)) (\<lambda>_.
     and_then (insert_offer (offer_of offer (clk 2) (clk 3))) (\<lambda>_.
     ret OK)))))))"

definition update_offer :: "string \<Rightarrow> string \<Rightarrow> (offer_row \<Rightarrow> offer_row) \<Rightarrow> unit hub_handler" where
  "update_offer token state f =
     modify (\<lambda>s. s\<lparr>pairing_offers :=
       update_where (\<lambda>r. offer_token r = token \<and> offer_state r = state) f (pairing_offers s)\<rparr>)"

definition set_claimed :: "pairing_claim \<Rightarrow> int \<Rightarrow> offer_row \<Rightarrow> offer_row" where
  "set_claimed claim now r = r\<lparr>offer_state := ''claimed'', offer_subkey := Some (pc_subkey_pubkey claim),
     offer_label := Some (pc_device_label claim), offer_proof := Some (pc_proof claim),
     offer_updated := now\<rparr>"

definition fetch_offer :: "string \<Rightarrow> offer_row hub_handler" where
  "fetch_offer token =
     and_then (gets (\<lambda>s. row_at offer_token token (pairing_offers s))) (\<lambda>row.
     ok_or row (Reject NOT_FOUND ''Unknown or expired token''))"

definition post_claim :: "crypto \<Rightarrow> (nat \<Rightarrow> int) \<Rightarrow> pairing_claim \<Rightarrow> status_code hub_handler" where
  "post_claim K clk claim =
     and_then (bad_if ''Bad proof: '' (pairing_claim_verify K claim)) (\<lambda>_.
     and_then (prune_expired (clk 0)) (\<lambda>_.
     and_then (fetch_offer (pc_pairing_token claim)) (\<lambda>row.
     and_then (check (\<not> offer_expires row < clk 1) (Reject GONE ''Token expired'')) (\<lambda>_.
     and_then (check (offer_state row = ''pending'') (Reject CONFLICT
       (''Offer already in state '' @ [CHR 0x27] @ offer_state row @ [CHR 0x27]))) (\<lambda>_.
     and_then (update_offer (pc_pairing_token claim) ''pending'' (set_claimed claim (clk 2))) (\<lambda>_.
     ret OK))))))"

definition set_complete :: "pairing_complete \<Rightarrow> int \<Rightarrow> offer_row \<Rightarrow> offer_row" where
  "set_complete d now r = r\<lparr>offer_state := ''complete'', offer_cert := Some (pd_cert d),
     offer_wrapped := Some (pd_wrapped_blob_key_hex d), offer_updated := now\<rparr>"

text \<open>The last two statements run in one transaction; neither can fail on a constraint.\<close>

definition post_complete :: "crypto \<Rightarrow> (nat \<Rightarrow> int) \<Rightarrow> pairing_complete \<Rightarrow> status_code hub_handler" where
  "post_complete K clk complete =
     and_then (bad_if ''Bad cert signature: '' (subkey_cert_verify K (pd_cert complete))) (\<lambda>_.
     and_then (prune_expired (clk 0)) (\<lambda>_.
     and_then (fetch_offer (pd_pairing_token complete)) (\<lambda>row.
     and_then (check (\<not> offer_expires row < clk 1) (Reject GONE ''Token expired'')) (\<lambda>_.
     and_then (check (offer_state row = ''claimed'') (Reject CONFLICT
       (''Offer not in '' @ [CHR 0x27] @ ''claimed'' @ [CHR 0x27] @ '' state (current: '' @
        [CHR 0x27] @ offer_state row @ [CHR 0x27] @ '')''))) (\<lambda>_.
     and_then (check (sc_master_pubkey (pd_cert complete) = offer_master row)
       (Reject BAD_REQUEST (''cert master_pubkey doesn'' @ [CHR 0x27] @ ''t match offer''))) (\<lambda>_.
     and_then (check (Some (sc_subkey_pubkey (pd_cert complete)) = offer_subkey row)
       (Reject BAD_REQUEST (''cert subkey_pubkey doesn'' @ [CHR 0x27] @ ''t match claim''))) (\<lambda>_.
     and_then (upsert_device (pd_cert complete) (clk 2)) (\<lambda>_.
     and_then (update_offer (pd_pairing_token complete) ''claimed'' (set_complete complete (clk 3))) (\<lambda>_.
     ret OK)))))))))"

text \<open>Reading a NULL column into a \<^verbatim>\<open>String\<close> panics.\<close>

definition get_status :: "int \<Rightarrow> string \<Rightarrow> pairing_status hub_handler" where
  "get_status now token =
     and_then (gets (\<lambda>s. row_at offer_token token (pairing_offers s))) (\<lambda>row.
     and_then (ok_or row (Reject NOT_FOUND ''Unknown token'')) (\<lambda>r.
     if offer_expires r < now then ret Expired
     else if offer_state r = ''pending'' then ret Pending
     else if offer_state r = ''claimed'' then
       and_then (ok_or (offer_subkey r) Panic) (\<lambda>subkey_pubkey.
       and_then (ok_or (offer_label r) Panic) (\<lambda>device_label.
       ret (Claimed subkey_pubkey device_label)))
     else if offer_state r = ''complete'' then
       and_then (ok_or (offer_cert r) Panic) (\<lambda>cert.
       and_then (ok_or (offer_wrapped r) Panic) (\<lambda>wrapped_blob_key_hex.
       ret (Complete cert wrapped_blob_key_hex)))
     else fail (Reject INTERNAL_SERVER_ERROR (''DB error: unknown state: '' @ offer_state r))))"

datatype pairing_op =
    PostOffer "nat \<Rightarrow> int" pairing_offer
  | PostClaim "nat \<Rightarrow> int" pairing_claim
  | PostComplete "nat \<Rightarrow> int" pairing_complete

fun pairing_step :: "crypto \<Rightarrow> hub \<Rightarrow> pairing_op \<Rightarrow> hub" where
  "pairing_step K s (PostOffer clk x) = snd (post_offer K clk x s)"
| "pairing_step K s (PostClaim clk x) = snd (post_claim K clk x s)"
| "pairing_step K s (PostComplete clk x) = snd (post_complete K clk x s)"

subsection \<open>The abstract machine\<close>

datatype phase =
    Absent
  | Offered string
  | ClaimedBy string string
  | Completed string string subkey_cert

inductive pairing_spec :: "crypto \<Rightarrow> string \<Rightarrow> phase \<Rightarrow> phase \<Rightarrow> bool" for K token where
  offered: "pairing_offer_verify K x = Inr () \<Longrightarrow> po_pairing_token x = token \<Longrightarrow>
    pairing_spec K token Absent (Offered (po_master_pubkey x))"
| claimed: "pairing_claim_verify K c = Inr () \<Longrightarrow> pc_pairing_token c = token \<Longrightarrow>
    pairing_spec K token (Offered m) (ClaimedBy m (pc_subkey_pubkey c))"
| completed: "subkey_cert_verify K c = Inr () \<Longrightarrow> sc_master_pubkey c = m \<Longrightarrow> sc_subkey_pubkey c = k \<Longrightarrow>
    pairing_spec K token (ClaimedBy m k) (Completed m k c)"
| expired: "pairing_spec K token p Absent"

definition phase_of :: "offer_row \<Rightarrow> phase" where
  "phase_of r =
     (case offer_subkey r of None \<Rightarrow> Offered (offer_master r)
      | Some k \<Rightarrow> (case offer_cert r of None \<Rightarrow> ClaimedBy (offer_master r) k
                 | Some c \<Rightarrow> Completed (offer_master r) k c))"

definition phase :: "string \<Rightarrow> hub \<Rightarrow> phase" where
  "phase token s =
     (case row_at offer_token token (pairing_offers s) of None \<Rightarrow> Absent | Some r \<Rightarrow> phase_of r)"

text \<open>The invariant of a row: its columns agree with its state, and every step was signed.\<close>

definition offer_doc :: "offer_row \<Rightarrow> pairing_offer" where
  "offer_doc r = \<lparr>po_master_pubkey = offer_master r, po_home_hubs = offer_home_hubs r,
     po_pairing_token = offer_token r, po_issued_at = word_of_int (offer_issued r),
     po_expires_at = word_of_int (offer_expires r), po_signature = offer_signature r\<rparr>"

definition claim_ok :: "crypto \<Rightarrow> offer_row \<Rightarrow> bool" where
  "claim_ok K r \<longleftrightarrow> (case (offer_subkey r, offer_label r, offer_proof r) of
       (Some k, Some l, Some p) \<Rightarrow> pairing_claim_verify K \<lparr>pc_pairing_token = offer_token r,
          pc_subkey_pubkey = k, pc_device_label = l, pc_proof = p\<rparr> = Inr ()
     | _ \<Rightarrow> False)"

definition cert_ok :: "crypto \<Rightarrow> offer_row \<Rightarrow> bool" where
  "cert_ok K r \<longleftrightarrow> (case (offer_cert r, offer_wrapped r) of
       (Some c, Some w) \<Rightarrow> subkey_cert_verify K c = Inr () \<and> sc_master_pubkey c = offer_master r \<and>
          offer_subkey r = Some (sc_subkey_pubkey c)
     | _ \<Rightarrow> False)"

definition offer_ok :: "crypto \<Rightarrow> offer_row \<Rightarrow> bool" where
  "offer_ok K r \<longleftrightarrow> pairing_offer_verify K (offer_doc r) = Inr () \<and>
     (if offer_state r = ''pending'' then offer_subkey r = None \<and> offer_cert r = None
      else if offer_state r = ''claimed'' then claim_ok K r \<and> offer_cert r = None
      else offer_state r = ''complete'' \<and> claim_ok K r \<and> cert_ok K r)"

definition offers_ok :: "crypto \<Rightarrow> hub \<Rightarrow> bool" where
  "offers_ok K s \<longleftrightarrow> keyed offer_token (pairing_offers s) \<and> (\<forall>r \<in> set (pairing_offers s). offer_ok K r)"

subsection \<open>Refinement\<close>

definition reaches :: "crypto \<Rightarrow> hub \<Rightarrow> hub \<Rightarrow> bool" where
  "reaches K s t \<longleftrightarrow> offers_ok K t \<and> (\<forall>token. (pairing_spec K token)\<^sup>*\<^sup>* (phase token s) (phase token t))"

lemma reaches_refl: "offers_ok K s \<Longrightarrow> reaches K s s"
  by (simp add: reaches_def)

lemma reaches_step:
  assumes "reaches K s t" "offers_ok K t \<Longrightarrow> offers_ok K u"
    and "\<And>token. offers_ok K t \<Longrightarrow> phase token u = phase token t \<or> pairing_spec K token (phase token t) (phase token u)"
  shows "reaches K s u"
  using assms unfolding reaches_def by (metis rtranclp.simps)

lemma offers_ok_row: "offers_ok K s \<Longrightarrow> row_at offer_token k (pairing_offers s) = Some r \<Longrightarrow> offer_ok K r"
  by (auto simp: offers_ok_def dest: row_at_key)

lemma row_at_delete_where:
  assumes "keyed key t"
  shows "row_at key k (delete_where P t) =
    (case row_at key k t of None \<Rightarrow> None | Some r \<Rightarrow> if P r then None else Some r)"
  using assms
proof (induction t)
  case (Cons r t)
  then have "key r \<notin> key ` set t" by (simp add: keyed_def)
  then have "key r = k \<Longrightarrow> row_at key k t = None" by (auto simp: row_at_None_iff rev_image_eqI)
  with Cons show ?case by (auto simp: row_at_def delete_where_def keyed_def split: option.splits)
qed (simp add: row_at_def delete_where_def)

lemma row_at_update_state:
  assumes "\<And>r. offer_token (f r) = offer_token r"
  shows "row_at offer_token k (update_where (\<lambda>r. offer_token r = t \<and> offer_state r = st) f rs) =
    (if k = t then map_option (\<lambda>r. if offer_state r = st then f r else r) (row_at offer_token k rs)
     else row_at offer_token k rs)"
  by (induction rs) (auto simp: row_at_def update_where_def assms)

lemma prune_reaches:
  assumes "reaches K s t"
  shows "reaches K s (t\<lparr>pairing_offers := delete_where (\<lambda>r. offer_expires r < now) (pairing_offers t)\<rparr>)"
proof (rule reaches_step [OF assms])
  show "phase token (t\<lparr>pairing_offers := delete_where (\<lambda>r. offer_expires r < now) (pairing_offers t)\<rparr>) = phase token t \<or>
    pairing_spec K token (phase token t)
      (phase token (t\<lparr>pairing_offers := delete_where (\<lambda>r. offer_expires r < now) (pairing_offers t)\<rparr>))"
    if "offers_ok K t" for token
    using that row_at_delete_where [of offer_token "pairing_offers t" token]
    by (auto simp: phase_def offers_ok_def intro: expired split: option.splits)
qed (auto simp: offers_ok_def keyed_delete_where rows)

lemma insert_reaches:
  assumes "reaches K s t" "pairing_offer_verify K x = Inr ()"
    and "insert_or_ignore (same_key offer_token) True (offer_of x c u) (pairing_offers t) = Inr rs"
  shows "reaches K s (t\<lparr>pairing_offers := rs\<rparr>)"
proof (rule reaches_step [OF assms(1)])
  have tok: "offer_token (offer_of x c u) = po_pairing_token x" by (simp add: offer_of_def)
  have doc: "offer_doc (offer_of x c u) = x" by (simp add: offer_doc_def offer_of_def)
  have ok: "offer_ok K (offer_of x c u)"
    unfolding offer_ok_def doc using assms(2) by (simp add: offer_of_def)
  show "phase token (t\<lparr>pairing_offers := rs\<rparr>) = phase token t \<or>
      pairing_spec K token (phase token t) (phase token (t\<lparr>pairing_offers := rs\<rparr>))" for token
    using row_at_insert_or_ignore [OF assms(3), of token] assms(2) tok
    by (auto simp: phase_def phase_of_def offer_of_def intro: offered split: option.splits)
  show "offers_ok K (t\<lparr>pairing_offers := rs\<rparr>)" if "offers_ok K t"
    using that assms(3) ok
    by (auto simp: offers_ok_def insert_or_ignore_ok keyed_snoc exists_row_iff same_key_def split: if_splits)
qed

lemma update_offers_ok:
  assumes "offers_ok K t" "\<And>r. offer_token (f r) = offer_token r"
    and "\<And>r. offer_ok K r \<Longrightarrow> offer_token r = token \<Longrightarrow> offer_state r = st \<Longrightarrow>
      row_at offer_token token (pairing_offers t) = Some r \<Longrightarrow> offer_ok K (f r)"
  shows "offers_ok K (t\<lparr>pairing_offers :=
    update_where (\<lambda>r. offer_token r = token \<and> offer_state r = st) f (pairing_offers t)\<rparr>)"
  using assms row_at_keyed [of offer_token "pairing_offers t"]
  by (auto simp: offers_ok_def rows intro!: keyed_update_where)

lemma claim_reaches:
  assumes "reaches K s t" "pairing_claim_verify K c = Inr ()"
  shows "reaches K s (t\<lparr>pairing_offers := update_where
    (\<lambda>r. offer_token r = pc_pairing_token c \<and> offer_state r = ''pending'') (set_claimed c now) (pairing_offers t)\<rparr>)"
    (is "reaches K s ?u")
proof (rule reaches_step [OF assms(1)])
  assume ok: "offers_ok K t"
  have same: "\<lparr>pc_pairing_token = pc_pairing_token c, pc_subkey_pubkey = pc_subkey_pubkey c,
    pc_device_label = pc_device_label c, pc_proof = pc_proof c\<rparr> = c" by (cases c) simp
  show "offers_ok K ?u"
    by (rule update_offers_ok [OF ok])
      (use assms(2) in \<open>auto simp: set_claimed_def offer_ok_def offer_doc_def claim_ok_def same\<close>)
  have keeps: "offer_token (set_claimed c now r) = offer_token r" for r by (simp add: set_claimed_def)
  show "phase token ?u = phase token t \<or> pairing_spec K token (phase token t) (phase token ?u)" for token
  proof (cases "token = pc_pairing_token c")
    case True
    with offers_ok_row [OF ok, of token] assms(2) show ?thesis
      by (auto simp: phase_def row_at_update_state keeps offer_ok_def split: option.splits)
        (auto simp: phase_of_def set_claimed_def intro: claimed)
  qed (simp add: phase_def row_at_update_state keeps)
qed

lemma complete_reaches:
  assumes "reaches K s t" "subkey_cert_verify K (pd_cert d) = Inr ()"
    and "row_at offer_token (pd_pairing_token d) (pairing_offers t) = Some r"
    and "sc_master_pubkey (pd_cert d) = offer_master r" "Some (sc_subkey_pubkey (pd_cert d)) = offer_subkey r"
  shows "reaches K s (t\<lparr>subkey_certs := cs, pairing_offers := update_where
    (\<lambda>r. offer_token r = pd_pairing_token d \<and> offer_state r = ''claimed'') (set_complete d now) (pairing_offers t)\<rparr>)"
    (is "reaches K s ?u")
proof (rule reaches_step [OF assms(1)])
  let ?v = "t\<lparr>pairing_offers := update_where
    (\<lambda>r. offer_token r = pd_pairing_token d \<and> offer_state r = ''claimed'') (set_complete d now) (pairing_offers t)\<rparr>"
  assume ok: "offers_ok K t"
  have "claim_ok K (set_complete d now q) = claim_ok K q" for q
    by (auto simp: claim_ok_def set_complete_def split: option.splits)
  then have "offers_ok K ?v"
    by (intro update_offers_ok [OF ok])
      (use assms(2-) in \<open>auto simp: offer_ok_def set_complete_def offer_doc_def cert_ok_def\<close>)
  then show "offers_ok K ?u" by (simp add: offers_ok_def)
  have keeps: "offer_token (set_complete d now r) = offer_token r" for r by (simp add: set_complete_def)
  show "phase token ?u = phase token t \<or> pairing_spec K token (phase token t) (phase token ?u)" for token
  proof (cases "token = pd_pairing_token d")
    case True
    with offers_ok_row [OF ok, of token] assms(2-) show ?thesis
      by (auto simp: phase_def row_at_update_state keeps offer_ok_def split: option.splits)
        (auto simp: phase_of_def set_complete_def intro: completed split: option.splits)
  qed (simp add: phase_def row_at_update_state keeps)
qed

lemma wp_bad_if [wps]:
  "wp (bad_if p r) Q E s = (case r of Inl e \<Rightarrow> E (Reject BAD_REQUEST (p @ e)) s | Inr u \<Rightarrow> Q u s)"
  by (auto simp: bad_if_def wps split: sum.splits)

lemma pairing_step_reaches:
  assumes "offers_ok K s"
  shows "reaches K s (pairing_step K s op)"
proof (cases op)
  case (PostOffer clk x)
  have "wp (post_offer K clk x) (\<lambda>_. reaches K s) (\<lambda>_. reaches K s) s"
    unfolding post_offer_def insert_offer_def prune_expired_def wps
    using reaches_refl [OF assms] prune_reaches [OF reaches_refl [OF assms], of "clk 1"]
      insert_reaches [OF prune_reaches [OF reaches_refl [OF assms], of "clk 1"], of x "clk 2" "clk 3"]
    by (auto split: sum.splits)
  then show ?thesis using PostOffer by (simp add: wp_always)
next
  case (PostClaim clk c)
  have "wp (post_claim K clk c) (\<lambda>_. reaches K s) (\<lambda>_. reaches K s) s"
    unfolding post_claim_def fetch_offer_def update_offer_def prune_expired_def wps
    using reaches_refl [OF assms] prune_reaches [OF reaches_refl [OF assms], of "clk 0"]
      claim_reaches [OF prune_reaches [OF reaches_refl [OF assms], of "clk 0"]]
    by (auto split: sum.splits option.splits)
  then show ?thesis using PostClaim by (simp add: wp_always)
next
  case (PostComplete clk d)
  have "wp (post_complete K clk d) (\<lambda>_. reaches K s) (\<lambda>_. reaches K s) s"
    unfolding post_complete_def fetch_offer_def update_offer_def upsert_device_def prune_expired_def wps
    using reaches_refl [OF assms] prune_reaches [OF reaches_refl [OF assms], of "clk 0"]
      complete_reaches [OF prune_reaches [OF reaches_refl [OF assms], of "clk 0"]]
    by (auto simp: upsert_def split: sum.splits option.splits)
  then show ?thesis using PostComplete by (simp add: wp_always)
qed


lemma offers_ok_initial: "offers_ok K initial"
  by (simp add: offers_ok_def initial_def)

text \<open>A pairing with the concrete crypto; the device's key pair is the master's, to keep it short.\<close>

definition demo_token :: string where
  "demo_token = replicate 32 CHR ''t''"

definition demo_offer :: pairing_offer where
  "demo_offer = \<lparr>po_master_pubkey = demo_master_key, po_home_hubs = [], po_pairing_token = demo_token,
     po_issued_at = 10, po_expires_at = 100,
     po_signature = demo_signature (pairing_offer_signing_bytes demo_master_key [] demo_token 10 100)\<rparr>"

definition demo_claim :: pairing_claim where
  "demo_claim = \<lparr>pc_pairing_token = demo_token, pc_subkey_pubkey = demo_master_key, pc_device_label = ''phone'',
     pc_proof = demo_signature (pairing_claim_signing_bytes demo_token demo_master_key ''phone'')\<rparr>"

definition demo_pairing :: "pairing_op list" where
  "demo_pairing = [PostOffer (\<lambda>_. 20) demo_offer, PostClaim (\<lambda>_. 30) demo_claim]"


text \<open>
  What a polling client may conclude, in every state the pairing endpoints can produce:
  \<^verbatim>\<open>get_status\<close> answers or reports an unknown token (it never panics on a NULL column and never
  finds an unknown state); a reported claim carries a proof of possession of the subkey for this
  token; a reported certificate verifies, names the master that signed the offer of this token and
  the subkey whose holder claimed it.
\<close>

theorem pairing_status_is_backed:
  "case fst (get_status now token (run (pairing_step K) initial ops)) of
     Inl e \<Rightarrow> e = Reject NOT_FOUND ''Unknown token''
   | Inr (Claimed k l) \<Rightarrow> \<exists>p. pairing_claim_verify K \<lparr>pc_pairing_token = token, pc_subkey_pubkey = k,
        pc_device_label = l, pc_proof = p\<rparr> = Inr ()
   | Inr (Complete c w) \<Rightarrow> subkey_cert_verify K c = Inr () \<and>
       (\<exists>x. pairing_offer_verify K x = Inr () \<and> po_pairing_token x = token \<and>
            po_master_pubkey x = sc_master_pubkey c) \<and>
       (\<exists>y. pairing_claim_verify K y = Inr () \<and> pc_pairing_token y = token \<and>
            pc_subkey_pubkey y = sc_subkey_pubkey c)
   | Inr _ \<Rightarrow> True"
proof -
  let ?s = "run (pairing_step K) initial ops"
  have ok: "offers_ok K ?s"
    using pairing_step_reaches offers_ok_initial
    by (intro run_invariant [where P = "offers_ok K"]) (auto simp: reaches_def)
  show ?thesis
  proof (cases "row_at offer_token token (pairing_offers ?s)")
    case None
    then show ?thesis by (simp add: get_status_def run_defs)
  next
    case (Some r)
    have r: "offer_ok K r" "offer_token r = token"
      using offers_ok_row [OF ok Some] row_at_key [OF Some] by auto
    have doc: "po_pairing_token (offer_doc r) = offer_token r" "po_master_pubkey (offer_doc r) = offer_master r"
      by (simp_all add: offer_doc_def)
    have claim: "\<exists>k l p. offer_subkey r = Some k \<and> offer_label r = Some l \<and>
        pairing_claim_verify K \<lparr>pc_pairing_token = token, pc_subkey_pubkey = k,
          pc_device_label = l, pc_proof = p\<rparr> = Inr ()" if "claim_ok K r"
      using that r(2) by (auto simp: claim_ok_def split: option.splits)
    consider "offer_state r = ''pending''" | "offer_state r = ''claimed''" "claim_ok K r" "offer_cert r = None"
      | "offer_state r = ''complete''" "claim_ok K r" "cert_ok K r"
      using r(1) unfolding offer_ok_def by presburger
    then show ?thesis
    proof cases
      case 3
      from claim [OF 3(2)] obtain k l p where k: "offer_subkey r = Some k"
        "pairing_claim_verify K \<lparr>pc_pairing_token = token, pc_subkey_pubkey = k,
          pc_device_label = l, pc_proof = p\<rparr> = Inr ()" by blast
      have "\<exists>y. pairing_claim_verify K y = Inr () \<and> pc_pairing_token y = token \<and> pc_subkey_pubkey y = k"
        using k(2) by (rule exI [where x = "\<lparr>pc_pairing_token = token, pc_subkey_pubkey = k,
          pc_device_label = l, pc_proof = p\<rparr>", OF conjI]) simp
      moreover have "\<exists>x. pairing_offer_verify K x = Inr () \<and> po_pairing_token x = token \<and>
          po_master_pubkey x = offer_master r" using r doc by (auto simp: offer_ok_def)
      ultimately show ?thesis using 3 k(1) Some
        by (auto simp: get_status_def run_defs cert_ok_def split: option.splits)
    qed (use Some claim in \<open>auto simp: get_status_def run_defs\<close>)
  qed
qed

subsection \<open>A claim is exclusive\<close>

fun readings :: "pairing_op \<Rightarrow> nat \<Rightarrow> int" where
  "readings (PostOffer clk x) = clk"
| "readings (PostClaim clk c) = clk"
| "readings (PostComplete clk d) = clk"

definition advanced :: "string \<Rightarrow> offer_row \<Rightarrow> hub \<Rightarrow> bool" where
  "advanced token r t \<longleftrightarrow> (\<exists>r'. row_at offer_token token (pairing_offers t) = Some r' \<and>
     (r' = r \<or> (offer_state r = ''pending'' \<and> (\<exists>c now. r' = set_claimed c now r)) \<or>
      (offer_state r = ''claimed'' \<and> (\<exists>d now. r' = set_complete d now r))))"

lemma pairing_step_row:
  assumes "offers_ok K s" "row_at offer_token token (pairing_offers s) = Some r"
    and "\<And>i. readings op i \<le> offer_expires r"
  shows "advanced token r (pairing_step K s op)"
proof -
  let ?pruned = "\<lambda>i. s\<lparr>pairing_offers := delete_where (\<lambda>q. offer_expires q < readings op i) (pairing_offers s)\<rparr>"
  have pruned: "row_at offer_token token (pairing_offers (?pruned i)) = Some r" for i
    using assms by (simp add: row_at_delete_where offers_ok_def not_less)
  then have here: "advanced token r s" "advanced token r (?pruned i)" for i
    using assms(2) by (auto simp: advanced_def)
  have ins: "advanced token r (s\<lparr>pairing_offers := rs\<rparr>)"
    if "insert_or_ignore (same_key offer_token) fk x (pairing_offers (?pruned i)) = Inr rs" for fk x rs i
    using row_at_insert_or_ignore [OF that, of token] pruned [of i] by (simp add: advanced_def)
  have upd: "advanced token r (s\<lparr>subkey_certs := cs, pairing_offers := update_where
      (\<lambda>q. offer_token q = token' \<and> offer_state q = st) f (pairing_offers (?pruned i))\<rparr>)"
    if "\<And>q. offer_token (f q) = offer_token q"
      "(st = ''pending'' \<and> (\<exists>c now. f = set_claimed c now)) \<or> (st = ''claimed'' \<and> (\<exists>d now. f = set_complete d now))"
    for token' st f cs i
  proof -
    have "row_at offer_token token (pairing_offers (s\<lparr>subkey_certs := cs, pairing_offers := update_where
        (\<lambda>q. offer_token q = token' \<and> offer_state q = st) f (pairing_offers (?pruned i))\<rparr>)) =
      Some (if token = token' \<and> offer_state r = st then f r else r)"
      using pruned [of i] row_at_update_state [OF that(1), of token token' st "pairing_offers (?pruned i)"]
      by (cases "token = token'") simp_all
    then show ?thesis using that(2) unfolding advanced_def by auto
  qed
  have claimed_token: "offer_token (set_claimed c now q) = offer_token q"
    and complete_token: "offer_token (set_complete d now q) = offer_token q" for c d now q
    by (simp_all add: set_claimed_def set_complete_def)
  show ?thesis
  proof (cases op)
    case (PostOffer clk x)
    then show ?thesis
      using here(1) here(2) [of 1] ins [of True _ 1]
      by (simp add: wp_always [symmetric] post_offer_def insert_offer_def prune_expired_def wps
          split: sum.splits)
  next
    case (PostClaim clk c)
    then show ?thesis
      using here(1) here(2) [of 0] upd [OF claimed_token [of c "clk 2"], where cs = "subkey_certs s" and i = 0
          and st = "''pending''" and token' = "pc_pairing_token c"]
      by (auto simp: wp_always [symmetric] post_claim_def fetch_offer_def update_offer_def prune_expired_def
          wps split: sum.splits option.splits)
  next
    case (PostComplete clk d)
    then show ?thesis
      using here(1) here(2) [of 0] upd [OF complete_token [of d "clk 3"], where i = 0
          and st = "''claimed''" and token' = "pd_pairing_token d"]
      by (auto simp: wp_always [symmetric] post_complete_def fetch_offer_def update_offer_def prune_expired_def
          upsert_device_def wps split: sum.splits option.splits)
  qed
qed

text \<open>
  A claim is exclusive while the offer lasts: once a device has claimed a token, no request made
  before the offer expires replaces the claiming subkey or the master, so only that device can be
  certified under the token.
\<close>

theorem claim_is_exclusive:
  assumes "offers_ok K s" "row_at offer_token token (pairing_offers s) = Some r" "offer_subkey r = Some k"
    and "\<forall>op \<in> set ops. \<forall>i. readings op i \<le> offer_expires r"
  shows "\<exists>r'. row_at offer_token token (pairing_offers (run (pairing_step K) s ops)) = Some r' \<and>
    offer_subkey r' = Some k \<and> offer_master r' = offer_master r \<and> offer_expires r' = offer_expires r"
  using assms
proof (induction ops arbitrary: s r)
  case (Cons op ops)
  have "offer_ok K r" using offers_ok_row Cons.prems(1,2) .
  then have "offer_state r \<noteq> ''pending''" using Cons.prems(3) by (auto simp: offer_ok_def)
  moreover have "advanced token r (pairing_step K s op)"
    using pairing_step_row [OF Cons.prems(1,2)] Cons.prems(4) by simp
  ultimately obtain r' where r': "row_at offer_token token (pairing_offers (pairing_step K s op)) = Some r'"
    "offer_subkey r' = Some k" "offer_master r' = offer_master r" "offer_expires r' = offer_expires r"
    using Cons.prems(3) by (auto simp: advanced_def set_complete_def)
  have "offers_ok K (pairing_step K s op)"
    using pairing_step_reaches [OF Cons.prems(1)] by (simp add: reaches_def)
  from Cons.IH [OF this r'(1,2)] Cons.prems(4) r' show ?case by simp
qed simp

text \<open>The same pairing up to the claim, evaluated.\<close>

lemma demo_offer_posted:
  "pairing_step demo_crypto initial (PostOffer (\<lambda>_. 20) demo_offer) =
   initial\<lparr>pairing_offers := [offer_of demo_offer 20 20]\<rparr>"
proof -
  have "pairing_offer_verify demo_crypto demo_offer = Inr ()"
    by (simp add: pairing_offer_verify_def demo_offer_def demo_signature_ok)
  then show ?thesis
    by (simp add: post_offer_def bad_if_def prune_expired_def insert_offer_def run_simps initial_def
        MAX_OFFER_LIFETIME_SECS_def saturating_sub_def demo_offer_def demo_token_def)
qed

lemma demo_claimed:
  "run (pairing_step demo_crypto) initial demo_pairing =
   initial\<lparr>pairing_offers := [set_claimed demo_claim 30 (offer_of demo_offer 20 20)]\<rparr>"
proof -
  have "pairing_claim_verify demo_crypto demo_claim = Inr ()"
    by (simp add: pairing_claim_verify_def demo_claim_def demo_signature_ok)
  then show ?thesis
    unfolding demo_pairing_def run.simps demo_offer_posted unfolding pairing_step.simps
    by (simp add: post_claim_def bad_if_def prune_expired_def fetch_offer_def update_offer_def run_simps
        row_at_def offer_of_def demo_offer_def demo_claim_def)
qed

theorem claim_is_exclusive_witness:
  "\<exists>r'. row_at offer_token demo_token (pairing_offers (run (pairing_step demo_crypto)
      (run (pairing_step demo_crypto) initial demo_pairing) [PostClaim (\<lambda>_. 40) demo_claim])) = Some r' \<and>
    offer_subkey r' = Some demo_master_key \<and> offer_master r' = demo_master_key \<and> offer_expires r' = 100"
proof -
  let ?r = "set_claimed demo_claim 30 (offer_of demo_offer 20 20)"
  have ok: "offers_ok demo_crypto (run (pairing_step demo_crypto) initial demo_pairing)"
    using pairing_step_reaches offers_ok_initial
    by (intro run_invariant [where P = "offers_ok demo_crypto"]) (auto simp: reaches_def)
  have row: "row_at offer_token demo_token (pairing_offers
      (run (pairing_step demo_crypto) initial demo_pairing)) = Some ?r"
    by (simp add: demo_claimed row_at_def set_claimed_def offer_of_def demo_offer_def)
  have sel: "offer_subkey ?r = Some demo_master_key" "offer_master ?r = demo_master_key" "offer_expires ?r = 100"
    by (simp_all add: set_claimed_def offer_of_def demo_offer_def demo_claim_def)
  from claim_is_exclusive [OF ok row sel(1), of "[PostClaim (\<lambda>_. 40) demo_claim]"] show ?thesis
    by (simp add: sel)
qed

subsection \<open>Everything served was signed by its owner\<close>

datatype master_op = Identity identity_op | Pair pairing_op

fun master_step :: "crypto \<Rightarrow> hub \<Rightarrow> master_op \<Rightarrow> hub" where
  "master_step K s (Identity op) = identity_step K s op"
| "master_step K s (Pair op) = pairing_step K s op"

definition dh_doc :: "dh_key_row \<Rightarrow> dh_key_record" where
  "dh_doc r = \<lparr>dk_pubkey = dh_key_pubkey r, dk_dh_pubkey_hex = dh_key_hex r,
     dk_signature_hex = dh_key_signature r, dk_published_at = 0\<rparr>"

definition designations_signed :: "crypto \<Rightarrow> designation_row list \<Rightarrow> bool" where
  "designations_signed K t \<longleftrightarrow> (\<forall>r \<in> set t. home_hub_list_verify K (designation_doc r) = Inr ())"

definition devices_signed :: "crypto \<Rightarrow> device_row list \<Rightarrow> bool" where
  "devices_signed K t \<longleftrightarrow> (\<forall>r \<in> set t. subkey_cert_verify K (device_cert r) = Inr ())"

definition revocations_signed :: "crypto \<Rightarrow> revocation_row list \<Rightarrow> bool" where
  "revocations_signed K t \<longleftrightarrow> (\<forall>r \<in> set t. revocation_verify K (revocation_doc r) = Inr ())"

definition prefs_signed :: "crypto \<Rightarrow> prefs_row list \<Rightarrow> bool" where
  "prefs_signed K t \<longleftrightarrow> (\<forall>r \<in> set t. prefs_blob_verify K (prefs_doc r) = Inr ())"

definition dh_signed :: "crypto \<Rightarrow> dh_key_row list \<Rightarrow> bool" where
  "dh_signed K t \<longleftrightarrow> (\<forall>r \<in> set t. dh_key_verify K (dh_doc r) = Inr ())"

definition documents_signed :: "crypto \<Rightarrow> hub \<Rightarrow> bool" where
  "documents_signed K s \<longleftrightarrow> designations_signed K (home_hub_designations s) \<and>
     devices_signed K (subkey_certs s) \<and> revocations_signed K (subkey_revocations s) \<and>
     prefs_signed K (prefs_blobs s) \<and> dh_signed K (dh_keys s)"

lemma device_cert_of: "device_cert (device_of c now) = c"
  by (cases c) (simp add: device_cert_def device_of_def option.map_comp comp_def option.map_ident)

lemma device_cert_set:
  "dev_master q = sc_master_pubkey c \<Longrightarrow> dev_subkey q = sc_subkey_pubkey c \<Longrightarrow> device_cert (set_device c q) = c"
  by (cases c) (simp add: device_cert_def set_device_def option.map_comp comp_def option.map_ident)

lemma revocation_doc_of: "revocation_doc (revocation_of e now) = e"
  by (simp add: revocation_doc_def revocation_of_def)

lemma designations_signed_upsert:
  "designations_signed K t \<Longrightarrow> home_hub_list_verify K b = Inr () \<Longrightarrow>
   upsert (same_key des_master) True (designation_of b now) (set_designation b now) t = Inr u \<Longrightarrow>
   designations_signed K u"
  unfolding designations_signed_def
  by (auto dest!: set_upsert simp: same_key_def set_designation_eq designation_doc_of)

lemma prefs_signed_upsert:
  "prefs_signed K t \<Longrightarrow> prefs_blob_verify K b = Inr () \<Longrightarrow>
   upsert (same_key prefs_master) True (prefs_of b now) (set_prefs b now) t = Inr u \<Longrightarrow> prefs_signed K u"
  unfolding prefs_signed_def
  by (auto dest!: set_upsert simp: same_key_def set_prefs_eq prefs_doc_of)

lemma devices_signed_upsert:
  "devices_signed K t \<Longrightarrow> subkey_cert_verify K c = Inr () \<Longrightarrow>
   upsert (same_key (\<lambda>r. (dev_master r, dev_subkey r))) True (device_of c now) (set_device c) t = Inr u \<Longrightarrow>
   devices_signed K u"
  unfolding devices_signed_def
  by (auto dest!: set_upsert simp: same_key_def device_cert_of)
    (simp add: device_cert_set device_of_def)

lemma revocations_signed_insert:
  "revocations_signed K t \<Longrightarrow> revocation_verify K e = Inr () \<Longrightarrow>
   insert_or_ignore (same_key (\<lambda>r. (rev_master r, rev_subkey r))) True (revocation_of e now) t = Inr u \<Longrightarrow>
   revocations_signed K u"
  unfolding revocations_signed_def
  by (auto dest!: set_insert_or_ignore simp: revocation_doc_of)

lemma dh_signed_upsert:
  assumes "dh_signed K t" "dh_key_verify K \<lparr>dk_pubkey = pk, dk_dh_pubkey_hex = dh, dk_signature_hex = sig,
      dk_published_at = 0\<rparr> = Inr ()"
    "upsert (same_key dh_key_pubkey) fk \<lparr>dh_key_pubkey = pk, dh_key_hex = dh, dh_key_signature = sig,
      dh_key_published = now\<rparr> (\<lambda>q. q\<lparr>dh_key_hex := dh, dh_key_signature := sig, dh_key_published := now\<rparr>) t = Inr u"
  shows "dh_signed K u"
  unfolding dh_signed_def
proof
  fix q
  assume "q \<in> set u"
  from set_upsert [OF assms(3) this] assms(1,2) show "dh_key_verify K (dh_doc q) = Inr ()"
    by (auto simp: dh_signed_def dh_doc_def same_key_def)
qed

lemmas signed_tables = designations_signed_upsert prefs_signed_upsert devices_signed_upsert
  revocations_signed_insert dh_signed_upsert

lemma identity_step_signed: "documents_signed K s \<Longrightarrow> documents_signed K (identity_step K s op)"
proof (cases op)
  case (PutDmBlocks u pks)
  then show "documents_signed K s \<Longrightarrow> ?thesis"
    using preserves_put_dm_blocks [of "documents_signed K" u pks]
    by (simp add: documents_signed_def preserves_def)
qed (auto simp: wp_always [symmetric] put_designation_def post_device_def upsert_device_def
    post_revocation_def put_prefs_def put_dh_key_def require_same_master_def require_newer_def wps
    documents_signed_def intro: signed_tables split: sum.splits option.splits)

lemma pairing_step_signed: "documents_signed K s \<Longrightarrow> documents_signed K (pairing_step K s op)"
  by (cases op) (auto simp: wp_always [symmetric] post_offer_def insert_offer_def post_claim_def
    post_complete_def prune_expired_def fetch_offer_def update_offer_def upsert_device_def wps
    documents_signed_def intro: signed_tables split: sum.splits option.splits)

text \<open>
  C11. Whatever sequence of identity and pairing requests a fresh hub has served, each document it
  hands out for a key verifies under that key: the designation, every device certificate and
  revocation, the preferences blob, and the published DH key.
\<close>

theorem served_documents_are_signed:
  "let s = run (master_step K) initial ops in
     (case fst (get_designation m s) of Inl _ \<Rightarrow> True
      | Inr d \<Rightarrow> hhl_master_pubkey d = m \<and> home_hub_list_verify K d = Inr ()) \<and>
     (case fst (list_devices m s) of Inl _ \<Rightarrow> False
      | Inr cs \<Rightarrow> list_all (\<lambda>c. sc_master_pubkey c = m \<and> subkey_cert_verify K c = Inr ()) cs) \<and>
     (case fst (list_revocations m s) of Inl _ \<Rightarrow> False
      | Inr es \<Rightarrow> list_all (\<lambda>e. re_master_pubkey e = m \<and> revocation_verify K e = Inr ()) es) \<and>
     (case fst (get_prefs m s) of Inl _ \<Rightarrow> True
      | Inr b \<Rightarrow> pb_master_pubkey b = m \<and> prefs_blob_verify K b = Inr ()) \<and>
     (case fst (get_dh_key m s) of Inl _ \<Rightarrow> True
      | Inr (dh, sig, ts) \<Rightarrow> dh_key_verify K \<lparr>dk_pubkey = m, dk_dh_pubkey_hex = dh, dk_signature_hex = sig,
           dk_published_at = 0\<rparr> = Inr ())"
proof -
  define s where "s = run (master_step K) initial ops"
  have step: "documents_signed K t \<Longrightarrow> documents_signed K (master_step K t op)" for t op
    by (cases op) (auto intro: identity_step_signed pairing_step_signed)
  have signed: "documents_signed K s" unfolding s_def
  proof (rule run_invariant)
    show "documents_signed K initial"
      by (simp add: documents_signed_def initial_def designations_signed_def devices_signed_def
          revocations_signed_def prefs_signed_def dh_signed_def)
  qed (rule step)
  have one: "case fst (get_designation m s) of Inl _ \<Rightarrow> True
      | Inr d \<Rightarrow> hhl_master_pubkey d = m \<and> home_hub_list_verify K d = Inr ()"
    using signed by (auto simp: get_designation_def run_defs documents_signed_def designations_signed_def
        dest!: row_at_key split: option.splits) (simp add: designation_doc_def)
  have two: "case fst (get_prefs m s) of Inl _ \<Rightarrow> True
      | Inr b \<Rightarrow> pb_master_pubkey b = m \<and> prefs_blob_verify K b = Inr ()"
    using signed by (auto simp: get_prefs_def run_defs documents_signed_def prefs_signed_def
        dest!: row_at_key split: option.splits) (simp add: prefs_doc_def)
  have three: "case fst (get_dh_key m s) of Inl _ \<Rightarrow> True
      | Inr (dh, sig, ts) \<Rightarrow> dh_key_verify K \<lparr>dk_pubkey = m, dk_dh_pubkey_hex = dh, dk_signature_hex = sig,
           dk_published_at = 0\<rparr> = Inr ()"
    using signed by (auto simp: get_dh_key_def run_defs documents_signed_def dh_signed_def dh_doc_def
        dest!: row_at_key split: option.splits)
  have four: "list_all (\<lambda>c. sc_master_pubkey c = m \<and> subkey_cert_verify K c = Inr ())
      (map device_cert (sort_key dev_issued (filter (\<lambda>r. dev_master r = m) (subkey_certs s))))"
    using signed by (auto simp: documents_signed_def devices_signed_def list_all_iff device_cert_def)
  have five: "list_all (\<lambda>e. re_master_pubkey e = m \<and> revocation_verify K e = Inr ())
      (map revocation_doc (sort_key rev_at (filter (\<lambda>r. rev_master r = m) (subkey_revocations s))))"
    using signed by (auto simp: documents_signed_def revocations_signed_def list_all_iff revocation_doc_def)
  show ?thesis
    using one two three four five
    by (simp add: s_def [symmetric] Let_def list_devices_def list_revocations_def run_defs)
qed

definition revoked :: "string \<Rightarrow> string \<Rightarrow> hub \<Rightarrow> bool" where
  "revoked m k s \<longleftrightarrow> exists_row (\<lambda>r. rev_master r = m \<and> rev_subkey r = k) (subkey_revocations s)"

lemma identity_step_revoked: "revoked m k s \<Longrightarrow> revoked m k (identity_step K s op)"
proof (cases op)
  case (PutDmBlocks u pks)
  then show "revoked m k s \<Longrightarrow> ?thesis"
    using preserves_put_dm_blocks [of "revoked m k" u pks] by (simp add: revoked_def preserves_def)
qed (auto simp: wp_always [symmetric] put_designation_def post_device_def upsert_device_def
    post_revocation_def put_prefs_def put_dh_key_def require_same_master_def require_newer_def wps
    revoked_def exists_row_iff insert_or_ignore_def split: sum.splits option.splits)

lemma pairing_step_revoked: "revoked m k s \<Longrightarrow> revoked m k (pairing_step K s op)"
  by (cases op) (auto simp: wp_always [symmetric] post_offer_def insert_offer_def post_claim_def
    post_complete_def prune_expired_def fetch_offer_def update_offer_def upsert_device_def wps
    revoked_def split: sum.splits option.splits)

text \<open>
  Revocations are permanent: once a revocation has been accepted, no identity or pairing
  request removes it, and \<^verbatim>\<open>list_revocations\<close> reports one for that subkey ever after.
\<close>

theorem revocations_are_permanent:
  assumes "post_revocation K m e now s = (Inr OK, t)"
  shows "\<exists>es. fst (list_revocations m (run (master_step K) t ops)) = Inr es \<and>
    re_subkey_pubkey e \<in> set (map re_subkey_pubkey es)"
proof -
  have start: "revoked m (re_subkey_pubkey e) t"
    using assms by (auto simp: post_revocation_def ok_iffs revoked_def exists_row_iff same_key_def
        revocation_of_def split: if_splits)
  have step: "revoked m k (master_step K u op)" if "revoked m k u" for k u op
    using that by (cases op) (auto intro: identity_step_revoked pairing_step_revoked)
  have "revoked m (re_subkey_pubkey e) (run (master_step K) t ops)"
    by (rule run_invariant [where P = "revoked m (re_subkey_pubkey e)", OF step start])
  then show ?thesis
    by (auto simp: revoked_def exists_row_iff list_revocations_def run_defs revocation_doc_def
        image_iff Bex_def)
qed

definition demo_revocation :: revocation_entry where
  "demo_revocation = \<lparr>re_master_pubkey = demo_master_key, re_subkey_pubkey = ''device'', re_revoked_at = 7,
     re_signature = demo_signature (revocation_signing_bytes demo_master_key ''device'' 7)\<rparr>"

theorem revocations_are_permanent_witness:
  "\<exists>es. fst (list_revocations demo_master_key (run (master_step demo_crypto)
      (snd (post_revocation demo_crypto demo_master_key demo_revocation 8 initial))
      [Pair (PostOffer (\<lambda>_. 20) demo_offer)])) = Inr es \<and>
    re_subkey_pubkey demo_revocation \<in> set (map re_subkey_pubkey es)"
proof -
  have "revocation_verify demo_crypto demo_revocation = Inr ()"
    by (simp add: revocation_verify_def demo_revocation_def demo_signature_ok)
  then have "fst (post_revocation demo_crypto demo_master_key demo_revocation 8 initial) = Inr OK"
    by (simp add: post_revocation_def bad_if_def require_same_master_def run_simps)
      (simp add: demo_revocation_def)
  then show ?thesis
    by (intro revocations_are_permanent [where now = 8 and s = initial, OF prod_eqI]) simp_all
qed

end
