(* ===== verification/Auth.thy ===== *)
theory Auth
  imports Pow Invites Identity_Store
begin

text \<open>
  Logging in and being recognised, from \<^verbatim>\<open>hub/src/auth/handlers.rs\<close> and
  \<^verbatim>\<open>hub/src/auth/middleware.rs\<close>: the challenge, its verification with every admission gate in the
  source's order, session renewal, and the \<^verbatim>\<open>AuthUser\<close> extractor that every other handler runs
  first, with its session, bot-token and farm-token paths.

  The JSON and base64 codecs are third-party crates; they are the argument \<open>C\<close>. The answer of the
  farm's \<^verbatim>\<open>/farm/info\<close> is an argument too. \<open>clk i\<close> is the \<open>i\<close>-th reading of the system clock in
  a handler, and \<open>instant\<close> its reading of the monotonic clock, in milliseconds.
\<close>

subsection \<open>Requests\<close>

record pow_proof =
  pp_level :: nat
  pp_nonce :: string

record bot_command_def =
  bcd_name :: string
  bcd_description :: string
  bcd_args :: "string option"
  bcd_scope :: "string option"
  bcd_privileged :: "bool option"
  bcd_cooldown :: "int option"

record bot_meta =
  bm_name :: string
  bm_avatar_url :: "string option"
  bm_webhook_url :: "string option"
  bm_description :: "string option"
  bm_homepage_url :: "string option"
  bm_commands :: "bot_command_def list option"
  bm_capabilities :: "string list option"

record certification =
  cert_payload_of :: cert_payload
  cert_signature :: string

record trusted_issuer =
  ti_pubkey :: string
  ti_url :: string
  ti_label :: string

record cert_require =
  cr_min_pow_level :: "nat option"
  cr_min_member_since_days :: "nat option"

record verify_request =
  vr_public_key :: string
  vr_challenge :: string
  vr_signature :: string
  vr_invite_code :: "string option"
  vr_security_nonce :: "u64 option"
  vr_security_level :: "nat option"
  vr_pow_proof :: "pow_proof option"
  vr_subkey_cert :: "subkey_cert option"
  vr_challenge_token :: "string option"
  vr_is_bot :: "bool option"
  vr_bot_meta :: "bot_meta option"
  vr_certifications :: "certification list option"

record verify_response =
  resp_token :: string
  resp_scope :: string

record farm_token_payload =
  ft_exp :: int
  ft_iss_pk :: string
  ft_sub :: string

text \<open>The codecs: serialisation of a payload, parsing of two settings, base64url, the farm payload.\<close>

record codec =
  payload_json :: "cert_payload \<Rightarrow> string"
  parse_trusted_issuers :: "string \<Rightarrow> trusted_issuer list option"
  parse_cert_require :: "string \<Rightarrow> cert_require option"
  b64_decode :: "string \<Rightarrow> u8 list option"
  parse_farm_payload :: "u8 list \<Rightarrow> farm_token_payload option"

subsection \<open>The challenge\<close>

definition challenge :: "crypto \<Rightarrow> string \<Rightarrow> u8 list \<Rightarrow> nat \<Rightarrow> (status_code \<times> string) hub_handler" where
  "challenge K public_key bytes instant =
     and_then (modify (\<lambda>s. s\<lparr>pending_challenges := (pending_challenges s)
       (public_key \<mapsto> \<lparr>challenge_bytes = bytes, challenge_expires = instant + 60000\<rparr>)\<rparr>)) (\<lambda>_.
     ret (OK, hex_encode K bytes))"

text \<open>The common start of \<^verbatim>\<open>verify\<close> and \<^verbatim>\<open>renew\<close>: the pending challenge is consumed.\<close>

definition take_challenge :: "crypto \<Rightarrow> verify_request \<Rightarrow> nat \<Rightarrow> (u8 list \<times> u8 list) hub_handler" where
  "take_challenge K req instant =
     and_then (gets (\<lambda>s. pending_challenges s (vr_public_key req))) (\<lambda>removed.
     and_then (modify (\<lambda>s. s\<lparr>pending_challenges := (pending_challenges s)(vr_public_key req := None)\<rparr>)) (\<lambda>_.
     and_then (ok_or removed (Reject UNAUTHORIZED ''No pending challenge for this key'')) (\<lambda>pending.
     and_then (check (\<not> challenge_expires pending < instant)
       (Reject UNAUTHORIZED ''Challenge expired'')) (\<lambda>_.
     and_then (lift (case hex_decode K (vr_challenge req) of
         Inl _ \<Rightarrow> Inl (Reject BAD_REQUEST ''Invalid challenge hex'') | Inr b \<Rightarrow> Inr b)) (\<lambda>bytes.
     and_then (check (bytes = challenge_bytes pending) (Reject UNAUTHORIZED ''Challenge mismatch'')) (\<lambda>_.
     and_then (lift (case hex_decode K (vr_signature req) of
         Inl _ \<Rightarrow> Inl (Reject BAD_REQUEST ''Invalid signature hex'') | Inr b \<Rightarrow> Inr b)) (\<lambda>signature.
     ret (bytes, signature))))))))"

definition require_signature :: "crypto \<Rightarrow> string \<Rightarrow> u8 list \<Rightarrow> u8 list \<Rightarrow> unit hub_handler" where
  "require_signature K pk bytes sig =
     check (verify_signature K pk bytes sig = Inr ()) (Reject UNAUTHORIZED ''Invalid signature'')"

subsection \<open>The canonical identity\<close>

definition resolve_canonical_identity ::
    "crypto \<Rightarrow> string \<Rightarrow> subkey_cert option \<Rightarrow> (string \<times> string option) hub_handler" where
  "resolve_canonical_identity K auth_pubkey cert =
     (case cert of None \<Rightarrow> ret (auth_pubkey, None)
      | Some c \<Rightarrow>
          and_then (lift (case subkey_cert_verify K c of
              Inl e \<Rightarrow> Inl (Reject UNAUTHORIZED (''Invalid cert: '' @ e)) | Inr u \<Rightarrow> Inr u)) (\<lambda>_.
          and_then (check (sc_subkey_pubkey c = auth_pubkey) (Reject UNAUTHORIZED
            (''Cert subkey_pubkey doesn'' @ [CHR 0x27] @ ''t match auth pubkey''))) (\<lambda>_.
          let master = sc_master_pubkey c in
          and_then (gets (\<lambda>s. fetch_optional (\<lambda>u. user_master u = Some master) (users s))) (\<lambda>known.
          case known of Some u \<Rightarrow> ret (user_key u, Some master)
          | None \<Rightarrow>
              and_then (gets (\<lambda>s. fetch_optional
                (\<lambda>u. user_key u = auth_pubkey \<and> user_master u = None) (users s))) (\<lambda>legacy.
              case legacy of Some u \<Rightarrow> ret (user_key u, Some master)
              | None \<Rightarrow> ret (master, Some master))))))"

subsection \<open>The gates of a login\<close>

definition update_user :: "string \<Rightarrow> (user_row \<Rightarrow> user_row) \<Rightarrow> unit hub_handler" where
  "update_user pk f = modify (\<lambda>s. s\<lparr>users := update_where (\<lambda>u. user_key u = pk) f (users s)\<rparr>)"

definition upsert_bot_profile :: "string \<Rightarrow> bot_meta \<Rightarrow> int \<Rightarrow> unit hub_handler" where
  "upsert_bot_profile pk meta now =
     (let r = \<lparr>bp_pubkey = pk, bp_name = bm_name meta, bp_avatar_url = bm_avatar_url meta,
            bp_description = bm_description meta, bp_webhook_url = bm_webhook_url meta,
            bp_homepage_url = bm_homepage_url meta,
            bp_capabilities = (case bm_capabilities meta of None \<Rightarrow> [] | Some cs \<Rightarrow> cs), bp_updated = now\<rparr>
      in writing (\<lambda>s. upsert (same_key bp_pubkey) True r (\<lambda>_. r) (bot_profiles s))
           (\<lambda>t s. s\<lparr>bot_profiles := t\<rparr>))"

definition insert_bot_command :: "string \<Rightarrow> bot_command_def \<Rightarrow> unit hub_handler" where
  "insert_bot_command pk c =
     writing (\<lambda>s. insert_row (same_key (\<lambda>r. (bc_pubkey r, bc_name r))) True
         \<lparr>bc_pubkey = pk, bc_name = bcd_name c, bc_description = bcd_description c, bc_args = bcd_args c,
          bc_scope = (case bcd_scope c of None \<Rightarrow> ''channel'' | Some x \<Rightarrow> x),
          bc_privileged = (if bcd_privileged c = Some True then 1 else 0),
          bc_cooldown = (case bcd_cooldown c of None \<Rightarrow> 3 | Some x \<Rightarrow> x)\<rparr> (bot_commands s))
       (\<lambda>t s. s\<lparr>bot_commands := t\<rparr>)"

definition register_bot :: "string \<Rightarrow> bot_meta \<Rightarrow> int \<Rightarrow> unit hub_handler" where
  "register_bot canonical meta now =
     and_then (upsert_bot_profile canonical meta now) (\<lambda>_.
     and_then (case bm_commands meta of None \<Rightarrow> ret ()
       | Some cmds \<Rightarrow>
           and_then (modify (\<lambda>s. s\<lparr>bot_commands :=
             delete_where (\<lambda>r. bc_pubkey r = canonical) (bot_commands s)\<rparr>)) (\<lambda>_.
           for_each (insert_bot_command canonical) cmds)) (\<lambda>_.
     update_user canonical (\<lambda>u. u\<lparr>user_approval := ''approved''\<rparr>)))"

definition bot_gate :: "string \<Rightarrow> verify_request \<Rightarrow> int \<Rightarrow> unit hub_handler" where
  "bot_gate canonical req now =
     (if vr_is_bot req = Some True then
        and_then (gets (\<lambda>s. map_option user_approval
          (fetch_optional (\<lambda>u. user_key u = canonical \<and> user_is_bot u = 1) (users s)))) (\<lambda>status.
        and_then (check (status = Some ''bot_pending'' \<or> status = Some ''approved'')
          (Reject FORBIDDEN ''bot_not_invited'')) (\<lambda>_.
        and_then (update_user canonical (\<lambda>u. u\<lparr>user_is_bot := 1\<rparr>)) (\<lambda>_.
        case vr_bot_meta req of None \<Rightarrow> ret () | Some meta \<Rightarrow> register_bot canonical meta now)))
      else ret ())"

definition number_setting :: "string \<Rightarrow> nat \<Rightarrow> hub \<Rightarrow> nat" where
  "number_setting k bound s =
     (case setting k s of None \<Rightarrow> 0
      | Some v \<Rightarrow> (case parse_unsigned bound v of None \<Rightarrow> 0 | Some n \<Rightarrow> n))"

definition security_level_gate :: "crypto \<Rightarrow> verify_request \<Rightarrow> nat \<Rightarrow> unit hub_handler" where
  "security_level_gate K req min_level =
     (if 0 < min_level then
        let nonce = (case vr_security_nonce req of None \<Rightarrow> 0 | Some n \<Rightarrow> n);
            claimed_level = (case vr_security_level req of None \<Rightarrow> 0 | Some l \<Rightarrow> l) in
        and_then (check (\<not> claimed_level < min_level) (Reject FORBIDDEN
          (''Security level '' @ show_nat claimed_level @ '' is below minimum '' @ show_nat min_level))) (\<lambda>_.
        check (verify_security_level K (vr_public_key req) nonce claimed_level)
          (Reject FORBIDDEN ''Invalid security level proof''))
      else ret ())"

definition pow_gate :: "crypto \<Rightarrow> verify_request \<Rightarrow> unit hub_handler" where
  "pow_gate K req =
     and_then (gets (number_setting ''min_pow_level'' 256)) (\<lambda>min_pow_level.
     if 0 < min_pow_level then
       (case vr_pow_proof req of None \<Rightarrow> fail (Reject FORBIDDEN ''pow_required'')
        | Some proof \<Rightarrow>
            and_then (check (\<not> pp_level proof < min_pow_level) (Reject FORBIDDEN ''pow_required'')) (\<lambda>_.
            and_then (ok_or (parse_unsigned (2 ^ 64) (pp_nonce proof))
              (Reject BAD_REQUEST ''Invalid pow_proof nonce'')) (\<lambda>nonce.
            check (verify_security_level K (vr_public_key req) (of_nat nonce) (pp_level proof))
              (Reject FORBIDDEN ''pow_required''))))
     else ret ())"

definition load_cert_mode :: "hub \<Rightarrow> string" where
  "load_cert_mode s = (case setting ''cert_mode'' s of None \<Rightarrow> ''none'' | Some v \<Rightarrow> v)"

definition load_trusted_issuers :: "codec \<Rightarrow> hub \<Rightarrow> trusted_issuer list" where
  "load_trusted_issuers C s =
     (let json_str = (case setting ''cert_trusted_issuers'' s of None \<Rightarrow> ''[]'' | Some v \<Rightarrow> v)
      in case parse_trusted_issuers C json_str of None \<Rightarrow> [] | Some l \<Rightarrow> l)"

definition load_cert_require :: "codec \<Rightarrow> hub \<Rightarrow> cert_require" where
  "load_cert_require C s =
     (let json_str = (case setting ''cert_require'' s of None \<Rightarrow> ''{}'' | Some v \<Rightarrow> v)
      in case parse_cert_require C json_str of
           None \<Rightarrow> \<lparr>cr_min_pow_level = None, cr_min_member_since_days = None\<rparr> | Some r \<Rightarrow> r)"

definition cert_satisfies :: "crypto \<Rightarrow> codec \<Rightarrow> string \<Rightarrow> string \<Rightarrow> trusted_issuer list \<Rightarrow>
    cert_require \<Rightarrow> int \<Rightarrow> certification \<Rightarrow> bool" where
  "cert_satisfies K C master_pk cert_mode trusted_issuers required now_ts cert \<longleftrightarrow>
     (let payload = cert_payload_of cert in
      cp_subject_pubkey payload = master_pk \<and>
      \<not> cp_expires_at payload < now_ts \<and>
      cp_standing payload = ''good'' \<and>
      (case hex_decode K (cert_signature cert) of Inl _ \<Rightarrow> False
       | Inr sig_bytes \<Rightarrow>
           verify_signature K (cp_issuer_pubkey payload) (as_bytes (payload_json C payload)) sig_bytes = Inr ()) \<and>
      (case cr_min_pow_level required of None \<Rightarrow> True
       | Some min_pow \<Rightarrow> (case cp_pow_level payload of Some lvl \<Rightarrow> min_pow \<le> lvl | None \<Rightarrow> False)) \<and>
      (case cr_min_member_since_days required of None \<Rightarrow> True
       | Some min_days \<Rightarrow> \<not> now_ts - int min_days * 86400 < cp_member_since payload) \<and>
      (if cert_mode = ''any'' then True
       else if cert_mode = ''trusted''
       then list_ex (\<lambda>ti. ti_pubkey ti = cp_issuer_pubkey payload) trusted_issuers
       else False))"

definition cert_gate :: "crypto \<Rightarrow> codec \<Rightarrow> verify_request \<Rightarrow> int \<Rightarrow> unit hub_handler" where
  "cert_gate K C req now_ts =
     and_then (gets load_cert_mode) (\<lambda>cert_mode.
     if cert_mode \<noteq> ''none'' then
       and_then (gets (load_trusted_issuers C)) (\<lambda>trusted_issuers.
       and_then (gets (load_cert_require C)) (\<lambda>required.
       let master_pk = (case vr_subkey_cert req of
             None \<Rightarrow> vr_public_key req | Some c \<Rightarrow> sc_master_pubkey c);
           certs = (case vr_certifications req of None \<Rightarrow> [] | Some cs \<Rightarrow> cs) in
       check (list_ex (cert_satisfies K C master_pk cert_mode trusted_issuers required now_ts) certs)
         (Reject FORBIDDEN ''cert_required'')))
     else ret ())"

definition initial_status :: "hub \<Rightarrow> string" where
  "initial_status s =
     (if setting ''require_approval'' s = Some ''true'' \<and> 0 < length (users s)
      then ''pending'' else ''approved'')"

definition upsert_user :: "string \<Rightarrow> string option \<Rightarrow> string \<Rightarrow> int \<Rightarrow> unit hub_handler" where
  "upsert_user canonical master status now =
     writing (\<lambda>s. upsert (same_key user_key) True (new_user canonical now status master)
         (\<lambda>u. u\<lparr>user_last_seen := now,
           user_master := (case user_master u of None \<Rightarrow> master | Some m \<Rightarrow> Some m)\<rparr>) (users s))
       (\<lambda>t s. s\<lparr>users := t\<rparr>)"

definition insert_session :: "string \<Rightarrow> string \<Rightarrow> int \<Rightarrow> unit hub_handler" where
  "insert_session token pk now =
     writing (\<lambda>s. insert_row (same_key session_token) (user_exists s pk)
         \<lparr>session_token = token, session_user = pk, session_created = now, session_expires = None,
          session_warned = None\<rparr> (sessions s))
       (\<lambda>t s. s\<lparr>sessions := t\<rparr>)"

definition has_roles :: "string \<Rightarrow> hub \<Rightarrow> bool" where
  "has_roles pk s \<longleftrightarrow> 0 < count_rows (\<lambda>r. ur_user r = pk) (user_roles s)"

definition owner_exists :: "hub \<Rightarrow> bool" where
  "owner_exists s \<longleftrightarrow> 0 < count_rows (\<lambda>r. ur_role r = ''builtin-owner'') (user_roles s)"

definition invite_gate :: "string \<Rightarrow> verify_request \<Rightarrow> int \<Rightarrow> unit hub_handler" where
  "invite_gate canonical req now =
     and_then (gets (has_roles canonical)) (\<lambda>known.
     if \<not> known then
       and_then (gets is_invite_only) (\<lambda>invite_only.
       if invite_only then
         (case vr_invite_code req of
            Some code \<Rightarrow> validate_and_use_invite code now
          | None \<Rightarrow> fail (Reject FORBIDDEN ''This hub requires an invite code''))
       else ret ())
     else ret ())"

definition insert_owner :: "string \<Rightarrow> int \<Rightarrow> unit hub_handler" where
  "insert_owner pk now = insert_user_role pk ''builtin-owner'' now"

definition assign_initial_roles :: "string \<Rightarrow> int \<Rightarrow> unit hub_handler" where
  "assign_initial_roles canonical now =
     and_then (gets (has_roles canonical)) (\<lambda>known.
     if \<not> known then
       and_then (gets owner_exists) (\<lambda>owned.
       and_then (if \<not> owned then insert_owner canonical now else ret ()) (\<lambda>_.
       insert_or_ignore_user_role canonical ''builtin-everyone'' now))
     else ret ())"

definition challenge_token_gate :: "verify_request \<Rightarrow> int \<Rightarrow> unit hub_handler" where
  "challenge_token_gate req now =
     and_then (gets (\<lambda>s. case setting ''challenge_mode'' s of None \<Rightarrow> ''off'' | Some m \<Rightarrow> m)) (\<lambda>mode.
     if mode \<noteq> ''off'' then
       (case vr_challenge_token req of None \<Rightarrow> fail (Reject FORBIDDEN ''Challenge token required'')
        | Some ct \<Rightarrow>
            and_then (gets (\<lambda>s. row_at ct_token ct (challenge_tokens s))) (\<lambda>row.
            and_then (ok_or row (Reject FORBIDDEN ''Invalid challenge token'')) (\<lambda>r.
            and_then (check (ct_consumed r = None) (Reject FORBIDDEN ''Challenge token already used'')) (\<lambda>_.
            and_then (check (\<not> ct_expires r < now) (Reject FORBIDDEN ''Challenge token expired'')) (\<lambda>_.
            and_then (check (ct_pubkey r = vr_public_key req)
              (Reject FORBIDDEN ''Challenge token pubkey mismatch'')) (\<lambda>_.
            modify (\<lambda>s. s\<lparr>challenge_tokens := update_where (\<lambda>r. ct_token r = ct)
              (\<lambda>r. r\<lparr>ct_consumed := Some now\<rparr>) (challenge_tokens s)\<rparr>)))))))
     else ret ())"

definition session_scope :: "string \<Rightarrow> nat \<Rightarrow> hub \<Rightarrow> string" where
  "session_scope canonical min_level s =
     (let lobby_enabled = (case setting ''lobby_enabled'' s of None \<Rightarrow> True | Some v \<Rightarrow> v = ''1'');
          pow_level = (case row_at user_key canonical (users s) of None \<Rightarrow> 0
            | Some u \<Rightarrow> nat (user_pow_level u mod 2 ^ 32))
      in if lobby_enabled \<and> pow_level < min_level then ''lobby'' else ''member'')"

subsection \<open>Logging in\<close>

text \<open>The statements after the gates that only read.\<close>

definition admit :: "string \<Rightarrow> string option \<Rightarrow> verify_request \<Rightarrow> string \<Rightarrow> (nat \<Rightarrow> int) \<Rightarrow> unit hub_handler" where
  "admit canonical master req token clk =
     and_then (gets initial_status) (\<lambda>status.
     and_then (upsert_user canonical master status (clk 2)) (\<lambda>_.
     and_then (insert_session token canonical (clk 2)) (\<lambda>_.
     and_then (invite_gate canonical req (clk 3)) (\<lambda>_.
     and_then (assign_initial_roles canonical (clk 2)) (\<lambda>_.
     challenge_token_gate req (clk 2))))))"

definition verify :: "crypto \<Rightarrow> codec \<Rightarrow> nat \<Rightarrow> (nat \<Rightarrow> int) \<Rightarrow> u8 list \<Rightarrow> verify_request \<Rightarrow>
    verify_response hub_handler" where
  "verify K C instant clk random req =
     and_then (take_challenge K req instant) (\<lambda>bs.
     and_then (require_signature K (vr_public_key req) (fst bs) (snd bs)) (\<lambda>_.
     and_then (resolve_canonical_identity K (vr_public_key req) (vr_subkey_cert req)) (\<lambda>cm.
     let canonical = fst cm; master = snd cm; token = hex_encode K random in
     and_then (bot_gate canonical req (clk 0)) (\<lambda>_.
     and_then (gets (\<lambda>s. is_banned s canonical)) (\<lambda>banned.
     and_then (check (\<not> banned) (Reject FORBIDDEN ''User is banned'')) (\<lambda>_.
     and_then (gets (number_setting ''min_security_level'' (2 ^ 32))) (\<lambda>min_level.
     and_then (security_level_gate K req min_level) (\<lambda>_.
     and_then (pow_gate K req) (\<lambda>_.
     and_then (cert_gate K C req (clk 1)) (\<lambda>_.
     and_then (admit canonical master req token clk) (\<lambda>_.
     and_then (gets (session_scope canonical min_level)) (\<lambda>scope.
     and_then (check (is_char_boundary canonical 16) Panic) (\<lambda>_.
     ret \<lparr>resp_token = token, resp_scope = scope\<rparr>)))))))))))))"

definition renew :: "crypto \<Rightarrow> string \<Rightarrow> nat \<Rightarrow> int \<Rightarrow> u8 list \<Rightarrow> verify_request \<Rightarrow>
    verify_response hub_handler" where
  "renew K user instant now random req =
     and_then (take_challenge K req instant) (\<lambda>bs.
     and_then (check (vr_public_key req = user)
       (Reject FORBIDDEN ''Renew pubkey does not match authenticated identity'')) (\<lambda>_.
     and_then (require_signature K (vr_public_key req) (fst bs) (snd bs)) (\<lambda>_.
     and_then (insert_session (hex_encode K random) user now) (\<lambda>_.
     ret \<lparr>resp_token = hex_encode K random, resp_scope = ''member''\<rparr>))))"

subsection \<open>Farm tokens\<close>

definition try_verify_farm_token :: "crypto \<Rightarrow> codec \<Rightarrow> string \<Rightarrow> string \<Rightarrow> int \<Rightarrow> string result" where
  "try_verify_farm_token K C farm_pubkey_hex token_str now =
     (if CHR ''.'' \<notin> set token_str then Inl (Reject UNAUTHORIZED ''Malformed farm token'')
      else
        let payload_b64 = takeWhile (\<lambda>c. c \<noteq> CHR ''.'') token_str;
            sig_b64 = tl (dropWhile (\<lambda>c. c \<noteq> CHR ''.'') token_str) in
        case b64_decode C payload_b64 of
          None \<Rightarrow> Inl (Reject UNAUTHORIZED ''Invalid farm token encoding'')
        | Some payload_bytes \<Rightarrow>
          (case b64_decode C sig_b64 of
             None \<Rightarrow> Inl (Reject UNAUTHORIZED ''Invalid farm token signature encoding'')
           | Some sig_bytes \<Rightarrow>
             if verify_signature K farm_pubkey_hex payload_bytes sig_bytes \<noteq> Inr ()
             then Inl (Reject UNAUTHORIZED ''Invalid farm token signature'')
             else case parse_farm_payload C payload_bytes of
               None \<Rightarrow> Inl (Reject UNAUTHORIZED ''Malformed farm token payload'')
             | Some payload \<Rightarrow>
               if ft_exp payload \<le> now then Inl (Reject UNAUTHORIZED ''Farm token has expired'')
               else if ft_iss_pk payload \<noteq> farm_pubkey_hex
               then Inl (Reject UNAUTHORIZED ''Farm token iss_pk does not match cached farm pubkey'')
               else Inr (ft_sub payload)))"

definition FARM_REFETCH_COOLDOWN :: int where
  "FARM_REFETCH_COOLDOWN = 60"

text \<open>\<open>info\<close> is the \<^verbatim>\<open>public_key\<close> string of the farm's answer, None when any step of the fetch fails.\<close>

definition farm_user :: "crypto \<Rightarrow> codec \<Rightarrow> (nat \<Rightarrow> int) \<Rightarrow> string option \<Rightarrow> string \<Rightarrow> string hub_handler" where
  "farm_user K C clk info token =
     and_then (gets cached_farm_pubkey) (\<lambda>cached.
     case cached of None \<Rightarrow> fail (Reject UNAUTHORIZED ''no_farm_configured'')
     | Some farm_pubkey \<Rightarrow>
         (case try_verify_farm_token K C farm_pubkey token (clk 0) of
            Inr sub \<Rightarrow> ret sub
          | Inl first_err \<Rightarrow>
              and_then (gets last_farm_pubkey_fetch) (\<lambda>last.
              and_then (gets farm_url) (\<lambda>url.
              if FARM_REFETCH_COOLDOWN < clk 1 - last \<and> url \<noteq> None then
                and_then (modify (\<lambda>s. s\<lparr>last_farm_pubkey_fetch := clk 2\<rparr>)) (\<lambda>_.
                case info of None \<Rightarrow> fail first_err
                | Some new_pk \<Rightarrow>
                    and_then (modify (\<lambda>s. s\<lparr>cached_farm_pubkey := Some new_pk\<rparr>)) (\<lambda>_.
                    case try_verify_farm_token K C new_pk token (clk 3) of
                      Inr sub \<Rightarrow> ret sub | Inl _ \<Rightarrow> fail first_err))
              else fail first_err))))"

subsection \<open>The extractor\<close>

definition PENDING_ALLOWED_PATHS :: "string list" where
  "PENDING_ALLOWED_PATHS = [''/me'']"

definition require_approved :: "string \<Rightarrow> string \<Rightarrow> unit hub_handler" where
  "require_approved status path =
     check (\<not> (status = ''pending'' \<and> \<not> list_ex (\<lambda>p. path = p) PENDING_ALLOWED_PATHS))
       (Reject FORBIDDEN ''Account is pending admin approval'')"

definition session_status :: "string \<Rightarrow> hub \<Rightarrow> (string \<times> string) option" where
  "session_status token s =
     (case row_at session_token token (sessions s) of None \<Rightarrow> None
      | Some x \<Rightarrow> map_option (\<lambda>u. (session_user x, user_approval u))
          (row_at user_key (session_user x) (users s)))"

definition hub_token_user :: "string \<Rightarrow> string \<Rightarrow> string hub_handler" where
  "hub_token_user token path =
     and_then (gets (session_status token)) (\<lambda>row.
     and_then (case row of Some r \<Rightarrow> ret r
       | None \<Rightarrow>
           and_then (gets (\<lambda>s. map_option bt_pubkey (row_at bt_token token (bot_tokens s)))) (\<lambda>bot_key.
           case bot_key of Some k \<Rightarrow> ret (k, ''approved'')
           | None \<Rightarrow> fail (Reject UNAUTHORIZED ''Invalid or expired token''))) (\<lambda>ks.
     and_then (gets (\<lambda>s. 0 < count_rows (\<lambda>r. rev_subkey r = fst ks) (subkey_revocations s))) (\<lambda>is_revoked.
     and_then (check (\<not> is_revoked) (Reject UNAUTHORIZED ''Key has been revoked'')) (\<lambda>_.
     and_then (require_approved (snd ks) path) (\<lambda>_.
     ret (fst ks))))))"

definition upsert_farm_user :: "string \<Rightarrow> int \<Rightarrow> unit hub_handler" where
  "upsert_farm_user pk now =
     writing (\<lambda>s. upsert (same_key user_key) True (new_user pk now ''approved'' None)
         (\<lambda>u. u\<lparr>user_last_seen := now\<rparr>) (users s))
       (\<lambda>t s. s\<lparr>users := t\<rparr>)"

definition admit_farm_user :: "string \<Rightarrow> int \<Rightarrow> string \<Rightarrow> unit hub_handler" where
  "admit_farm_user pk now path =
     and_then (upsert_farm_user pk now) (\<lambda>_.
     and_then (gets (has_roles pk)) (\<lambda>known.
     and_then (if \<not> known then
         and_then (gets owner_exists) (\<lambda>owned.
         and_then (if \<not> owned then ignoring (insert_owner pk now) else ret ()) (\<lambda>_.
         ignoring (insert_or_ignore_user_role pk ''builtin-everyone'' now)))
       else ret ()) (\<lambda>_.
     and_then (gets (\<lambda>s. is_banned s pk)) (\<lambda>banned.
     and_then (check (\<not> banned) (Reject FORBIDDEN ''User is banned'')) (\<lambda>_.
     and_then (gets (\<lambda>s. case row_at user_key pk (users s) of None \<Rightarrow> ''approved'' | Some u \<Rightarrow> user_approval u)) (\<lambda>status.
     require_approved status path))))))"

definition strip_prefix :: "string \<Rightarrow> string \<Rightarrow> string option" where
  "strip_prefix p s = (if take (length p) s = p then Some (drop (length p) s) else None)"

definition authenticate :: "crypto \<Rightarrow> codec \<Rightarrow> (nat \<Rightarrow> int) \<Rightarrow> string option \<Rightarrow> string option \<Rightarrow> string \<Rightarrow>
    string hub_handler" where
  "authenticate K C clk info header path =
     and_then (ok_or header (Reject UNAUTHORIZED ''Missing Authorization header'')) (\<lambda>h.
     and_then (ok_or (strip_prefix ''Bearer '' h) (Reject UNAUTHORIZED ''Invalid Authorization format'')) (\<lambda>token.
     if CHR ''.'' \<in> set token then
       and_then (farm_user K C clk info token) (\<lambda>pk.
       and_then (admit_farm_user pk (clk 4) path) (\<lambda>_.
       ret pk))
     else hub_token_user token path))"

subsection \<open>What each step leaves alone\<close>

lemma preserves_read_only [keeps]:
  "preserves P (require_signature K pk bytes sig)"
  "preserves P (security_level_gate K req l)"
  "preserves P (pow_gate K req)"
  "preserves P (cert_gate K C req now)"
  "preserves P (require_approved st path)"
  unfolding require_signature_def security_level_gate_def pow_gate_def cert_gate_def require_approved_def Let_def
  by (intro keeps)+

lemma preserves_resolve [keeps]: "preserves P (resolve_canonical_identity K pk cert)"
  unfolding resolve_canonical_identity_def Let_def by (intro keeps)

lemma preserves_hub_token_user [keeps]: "preserves P (hub_token_user token path)"
  unfolding hub_token_user_def by (intro keeps)

lemma preserves_bot_gate:
  assumes "\<And>s x. P s \<Longrightarrow> P (s\<lparr>users := x\<rparr>)" "\<And>s x. P s \<Longrightarrow> P (s\<lparr>bot_profiles := x\<rparr>)"
    "\<And>s x. P s \<Longrightarrow> P (s\<lparr>bot_commands := x\<rparr>)"
  shows "preserves P (bot_gate canonical req now)"
  unfolding bot_gate_def register_bot_def upsert_bot_profile_def insert_bot_command_def update_user_def Let_def
  by (intro keeps preserves_modify preserves_writing assms; assumption)

lemma take_challenge_state:
  "snd (take_challenge K req i s) = s\<lparr>pending_challenges := (pending_challenges s)(vr_public_key req := None)\<rparr>"
  by (auto simp: take_challenge_def run_defs split: option.splits sum.splits)

lemma take_challenge_ok [ok_iffs]:
  "take_challenge K req i s = (Inr bs, t) \<longleftrightarrow>
     (\<exists>p. pending_challenges s (vr_public_key req) = Some p \<and> \<not> challenge_expires p < i \<and>
        hex_decode K (vr_challenge req) = Inr (fst bs) \<and> fst bs = challenge_bytes p \<and>
        hex_decode K (vr_signature req) = Inr (snd bs) \<and>
        t = s\<lparr>pending_challenges := (pending_challenges s)(vr_public_key req := None)\<rparr>)"
  by (cases bs) (auto simp: take_challenge_def run_defs split: option.splits sum.splits)

text \<open>
  A predicate that no write of a login can change, apart from the pending challenge: the frame of
  \<^verbatim>\<open>verify\<close>.
\<close>

definition login_frame :: "(hub \<Rightarrow> bool) \<Rightarrow> bool" where
  "login_frame P \<longleftrightarrow> (\<forall>s x. P s \<longrightarrow> P (s\<lparr>users := x\<rparr>)) \<and> (\<forall>s x. P s \<longrightarrow> P (s\<lparr>sessions := x\<rparr>)) \<and>
     (\<forall>s x. P s \<longrightarrow> P (s\<lparr>bot_profiles := x\<rparr>)) \<and> (\<forall>s x. P s \<longrightarrow> P (s\<lparr>bot_commands := x\<rparr>)) \<and>
     (\<forall>s x. P s \<longrightarrow> P (s\<lparr>invites := x\<rparr>)) \<and> (\<forall>s x. P s \<longrightarrow> P (s\<lparr>user_roles := x\<rparr>)) \<and>
     (\<forall>s x. P s \<longrightarrow> P (s\<lparr>challenge_tokens := x\<rparr>))"

lemma preserves_insert_session: "(\<And>s x. P s \<Longrightarrow> P (s\<lparr>sessions := x\<rparr>)) \<Longrightarrow> preserves P (insert_session t pk now)"
  unfolding insert_session_def by (rule preserves_writing)

lemma preserves_initial_roles:
  "(\<And>s x. P s \<Longrightarrow> P (s\<lparr>user_roles := x\<rparr>)) \<Longrightarrow> preserves P (assign_initial_roles pk now)"
  unfolding assign_initial_roles_def insert_owner_def insert_user_role_def insert_or_ignore_user_role_def
  by (intro keeps preserves_writing)

lemma preserves_invite_gate:
  "(\<And>s x. P s \<Longrightarrow> P (s\<lparr>invites := x\<rparr>)) \<Longrightarrow> preserves P (invite_gate pk req now)"
  unfolding invite_gate_def validate_and_use_invite_def invite_usable_def increment_uses_def
  by (intro keeps preserves_modify)

lemma preserves_challenge_token_gate:
  "(\<And>s x. P s \<Longrightarrow> P (s\<lparr>challenge_tokens := x\<rparr>)) \<Longrightarrow> preserves P (challenge_token_gate req now)"
  unfolding challenge_token_gate_def by (intro keeps preserves_modify)

lemma preserves_upsert_user:
  "(\<And>s x. P s \<Longrightarrow> P (s\<lparr>users := x\<rparr>)) \<Longrightarrow> preserves P (upsert_user pk m st now)"
  unfolding upsert_user_def by (rule preserves_writing)

lemma preserves_admit:
  assumes "\<And>s x. P s \<Longrightarrow> P (s\<lparr>users := x\<rparr>)" "\<And>s x. P s \<Longrightarrow> P (s\<lparr>sessions := x\<rparr>)"
    "\<And>s x. P s \<Longrightarrow> P (s\<lparr>invites := x\<rparr>)" "\<And>s x. P s \<Longrightarrow> P (s\<lparr>user_roles := x\<rparr>)"
    "\<And>s x. P s \<Longrightarrow> P (s\<lparr>challenge_tokens := x\<rparr>)"
  shows "preserves P (admit c m req t clk)"
  unfolding admit_def
  by (intro keeps preserves_upsert_user preserves_insert_session preserves_invite_gate
      preserves_initial_roles preserves_challenge_token_gate assms)

lemma verify_frame:
  assumes "login_frame P" "P (s\<lparr>pending_challenges := (pending_challenges s)(vr_public_key req := None)\<rparr>)"
  shows "P (snd (verify K C i clk rnd req s))"
proof -
  have closed: "\<And>s x. P s \<Longrightarrow> P (s\<lparr>users := x\<rparr>)" "\<And>s x. P s \<Longrightarrow> P (s\<lparr>sessions := x\<rparr>)"
    "\<And>s x. P s \<Longrightarrow> P (s\<lparr>bot_profiles := x\<rparr>)" "\<And>s x. P s \<Longrightarrow> P (s\<lparr>bot_commands := x\<rparr>)"
    "\<And>s x. P s \<Longrightarrow> P (s\<lparr>invites := x\<rparr>)" "\<And>s x. P s \<Longrightarrow> P (s\<lparr>user_roles := x\<rparr>)"
    "\<And>s x. P s \<Longrightarrow> P (s\<lparr>challenge_tokens := x\<rparr>)"
    using assms(1) by (simp_all add: login_frame_def)
  note parts = preserves_bot_gate [OF closed(1,3,4)] preserves_admit [OF closed(1,2,5-7)]
  have rest: "preserves P (f x)" if "f = (\<lambda>bs.
     and_then (require_signature K (vr_public_key req) (fst bs) (snd bs)) (\<lambda>_.
     and_then (resolve_canonical_identity K (vr_public_key req) (vr_subkey_cert req)) (\<lambda>cm.
     let canonical = fst cm; master = snd cm; token = hex_encode K rnd in
     and_then (bot_gate canonical req (clk 0)) (\<lambda>_.
     and_then (gets (\<lambda>s. is_banned s canonical)) (\<lambda>banned.
     and_then (check (\<not> banned) (Reject FORBIDDEN ''User is banned'')) (\<lambda>_.
     and_then (gets (number_setting ''min_security_level'' (2 ^ 32))) (\<lambda>min_level.
     and_then (security_level_gate K req min_level) (\<lambda>_.
     and_then (pow_gate K req) (\<lambda>_.
     and_then (cert_gate K C req (clk 1)) (\<lambda>_.
     and_then (admit canonical master req token clk) (\<lambda>_.
     and_then (gets (session_scope canonical min_level)) (\<lambda>scope.
     and_then (check (is_char_boundary canonical 16) Panic) (\<lambda>_.
     ret \<lparr>resp_token = token, resp_scope = scope\<rparr>)))))))))))))" for f x
    unfolding that Let_def by (intro keeps parts)
  show ?thesis
    using assms(2) rest [OF refl] take_challenge_state [of K req i s]
    by (cases "take_challenge K req i s"; cases "fst (take_challenge K req i s)")
      (auto simp: verify_def and_then_def preserves_def)
qed

lemma verify_keeps:
  assumes "\<And>s x. f (s\<lparr>users := x\<rparr>) = f s" "\<And>s x. f (s\<lparr>sessions := x\<rparr>) = f s"
    "\<And>s x. f (s\<lparr>bot_profiles := x\<rparr>) = f s" "\<And>s x. f (s\<lparr>bot_commands := x\<rparr>) = f s"
    "\<And>s x. f (s\<lparr>invites := x\<rparr>) = f s" "\<And>s x. f (s\<lparr>user_roles := x\<rparr>) = f s"
    "\<And>s x. f (s\<lparr>challenge_tokens := x\<rparr>) = f s"
  shows "f (snd (verify K C i clk rnd req s)) =
    f (s\<lparr>pending_challenges := (pending_challenges s)(vr_public_key req := None)\<rparr>)"
  by (rule verify_frame [where P = "\<lambda>t. f t = f (s\<lparr>pending_challenges :=
    (pending_challenges s)(vr_public_key req := None)\<rparr>)"]) (simp_all add: login_frame_def assms)

lemma verify_other_tables:
  "bans (snd (verify K C i clk rnd req s)) = bans s"
  "bot_tokens (snd (verify K C i clk rnd req s)) = bot_tokens s"
  "subkey_revocations (snd (verify K C i clk rnd req s)) = subkey_revocations s"
  "roles (snd (verify K C i clk rnd req s)) = roles s"
  "role_permissions (snd (verify K C i clk rnd req s)) = role_permissions s"
  "pending_challenges (snd (verify K C i clk rnd req s)) = (pending_challenges s)(vr_public_key req := None)"
  by (simp_all add: verify_keeps [where f = bans] verify_keeps [where f = bot_tokens]
      verify_keeps [where f = subkey_revocations] verify_keeps [where f = roles]
      verify_keeps [where f = role_permissions] verify_keeps [where f = pending_challenges])

lemma renew_state:
  "pending_challenges (snd (renew K user i now rnd req s)) = (pending_challenges s)(vr_public_key req := None)"
  "bans (snd (renew K user i now rnd req s)) = bans s"
  "bot_tokens (snd (renew K user i now rnd req s)) = bot_tokens s"
  using take_challenge_state [of K req i s]
  by (auto simp: renew_def require_signature_def insert_session_def run_defs writing_def split: sum.splits prod.splits)

text \<open>
  A challenge is good for one attempt: whatever the outcome of a login or renewal, a second
  one for the same key fails unless a new challenge was requested in between.
\<close>

theorem challenge_is_single_use:
  assumes "vr_public_key req' = vr_public_key req"
  shows "fst (verify K C i' clk' rnd' req' (snd (verify K C i clk rnd req s))) =
      Inl (Reject UNAUTHORIZED ''No pending challenge for this key'') \<and>
    fst (verify K C i' clk' rnd' req' (snd (renew K user i now rnd req s))) =
      Inl (Reject UNAUTHORIZED ''No pending challenge for this key'')"
proof -
  have "fst (verify K C i' clk' rnd' req' t) = Inl (Reject UNAUTHORIZED ''No pending challenge for this key'')"
    if "pending_challenges t (vr_public_key req') = None" for t
    using that by (simp add: verify_def take_challenge_def run_defs)
  then show ?thesis using assms by (simp add: verify_other_tables renew_state)
qed

subsection \<open>A successful login\<close>

lemma bot_gate_keeps:
  assumes "bot_gate c req now s = (Inr x, t)"
  shows "sessions t = sessions s" "user_roles t = user_roles s" "bans t = bans s" "hub_settings t = hub_settings s"
    and "map_option user_master (row_at user_key k (users t)) = map_option user_master (row_at user_key k (users s))"
proof -
  have "preserves (\<lambda>t. sessions t = sessions s \<and> user_roles t = user_roles s \<and> bans t = bans s \<and>
      hub_settings t = hub_settings s) (bot_gate c req now)"
    by (rule preserves_bot_gate) simp_all
  from preservesD [OF this _ assms] show "sessions t = sessions s" "user_roles t = user_roles s"
    "bans t = bans s" "hub_settings t = hub_settings s" by simp_all
  let ?P = "\<lambda>t. map_option user_master (row_at user_key k (users t)) = map_option user_master (row_at user_key k (users s))"
  have upd: "preserves ?P (update_user c f)" if "\<And>u. user_key (f u) = user_key u" "\<And>u. user_master (f u) = user_master u" for f
    unfolding update_user_def
    by (rule preserves_modify) (auto simp: row_at_update_where that option.map_comp comp_def)
  have "preserves ?P (bot_gate c req now)"
    unfolding bot_gate_def register_bot_def upsert_bot_profile_def insert_bot_command_def Let_def
    by (intro keeps preserves_writing preserves_modify upd) simp_all
  from preservesD [OF this _ assms] show "?P t" by simp
qed

lemma upsert_user_row:
  assumes "upsert_user c m st now s = (Inr x, t)"
  shows "\<exists>u. row_at user_key c (users t) = Some u \<and> user_master u =
    (case row_at user_key c (users s) of None \<Rightarrow> m
     | Some v \<Rightarrow> (case user_master v of None \<Rightarrow> m | Some n \<Rightarrow> Some n))"
proof -
  from assms obtain us where us: "upsert (same_key user_key) True (new_user c now st m)
      (\<lambda>u. u\<lparr>user_last_seen := now, user_master := (case user_master u of None \<Rightarrow> m | Some m \<Rightarrow> Some m)\<rparr>)
      (users s) = Inr us" "t = s\<lparr>users := us\<rparr>"
    by (auto simp: upsert_user_def writing_ok)
  from row_at_upsert [OF _ us(1), of c] us(2) show ?thesis
    by (auto simp: new_user_def split: option.splits)
qed

lemma admit_result:
  assumes "admit c m req tok clk s = (Inr x, t)"
  shows "sessions t = sessions s @ [\<lparr>session_token = tok, session_user = c, session_created = clk 2,
      session_expires = None, session_warned = None\<rparr>]"
    and "row_at session_token tok (sessions s) = None"
    and "\<exists>u. row_at user_key c (users t) = Some u \<and> user_master u =
      (case row_at user_key c (users s) of None \<Rightarrow> m
       | Some v \<Rightarrow> (case user_master v of None \<Rightarrow> m | Some n \<Rightarrow> Some n))"
proof -
  from assms obtain s1 s2 s3 s4 x1 x2 x3 x4 where st:
    "upsert_user c m (initial_status s) (clk 2) s = (Inr x1, s1)" "insert_session tok c (clk 2) s1 = (Inr x2, s2)"
    "invite_gate c req (clk 3) s2 = (Inr x3, s3)" "assign_initial_roles c (clk 2) s3 = (Inr x4, s4)"
    "challenge_token_gate req (clk 2) s4 = (Inr x, t)"
    by (auto simp: admit_def ok_iffs)
  have s1: "sessions s1 = sessions s"
    by (rule preservesD [OF preserves_upsert_user _ st(1)]) simp_all
  have s2: "sessions s2 = sessions s1 @ [\<lparr>session_token = tok, session_user = c, session_created = clk 2,
      session_expires = None, session_warned = None\<rparr>]" "users s2 = users s1"
    "\<not> exists_row (\<lambda>q. session_token q = tok) (sessions s1)"
    using st(2) by (auto simp: insert_session_def ok_iffs same_key_def exists_row_iff)
  let ?same = "\<lambda>u. sessions u = sessions s2 \<and> users u = users s2"
  have "?same s3" by (rule preservesD [OF preserves_invite_gate _ st(3)]) simp_all
  then have "?same s4" by (intro preservesD [OF preserves_initial_roles _ st(4), of ?same]) simp_all
  then have "?same t" by (intro preservesD [OF preserves_challenge_token_gate _ st(5), of ?same]) simp_all
  then show "sessions t = sessions s @ [\<lparr>session_token = tok, session_user = c, session_created = clk 2,
      session_expires = None, session_warned = None\<rparr>]"
    "\<exists>u. row_at user_key c (users t) = Some u \<and> user_master u =
      (case row_at user_key c (users s) of None \<Rightarrow> m
       | Some v \<Rightarrow> (case user_master v of None \<Rightarrow> m | Some n \<Rightarrow> Some n))"
    using s1 s2 upsert_user_row [OF st(1)] by simp_all
  show "row_at session_token tok (sessions s) = None"
    using s2(3) s1 by (auto simp: row_at_None_iff exists_row_iff)
qed

lemma resolve_ok [ok_iffs]:
  "resolve_canonical_identity K pk cert s = (Inr cm, t) \<longleftrightarrow> t = s \<and>
     (case cert of None \<Rightarrow> cm = (pk, None)
      | Some c \<Rightarrow> subkey_cert_verify K c = Inr () \<and> sc_subkey_pubkey c = pk \<and> snd cm = Some (sc_master_pubkey c) \<and>
          fst cm = (case fetch_optional (\<lambda>u. user_master u = Some (sc_master_pubkey c)) (users s) of
             Some u \<Rightarrow> user_key u
           | None \<Rightarrow> (case fetch_optional (\<lambda>u. user_key u = pk \<and> user_master u = None) (users s) of
                Some u \<Rightarrow> user_key u | None \<Rightarrow> sc_master_pubkey c)))"
  by (cases cm) (auto simp: resolve_canonical_identity_def run_defs Let_def split: option.splits sum.splits)

lemma preserves_statusD: "(\<And>P. preserves P m) \<Longrightarrow> m s = (Inr x, t) \<Longrightarrow> t = s"
  by (rule preservesD [of "\<lambda>u. u = s" m s "Inr x" t]) auto

lemma verify_ok:
  assumes "verify K C i clk rnd req s = (Inr resp, t)"
  obtains bs cm s1 s2 x y where
    "take_challenge K req i s = (Inr bs, s1)"
    "verify_signature K (vr_public_key req) (fst bs) (snd bs) = Inr ()"
    "resolve_canonical_identity K (vr_public_key req) (vr_subkey_cert req) s1 = (Inr cm, s1)"
    "bot_gate (fst cm) req (clk 0) s1 = (Inr x, s2)" "\<not> is_banned s2 (fst cm)"
    "admit (fst cm) (snd cm) req (hex_encode K rnd) clk s2 = (Inr y, t)" "resp_token resp = hex_encode K rnd"
proof -
  have gates: "security_level_gate K req l u = (Inr a, v) \<Longrightarrow> v = u" "pow_gate K req u = (Inr b, v) \<Longrightarrow> v = u"
    "cert_gate K C req n u = (Inr d, v) \<Longrightarrow> v = u" for l n u v a b d
    by (erule preserves_statusD [rotated], rule keeps)+
  have resolved: "v = u" if "resolve_canonical_identity K pk cert u = (Inr e, v)" for pk cert e u v
    using that by (simp add: resolve_ok)
  from assms show thesis
    unfolding verify_def Let_def and_then_ok gets_ok check_ok ret_ok require_signature_def
    apply (elim exE conjE)
    apply (drule gates)+
    apply (frule resolved)
    apply hypsubst
    apply (rule that, assumption+)
    apply simp
    done
qed

text \<open>
  C13. What a session stands for: when \<^verbatim>\<open>verify\<close> hands out a token, a challenge was pending for the
  presented key and had not expired, the key's holder signed exactly its bytes, and the token names
  an account that is not banned. Without a certificate the account is the key itself; with one, the
  certificate verifies for this key, and the account is the certificate's master or bears that
  master in its row.
\<close>

theorem login_proves_identity:
  assumes "keyed user_key (users s)" "verify K C i clk rnd req s = (Inr resp, t)"
  shows "\<exists>p sig x. pending_challenges s (vr_public_key req) = Some p \<and> i \<le> challenge_expires p \<and>
    verify_signature K (vr_public_key req) (challenge_bytes p) sig = Inr () \<and>
    row_at session_token (resp_token resp) (sessions t) = Some x \<and> \<not> is_banned s (session_user x) \<and>
    (case vr_subkey_cert req of None \<Rightarrow> session_user x = vr_public_key req
     | Some c \<Rightarrow> subkey_cert_verify K c = Inr () \<and> sc_subkey_pubkey c = vr_public_key req \<and>
         (session_user x = sc_master_pubkey c \<or>
          map_option user_master (row_at user_key (session_user x) (users t)) = Some (Some (sc_master_pubkey c))))"
  using assms(2)
proof (rule verify_ok)
  fix bs cm s1 s2 x y
  assume st: "take_challenge K req i s = (Inr bs, s1)"
    "verify_signature K (vr_public_key req) (fst bs) (snd bs) = Inr ()"
    "resolve_canonical_identity K (vr_public_key req) (vr_subkey_cert req) s1 = (Inr cm, s1)"
    "bot_gate (fst cm) req (clk 0) s1 = (Inr x, s2)" "\<not> is_banned s2 (fst cm)"
    "admit (fst cm) (snd cm) req (hex_encode K rnd) clk s2 = (Inr y, t)" "resp_token resp = hex_encode K rnd"
  from st(1) obtain p where p: "pending_challenges s (vr_public_key req) = Some p" "i \<le> challenge_expires p"
    "fst bs = challenge_bytes p" "s1 = s\<lparr>pending_challenges := (pending_challenges s)(vr_public_key req := None)\<rparr>"
    by (auto simp: take_challenge_ok)
  note bot = bot_gate_keeps [OF st(4)] and adm = admit_result [OF st(6)]
  let ?x = "\<lparr>session_token = hex_encode K rnd, session_user = fst cm, session_created = clk 2,
    session_expires = None, session_warned = None\<rparr>"
  have row: "row_at session_token (resp_token resp) (sessions t) = Some ?x"
    using adm(1,2) st(7) by (simp add: row_at_append) (simp add: row_at_def)
  have ban: "\<not> is_banned s (fst cm)" using st(5) bot(3) p(4) by (simp add: is_banned_def)
  have who: "case vr_subkey_cert req of None \<Rightarrow> fst cm = vr_public_key req
     | Some c \<Rightarrow> subkey_cert_verify K c = Inr () \<and> sc_subkey_pubkey c = vr_public_key req \<and>
         (fst cm = sc_master_pubkey c \<or>
          map_option user_master (row_at user_key (fst cm) (users t)) = Some (Some (sc_master_pubkey c)))"
  proof (cases "vr_subkey_cert req")
    case None
    then show ?thesis using st(3) by (simp add: resolve_ok)
  next
    case (Some c)
    with st(3) p(4) have c: "subkey_cert_verify K c = Inr ()" "sc_subkey_pubkey c = vr_public_key req"
      "snd cm = Some (sc_master_pubkey c)"
      "fst cm = sc_master_pubkey c \<or> (\<exists>u \<in> set (users s). user_key u = fst cm \<and>
        (user_master u = None \<or> user_master u = Some (sc_master_pubkey c)))"
      by (auto simp: resolve_ok split: option.splits dest!: fetch_optional_SomeD)
    have "map_option user_master (row_at user_key (fst cm) (users t)) = Some (Some (sc_master_pubkey c))"
      if "u \<in> set (users s)" "user_key u = fst cm"
        "user_master u = None \<or> user_master u = Some (sc_master_pubkey c)" for u
      using adm(3) bot(5) [of "fst cm"] c(3) that row_at_keyed [OF assms(1) that(1)] p(4)
      by (auto split: option.splits)
    with c Some show ?thesis by auto
  qed
  show ?thesis
    by (rule exI [of _ p], rule exI [of _ "snd bs"], rule exI [of _ ?x]) (use st(2) p row ban who in \<open>simp split: option.splits\<close>)
qed

text \<open>The first login on a fresh hub, with the concrete crypto.\<close>

definition demo_codec :: codec where
  "demo_codec = \<lparr>payload_json = (\<lambda>p. cp_subject_pubkey p), parse_trusted_issuers = (\<lambda>_. None),
     parse_cert_require = (\<lambda>_. None), b64_decode = (\<lambda>x. Some (as_bytes x)),
     parse_farm_payload = (\<lambda>bs. Some \<lparr>ft_exp = 100, ft_iss_pk = demo_master_key, ft_sub = demo_member\<rparr>)\<rparr>"

definition demo_pending :: hub where
  "demo_pending = initial\<lparr>pending_challenges := [demo_master_key \<mapsto>
     \<lparr>challenge_bytes = as_bytes ''abc'', challenge_expires = 60000\<rparr>]\<rparr>"

definition demo_login :: verify_request where
  "demo_login = \<lparr>vr_public_key = demo_master_key, vr_challenge = ''abc'',
     vr_signature = demo_signature (as_bytes ''abc''), vr_invite_code = None, vr_security_nonce = None,
     vr_security_level = None, vr_pow_proof = None, vr_subkey_cert = None, vr_challenge_token = None,
     vr_is_bot = None, vr_bot_meta = None, vr_certifications = None\<rparr>"

lemma initial_setting:
  "setting ''min_security_level'' initial = Some ''0''" "setting ''min_pow_level'' initial = Some ''0''"
  "setting ''cert_mode'' initial = Some ''none''" "setting ''require_approval'' initial = Some ''false''"
  "setting ''invite_only'' initial = Some ''false''" "setting ''challenge_mode'' initial = Some ''off''"
  "setting ''lobby_enabled'' initial = Some ''1''"
  by (simp_all add: setting_def initial_def initial_settings_def seeded_setting_def row_at_def)

lemma demo_master_boundary: "is_char_boundary demo_master_key 16"
  by (simp add: is_char_boundary_def demo_master_key_def demo_master_def public_key_hex_def)

lemma demo_admit:
  "admit demo_master_key None demo_login tok (\<lambda>_. 5) initial =
   (Inr (), initial\<lparr>users := [new_user demo_master_key 5 ''approved'' None],
      sessions := [\<lparr>session_token = tok, session_user = demo_master_key, session_created = 5,
        session_expires = None, session_warned = None\<rparr>],
      user_roles := [\<lparr>ur_user = demo_master_key, ur_role = ''builtin-owner'', ur_assigned = 5\<rparr>,
        \<lparr>ur_user = demo_master_key, ur_role = ''builtin-everyone'', ur_assigned = 5\<rparr>]\<rparr>)"
proof -
  have roles: "role_exists s ''builtin-owner'' \<and> role_exists s ''builtin-everyone''" if "roles s = initial_roles" for s
    using that by (simp add: role_exists_def exists_row_def initial_roles_def seeded_role_def)
  have set: "setting k (initial\<lparr>users := a, sessions := b\<rparr>) = setting k initial"
    "setting k (initial\<lparr>users := a, sessions := b, user_roles := c\<rparr>) = setting k initial" for k a b c
    by (simp_all add: setting_def)
  have empty: "users initial = []" "sessions initial = []" "user_roles initial = []" "roles initial = initial_roles"
    by (simp_all add: initial_def)
  show ?thesis
    by (simp add: admit_def upsert_user_def insert_session_def invite_gate_def assign_initial_roles_def
        insert_owner_def insert_user_role_def insert_or_ignore_user_role_def challenge_token_gate_def
        has_roles_def owner_exists_def user_role_fk_def user_exists_def roles empty initial_status_def
        is_invite_only_def initial_setting set run_simps same_key_def new_user_def)
qed

lemma demo_login_succeeds:
  "fst (verify demo_crypto demo_codec 10 (\<lambda>_. 5) [9] demo_login demo_pending) =
   Inr \<lparr>resp_token = hex_encode demo_crypto [9], resp_scope = ''member''\<rparr>"
proof -
  have key: "vr_public_key demo_login = demo_master_key" "vr_subkey_cert demo_login = None"
    "vr_is_bot demo_login = None" by (simp_all add: demo_login_def)
  have taken: "take_challenge demo_crypto demo_login 10 demo_pending =
      (Inr (as_bytes ''abc'', as_bytes (demo_signature (as_bytes ''abc''))), initial)"
    by (simp add: take_challenge_ok del: as_bytes_Cons) (simp add: demo_login_def demo_pending_def initial_def)
  have sig: "verify_signature demo_crypto demo_master_key (as_bytes ''abc'')
      (as_bytes (demo_signature (as_bytes ''abc''))) = Inr ()"
    using demo_signature_ok [of "as_bytes ''abc''"] by (simp add: check_sig_def del: as_bytes_Cons)
  have num: "number_setting ''min_security_level'' b initial = 0" "number_setting ''min_pow_level'' b initial = 0" for b
    by (simp_all add: number_setting_def initial_setting parse_unsigned_def Let_def)
  have gates: "security_level_gate demo_crypto demo_login 0 s = (Inr (), s)"
    "pow_gate demo_crypto demo_login initial = (Inr (), initial)"
    "cert_gate demo_crypto demo_codec demo_login n initial = (Inr (), initial)"
    for s n
    by (simp_all add: security_level_gate_def pow_gate_def cert_gate_def load_cert_mode_def initial_setting
        num run_simps)
  have ban: "\<not> is_banned initial k" for k by (simp add: is_banned_def initial_def count_rows_def)
  show ?thesis
    by (simp add: verify_def and_then_def taken require_signature_def key sig resolve_canonical_identity_def
        bot_gate_def gates ban num demo_admit demo_master_boundary gets_def check_def ret_def session_scope_def Let_def
        del: as_bytes_Cons)
qed

theorem login_proves_identity_witness:
  "\<exists>p sig x. pending_challenges demo_pending demo_master_key = Some p \<and> 10 \<le> challenge_expires p \<and>
    verify_signature demo_crypto demo_master_key (challenge_bytes p) sig = Inr () \<and>
    row_at session_token (hex_encode demo_crypto [9]) (sessions (snd (verify demo_crypto demo_codec 10 (\<lambda>_. 5)
      [9] demo_login demo_pending))) = Some x \<and> \<not> is_banned demo_pending (session_user x) \<and>
    session_user x = demo_master_key"
proof -
  have keyed: "keyed user_key (users demo_pending)" by (simp add: demo_pending_def initial_def)
  from login_proves_identity [OF keyed prod_eqI, where resp = "\<lparr>resp_token = hex_encode demo_crypto [9], resp_scope = ''member''\<rparr>"]
    demo_login_succeeds show ?thesis
    by (force simp: demo_login_def)
qed

theorem challenge_is_single_use_witness:
  "fst (verify demo_crypto demo_codec 20 (\<lambda>_. 6) [8] demo_login
     (snd (verify demo_crypto demo_codec 10 (\<lambda>_. 5) [9] demo_login demo_pending))) =
   Inl (Reject UNAUTHORIZED ''No pending challenge for this key'')"
  using challenge_is_single_use [OF refl] by blast

subsection \<open>Invariants of a login\<close>

lemma preserves_take_challenge:
  "(\<And>s m. P s \<Longrightarrow> P (s\<lparr>pending_challenges := m\<rparr>)) \<Longrightarrow> preserves P (take_challenge K req i)"
  by (simp add: preserves_def take_challenge_state)

lemma preserves_ban_check:
  assumes "\<And>s. P s \<Longrightarrow> is_banned s k" "c \<noteq> k \<Longrightarrow> preserves P m"
  shows "preserves P (and_then (gets (\<lambda>s. is_banned s c)) (\<lambda>b. and_then (check (\<not> b) e) (\<lambda>_. m)))"
  using assms by (cases "c = k") (auto simp: preserves_def run_defs)

lemma preserves_verify:
  assumes "\<And>s m. P s \<Longrightarrow> P (s\<lparr>pending_challenges := m\<rparr>)" "\<And>c. preserves P (bot_gate c req (clk 0))"
    and "\<And>c m t. preserves P (admit c m req t clk)"
  shows "preserves P (verify K C i clk rnd req)"
  unfolding verify_def Let_def by (intro keeps preserves_take_challenge assms)

lemma preserves_verify_banned:
  assumes "\<And>s m. P s \<Longrightarrow> P (s\<lparr>pending_challenges := m\<rparr>)" "\<And>c. preserves P (bot_gate c req (clk 0))"
    and "\<And>s. P s \<Longrightarrow> is_banned s k" "\<And>c m t. c \<noteq> k \<Longrightarrow> preserves P (admit c m req t clk)"
  shows "preserves P (verify K C i clk rnd req)"
  unfolding verify_def Let_def
  by (intro keeps(3) keeps(1) preserves_take_challenge assms(1,2) preserves_resolve preserves_read_only
      preserves_ban_check [where k = k, OF assms(3)] preserves_gets preserves_check assms(4); assumption)

text \<open>
  Logging in never raises anyone: once the hub has an owner, \<^verbatim>\<open>verify\<close>, whatever its outcome,
  leaves every role and permission as it was and adds at most a membership in
  \<^verbatim>\<open>builtin-everyone\<close>.
\<close>

theorem login_grants_only_everyone:
  assumes "owner_exists s"
  shows "set (user_roles (snd (verify K C i clk rnd req s))) \<subseteq>
      set (user_roles s) \<union> {r. ur_role r = ''builtin-everyone''} \<and>
    roles (snd (verify K C i clk rnd req s)) = roles s \<and>
    role_permissions (snd (verify K C i clk rnd req s)) = role_permissions s"
proof -
  let ?P = "\<lambda>t. owner_exists t \<and> set (user_roles t) \<subseteq> set (user_roles s) \<union> {r. ur_role r = ''builtin-everyone''}"
  have roles: "preserves ?P (assign_initial_roles c now)" for c now
  proof (rule preserves_if_wp)
    fix t
    assume "?P t"
    then show "wp (assign_initial_roles c now) (\<lambda>_. ?P) (\<lambda>_. ?P) t"
      by (auto simp: assign_initial_roles_def wps insert_or_ignore_user_role_def owner_exists_def rows
          insert_or_ignore_def split: sum.splits)
  qed
  have "preserves ?P (verify K C i clk rnd req)"
  proof (rule preserves_verify)
    show "preserves ?P (bot_gate c req n)" for c n by (rule preserves_bot_gate) (simp_all add: owner_exists_def)
    show "preserves ?P (admit c m req t clk)" for c m t
      unfolding admit_def
      by (intro keeps preserves_upsert_user preserves_insert_session preserves_invite_gate roles
          preserves_challenge_token_gate) (simp_all add: owner_exists_def)
  qed (simp add: owner_exists_def)
  with assms show ?thesis by (simp add: preserves_def verify_other_tables)
qed

theorem login_grants_only_everyone_witness:
  "set (user_roles (snd (verify demo_crypto demo_codec 10 (\<lambda>_. 5) [9] demo_login demo_hub))) \<subseteq>
   set (user_roles demo_hub) \<union> {r. ur_role r = ''builtin-everyone''}"
proof -
  have "owner_exists demo_hub" by code_simp
  from login_grants_only_everyone [OF this] show ?thesis by blast
qed

subsection \<open>Who a token stands for\<close>

lemma admit_farm_user_tables:
  "preserves (\<lambda>t. sessions t = a \<and> bans t = b \<and> bot_tokens t = c) (admit_farm_user pk now path)"
  unfolding admit_farm_user_def upsert_farm_user_def insert_owner_def insert_user_role_def
    insert_or_ignore_user_role_def
  by (intro keeps preserves_writing) simp_all

lemma preserves_farm_user:
  "(\<And>s x. P s \<Longrightarrow> P (s\<lparr>last_farm_pubkey_fetch := x\<rparr>)) \<Longrightarrow> (\<And>s x. P s \<Longrightarrow> P (s\<lparr>cached_farm_pubkey := x\<rparr>)) \<Longrightarrow>
   preserves P (farm_user K C clk info token)"
  unfolding farm_user_def
  by (intro keeps; (auto intro!: keeps preserves_modify split: sum.split)?)

lemma authenticate_tables:
  "preserves (\<lambda>t. sessions t = a \<and> bans t = b \<and> bot_tokens t = c) (authenticate K C clk info header path)"
  unfolding authenticate_def
  by (intro keeps preserves_farm_user admit_farm_user_tables) simp_all

text \<open>
  Exactly who a hub token stands for: a request with a token without a dot is attributed to the
  user of its session, or failing that to the owner of the bot token, unless that key appears in
  any revocation, or the account is pending and the path is not \<^verbatim>\<open>/me\<close>; the state is unchanged.
  Bans are not consulted: they act through the deletion of sessions.
\<close>

theorem hub_token_user_iff:
  "hub_token_user token path s = (Inr pk, t) \<longleftrightarrow> t = s \<and>
     (\<exists>status. (session_status token s = Some (pk, status) \<or>
        (session_status token s = None \<and> status = ''approved'' \<and>
         map_option bt_pubkey (row_at bt_token token (bot_tokens s)) = Some pk)) \<and>
      \<not> exists_row (\<lambda>r. rev_subkey r = pk) (subkey_revocations s) \<and>
      \<not> (status = ''pending'' \<and> path \<noteq> ''/me''))"
  by (auto simp: hub_token_user_def require_approved_def PENDING_ALLOWED_PATHS_def ok_iffs rows count_rows_pos_iff
      split: option.splits)

lemma role_inserts:
  "users (snd (insert_owner pk n s)) = users s" "bans (snd (insert_owner pk n s)) = bans s"
  "users (snd (insert_or_ignore_user_role pk r n s)) = users s" "bans (snd (insert_or_ignore_user_role pk r n s)) = bans s"
  by (auto simp: insert_owner_def insert_user_role_def insert_or_ignore_user_role_def writing_def exec_def
      split: sum.splits)

lemma authenticate_farm:
  "CHR ''.'' \<in> set token \<Longrightarrow> authenticate K C clk info (Some (''Bearer '' @ token)) path =
     and_then (farm_user K C clk info token) (\<lambda>pk. and_then (admit_farm_user pk (clk 4) path) (\<lambda>_. ret pk))"
  by (simp add: authenticate_def strip_prefix_def run_defs)

text \<open>
  A farm token admits a newcomer unconditionally: for a key the hub has never seen and has not
  banned, a valid farm token is accepted on every path and creates the account as approved. The
  approval requirement, invite-only mode, the proof-of-work and certification settings and the
  revocations of the hub play no part.
\<close>

theorem farm_token_admits_newcomer:
  assumes "CHR ''.'' \<in> set token" "cached_farm_pubkey s = Some farm"
    and "try_verify_farm_token K C farm token (clk 0) = Inr sub"
    and "\<not> user_exists s sub" "\<not> is_banned s sub"
  shows "fst (authenticate K C clk info (Some (''Bearer '' @ token)) path s) = Inr sub \<and>
    map_option user_approval (row_at user_key sub
      (users (snd (authenticate K C clk info (Some (''Bearer '' @ token)) path s)))) = Some ''approved''"
proof -
  have farm: "farm_user K C clk info token s = (Inr sub, s)" using assms(2,3) by (simp add: farm_user_def run_defs)
  let ?u = "s\<lparr>users := users s @ [new_user sub (clk 4) ''approved'' None]\<rparr>"
  have up: "upsert_farm_user sub (clk 4) s = (Inr (), ?u)"
    using assms(4) by (auto simp: upsert_farm_user_def run_defs writing_def upsert_def user_exists_def
        exists_row_iff same_key_def new_user_def)
  have row: "row_at user_key sub (users ?u) = Some (new_user sub (clk 4) ''approved'' None)"
    using assms(4) by (auto simp: row_at_append user_exists_def exists_row_iff split: option.splits dest!: row_at_key)
      (simp add: row_at_def new_user_def)
  have "wp (admit_farm_user sub (clk 4) path) (\<lambda>_ t. users t = users ?u) (\<lambda>_ _. False) s"
    using assms(5) row
    by (simp add: admit_farm_user_def wps wp_def [of "upsert_farm_user sub (clk 4)"] up role_inserts
        is_banned_def require_approved_def new_user_def)
  with row have "wp (admit_farm_user sub (clk 4) path) (\<lambda>_ t. map_option user_approval
      (row_at user_key sub (users t)) = Some ''approved'') (\<lambda>_ _. False) s"
    by (auto elim!: wp_mono simp: new_user_def)
  then show ?thesis
    unfolding authenticate_farm [OF assms(1)]
    by (auto simp: run_defs farm wp_def split: prod.splits sum.splits)
qed

definition demo_farm :: hub where
  "demo_farm = initial\<lparr>hub_settings := [seeded_setting ''require_approval'' ''true''],
     cached_farm_pubkey := Some demo_master_key\<rparr>"

definition demo_farm_token :: string where
  "demo_farm_token = ''p'' @ ''.'' @ demo_signature (as_bytes ''p'')"

theorem farm_token_admits_newcomer_witness:
  "fst (authenticate demo_crypto demo_codec (\<lambda>_. 5) None (Some (''Bearer '' @ demo_farm_token)) ''/channels'' demo_farm) =
   Inr demo_member"
proof -
  have sig: "verify_signature demo_crypto demo_master_key (as_bytes ''p'') (as_bytes (demo_signature (as_bytes ''p''))) = Inr ()"
    using demo_signature_ok [of "as_bytes ''p''"] by (simp add: check_sig_def del: as_bytes_Cons)
  have tok: "takeWhile (\<lambda>c. c \<noteq> CHR ''.'') demo_farm_token = ''p''"
    "tl (dropWhile (\<lambda>c. c \<noteq> CHR ''.'') demo_farm_token) = demo_signature (as_bytes ''p'')"
    "CHR ''.'' \<in> set demo_farm_token" by (simp_all add: demo_farm_token_def)
  have "try_verify_farm_token demo_crypto demo_codec demo_master_key demo_farm_token 5 = Inr demo_member"
    using sig by (simp add: try_verify_farm_token_def tok demo_codec_def del: as_bytes_Cons)
  moreover have "cached_farm_pubkey demo_farm = Some demo_master_key" "\<not> user_exists demo_farm demo_member"
    "\<not> is_banned demo_farm demo_member"
    by (simp_all add: demo_farm_def initial_def user_exists_def exists_row_def is_banned_def count_rows_def)
  ultimately show ?thesis using farm_token_admits_newcomer [OF tok(3), where clk = "\<lambda>_. 5"] by blast
qed

end
