(* ===== verification/Sessions.thy ===== *)
theory Sessions
  imports Auth
begin

text \<open>
  Authentication and moderation put together: requests as they arrive, each one recognised by the
  \<^verbatim>\<open>AuthUser\<close> extractor before its handler runs. The property is what a ban is for: it takes
  effect on every way into the hub.
\<close>

text \<open>An authenticated request: the extractor, then the handler for the recognised user.\<close>

definition authed :: "crypto \<Rightarrow> codec \<Rightarrow> (nat \<Rightarrow> int) \<Rightarrow> string option \<Rightarrow> string option \<Rightarrow> string \<Rightarrow>
    (string \<Rightarrow> 'a hub_handler) \<Rightarrow> 'a hub_handler" where
  "authed K C clk info header path handler = and_then (authenticate K C clk info header path) handler"

datatype system_op =
    AskChallenge string "u8 list" nat
  | Login nat "nat \<Rightarrow> int" "u8 list" verify_request
  | Renew "nat \<Rightarrow> int" "string option" "string option" nat int "u8 list" verify_request
  | Moderate "nat \<Rightarrow> int" "string option" "string option" string "string \<Rightarrow> moderation_op"

fun system_step :: "crypto \<Rightarrow> codec \<Rightarrow> hub \<Rightarrow> system_op \<Rightarrow> hub" where
  "system_step K C s (AskChallenge pk bytes i) = snd (challenge K pk bytes i s)"
| "system_step K C s (Login i clk rnd req) = snd (verify K C i clk rnd req s)"
| "system_step K C s (Renew clk info header i now rnd req) =
     snd (authed K C clk info header ''/auth/renew'' (\<lambda>user. renew K user i now rnd req) s)"
| "system_step K C s (Moderate clk info header path op) =
     snd (authed K C clk info header path (\<lambda>user. modify (\<lambda>t. moderation_step t (op user))) s)"

fun lifts_ban :: "string \<Rightarrow> moderation_op \<Rightarrow> bool" where
  "lifts_ban k (UnbanUser user t) = (t = k)"
| "lifts_ban k op = False"

fun unbans :: "string \<Rightarrow> system_op \<Rightarrow> bool" where
  "unbans k (Moderate clk info header path op) = (\<exists>user. lifts_ban k (op user))"
| "unbans k op = False"

definition shut_out :: "string \<Rightarrow> hub \<Rightarrow> bool" where
  "shut_out k s \<longleftrightarrow> is_banned s k \<and> \<not> exists_row (\<lambda>x. session_user x = k) (sessions s) \<and>
     \<not> exists_row (\<lambda>b. bt_pubkey b = k) (bot_tokens s)"

lemma shut_out_frame:
  "sessions t = sessions s \<Longrightarrow> bans t = bans s \<Longrightarrow> bot_tokens t = bot_tokens s \<Longrightarrow> shut_out k t = shut_out k s"
  by (simp add: shut_out_def is_banned_def)

lemma preserves_shut_out_authenticate: "preserves (shut_out k) (authenticate K C clk info header path)"
  using authenticate_tables unfolding preserves_def by (metis shut_out_frame)

lemma admit_farm_user_banned:
  assumes "is_banned s pk"
  shows "wp (admit_farm_user pk now path) (\<lambda>_ _. False) (\<lambda>_ _. True) s"
proof -
  have "is_banned (s\<lparr>users := us\<rparr>) pk" for us using assms by (simp add: is_banned_def)
  then show ?thesis
    using assms by (simp add: admit_farm_user_def upsert_farm_user_def wps is_banned_def role_inserts split: sum.splits)
qed

lemma moderation_bot_tokens: "bot_tokens (moderation_step s op) = bot_tokens s"
  by (cases op) (auto simp: moderation_step.simps effect_simps upsert_def)

text \<open>No header is attributed to a user who is shut out.\<close>

lemma shut_out_not_recognised:
  assumes "shut_out k s"
  shows "fst (authenticate K C clk info header path s) \<noteq> Inr k"
proof
  assume "fst (authenticate K C clk info header path s) = Inr k"
  then obtain t where "authenticate K C clk info header path s = (Inr k, t)" by (metis prod.collapse)
  then obtain token where "(CHR ''.'' \<in> set token \<and> (\<exists>u v w. farm_user K C clk info token s = (Inr k, u) \<and>
        admit_farm_user k (clk 4) path u = (Inr w, v))) \<or> hub_token_user token path s = (Inr k, t)"
    by (auto simp: authenticate_def ok_iffs split: if_splits)
  then show False
  proof (elim disjE exE conjE)
    fix u v w
    assume farm: "farm_user K C clk info token s = (Inr k, u)" "admit_farm_user k (clk 4) path u = (Inr w, v)"
    have "is_banned u k"
      using preservesD [OF preserves_farm_user, where P = "\<lambda>t. is_banned t k", OF _ _ _ farm(1)] assms
      by (simp add: shut_out_def is_banned_def)
    from wp_okD [OF admit_farm_user_banned [OF this] farm(2)] show False .
  next
    assume "hub_token_user token path s = (Inr k, t)"
    then have "(\<exists>x \<in> set (sessions s). session_user x = k) \<or> (\<exists>b \<in> set (bot_tokens s). bt_pubkey b = k)"
      by (auto simp: hub_token_user_def ok_iffs session_status_def split: option.splits dest!: row_at_key)
    with assms show False by (auto simp: shut_out_def exists_row_iff)
  qed
qed

lemma preserves_shut_out_verify: "preserves (shut_out k) (verify K C i clk rnd req)"
proof (rule preserves_verify_banned [where k = k])
  show "preserves (shut_out k) (bot_gate c req n)" for c n
    by (rule preserves_bot_gate) (simp_all add: shut_out_def is_banned_def)
  show "preserves (shut_out k) (admit c m req tok clk)" if "c \<noteq> k" for c m tok
    unfolding admit_def insert_session_def
    by (intro keeps preserves_upsert_user preserves_invite_gate preserves_initial_roles
        preserves_challenge_token_gate preserves_writing)
      (use that in \<open>auto simp: shut_out_def is_banned_def exists_row_iff insert_row_ok\<close>)
qed (simp_all add: shut_out_def is_banned_def)

lemma preserves_shut_out_renew:
  assumes "user \<noteq> k"
  shows "preserves (shut_out k) (renew K user i now rnd req)"
  unfolding renew_def insert_session_def
  by (intro keeps preserves_take_challenge preserves_writing)
    (use assms in \<open>auto simp: shut_out_def is_banned_def exists_row_iff insert_row_ok\<close>)

lemma preserves_authed:
  assumes "\<And>user. user \<noteq> k \<Longrightarrow> preserves (shut_out k) (handler user)"
  shows "preserves (shut_out k) (authed K C clk info header path handler)"
  unfolding preserves_def authed_def
proof (intro allI impI)
  fix s
  assume out: "shut_out k s"
  obtain r t where a: "authenticate K C clk info header path s = (r, t)" by (cases "authenticate K C clk info header path s")
  have t: "shut_out k t" using preservesD [OF preserves_shut_out_authenticate out a] .
  show "shut_out k (snd (and_then (authenticate K C clk info header path) handler s))"
  proof (cases r)
    case (Inr user)
    with shut_out_not_recognised [OF out, of K C clk info header path] a have "user \<noteq> k" by auto
    from assms [OF this] t a Inr show ?thesis by (simp add: and_then_def preserves_def)
  qed (use a t in \<open>simp add: and_then_def\<close>)
qed

lemma moderation_keeps_shut_out: "shut_out k s \<Longrightarrow> \<not> lifts_ban k op \<Longrightarrow> shut_out k (moderation_step s op)"
  by (cases op) (auto simp: shut_out_def is_banned_iff moderation_bans moderation_sessions moderation_bot_tokens
      exists_row_iff rows)

lemma system_step_shut_out:
  assumes "shut_out k s" "\<not> unbans k op"
  shows "shut_out k (system_step K C s op)"
proof (cases op)
  case (AskChallenge pk bytes i)
  then show ?thesis using assms by (simp add: challenge_def run_defs shut_out_def is_banned_def)
next
  case (Login i clk rnd req)
  then show ?thesis using assms preserves_shut_out_verify by (simp add: preserves_def)
next
  case (Renew clk info header i now rnd req)
  have "preserves (shut_out k) (authed K C clk info header ''/auth/renew'' (\<lambda>user. renew K user i now rnd req))"
    by (rule preserves_authed) (rule preserves_shut_out_renew)
  with Renew assms(1) show ?thesis by (simp add: preserves_def)
next
  case (Moderate clk info header path f)
  have "preserves (shut_out k) (authed K C clk info header path (\<lambda>user. modify (\<lambda>t. moderation_step t (f user))))"
    by (rule preserves_authed, rule preserves_modify, rule moderation_keeps_shut_out)
      (use assms(2) Moderate in auto)
  with Moderate assms(1) show ?thesis by (simp add: preserves_def)
qed



text \<open>
  The condition on bot tokens is needed: a bot token of a banned key is still recognised, since that
  path never looks at the bans.
\<close>

lemma banned_bot_is_recognised:
  assumes "row_at bt_token token (bot_tokens s) = Some b" "session_status token s = None"
    and "\<not> exists_row (\<lambda>r. rev_subkey r = bt_pubkey b) (subkey_revocations s)" "CHR ''.'' \<notin> set token"
  shows "authenticate K C clk info (Some (''Bearer '' @ token)) path s = (Inr (bt_pubkey b), s)"
  using assms
  by (simp add: authenticate_def strip_prefix_def hub_token_user_def require_approved_def run_simps)

end
