(* ===== verification/Recovery.thy ===== *)
theory Recovery
  imports Roles
begin

text \<open>
  Social recovery of a lost key, from \<^verbatim>\<open>hub/src/routes/recovery.rs\<close>: recovery contacts and their
  threshold, rotation requests with the attestations handed in with them, and the decision of an
  admin.

  Main results: a rotation request is a state machine over its status column, and every endpoint
  refines its specification \<open>rotation_spec\<close>, in which a request is opened once and decided at most
  once; what an approval changes; and what the count of attestations reported to the admins is.
\<close>

subsection \<open>Contacts\<close>

record contacts_response =
  con_owner :: string
  con_contacts :: "string list"
  con_threshold :: nat

definition upsert_recovery_settings :: "string \<Rightarrow> nat \<Rightarrow> int \<Rightarrow> unit hub_handler" where
  "upsert_recovery_settings owner threshold now =
     writing (\<lambda>s. upsert (same_key rs_owner) True
         \<lparr>rs_owner = owner, rs_threshold = int threshold, rs_created = now\<rparr>
         (\<lambda>q. q\<lparr>rs_threshold := int threshold\<rparr>) (recovery_settings s))
       (\<lambda>t s. s\<lparr>recovery_settings := t\<rparr>)"

definition insert_contact :: "string \<Rightarrow> int \<Rightarrow> string \<Rightarrow> unit hub_handler" where
  "insert_contact owner now contact =
     writing (\<lambda>s. insert_or_ignore (same_key (\<lambda>c. (rc_owner c, rc_contact c))) True
         \<lparr>rc_owner = owner, rc_contact = contact, rc_created = now\<rparr> (recovery_contacts s))
       (\<lambda>t s. s\<lparr>recovery_contacts := t\<rparr>)"

definition put_contacts :: "string \<Rightarrow> string list \<Rightarrow> nat \<Rightarrow> int \<Rightarrow> status_code hub_handler" where
  "put_contacts user contacts threshold now =
     and_then (check (\<not> 5 < length contacts) (Reject BAD_REQUEST ''Maximum 5 recovery contacts'')) (\<lambda>_.
     and_then (check (\<not> (threshold = 0 \<or> length contacts < threshold))
       (Reject BAD_REQUEST ''threshold must be between 1 and the number of contacts'')) (\<lambda>_.
     and_then (check (\<not> list_ex (\<lambda>c. c = user) contacts)
       (Reject BAD_REQUEST ''You cannot be your own recovery contact'')) (\<lambda>_.
     and_then (upsert_recovery_settings user threshold now) (\<lambda>_.
     and_then (modify (\<lambda>s. s\<lparr>recovery_contacts :=
       delete_where (\<lambda>c. rc_owner c = user) (recovery_contacts s)\<rparr>)) (\<lambda>_.
     and_then (for_each (insert_contact user now) contacts) (\<lambda>_.
     ret OK))))))"

definition threshold_of :: "string \<Rightarrow> hub \<Rightarrow> int option" where
  "threshold_of owner s = map_option rs_threshold (row_at rs_owner owner (recovery_settings s))"

definition get_contacts :: "string \<Rightarrow> contacts_response hub_handler" where
  "get_contacts user =
     gets (\<lambda>s. \<lparr>con_owner = user,
       con_contacts = map rc_contact (sort_key rc_created
         (filter (\<lambda>c. rc_owner c = user) (recovery_contacts s))),
       con_threshold = nat ((case threshold_of user s of None \<Rightarrow> 0 | Some t \<Rightarrow> t) mod 2 ^ 32)\<rparr>)"

definition delete_contact :: "string \<Rightarrow> string \<Rightarrow> status_code hub_handler" where
  "delete_contact user pubkey =
     and_then (modify (\<lambda>s. s\<lparr>recovery_contacts :=
       delete_where (\<lambda>c. rc_owner c = user \<and> rc_contact c = pubkey) (recovery_contacts s)\<rparr>)) (\<lambda>_.
     ret OK)"

subsection \<open>Rotation requests\<close>

record attestation_input =
  ai_attester :: string
  ai_signature :: string

record rotate_key_request =
  rk_old :: string
  rk_new :: string
  rk_reason :: "string option"
  rk_attestations :: "attestation_input list"

record rotation_response =
  rr_id :: string
  rr_old :: string
  rr_new :: string
  rr_status :: string
  rr_created :: int
  rr_count :: int

definition is_contact :: "string \<Rightarrow> string \<Rightarrow> hub \<Rightarrow> bool" where
  "is_contact owner contact s \<longleftrightarrow>
     0 < count_rows (\<lambda>c. rc_owner c = owner \<and> rc_contact c = contact) (recovery_contacts s)"

definition attestation_conflicts :: "attestation_row \<Rightarrow> attestation_row \<Rightarrow> bool" where
  "attestation_conflicts r q \<longleftrightarrow> att_id q = att_id r \<or>
     (att_request q = att_request r \<and> att_attester q = att_attester r)"

definition insert_attestation :: "attestation_row \<Rightarrow> unit hub_handler" where
  "insert_attestation r =
     writing (\<lambda>s. insert_or_ignore attestation_conflicts True r (rotation_attestations s))
       (\<lambda>t s. s\<lparr>rotation_attestations := t\<rparr>)"

text \<open>The loop over the attestations; \<open>i\<close> numbers the fresh row ids, the result is \<^verbatim>\<open>valid_count\<close>.\<close>

fun store_attestations :: "string \<Rightarrow> (nat \<Rightarrow> string) \<Rightarrow> rotate_key_request \<Rightarrow> int \<Rightarrow> nat \<Rightarrow> int \<Rightarrow>
    attestation_input list \<Rightarrow> int hub_handler" where
  "store_attestations request_id ids req now i valid_count [] = ret valid_count"
| "store_attestations request_id ids req now i valid_count (att # atts) =
     (if ai_attester att = rk_old req \<or> ai_attester att = rk_new req
      then store_attestations request_id ids req now i valid_count atts
      else
        and_then (gets (is_contact (rk_old req) (ai_attester att))) (\<lambda>contact.
        if \<not> contact then store_attestations request_id ids req now i valid_count atts
        else
          and_then (insert_attestation \<lparr>att_id = ids i, att_request = request_id,
            att_attester = ai_attester att, att_signature = ai_signature att, att_at = now\<rparr>) (\<lambda>_.
          store_attestations request_id ids req now (Suc i) (valid_count + 1) atts)))"

definition insert_rotation :: "rotation_row \<Rightarrow> unit hub_handler" where
  "insert_rotation r =
     writing (\<lambda>s. insert_row (same_key rot_id) True r (key_rotation_requests s))
       (\<lambda>t s. s\<lparr>key_rotation_requests := t\<rparr>)"

definition update_rotation :: "string \<Rightarrow> (rotation_row \<Rightarrow> rotation_row) \<Rightarrow> unit hub_handler" where
  "update_rotation i f =
     modify (\<lambda>s. s\<lparr>key_rotation_requests :=
       update_where (\<lambda>r. rot_id r = i) f (key_rotation_requests s)\<rparr>)"

definition new_rotation :: "string \<Rightarrow> rotate_key_request \<Rightarrow> int \<Rightarrow> rotation_row" where
  "new_rotation request_id req now = \<lparr>rot_id = request_id, rot_old = rk_old req, rot_new = rk_new req,
     rot_reason = rk_reason req, rot_status = ''pending'', rot_created = now, rot_decided_at = None,
     rot_decided_by = None\<rparr>"

definition post_rotate_key :: "string \<Rightarrow> (nat \<Rightarrow> string) \<Rightarrow> int \<Rightarrow> rotate_key_request \<Rightarrow>
    (status_code \<times> rotation_response) hub_handler" where
  "post_rotate_key request_id ids now req =
     and_then (gets (threshold_of (rk_old req))) (\<lambda>configured.
     and_then (ok_or configured (Reject BAD_REQUEST
       ''The old pubkey has no recovery contacts configured on this hub'')) (\<lambda>threshold.
     and_then (check (rk_new req \<noteq> rk_old req)
       (Reject BAD_REQUEST ''new_pubkey must differ from old_pubkey'')) (\<lambda>_.
     and_then (insert_rotation (new_rotation request_id req now)) (\<lambda>_.
     and_then (store_attestations request_id ids req now 0 0 (rk_attestations req)) (\<lambda>valid_count.
     and_then (if threshold \<le> valid_count
       then and_then (update_rotation request_id (\<lambda>r. r\<lparr>rot_status := ''ready_for_review''\<rparr>)) (\<lambda>_.
         ret ''ready_for_review'')
       else ret ''pending'') (\<lambda>status.
     ret (CREATED, \<lparr>rr_id = request_id, rr_old = rk_old req, rr_new = rk_new req, rr_status = status,
       rr_created = now, rr_count = valid_count\<rparr>)))))))"

subsection \<open>The admin's decision\<close>

text \<open>A request joined with the number of its attestations.\<close>

definition attestation_count :: "rotation_row \<Rightarrow> hub \<Rightarrow> nat" where
  "attestation_count r s = count_rows (\<lambda>a. att_request a = rot_id r) (rotation_attestations s)"

definition open_status :: "string \<Rightarrow> bool" where
  "open_status st \<longleftrightarrow> st = ''ready_for_review'' \<or> st = ''pending''"

definition admin_list_pending :: "string \<Rightarrow> (rotation_row \<times> nat) list hub_handler" where
  "admin_list_pending user =
     and_then (gets (user_permissions user)) (\<lambda>perms.
     and_then (require_permission perms ADMIN) (\<lambda>_.
     gets (\<lambda>s. map (\<lambda>r. (r, attestation_count r s))
       (sort_key (\<lambda>r. - rot_created r) (filter (\<lambda>r. open_status (rot_status r)) (key_rotation_requests s))))))"

definition fetch_rotation_request :: "string \<Rightarrow> rotation_row hub_handler" where
  "fetch_rotation_request i =
     and_then (gets (\<lambda>s. row_at rot_id i (key_rotation_requests s))) (\<lambda>row.
     ok_or row (Reject NOT_FOUND ''Rotation request not found''))"

definition insert_or_ignore_user :: "user_row \<Rightarrow> unit hub_handler" where
  "insert_or_ignore_user u =
     writing (\<lambda>s. insert_or_ignore (same_key user_key) True u (users s)) (\<lambda>t s. s\<lparr>users := t\<rparr>)"

text \<open>\<^verbatim>\<open>INSERT OR IGNORE INTO user_roles ... SELECT ?, role_id, ? FROM user_roles WHERE ...\<close>\<close>

definition transfer_roles :: "string \<Rightarrow> string \<Rightarrow> int \<Rightarrow> unit hub_handler" where
  "transfer_roles old new now =
     and_then (gets (\<lambda>s. map ur_role (filter (\<lambda>r. ur_user r = old) (user_roles s)))) (\<lambda>rs.
     for_each (\<lambda>r. insert_or_ignore_user_role new r now) rs)"

definition decide :: "string \<Rightarrow> string \<Rightarrow> string \<Rightarrow> int \<Rightarrow> unit hub_handler" where
  "decide i status admin now =
     update_rotation i (\<lambda>r. r\<lparr>rot_status := status, rot_decided_at := Some now, rot_decided_by := Some admin\<rparr>)"

definition admin_approve :: "string \<Rightarrow> string \<Rightarrow> int \<Rightarrow> status_code hub_handler" where
  "admin_approve user i now =
     and_then (gets (user_permissions user)) (\<lambda>perms.
     and_then (require_permission perms ADMIN) (\<lambda>_.
     and_then (fetch_rotation_request i) (\<lambda>row.
     and_then (check (open_status (rot_status row))
       (Reject CONFLICT ''Request is not in an approvable state'')) (\<lambda>_.
     and_then (insert_or_ignore_user (new_user (rot_new row) now ''approved'' None)) (\<lambda>_.
     and_then (transfer_roles (rot_old row) (rot_new row) now) (\<lambda>_.
     and_then (modify (\<lambda>s. s\<lparr>sessions := delete_where (\<lambda>x. session_user x = rot_old row) (sessions s)\<rparr>)) (\<lambda>_.
     and_then (decide i ''approved'' user now) (\<lambda>_.
     ret OK))))))))"

definition admin_deny :: "string \<Rightarrow> string \<Rightarrow> int \<Rightarrow> status_code hub_handler" where
  "admin_deny user i now =
     and_then (gets (user_permissions user)) (\<lambda>perms.
     and_then (require_permission perms ADMIN) (\<lambda>_.
     and_then (fetch_rotation_request i) (\<lambda>row.
     and_then (check (open_status (rot_status row))
       (Reject CONFLICT ''Request is not in a deniable state'')) (\<lambda>_.
     and_then (decide i ''rejected'' user now) (\<lambda>_.
     ret OK)))))"

datatype recovery_op =
    PutContacts string "string list" nat int
  | DeleteContact string string
  | PostRotateKey string "nat \<Rightarrow> string" int rotate_key_request
  | AdminApprove string string int
  | AdminDeny string string int

fun recovery_step :: "hub \<Rightarrow> recovery_op \<Rightarrow> hub" where
  "recovery_step s (PutContacts u cs n now) = snd (put_contacts u cs n now s)"
| "recovery_step s (DeleteContact u pk) = snd (delete_contact u pk s)"
| "recovery_step s (PostRotateKey i ids now req) = snd (post_rotate_key i ids now req s)"
| "recovery_step s (AdminApprove u i now) = snd (admin_approve u i now s)"
| "recovery_step s (AdminDeny u i now) = snd (admin_deny u i now s)"

subsection \<open>The life of a rotation request\<close>

text \<open>
  One step of one request, \<open>None\<close> while its id is unused: it may be opened undecided, and an open
  request may be approved or rejected, which records who decided and when.
\<close>

inductive rotation_spec :: "rotation_row option \<Rightarrow> rotation_row option \<Rightarrow> bool" where
  stutter: "rotation_spec x x"
| opened: "open_status (rot_status r) \<Longrightarrow> rot_decided_at r = None \<Longrightarrow> rot_decided_by r = None \<Longrightarrow>
    rotation_spec None (Some r)"
| decided: "open_status (rot_status r) \<Longrightarrow> status \<in> {''approved'', ''rejected''} \<Longrightarrow>
    rotation_spec (Some r) (Some (r\<lparr>rot_status := status, rot_decided_at := Some now,
      rot_decided_by := Some admin\<rparr>))"

inductive_cases rotation_specE: "rotation_spec x y"

definition request_at :: "string \<Rightarrow> hub \<Rightarrow> rotation_row option" where
  "request_at i s = row_at rot_id i (key_rotation_requests s)"

lemma closed_is_final:
  "rotation_spec (Some r) y \<Longrightarrow> \<not> open_status (rot_status r) \<Longrightarrow> y = Some r"
  by (auto elim: rotation_specE)

lemma request_at_update:
  assumes "\<And>r. rot_id (f r) = rot_id r"
  shows "request_at j (s\<lparr>key_rotation_requests :=
      update_where (\<lambda>r. rot_id r = i) f (key_rotation_requests s)\<rparr>) =
    (if j = i then map_option f (request_at i s) else request_at j s)"
  using row_at_update_where [where key = rot_id, OF assms] by (simp add: request_at_def)

text \<open>Only the statements on \<^verbatim>\<open>key_rotation_requests\<close> matter here.\<close>

lemma preserves_insert_attestation:
  "(\<And>s x. P (s\<lparr>rotation_attestations := x\<rparr>) = P s) \<Longrightarrow> preserves P (insert_attestation r)"
  unfolding insert_attestation_def by (rule preserves_writing) simp

lemma preserves_store_attestations:
  assumes "\<And>s x. P (s\<lparr>rotation_attestations := x\<rparr>) = P s"
  shows "preserves P (store_attestations request_id ids req now i n atts)"
  using preserves_insert_attestation [OF assms]
  by (induction atts arbitrary: i n) (auto intro!: keeps)

lemma preserves_insert_or_ignore_user:
  "(\<And>s x. P (s\<lparr>users := x\<rparr>) = P s) \<Longrightarrow> preserves P (insert_or_ignore_user u)"
  unfolding insert_or_ignore_user_def by (rule preserves_writing) simp

lemma preserves_transfer_roles:
  assumes "\<And>s x. P (s\<lparr>user_roles := x\<rparr>) = P s"
  shows "preserves P (transfer_roles old new now)"
  unfolding transfer_roles_def insert_or_ignore_user_role_def
  by (intro keeps preserves_writing) (simp add: assms)

lemma decide_refines:
  assumes "open_status (rot_status r)" "request_at i s = Some r" "status \<in> {''approved'', ''rejected''}"
  shows "wp (decide i status admin now) (\<lambda>_ t. rotation_spec (request_at j s) (request_at j t)) E s"
  using assms by (auto simp: decide_def update_rotation_def wps request_at_update
      intro: rotation_spec.intros)

lemma request_at_frame [simp]:
  "request_at i (s\<lparr>users := a\<rparr>) = request_at i s"
  "request_at i (s\<lparr>user_roles := b\<rparr>) = request_at i s"
  "request_at i (s\<lparr>sessions := c\<rparr>) = request_at i s"
  "request_at i (s\<lparr>rotation_attestations := d\<rparr>) = request_at i s"
  "request_at i (s\<lparr>recovery_contacts := e\<rparr>) = request_at i s"
  "request_at i (s\<lparr>recovery_settings := f\<rparr>) = request_at i s"
  by (simp_all add: request_at_def)

lemma put_contacts_keeps_requests: "preserves (\<lambda>t. request_at i t = x) (put_contacts u cs n now)"
  unfolding put_contacts_def upsert_recovery_settings_def insert_contact_def
  by (intro keeps preserves_writing preserves_modify) simp_all

lemma request_at_insert:
  assumes "insert_row (same_key rot_id) True r (key_rotation_requests s) = Inr t"
  shows "request_at i (s\<lparr>key_rotation_requests := t\<rparr>) = (if i = rot_id r then Some r else request_at i s)"
    and "request_at (rot_id r) s = None"
  using row_at_insert_row [OF assms] by (simp_all add: request_at_def)

lemma open_names [simp]:
  "open_status ''pending''" "open_status ''ready_for_review''"
  "\<not> open_status ''approved''" "\<not> open_status ''rejected''"
  by (simp_all add: open_status_def)

lemma opening_refines:
  assumes "request_at request_id s = None"
    and "\<forall>j. request_at j t = (if j = request_id then Some (new_rotation request_id req now) else request_at j s)"
  shows "wp (and_then (store_attestations request_id ids req now k n atts) (\<lambda>valid_count.
      and_then (if threshold \<le> valid_count
        then and_then (update_rotation request_id (\<lambda>r. r\<lparr>rot_status := ''ready_for_review''\<rparr>)) (\<lambda>_.
          ret ''ready_for_review'')
        else ret ''pending'') (\<lambda>status. ret (g valid_count status))))
    (\<lambda>_ u. rotation_spec (request_at i s) (request_at i u))
    (\<lambda>_ u. rotation_spec (request_at i s) (request_at i u)) t"
proof -
  define I where "I u \<longleftrightarrow> (\<forall>j. request_at j u =
      (if j = request_id then Some (new_rotation request_id req now) else request_at j s))" for u
  let ?S = "\<lambda>u. rotation_spec (request_at i s) (request_at i u)"
  have "preserves I (store_attestations request_id ids req now k n atts)"
    by (rule preserves_store_attestations) (simp add: I_def)
  then have stored: "wp (store_attestations request_id ids req now k n atts) (\<lambda>_. I) (\<lambda>_. I) t"
    using assms(2) by (intro preserves_wp) (simp_all add: I_def)
  have opened: "?S u" if "I u" for u
    using that assms(1) by (auto simp: I_def new_rotation_def intro: rotation_spec.intros)
  have ready: "?S (u\<lparr>key_rotation_requests := update_where (\<lambda>r. rot_id r = request_id)
      (\<lambda>r. r\<lparr>rot_status := ''ready_for_review''\<rparr>) (key_rotation_requests u)\<rparr>)" if "I u" for u
    using that assms(1) by (auto simp: I_def request_at_update new_rotation_def intro: rotation_spec.intros)
  show ?thesis
    unfolding wp_and_then
    by (rule wp_mono [OF stored]) (auto simp: wps update_rotation_def opened ready)
qed

lemma post_rotate_key_refines:
  "rotation_spec (request_at i s) (request_at i (snd (post_rotate_key request_id ids now req s)))"
proof -
  let ?R = "new_rotation request_id req now"
  have "rot_id ?R = request_id" by (simp add: new_rotation_def)
  with request_at_insert [of ?R s]
  have "wp (post_rotate_key request_id ids now req) (\<lambda>_ u. rotation_spec (request_at i s) (request_at i u))
      (\<lambda>_ u. rotation_spec (request_at i s) (request_at i u)) s"
    unfolding post_rotate_key_def insert_rotation_def wp_and_then [of "gets _"] wp_and_then [of "ok_or _ _"]
      wp_and_then [of "check _ _"] wp_and_then [of "writing _ _"] wp_gets wp_ok_or wp_check wp_writing
    by (auto intro: rotation_spec.stutter intro!: opening_refines split: option.splits sum.splits)
  then show ?thesis by (simp only: wp_always)
qed

lemma preserves_fetch_rotation [keeps]: "preserves P (fetch_rotation_request i)"
  unfolding fetch_rotation_request_def by (intro keeps)

lemma wp_fetch_rotation [wps]:
  "wp (fetch_rotation_request i) Q E s =
     (case request_at i s of None \<Rightarrow> E (Reject NOT_FOUND ''Rotation request not found'') s | Some r \<Rightarrow> Q r s)"
  by (simp add: fetch_rotation_request_def wps request_at_def)

lemma admin_deny_refines: "rotation_spec (request_at i s) (request_at i (snd (admin_deny u j now s)))"
proof -
  have "wp (admin_deny u j now) (\<lambda>_ t. rotation_spec (request_at i s) (request_at i t))
      (\<lambda>_ t. rotation_spec (request_at i s) (request_at i t)) s"
    unfolding admin_deny_def wp_and_then wp_ret
    by (auto simp: wps decide_refines intro: rotation_spec.stutter split: option.splits)
  then show ?thesis by (simp only: wp_always)
qed

text \<open>What an approval does before it marks the request.\<close>

definition hand_over :: "rotation_row \<Rightarrow> int \<Rightarrow> unit hub_handler" where
  "hand_over row now =
     and_then (insert_or_ignore_user (new_user (rot_new row) now ''approved'' None)) (\<lambda>_.
     and_then (transfer_roles (rot_old row) (rot_new row) now) (\<lambda>_.
     modify (\<lambda>s. s\<lparr>sessions := delete_where (\<lambda>x. session_user x = rot_old row) (sessions s)\<rparr>)))"

lemma admin_approve_eq:
  "admin_approve user i now =
     and_then (gets (user_permissions user)) (\<lambda>perms.
     and_then (require_permission perms ADMIN) (\<lambda>_.
     and_then (fetch_rotation_request i) (\<lambda>row.
     and_then (check (open_status (rot_status row))
       (Reject CONFLICT ''Request is not in an approvable state'')) (\<lambda>_.
     and_then (hand_over row now) (\<lambda>_.
     and_then (decide i ''approved'' user now) (\<lambda>_.
     ret OK))))))"
  by (simp add: admin_approve_def hand_over_def and_then_assoc)

lemma hand_over_keeps_requests: "preserves (\<lambda>t. \<forall>i. request_at i t = f i) (hand_over row now)"
  unfolding hand_over_def
  by (intro keeps preserves_insert_or_ignore_user preserves_transfer_roles preserves_modify) simp_all

lemma admin_approve_refines:
  "rotation_spec (request_at i s) (request_at i (snd (admin_approve u j now s)))"
proof -
  let ?S = "\<lambda>_ t. rotation_spec (request_at i s) (request_at i t)"
  have kept: "wp (hand_over row now) (\<lambda>_ t. \<forall>k. request_at k t = request_at k s)
      (\<lambda>_ t. \<forall>k. request_at k t = request_at k s) s" for row
    using hand_over_keeps_requests by (rule preserves_wp) simp
  have decided: "wp (decide j ''approved'' u now) ?S ?S t"
    if "request_at j s = Some row" "open_status (rot_status row)" "\<forall>k. request_at k t = request_at k s"
    for row t
    using decide_refines [of row j t "''approved''" u now i] that by auto
  have "wp (and_then (hand_over row now) (\<lambda>_. and_then (decide j ''approved'' u now) (\<lambda>_. ret OK))) ?S ?S s"
    if "request_at j s = Some row" "open_status (rot_status row)" for row
    unfolding wp_and_then wp_ret
    by (rule wp_mono [OF kept]) (auto intro: rotation_spec.stutter decided [OF that])
  then have "wp (admin_approve u j now) ?S ?S s"
    unfolding admin_approve_eq wp_and_then [of "gets _"] wp_and_then [of "require_permission _ _"]
      wp_and_then [of "fetch_rotation_request _"] wp_and_then [of "check _ _"]
    by (auto simp: wp_gets wp_require wp_fetch_rotation wp_check intro: rotation_spec.stutter
        split: option.splits)
  then show ?thesis by (simp only: wp_always)
qed

lemma recovery_step_refines: "rotation_spec (request_at i s) (request_at i (recovery_step s op))"
proof (cases op)
  case (PutContacts u cs n now)
  have "request_at i (snd (put_contacts u cs n now s)) = request_at i s"
    using put_contacts_keeps_requests [of i "request_at i s"] by (simp add: preserves_def)
  with PutContacts show ?thesis by (simp add: rotation_spec.stutter)
next
  case (DeleteContact u pk)
  then show ?thesis by (simp add: delete_contact_def run_simps rotation_spec.stutter)
qed (simp_all add: post_rotate_key_refines admin_approve_refines admin_deny_refines)

text \<open>
  C14. Every recovery request, whatever its outcome, moves each rotation request along its
  specified life: an unused id may become an open, undecided request; an open request may become
  approved or rejected, with the deciding admin and the time recorded and its keys unchanged; and
  nothing else happens to it, over any sequence of requests.
\<close>

theorem rotation_requests_refine_spec:
  "rotation_spec\<^sup>*\<^sup>* (request_at i s) (request_at i (run recovery_step s ops))"
proof (induction ops arbitrary: s)
  case (Cons op ops)
  show ?case
    using converse_rtranclp_into_rtranclp [of rotation_spec, OF recovery_step_refines Cons.IH] by simp
qed simp

text \<open>
  A decision is final: once a rotation request is approved or rejected, no sequence of later
  requests, by admins or anyone else, reopens it, decides it again or changes any field of it.
\<close>

theorem decided_rotations_are_final:
  assumes "request_at i s = Some r" "rot_status r = ''approved'' \<or> rot_status r = ''rejected''"
  shows "request_at i (run recovery_step s ops) = Some r"
proof (rule run_invariant [where P = "\<lambda>t. request_at i t = Some r"])
  show "request_at i (recovery_step t op) = Some r" if "request_at i t = Some r" for t op
    using recovery_step_refines [of i t op] that assms(2) by (auto dest: closed_is_final)
qed (rule assms(1))

definition demo_rotation :: rotation_row where
  "demo_rotation = \<lparr>rot_id = ''r1'', rot_old = demo_member, rot_new = ''new-key-00000000'',
     rot_reason = None, rot_status = ''pending'', rot_created = 3, rot_decided_at = None,
     rot_decided_by = None\<rparr>"

definition demo_recovery :: hub where
  "demo_recovery = demo_hub\<lparr>key_rotation_requests := [demo_rotation]\<rparr>"

theorem decided_rotations_are_final_witness:
  "request_at ''r1'' (run recovery_step (recovery_step demo_recovery (AdminDeny demo_owner ''r1'' 7))
     [AdminApprove demo_owner ''r1'' 8]) =
   Some (demo_rotation\<lparr>rot_status := ''rejected'', rot_decided_at := Some 7, rot_decided_by := Some demo_owner\<rparr>)"
proof (rule decided_rotations_are_final)
  show "request_at ''r1'' (recovery_step demo_recovery (AdminDeny demo_owner ''r1'' 7)) =
    Some (demo_rotation\<lparr>rot_status := ''rejected'', rot_decided_at := Some 7, rot_decided_by := Some demo_owner\<rparr>)"
    by code_simp
qed simp

subsection \<open>What an approval changes\<close>

definition holds :: "hub \<Rightarrow> string \<Rightarrow> string \<Rightarrow> bool" where
  "holds s pk i \<longleftrightarrow> (\<exists>ur \<in> set (user_roles s). ur_user ur = pk \<and> ur_role ur = i)"

lemma transfer_ok:
  assumes "for_each (\<lambda>r. insert_or_ignore_user_role new r now) rs s = (Inr x, t)"
  shows "holds t pk i \<longleftrightarrow> holds s pk i \<or> (pk = new \<and> i \<in> set rs)"
    and "sessions t = sessions s \<and> users t = users s \<and> key_rotation_requests t = key_rotation_requests s"
proof -
  have "(holds t pk i \<longleftrightarrow> holds s pk i \<or> (pk = new \<and> i \<in> set rs)) \<and> sessions t = sessions s \<and>
      users t = users s \<and> key_rotation_requests t = key_rotation_requests s"
    using assms
  proof (induction rs arbitrary: s)
    case (Cons r rs)
    from Cons.prems obtain u where u: "insert_or_ignore_user_role new r now s = (Inr (), u)"
      "for_each (\<lambda>r. insert_or_ignore_user_role new r now) rs u = (Inr x, t)" by (auto simp: ok_iffs)
    from u(1) have "holds u pk i \<longleftrightarrow> holds s pk i \<or> (pk = new \<and> i = r)"
      by (auto simp: insert_or_ignore_user_role_def ok_iffs holds_def exists_row_iff same_key_def
          split: if_splits)
    with u Cons.IH [OF u(2)] show ?case
      by (auto simp: insert_or_ignore_user_role_def ok_iffs)
  qed (auto simp: ok_iffs)
  then show "holds t pk i \<longleftrightarrow> holds s pk i \<or> (pk = new \<and> i \<in> set rs)"
    and "sessions t = sessions s \<and> users t = users s \<and> key_rotation_requests t = key_rotation_requests s"
    by auto
qed

lemma hand_over_ok:
  assumes "hand_over r now s = (Inr x, t)"
  shows "holds t pk i \<longleftrightarrow> holds s pk i \<or> (pk = rot_new r \<and> holds s (rot_old r) i)"
    and "sessions t = filter (\<lambda>y. session_user y \<noteq> rot_old r) (sessions s)"
    and "user_exists t (rot_new r)" and "request_at j t = request_at j s"
proof -
  from assms obtain u v where u: "insert_or_ignore_user (new_user (rot_new r) now ''approved'' None) s = (Inr (), u)"
    and v: "for_each (\<lambda>q. insert_or_ignore_user_role (rot_new r) q now)
      (map ur_role (filter (\<lambda>q. ur_user q = rot_old r) (user_roles u))) u = (Inr (), v)"
    and t: "t = v\<lparr>sessions := delete_where (\<lambda>y. session_user y = rot_old r) (sessions v)\<rparr>"
    by (auto simp: hand_over_def transfer_roles_def ok_iffs)
  have u': "user_roles u = user_roles s" "sessions u = sessions s"
    "key_rotation_requests u = key_rotation_requests s" "user_exists u (rot_new r)"
    using u by (auto simp: insert_or_ignore_user_def ok_iffs user_exists_def exists_row_iff same_key_def
        new_user_def split: if_splits)
  have old: "i \<in> set (map ur_role (filter (\<lambda>q. ur_user q = rot_old r) (user_roles u))) \<longleftrightarrow>
      holds s (rot_old r) i" using u'(1) by (auto simp: holds_def)
  have "holds v pk i \<longleftrightarrow> holds s pk i \<or> (pk = rot_new r \<and> holds s (rot_old r) i)"
    using transfer_ok(1) [OF v, of pk i] u'(1) unfolding old by (simp add: holds_def)
  then show "holds t pk i \<longleftrightarrow> holds s pk i \<or> (pk = rot_new r \<and> holds s (rot_old r) i)"
    by (simp add: t holds_def)
  show "sessions t = filter (\<lambda>y. session_user y \<noteq> rot_old r) (sessions s)"
    using transfer_ok(2) [OF v] u'(2) by (simp add: t delete_where_def)
  show "user_exists t (rot_new r)" using transfer_ok(2) [OF v] u'(4) by (simp add: t user_exists_def)
  show "request_at j t = request_at j s" using transfer_ok(2) [OF v] u'(3) by (simp add: t request_at_def)
qed

text \<open>
  An approval that succeeds was given by an admin on an open request, and does this: the new
  key exists and holds every role the old key held besides its own, nobody else's roles change,
  exactly the old key's sessions end, and the request records the decision. The old key keeps its
  roles, so it can log in again and use them.
\<close>

theorem approval_effect:
  assumes "admin_approve u i now s = (Inr OK, t)"
  shows "\<exists>r. request_at i s = Some r \<and> open_status (rot_status r) \<and>
     has_permission (user_permissions u s) ADMIN \<and> user_exists t (rot_new r) \<and>
     (\<forall>pk role. holds t pk role \<longleftrightarrow> holds s pk role \<or> (pk = rot_new r \<and> holds s (rot_old r) role)) \<and>
     sessions t = filter (\<lambda>y. session_user y \<noteq> rot_old r) (sessions s) \<and>
     request_at i t = Some (r\<lparr>rot_status := ''approved'', rot_decided_at := Some now,
       rot_decided_by := Some u\<rparr>)"
proof -
  from assms obtain r v where r: "request_at i s = Some r" "open_status (rot_status r)"
    "has_permission (user_permissions u s) ADMIN" and v: "hand_over r now s = (Inr (), v)"
    and t: "decide i ''approved'' u now v = (Inr (), t)"
    unfolding admin_approve_eq by (auto simp: ok_iffs fetch_rotation_request_def request_at_def)
  let ?f = "\<lambda>r. r\<lparr>rot_status := ''approved'', rot_decided_at := Some now, rot_decided_by := Some u\<rparr>"
  from t have t': "t = v\<lparr>key_rotation_requests := update_where (\<lambda>r. rot_id r = i) ?f (key_rotation_requests v)\<rparr>"
    by (simp add: decide_def update_rotation_def ok_iffs)
  have "request_at i t = Some (?f r)"
    using hand_over_ok(4) [OF v] r(1) unfolding t' by (simp add: request_at_update)
  with r hand_over_ok(1-3) [OF v] show ?thesis by (simp add: t' holds_def user_exists_def)
qed

theorem approval_effect_witness:
  "(\<exists>r. request_at ''r1'' demo_recovery = Some r \<and> open_status (rot_status r) \<and>
     has_permission (user_permissions demo_owner demo_recovery) ADMIN \<and>
     user_exists (snd (admin_approve demo_owner ''r1'' 8 demo_recovery)) (rot_new r) \<and>
     (\<forall>pk role. holds (snd (admin_approve demo_owner ''r1'' 8 demo_recovery)) pk role \<longleftrightarrow>
       holds demo_recovery pk role \<or> (pk = rot_new r \<and> holds demo_recovery (rot_old r) role)) \<and>
     sessions (snd (admin_approve demo_owner ''r1'' 8 demo_recovery)) =
       filter (\<lambda>y. session_user y \<noteq> rot_old r) (sessions demo_recovery) \<and>
     request_at ''r1'' (snd (admin_approve demo_owner ''r1'' 8 demo_recovery)) =
       Some (r\<lparr>rot_status := ''approved'', rot_decided_at := Some 8, rot_decided_by := Some demo_owner\<rparr>)) \<and>
   attestation_count demo_rotation demo_recovery = 0"
proof (rule conjI)
  have "fst (admin_approve demo_owner ''r1'' 8 demo_recovery) = Inr OK" by code_simp
  then have "admin_approve demo_owner ''r1'' 8 demo_recovery =
      (Inr OK, snd (admin_approve demo_owner ''r1'' 8 demo_recovery))" by (metis prod.collapse)
  then show "\<exists>r. request_at ''r1'' demo_recovery = Some r \<and> open_status (rot_status r) \<and>
     has_permission (user_permissions demo_owner demo_recovery) ADMIN \<and>
     user_exists (snd (admin_approve demo_owner ''r1'' 8 demo_recovery)) (rot_new r) \<and>
     (\<forall>pk role. holds (snd (admin_approve demo_owner ''r1'' 8 demo_recovery)) pk role \<longleftrightarrow>
       holds demo_recovery pk role \<or> (pk = rot_new r \<and> holds demo_recovery (rot_old r) role)) \<and>
     sessions (snd (admin_approve demo_owner ''r1'' 8 demo_recovery)) =
       filter (\<lambda>y. session_user y \<noteq> rot_old r) (sessions demo_recovery) \<and>
     request_at ''r1'' (snd (admin_approve demo_owner ''r1'' 8 demo_recovery)) =
       Some (r\<lparr>rot_status := ''approved'', rot_decided_at := Some 8, rot_decided_by := Some demo_owner\<rparr>)"
    by (rule approval_effect)
  show "attestation_count demo_rotation demo_recovery = 0" by code_simp
qed

subsection \<open>Attestations\<close>

definition eligible :: "rotate_key_request \<Rightarrow> hub \<Rightarrow> attestation_input \<Rightarrow> bool" where
  "eligible req s a \<longleftrightarrow> ai_attester a \<noteq> rk_old req \<and> ai_attester a \<noteq> rk_new req \<and>
     is_contact (rk_old req) (ai_attester a) s"

lemma store_attestations_counts:
  "wp (store_attestations request_id ids req now i n atts)
     (\<lambda>c _. c = n + int (length (filter (eligible req s) atts))) (\<lambda>_ _. False) t"
  if "recovery_contacts t = recovery_contacts s"
  using that
proof (induction atts arbitrary: i n t)
  case (Cons a atts)
  let ?r = "\<lparr>att_id = ids i, att_request = request_id, att_attester = ai_attester a,
      att_signature = ai_signature a, att_at = now\<rparr>"
  obtain u where u: "insert_or_ignore attestation_conflicts True ?r (rotation_attestations t) = Inr u"
    by (cases "exists_row (attestation_conflicts ?r) (rotation_attestations t)")
      (simp_all add: insert_or_ignore_def)
  have contact: "is_contact (rk_old req) (ai_attester a) t = is_contact (rk_old req) (ai_attester a) s"
    using Cons.prems by (simp add: is_contact_def)
  have counted: "wp (store_attestations request_id ids req now (Suc i) (n + 1) atts)
      (\<lambda>c _. c = n + int (Suc (length (filter (eligible req s) atts)))) (\<lambda>_ _. False)
      (t\<lparr>rotation_attestations := u\<rparr>)"
    using Cons.IH [of "t\<lparr>rotation_attestations := u\<rparr>" "Suc i" "n + 1"] Cons.prems
    by (simp add: add.assoc)
  show ?case
  proof (cases "eligible req s a")
    case True
    with counted u contact show ?thesis
      by (simp add: wps insert_attestation_def eligible_def [of req s a])
  next
    case False
    with Cons.IH [OF Cons.prems] contact show ?thesis
      by (auto simp: wps eligible_def [of req s a])
  qed
qed (simp add: wps)

text \<open>
  What a rotation request reports: it is answered exactly when the old key has configured a
  threshold, the keys differ and the id is fresh; the reported count is the number of entries
  whose attester is a contact and neither of the two keys, and the request is ready for review
  exactly when that number reaches the threshold. Entries are counted as handed in: their
  signatures do not matter and one contact may be named several times.
\<close>

theorem rotation_count_is_unchecked:
  "fst (post_rotate_key request_id ids now req s) =
     (case threshold_of (rk_old req) s of
        None \<Rightarrow> Inl (Reject BAD_REQUEST ''The old pubkey has no recovery contacts configured on this hub'')
      | Some threshold \<Rightarrow>
          if rk_new req = rk_old req
          then Inl (Reject BAD_REQUEST ''new_pubkey must differ from old_pubkey'')
          else if request_at request_id s \<noteq> None then Inl (DbError UNIQUE)
          else Inr (CREATED, \<lparr>rr_id = request_id, rr_old = rk_old req, rr_new = rk_new req,
            rr_status = (if threshold \<le> int (length (filter (eligible req s) (rk_attestations req)))
              then ''ready_for_review'' else ''pending''),
            rr_created = now, rr_count = int (length (filter (eligible req s) (rk_attestations req)))\<rparr>))"
proof -
  let ?R = "new_rotation request_id req now"
  have taken: "request_at request_id s \<noteq> None \<longleftrightarrow>
      exists_row (same_key rot_id ?R) (key_rotation_requests s)"
    by (auto simp: request_at_def row_at_None_iff exists_row_iff same_key_def new_rotation_def)
  obtain c u where stored: "store_attestations request_id ids req now 0 0 (rk_attestations req)
        (s\<lparr>key_rotation_requests := key_rotation_requests s @ [?R]\<rparr>) = (Inr c, u)"
    and c: "c = int (length (filter (eligible req s) (rk_attestations req)))"
    using store_attestations_counts [of "s\<lparr>key_rotation_requests := key_rotation_requests s @ [?R]\<rparr>" s
        request_id ids req now 0 0 "rk_attestations req"]
    by (auto simp: wp_def split: prod.splits sum.splits)
  show ?thesis
  proof (cases "exists_row (same_key rot_id ?R) (key_rotation_requests s)")
    case True
    with taken show ?thesis
      by (auto simp: post_rotate_key_def run_defs insert_rotation_def writing_def insert_row_def
          split: option.splits)
  next
    case False
    with taken stored c show ?thesis
      by (auto simp: post_rotate_key_def run_defs insert_rotation_def writing_def insert_row_def
          update_rotation_def split: option.splits)
  qed
qed

end
