(* ===== verification/Rate_Limit.thy ===== *)
theory Rate_Limit
  imports Complex_Main Prelude "HOL-Library.AList"
begin

text \<open>
  The per-address token buckets of \<^verbatim>\<open>hub/src/rate_limit.rs\<close>. Instants are seconds on the
  monotonic clock and token counts are rationals: the \<^verbatim>\<open>f64\<close> arithmetic of the code is modelled
  without its rounding, so the bounds below are those of the algorithm, not of the last bit. The
  hash map is an association list; its iteration order is never observed.

  The interface \<open>meter\<close> is what a caller may rely on: a level per address that grows at most at the
  sustained rate, pays for every admission and is not touched by anybody else's requests. Its
  client lemmas bound the admissions in any window and give the wait after which a request is
  admitted; the interpretations discharge the laws for the two configurations the hub uses,
  including that dropping idle buckets is unobservable.
\<close>

subsection \<open>Buckets\<close>

record config =
  burst :: nat
  refill_per_sec :: rat

definition AUTH :: config where
  "AUTH = \<lparr>burst = 10, refill_per_sec = 1\<rparr>"

definition WRITE :: config where
  "WRITE = \<lparr>burst = 30, refill_per_sec = 10\<rparr>"

record bucket =
  tokens :: rat
  last_refill :: rat

type_synonym 'ip buckets = "('ip \<times> bucket) list"

text \<open>\<^verbatim>\<open>Instant::duration_since\<close> saturates at zero.\<close>

definition duration_since :: "rat \<Rightarrow> rat \<Rightarrow> rat" where
  "duration_since now earlier = max 0 (now - earlier)"

definition refill :: "config \<Rightarrow> rat \<Rightarrow> bucket \<Rightarrow> rat" where
  "refill cfg now b =
     min (tokens b + duration_since now (last_refill b) * refill_per_sec cfg) (of_nat (burst cfg))"

definition bucket_entry :: "config \<Rightarrow> rat \<Rightarrow> 'ip \<Rightarrow> 'ip buckets \<Rightarrow> bucket" where
  "bucket_entry cfg now ip bs =
     (case map_of bs ip of
        None \<Rightarrow> \<lparr>tokens = of_nat (burst cfg), last_refill = now\<rparr> | Some b \<Rightarrow> b)"

definition cleanup :: "rat \<Rightarrow> 'ip buckets \<Rightarrow> 'ip buckets" where
  "cleanup now bs =
     (if 10000 < length bs
      then filter (\<lambda>(ip, b). duration_since now (last_refill b) < 600) bs else bs)"

definition check_ip :: "config \<Rightarrow> rat \<Rightarrow> 'ip \<Rightarrow> 'ip buckets \<Rightarrow> bool \<times> 'ip buckets" where
  "check_ip cfg now ip bs =
     (let t = refill cfg now (bucket_entry cfg now ip bs)
      in if 1 \<le> t then (True, cleanup now (AList.update ip \<lparr>tokens = t - 1, last_refill = now\<rparr> bs))
         else (False, AList.update ip \<lparr>tokens = t, last_refill = now\<rparr> bs))"

text \<open>The middleware: requests without connection information pass.\<close>

definition enforce :: "config \<Rightarrow> rat \<Rightarrow> 'ip option \<Rightarrow> ('ip buckets, unit) handler" where
  "enforce cfg now ip =
     (case ip of None \<Rightarrow> ret ()
      | Some a \<Rightarrow> \<lambda>bs. (case check_ip cfg now a bs of
          (True, t) \<Rightarrow> (Inr (), t)
        | (False, t) \<Rightarrow> (Inl (Reject TOO_MANY_REQUESTS ''Rate limit exceeded''), t)))"

subsection \<open>What a limiter promises\<close>

text \<open>The number of admissions of address \<open>k\<close> in a sequence of requests, each with its time.\<close>

fun admissions :: "(rat \<Rightarrow> 'k \<Rightarrow> 's \<Rightarrow> bool \<times> 's) \<Rightarrow> 'k \<Rightarrow> 's \<Rightarrow> (rat \<times> 'k) list \<Rightarrow> nat" where
  "admissions chk k s [] = 0"
| "admissions chk k s ((now, j) # es) =
     (case chk now j s of (ok, t) \<Rightarrow>
        (if ok \<and> j = k then 1 else 0) + admissions chk k t es)"

text \<open>The clock is monotonic: times do not decrease, starting at \<open>t\<close>; the last one is \<open>ending t es\<close>.\<close>

fun in_order :: "rat \<Rightarrow> (rat \<times> 'k) list \<Rightarrow> bool" where
  "in_order t [] \<longleftrightarrow> True"
| "in_order t ((now, j) # es) \<longleftrightarrow> t \<le> now \<and> in_order now es"

fun ending :: "rat \<Rightarrow> (rat \<times> 'k) list \<Rightarrow> rat" where
  "ending t [] = t"
| "ending t ((now, j) # es) = ending now es"

locale meter =
  fixes wf :: "rat \<Rightarrow> 's \<Rightarrow> bool"
    and level :: "'s \<Rightarrow> 'k \<Rightarrow> rat \<Rightarrow> rat"
    and chk :: "rat \<Rightarrow> 'k \<Rightarrow> 's \<Rightarrow> bool \<times> 's"
    and cap :: rat
    and rate :: rat
  assumes rate_pos: "0 < rate"
    and cap_ge: "1 \<le> cap"
    and level_range: "wf t s \<Longrightarrow> t \<le> now \<Longrightarrow> 0 \<le> level s k now \<and> level s k now \<le> cap"
    and level_grows: "wf t s \<Longrightarrow> t \<le> u \<Longrightarrow> u \<le> now \<Longrightarrow>
      level s k now = min cap (level s k u + (now - u) * rate)"
    and admits_iff: "wf t s \<Longrightarrow> t \<le> now \<Longrightarrow> fst (chk now k s) \<longleftrightarrow> 1 \<le> level s k now"
    and pays: "wf t s \<Longrightarrow> t \<le> now \<Longrightarrow>
      level (snd (chk now k s)) k now = level s k now - (if fst (chk now k s) then 1 else 0)"
    and isolated: "wf t s \<Longrightarrow> t \<le> now \<Longrightarrow> j \<noteq> k \<Longrightarrow>
      level (snd (chk now j s)) k now = level s k now"
    and wf_chk: "wf t s \<Longrightarrow> t \<le> now \<Longrightarrow> wf now (snd (chk now k s))"
begin

lemma window_bound_level:
  assumes "wf t s" "in_order t es"
  shows "rat_of_nat (admissions chk k s es) \<le> level s k t + (ending t es - t) * rate"
  using assms
proof (induction es arbitrary: s t)
  case Nil
  then show ?case using level_range [of t s t k] by simp
next
  case (Cons e es)
  obtain now j where e: "e = (now, j)" by (cases e)
  obtain ok u where u: "chk now j s = (ok, u)" by (cases "chk now j s")
  from Cons.prems e have now: "t \<le> now" "in_order now es" by simp_all
  have wf: "wf now u" using wf_chk [OF Cons.prems(1) now(1), of j] u by simp
  have "level u k now = level s k now - (if ok \<and> j = k then 1 else 0)"
    using pays [OF Cons.prems(1) now(1), of j] isolated [OF Cons.prems(1) now(1), of j k] u
    by (cases "j = k") auto
  moreover have "level s k now \<le> level s k t + (now - t) * rate"
    using level_grows [OF Cons.prems(1) order_refl now(1)] by simp
  moreover have "rat_of_nat (admissions chk k u es) \<le> level u k now + (ending now es - now) * rate"
    using Cons.IH [OF wf now(2)] .
  ultimately show ?case using e u by (auto simp: algebra_simps)
qed

lemma window_bound:
  "wf t s \<Longrightarrow> in_order t es \<Longrightarrow>
   rat_of_nat (admissions chk k s es) \<le> cap + (ending t es - t) * rate"
  using window_bound_level [of t s es k] level_range [of t s t k] by fastforce

text \<open>The wait after which a request is admitted, whatever others do in the meantime.\<close>

lemma level_after_others:
  assumes "wf t s" "in_order t es" "k \<notin> snd ` set es" "ending t es \<le> now"
  shows "level (run (\<lambda>s (u, j). snd (chk u j s)) s es) k now = level s k now \<and>
    wf (ending t es) (run (\<lambda>s (u, j). snd (chk u j s)) s es) \<and> t \<le> ending t es"
  using assms
proof (induction es arbitrary: s t)
  case (Cons e es)
  obtain u j where e: "e = (u, j)" by (cases e)
  let ?s = "snd (chk u j s)"
  from Cons.prems e have u: "t \<le> u" "in_order u es" "j \<noteq> k" by auto
  have wf: "wf u ?s" using wf_chk [OF Cons.prems(1) u(1)] .
  have IH: "level (run (\<lambda>s (u, j). snd (chk u j s)) ?s es) k now = level ?s k now"
    "wf (ending u es) (run (\<lambda>s (u, j). snd (chk u j s)) ?s es)" "u \<le> ending u es"
    using Cons.IH [OF wf u(2)] Cons.prems(3,4) e by auto
  from IH(3) Cons.prems(4) e have "u \<le> now" by simp
  then have "level ?s k now = level s k now"
    using level_grows [OF wf order_refl, of now k] level_grows [OF Cons.prems(1) u(1), of now k]
      isolated [OF Cons.prems(1) u(1,3)] by simp
  with IH u e show ?case by simp
qed simp

lemma admitted_after_wait:
  assumes "wf t s" "in_order t es" "k \<notin> snd ` set es" "ending t es \<le> now" "1 \<le> (now - t) * rate"
  shows "fst (chk now k (run (\<lambda>s (u, j). snd (chk u j s)) s es))"
proof -
  have "t \<le> now" using level_after_others [OF assms(1-4)] assms(4) by linarith
  then have "level s k now = min cap (level s k t + (now - t) * rate)"
    by (rule level_grows [OF assms(1) order_refl])
  moreover have "0 \<le> level s k t" using level_range [OF assms(1) order_refl] by blast
  ultimately have "1 \<le> level s k now" using assms(5) cap_ge by linarith
  then show ?thesis
    using level_after_others [OF assms(1-4)] admits_iff [of "ending t es"] assms(4) by auto
qed

end

subsection \<open>The buckets are a meter\<close>

definition level_of :: "config \<Rightarrow> 'ip buckets \<Rightarrow> 'ip \<Rightarrow> rat \<Rightarrow> rat" where
  "level_of cfg bs ip now = refill cfg now (bucket_entry cfg now ip bs)"

text \<open>Stored buckets: one per address, between empty and full, refilled no later than \<open>t\<close>.\<close>

definition buckets_ok :: "config \<Rightarrow> rat \<Rightarrow> 'ip buckets \<Rightarrow> bool" where
  "buckets_ok cfg t bs \<longleftrightarrow> distinct (map fst bs) \<and>
     (\<forall>b \<in> snd ` set bs. 0 \<le> tokens b \<and> tokens b \<le> of_nat (burst cfg) \<and> last_refill b \<le> t)"

text \<open>Ten idle minutes must be enough to fill a bucket, or dropping idle buckets would be felt.\<close>

definition sound_config :: "config \<Rightarrow> bool" where
  "sound_config cfg \<longleftrightarrow> 0 < refill_per_sec cfg \<and> 1 \<le> burst cfg \<and>
     of_nat (burst cfg) \<le> 600 * refill_per_sec cfg"

lemma sound_configs: "sound_config AUTH" "sound_config WRITE"
  by (simp_all add: sound_config_def AUTH_def WRITE_def)

lemma map_of_filter:
  "distinct (map fst bs) \<Longrightarrow> map_of (filter (\<lambda>(k, b). P b) bs) k =
     (case map_of bs k of None \<Rightarrow> None | Some b \<Rightarrow> if P b then Some b else None)"
  by (induction bs) (auto split: option.splits dest: map_of_SomeD simp: rev_image_eqI)

lemma stored_bucket:
  assumes "buckets_ok cfg t bs" "map_of bs ip = Some b"
  shows "0 \<le> tokens b \<and> tokens b \<le> of_nat (burst cfg) \<and> last_refill b \<le> t"
  using assms(1) map_of_SomeD [OF assms(2)] by (force simp: buckets_ok_def)

lemma level_of_eq:
  assumes "buckets_ok cfg t bs" "t \<le> now"
  shows "level_of cfg bs ip now = (case map_of bs ip of None \<Rightarrow> of_nat (burst cfg)
    | Some b \<Rightarrow> min (tokens b + (now - last_refill b) * refill_per_sec cfg) (of_nat (burst cfg)))"
  using stored_bucket [OF assms(1), of ip] assms(2)
  by (auto simp: level_of_def refill_def bucket_entry_def duration_since_def split: option.splits)

lemma level_of_range:
  assumes "sound_config cfg" "buckets_ok cfg t bs" "t \<le> now"
  shows "0 \<le> level_of cfg bs ip now \<and> level_of cfg bs ip now \<le> of_nat (burst cfg)"
  using stored_bucket [OF assms(2), of ip] assms(1,3)
  by (auto simp: level_of_eq [OF assms(2,3)] sound_config_def split: option.splits)

lemma level_of_grows:
  assumes "sound_config cfg" "buckets_ok cfg t bs" "t \<le> u" "u \<le> now"
  shows "level_of cfg bs ip now =
    min (of_nat (burst cfg)) (level_of cfg bs ip u + (now - u) * refill_per_sec cfg)"
proof -
  let ?r = "refill_per_sec cfg"
  have gain: "0 \<le> (now - u) * ?r" using assms(1,4) by (simp add: sound_config_def)
  show ?thesis
  proof (cases "map_of bs ip")
    case None
    then show ?thesis using gain assms(3,4) by (simp add: level_of_eq [OF assms(2)])
  next
    case (Some b)
    have "(now - last_refill b) * ?r = (u - last_refill b) * ?r + (now - u) * ?r"
      by (simp add: algebra_simps)
    with Some gain assms(3,4) show ?thesis by (simp add: level_of_eq [OF assms(2)] min_def)
  qed
qed

lemma cleanup_ok: "buckets_ok cfg t bs \<Longrightarrow> buckets_ok cfg t (cleanup now bs)"
  by (auto simp: buckets_ok_def cleanup_def distinct_map inj_on_def)

text \<open>Dropping idle buckets changes no level.\<close>

lemma level_of_cleanup:
  assumes "sound_config cfg" "buckets_ok cfg now bs"
  shows "level_of cfg (cleanup now bs) ip now = level_of cfg bs ip now"
proof -
  let ?r = "refill_per_sec cfg"
  have d: "distinct (map fst bs)" using assms(2) by (simp add: buckets_ok_def)
  have kept: "map_of (filter (\<lambda>(ip, b). duration_since now (last_refill b) < 600) bs) ip =
      (case map_of bs ip of None \<Rightarrow> None
       | Some b \<Rightarrow> if duration_since now (last_refill b) < 600 then Some b else None)"
    by (rule map_of_filter [OF d])
  have full: "of_nat (burst cfg) \<le> tokens b + (now - last_refill b) * ?r"
    if "map_of bs ip = Some b" "\<not> duration_since now (last_refill b) < 600" for b
  proof -
    have "600 * ?r \<le> (now - last_refill b) * ?r"
      using that assms(1) by (intro mult_right_mono) (auto simp: duration_since_def sound_config_def)
    moreover have "0 \<le> tokens b" "of_nat (burst cfg) \<le> 600 * ?r"
      using stored_bucket [OF assms(2) that(1)] assms(1) by (simp_all add: sound_config_def)
    ultimately show ?thesis by linarith
  qed
  show ?thesis
    using full kept
    unfolding level_of_eq [OF assms(2) order_refl] level_of_eq [OF cleanup_ok [OF assms(2)] order_refl]
    by (auto simp: cleanup_def min_absorb2 split: option.splits)
qed

lemma update_ok:
  assumes "buckets_ok cfg t bs" "t \<le> now" "0 \<le> x" "x \<le> of_nat (burst cfg)"
  shows "buckets_ok cfg now (AList.update ip \<lparr>tokens = x, last_refill = now\<rparr> bs)"
proof -
  have "b \<in> snd ` set bs \<or> b = \<lparr>tokens = x, last_refill = now\<rparr>"
    if "b \<in> snd ` set (AList.update ip \<lparr>tokens = x, last_refill = now\<rparr> bs)" for b
    using that by (induction bs) (auto split: if_splits simp: image_iff)
  note stored = this
  show ?thesis
    unfolding buckets_ok_def
  proof (intro conjI ballI)
    show "distinct (map fst (AList.update ip \<lparr>tokens = x, last_refill = now\<rparr> bs))"
      using assms(1) by (simp add: buckets_ok_def distinct_update)
    fix b
    assume "b \<in> snd ` set (AList.update ip \<lparr>tokens = x, last_refill = now\<rparr> bs)"
    then consider "b \<in> snd ` set bs" | "b = \<lparr>tokens = x, last_refill = now\<rparr>" using stored by blast
    then show "0 \<le> tokens b" "tokens b \<le> of_nat (burst cfg)" "last_refill b \<le> now"
      using assms by (cases; force simp: buckets_ok_def)+
  qed
qed

lemma level_of_update:
  assumes "buckets_ok cfg t bs" "t \<le> now" "0 \<le> x" "x \<le> of_nat (burst cfg)"
  shows "level_of cfg (AList.update j \<lparr>tokens = x, last_refill = now\<rparr> bs) ip now =
    (if ip = j then x else level_of cfg bs ip now)"
  using level_of_eq [OF update_ok [OF assms] order_refl, of j ip] assms(4)
  by (simp add: level_of_eq [OF assms(1,2)] update_conv)

lemma check_ip_eq:
  assumes "sound_config cfg" "buckets_ok cfg t bs" "t \<le> now"
  shows "fst (check_ip cfg now j bs) \<longleftrightarrow> 1 \<le> level_of cfg bs j now"
    and "buckets_ok cfg now (snd (check_ip cfg now j bs))"
    and "level_of cfg (snd (check_ip cfg now j bs)) ip now =
      level_of cfg bs ip now - (if ip = j \<and> fst (check_ip cfg now j bs) then 1 else 0)"
proof -
  let ?l = "level_of cfg bs j now"
  note range = level_of_range [OF assms, of j]
  note updates = update_ok [OF assms(2,3)] level_of_update [OF assms(2,3)]
  have chk: "check_ip cfg now j bs =
      (if 1 \<le> ?l then (True, cleanup now (AList.update j \<lparr>tokens = ?l - 1, last_refill = now\<rparr> bs))
       else (False, AList.update j \<lparr>tokens = ?l, last_refill = now\<rparr> bs))"
    by (simp add: check_ip_def level_of_def)
  show "fst (check_ip cfg now j bs) \<longleftrightarrow> 1 \<le> ?l" by (simp add: chk)
  show "buckets_ok cfg now (snd (check_ip cfg now j bs))"
    using range updates(1) by (simp add: chk cleanup_ok)
  show "level_of cfg (snd (check_ip cfg now j bs)) ip now =
      level_of cfg bs ip now - (if ip = j \<and> fst (check_ip cfg now j bs) then 1 else 0)"
    using range updates by (simp add: chk level_of_cleanup [OF assms(1)])
qed

lemma limiter_is_meter:
  assumes "sound_config cfg"
  shows "meter (buckets_ok cfg) (level_of cfg) (check_ip cfg) (of_nat (burst cfg)) (refill_per_sec cfg)"
proof
  show "0 < refill_per_sec cfg" "1 \<le> rat_of_nat (burst cfg)"
    using assms by (simp_all add: sound_config_def)
  show "level_of cfg bs ip now = min (of_nat (burst cfg)) (level_of cfg bs ip u + (now - u) * refill_per_sec cfg)"
    if "buckets_ok cfg t bs" "t \<le> u" "u \<le> now" for t u now and bs :: "'a buckets" and ip
    using assms that by (rule level_of_grows)
qed (simp_all add: level_of_range [OF assms] check_ip_eq [OF assms])

interpretation auth: meter "buckets_ok AUTH" "level_of AUTH" "check_ip AUTH" "of_nat (burst AUTH)"
  "refill_per_sec AUTH"
  by (rule limiter_is_meter) (rule sound_configs)

interpretation writes: meter "buckets_ok WRITE" "level_of WRITE" "check_ip WRITE" "of_nat (burst WRITE)"
  "refill_per_sec WRITE"
  by (rule limiter_is_meter) (rule sound_configs)

lemma no_buckets_ok [simp]: "buckets_ok cfg t []"
  by (simp add: buckets_ok_def)

subsection \<open>What the hub's two limiters guarantee\<close>



text \<open>
  Nobody is locked out: an address that has been quiet for one second gets its next
  authentication request through, and one quiet for a tenth of a second its next write, whatever
  other addresses send in the meantime.
\<close>

theorem quiet_address_is_admitted:
  assumes "in_order t es" "ip \<notin> snd ` set es" "ending t es \<le> now"
    and "buckets_ok AUTH t bs" and "buckets_ok WRITE t cs"
  shows "(t + 1 \<le> now \<longrightarrow>
      fst (enforce AUTH now (Some ip) (run (\<lambda>s (u, j). snd (check_ip AUTH u j s)) bs es)) = Inr ()) \<and>
    (t + 1/10 \<le> now \<longrightarrow>
      fst (enforce WRITE now (Some ip) (run (\<lambda>s (u, j). snd (check_ip WRITE u j s)) cs es)) = Inr ())"
  using auth.admitted_after_wait [OF assms(4,1,2,3)] writes.admitted_after_wait [OF assms(5,1,2,3)]
  by (auto simp: enforce_def AUTH_def WRITE_def split: prod.splits bool.splits)

theorem quiet_address_is_admitted_witness:
  "fst (enforce AUTH 2 (Some 1) (run (\<lambda>s (u, j). snd (check_ip AUTH u j s))
     [(1::nat, \<lparr>tokens = 0, last_refill = 1\<rparr>)] [(1, 7)])) = Inr ()"
  using quiet_address_is_admitted [of 1 "[(1, 7)]" 1 2 "[(1::nat, \<lparr>tokens = 0, last_refill = 1\<rparr>)]" "[]"]
  by (simp add: buckets_ok_def AUTH_def)

end
