(* ===== verification/Farm.thy ===== *)
theory Farm
  imports Auth
begin

text \<open>
  The farm process, from \<^verbatim>\<open>farm/src\<close>: its database, the signed session tokens of \<^verbatim>\<open>token.rs\<close>,
  the login, renewal and revocation endpoints of \<^verbatim>\<open>routes/auth.rs\<close>, \<^verbatim>\<open>routes/revoke.rs\<close> and
  \<^verbatim>\<open>routes/admin.rs\<close>.

  \<open>clk i\<close> is the \<open>i\<close>-th reading of the clock in a handler. JSON and base64url are third-party crates: the argument \<open>F\<close>, with what is relied on in
  \<open>farm_codec_ok\<close>. A JSON error body is kept as its \<^verbatim>\<open>error\<close> member, followed by \<^verbatim>\<open>details\<close> where
  the code gives some.

  Main results: a token that the farm mints is accepted by the farm and by every hub that caches
  its key, until it expires; a minted token was paid for by a signature over the farm's challenge;
  a revoked session stays revoked, and yet its token can be renewed.
\<close>

subsection \<open>The database\<close>

record farm_row =
  farm_name :: string
  farm_description :: "string option"
  directory_public :: int
  creation_policy :: string
  max_hubs_per_user :: int
  max_hubs_total :: int
  allow_discovery :: int
  farm_languages :: string
  farm_tags :: string
  farm_country :: "string option"
  farm_region :: "string option"
  admin_pubkey :: "string option"

record farm_user_row =
  fu_key :: string
  fu_master :: "string option"
  fu_first_seen :: int
  fu_last_seen :: int

record farm_challenge_row =
  fch_key :: string
  fch_hex :: string
  fch_expires :: int

record farm_session_row =
  fse_jti :: string
  fse_key :: string
  fse_issued :: int
  fse_expires :: int
  fse_revoked :: "int option"
  fse_scope :: string
  fse_manually :: int

record farm_hub_row =
  fh_id :: string
  fh_owner :: string
  fh_name :: string
  fh_description :: "string option"
  fh_visibility :: string
  fh_port :: "int option"
  fh_db_path :: string
  fh_created :: int
  fh_suspended :: "int option"
  fh_reason :: "string option"
  fh_deleted :: "int option"

record farm_game_row =
  fg_id :: string
  fg_name :: string
  fg_entry_url :: string
  fg_description :: "string option"
  fg_thumbnail :: "string option"
  fg_version :: string
  fg_author :: "string option"
  fg_min_players :: int
  fg_max_players :: int
  fg_grant :: string
  fg_installed_by :: "string option"
  fg_installed_at :: "string option"

record farm_kv_row =
  kv_game :: string
  kv_user :: string
  kv_key :: string
  kv_value :: string
  kv_updated :: string

text \<open>The farm: its key and URL, the tables, and the hub processes it runs with their ports.\<close>

type_synonym u16 = "16 word"

record farm =
  farm_seed :: "u8 list"
  own_url :: string
  farms :: "farm_row option"
  farm_users :: "farm_user_row list"
  farm_challenges :: "farm_challenge_row list"
  farm_sessions :: "farm_session_row list"
  farm_hubs :: "farm_hub_row list"
  farm_games :: "farm_game_row list"
  game_kv :: "farm_kv_row list"
  running :: "(string \<times> u16) list"

type_synonym 'a farm_handler = "(farm, 'a) handler"

subsection \<open>Tokens\<close>

record farm_payload =
  fp_v :: nat
  fp_iss :: string
  fp_iss_pk :: string
  fp_sub :: string
  fp_master :: "string option"
  fp_jti :: string
  fp_iat :: int
  fp_exp :: int
  fp_scope :: string

record farm_codec =
  to_vec :: "farm_payload \<Rightarrow> u8 list"
  from_slice :: "u8 list \<Rightarrow> farm_payload option"
  b64_encode :: "u8 list \<Rightarrow> string"
  b64_read :: "string \<Rightarrow> u8 list option"
  strings_json :: "string list \<Rightarrow> string"

text \<open>Documented behaviour of the codecs.\<close>

definition farm_codec_ok :: "farm_codec \<Rightarrow> bool" where
  "farm_codec_ok F \<longleftrightarrow>
     (\<forall>p. from_slice F (to_vec F p) = Some p) \<and>
     (\<forall>bs. b64_read F (b64_encode F bs) = Some bs \<and> CHR ''.'' \<notin> set (b64_encode F bs))"

definition sign_token :: "crypto \<Rightarrow> farm_codec \<Rightarrow> u8 list \<Rightarrow> farm_payload \<Rightarrow> string" where
  "sign_token K F seed p =
     (let payload_bytes = to_vec F p
      in b64_encode F payload_bytes @ ''.'' @ b64_encode F (ed25519_sign K seed payload_bytes))"

definition quoted_dot :: string where
  "quoted_dot = [CHR 0x27, CHR ''.'', CHR 0x27]"

definition verify_token :: "crypto \<Rightarrow> farm_codec \<Rightarrow> string \<Rightarrow> int \<Rightarrow> string \<Rightarrow> string + farm_payload" where
  "verify_token K F farm_pubkey_hex now token_str =
     (if CHR ''.'' \<notin> set token_str then Inl (''Token missing '' @ quoted_dot @ '' separator'')
      else
        let payload_b64 = takeWhile (\<lambda>c. c \<noteq> CHR ''.'') token_str;
            sig_b64 = tl (dropWhile (\<lambda>c. c \<noteq> CHR ''.'') token_str) in
        case b64_read F payload_b64 of
          None \<Rightarrow> Inl ''Invalid base64url in token payload''
        | Some payload_bytes \<Rightarrow>
        (case b64_read F sig_b64 of
          None \<Rightarrow> Inl ''Invalid base64url in token signature''
        | Some sig_bytes \<Rightarrow>
        (case hex_decode K farm_pubkey_hex of
          Inl _ \<Rightarrow> Inl ''Invalid farm pubkey hex''
        | Inr pub_bytes \<Rightarrow>
          if length pub_bytes \<noteq> 32 then Inl ''Farm pubkey must be 32 bytes''
          else if \<not> verifying_key_ok K pub_bytes then Inl ''Invalid farm pubkey''
          else if length sig_bytes \<noteq> 64 then Inl ''Signature must be 64 bytes''
          else if \<not> ed25519_verify K pub_bytes payload_bytes sig_bytes
            then Inl ''Token signature verification failed''
          else (case from_slice F payload_bytes of
            None \<Rightarrow> Inl ''Failed to deserialise token payload''
          | Some payload \<Rightarrow>
            if fp_exp payload \<le> now then Inl ''Token has expired''
            else if fp_iss_pk payload \<noteq> farm_pubkey_hex
              then Inl ''Token iss_pk does not match cached farm pubkey''
            else Inr payload))))"

definition farm_public_key :: "crypto \<Rightarrow> farm \<Rightarrow> string" where
  "farm_public_key K s = hex_encode K (ed25519_public K (farm_seed s))"

subsection \<open>Logging in at the farm\<close>

definition SESSION_TTL :: int where
  "SESSION_TTL = 30 * 24 * 60 * 60"

definition farm_challenge :: "crypto \<Rightarrow> string \<Rightarrow> u8 list \<Rightarrow> int \<Rightarrow> string farm_handler" where
  "farm_challenge K public_key nonce now =
     (let r = \<lparr>fch_key = public_key, fch_hex = hex_encode K nonce, fch_expires = now + 60\<rparr> in
      and_then (writing (\<lambda>s. upsert (same_key fch_key) True r (\<lambda>_. r) (farm_challenges s))
        (\<lambda>t s. s\<lparr>farm_challenges := t\<rparr>)) (\<lambda>_.
      ret (hex_encode K nonce)))"

record farm_verify_request =
  fv_public_key :: string
  fv_signature :: string
  fv_scope :: "string option"

definition normalise_scope :: "string option \<Rightarrow> string" where
  "normalise_scope s = (if s = Some ''lobby'' then ''lobby'' else ''member'')"

definition drop_challenge :: "string \<Rightarrow> unit farm_handler" where
  "drop_challenge pk =
     modify (\<lambda>s. s\<lparr>farm_challenges := delete_where (\<lambda>r. fch_key r = pk) (farm_challenges s)\<rparr>)"

definition upsert_farm_account :: "string \<Rightarrow> int \<Rightarrow> unit farm_handler" where
  "upsert_farm_account pk now =
     writing (\<lambda>s. upsert (same_key fu_key) True
         \<lparr>fu_key = pk, fu_master = None, fu_first_seen = now, fu_last_seen = now\<rparr>
         (\<lambda>u. u\<lparr>fu_last_seen := now\<rparr>) (farm_users s))
       (\<lambda>t s. s\<lparr>farm_users := t\<rparr>)"

definition insert_farm_session :: "string \<Rightarrow> string \<Rightarrow> int \<Rightarrow> int \<Rightarrow> string \<Rightarrow> unit farm_handler" where
  "insert_farm_session jti pk now exp scope =
     writing (\<lambda>s. insert_row (same_key fse_jti) (exists_row (\<lambda>u. fu_key u = pk) (farm_users s))
         \<lparr>fse_jti = jti, fse_key = pk, fse_issued = now, fse_expires = exp, fse_revoked = None,
          fse_scope = scope, fse_manually = 0\<rparr> (farm_sessions s))
       (\<lambda>t s. s\<lparr>farm_sessions := t\<rparr>)"

definition farm_verify :: "crypto \<Rightarrow> farm_codec \<Rightarrow> u8 list \<Rightarrow> int \<Rightarrow> farm_verify_request \<Rightarrow> string farm_handler" where
  "farm_verify K F random now req =
     (let pk = fv_public_key req; jti = hex_encode K random; exp = now + SESSION_TTL;
          scope = normalise_scope (fv_scope req) in
      and_then (gets (\<lambda>s. row_at fch_key pk (farm_challenges s))) (\<lambda>row.
      and_then (ok_or row (Reject UNAUTHORIZED ''No pending challenge for this key'')) (\<lambda>ch.
      and_then (if fch_expires ch \<le> now
        then and_then (drop_challenge pk) (\<lambda>_. fail (Reject UNAUTHORIZED ''Challenge expired''))
        else ret ()) (\<lambda>_.
      and_then (lift (case hex_decode K (fch_hex ch) of
          Inl _ \<Rightarrow> Inl (Reject INTERNAL_SERVER_ERROR ''Bad challenge hex in DB'') | Inr b \<Rightarrow> Inr b)) (\<lambda>challenge_bytes.
      and_then (lift (case hex_decode K (fv_signature req) of
          Inl _ \<Rightarrow> Inl (Reject BAD_REQUEST ''Invalid signature hex'') | Inr b \<Rightarrow> Inr b)) (\<lambda>sig_bytes.
      and_then (check (verify_signature K pk challenge_bytes sig_bytes = Inr ())
        (Reject UNAUTHORIZED ''Invalid signature'')) (\<lambda>_.
      and_then (drop_challenge pk) (\<lambda>_.
      and_then (upsert_farm_account pk now) (\<lambda>_.
      and_then (insert_farm_session jti pk now exp scope) (\<lambda>_.
      gets (\<lambda>s. sign_token K F (farm_seed s)
        \<lparr>fp_v = 1, fp_iss = own_url s, fp_iss_pk = farm_public_key K s, fp_sub = pk, fp_master = None,
         fp_jti = jti, fp_iat = now, fp_exp = exp, fp_scope = scope\<rparr>)))))))))))"

definition extract_bearer :: "string option \<Rightarrow> string farm_handler" where
  "extract_bearer header =
     ok_or (case header of None \<Rightarrow> None | Some h \<Rightarrow> strip_prefix ''Bearer '' h)
       (Reject UNAUTHORIZED ''Missing or invalid Authorization header'')"

definition farm_renew :: "crypto \<Rightarrow> farm_codec \<Rightarrow> u8 list \<Rightarrow> (nat \<Rightarrow> int) \<Rightarrow> string option \<Rightarrow> string farm_handler" where
  "farm_renew K F random clk header =
     (let now = clk 1; new_jti = hex_encode K random; new_exp = now + SESSION_TTL in
      and_then (extract_bearer header) (\<lambda>token_str.
      and_then (gets (farm_public_key K)) (\<lambda>farm_pubkey.
      and_then (lift (case verify_token K F farm_pubkey (clk 0) token_str of
          Inl e \<Rightarrow> Inl (Reject UNAUTHORIZED (''Invalid farm token: '' @ e)) | Inr p \<Rightarrow> Inr p)) (\<lambda>old.
      and_then (insert_farm_session new_jti (fp_sub old) now new_exp (fp_scope old)) (\<lambda>_.
      gets (\<lambda>s. sign_token K F (farm_seed s)
        \<lparr>fp_v = 1, fp_iss = own_url s, fp_iss_pk = farm_pubkey, fp_sub = fp_sub old,
         fp_master = fp_master old, fp_jti = new_jti, fp_iat = now, fp_exp = new_exp,
         fp_scope = fp_scope old\<rparr>))))))"

subsection \<open>Revocation\<close>

definition revoke_check :: "string \<Rightarrow> int \<Rightarrow> bool farm_handler" where
  "revoke_check jti now =
     gets (\<lambda>s. case row_at fse_jti jti (farm_sessions s) of None \<Rightarrow> True
       | Some r \<Rightarrow> fse_revoked r \<noteq> None \<or> fse_expires r \<le> now)"

definition require_auth :: "crypto \<Rightarrow> farm_codec \<Rightarrow> int \<Rightarrow> string option \<Rightarrow> farm_payload farm_handler" where
  "require_auth K F now header =
     and_then (gets (farm_public_key K)) (\<lambda>farm_pubkey.
     and_then (ok_or (case header of None \<Rightarrow> None | Some h \<Rightarrow> strip_prefix ''Bearer '' h)
       (Reject UNAUTHORIZED ''missing_token'')) (\<lambda>token_str.
     lift (case verify_token K F farm_pubkey now token_str of
       Inl _ \<Rightarrow> Inl (Reject UNAUTHORIZED ''invalid_token'') | Inr p \<Rightarrow> Inr p)))"

definition get_admin_pubkey :: "farm \<Rightarrow> string option" where
  "get_admin_pubkey s = (case farms s of None \<Rightarrow> None | Some r \<Rightarrow> admin_pubkey r)"

definition require_admin :: "crypto \<Rightarrow> farm_codec \<Rightarrow> int \<Rightarrow> string option \<Rightarrow> string farm_handler" where
  "require_admin K F now header =
     and_then (require_auth K F now header) (\<lambda>payload.
     and_then (gets get_admin_pubkey) (\<lambda>admin.
     and_then (check (admin = Some (fp_sub payload)) (Reject FORBIDDEN ''farm_admin_only'')) (\<lambda>_.
     ret (fp_sub payload))))"

definition session_live :: "string \<Rightarrow> int \<Rightarrow> farm_session_row \<Rightarrow> bool" where
  "session_live pk now r \<longleftrightarrow> fse_key r = pk \<and> fse_revoked r = None \<and> now < fse_expires r"

definition revoke_user_sessions :: "crypto \<Rightarrow> farm_codec \<Rightarrow> string option \<Rightarrow> string \<Rightarrow> (nat \<Rightarrow> int) \<Rightarrow> nat farm_handler" where
  "revoke_user_sessions K F header pk clk =
     (let now = clk 1 in
     and_then (require_admin K F (clk 0) header) (\<lambda>_.
     and_then (gets (\<lambda>s. fetch_optional (\<lambda>u. fu_key u = pk) (farm_users s))) (\<lambda>exists.
     and_then (check (exists \<noteq> None) (Reject NOT_FOUND ''user_not_found'')) (\<lambda>_.
     and_then (gets (\<lambda>s. count_rows (session_live pk now) (farm_sessions s))) (\<lambda>rows_affected.
     and_then (modify (\<lambda>s. s\<lparr>farm_sessions := update_where (session_live pk now)
       (\<lambda>r. r\<lparr>fse_revoked := Some now, fse_manually := 1\<rparr>) (farm_sessions s)\<rparr>)) (\<lambda>_.
     ret rows_affected))))))"

subsection \<open>Minted tokens are accepted\<close>

lemma token_parts:
  assumes "CHR ''.'' \<notin> set a"
  shows "takeWhile (\<lambda>c. c \<noteq> CHR ''.'') (a @ ''.'' @ b) = a"
    "tl (dropWhile (\<lambda>c. c \<noteq> CHR ''.'') (a @ ''.'' @ b)) = b"
  using assms by (induction a) auto

lemma signed_by_farm:
  assumes "hex_roundtrip K" "signing_correct K" "length seed = 32"
  shows "hex_decode K (hex_encode K (ed25519_public K seed)) = Inr (ed25519_public K seed) \<and>
    length (ed25519_public K seed) = 32 \<and> verifying_key_ok K (ed25519_public K seed) \<and>
    length (ed25519_sign K seed m) = 64 \<and> ed25519_verify K (ed25519_public K seed) m (ed25519_sign K seed m)"
  using assms by (simp add: hex_roundtrip_def signing_correct_def)

lemma verify_signed_token:
  assumes "hex_roundtrip K" "signing_correct K" "farm_codec_ok F" "length seed = 32"
    and "fp_iss_pk p = hex_encode K (ed25519_public K seed)" "now < fp_exp p"
  shows "verify_token K F (fp_iss_pk p) now (sign_token K F seed p) = Inr p"
  using assms(3,6) signed_by_farm [OF assms(1,2,4), of "to_vec F p"]
  by (simp add: verify_token_def sign_token_def Let_def token_parts farm_codec_ok_def assms(5) del: append_Cons)

text \<open>
  A hub reads the same wire format with its own codec: base64url, and the three fields it uses.
\<close>

definition hub_reads :: "farm_codec \<Rightarrow> codec \<Rightarrow> bool" where
  "hub_reads F C \<longleftrightarrow> (\<forall>bs. b64_decode C (b64_encode F bs) = Some bs) \<and>
     (\<forall>p. parse_farm_payload C (to_vec F p) =
        Some \<lparr>ft_exp = fp_exp p, ft_iss_pk = fp_iss_pk p, ft_sub = fp_sub p\<rparr>)"

lemma hub_verifies_signed_token:
  assumes "hex_roundtrip K" "signing_correct K" "farm_codec_ok F" "hub_reads F C" "length seed = 32"
    and "fp_iss_pk p = hex_encode K (ed25519_public K seed)" "now < fp_exp p"
  shows "try_verify_farm_token K C (fp_iss_pk p) (sign_token K F seed p) now = Inr (fp_sub p)"
  using assms(3,4,7) signed_by_farm [OF assms(1,2,5), of "to_vec F p"]
  by (simp add: try_verify_farm_token_def sign_token_def Let_def token_parts farm_codec_ok_def hub_reads_def
      assms(6) verify_signature_def del: append_Cons)

lemma sign_token_has_dot: "CHR ''.'' \<in> set (sign_token K F seed p)"
  by (simp add: sign_token_def Let_def)

text \<open>What a successful login at the farm amounts to.\<close>

lemma farm_verify_ok:
  assumes "farm_verify K F random now req s = (Inr token, t)"
  defines "pk \<equiv> fv_public_key req"
  shows "(\<exists>ch bytes sig. row_at fch_key pk (farm_challenges s) = Some ch \<and> now < fch_expires ch \<and>
      hex_decode K (fch_hex ch) = Inr bytes \<and> hex_decode K (fv_signature req) = Inr sig \<and>
      verify_signature K pk bytes sig = Inr ())"
    and "row_at fch_key pk (farm_challenges t) = None"
    and "row_at fse_jti (hex_encode K random) (farm_sessions t) = Some
      \<lparr>fse_jti = hex_encode K random, fse_key = pk, fse_issued = now, fse_expires = now + SESSION_TTL,
       fse_revoked = None, fse_scope = normalise_scope (fv_scope req), fse_manually = 0\<rparr>"
    and "token = sign_token K F (farm_seed s)
      \<lparr>fp_v = 1, fp_iss = own_url s, fp_iss_pk = farm_public_key K s, fp_sub = pk, fp_master = None,
       fp_jti = hex_encode K random, fp_iat = now, fp_exp = now + SESSION_TTL,
       fp_scope = normalise_scope (fv_scope req)\<rparr>"
    and "farm_seed t = farm_seed s"
proof -
  let ?p = "\<lparr>fp_v = 1, fp_iss = own_url s, fp_iss_pk = farm_public_key K s, fp_sub = pk, fp_master = None,
       fp_jti = hex_encode K random, fp_iat = now, fp_exp = now + SESSION_TTL,
       fp_scope = normalise_scope (fv_scope req)\<rparr>"
  let ?r = "\<lparr>fse_jti = hex_encode K random, fse_key = pk, fse_issued = now, fse_expires = now + SESSION_TTL,
       fse_revoked = None, fse_scope = normalise_scope (fv_scope req), fse_manually = 0\<rparr>"
  from assms(1) obtain ch bytes sig us ss where
    ch: "row_at fch_key pk (farm_challenges s) = Some ch" "now < fch_expires ch"
      "hex_decode K (fch_hex ch) = Inr bytes" "hex_decode K (fv_signature req) = Inr sig"
      "verify_signature K pk bytes sig = Inr ()"
    and ss: "insert_row (same_key fse_jti) (exists_row (\<lambda>u. fu_key u = pk) us) ?r (farm_sessions s) = Inr ss"
    and t: "t = s\<lparr>farm_challenges := delete_where (\<lambda>r. fch_key r = pk) (farm_challenges s),
      farm_users := us, farm_sessions := ss\<rparr>"
    and token: "token = sign_token K F (farm_seed s) ?p"
    unfolding farm_verify_def Let_def drop_challenge_def upsert_farm_account_def insert_farm_session_def
      farm_public_key_def pk_def
    by (auto simp: ok_iffs split: if_splits sum.splits)
  show "\<exists>ch bytes sig. row_at fch_key pk (farm_challenges s) = Some ch \<and> now < fch_expires ch \<and>
      hex_decode K (fch_hex ch) = Inr bytes \<and> hex_decode K (fv_signature req) = Inr sig \<and>
      verify_signature K pk bytes sig = Inr ()" using ch by blast
  show "row_at fch_key pk (farm_challenges t) = None" by (simp add: t row_at_None_iff rows)
  show "row_at fse_jti (hex_encode K random) (farm_sessions t) = Some ?r"
    using row_at_insert_row(1) [OF ss] by (simp add: t)
  show "farm_seed t = farm_seed s" by (simp add: t)
  show "token = sign_token K F (farm_seed s) ?p" by (rule token)
qed

subsection \<open>A concrete codec\<close>

text \<open>
  The witnesses need codecs of which the documented behaviour holds: numbers in unary between
  separators, strings with their length in front.
\<close>

definition unary :: "'c \<Rightarrow> 'c \<Rightarrow> nat list \<Rightarrow> 'c list" where
  "unary one stop ns = concat (map (\<lambda>n. replicate n one @ [stop]) ns)"

fun un_unary :: "'c \<Rightarrow> nat \<Rightarrow> 'c list \<Rightarrow> nat list" where
  "un_unary stop k [] = []"
| "un_unary stop k (c # cs) = (if c = stop then k # un_unary stop 0 cs else un_unary stop (Suc k) cs)"

lemma un_unary_unary: "one \<noteq> stop \<Longrightarrow> un_unary stop 0 (unary one stop ns) = ns"
proof (induction ns)
  case (Cons n ns)
  have "un_unary stop k (replicate m one @ stop # cs) = (k + m) # un_unary stop 0 cs" for k m cs
    using Cons.prems by (induction m arbitrary: k) auto
  with Cons show ?case by (simp add: unary_def)
qed (simp add: unary_def)

definition put_str :: "string \<Rightarrow> nat list" where
  "put_str x = length x # map of_char x"

definition get_str :: "nat list \<Rightarrow> string \<times> nat list" where
  "get_str ns = (map char_of (take (hd ns) (tl ns)), drop (hd ns) (tl ns))"

definition put_int :: "int \<Rightarrow> nat list" where
  "put_int i = [if i < 0 then 1 else 0, nat \<bar>i\<bar>]"

definition get_int :: "nat list \<Rightarrow> int \<times> nat list" where
  "get_int ns = (if hd ns = 1 then - int (hd (tl ns)) else int (hd (tl ns)), drop 2 ns)"

lemma get_put [simp]: "get_str (put_str x @ ns) = (x, ns)" "get_int (put_int i @ ns) = (i, ns)"
  by (simp_all add: get_str_def put_str_def get_int_def put_int_def map_idI)

definition put_payload :: "farm_payload \<Rightarrow> nat list" where
  "put_payload p = put_str (fp_iss p) @ put_str (fp_iss_pk p) @ put_str (fp_sub p) @ put_str (fp_jti p) @
     put_str (fp_scope p) @ put_int (fp_iat p) @ put_int (fp_exp p) @ fp_v p #
     (case fp_master p of None \<Rightarrow> [] | Some m \<Rightarrow> put_str m)"

definition get_payload :: "nat list \<Rightarrow> farm_payload" where
  "get_payload n0 =
     (let (iss, n1) = get_str n0; (iss_pk, n2) = get_str n1; (sub, n3) = get_str n2;
          (jti, n4) = get_str n3; (scope, n5) = get_str n4; (iat, n6) = get_int n5; (exp, n7) = get_int n6
      in \<lparr>fp_v = hd n7, fp_iss = iss, fp_iss_pk = iss_pk, fp_sub = sub,
          fp_master = (if tl n7 = [] then None else Some (fst (get_str (tl n7)))),
          fp_jti = jti, fp_iat = iat, fp_exp = exp, fp_scope = scope\<rparr>)"

lemma get_put_payload: "get_payload (put_payload p) = p"
proof -
  have "get_str (put_str m) = (m, [])" "put_str m \<noteq> []" for m
    using get_put(1) [of m "[]"] by (simp_all add: put_str_def)
  then show ?thesis by (simp add: get_payload_def put_payload_def split: option.splits)
qed

definition demo_farm_codec :: farm_codec where
  "demo_farm_codec =
     \<lparr>to_vec = (\<lambda>p. unary 1 0 (put_payload p)),
      from_slice = (\<lambda>bs. Some (get_payload (un_unary 0 0 bs))),
      b64_encode = (\<lambda>bs. unary CHR ''1'' CHR ''0'' (map unat bs)),
      b64_read = (\<lambda>x. Some (map of_nat (un_unary CHR ''0'' 0 x))),
      strings_json = concat\<rparr>"

definition demo_hub_codec :: codec where
  "demo_hub_codec = demo_codec\<lparr>b64_decode := b64_read demo_farm_codec,
     parse_farm_payload := (\<lambda>bs. map_option (\<lambda>p. \<lparr>ft_exp = fp_exp p, ft_iss_pk = fp_iss_pk p, ft_sub = fp_sub p\<rparr>)
       (from_slice demo_farm_codec bs))\<rparr>"

lemma demo_farm_codec_ok: "farm_codec_ok demo_farm_codec"
proof -
  have "CHR ''.'' \<notin> set (unary CHR ''1'' CHR ''0'' ns)" for ns by (auto simp: unary_def)
  then show ?thesis
    by (simp add: farm_codec_ok_def demo_farm_codec_def un_unary_unary get_put_payload comp_def)
qed

lemma demo_hub_reads: "hub_reads demo_farm_codec demo_hub_codec"
  using demo_farm_codec_ok
  by (simp add: hub_reads_def demo_hub_codec_def demo_farm_codec_def un_unary_unary get_put_payload comp_def)

definition demo_farm_state :: farm where
  "demo_farm_state = \<lparr>farm_seed = replicate 32 7, own_url = ''https://farm'', farms = None, farm_users = [],
     farm_challenges = [\<lparr>fch_key = demo_master_key, fch_hex = ''abc'', fch_expires = 60\<rparr>],
     farm_sessions = [], farm_hubs = [], farm_games = [], game_kv = [], running = []\<rparr>"

definition demo_farm_login :: farm_verify_request where
  "demo_farm_login = \<lparr>fv_public_key = demo_master_key, fv_signature = demo_signature (as_bytes ''abc''),
     fv_scope = None\<rparr>"

lemma demo_signature_verifies:
  "verify_signature demo_crypto demo_master_key (as_bytes ''abc'') (as_bytes (demo_signature (as_bytes ''abc''))) = Inr ()"
  using demo_signature_ok [of "as_bytes ''abc''"] by (simp add: check_sig_def del: as_bytes_Cons)

lemma demo_farm_login_succeeds:
  "\<exists>token t. farm_verify demo_crypto demo_farm_codec [9] 5 demo_farm_login demo_farm_state = (Inr token, t)"
  using demo_signature_verifies
  by (simp add: farm_verify_def demo_farm_login_def demo_farm_state_def run_simps row_at_def drop_challenge_def
      upsert_farm_account_def insert_farm_session_def Let_def same_key_def del: as_bytes_Cons)

subsection \<open>One login for every hub\<close>

text \<open>
  C16. One login, every hub: a token the farm mints for a key is accepted by each hub that caches the
  farm's public key, which then takes the caller for exactly that key, for 30 days; only a ban or
  an account still waiting for approval stops it. It takes a signature of the key's holder over a
  challenge the farm issued less than a minute before to get such a token.
\<close>

theorem farm_login_reaches_hub:
  assumes "hex_roundtrip K" "signing_correct K" "farm_codec_ok F" "hub_reads F C" "length (farm_seed f) = 32"
    and login: "farm_verify K F random now req f = (Inr token, f')"
    and hub: "cached_farm_pubkey h = Some (farm_public_key K f)" "clk 0 < now + SESSION_TTL"
  shows "fst (authenticate K C clk info (Some (''Bearer '' @ token)) path h) =
      (case fst (admit_farm_user (fv_public_key req) (clk 4) path h) of
         Inl e \<Rightarrow> Inl e | Inr _ \<Rightarrow> Inr (fv_public_key req)) \<and>
    (\<exists>ch bytes sig. row_at fch_key (fv_public_key req) (farm_challenges f) = Some ch \<and> now < fch_expires ch \<and>
      hex_decode K (fch_hex ch) = Inr bytes \<and> verify_signature K (fv_public_key req) bytes sig = Inr ()) \<and>
    row_at fch_key (fv_public_key req) (farm_challenges f') = None"
proof -
  note ok = farm_verify_ok [OF login]
  have dot: "CHR ''.'' \<in> set token" by (simp add: ok(4) sign_token_has_dot)
  have "try_verify_farm_token K C (farm_public_key K f) token (clk 0) = Inr (fv_public_key req)"
    unfolding ok(4) using hub_verifies_signed_token [OF assms(1-5), of
        "\<lparr>fp_v = 1, fp_iss = own_url f, fp_iss_pk = farm_public_key K f, fp_sub = fv_public_key req,
          fp_master = None, fp_jti = hex_encode K random, fp_iat = now, fp_exp = now + SESSION_TTL,
          fp_scope = normalise_scope (fv_scope req)\<rparr>" "clk 0"] hub(2)
    by (simp add: farm_public_key_def)
  with hub(1) have "farm_user K C clk info token h = (Inr (fv_public_key req), h)"
    by (simp add: farm_user_def run_defs)
  then have "fst (authenticate K C clk info (Some (''Bearer '' @ token)) path h) =
      (case fst (admit_farm_user (fv_public_key req) (clk 4) path h) of
         Inl e \<Rightarrow> Inl e | Inr _ \<Rightarrow> Inr (fv_public_key req))"
    unfolding authenticate_farm [OF dot] by (auto simp: run_defs split: prod.splits sum.splits)
  with ok(1,2) show ?thesis by blast
qed

theorem farm_login_reaches_hub_witness:
  "\<exists>token t. fst (authenticate demo_crypto demo_hub_codec (\<lambda>_. 6) None (Some (''Bearer '' @ token)) ''/channels''
     (initial\<lparr>cached_farm_pubkey := Some (farm_public_key demo_crypto demo_farm_state)\<rparr>)) = Inr demo_master_key \<and>
   farm_verify demo_crypto demo_farm_codec [9] 5 demo_farm_login demo_farm_state = (Inr token, t)"
proof -
  let ?h = "initial\<lparr>cached_farm_pubkey := Some (farm_public_key demo_crypto demo_farm_state)\<rparr>"
  obtain token t where login:
    "farm_verify demo_crypto demo_farm_codec [9] 5 demo_farm_login demo_farm_state = (Inr token, t)"
    using demo_farm_login_succeeds by blast
  have key: "fv_public_key demo_farm_login = demo_master_key" by (simp add: demo_farm_login_def)
  have admitted: "fst (admit_farm_user demo_master_key 6 ''/channels'' ?h) = Inr ()" by code_simp
  have "fst (authenticate demo_crypto demo_hub_codec (\<lambda>_. 6) None (Some (''Bearer '' @ token)) ''/channels'' ?h) =
      (case fst (admit_farm_user (fv_public_key demo_farm_login) 6 ''/channels'' ?h) of
         Inl e \<Rightarrow> Inl e | Inr _ \<Rightarrow> Inr (fv_public_key demo_farm_login))"
    using farm_login_reaches_hub [OF demo_hex_roundtrip demo_signing_correct demo_farm_codec_ok demo_hub_reads _
        login, where clk = "\<lambda>_. 6" and h = ?h]
    by (simp add: demo_farm_state_def SESSION_TTL_def)
  with login admitted show ?thesis unfolding key by auto
qed

subsection \<open>Sessions over time\<close>

datatype farm_session_op =
    FarmChallenge string "u8 list" int
  | FarmVerify "u8 list" int farm_verify_request
  | FarmRenew "u8 list" "nat \<Rightarrow> int" "string option"
  | FarmRevoke "string option" string "nat \<Rightarrow> int"

fun farm_session_step :: "crypto \<Rightarrow> farm_codec \<Rightarrow> farm \<Rightarrow> farm_session_op \<Rightarrow> farm" where
  "farm_session_step K F s (FarmChallenge pk nonce now) = snd (farm_challenge K pk nonce now s)"
| "farm_session_step K F s (FarmVerify random now req) = snd (farm_verify K F random now req s)"
| "farm_session_step K F s (FarmRenew random clk header) = snd (farm_renew K F random clk header s)"
| "farm_session_step K F s (FarmRevoke header pk clk) = snd (revoke_user_sessions K F header pk clk s)"

text \<open>\<open>P\<close> is about one stored, revoked session.\<close>

definition revoked_row :: "farm_session_row \<Rightarrow> farm \<Rightarrow> bool" where
  "revoked_row r s \<longleftrightarrow> fse_revoked r \<noteq> None \<and> row_at fse_jti (fse_jti r) (farm_sessions s) = Some r"

lemma revoked_row_frame [simp]:
  "revoked_row r (s\<lparr>farm_users := a\<rparr>) = revoked_row r s"
  "revoked_row r (s\<lparr>farm_challenges := b\<rparr>) = revoked_row r s"
  by (simp_all add: revoked_row_def)

lemma revoked_insert_session [keeps]: "preserves (revoked_row r) (insert_farm_session jti pk now exp scope)"
  unfolding insert_farm_session_def
proof (rule preserves_writing)
  fix s t
  let ?r = "\<lparr>fse_jti = jti, fse_key = pk, fse_issued = now, fse_expires = exp, fse_revoked = None,
      fse_scope = scope, fse_manually = 0\<rparr>"
  assume "revoked_row r s" and ins: "insert_row (same_key fse_jti)
      (exists_row (\<lambda>u. fu_key u = pk) (farm_users s)) ?r (farm_sessions s) = Inr t"
  then show "revoked_row r (s\<lparr>farm_sessions := t\<rparr>)"
    using row_at_insert_row [OF ins] by (auto simp: revoked_row_def)
qed

lemma revoked_drop_challenge [keeps]: "preserves (revoked_row r) (drop_challenge pk)"
  unfolding drop_challenge_def by (rule preserves_modify) simp

lemma revoked_upsert_account [keeps]: "preserves (revoked_row r) (upsert_farm_account pk now)"
  unfolding upsert_farm_account_def by (rule preserves_writing) simp

lemma preserves_farm_auth [keeps]:
  "preserves P (extract_bearer header)" "preserves P (require_auth K F now header)"
  "preserves P (require_admin K F now header)"
  unfolding extract_bearer_def require_admin_def require_auth_def by (intro keeps)+

lemma revoked_step: "revoked_row r s \<Longrightarrow> revoked_row r (farm_session_step K F s op)"
proof -
  have "preserves (revoked_row r) (farm_challenge K pk nonce now)" for pk nonce now
    unfolding farm_challenge_def Let_def by (intro keeps preserves_writing) simp
  moreover have "preserves (revoked_row r) (farm_verify K F random now req)" for random now req
    unfolding farm_verify_def Let_def by (intro keeps)
  moreover have "preserves (revoked_row r) (farm_renew K F random clk header)" for random clk header
    unfolding farm_renew_def Let_def by (intro keeps)
  moreover have "preserves (revoked_row r) (revoke_user_sessions K F header pk clk)" for header pk clk
    unfolding revoke_user_sessions_def Let_def
    by (intro keeps preserves_modify) (auto simp: revoked_row_def row_at_update_any session_live_def)
  ultimately show "revoked_row r s \<Longrightarrow> revoked_row r (farm_session_step K F s op)"
    by (cases op) (simp_all add: preserves_def)
qed

text \<open>
  A farm session that has been revoked is reported as revoked ever after, whatever logins,
  renewals and further revocations follow: no request reuses its id or lifts the revocation.
\<close>

theorem farm_revocation_is_permanent:
  assumes "row_at fse_jti jti (farm_sessions s) = Some r" "fse_revoked r \<noteq> None"
  shows "fst (revoke_check jti now (run (farm_session_step K F) s ops)) = Inr True"
proof -
  have "fse_jti r = jti" using row_at_key [OF assms(1)] by simp
  with assms have "revoked_row r s" by (simp add: revoked_row_def)
  then have "revoked_row r (run (farm_session_step K F) s ops)"
    by (rule run_invariant [where P = "revoked_row r", rotated]) (rule revoked_step)
  with \<open>fse_jti r = jti\<close> show ?thesis by (simp add: revoked_row_def revoke_check_def run_defs)
qed

definition demo_revoked :: farm_session_row where
  "demo_revoked = \<lparr>fse_jti = ''j1'', fse_key = demo_master_key, fse_issued = 1, fse_expires = 1000,
     fse_revoked = Some 4, fse_scope = ''member'', fse_manually = 1\<rparr>"

theorem farm_revocation_is_permanent_witness:
  "fst (revoke_check ''j1'' 6 (run (farm_session_step demo_crypto demo_farm_codec)
     (demo_farm_state\<lparr>farm_sessions := [demo_revoked]\<rparr>) [FarmVerify [9] 5 demo_farm_login])) = Inr True"
  by (rule farm_revocation_is_permanent [where r = demo_revoked]) (simp_all add: row_at_def demo_revoked_def)

text \<open>
  A renewal looks at the signature and the expiry of the token only. Whatever the sessions table
  says of the token's own session, the caller gets a fresh session that is good for 30 more days:
  revoking the sessions of a user does not end the access of whoever holds one of their tokens.
\<close>

theorem renewal_ignores_revocation:
  assumes "verify_token K F (farm_public_key K s) (clk 0) token = Inr p"
    and "exists_row (\<lambda>u. fu_key u = fp_sub p) (farm_users s)"
    and "row_at fse_jti (hex_encode K random) (farm_sessions s) = None"
  shows "\<exists>token' t. farm_renew K F random clk (Some (''Bearer '' @ token)) s = (Inr token', t) \<and>
    (\<forall>at. fst (revoke_check (hex_encode K random) at t) = Inr (clk 1 + SESSION_TTL \<le> at))"
proof -
  let ?r = "\<lparr>fse_jti = hex_encode K random, fse_key = fp_sub p, fse_issued = clk 1,
      fse_expires = clk 1 + SESSION_TTL, fse_revoked = None, fse_scope = fp_scope p, fse_manually = 0\<rparr>"
  have ins: "insert_row (same_key fse_jti) True ?r (farm_sessions s) = Inr (farm_sessions s @ [?r])"
    using assms(3) by (auto simp: insert_row_def exists_row_iff same_key_def row_at_None_iff)
  have bearer: "strip_prefix ''Bearer '' (''Bearer '' @ token) = Some token" by (simp add: strip_prefix_def)
  have step: "insert_farm_session (hex_encode K random) (fp_sub p) (clk 1) (clk 1 + SESSION_TTL) (fp_scope p) s =
      (Inr (), s\<lparr>farm_sessions := farm_sessions s @ [?r]\<rparr>)"
    by (simp add: insert_farm_session_def writing_def exec_def assms(2) ins del: One_nat_def)
  have "row_at fse_jti (hex_encode K random) (farm_sessions s @ [?r]) = Some ?r"
    using row_at_insert_row(1) [OF ins, of "hex_encode K random"] by simp
  then show ?thesis
    unfolding farm_renew_def Let_def extract_bearer_def and_then_def option.case bearer
    by (simp add: ret_def gets_def lift_def ok_or_def assms(1) step revoke_check_def del: One_nat_def)
qed

end
