(* ===== verification/Farm_Hubs.thy ===== *)
theory Farm_Hubs
  imports Farm "HOL-Library.Char_ord" "HOL-Library.List_Lexorder"
begin

text \<open>
  What the farm hosts, from \<^verbatim>\<open>farm/src/routes/hubs.rs\<close>, \<^verbatim>\<open>farm/src/routes/admin.rs\<close>,
  \<^verbatim>\<open>farm/src/routes/games.rs\<close>, \<^verbatim>\<open>farm/src/hub_manager.rs\<close> and \<^verbatim>\<open>farm/src/proxy.rs\<close>: settings and
  quotas, the hubs with their processes and ports, the reverse proxy's routing, the game catalogue
  and the per-user game store.

  Arguments stand for the world outside: the random hub ids drawn, whether a process could be
  spawned, an error of the file system, the classification \<open>alnum\<close> of the code points beyond ASCII.
  Settings responses are given as the stored row, the JSON lists in it as text.

  The interface \<open>tenancy\<close> says what keeps the users of a farm apart; it is interpreted for hubs and
  for game data.
\<close>

subsection \<open>Settings\<close>

definition fetch_farm_row :: "farm_row farm_handler" where
  "fetch_farm_row =
     and_then (gets farms) (\<lambda>row. ok_or row (Reject INTERNAL_SERVER_ERROR ''farm_row_missing''))"

definition VALID_TAGS :: "string list" where
  "VALID_TAGS = [''gaming'', ''professional'', ''creative'', ''education'', ''community'', ''18plus'']"

definition validate_creation_policy :: "string \<Rightarrow> bool" where
  "validate_creation_policy v \<longleftrightarrow> v = ''open'' \<or> v = ''admin_only'' \<or> v = ''disabled''"

definition is_ascii_lowercase :: "char \<Rightarrow> bool" where
  "is_ascii_lowercase c \<longleftrightarrow> 97 \<le> (of_char c :: nat) \<and> (of_char c :: nat) \<le> 122"

definition validate_language :: "string \<Rightarrow> bool" where
  "validate_language code \<longleftrightarrow> length code = 2 \<and> list_all is_ascii_lowercase code"

definition validate_tags :: "string list \<Rightarrow> unit farm_handler" where
  "validate_tags tags =
     and_then (check (\<not> 3 < length tags) (Reject BAD_REQUEST ''invalid_tag: max 3 tags'')) (\<lambda>_.
     for_each (\<lambda>tag. check (tag \<in> set VALID_TAGS)
       (Reject BAD_REQUEST (''invalid_tag: unknown tag: '' @ tag))) tags)"

definition validate_languages :: "string list \<Rightarrow> unit farm_handler" where
  "validate_languages langs =
     and_then (check (\<not> (langs = [] \<or> 5 < length langs))
       (Reject BAD_REQUEST ''invalid_value: languages must be 1-5 items'')) (\<lambda>_.
     for_each (\<lambda>lang. check (validate_language lang)
       (Reject BAD_REQUEST (''invalid_value: invalid BCP-47 code: '' @ lang))) langs)"

definition get_settings :: "crypto \<Rightarrow> farm_codec \<Rightarrow> string option \<Rightarrow> (nat \<Rightarrow> int) \<Rightarrow> farm_row farm_handler" where
  "get_settings K F header clk =
     and_then (require_admin K F (clk 0) header) (\<lambda>_. fetch_farm_row)"

record patch_settings_request =
  ps_name :: "string option"
  ps_description :: "string option"
  ps_directory_public :: "bool option"
  ps_creation_policy :: "string option"
  ps_max_per_user :: "int option"
  ps_max_total :: "int option"
  ps_allow_discovery :: "bool option"
  ps_languages :: "string list option"
  ps_tags :: "string list option"
  ps_country :: "string option"
  ps_region :: "string option"

definition unwrap_or :: "'a option \<Rightarrow> 'a \<Rightarrow> 'a" where
  "unwrap_or x d = (case x of None \<Rightarrow> d | Some v \<Rightarrow> v)"

definition or_else :: "'a option \<Rightarrow> 'a option \<Rightarrow> 'a option" where
  "or_else x y = (case x of None \<Rightarrow> y | Some v \<Rightarrow> Some v)"

definition merged_settings :: "farm_codec \<Rightarrow> patch_settings_request \<Rightarrow> farm_row \<Rightarrow> farm_row" where
  "merged_settings F req row =
     \<lparr>farm_name = unwrap_or (ps_name req) (farm_name row),
      farm_description = or_else (ps_description req) (farm_description row),
      directory_public = unwrap_or (map_option flag (ps_directory_public req)) (directory_public row),
      creation_policy = unwrap_or (ps_creation_policy req) (creation_policy row),
      max_hubs_per_user = unwrap_or (ps_max_per_user req) (max_hubs_per_user row),
      max_hubs_total = unwrap_or (ps_max_total req) (max_hubs_total row),
      allow_discovery = unwrap_or (map_option flag (ps_allow_discovery req)) (allow_discovery row),
      farm_languages = unwrap_or (map_option (strings_json F) (ps_languages req)) (farm_languages row),
      farm_tags = unwrap_or (map_option (strings_json F) (ps_tags req)) (farm_tags row),
      farm_country = or_else (ps_country req) (farm_country row),
      farm_region = or_else (ps_region req) (farm_region row),
      admin_pubkey = admin_pubkey row\<rparr>"

definition patch_settings :: "crypto \<Rightarrow> farm_codec \<Rightarrow> string option \<Rightarrow> (nat \<Rightarrow> int) \<Rightarrow>
    patch_settings_request \<Rightarrow> farm_row farm_handler" where
  "patch_settings K F header clk req =
     and_then (require_admin K F (clk 0) header) (\<lambda>_.
     and_then (case ps_creation_policy req of None \<Rightarrow> ret ()
       | Some policy \<Rightarrow> check (validate_creation_policy policy) (Reject BAD_REQUEST
           ''invalid_value: creation_policy must be open, admin_only, or disabled'')) (\<lambda>_.
     and_then (case ps_tags req of None \<Rightarrow> ret () | Some tags \<Rightarrow> validate_tags tags) (\<lambda>_.
     and_then (case ps_languages req of None \<Rightarrow> ret () | Some langs \<Rightarrow> validate_languages langs) (\<lambda>_.
     and_then fetch_farm_row (\<lambda>row.
     and_then (modify (\<lambda>s. s\<lparr>farms := map_option (\<lambda>_. merged_settings F req row) (farms s)\<rparr>)) (\<lambda>_.
     ret (merged_settings F req row)))))))"

subsection \<open>Quotas\<close>

definition live :: "farm_hub_row \<Rightarrow> bool" where
  "live h \<longleftrightarrow> fh_deleted h = None"

definition hubs_owned :: "string \<Rightarrow> farm \<Rightarrow> int" where
  "hubs_owned pk s = int (count_rows (\<lambda>h. fh_owner h = pk \<and> live h) (farm_hubs s))"

definition hubs_total :: "farm \<Rightarrow> int" where
  "hubs_total s = int (count_rows live (farm_hubs s))"

record hub_quota_response =
  hq_policy :: string
  hq_owned :: int
  hq_max_per_user :: int
  hq_remaining :: "int option"
  hq_total :: int
  hq_max_total :: int
  hq_farm_remaining :: "int option"

definition me_hub_quota :: "crypto \<Rightarrow> farm_codec \<Rightarrow> string option \<Rightarrow> (nat \<Rightarrow> int) \<Rightarrow> hub_quota_response farm_handler" where
  "me_hub_quota K F header clk =
     and_then (require_auth K F (clk 0) header) (\<lambda>payload.
     and_then fetch_farm_row (\<lambda>row.
     and_then (gets (hubs_owned (fp_sub payload))) (\<lambda>owned.
     and_then (gets hubs_total) (\<lambda>total.
     ret \<lparr>hq_policy = creation_policy row, hq_owned = owned, hq_max_per_user = max_hubs_per_user row,
       hq_remaining = (if max_hubs_per_user row = 0 then None else Some (max (max_hubs_per_user row - owned) 0)),
       hq_total = total, hq_max_total = max_hubs_total row,
       hq_farm_remaining = (if max_hubs_total row = 0 then None else Some (max (max_hubs_total row - total) 0))\<rparr>))))"

text \<open>The policy block of \<^verbatim>\<open>create_hub\<close>.\<close>

definition enforce_quota :: "string \<Rightarrow> farm_row \<Rightarrow> unit farm_handler" where
  "enforce_quota pk row =
     and_then (if 0 < max_hubs_per_user row
       then and_then (gets (hubs_owned pk)) (\<lambda>owned.
         check (\<not> max_hubs_per_user row \<le> owned) (Reject FORBIDDEN ''user_quota_exceeded''))
       else ret ()) (\<lambda>_.
     if 0 < max_hubs_total row
     then and_then (gets hubs_total) (\<lambda>total.
       check (\<not> max_hubs_total row \<le> total) (Reject FORBIDDEN ''farm_quota_exceeded''))
     else ret ())"

definition enforce_creation_policy :: "string \<Rightarrow> unit farm_handler" where
  "enforce_creation_policy pk =
     and_then (gets farms) (\<lambda>policy_row.
     case policy_row of None \<Rightarrow> ret ()
     | Some row \<Rightarrow>
         and_then (gets get_admin_pubkey) (\<lambda>admin.
         let is_admin = (admin = Some pk) in
         if creation_policy row = ''disabled'' then fail (Reject FORBIDDEN ''hub_creation_disabled'')
         else if creation_policy row = ''admin_only'' then check is_admin (Reject FORBIDDEN ''admin_only'')
         else if creation_policy row = ''open'' then enforce_quota pk row
         else check is_admin (Reject FORBIDDEN ''admin_only'')))"

subsection \<open>Processes and ports\<close>

definition DEFAULT_BASE_PORT :: u16 where
  "DEFAULT_BASE_PORT = 9100"

text \<open>
  The search for a free port: \<^verbatim>\<open>port += 1\<close> on \<^verbatim>\<open>u16\<close>, which wraps in a release build. The fuel is
  the number of running processes, which is enough to pass every occupied port.
\<close>

fun next_free :: "nat \<Rightarrow> u16 list \<Rightarrow> u16 \<Rightarrow> u16 option" where
  "next_free fuel occupied port =
     (if port \<notin> set occupied then Some port
      else case fuel of 0 \<Rightarrow> None | Suc n \<Rightarrow> next_free n occupied (port + 1))"

declare next_free.simps [simp del]

definition allocate_port :: "u16 \<Rightarrow> farm \<Rightarrow> u16 option" where
  "allocate_port base s = next_free (length (running s)) (map snd (running s)) base"

text \<open>\<open>ok\<close> tells whether the operating system could start the process.\<close>

definition spawn_hub :: "bool \<Rightarrow> string \<Rightarrow> u16 \<Rightarrow> farm \<Rightarrow> bool \<times> farm" where
  "spawn_hub ok hub_id port s =
     (if ok then (True, s\<lparr>running := (hub_id, port) # filter (\<lambda>(i, _). i \<noteq> hub_id) (running s)\<rparr>)
      else (False, s))"

definition stop_hub :: "string \<Rightarrow> farm \<Rightarrow> farm" where
  "stop_hub hub_id s = s\<lparr>running := filter (\<lambda>(i, _). i \<noteq> hub_id) (running s)\<rparr>"

definition is_running :: "string \<Rightarrow> farm \<Rightarrow> bool" where
  "is_running hub_id s \<longleftrightarrow> hub_id \<in> fst ` set (running s)"

text \<open>\<open>killed\<close> tells whether the process could be killed; if not, its entry is gone all the same.\<close>

definition restart_hub :: "bool \<Rightarrow> bool \<Rightarrow> string \<Rightarrow> u16 \<Rightarrow> farm \<Rightarrow> bool \<times> farm" where
  "restart_hub killed ok hub_id port s =
     (if killed \<or> \<not> is_running hub_id s then spawn_hub ok hub_id port (stop_hub hub_id s)
      else (False, stop_hub hub_id s))"

definition port_of :: "string \<Rightarrow> farm \<Rightarrow> u16 option" where
  "port_of hub_id s = map_of (running s) hub_id"

definition update_farm_hub :: "string \<Rightarrow> (farm_hub_row \<Rightarrow> farm_hub_row) \<Rightarrow> farm \<Rightarrow> farm" where
  "update_farm_hub i f s = s\<lparr>farm_hubs := update_where (\<lambda>h. fh_id h = i) f (farm_hubs s)\<rparr>"

text \<open>None when the search for a port does not end; otherwise the outcome of the spawn.\<close>

definition allocate_and_spawn :: "u16 \<Rightarrow> bool \<Rightarrow> string \<Rightarrow> farm \<Rightarrow> (bool \<times> farm) option" where
  "allocate_and_spawn base ok hub_id s =
     (case allocate_port base s of None \<Rightarrow> None
      | Some port \<Rightarrow> Some (spawn_hub ok hub_id port (update_farm_hub hub_id (\<lambda>h. h\<lparr>fh_port := Some (uint port)\<rparr>) s)))"

definition spawn_all_from_db :: "(string \<Rightarrow> bool) \<Rightarrow> farm \<Rightarrow> farm" where
  "spawn_all_from_db ok s =
     foldl (\<lambda>t h. case fh_port h of None \<Rightarrow> t
         | Some p \<Rightarrow> snd (spawn_hub (ok (fh_id h)) (fh_id h) (word_of_int p) t))
       s (filter (\<lambda>h. fh_suspended h = None \<and> fh_deleted h = None \<and> fh_port h \<noteq> None) (farm_hubs s))"

subsection \<open>Hubs\<close>

text \<open>\<^verbatim>\<open>str::chars\<close> on UTF-8: the code points of a string.\<close>

fun code_points :: "nat list \<Rightarrow> nat list" where
  "code_points [] = []"
| "code_points (b # bs) =
     (if b < 128 then b # code_points bs
      else if b < 224 then (case bs of c1 # cs \<Rightarrow> (64 * (b mod 32) + c1 mod 64) # code_points cs | _ \<Rightarrow> [])
      else if b < 240 then (case bs of c1 # c2 # cs \<Rightarrow>
        (64 * (64 * (b mod 16) + c1 mod 64) + c2 mod 64) # code_points cs | _ \<Rightarrow> [])
      else (case bs of c1 # c2 # c3 # cs \<Rightarrow>
        (64 * (64 * (64 * (b mod 8) + c1 mod 64) + c2 mod 64) + c3 mod 64) # code_points cs | _ \<Rightarrow> []))"

definition is_alphanumeric :: "(nat \<Rightarrow> bool) \<Rightarrow> nat \<Rightarrow> bool" where
  "is_alphanumeric alnum c \<longleftrightarrow>
     (if c < 128 then (48 \<le> c \<and> c \<le> 57) \<or> (65 \<le> c \<and> c \<le> 90) \<or> (97 \<le> c \<and> c \<le> 122) else alnum c)"

definition name_chars_ok :: "(nat \<Rightarrow> bool) \<Rightarrow> string \<Rightarrow> bool" where
  "name_chars_ok alnum name \<longleftrightarrow>
     list_all (\<lambda>c. is_alphanumeric alnum c \<or> c = 32 \<or> c = 45) (code_points (map of_char name))"

definition hub_url :: "string \<Rightarrow> string \<Rightarrow> string" where
  "hub_url url hub_id = trim_end_slash url @ ''/hub/'' @ hub_id"

record create_hub_request =
  chr_name :: string
  chr_description :: "string option"
  chr_visibility :: "string option"

record create_hub_response =
  chs_id :: string
  chs_url :: string

text \<open>The environment of a request: the ids drawn at random, the directory, and the system's answers.\<close>

record hub_env =
  drawn_ids :: "string list"
  hubs_dir :: string
  dir_error :: "string option"
  base_port :: u16
  spawn_ok :: bool

definition pick_hub_id :: "string list \<Rightarrow> farm \<Rightarrow> string option" where
  "pick_hub_id candidates s = List.find (\<lambda>c. row_at fh_id c (farm_hubs s) = None) candidates"

definition insert_farm_hub :: "farm_hub_row \<Rightarrow> unit farm_handler" where
  "insert_farm_hub h =
     writing (\<lambda>s. insert_row (same_key fh_id) True h (farm_hubs s)) (\<lambda>t s. s\<lparr>farm_hubs := t\<rparr>)"

definition new_farm_hub :: "string \<Rightarrow> string \<Rightarrow> string \<Rightarrow> create_hub_request \<Rightarrow> string \<Rightarrow> int \<Rightarrow> farm_hub_row" where
  "new_farm_hub hub_id owner name req dir now =
     \<lparr>fh_id = hub_id, fh_owner = owner, fh_name = name, fh_description = chr_description req,
      fh_visibility = (if chr_visibility req = Some ''public'' then ''public'' else ''private''), fh_port = None,
      fh_db_path = trim_end_slash dir @ ''/'' @ hub_id @ ''.db'', fh_created = now, fh_suspended = None,
      fh_reason = None, fh_deleted = None\<rparr>"

text \<open>The result is None while the loop that draws an id, or the search for a port, is still running.\<close>

definition create_hub :: "crypto \<Rightarrow> farm_codec \<Rightarrow> (nat \<Rightarrow> bool) \<Rightarrow> hub_env \<Rightarrow> string option \<Rightarrow> (nat \<Rightarrow> int) \<Rightarrow>
    create_hub_request \<Rightarrow> (status_code \<times> create_hub_response) option farm_handler" where
  "create_hub K F alnum env header clk req =
     and_then (require_auth K F (clk 0) header) (\<lambda>payload.
     and_then (enforce_creation_policy (fp_sub payload)) (\<lambda>_.
     let name = trim (chr_name req) in
     and_then (check (\<not> (name = [] \<or> 64 < length name))
       (Reject BAD_REQUEST ''invalid_name: must be 1-64 chars'')) (\<lambda>_.
     and_then (check (name_chars_ok alnum name)
       (Reject BAD_REQUEST ''invalid_name: only alphanumeric, spaces, hyphens'')) (\<lambda>_.
     and_then (gets (pick_hub_id (drawn_ids env))) (\<lambda>picked.
     case picked of None \<Rightarrow> ret None
     | Some hub_id \<Rightarrow>
         and_then (check (dir_error env = None) (Reject INTERNAL_SERVER_ERROR
           (''cannot create hubs dir: '' @ unwrap_or (dir_error env) []))) (\<lambda>_.
         and_then (insert_farm_hub (new_farm_hub hub_id (fp_sub payload) name req (hubs_dir env) (clk 1))) (\<lambda>_.
         and_then (gets (allocate_and_spawn (base_port env) (spawn_ok env) hub_id)) (\<lambda>spawned.
         case spawned of None \<Rightarrow> ret None
         | Some r \<Rightarrow>
             and_then (modify (\<lambda>_. snd r)) (\<lambda>_.
             gets (\<lambda>s. Some (CREATED, \<lparr>chs_id = hub_id, chs_url = hub_url (own_url s) hub_id\<rparr>))))))))))) "

record hub_entry =
  he_id :: string
  he_name :: string
  he_description :: "string option"
  he_visibility :: string
  he_url :: string
  he_created :: int
  he_suspended :: "int option"

definition to_hub_entry :: "string \<Rightarrow> farm_hub_row \<Rightarrow> hub_entry" where
  "to_hub_entry url h = \<lparr>he_id = fh_id h, he_name = fh_name h, he_description = fh_description h,
     he_visibility = fh_visibility h, he_url = hub_url url (fh_id h), he_created = fh_created h,
     he_suspended = fh_suspended h\<rparr>"

definition list_hubs :: "crypto \<Rightarrow> farm_codec \<Rightarrow> string option \<Rightarrow> (nat \<Rightarrow> int) \<Rightarrow> hub_entry list farm_handler" where
  "list_hubs K F header clk =
     (\<lambda>s. case fst (require_auth K F (clk 0) header s) of
        Inr payload \<Rightarrow> (Inr (map (to_hub_entry (own_url s)) (filter (\<lambda>h. live h \<and>
          (fh_visibility h = ''public'' \<or> fh_owner h = fp_sub payload)) (farm_hubs s))), s)
      | Inl _ \<Rightarrow>
          if (case farms s of None \<Rightarrow> False | Some r \<Rightarrow> directory_public r \<noteq> 0)
          then (Inr (map (to_hub_entry (own_url s)) (filter (\<lambda>h. live h \<and> fh_visibility h = ''public'') (farm_hubs s))), s)
          else (Inr [], s))"

definition live_hub :: "string \<Rightarrow> farm \<Rightarrow> farm_hub_row option" where
  "live_hub i s = fetch_optional (\<lambda>h. fh_id h = i \<and> live h) (farm_hubs s)"

definition get_hub :: "string \<Rightarrow> hub_entry farm_handler" where
  "get_hub hub_id =
     and_then (gets (live_hub hub_id)) (\<lambda>row.
     and_then (ok_or row (Reject NOT_FOUND ''hub_not_found'')) (\<lambda>h.
     gets (\<lambda>s. to_hub_entry (own_url s) h)))"

definition suspend_hub :: "crypto \<Rightarrow> farm_codec \<Rightarrow> string \<Rightarrow> string option \<Rightarrow> (nat \<Rightarrow> int) \<Rightarrow> string option \<Rightarrow>
    (string \<times> int option) farm_handler" where
  "suspend_hub K F hub_id header clk reason =
     and_then (require_auth K F (clk 0) header) (\<lambda>payload.
     and_then (gets get_admin_pubkey) (\<lambda>admin.
     and_then (check (admin = Some (fp_sub payload)) (Reject FORBIDDEN ''farm_admin_only'')) (\<lambda>_.
     and_then (gets (live_hub hub_id)) (\<lambda>exists.
     and_then (check (exists \<noteq> None) (Reject NOT_FOUND ''hub_not_found'')) (\<lambda>_.
     and_then (modify (update_farm_hub hub_id (\<lambda>h. h\<lparr>fh_suspended := Some (clk 1), fh_reason := reason\<rparr>))) (\<lambda>_.
     ret (hub_id, Some (clk 1))))))))"

definition delete_hub :: "crypto \<Rightarrow> farm_codec \<Rightarrow> string \<Rightarrow> string option \<Rightarrow> (nat \<Rightarrow> int) \<Rightarrow> status_code farm_handler" where
  "delete_hub K F hub_id header clk =
     and_then (require_auth K F (clk 0) header) (\<lambda>payload.
     and_then (gets get_admin_pubkey) (\<lambda>admin.
     let is_admin = (admin = Some (fp_sub payload)) in
     and_then (gets (live_hub hub_id)) (\<lambda>row.
     and_then (ok_or row (Reject NOT_FOUND ''hub_not_found'')) (\<lambda>h.
     and_then (check (\<not> (\<not> is_admin \<and> fp_sub payload \<noteq> fh_owner h)) (Reject FORBIDDEN ''farm_admin_only'')) (\<lambda>_.
     and_then (modify (stop_hub hub_id)) (\<lambda>_.
     and_then (modify (update_farm_hub hub_id (\<lambda>h. h\<lparr>fh_deleted := Some (clk 1)\<rparr>))) (\<lambda>_.
     ret NO_CONTENT)))))))"

subsection \<open>The reverse proxy\<close>

text \<open>Where a request to \<^verbatim>\<open>/hub/:hub_id/*path\<close> is forwarded.\<close>

definition upstream_path :: "string \<Rightarrow> string" where
  "upstream_path path = (if path = [] then ''/'' else if hd path = CHR ''/'' then path else CHR ''/'' # path)"

definition proxy_route :: "string \<Rightarrow> string \<Rightarrow> string option \<Rightarrow> string farm_handler" where
  "proxy_route hub_id path query =
     and_then (gets (live_hub hub_id)) (\<lambda>row.
     and_then (ok_or row (Reject NOT_FOUND ''hub_not_found'')) (\<lambda>h.
     and_then (check (fh_suspended h = None) (Reject SERVICE_UNAVAILABLE ''hub_suspended'')) (\<lambda>_.
     and_then (ok_or (case fh_port h of Some p \<Rightarrow> if 0 < p then Some (word_of_int p :: u16) else None | None \<Rightarrow> None)
       (Reject SERVICE_UNAVAILABLE ''hub_not_running'')) (\<lambda>port.
     ret (''http://127.0.0.1:'' @ show_nat (unat port) @ upstream_path path @
       (case query of None \<Rightarrow> [] | Some q \<Rightarrow> CHR ''?'' # q))))))"

subsection \<open>The user index and the public probe\<close>

record user_entry =
  ue_key :: string
  ue_first_seen :: int
  ue_last_seen :: int
  ue_hubs_owned :: int
  ue_active_sessions :: nat

definition to_user_entry :: "int \<Rightarrow> farm \<Rightarrow> farm_user_row \<Rightarrow> user_entry" where
  "to_user_entry now s u =
     \<lparr>ue_key = fu_key u, ue_first_seen = fu_first_seen u, ue_last_seen = fu_last_seen u,
      ue_hubs_owned = hubs_owned (fu_key u) s,
      ue_active_sessions = count_rows (session_live (fu_key u) now) (farm_sessions s)\<rparr>"

definition list_users :: "crypto \<Rightarrow> farm_codec \<Rightarrow> string option \<Rightarrow> (nat \<Rightarrow> int) \<Rightarrow> int option \<Rightarrow> string option \<Rightarrow>
    (user_entry list \<times> nat) farm_handler" where
  "list_users K F header clk limit cursor =
     and_then (require_admin K F (clk 0) header) (\<lambda>_.
     let n = max (min (unwrap_or limit 50) 200) 1 in
     gets (\<lambda>s. (map (to_user_entry (clk 1) s) (take (nat n) (sort_key fu_key
         (filter (\<lambda>u. case cursor of None \<Rightarrow> True | Some c \<Rightarrow> c < fu_key u) (farm_users s)))),
       length (farm_users s))))"

definition public_info :: "(farm_row \<times> int) farm_handler" where
  "public_info =
     and_then fetch_farm_row (\<lambda>row.
     and_then (check (allow_discovery row \<noteq> 0) (Reject NOT_FOUND ''discovery_disabled'')) (\<lambda>_.
     and_then (gets hubs_total) (\<lambda>hub_count.
     ret (row, hub_count))))"

record farm_info_response =
  fi_name :: string
  fi_description :: "string option"
  fi_public_key :: string
  fi_directory_public :: bool
  fi_hosted_hubs :: nat

text \<open>\<^verbatim>\<open>/farm/info\<close>, where the hubs learn the farm's key; its fixed fields are left out.\<close>

definition farm_info :: "crypto \<Rightarrow> farm_info_response farm_handler" where
  "farm_info K = gets (\<lambda>s.
     \<lparr>fi_name = (case farms s of None \<Rightarrow> ''My Farm'' | Some r \<Rightarrow> farm_name r),
      fi_description = (case farms s of None \<Rightarrow> None | Some r \<Rightarrow> farm_description r),
      fi_public_key = farm_public_key K s,
      fi_directory_public = (case farms s of None \<Rightarrow> False | Some r \<Rightarrow> directory_public r \<noteq> 0),
      fi_hosted_hubs = count_rows (\<lambda>h. fh_suspended h = None \<and> live h) (farm_hubs s)\<rparr>)"

subsection \<open>Games\<close>

definition require_any_auth :: "crypto \<Rightarrow> farm_codec \<Rightarrow> int \<Rightarrow> string option \<Rightarrow> string farm_handler" where
  "require_any_auth K F now header =
     and_then (require_auth K F now header) (\<lambda>payload. ret (fp_sub payload))"

definition now_str :: "int \<Rightarrow> string" where
  "now_str now = show_int now"

record install_game_request =
  ig_name :: string
  ig_entry_url :: string
  ig_id :: "string option"
  ig_description :: "string option"
  ig_thumbnail :: "string option"
  ig_version :: "string option"
  ig_author :: "string option"
  ig_min_players :: "int option"
  ig_max_players :: "int option"

definition game_id_of :: "crypto \<Rightarrow> install_game_request \<Rightarrow> string" where
  "game_id_of K req = unwrap_or (ig_id req)
     (''game-'' @ hex_encode K (take 8 (sha256 K (as_bytes (ig_entry_url req)))))"

definition new_game :: "crypto \<Rightarrow> string \<Rightarrow> int \<Rightarrow> install_game_request \<Rightarrow> farm_game_row" where
  "new_game K caller now req =
     \<lparr>fg_id = game_id_of K req, fg_name = ig_name req, fg_entry_url = ig_entry_url req,
      fg_description = ig_description req, fg_thumbnail = ig_thumbnail req,
      fg_version = unwrap_or (ig_version req) ''1.0.0'', fg_author = ig_author req,
      fg_min_players = unwrap_or (ig_min_players req) 1, fg_max_players = unwrap_or (ig_max_players req) 1,
      fg_grant = ''[]'', fg_installed_by = Some caller, fg_installed_at = Some (now_str now)\<rparr>"

text \<open>The conflict clause keeps the grant and the installer.\<close>

definition set_game :: "farm_game_row \<Rightarrow> farm_game_row \<Rightarrow> farm_game_row" where
  "set_game r q = r\<lparr>fg_grant := fg_grant q, fg_installed_by := fg_installed_by q, fg_installed_at := fg_installed_at q\<rparr>"

definition fetch_game :: "string \<Rightarrow> farm_game_row farm_handler" where
  "fetch_game i =
     and_then (gets (\<lambda>s. row_at fg_id i (farm_games s))) (\<lambda>row.
     ok_or row (Reject NOT_FOUND ''game_not_found''))"

definition install_game :: "crypto \<Rightarrow> farm_codec \<Rightarrow> string option \<Rightarrow> (nat \<Rightarrow> int) \<Rightarrow> install_game_request \<Rightarrow>
    (status_code \<times> farm_game_row) farm_handler" where
  "install_game K F header clk req =
     and_then (require_admin K F (clk 0) header) (\<lambda>caller.
     let r = new_game K caller (clk 1) req in
     and_then (writing (\<lambda>s. upsert (same_key fg_id) True r (set_game r) (farm_games s))
       (\<lambda>t s. s\<lparr>farm_games := t\<rparr>)) (\<lambda>_.
     and_then (fetch_game (fg_id r)) (\<lambda>row.
     ret (CREATED, row))))"

definition list_games :: "crypto \<Rightarrow> farm_codec \<Rightarrow> string option \<Rightarrow> (nat \<Rightarrow> int) \<Rightarrow> farm_game_row list farm_handler" where
  "list_games K F header clk =
     and_then (require_any_auth K F (clk 0) header) (\<lambda>_.
     gets (\<lambda>s. sort_key fg_name (farm_games s)))"

definition get_game :: "crypto \<Rightarrow> farm_codec \<Rightarrow> string option \<Rightarrow> (nat \<Rightarrow> int) \<Rightarrow> string \<Rightarrow> farm_game_row farm_handler" where
  "get_game K F header clk i =
     and_then (require_any_auth K F (clk 0) header) (\<lambda>_. fetch_game i)"

definition VALID_CAPS :: "string list" where
  "VALID_CAPS = [''post_message'', ''read_channel_history'', ''list_channel_users'']"

definition patch_game :: "crypto \<Rightarrow> farm_codec \<Rightarrow> string option \<Rightarrow> (nat \<Rightarrow> int) \<Rightarrow> string \<Rightarrow> string list \<Rightarrow>
    farm_game_row farm_handler" where
  "patch_game K F header clk i grant =
     and_then (require_admin K F (clk 0) header) (\<lambda>_.
     and_then (for_each (\<lambda>cap. check (cap \<in> set VALID_CAPS)
       (Reject BAD_REQUEST (''invalid_capability: unknown capability: '' @ cap))) grant) (\<lambda>_.
     and_then (gets (\<lambda>s. count_rows (\<lambda>r. fg_id r = i) (farm_games s))) (\<lambda>rows_affected.
     and_then (modify (\<lambda>s. s\<lparr>farm_games := update_where (\<lambda>r. fg_id r = i)
       (\<lambda>r. r\<lparr>fg_grant := strings_json F grant\<rparr>) (farm_games s)\<rparr>)) (\<lambda>_.
     and_then (check (rows_affected \<noteq> 0) (Reject NOT_FOUND ''game_not_found'')) (\<lambda>_.
     fetch_game i)))))"

definition uninstall_game :: "crypto \<Rightarrow> farm_codec \<Rightarrow> string option \<Rightarrow> (nat \<Rightarrow> int) \<Rightarrow> string \<Rightarrow> status_code farm_handler" where
  "uninstall_game K F header clk i =
     and_then (require_admin K F (clk 0) header) (\<lambda>_.
     and_then (gets (\<lambda>s. count_rows (\<lambda>r. fg_id r = i) (farm_games s))) (\<lambda>rows_affected.
     and_then (modify (\<lambda>s. s\<lparr>farm_games := delete_where (\<lambda>r. fg_id r = i) (farm_games s)\<rparr>)) (\<lambda>_.
     and_then (check (rows_affected \<noteq> 0) (Reject NOT_FOUND ''game_not_found'')) (\<lambda>_.
     ret NO_CONTENT))))"

definition kv_at :: "farm_kv_row \<Rightarrow> string \<times> string \<times> string" where
  "kv_at r = (kv_game r, kv_user r, kv_key r)"

text \<open>Only the owner of the data or the farm admin passes.\<close>

definition require_kv_access :: "string \<Rightarrow> string \<Rightarrow> unit farm_handler" where
  "require_kv_access caller user_pubkey =
     (if caller \<noteq> user_pubkey
      then and_then (gets get_admin_pubkey) (\<lambda>admin.
        check (admin = Some caller) (Reject FORBIDDEN ''forbidden''))
      else ret ())"

definition get_kv :: "crypto \<Rightarrow> farm_codec \<Rightarrow> string option \<Rightarrow> (nat \<Rightarrow> int) \<Rightarrow> string \<times> string \<times> string \<Rightarrow>
    (string option \<times> string option) farm_handler" where
  "get_kv K F header clk k =
     and_then (require_any_auth K F (clk 0) header) (\<lambda>caller.
     and_then (require_kv_access caller (fst (snd k))) (\<lambda>_.
     gets (\<lambda>s. case row_at kv_at k (game_kv s) of None \<Rightarrow> (None, None)
       | Some r \<Rightarrow> (Some (kv_value r), Some (kv_updated r)))))"

definition put_kv :: "crypto \<Rightarrow> farm_codec \<Rightarrow> string option \<Rightarrow> (nat \<Rightarrow> int) \<Rightarrow> string \<times> string \<times> string \<Rightarrow> string \<Rightarrow>
    status_code farm_handler" where
  "put_kv K F header clk k value =
     and_then (require_any_auth K F (clk 0) header) (\<lambda>caller.
     and_then (require_kv_access caller (fst (snd k))) (\<lambda>_.
     and_then (gets (\<lambda>s. row_at fg_id (fst k) (farm_games s))) (\<lambda>exists.
     and_then (check (exists \<noteq> None) (Reject NOT_FOUND ''game_not_found'')) (\<lambda>_.
     let r = \<lparr>kv_game = fst k, kv_user = fst (snd k), kv_key = snd (snd k), kv_value = value,
       kv_updated = now_str (clk 1)\<rparr> in
     and_then (writing (\<lambda>s. upsert (same_key kv_at) True r
         (\<lambda>q. q\<lparr>kv_value := value, kv_updated := now_str (clk 1)\<rparr>) (game_kv s))
       (\<lambda>t s. s\<lparr>game_kv := t\<rparr>)) (\<lambda>_.
     ret NO_CONTENT)))))"

subsection \<open>Requests that write\<close>

datatype farm_op =
    PatchSettings "string option" "nat \<Rightarrow> int" patch_settings_request
  | CreateHub "nat \<Rightarrow> bool" hub_env "string option" "nat \<Rightarrow> int" create_hub_request
  | SuspendHub string "string option" "nat \<Rightarrow> int" "string option"
  | DeleteHub string "string option" "nat \<Rightarrow> int"
  | InstallGame "string option" "nat \<Rightarrow> int" install_game_request
  | PatchGame "string option" "nat \<Rightarrow> int" string "string list"
  | UninstallGame "string option" "nat \<Rightarrow> int" string
  | PutKv "string option" "nat \<Rightarrow> int" "string \<times> string \<times> string" string
  | SessionOp farm_session_op

fun farm_step :: "crypto \<Rightarrow> farm_codec \<Rightarrow> farm \<Rightarrow> farm_op \<Rightarrow> farm" where
  "farm_step K F s (PatchSettings header clk req) = snd (patch_settings K F header clk req s)"
| "farm_step K F s (CreateHub alnum env header clk req) = snd (create_hub K F alnum env header clk req s)"
| "farm_step K F s (SuspendHub i header clk reason) = snd (suspend_hub K F i header clk reason s)"
| "farm_step K F s (DeleteHub i header clk) = snd (delete_hub K F i header clk s)"
| "farm_step K F s (InstallGame header clk req) = snd (install_game K F header clk req s)"
| "farm_step K F s (PatchGame header clk i grant) = snd (patch_game K F header clk i grant s)"
| "farm_step K F s (UninstallGame header clk i) = snd (uninstall_game K F header clk i s)"
| "farm_step K F s (PutKv header clk k v) = snd (put_kv K F header clk k v s)"
| "farm_step K F s (SessionOp op) = farm_session_step K F s op"

text \<open>Whom the token of a request stands for.\<close>

fun farm_credentials :: "farm_op \<Rightarrow> int \<times> string option" where
  "farm_credentials (PatchSettings header clk req) = (clk 0, header)"
| "farm_credentials (CreateHub alnum env header clk req) = (clk 0, header)"
| "farm_credentials (SuspendHub i header clk reason) = (clk 0, header)"
| "farm_credentials (DeleteHub i header clk) = (clk 0, header)"
| "farm_credentials (InstallGame header clk req) = (clk 0, header)"
| "farm_credentials (PatchGame header clk i grant) = (clk 0, header)"
| "farm_credentials (UninstallGame header clk i) = (clk 0, header)"
| "farm_credentials (PutKv header clk k v) = (clk 0, header)"
| "farm_credentials (SessionOp op) = (0, None)"

definition token_holder :: "crypto \<Rightarrow> farm_codec \<Rightarrow> farm \<Rightarrow> int \<Rightarrow> string option \<Rightarrow> string option" where
  "token_holder K F s now header =
     (case fst (require_auth K F now header s) of Inl _ \<Rightarrow> None | Inr p \<Rightarrow> Some (fp_sub p))"

definition farm_caller :: "crypto \<Rightarrow> farm_codec \<Rightarrow> farm \<Rightarrow> farm_op \<Rightarrow> string option" where
  "farm_caller K F s op = token_holder K F s (fst (farm_credentials op)) (snd (farm_credentials op))"

lemmas wp_require_auth [wps] = wp_reading [OF preserves_farm_auth(2)]

lemma wp_require_admin [wps]:
  "wp (require_admin K F now header) Q E s =
     (case fst (require_auth K F now header s) of Inl e \<Rightarrow> E e s
      | Inr p \<Rightarrow> if get_admin_pubkey s = Some (fp_sub p) then Q (fp_sub p) s
          else E (Reject FORBIDDEN ''farm_admin_only'') s)"
  by (simp add: require_admin_def wps split: sum.splits)

text \<open>The constants of a farm that no request changes.\<close>

lemma require_auth_cong: "farm_seed s = farm_seed t \<Longrightarrow> fst (require_auth K F now header s) = fst (require_auth K F now header t)"
  by (auto simp: require_auth_def run_defs farm_public_key_def split: option.splits)

lemma spawn_hub_frame [simp]:
  "farm_hubs (snd (spawn_hub ok i p s)) = farm_hubs s" "farms (snd (spawn_hub ok i p s)) = farms s"
  "farm_games (snd (spawn_hub ok i p s)) = farm_games s" "game_kv (snd (spawn_hub ok i p s)) = game_kv s"
  "farm_seed (snd (spawn_hub ok i p s)) = farm_seed s"
  by (simp_all add: spawn_hub_def)

lemma update_farm_hub_frame [simp]:
  "farms (update_farm_hub i f s) = farms s" "farm_games (update_farm_hub i f s) = farm_games s"
  "game_kv (update_farm_hub i f s) = game_kv s" "farm_seed (update_farm_hub i f s) = farm_seed s"
  "running (update_farm_hub i f s) = running s"
  "farm_hubs (update_farm_hub i f s) = update_where (\<lambda>h. fh_id h = i) f (farm_hubs s)"
  by (simp_all add: update_farm_hub_def)

lemma stop_hub_frame [simp]:
  "farms (stop_hub i s) = farms s" "farm_games (stop_hub i s) = farm_games s"
  "game_kv (stop_hub i s) = game_kv s" "farm_seed (stop_hub i s) = farm_seed s"
  "farm_hubs (stop_hub i s) = farm_hubs s"
  by (simp_all add: stop_hub_def)

lemma preserves_policy [keeps]: "preserves P (enforce_creation_policy pk)"
  unfolding enforce_creation_policy_def enforce_quota_def Let_def by (intro keeps)

lemma preserves_validations [keeps]:
  "preserves P (validate_tags tags)" "preserves P (validate_languages langs)" "preserves P fetch_farm_row"
  "preserves P (fetch_game i)" "preserves P (require_kv_access c u)" "preserves P (require_any_auth K F now header)"
  unfolding validate_tags_def validate_languages_def fetch_farm_row_def fetch_game_def require_kv_access_def
    require_any_auth_def
  by (intro keeps)+

text \<open>
  What a successful creation adds: one row, then its port. \<open>created\<close> is that row.
\<close>

definition created :: "hub_env \<Rightarrow> string \<Rightarrow> (nat \<Rightarrow> int) \<Rightarrow> create_hub_request \<Rightarrow> string \<Rightarrow> u16 \<Rightarrow> farm_hub_row" where
  "created env owner clk req hub_id port =
     (new_farm_hub hub_id owner (trim (chr_name req)) req (hubs_dir env) (clk 1))\<lparr>fh_port := Some (uint port)\<rparr>"

lemma allocate_port_cong: "running s = running t \<Longrightarrow> allocate_port base s = allocate_port base t"
  by (simp add: allocate_port_def)

lemma pick_hub_id_fresh: "pick_hub_id cs s = Some i \<Longrightarrow> row_at fh_id i (farm_hubs s) = None"
  by (auto simp: pick_hub_id_def find_Some_iff)

lemmas wp_creation_policy [wps] = wp_reading [OF preserves_policy]

lemmas wp_validations [wps] = preserves_validations [THEN wp_reading]

lemma create_hub_cases:
  fixes env :: hub_env and clk :: "nat \<Rightarrow> int"
  assumes "P s"
    and "\<And>p i. fst (require_auth K F (clk 0) header s) = Inr p \<Longrightarrow>
      fst (enforce_creation_policy (fp_sub p) s) = Inr () \<Longrightarrow> row_at fh_id i (farm_hubs s) = None \<Longrightarrow>
      P (s\<lparr>farm_hubs := farm_hubs s @ [new_farm_hub i (fp_sub p) (trim (chr_name req)) req (hubs_dir env) (clk 1)]\<rparr>)"
    and "\<And>p i port. fst (require_auth K F (clk 0) header s) = Inr p \<Longrightarrow>
      fst (enforce_creation_policy (fp_sub p) s) = Inr () \<Longrightarrow> row_at fh_id i (farm_hubs s) = None \<Longrightarrow>
      allocate_port (base_port env) s = Some port \<Longrightarrow>
      P (snd (spawn_hub (spawn_ok env) i port
        (s\<lparr>farm_hubs := farm_hubs s @ [created env (fp_sub p) clk req i port]\<rparr>)))"
  shows "P (snd (create_hub K F alnum env header clk req s))"
proof -
  let ?new = "\<lambda>i p. new_farm_hub i (fp_sub p) (trim (chr_name req)) req (hubs_dir env) (clk 1)"
  have stored: "insert_row (same_key fh_id) True (?new i p) (farm_hubs s) = Inr (farm_hubs s @ [?new i p])"
    if "pick_hub_id cs s = Some i" for cs i p
    using pick_hub_id_fresh [OF that]
    by (auto simp: insert_row_def exists_row_iff same_key_def row_at_None_iff new_farm_hub_def)
  have port: "update_farm_hub i (\<lambda>h. h\<lparr>fh_port := Some (uint port)\<rparr>) (s\<lparr>farm_hubs := farm_hubs s @ [?new i p]\<rparr>) =
      s\<lparr>farm_hubs := farm_hubs s @ [created env (fp_sub p) clk req i port]\<rparr>"
    if "pick_hub_id cs s = Some i" for cs i p port
    using pick_hub_id_fresh [OF that] update_last [of "farm_hubs s" fh_id "?new i p"]
    by (simp add: update_farm_hub_def created_def row_at_None_iff new_farm_hub_def)
  have alloc: "allocate_port base (s\<lparr>farm_hubs := x\<rparr>) = allocate_port base s" for base x
    by (rule allocate_port_cong) simp
  have "wp (create_hub K F alnum env header clk req) (\<lambda>_. P) (\<lambda>_. P) s"
    using assms(1) assms(2,3) [OF _ _ pick_hub_id_fresh]
    by (auto simp: create_hub_def Let_def wps insert_farm_hub_def allocate_and_spawn_def alloc stored port
        simp del: split_paired_All One_nat_def split: sum.splits option.splits)
  then show ?thesis by (simp only: wp_always)
qed

subsection \<open>Tenants are kept apart\<close>

text \<open>
  The interface: every request is made by the holder of its token, if it has a valid one; what a
  user owns changes only by requests of that user or of the administrator, who is fixed.
\<close>

locale tenancy =
  fixes inv :: "'s \<Rightarrow> bool"
    and step :: "'s \<Rightarrow> 'op \<Rightarrow> 's"
    and caller :: "'s \<Rightarrow> 'op \<Rightarrow> 'u option"
    and admin :: "'s \<Rightarrow> 'u option"
    and owned :: "'u \<Rightarrow> 's \<Rightarrow> 'v"
  assumes inv_step: "inv s \<Longrightarrow> inv (step s op)"
    and admin_step: "admin (step s op) = admin s"
    and caller_step: "caller (step s op) q = caller s q"
    and owned_step: "inv s \<Longrightarrow> caller s op \<noteq> Some u \<Longrightarrow> caller s op = None \<or> caller s op \<noteq> admin s \<Longrightarrow>
      owned u (step s op) = owned u s"
begin

definition stranger :: "'s \<Rightarrow> 'u \<Rightarrow> 'op \<Rightarrow> bool" where
  "stranger s u op \<longleftrightarrow> caller s op \<noteq> Some u \<and> (caller s op = None \<or> caller s op \<noteq> admin s)"

lemma strangers_change_nothing:
  "inv s \<Longrightarrow> list_all (stranger s u) ops \<Longrightarrow> owned u (run step s ops) = owned u s"
proof (induction ops arbitrary: s)
  case (Cons op ops)
  have "stranger (step s op) u = stranger s u" by (simp add: stranger_def fun_eq_iff admin_step caller_step)
  with Cons have "owned u (run step (step s op) ops) = owned u (step s op)" by (simp add: inv_step)
  with owned_step Cons.prems show ?case by (simp add: stranger_def)
qed simp

end

definition hubs_keyed :: "farm \<Rightarrow> bool" where
  "hubs_keyed s \<longleftrightarrow> keyed fh_id (farm_hubs s)"

text \<open>What a user has on the farm: their hubs, whether live or deleted, under the farm's settings.\<close>

definition tenant_hubs :: "string \<Rightarrow> farm \<Rightarrow> farm_hub_row list \<times> farm_row option \<times> farm_game_row list" where
  "tenant_hubs u s = (filter (\<lambda>h. fh_owner h = u) (farm_hubs s), farms s, farm_games s)"

definition tenant_kv :: "string \<Rightarrow> farm \<Rightarrow> farm_kv_row list" where
  "tenant_kv u s = filter (\<lambda>r. kv_user r = u) (game_kv s)"

text \<open>A predicate that logins, renewals and revocations cannot change.\<close>

lemma session_step_frame:
  assumes "\<And>s x. P (s\<lparr>farm_users := x\<rparr>) = P s" "\<And>s x. P (s\<lparr>farm_challenges := x\<rparr>) = P s"
    "\<And>s x. P (s\<lparr>farm_sessions := x\<rparr>) = P s"
  shows "P s \<Longrightarrow> P (farm_session_step K F s op)"
proof -
  have session: "preserves P (insert_farm_session jti pk now exp scope)" for jti pk now exp scope
    unfolding insert_farm_session_def by (rule preserves_writing) (simp add: assms)
  have account: "preserves P (upsert_farm_account pk now)" for pk now
    unfolding upsert_farm_account_def by (rule preserves_writing) (simp add: assms)
  have drop: "preserves P (drop_challenge pk)" for pk
    unfolding drop_challenge_def by (rule preserves_modify) (simp add: assms)
  have "preserves P (farm_challenge K pk nonce now)" for pk nonce now
    unfolding farm_challenge_def Let_def by (intro keeps preserves_writing) (simp add: assms)
  moreover have "preserves P (farm_verify K F random now req)" for random now req
    unfolding farm_verify_def Let_def by (intro keeps session account drop)
  moreover have "preserves P (farm_renew K F random clk header)" for random clk header
    unfolding farm_renew_def Let_def by (intro keeps session)
  moreover have "preserves P (revoke_user_sessions K F header pk clk)" for header pk clk
    unfolding revoke_user_sessions_def Let_def by (intro keeps preserves_modify) (simp add: assms)
  ultimately show "P s \<Longrightarrow> P (farm_session_step K F s op)"
    by (cases op) (simp_all add: preserves_def)
qed

subsection \<open>What a request can do\<close>

text \<open>
  The effects of the farm's requests as a relation: who may cause what. Every request refines it,
  so an invariant of the farm needs one case per effect.
\<close>

definition by_admin :: "crypto \<Rightarrow> farm_codec \<Rightarrow> farm \<Rightarrow> farm_op \<Rightarrow> bool" where
  "by_admin K F s op \<longleftrightarrow> farm_caller K F s op \<noteq> None \<and> farm_caller K F s op = get_admin_pubkey s"

definition by_user :: "crypto \<Rightarrow> farm_codec \<Rightarrow> farm \<Rightarrow> farm_op \<Rightarrow> string \<Rightarrow> bool" where
  "by_user K F s op u \<longleftrightarrow> farm_caller K F s op = Some u"

inductive farm_effect :: "crypto \<Rightarrow> farm_codec \<Rightarrow> farm \<Rightarrow> farm_op \<Rightarrow> farm \<Rightarrow> bool" for K F s where
  nothing: "farm_effect K F s op s"
| settings: "by_admin K F s (PatchSettings header clk req) \<Longrightarrow> farms s = Some row \<Longrightarrow>
    farm_effect K F s (PatchSettings header clk req) (s\<lparr>farms := Some (merged_settings F req row)\<rparr>)"
| listed: "by_user K F s op u \<Longrightarrow> fst (enforce_creation_policy u s) = Inr () \<Longrightarrow>
    row_at fh_id i (farm_hubs s) = None \<Longrightarrow>
    farm_effect K F s op (s\<lparr>farm_hubs := farm_hubs s @ [new_farm_hub i u name req dir now]\<rparr>)"
| created: "by_user K F s op u \<Longrightarrow> fst (enforce_creation_policy u s) = Inr () \<Longrightarrow>
    row_at fh_id i (farm_hubs s) = None \<Longrightarrow> allocate_port base s = Some port \<Longrightarrow>
    farm_effect K F s op (snd (spawn_hub ok i port
      (s\<lparr>farm_hubs := farm_hubs s @ [created env u clk req i port]\<rparr>)))"
| suspended: "by_admin K F s op \<Longrightarrow>
    farm_effect K F s op (update_farm_hub i (\<lambda>h. h\<lparr>fh_suspended := Some now, fh_reason := reason\<rparr>) s)"
| deleted: "live_hub i s = Some h \<Longrightarrow> by_admin K F s op \<or> by_user K F s op (fh_owner h) \<Longrightarrow>
    farm_effect K F s op (update_farm_hub i (\<lambda>h. h\<lparr>fh_deleted := Some now\<rparr>) (stop_hub i s))"
| games: "by_admin K F s op \<Longrightarrow> farm_effect K F s op (s\<lparr>farm_games := gs\<rparr>)"
| stored: "by_admin K F s op \<or> by_user K F s op (kv_user r) \<Longrightarrow>
    upsert (same_key kv_at) True r (\<lambda>q. q\<lparr>kv_value := v, kv_updated := at\<rparr>) (game_kv s) = Inr kvs \<Longrightarrow>
    farm_effect K F s op (s\<lparr>game_kv := kvs\<rparr>)"
| session: "farm_effect K F s (SessionOp q) (farm_session_step K F s q)"

lemma caller_iff:
  "farm_caller K F s op = Some u \<longleftrightarrow>
     (\<exists>p. fst (require_auth K F (fst (farm_credentials op)) (snd (farm_credentials op)) s) = Inr p \<and> u = fp_sub p)"
  by (auto simp: farm_caller_def token_holder_def split: sum.splits)

lemma patch_settings_effect:
  "farm_effect K F s (PatchSettings header clk req) (snd (patch_settings K F header clk req s))"
proof -
  have "by_admin K F s (PatchSettings header clk req)"
    if "fst (require_auth K F (clk 0) header s) = Inr p" "get_admin_pubkey s = Some (fp_sub p)" for p
    using that caller_iff [of K F s "PatchSettings header clk req" "fp_sub p"] by (simp add: by_admin_def)
  then have "wp (patch_settings K F header clk req) (\<lambda>_. farm_effect K F s (PatchSettings header clk req))
      (\<lambda>_. farm_effect K F s (PatchSettings header clk req)) s"
    unfolding patch_settings_def
    by (auto simp: wps fetch_farm_row_def intro: farm_effect.nothing farm_effect.settings
        split: option.splits sum.splits)
  then show ?thesis by (simp only: wp_always)
qed

lemma create_hub_effect:
  "farm_effect K F s (CreateHub alnum env header clk req) (snd (create_hub K F alnum env header clk req s))"
proof -
  let ?op = "CreateHub alnum env header clk req"
  have caller: "by_user K F s ?op (fp_sub p)" if "fst (require_auth K F (clk 0) header s) = Inr p" for p
    using that caller_iff [of K F s ?op "fp_sub p"] by (simp add: by_user_def)
  show ?thesis
    by (rule create_hub_cases [where P = "farm_effect K F s ?op"])
      (auto intro: farm_effect.nothing farm_effect.listed farm_effect.created dest: caller)
qed

text \<open>The other requests are written out by the \<open>wps\<close> collection.\<close>

lemma effect_by_wp:
  "wp m (\<lambda>_. farm_effect K F s op) (\<lambda>_. farm_effect K F s op) s \<Longrightarrow> farm_effect K F s op (snd (m s))"
  by (simp only: wp_always)

lemma by_admin_iff:
  "by_admin K F s op \<longleftrightarrow> (\<exists>p. fst (require_auth K F (fst (farm_credentials op)) (snd (farm_credentials op)) s) = Inr p \<and>
     get_admin_pubkey s = Some (fp_sub p))"
  by (auto simp: by_admin_def farm_caller_def token_holder_def split: sum.splits)

lemma by_user_iff:
  "by_user K F s op u \<longleftrightarrow> (\<exists>p. fst (require_auth K F (fst (farm_credentials op)) (snd (farm_credentials op)) s) = Inr p \<and>
     u = fp_sub p)"
  by (simp add: by_user_def caller_iff)

lemmas effect_intros = farm_effect.nothing farm_effect.suspended farm_effect.deleted farm_effect.games

lemma suspend_hub_effect:
  "farm_effect K F s (SuspendHub i header clk reason) (snd (suspend_hub K F i header clk reason s))"
  unfolding suspend_hub_def
  by (rule effect_by_wp) (auto simp: wps by_admin_iff intro: effect_intros split: option.splits sum.splits)

lemma delete_hub_effect: "farm_effect K F s (DeleteHub i header clk) (snd (delete_hub K F i header clk s))"
  unfolding delete_hub_def Let_def
  by (rule effect_by_wp)
    (auto simp: wps by_admin_iff by_user_iff intro!: effect_intros split: option.splits sum.splits)

lemma game_effects:
  "farm_effect K F s (InstallGame header clk req) (snd (install_game K F header clk req s))"
  "farm_effect K F s (PatchGame header clk i grant) (snd (patch_game K F header clk i grant s))"
  "farm_effect K F s (UninstallGame header clk i) (snd (uninstall_game K F header clk i s))"
  unfolding install_game_def patch_game_def uninstall_game_def Let_def
  by (rule effect_by_wp; auto simp: wps by_admin_iff fetch_game_def wp_reading [OF preserves_for_each] keeps
      intro: effect_intros split: option.splits sum.splits)+

lemma put_kv_effect: "farm_effect K F s (PutKv header clk k v) (snd (put_kv K F header clk k v s))"
proof -
  let ?op = "PutKv header clk k v"
  let ?r = "\<lparr>kv_game = fst k, kv_user = fst (snd k), kv_key = snd (snd k), kv_value = v, kv_updated = now_str (clk 1)\<rparr>"
  have stored: "farm_effect K F s ?op (s\<lparr>game_kv := kvs\<rparr>)"
    if "fst (require_auth K F (clk 0) header s) = Inr p"
      "fp_sub p = fst (snd k) \<or> get_admin_pubkey s = Some (fp_sub p)"
      "upsert (same_key kv_at) True ?r (\<lambda>q. q\<lparr>kv_value := v, kv_updated := now_str (clk 1)\<rparr>) (game_kv s) = Inr kvs"
    for p kvs
    by (rule farm_effect.stored [OF _ that(3)]) (use that(1,2) in \<open>auto simp: by_admin_iff by_user_iff\<close>)
  show ?thesis
    unfolding put_kv_def Let_def require_any_auth_def require_kv_access_def
    by (rule effect_by_wp) (auto simp: wps simp del: One_nat_def intro: farm_effect.nothing stored
        split: option.splits sum.splits)
qed

lemma farm_step_effect: "farm_effect K F s op (farm_step K F s op)"
  by (cases op) (simp_all add: patch_settings_effect create_hub_effect suspend_hub_effect delete_hub_effect
      game_effects put_kv_effect farm_effect.session)

text \<open>What no request changes: the farm's key and its administrator; and hub ids stay unique.\<close>

lemma session_step_keeps:
  "farm_seed (farm_session_step K F s q) = farm_seed s" "farms (farm_session_step K F s q) = farms s"
  "farm_hubs (farm_session_step K F s q) = farm_hubs s" "farm_games (farm_session_step K F s q) = farm_games s"
  "game_kv (farm_session_step K F s q) = game_kv s" "running (farm_session_step K F s q) = running s"
  by (rule session_step_frame [where P = "\<lambda>t. farm_seed t = farm_seed s"]
        session_step_frame [where P = "\<lambda>t. farms t = farms s"]
        session_step_frame [where P = "\<lambda>t. farm_hubs t = farm_hubs s"]
        session_step_frame [where P = "\<lambda>t. farm_games t = farm_games s"]
        session_step_frame [where P = "\<lambda>t. game_kv t = game_kv s"]
        session_step_frame [where P = "\<lambda>t. running t = running s"]; simp)+

lemma effect_fixed:
  assumes "farm_effect K F s op t"
  shows "get_admin_pubkey t = get_admin_pubkey s \<and> farm_seed t = farm_seed s"
  using assms by cases (simp_all add: get_admin_pubkey_def merged_settings_def session_step_keeps)

lemma farm_caller_fixed: "farm_caller K F (farm_step K F s op) q = farm_caller K F s q"
  using effect_fixed [OF farm_step_effect] require_auth_cong [of "farm_step K F s op" s]
  by (simp add: farm_caller_def token_holder_def)

lemma effect_keyed:
  assumes "farm_effect K F s op t" "hubs_keyed s"
  shows "hubs_keyed t"
  using assms
  by cases (auto simp: hubs_keyed_def session_step_keeps keyed_update_where keyed_append_fresh
      new_farm_hub_def created_def)

lemma live_hub_SomeD: "live_hub i s = Some h \<Longrightarrow> h \<in> set (farm_hubs s) \<and> fh_id h = i \<and> live h"
  using fetch_optional_SomeD by (fastforce simp: live_hub_def)

lemma filter_update_other:
  assumes "\<And>r. r \<in> set t \<Longrightarrow> P r \<Longrightarrow> \<not> H r" "\<And>r. H (f r) = H r"
  shows "filter H (update_where P f t) = filter H t"
  using assms by (intro filter_update_low) auto

lemma effect_tenant_hubs:
  assumes "farm_effect K F s op t" "hubs_keyed s" "\<not> by_admin K F s op" "\<not> by_user K F s op u"
  shows "tenant_hubs u t = tenant_hubs u s"
  using assms(1)
proof cases
  case (deleted i h now)
  then have owner: "fh_owner h \<noteq> u" using assms(3,4) by auto
  have only: "g = h" if "g \<in> set (farm_hubs s)" "fh_id g = i" for g
    using live_hub_SomeD [OF deleted(2)] that assms(2) keyed_unique [of fh_id] by (auto simp: hubs_keyed_def)
  have "filter (\<lambda>g. fh_owner g = u) (update_where (\<lambda>g. fh_id g = i) (\<lambda>g. g\<lparr>fh_deleted := Some now\<rparr>) (farm_hubs s)) =
      filter (\<lambda>g. fh_owner g = u) (farm_hubs s)"
    by (rule filter_update_other) (use owner only in auto)
  with deleted(1) show ?thesis by (simp add: tenant_hubs_def)
qed (use assms(3,4) in \<open>auto simp: tenant_hubs_def session_step_keeps new_farm_hub_def created_def by_user_def\<close>)

lemma effect_tenant_kv:
  assumes "farm_effect K F s op t" "\<not> by_admin K F s op" "\<not> by_user K F s op u"
  shows "tenant_kv u t = tenant_kv u s"
  using assms(1)
proof cases
  case (stored r v at kvs)
  then have "kv_user r \<noteq> u" using assms(2,3) by auto
  with stored(3) have "filter (\<lambda>q. kv_user q = u) kvs = filter (\<lambda>q. kv_user q = u) (game_kv s)"
    by (auto simp: ok_iffs same_key_def kv_at_def update_where_def [symmetric] intro!: filter_update_other
        split: if_splits)
  with stored(1) show ?thesis by (simp add: tenant_kv_def)
qed (simp_all add: tenant_kv_def session_step_keeps)

interpretation hub_tenancy: tenancy hubs_keyed "farm_step K F" "farm_caller K F" get_admin_pubkey tenant_hubs
  for K F
proof
  show "get_admin_pubkey (farm_step K F s op) = get_admin_pubkey s" for s op
    using effect_fixed [OF farm_step_effect] by simp
  show "tenant_hubs u (farm_step K F s op) = tenant_hubs u s"
    if "hubs_keyed s" "farm_caller K F s op \<noteq> Some u" "farm_caller K F s op = None \<or> farm_caller K F s op \<noteq> get_admin_pubkey s"
    for s op u
    using effect_tenant_hubs [OF farm_step_effect that(1)] that(2,3) by (simp add: by_admin_def by_user_def)
qed (simp_all add: farm_caller_fixed effect_keyed [OF farm_step_effect])

interpretation kv_tenancy: tenancy "\<lambda>_. True" "farm_step K F" "farm_caller K F" get_admin_pubkey tenant_kv
  for K F
proof
  show "get_admin_pubkey (farm_step K F s op) = get_admin_pubkey s" for s op
    using effect_fixed [OF farm_step_effect] by simp
  show "tenant_kv u (farm_step K F s op) = tenant_kv u s"
    if "farm_caller K F s op \<noteq> Some u" "farm_caller K F s op = None \<or> farm_caller K F s op \<noteq> get_admin_pubkey s"
    for s op u
    using effect_tenant_kv [OF farm_step_effect] that by (simp add: by_admin_def by_user_def)
qed (simp_all add: farm_caller_fixed)

text \<open>A request by somebody who is neither the user nor the administrator.\<close>

definition by_stranger :: "crypto \<Rightarrow> farm_codec \<Rightarrow> farm \<Rightarrow> string \<Rightarrow> farm_op \<Rightarrow> bool" where
  "by_stranger K F s u op \<longleftrightarrow> \<not> by_user K F s op u \<and> \<not> by_admin K F s op"

lemma stranger_iff:
  "hub_tenancy.stranger K F s u = by_stranger K F s u" "kv_tenancy.stranger K F s u = by_stranger K F s u"
  by (auto simp: fun_eq_iff hub_tenancy.stranger_def kv_tenancy.stranger_def by_stranger_def by_admin_def by_user_def)

text \<open>
  C17. Tenants of a farm are kept apart: no sequence of requests, to any endpoint, by holders of
  tokens other than a user's own and the administrator's, changes a hub the user owns (creates,
  suspends or deletes one in their name), their game data, the farm's settings or its games.
\<close>

theorem farm_tenants_are_isolated:
  assumes "hubs_keyed s" "list_all (by_stranger K F s u) ops"
  shows "tenant_hubs u (run (farm_step K F) s ops) = tenant_hubs u s \<and>
    tenant_kv u (run (farm_step K F) s ops) = tenant_kv u s"
  using hub_tenancy.strangers_change_nothing [OF assms(1), where K = K and F = F and u = u and ops = ops]
    kv_tenancy.strangers_change_nothing [where s = s and K = K and F = F and u = u and ops = ops] assms(2)
  by (simp add: stranger_iff)

text \<open>A farm with open creation, and the token of a user of it.\<close>

definition demo_farm_row :: farm_row where
  "demo_farm_row = \<lparr>farm_name = ''Farm'', farm_description = None, directory_public = 1, creation_policy = ''open'',
     max_hubs_per_user = 2, max_hubs_total = 10, allow_discovery = 0, farm_languages = ''[en]'', farm_tags = ''[]'',
     farm_country = None, farm_region = None, admin_pubkey = Some demo_owner\<rparr>"

definition demo_hosting :: farm where
  "demo_hosting = demo_farm_state\<lparr>farms := Some demo_farm_row\<rparr>"

definition demo_payload :: farm_payload where
  "demo_payload = \<lparr>fp_v = 1, fp_iss = ''https://farm'', fp_iss_pk = farm_public_key demo_crypto demo_hosting,
     fp_sub = demo_member, fp_master = None, fp_jti = ''j'', fp_iat = 0, fp_exp = 100, fp_scope = ''member''\<rparr>"

definition demo_bearer :: string where
  "demo_bearer = ''Bearer '' @ sign_token demo_crypto demo_farm_codec (farm_seed demo_hosting) demo_payload"

lemma demo_bearer_holder:
  assumes "farm_seed s = farm_seed demo_hosting" "now < 100"
  shows "fst (require_auth demo_crypto demo_farm_codec now (Some demo_bearer) s) = Inr demo_payload"
proof -
  have "strip_prefix ''Bearer '' demo_bearer = Some (sign_token demo_crypto demo_farm_codec (farm_seed demo_hosting) demo_payload)"
    by (simp add: strip_prefix_def demo_bearer_def)
  moreover have "length (farm_seed demo_hosting) = 32" by (simp add: demo_hosting_def demo_farm_state_def)
  moreover have pk: "fp_iss_pk demo_payload = farm_public_key demo_crypto s"
    using assms(1) by (simp add: demo_payload_def farm_public_key_def)
  ultimately show ?thesis
    using verify_signed_token [OF demo_hex_roundtrip demo_signing_correct demo_farm_codec_ok, of
        "farm_seed demo_hosting" demo_payload now] assms
    by (simp add: require_auth_def run_defs pk [symmetric]) (simp add: demo_payload_def farm_public_key_def)
qed

definition demo_creation :: farm_op where
  "demo_creation = CreateHub (\<lambda>_. False) \<lparr>drawn_ids = [''h1''], hubs_dir = ''hubs'', dir_error = None,
     base_port = DEFAULT_BASE_PORT, spawn_ok = True\<rparr> (Some demo_bearer) (\<lambda>_. 5)
     \<lparr>chr_name = ''My hub'', chr_description = None, chr_visibility = None\<rparr>"

theorem farm_tenants_are_isolated_witness:
  "tenant_hubs demo_mod (run (farm_step demo_crypto demo_farm_codec) demo_hosting [demo_creation]) =
     tenant_hubs demo_mod demo_hosting \<and>
   tenant_kv demo_mod (run (farm_step demo_crypto demo_farm_codec) demo_hosting [demo_creation]) =
     tenant_kv demo_mod demo_hosting"
proof (rule farm_tenants_are_isolated)
  have "farm_caller demo_crypto demo_farm_codec demo_hosting demo_creation = Some demo_member"
    using demo_bearer_holder [of demo_hosting 5]
    by (simp add: farm_caller_def token_holder_def demo_creation_def) (simp add: demo_payload_def)
  then show "list_all (by_stranger demo_crypto demo_farm_codec demo_hosting demo_mod) [demo_creation]"
    by (simp add: by_stranger_def by_user_def by_admin_def get_admin_pubkey_def demo_hosting_def demo_farm_row_def
        demo_member_def demo_mod_def demo_owner_def)
qed (simp add: hubs_keyed_def demo_hosting_def demo_farm_state_def)

subsection \<open>Quotas hold\<close>

fun keeps_settings :: "farm_op \<Rightarrow> bool" where
  "keeps_settings (PatchSettings header clk req) = False"
| "keeps_settings op = True"

definition within_quota :: "farm_row \<Rightarrow> string \<Rightarrow> farm \<Rightarrow> bool" where
  "within_quota row u s \<longleftrightarrow> farms s = Some row \<and> hubs_owned u s \<le> max_hubs_per_user row \<and>
     hubs_total s \<le> max_hubs_total row"

lemma policy_leaves_room:
  assumes "fst (enforce_creation_policy u s) = Inr ()" "farms s = Some row" "creation_policy row = ''open''"
    "0 < max_hubs_per_user row" "0 < max_hubs_total row"
  shows "hubs_owned u s < max_hubs_per_user row \<and> hubs_total s < max_hubs_total row"
  using assms by (auto simp: enforce_creation_policy_def enforce_quota_def run_defs Let_def split: if_splits)

lemma effect_quota:
  assumes "farm_effect K F s op t" "keeps_settings op" "within_quota row u s" "creation_policy row = ''open''"
    "0 < max_hubs_per_user row" "0 < max_hubs_total row"
  shows "within_quota row u t"
proof -
  have farms: "farms s = Some row" using assms(3) by (simp add: within_quota_def)
  note room = policy_leaves_room [OF _ farms assms(4-6)]
  have shrink: "within_quota row u t'"
    if "farms t' = farms s" "farm_hubs t' = update_where Q f (farm_hubs s)"
      "\<And>h. fh_owner (f h) = fh_owner h" "\<And>h. live (f h) \<Longrightarrow> live h" for t' Q f
    using assms(3) that(1,2) count_rows_update_le [of live f Q "farm_hubs s"]
      count_rows_update_le [of "\<lambda>h. fh_owner h = u \<and> live h" f Q "farm_hubs s"] that(3,4)
    by (auto simp: within_quota_def hubs_owned_def hubs_total_def)
  from assms(1) show ?thesis
  proof cases
    case (listed v i name req dir now)
    with room [of v] assms(3) show ?thesis
      by (auto simp: within_quota_def hubs_owned_def hubs_total_def new_farm_hub_def live_def)
  next
    case (created v i base port ok env clk req)
    with room [of v] assms(3) show ?thesis
      by (auto simp: within_quota_def hubs_owned_def hubs_total_def created_def new_farm_hub_def live_def)
  next
    case (suspended i now reason)
    then show ?thesis by (auto simp: live_def intro!: shrink)
  next
    case (deleted i h now)
    then show ?thesis by (auto simp: live_def intro!: shrink)
  qed (use assms(2,3) in \<open>simp_all add: within_quota_def hubs_owned_def hubs_total_def session_step_keeps\<close>)
qed

text \<open>
  C18. Under the open policy both quotas hold: as long as the settings stay as they are, no sequence
  of requests by any number of users brings a user above their quota of live hubs, or the farm
  above its total.
\<close>

theorem hub_quotas_hold:
  assumes "farms s = Some row" "creation_policy row = ''open''" "0 < max_hubs_per_user row" "0 < max_hubs_total row"
    and "hubs_owned u s \<le> max_hubs_per_user row" "hubs_total s \<le> max_hubs_total row"
    and "list_all keeps_settings ops"
  shows "hubs_owned u (run (farm_step K F) s ops) \<le> max_hubs_per_user row \<and>
    hubs_total (run (farm_step K F) s ops) \<le> max_hubs_total row"
proof -
  have "within_quota row u (run (farm_step K F) t ops)" if "within_quota row u t" for t
    using assms(7) that
  proof (induction ops arbitrary: t)
    case (Cons op ops)
    then show ?case using effect_quota [OF farm_step_effect _ _ assms(2-4)] by simp
  qed simp
  then show ?thesis using assms(1,5,6) by (simp add: within_quota_def)
qed

theorem hub_quotas_hold_witness:
  "hubs_owned demo_member (run (farm_step demo_crypto demo_farm_codec) demo_hosting
     [demo_creation, demo_creation]) \<le> max_hubs_per_user demo_farm_row \<and>
   hubs_total (run (farm_step demo_crypto demo_farm_codec) demo_hosting
     [demo_creation, demo_creation]) \<le> max_hubs_total demo_farm_row"
  by (rule hub_quotas_hold) (simp_all add: demo_hosting_def demo_farm_state_def demo_farm_row_def demo_creation_def
      hubs_owned_def hubs_total_def count_rows_def)

subsection \<open>Ports\<close>

lemma next_free_Some: "next_free n occ port = Some p \<Longrightarrow> p \<notin> set occ"
  by (induction n arbitrary: port) (auto simp: next_free.simps split: if_splits)

lemma next_free_None: "next_free n occ port = None \<Longrightarrow> k \<le> n \<Longrightarrow> port + of_nat k \<in> set occ"
proof (induction n arbitrary: port k)
  case 0
  then show ?case by (auto simp: next_free.simps split: if_splits)
next
  case (Suc n)
  then have here: "port \<in> set occ" and rest: "next_free n occ (port + 1) = None"
    by (auto simp: next_free.simps [of "Suc n"] split: if_splits)
  show ?case
  proof (cases k)
    case (Suc j)
    with Suc.IH [OF rest, of j] Suc.prems(2) show ?thesis by (simp add: algebra_simps)
  qed (simp add: here)
qed

lemma ports_distinct: "n < 2 ^ 16 \<Longrightarrow> inj_on (\<lambda>k. port + (of_nat k :: u16)) {..n}"
  by (auto simp: inj_on_def word_of_nat_eq_iff take_bit_nat_eq_self)

lemma next_free_total:
  assumes "length occ < 2 ^ 16"
  shows "\<exists>p. next_free (length occ) occ port = Some p \<and> p \<notin> set occ"
proof (cases "next_free (length occ) occ port")
  case None
  have "card ((\<lambda>k. port + (of_nat k :: u16)) ` {..length occ}) = Suc (length occ)"
    using card_image [OF ports_distinct [OF assms, of port]] by simp
  moreover have "(\<lambda>k. port + (of_nat k :: u16)) ` {..length occ} \<subseteq> set occ"
    using next_free_None [OF None] by auto
  ultimately have "Suc (length occ) \<le> card (set occ)" by (metis List.finite_set card_mono)
  with card_length [of occ] show ?thesis by simp
qed (auto dest: next_free_Some)

text \<open>Running processes: one per hub, and no two on the same port.\<close>

definition ports_ok :: "farm \<Rightarrow> bool" where
  "ports_ok s \<longleftrightarrow> distinct (map fst (running s)) \<and> distinct (map snd (running s))"

lemma effect_ports:
  assumes "farm_effect K F s op t" "ports_ok s"
  shows "ports_ok t"
proof -
  have drop: "ports_ok (stop_hub i s)" for i
    using assms(2) by (auto simp: ports_ok_def stop_hub_def distinct_map inj_on_def)
  from assms(1) show ?thesis
  proof cases
    case (created u i base port ok env clk req)
    have "port \<notin> snd ` set (running s)"
      using next_free_Some [of "length (running s)" "map snd (running s)" base port] created(5)
      by (simp add: allocate_port_def)
    then show ?thesis using drop [of i] assms(2)
      by (auto simp: created(1) spawn_hub_def ports_ok_def stop_hub_def)
  next
    case (deleted i h now)
    with drop show ?thesis by (simp add: ports_ok_def)
  qed (use assms(2) in \<open>simp_all add: ports_ok_def session_step_keeps\<close>)
qed



subsection \<open>Routing\<close>

text \<open>
  Which hub answers: the proxy forwards a request exactly when the hub exists, is neither
  deleted nor suspended and has a port on record; otherwise the caller is told which of these fails.
\<close>

theorem proxy_routes_live_hubs:
  assumes "hubs_keyed s"
  shows "fst (proxy_route i path query s) =
    (case row_at fh_id i (farm_hubs s) of
       None \<Rightarrow> Inl (Reject NOT_FOUND ''hub_not_found'')
     | Some h \<Rightarrow>
         if fh_deleted h \<noteq> None then Inl (Reject NOT_FOUND ''hub_not_found'')
         else if fh_suspended h \<noteq> None then Inl (Reject SERVICE_UNAVAILABLE ''hub_suspended'')
         else case fh_port h of
           None \<Rightarrow> Inl (Reject SERVICE_UNAVAILABLE ''hub_not_running'')
         | Some p \<Rightarrow>
             if 0 < p then Inr (''http://127.0.0.1:'' @ show_nat (unat (word_of_int p :: u16)) @ upstream_path path @
               (case query of None \<Rightarrow> [] | Some q \<Rightarrow> CHR ''?'' # q))
             else Inl (Reject SERVICE_UNAVAILABLE ''hub_not_running''))"
proof -
  have "live_hub i s = (case row_at fh_id i (farm_hubs s) of None \<Rightarrow> None | Some h \<Rightarrow> if live h then Some h else None)"
    using assms unfolding hubs_keyed_def live_hub_def
    by (rule fetch_live)
  then show ?thesis by (auto simp: proxy_route_def run_defs live_def split: option.splits)
qed

theorem proxy_routes_live_hubs_witness:
  "fst (proxy_route ''h1'' ''info'' None (demo_hosting\<lparr>farm_hubs := [(new_farm_hub ''h1'' demo_member ''My hub''
     \<lparr>chr_name = ''My hub'', chr_description = None, chr_visibility = None\<rparr> ''hubs'' 5)\<lparr>fh_port := Some 9100\<rparr>]\<rparr>)) =
   Inr (''http://127.0.0.1:'' @ show_nat 9100 @ ''/info'')"
  by (subst proxy_routes_live_hubs)
    (simp_all add: hubs_keyed_def keyed_def row_at_def new_farm_hub_def upstream_path_def)

text \<open>
  The port on record outlives the process. When a hub could not be started, its port is on record
  but free, and the next hub created gets the same one: the proxy then answers requests to the
  first hub with the second hub's process.
\<close>

theorem failed_spawn_port_is_reused:
  assumes "hubs_keyed s" "live_hub a s = Some ha" "live_hub b s = Some hb" "a \<noteq> b"
    and "fh_suspended ha = None" "fh_suspended hb = None"
    and "allocate_and_spawn base False a s = Some (ok, t)" "allocate_and_spawn base True b t = Some (ok', u)"
  shows "fst (proxy_route a path query u) = fst (proxy_route b path query u) \<and> \<not> ok \<and> ok' \<and>
    running u = (b, the (allocate_port base s)) # filter (\<lambda>(i, _). i \<noteq> b) (running s)"
proof -
  obtain port where port: "allocate_port base s = Some port"
    using assms(7) by (auto simp: allocate_and_spawn_def split: option.splits)
  let ?set = "\<lambda>i. update_farm_hub i (\<lambda>h. h\<lparr>fh_port := Some (uint port)\<rparr>)"
  have t: "t = ?set a s" "\<not> ok" using assms(7) port by (simp_all add: allocate_and_spawn_def spawn_hub_def)
  have "allocate_port base t = Some port" using port t allocate_port_cong [of t s] by simp
  then have u: "u = (?set b (?set a s))\<lparr>running := (b, port) # filter (\<lambda>(i, _). i \<noteq> b) (running s)\<rparr>" "ok'"
    using assms(8) t by (auto simp: allocate_and_spawn_def spawn_hub_def)
  have live_hub_update: "live_hub j (?set i r) = map_option (\<lambda>h. if fh_id h = i then h\<lparr>fh_port := Some (uint port)\<rparr> else h) (live_hub j r)"
    for i j r
    unfolding live_hub_def update_farm_hub_frame by (rule fetch_update_any) (simp add: live_def)
  have "live_hub j u = live_hub j (?set b (?set a s))" for j by (simp add: u(1) live_hub_def)
  then have "live_hub a u = Some (ha\<lparr>fh_port := Some (uint port)\<rparr>)" "live_hub b u = Some (hb\<lparr>fh_port := Some (uint port)\<rparr>)"
    using live_hub_SomeD [OF assms(2)] live_hub_SomeD [OF assms(3)] assms(2-4)
    by (simp_all add: live_hub_update)
  then show ?thesis using assms(5,6) t(2) u port by (simp add: proxy_route_def run_defs)
qed

end
