(* ===== verification/Forum.thy ===== *)
theory Forum
  imports Channels "HOL-Library.Char_ord" "HOL-Library.List_Lexorder" "HOL-Library.Product_Lexorder"
begin

text \<open>
  Forum channels, from \<^verbatim>\<open>hub/src/routes/posts.rs\<close> and \<^verbatim>\<open>hub/src/routes/post_models.rs\<close>: posts and their
  replies, pinning and locking, the paged listings. The broadcast of an event to WebSocket
  subscribers after a write and the full-text index behind \<^verbatim>\<open>search_posts\<close> are left out.

  Main results: the denormalised reply counter always equals the number of live replies; deletion
  is a tombstone nobody lifts, and who may change what; following the cursors of the listing yields
  every post once, as long as none is pinned.
\<close>

subsection \<open>Guards\<close>

definition require_forum_channel :: "string \<Rightarrow> unit hub_handler" where
  "require_forum_channel c =
     and_then (gets (\<lambda>s. row_at channel_id c (channels s))) (\<lambda>row.
     case row of None \<Rightarrow> fail (Reject NOT_FOUND ''channel_not_found'')
     | Some r \<Rightarrow>
         if channel_is_category r = 1 then fail (Reject NOT_FOUND ''not_a_forum'')
         else if channel_type r \<noteq> ''forum'' then fail (Reject CONFLICT ''not_a_forum'')
         else ret ())"

definition require_post :: "string \<Rightarrow> string \<Rightarrow> post_row hub_handler" where
  "require_post c i =
     and_then (gets (\<lambda>s. row_at post_id i (posts s))) (\<lambda>row.
     and_then (ok_or row (Reject NOT_FOUND ''post_not_found'')) (\<lambda>p.
     and_then (check (post_channel p = c) (Reject NOT_FOUND ''post_not_found'')) (\<lambda>_.
     ret p)))"

definition require_reply :: "string \<Rightarrow> string \<Rightarrow> reply_row hub_handler" where
  "require_reply i j =
     and_then (gets (\<lambda>s. row_at reply_id j (post_replies s))) (\<lambda>row.
     and_then (ok_or row (Reject NOT_FOUND ''reply_not_found'')) (\<lambda>r.
     and_then (check (reply_post r = i) (Reject NOT_FOUND ''reply_not_found'')) (\<lambda>_.
     ret r)))"

subsection \<open>Views\<close>

record post_summary =
  sum_id :: string
  sum_channel :: string
  sum_author :: "string option"
  sum_title :: "string option"
  sum_created :: int
  sum_edited :: "int option"
  sum_pinned :: bool
  sum_locked :: bool
  sum_reply_count :: int
  sum_last_activity :: int
  sum_deleted :: bool

record reply_view =
  rv_id :: string
  rv_post :: string
  rv_author :: "string option"
  rv_body :: "string option"
  rv_created :: int
  rv_edited :: "int option"
  rv_reply_to :: "string option"
  rv_deleted :: bool

record post_detail =
  det_summary :: post_summary
  det_body :: "string option"
  det_replies :: "reply_view list"
  det_cursor :: "string option"

definition post_to_summary :: "post_row \<Rightarrow> bool \<Rightarrow> post_summary" where
  "post_to_summary p viewer_can_moderate =
     (let is_deleted = (post_deleted p \<noteq> None) in
      \<lparr>sum_id = post_id p, sum_channel = post_channel p,
       sum_author = (if is_deleted \<and> \<not> viewer_can_moderate then None else Some (post_author p)),
       sum_title = (if is_deleted then None else Some (post_title p)),
       sum_created = post_created p, sum_edited = post_edited p, sum_pinned = (post_pinned p \<noteq> 0),
       sum_locked = (post_locked p \<noteq> 0), sum_reply_count = post_reply_count p,
       sum_last_activity = post_last_activity p, sum_deleted = is_deleted\<rparr>)"

definition reply_to_view :: "reply_row \<Rightarrow> bool \<Rightarrow> reply_view" where
  "reply_to_view r viewer_can_moderate =
     (let is_deleted = (reply_deleted r \<noteq> None) in
      \<lparr>rv_id = reply_id r, rv_post = reply_post r,
       rv_author = (if is_deleted \<and> \<not> viewer_can_moderate then None else Some (reply_author r)),
       rv_body = (if is_deleted then None else Some (reply_body r)),
       rv_created = reply_created r, rv_edited = reply_edited r, rv_reply_to = reply_to_id r,
       rv_deleted = is_deleted\<rparr>)"

subsection \<open>Listing\<close>

text \<open>\<^verbatim>\<open>str::parse::<i64>\<close>.\<close>

definition parse_i64 :: "string \<Rightarrow> int option" where
  "parse_i64 x =
     (let neg = (x \<noteq> [] \<and> hd x = CHR ''-'');
          digits = (if x \<noteq> [] \<and> (hd x = CHR ''-'' \<or> hd x = CHR ''+'') then tl x else x)
      in if digits = [] then None
         else case parse_digits 0 digits of None \<Rightarrow> None
           | Some n \<Rightarrow> let i = (if neg then - int n else int n) in if i64_range i then Some i else None)"

text \<open>\<^verbatim>\<open>LIMIT n\<close>: a negative number means no limit. \<^verbatim>\<open>take(n as usize)\<close> of a negative number takes all.\<close>

definition sql_limit :: "int \<Rightarrow> 'a list \<Rightarrow> 'a list" where
  "sql_limit n xs = (if n < 0 then xs else take (nat n) xs)"

definition take_usize :: "int \<Rightarrow> 'a list \<Rightarrow> 'a list" where
  "take_usize n xs = (if n < 0 then xs else take (nat n) xs)"

definition parse_cursor :: "string \<Rightarrow> (int \<times> string) result" where
  "parse_cursor cursor =
     (if CHR '':'' \<notin> set cursor then Inl (Reject BAD_REQUEST ''invalid_cursor'')
      else case parse_i64 (takeWhile (\<lambda>c. c \<noteq> CHR '':'') cursor) of
        None \<Rightarrow> Inl (Reject BAD_REQUEST ''invalid_cursor'')
      | Some ts \<Rightarrow> Inr (ts, tl (dropWhile (\<lambda>c. c \<noteq> CHR '':'') cursor)))"

definition post_cursor :: "post_row \<Rightarrow> string" where
  "post_cursor p = show_int (post_last_activity p) @ '':'' @ post_id p"

text \<open>\<^verbatim>\<open>ORDER BY is_pinned DESC, last_activity_at DESC, id DESC\<close>; text is compared byte by byte.\<close>

definition listing_order :: "post_row list \<Rightarrow> post_row list" where
  "listing_order ps = rev (sort_key (\<lambda>p. (post_pinned p, post_last_activity p, post_id p)) ps)"

definition live_posts :: "string \<Rightarrow> hub \<Rightarrow> post_row list" where
  "live_posts c s = filter (\<lambda>p. post_channel p = c \<and> post_deleted p = None) (posts s)"

definition before_cursor :: "int \<times> string \<Rightarrow> post_row \<Rightarrow> bool" where
  "before_cursor k p \<longleftrightarrow> post_last_activity p < fst k \<or> (post_last_activity p = fst k \<and> post_id p < snd k)"

definition posts_page :: "string \<Rightarrow> (int \<times> string) option \<Rightarrow> int \<Rightarrow> hub \<Rightarrow> post_row list" where
  "posts_page c k n s = sql_limit n (listing_order (case k of None \<Rightarrow> live_posts c s
     | Some k \<Rightarrow> filter (before_cursor k) (live_posts c s)))"

definition page_limit :: "int option \<Rightarrow> int" where
  "page_limit limit = min (case limit of None \<Rightarrow> 50 | Some n \<Rightarrow> n) 100"

definition list_posts :: "string \<Rightarrow> string \<Rightarrow> string option \<Rightarrow> int option \<Rightarrow>
    (post_summary list \<times> string option) hub_handler" where
  "list_posts user c cursor lim =
     and_then (require_forum_channel c) (\<lambda>_.
     and_then (gets (\<lambda>s. has_permission (user_permissions user s) MANAGE_POSTS)) (\<lambda>can_moderate.
     let limit = page_limit lim in
     and_then (lift (case cursor of None \<Rightarrow> Inr None
       | Some x \<Rightarrow> (case parse_cursor x of Inl e \<Rightarrow> Inl e | Inr k \<Rightarrow> Inr (Some k)))) (\<lambda>k.
     and_then (gets (posts_page c k (limit + 1))) (\<lambda>fetched.
     let has_more = limit < int (length fetched);
         rows = take_usize limit fetched;
         next = (if has_more \<and> rows \<noteq> [] then Some (post_cursor (last rows)) else None) in
     ret (map (\<lambda>p. post_to_summary p can_moderate) rows, next)))))"

subsection \<open>Posts\<close>

definition insert_post :: "post_row \<Rightarrow> unit hub_handler" where
  "insert_post p =
     writing (\<lambda>s. insert_row (same_key post_id) (channel_exists s (post_channel p)) p (posts s))
       (\<lambda>t s. s\<lparr>posts := t\<rparr>)"

definition update_post :: "string \<Rightarrow> (post_row \<Rightarrow> post_row) \<Rightarrow> unit hub_handler" where
  "update_post i f = modify (\<lambda>s. s\<lparr>posts := update_where (\<lambda>p. post_id p = i) f (posts s)\<rparr>)"

definition new_post :: "string \<Rightarrow> string \<Rightarrow> string \<Rightarrow> string \<Rightarrow> string \<Rightarrow> int \<Rightarrow> post_row" where
  "new_post i c author title body now =
     \<lparr>post_id = i, post_channel = c, post_author = author, post_title = title, post_body = body,
      post_created = now, post_edited = None, post_pinned = 0, post_locked = 0, post_reply_count = 0,
      post_last_activity = now, post_deleted = None\<rparr>"

definition create_post :: "string \<Rightarrow> string \<Rightarrow> int \<Rightarrow> string \<Rightarrow> string \<Rightarrow> string \<Rightarrow>
    (status_code \<times> post_detail) hub_handler" where
  "create_post user uuid now c req_title req_body =
     and_then (require_forum_channel c) (\<lambda>_.
     and_then (gets (user_permissions user)) (\<lambda>perms.
     and_then (require_permission perms CREATE_POSTS) (\<lambda>_.
     let title = trim req_title; body = trim req_body in
     and_then (check (title \<noteq> []) (Reject BAD_REQUEST ''title_required'')) (\<lambda>_.
     and_then (check (body \<noteq> []) (Reject BAD_REQUEST ''body_required'')) (\<lambda>_.
     and_then (insert_post (new_post uuid c user title body now)) (\<lambda>_.
     and_then (require_post c uuid) (\<lambda>p.
     ret (CREATED, \<lparr>det_summary = post_to_summary p (has_permission perms MANAGE_POSTS),
       det_body = Some (post_body p), det_replies = [], det_cursor = None\<rparr>))))))))"

definition reply_order :: "reply_row list \<Rightarrow> reply_row list" where
  "reply_order rs = sort_key (\<lambda>r. (reply_created r, reply_id r)) rs"

text \<open>\<^verbatim>\<open>created_at > (SELECT ...)\<close> holds of no row when the reply named by \<open>after\<close> does not exist.\<close>

definition replies_page :: "string \<Rightarrow> string option \<Rightarrow> int \<Rightarrow> hub \<Rightarrow> reply_row list" where
  "replies_page i after n s = sql_limit n (reply_order (filter (\<lambda>r. reply_post r = i \<and>
     (case after of None \<Rightarrow> True
      | Some j \<Rightarrow> (case row_at reply_id j (post_replies s) of None \<Rightarrow> False
          | Some q \<Rightarrow> reply_created q < reply_created r))) (post_replies s)))"

definition get_post :: "string \<Rightarrow> string \<Rightarrow> string \<Rightarrow> string option \<Rightarrow> int option \<Rightarrow> post_detail hub_handler" where
  "get_post user c i after lim =
     and_then (require_forum_channel c) (\<lambda>_.
     and_then (gets (\<lambda>s. has_permission (user_permissions user s) MANAGE_POSTS)) (\<lambda>can_moderate.
     and_then (require_post c i) (\<lambda>p.
     let limit = page_limit lim in
     and_then (gets (replies_page i after (limit + 1))) (\<lambda>fetched.
     let has_more = limit < int (length fetched);
         rows = take_usize limit fetched in
     ret \<lparr>det_summary = post_to_summary p can_moderate,
       det_body = (if post_deleted p \<noteq> None then None else Some (post_body p)),
       det_replies = map (\<lambda>r. reply_to_view r can_moderate) rows,
       det_cursor = (if has_more \<and> rows \<noteq> [] then Some (reply_id (last rows)) else None)\<rparr>))))"

definition edit_post :: "string \<Rightarrow> int \<Rightarrow> string \<Rightarrow> string \<Rightarrow> string option \<Rightarrow> string option \<Rightarrow> post_detail hub_handler" where
  "edit_post user now c i req_title req_body =
     and_then (require_forum_channel c) (\<lambda>_.
     and_then (require_post c i) (\<lambda>p.
     and_then (check (post_deleted p = None) (Reject GONE ''post_deleted'')) (\<lambda>_.
     and_then (gets (\<lambda>s. has_permission (user_permissions user s) MANAGE_POSTS)) (\<lambda>can_moderate.
     and_then (check (\<not> (post_author p \<noteq> user \<and> \<not> can_moderate)) (Reject FORBIDDEN ''forbidden'')) (\<lambda>_.
     let new_title = trim (case req_title of None \<Rightarrow> post_title p | Some x \<Rightarrow> x);
         new_body = trim (case req_body of None \<Rightarrow> post_body p | Some x \<Rightarrow> x) in
     and_then (check (new_title \<noteq> []) (Reject BAD_REQUEST ''title_required'')) (\<lambda>_.
     and_then (update_post i (\<lambda>q. q\<lparr>post_title := new_title, post_body := new_body, post_edited := Some now\<rparr>)) (\<lambda>_.
     and_then (require_post c i) (\<lambda>u.
     ret \<lparr>det_summary = post_to_summary u can_moderate, det_body = Some (post_body u), det_replies = [],
       det_cursor = None\<rparr>))))))))"

definition delete_post :: "string \<Rightarrow> int \<Rightarrow> string \<Rightarrow> string \<Rightarrow> status_code hub_handler" where
  "delete_post user now c i =
     and_then (require_forum_channel c) (\<lambda>_.
     and_then (require_post c i) (\<lambda>p.
     if post_deleted p \<noteq> None then ret NO_CONTENT
     else
       and_then (gets (user_permissions user)) (\<lambda>perms.
       and_then (check (\<not> (post_author p \<noteq> user \<and> \<not> has_permission perms MANAGE_POSTS))
         (Reject FORBIDDEN ''forbidden'')) (\<lambda>_.
       and_then (update_post i (\<lambda>q. q\<lparr>post_deleted := Some now\<rparr>)) (\<lambda>_.
       ret NO_CONTENT)))))"

text \<open>Pinning, unpinning, locking and unlocking differ in the column they set.\<close>

definition set_post_flag :: "string \<Rightarrow> string \<Rightarrow> string \<Rightarrow> (post_row \<Rightarrow> post_row) \<Rightarrow> status_code hub_handler" where
  "set_post_flag user c i f =
     and_then (require_forum_channel c) (\<lambda>_.
     and_then (gets (user_permissions user)) (\<lambda>perms.
     and_then (require_permission perms MANAGE_POSTS) (\<lambda>_.
     and_then (require_post c i) (\<lambda>p.
     and_then (check (post_deleted p = None) (Reject GONE ''post_deleted'')) (\<lambda>_.
     and_then (update_post i f) (\<lambda>_.
     ret NO_CONTENT))))))"

definition pin_post :: "string \<Rightarrow> string \<Rightarrow> string \<Rightarrow> status_code hub_handler" where
  "pin_post user c i = set_post_flag user c i (\<lambda>p. p\<lparr>post_pinned := 1\<rparr>)"

definition unpin_post :: "string \<Rightarrow> string \<Rightarrow> string \<Rightarrow> status_code hub_handler" where
  "unpin_post user c i = set_post_flag user c i (\<lambda>p. p\<lparr>post_pinned := 0\<rparr>)"

definition lock_post :: "string \<Rightarrow> string \<Rightarrow> string \<Rightarrow> status_code hub_handler" where
  "lock_post user c i = set_post_flag user c i (\<lambda>p. p\<lparr>post_locked := 1\<rparr>)"

definition unlock_post :: "string \<Rightarrow> string \<Rightarrow> string \<Rightarrow> status_code hub_handler" where
  "unlock_post user c i = set_post_flag user c i (\<lambda>p. p\<lparr>post_locked := 0\<rparr>)"

subsection \<open>Replies\<close>

definition insert_reply :: "reply_row \<Rightarrow> unit hub_handler" where
  "insert_reply r =
     writing (\<lambda>s. insert_row (same_key reply_id)
         (exists_row (\<lambda>p. post_id p = reply_post r) (posts s) \<and>
          (case reply_to_id r of None \<Rightarrow> True | Some j \<Rightarrow> exists_row (\<lambda>q. reply_id q = j) (post_replies s)))
         r (post_replies s))
       (\<lambda>t s. s\<lparr>post_replies := t\<rparr>)"

definition update_reply :: "string \<Rightarrow> (reply_row \<Rightarrow> reply_row) \<Rightarrow> unit hub_handler" where
  "update_reply j f = modify (\<lambda>s. s\<lparr>post_replies := update_where (\<lambda>r. reply_id r = j) f (post_replies s)\<rparr>)"

definition create_reply :: "string \<Rightarrow> string \<Rightarrow> int \<Rightarrow> string \<Rightarrow> string \<Rightarrow> string \<Rightarrow> string option \<Rightarrow>
    (status_code \<times> reply_view) hub_handler" where
  "create_reply user uuid now c i req_body rto =
     and_then (require_forum_channel c) (\<lambda>_.
     and_then (gets (user_permissions user)) (\<lambda>perms.
     and_then (require_permission perms SEND_MESSAGES) (\<lambda>_.
     and_then (require_post c i) (\<lambda>p.
     and_then (check (post_deleted p = None) (Reject GONE ''post_deleted'')) (\<lambda>_.
     and_then (check (\<not> (post_locked p \<noteq> 0 \<and> \<not> has_permission perms MANAGE_POSTS))
       (Reject FORBIDDEN ''post_locked'')) (\<lambda>_.
     let body = trim req_body in
     and_then (check (body \<noteq> []) (Reject BAD_REQUEST ''body_required'')) (\<lambda>_.
     and_then (case rto of None \<Rightarrow> ret ()
       | Some j \<Rightarrow>
           and_then (gets (\<lambda>s. fetch_optional (\<lambda>r. reply_id r = j \<and> reply_post r = i) (post_replies s))) (\<lambda>belongs.
           check (belongs \<noteq> None) (Reject NOT_FOUND ''reply_to_not_found''))) (\<lambda>_.
     and_then (insert_reply \<lparr>reply_id = uuid, reply_post = i, reply_author = user, reply_body = body,
       reply_created = now, reply_edited = None, reply_to_id = rto, reply_deleted = None\<rparr>) (\<lambda>_.
     and_then (update_post i (\<lambda>q. q\<lparr>post_reply_count := post_reply_count q + 1, post_last_activity := now\<rparr>)) (\<lambda>_.
     and_then (require_reply i uuid) (\<lambda>r.
     ret (CREATED, reply_to_view r (has_permission perms MANAGE_POSTS)))))))))))))"

definition edit_reply :: "string \<Rightarrow> int \<Rightarrow> string \<Rightarrow> string \<Rightarrow> string \<Rightarrow> string \<Rightarrow> reply_view hub_handler" where
  "edit_reply user now c i j req_body =
     and_then (require_forum_channel c) (\<lambda>_.
     and_then (require_post c i) (\<lambda>_.
     and_then (require_reply i j) (\<lambda>reply.
     and_then (check (reply_deleted reply = None) (Reject GONE ''reply_deleted'')) (\<lambda>_.
     and_then (gets (\<lambda>s. has_permission (user_permissions user s) MANAGE_POSTS)) (\<lambda>can_moderate.
     and_then (check (\<not> (reply_author reply \<noteq> user \<and> \<not> can_moderate)) (Reject FORBIDDEN ''forbidden'')) (\<lambda>_.
     let body = trim req_body in
     and_then (check (body \<noteq> []) (Reject BAD_REQUEST ''body_required'')) (\<lambda>_.
     and_then (update_reply j (\<lambda>r. r\<lparr>reply_body := body, reply_edited := Some now\<rparr>)) (\<lambda>_.
     and_then (require_reply i j) (\<lambda>u.
     ret (reply_to_view u can_moderate))))))))))"

definition delete_reply :: "string \<Rightarrow> int \<Rightarrow> string \<Rightarrow> string \<Rightarrow> string \<Rightarrow> status_code hub_handler" where
  "delete_reply user now c i j =
     and_then (require_forum_channel c) (\<lambda>_.
     and_then (require_post c i) (\<lambda>_.
     and_then (require_reply i j) (\<lambda>reply.
     if reply_deleted reply \<noteq> None then ret NO_CONTENT
     else
       and_then (gets (user_permissions user)) (\<lambda>perms.
       and_then (check (\<not> (reply_author reply \<noteq> user \<and> \<not> has_permission perms MANAGE_POSTS))
         (Reject FORBIDDEN ''forbidden'')) (\<lambda>_.
       and_then (update_reply j (\<lambda>r. r\<lparr>reply_deleted := Some now\<rparr>)) (\<lambda>_.
       and_then (update_post i (\<lambda>p. p\<lparr>post_reply_count := max 0 (post_reply_count p - 1)\<rparr>)) (\<lambda>_.
       ret NO_CONTENT)))))))"

subsection \<open>Requests and their effects\<close>

datatype forum_op =
    CreatePost string string int string string string
  | EditPost string int string string "string option" "string option"
  | DeletePost string int string string
  | PinPost string string string
  | UnpinPost string string string
  | LockPost string string string
  | UnlockPost string string string
  | CreateReply string string int string string string "string option"
  | EditReply string int string string string string
  | DeleteReply string int string string string

fun forum_step :: "hub \<Rightarrow> forum_op \<Rightarrow> hub" where
  "forum_step s (CreatePost user uuid now c title body) = snd (create_post user uuid now c title body s)"
| "forum_step s (EditPost user now c i title body) = snd (edit_post user now c i title body s)"
| "forum_step s (DeletePost user now c i) = snd (delete_post user now c i s)"
| "forum_step s (PinPost user c i) = snd (pin_post user c i s)"
| "forum_step s (UnpinPost user c i) = snd (unpin_post user c i s)"
| "forum_step s (LockPost user c i) = snd (lock_post user c i s)"
| "forum_step s (UnlockPost user c i) = snd (unlock_post user c i s)"
| "forum_step s (CreateReply user uuid now c i body rto) = snd (create_reply user uuid now c i body rto s)"
| "forum_step s (EditReply user now c i j body) = snd (edit_reply user now c i j body s)"
| "forum_step s (DeleteReply user now c i j) = snd (delete_reply user now c i j s)"

fun forum_actor :: "forum_op \<Rightarrow> string" where
  "forum_actor (CreatePost user uuid now c title body) = user"
| "forum_actor (EditPost user now c i title body) = user"
| "forum_actor (DeletePost user now c i) = user"
| "forum_actor (PinPost user c i) = user"
| "forum_actor (UnpinPost user c i) = user"
| "forum_actor (LockPost user c i) = user"
| "forum_actor (UnlockPost user c i) = user"
| "forum_actor (CreateReply user uuid now c i body rto) = user"
| "forum_actor (EditReply user now c i j body) = user"
| "forum_actor (DeleteReply user now c i j) = user"

definition moderates_posts :: "hub \<Rightarrow> string \<Rightarrow> bool" where
  "moderates_posts s u \<longleftrightarrow> has_permission (user_permissions u s) MANAGE_POSTS"

definition change_post :: "string \<Rightarrow> (post_row \<Rightarrow> post_row) \<Rightarrow> hub \<Rightarrow> hub" where
  "change_post i f s = s\<lparr>posts := update_where (\<lambda>p. post_id p = i) f (posts s)\<rparr>"

definition change_reply :: "string \<Rightarrow> (reply_row \<Rightarrow> reply_row) \<Rightarrow> hub \<Rightarrow> hub" where
  "change_reply j f s = s\<lparr>post_replies := update_where (\<lambda>r. reply_id r = j) f (post_replies s)\<rparr>"

text \<open>Who may cause what: the specification every forum request refines.\<close>

inductive forum_effect :: "hub \<Rightarrow> string \<Rightarrow> hub \<Rightarrow> bool" for s where
  nothing: "forum_effect s u s"
| posted: "row_at post_id i (posts s) = None \<Longrightarrow> title \<noteq> [] \<Longrightarrow> body \<noteq> [] \<Longrightarrow>
    forum_effect s u (s\<lparr>posts := posts s @ [new_post i c u title body now]\<rparr>)"
| revised: "row_at post_id i (posts s) = Some p \<Longrightarrow> post_deleted p = None \<Longrightarrow>
    u = post_author p \<or> moderates_posts s u \<Longrightarrow> title \<noteq> [] \<Longrightarrow>
    forum_effect s u (change_post i (\<lambda>q. q\<lparr>post_title := title, post_body := body, post_edited := Some now\<rparr>) s)"
| tombstoned: "row_at post_id i (posts s) = Some p \<Longrightarrow> post_deleted p = None \<Longrightarrow>
    u = post_author p \<or> moderates_posts s u \<Longrightarrow>
    forum_effect s u (change_post i (\<lambda>q. q\<lparr>post_deleted := Some now\<rparr>) s)"
| pinned: "row_at post_id i (posts s) = Some p \<Longrightarrow> post_deleted p = None \<Longrightarrow> moderates_posts s u \<Longrightarrow>
    forum_effect s u (change_post i (\<lambda>q. q\<lparr>post_pinned := x\<rparr>) s)"
| locked: "row_at post_id i (posts s) = Some p \<Longrightarrow> post_deleted p = None \<Longrightarrow> moderates_posts s u \<Longrightarrow>
    forum_effect s u (change_post i (\<lambda>q. q\<lparr>post_locked := x\<rparr>) s)"
| replied: "row_at post_id i (posts s) = Some p \<Longrightarrow> post_deleted p = None \<Longrightarrow>
    post_locked p = 0 \<or> moderates_posts s u \<Longrightarrow> row_at reply_id j (post_replies s) = None \<Longrightarrow> body \<noteq> [] \<Longrightarrow>
    forum_effect s u (change_post i (\<lambda>q. q\<lparr>post_reply_count := post_reply_count q + 1, post_last_activity := now\<rparr>)
      (s\<lparr>post_replies := post_replies s @ [\<lparr>reply_id = j, reply_post = i, reply_author = u, reply_body = body,
        reply_created = now, reply_edited = None, reply_to_id = rto, reply_deleted = None\<rparr>]\<rparr>))"
| reply_revised: "row_at reply_id j (post_replies s) = Some r \<Longrightarrow> reply_deleted r = None \<Longrightarrow>
    u = reply_author r \<or> moderates_posts s u \<Longrightarrow> body \<noteq> [] \<Longrightarrow>
    forum_effect s u (change_reply j (\<lambda>q. q\<lparr>reply_body := body, reply_edited := Some now\<rparr>) s)"
| reply_removed: "row_at reply_id j (post_replies s) = Some r \<Longrightarrow> reply_deleted r = None \<Longrightarrow>
    u = reply_author r \<or> moderates_posts s u \<Longrightarrow>
    forum_effect s u (change_post (reply_post r) (\<lambda>p. p\<lparr>post_reply_count := max 0 (post_reply_count p - 1)\<rparr>)
      (change_reply j (\<lambda>q. q\<lparr>reply_deleted := Some now\<rparr>) s))"

lemma preserves_forum_guards [keeps]:
  "preserves P (require_forum_channel c)" "preserves P (require_post c i)" "preserves P (require_reply i j)"
  unfolding require_forum_channel_def require_post_def require_reply_def by (intro keeps)+

lemmas wp_forum_channel [wps] = wp_reading [OF preserves_forum_guards(1)]

lemma wp_require_post [wps]:
  "wp (require_post c i) Q E s =
     (case row_at post_id i (posts s) of None \<Rightarrow> E (Reject NOT_FOUND ''post_not_found'') s
      | Some p \<Rightarrow> if post_channel p = c then Q p s else E (Reject NOT_FOUND ''post_not_found'') s)"
  by (simp add: require_post_def wps split: option.splits)

lemma wp_require_reply [wps]:
  "wp (require_reply i j) Q E s =
     (case row_at reply_id j (post_replies s) of None \<Rightarrow> E (Reject NOT_FOUND ''reply_not_found'') s
      | Some r \<Rightarrow> if reply_post r = i then Q r s else E (Reject NOT_FOUND ''reply_not_found'') s)"
  by (simp add: require_reply_def wps split: option.splits)

lemma wp_update_post [wps]: "wp (update_post i f) Q E s = Q () (change_post i f s)"
  by (simp add: update_post_def change_post_def wps)

lemma wp_update_reply [wps]: "wp (update_reply i f) Q E s = Q () (change_reply i f s)"
  by (simp add: update_reply_def change_reply_def wps)

lemma change_frames [simp]:
  "posts (change_reply j g s) = posts s" "post_replies (change_post i f s) = post_replies s"
  "posts (change_post i f s) = update_where (\<lambda>p. post_id p = i) f (posts s)"
  "post_replies (change_reply j g s) = update_where (\<lambda>r. reply_id r = j) g (post_replies s)"
  by (simp_all add: change_post_def change_reply_def)

lemma forum_by_wp: "wp m (\<lambda>_. forum_effect s u) (\<lambda>_. forum_effect s u) s \<Longrightarrow> forum_effect s u (snd (m s))"
  by (simp only: wp_always)

lemma create_post_effect: "forum_effect s user (snd (create_post user uuid now c title body s))"
proof -
  have "forum_effect s user (s\<lparr>posts := t\<rparr>)"
    if "insert_row (same_key post_id) fk (new_post uuid c user x y now) (posts s) = Inr t" "x \<noteq> []" "y \<noteq> []" for t fk x y
    using that row_at_insert_row(2) [OF that(1)]
    by (auto simp: ok_iffs new_post_def intro: forum_effect.posted [unfolded new_post_def])
  then show ?thesis
    unfolding create_post_def Let_def
    by (intro forum_by_wp) (auto simp: wps insert_post_def intro: forum_effect.nothing split: option.splits sum.splits)
qed

lemma post_effects:
  "forum_effect s user (snd (edit_post user now c i title body s))"
  "forum_effect s user (snd (delete_post user now c i s))"
  "forum_effect s user (snd (pin_post user c i s))" "forum_effect s user (snd (unpin_post user c i s))"
  "forum_effect s user (snd (lock_post user c i s))" "forum_effect s user (snd (unlock_post user c i s))"
  unfolding edit_post_def delete_post_def pin_post_def unpin_post_def lock_post_def unlock_post_def
    set_post_flag_def Let_def
  by (rule forum_by_wp; auto simp: wps moderates_posts_def
      intro: forum_effect.nothing forum_effect.revised forum_effect.tombstoned forum_effect.pinned forum_effect.locked
      split: option.splits sum.splits)+

lemma create_reply_effect: "forum_effect s user (snd (create_reply user uuid now c i body rto s))"
proof -
  let ?r = "\<lambda>x q. \<lparr>reply_id = uuid, reply_post = i, reply_author = user, reply_body = x, reply_created = now,
      reply_edited = None, reply_to_id = q, reply_deleted = None\<rparr>"
  have replied: "forum_effect s user (change_post i (\<lambda>q. q\<lparr>post_reply_count := post_reply_count q + 1,
      post_last_activity := now\<rparr>) (s\<lparr>post_replies := t\<rparr>))"
    if "insert_row (same_key reply_id) fk (?r x q) (post_replies s) = Inr t" "row_at post_id i (posts s) = Some p"
      "post_deleted p = None" "\<not> (post_locked p \<noteq> 0 \<and> \<not> moderates_posts s user)" "x \<noteq> []" for fk x q t p
  proof -
    have "t = post_replies s @ [?r x q]" "row_at reply_id uuid (post_replies s) = None"
      using that(1) row_at_insert_row(2) [OF that(1)] by (simp_all add: ok_iffs)
    with that(2-5) show ?thesis by (auto intro!: forum_effect.replied)
  qed
  show ?thesis
    unfolding create_reply_def Let_def
    by (rule forum_by_wp)
      (auto simp: wps insert_reply_def moderates_posts_def [symmetric] intro: forum_effect.nothing replied
        split: option.splits sum.splits)
qed

lemma reply_effects:
  "forum_effect s user (snd (edit_reply user now c i j body s))"
  "forum_effect s user (snd (delete_reply user now c i j s))"
  unfolding edit_reply_def delete_reply_def Let_def
  by (rule forum_by_wp; auto simp: wps moderates_posts_def
      intro: forum_effect.nothing forum_effect.reply_revised forum_effect.reply_removed split: option.splits sum.splits)+

lemma forum_step_effect: "forum_effect s (forum_actor op) (forum_step s op)"
  by (cases op) (simp_all add: create_post_effect post_effects create_reply_effect reply_effects)

subsection \<open>The reply counter\<close>

definition live_replies :: "hub \<Rightarrow> string \<Rightarrow> int" where
  "live_replies s i = int (count_rows (\<lambda>r. reply_post r = i \<and> reply_deleted r = None) (post_replies s))"

definition forum_ok :: "hub \<Rightarrow> bool" where
  "forum_ok s \<longleftrightarrow> keyed post_id (posts s) \<and> keyed reply_id (post_replies s) \<and>
     reply_post ` set (post_replies s) \<subseteq> post_id ` set (posts s) \<and>
     (\<forall>p \<in> set (posts s). post_reply_count p = live_replies s (post_id p))"

lemma live_replies_change:
  "(\<And>r. reply_post (f r) = reply_post r) \<Longrightarrow> (\<And>r. reply_deleted (f r) = reply_deleted r) \<Longrightarrow>
   live_replies (change_reply j f s) i = live_replies s i"
  by (simp add: live_replies_def count_rows_def update_where_def filter_map comp_def if_distrib cong: if_cong)

lemma count_rows_tombstone:
  assumes "keyed key t" "row_at key k t = Some r" "P r" "\<And>q. \<not> P (f q)"
  shows "Suc (count_rows P (update_where (\<lambda>q. key q = k) f t)) = count_rows P t"
  using assms(1,2)
proof (induction t)
  case (Cons q t)
  show ?case
  proof (cases "key q = k")
    case True
    with Cons.prems have "q = r" "k \<notin> key ` set t" by (auto simp: row_at_def keyed_def)
    moreover from this(2) have "update_where (\<lambda>q. key q = k) f t = t"
      by (auto simp: update_where_def intro!: map_idI)
    ultimately show ?thesis using True assms(3,4) by (simp add: update_where_def count_rows_def)
  next
    case False
    with Cons show ?thesis by (auto simp: row_at_def keyed_def update_where_def count_rows_def)
  qed
qed (simp add: row_at_def)

lemma live_replies_removed:
  assumes "keyed reply_id (post_replies s)" "row_at reply_id j (post_replies s) = Some r" "reply_deleted r = None"
  shows "live_replies (change_reply j (\<lambda>q. q\<lparr>reply_deleted := Some now\<rparr>) s) i =
    live_replies s i - (if reply_post r = i then 1 else 0)"
proof (cases "reply_post r = i")
  case True
  then show ?thesis
    using count_rows_tombstone [OF assms(1,2), of "\<lambda>r. reply_post r = i \<and> reply_deleted r = None"
        "\<lambda>q. q\<lparr>reply_deleted := Some now\<rparr>"] assms(3)
    by (simp add: live_replies_def)
next
  case False
  have "q = r" if "q \<in> set (post_replies s)" "reply_id q = j" for q
    using that assms(1,2) keyed_unique [of reply_id] row_at_key by fastforce
  with False have "filter (\<lambda>r. reply_post r = i \<and> reply_deleted r = None)
      (update_where (\<lambda>q. reply_id q = j) (\<lambda>q. q\<lparr>reply_deleted := Some now\<rparr>) (post_replies s)) =
    filter (\<lambda>r. reply_post r = i \<and> reply_deleted r = None) (post_replies s)"
    by (intro filter_update_low) auto
  with False show ?thesis by (simp add: live_replies_def count_rows_def)
qed

lemma image_update_where: "(\<And>r. key (f r) = key r) \<Longrightarrow> key ` set (update_where P f t) = key ` set t"
  by (induction t) (auto simp: update_where_def)

lemma ball_update_where: "(\<forall>q \<in> set (update_where P f t). Q q) \<longleftrightarrow> (\<forall>q \<in> set t. Q (if P q then f q else q))"
  by (auto simp: update_where_def)

lemmas forum_ok_update = image_update_where ball_update_where keyed_update_where

lemma forum_ok_change_post:
  assumes "forum_ok s" "\<And>p. post_id (f p) = post_id p" "\<And>p. post_reply_count (f p) = post_reply_count p"
  shows "forum_ok (change_post i f s)"
proof -
  have "live_replies (change_post i f s) = live_replies s" by (rule ext) (simp add: live_replies_def)
  with assms show ?thesis by (simp add: forum_ok_def forum_ok_update)
qed

lemma forum_ok_change_reply:
  assumes "forum_ok s" "\<And>r. reply_id (f r) = reply_id r" "\<And>r. reply_post (f r) = reply_post r"
    "\<And>r. reply_deleted (f r) = reply_deleted r"
  shows "forum_ok (change_reply j f s)"
  using assms by (simp add: forum_ok_def forum_ok_update live_replies_change)

lemma forum_ok_replied:
  assumes ok: "forum_ok s" and p: "row_at post_id i (posts s) = Some p"
    and r: "row_at reply_id (reply_id r) (post_replies s) = None" "reply_post r = i" "reply_deleted r = None"
  shows "forum_ok (change_post i (\<lambda>q. q\<lparr>post_reply_count := post_reply_count q + 1, post_last_activity := now\<rparr>)
    (s\<lparr>post_replies := post_replies s @ [r]\<rparr>))" (is "forum_ok ?t")
proof -
  have live: "live_replies ?t k = live_replies s k + (if k = i then 1 else 0)" for k
    using r by (simp add: live_replies_def)
  have "i \<in> post_id ` set (posts s)" using row_at_key [OF p] by auto
  with ok r show ?thesis unfolding forum_ok_def live by (simp add: forum_ok_update keyed_append_fresh)
qed

lemma forum_ok_reply_removed:
  assumes ok: "forum_ok s" and r: "row_at reply_id j (post_replies s) = Some r" "reply_deleted r = None"
  shows "forum_ok (change_post (reply_post r) (\<lambda>p. p\<lparr>post_reply_count := max 0 (post_reply_count p - 1)\<rparr>)
    (change_reply j (\<lambda>q. q\<lparr>reply_deleted := Some now\<rparr>) s))" (is "forum_ok ?t")
proof -
  have live: "live_replies ?t k = live_replies s k - (if reply_post r = k then 1 else 0)" for k
    using live_replies_removed [OF _ r, of now k] ok by (simp add: forum_ok_def live_replies_def)
  have "0 < live_replies s (reply_post r)"
    using row_at_key [OF r(1)] r(2) by (auto simp: live_replies_def rows)
  with ok show ?thesis unfolding forum_ok_def live by (auto simp: forum_ok_update)
qed

lemma forum_ok_posted:
  assumes "forum_ok s" "row_at post_id i (posts s) = None"
  shows "forum_ok (s\<lparr>posts := posts s @ [new_post i c u title body now]\<rparr>)"
proof -
  from assms(2) have "i \<notin> post_id ` set (posts s)" by (auto simp: row_at_None_iff)
  with assms(1) have "i \<notin> reply_post ` set (post_replies s)" unfolding forum_ok_def by blast
  then have "live_replies s i = 0"
    by (auto simp: live_replies_def count_rows_def filter_empty_conv)
  with assms show ?thesis
    by (auto simp: forum_ok_def live_replies_def keyed_append_fresh new_post_def)
qed

lemma forum_effect_ok: "forum_effect s u t \<Longrightarrow> forum_ok s \<Longrightarrow> forum_ok t"
  by (induction rule: forum_effect.induct)
    (auto simp: forum_ok_posted intro: forum_ok_change_post forum_ok_change_reply forum_ok_replied forum_ok_reply_removed)

text \<open>The channel requests leave the forum alone, except that a channel takes its posts and their replies with it.\<close>

definition same_forum :: "hub \<Rightarrow> hub \<Rightarrow> bool" where
  "same_forum s t \<longleftrightarrow> posts t = posts s \<and> post_replies t = post_replies s"

lemma same_forum_ok: "same_forum s t \<Longrightarrow> forum_ok s \<Longrightarrow> forum_ok t"
  by (simp add: same_forum_def forum_ok_def live_replies_def)

lemma channel_writes_keep_forum:
  "preserves (same_forum s) (create_channel user uuid now req)"
  "preserves (same_forum s) (update_channel user c ureq)"
  "preserves (same_forum s) (reorder_channels user cs)"
  unfolding create_channel_def update_channel_def enforce_move_def store_channel_def insert_channel_def
    update_channel_row_def rename_channel_def reorder_channels_def set_order_def spawn_publish_hub_event_def Let_def
  by (intro keeps preserves_writing preserves_modify; simp add: same_forum_def)+

definition forum_without :: "string \<Rightarrow> hub \<Rightarrow> hub \<Rightarrow> bool" where
  "forum_without c s t \<longleftrightarrow> (let gone = post_id ` {p \<in> set (posts s). post_channel p = c} in
     posts t = delete_where (\<lambda>p. post_channel p = c) (posts s) \<and>
     (\<exists>quoting. post_replies t = update_where quoting (\<lambda>q. q\<lparr>reply_to_id := None\<rparr>)
        (delete_where (\<lambda>q. reply_post q \<in> gone) (post_replies s))))"

lemma delete_channel_forum:
  "same_forum s (snd (delete_channel user c s)) \<or> forum_without c s (snd (delete_channel user c s))"
proof -
  let ?P = "\<lambda>t. same_forum s t \<or> forum_without c s t"
  have "wp (delete_channel user c) (\<lambda>_. ?P) (\<lambda>_. ?P) s"
    by (simp add: delete_channel_def require_permission_def delete_messages_of_def
        delete_channel_row_def spawn_publish_hub_event_def wps Let_def same_forum_def forum_without_def)
      auto
  then show ?thesis by (simp only: wp_always)
qed

lemma forum_without_ok:
  assumes "forum_without c s t" "forum_ok s"
  shows "forum_ok t"
proof -
  let ?gone = "post_id ` {p \<in> set (posts s). post_channel p = c}"
  from assms(1) obtain quoting where t: "posts t = delete_where (\<lambda>p. post_channel p = c) (posts s)"
    "post_replies t = update_where quoting (\<lambda>q. q\<lparr>reply_to_id := None\<rparr>)
       (delete_where (\<lambda>q. reply_post q \<in> ?gone) (post_replies s))"
    by (auto simp: forum_without_def Let_def)
  have kept: "post_id p \<notin> ?gone" if "p \<in> set (posts t)" for p
  proof
    assume "post_id p \<in> ?gone"
    then obtain q where "q \<in> set (posts s)" "post_channel q = c" "post_id q = post_id p" by auto
    with that assms(2) show False
      using keyed_unique [of post_id "posts s" p q] by (auto simp: t rows forum_ok_def)
  qed
  have "live_replies t i = live_replies s i" if "i \<notin> ?gone" for i
  proof -
    have "count_rows (\<lambda>r. reply_post r = i \<and> reply_deleted r = None) (post_replies t) =
      count_rows (\<lambda>r. reply_post r = i \<and> reply_deleted r = None)
        (delete_where (\<lambda>q. reply_post q \<in> ?gone) (post_replies s))"
      by (simp add: t count_rows_def update_where_def filter_map comp_def if_distrib cong: if_cong)
    also have "\<dots> = count_rows (\<lambda>r. reply_post r = i \<and> reply_deleted r = None) (post_replies s)"
      using that unfolding count_rows_def delete_where_def filter_filter by (intro arg_cong [where f = length] filter_cong) auto
    finally show ?thesis by (simp add: live_replies_def)
  qed
  with kept assms(2) have "\<forall>p \<in> set (posts t). post_reply_count p = live_replies t (post_id p)"
    by (auto simp: forum_ok_def t rows)
  moreover have "reply_post ` set (post_replies t) \<subseteq> post_id ` set (posts t)"
  proof -
    have "reply_post ` set (post_replies t) \<subseteq> post_id ` set (posts s) - ?gone"
      using assms(2) by (auto simp: t image_update_where set_delete_where forum_ok_def)
    also have "\<dots> \<subseteq> post_id ` set (posts t)" by (auto simp: t set_delete_where)
    finally show ?thesis .
  qed
  ultimately show ?thesis
    using assms(2) by (simp add: forum_ok_def t keyed_update_where keyed_delete_where)
qed

datatype content_op = ChannelOp channel_op | ForumOp forum_op

fun content_step :: "hub \<Rightarrow> content_op \<Rightarrow> hub" where
  "content_step s (ChannelOp op) = channel_step s op"
| "content_step s (ForumOp op) = forum_step s op"

lemma forum_ok_kept: "preserves (same_forum s) m \<Longrightarrow> forum_ok s \<Longrightarrow> forum_ok (snd (m s))"
  using same_forum_ok [of s] by (auto simp: preserves_def same_forum_def)

lemma content_step_ok:
  assumes "forum_ok s"
  shows "forum_ok (content_step s op)"
proof (cases op)
  case (ChannelOp cop)
  show ?thesis
  proof (cases cop)
    case (DeleteChannel user c)
    with ChannelOp delete_channel_forum [of s user c] assms show ?thesis
      by (auto intro: same_forum_ok forum_without_ok)
  qed (use ChannelOp in \<open>simp_all add: forum_ok_kept [OF channel_writes_keep_forum(1) assms]
      forum_ok_kept [OF channel_writes_keep_forum(2) assms] forum_ok_kept [OF channel_writes_keep_forum(3) assms]\<close>)
next
  case (ForumOp fop)
  then show ?thesis using forum_effect_ok [OF forum_step_effect assms] by simp
qed

text \<open>
  C20. The denormalised \<^verbatim>\<open>reply_count\<close> of every post equals the number of its replies that are not
  deleted, and every reply belongs to a stored post, after any sequence of forum and channel
  requests by anybody, whatever their outcome.
\<close>

theorem reply_counter_is_exact:
  assumes "forum_ok s"
  shows "forum_ok (run content_step s ops)"
  by (rule run_invariant) (use content_step_ok assms in auto)

definition demo_forum_channel :: channel_row where
  "demo_forum_channel = \<lparr>channel_id = ''f'', channel_name = ''forum'', channel_created_by = demo_mod,
     channel_parent = None, channel_is_category = 0, channel_order = 0, channel_description = None,
     channel_icon = None, channel_color = None, channel_svg = None, channel_min_talk_power = 0,
     channel_type = ''forum'', channel_created = 1\<rparr>"

definition demo_forum :: hub where
  "demo_forum = demo_hub\<lparr>channels := [demo_forum_channel],
     posts := [new_post ''p1'' ''f'' demo_mod ''first'' ''text'' 10,
       (new_post ''p2'' ''f'' demo_mod ''second'' ''text'' 20)\<lparr>post_reply_count := 1, post_last_activity := 30\<rparr>],
     post_replies := [\<lparr>reply_id = ''r1'', reply_post = ''p2'', reply_author = demo_mod, reply_body = ''hello'',
       reply_created = 30, reply_edited = None, reply_to_id = None, reply_deleted = None\<rparr>]\<rparr>"

theorem reply_counter_is_exact_witness:
  "forum_ok (run content_step demo_forum [ForumOp (DeleteReply demo_mod 40 ''f'' ''p2'' ''r1'')]) \<and>
   map post_reply_count (posts demo_forum) = [0, 1]"
proof -
  have "forum_ok demo_forum"
    by (simp add: forum_ok_def demo_forum_def new_post_def keyed_def live_replies_def count_rows_def)
  note reply_counter_is_exact [OF this, of "[ForumOp (DeleteReply demo_mod 40 ''f'' ''p2'' ''r1'')]"]
  moreover have "map post_reply_count (posts demo_forum) = [0, 1]" by (simp add: demo_forum_def new_post_def)
  ultimately show ?thesis by simp
qed

subsection \<open>Who may change what\<close>

text \<open>What the requests of user \<open>u\<close> may do to a stored post and to a stored reply.\<close>

definition post_guarded :: "bool \<Rightarrow> string \<Rightarrow> post_row \<Rightarrow> post_row \<Rightarrow> bool" where
  "post_guarded moderator u p q \<longleftrightarrow>
     post_author q = post_author p \<and> post_channel q = post_channel p \<and> post_created q = post_created p \<and>
     (post_deleted p \<noteq> None \<longrightarrow> post_title q = post_title p \<and> post_body q = post_body p \<and>
        post_deleted q = post_deleted p \<and> post_pinned q = post_pinned p \<and> post_locked q = post_locked p) \<and>
     (u \<noteq> post_author p \<and> \<not> moderator \<longrightarrow>
        post_title q = post_title p \<and> post_body q = post_body p \<and> post_deleted q = post_deleted p) \<and>
     (\<not> moderator \<longrightarrow> post_pinned q = post_pinned p \<and> post_locked q = post_locked p)"

definition reply_guarded :: "bool \<Rightarrow> string \<Rightarrow> reply_row \<Rightarrow> reply_row \<Rightarrow> bool" where
  "reply_guarded moderator u r q \<longleftrightarrow>
     reply_author q = reply_author r \<and> reply_post q = reply_post r \<and> reply_created q = reply_created r \<and>
     (reply_deleted r \<noteq> None \<longrightarrow> reply_body q = reply_body r \<and> reply_deleted q = reply_deleted r) \<and>
     (u \<noteq> reply_author r \<and> \<not> moderator \<longrightarrow> reply_body q = reply_body r \<and> reply_deleted q = reply_deleted r)"

lemma guarded_refl: "post_guarded m u p p" "reply_guarded m u r r"
  by (simp_all add: post_guarded_def reply_guarded_def)

lemma row_at_changed:
  "(\<And>p. post_id (f p) = post_id p) \<Longrightarrow> row_at post_id k (posts (change_post i f s)) =
     (if k = i then map_option f (row_at post_id i (posts s)) else row_at post_id k (posts s))"
  "(\<And>r. reply_id (g r) = reply_id r) \<Longrightarrow> row_at reply_id k (post_replies (change_reply j g s)) =
     (if k = j then map_option g (row_at reply_id j (post_replies s)) else row_at reply_id k (post_replies s))"
  by (simp_all add: row_at_update_where)

lemma forum_effect_guards:
  assumes "forum_effect s u t"
  shows "row_at post_id i (posts s) = Some p \<Longrightarrow>
      \<exists>q. row_at post_id i (posts t) = Some q \<and> post_guarded (moderates_posts s u) u p q"
    and "row_at reply_id j (post_replies s) = Some r \<Longrightarrow>
      \<exists>q. row_at reply_id j (post_replies t) = Some q \<and> reply_guarded (moderates_posts s u) u r q"
  using assms
  by (induction rule: forum_effect.induct)
    (auto simp: row_at_changed row_at_append guarded_refl post_guarded_def reply_guarded_def simp del: change_frames(3,4))

text \<open>
  C21. Whatever forum request user \<open>u\<close> sends, a stored post and a stored reply stay stored, with
  author, place and creation time. Their text and their tombstone change only when \<open>u\<close> is the author
  or holds \<^verbatim>\<open>manage_posts\<close>, a post's pin and lock only when \<open>u\<close> holds \<^verbatim>\<open>manage_posts\<close>, and nothing of
  that changes any more once the tombstone is set.
\<close>

theorem forum_content_is_protected:
  "(\<forall>i p. row_at post_id i (posts s) = Some p \<longrightarrow>
      (\<exists>q. row_at post_id i (posts (forum_step s op)) = Some q \<and>
        post_guarded (moderates_posts s (forum_actor op)) (forum_actor op) p q)) \<and>
   (\<forall>j r. row_at reply_id j (post_replies s) = Some r \<longrightarrow>
      (\<exists>q. row_at reply_id j (post_replies (forum_step s op)) = Some q \<and>
        reply_guarded (moderates_posts s (forum_actor op)) (forum_actor op) r q))"
  using forum_effect_guards [OF forum_step_effect] by blast

theorem forum_content_is_protected_witness:
  "\<exists>q. row_at post_id ''p1'' (posts (forum_step demo_forum (EditPost demo_member 50 ''f'' ''p1'' (Some ''mine'') None))) = Some q \<and>
     post_title q = ''first'' \<and> post_author q = demo_mod"
proof -
  let ?p = "new_post ''p1'' ''f'' demo_mod ''first'' ''text'' 10"
  have row: "row_at post_id ''p1'' (posts demo_forum) = Some ?p"
    by (simp add: demo_forum_def new_post_def row_at_def)
  have "\<not> moderates_posts demo_forum demo_member" "demo_member \<noteq> demo_mod" by code_simp+
  with forum_content_is_protected [of demo_forum "EditPost demo_member 50 ''f'' ''p1'' (Some ''mine'') None",
      THEN conjunct1, rule_format, OF row]
  show ?thesis by (auto simp: post_guarded_def new_post_def)
qed

subsection \<open>Following the cursors\<close>

lemma parse_show_int: "i64_range i \<Longrightarrow> parse_i64 (show_int i) = Some i"
proof -
  assume r: "i64_range i"
  have hd: "hd (show_nat n) \<noteq> CHR ''-'' \<and> hd (show_nat n) \<noteq> CHR ''+''" for n
    using show_nat_chars [OF hd_in_set [OF show_nat_nonempty [of n]]] by auto
  show ?thesis
    using r hd by (simp add: parse_i64_def show_int_def show_nat_nonempty parse_show_nat Let_def)
qed

lemma parse_post_cursor:
  "i64_range (post_last_activity p) \<Longrightarrow> parse_cursor (post_cursor p) = Inr (post_last_activity p, post_id p)"
proof -
  have split: "takeWhile (\<lambda>c. c \<noteq> x) (xs @ x # ys) = xs \<and> dropWhile (\<lambda>c. c \<noteq> x) (xs @ x # ys) = x # ys"
    if "x \<notin> set xs" for x :: char and xs ys
    using that by (induction xs) auto
  assume "i64_range (post_last_activity p)"
  then show ?thesis
    using split [OF show_int_no_colon [of "post_last_activity p"]]
    by (simp add: parse_cursor_def post_cursor_def parse_show_int)
qed

text \<open>A client that asks for the next page as long as it is given a cursor.\<close>

fun follow :: "nat \<Rightarrow> string \<Rightarrow> string \<Rightarrow> string option \<Rightarrow> int option \<Rightarrow> hub \<Rightarrow> post_summary list option" where
  "follow 0 user c k lim s = None"
| "follow (Suc n) user c k lim s =
     (case fst (list_posts user c k lim s) of
        Inl e \<Rightarrow> None
      | Inr (page, None) \<Rightarrow> Some page
      | Inr (page, Some k') \<Rightarrow> map_option (\<lambda>rest. page @ rest) (follow n user c (Some k') lim s))"

definition forum_listing :: "string \<Rightarrow> hub \<Rightarrow> post_row list" where
  "forum_listing c s = listing_order (live_posts c s)"

definition is_forum :: "string \<Rightarrow> hub \<Rightarrow> bool" where
  "is_forum c s \<longleftrightarrow> (case row_at channel_id c (channels s) of None \<Rightarrow> False
     | Some r \<Rightarrow> channel_is_category r \<noteq> 1 \<and> channel_type r = ''forum'')"

lemma filter_listing: "listing_order (filter P ps) = filter P (listing_order ps)"
  by (simp add: listing_order_def filter_sort rev_filter [symmetric])

lemma listing_strict:
  assumes "distinct (map (\<lambda>p. (post_pinned p, post_last_activity p, post_id p)) ps)"
  shows "sorted_wrt (\<lambda>p q. (post_pinned q, post_last_activity q, post_id q) <
    (post_pinned p, post_last_activity p, post_id p)) (listing_order ps)"
proof -
  let ?f = "\<lambda>p. (post_pinned p, post_last_activity p, post_id p)"
  have "distinct (map ?f (sort_key ?f ps))"
    using assms by (simp add: distinct_map distinct_sort)
  then have "sorted_wrt (<) (map ?f (sort_key ?f ps))"
    by (simp add: strict_sorted_iff)
  then show ?thesis by (simp add: listing_order_def sorted_wrt_rev sorted_wrt_map)
qed

text \<open>Without pinned posts the rows after a cursor are those listed after the post it names.\<close>

lemma after_cursor:
  assumes "keyed post_id (posts s)" "\<And>p. p \<in> set (live_posts c s) \<Longrightarrow> post_pinned p = 0"
    and "forum_listing c s = xs @ ys" "xs \<noteq> []"
  shows "filter (before_cursor (post_last_activity (last xs), post_id (last xs))) (forum_listing c s) = ys"
proof -
  let ?b = "before_cursor (post_last_activity (last xs), post_id (last xs))"
  let ?f = "\<lambda>p. (post_pinned p, post_last_activity p, post_id p)"
  have flat: "post_pinned p = 0" if "p \<in> set (xs @ ys)" for p
    using that assms(2) unfolding assms(3) [symmetric] by (simp add: forum_listing_def listing_order_def)
  have "keyed post_id (live_posts c s)" using assms(1) by (simp add: live_posts_def)
  then have "distinct (map ?f (live_posts c s))"
    by (auto simp: keyed_def distinct_map inj_on_def)
  from listing_strict [OF this] assms(3) have sorted: "sorted_wrt (\<lambda>p q. ?f q < ?f p) (xs @ ys)"
    by (simp add: forum_listing_def)
  have "?b q" if "q \<in> set ys" for q
  proof -
    from sorted that assms(4) have "?f q < ?f (last xs)" by (simp add: sorted_wrt_append)
    with flat [of q] flat [of "last xs"] that assms(4) show ?thesis by (auto simp: before_cursor_def)
  qed
  moreover have "\<not> ?b p" if p: "p \<in> set xs" for p
  proof (cases "p = last xs")
    case False
    have "sorted_wrt (\<lambda>p q. ?f q < ?f p) (butlast xs @ [last xs])"
      using sorted assms(4) by (simp add: sorted_wrt_append)
    moreover have "p \<in> set (butlast xs)"
      using p False assms(4) by (metis append_butlast_last_id in_set_conv_decomp in_set_conv_decomp_last rotate1.simps(2) set_ConsD set_rotate1)
    ultimately have "?f (last xs) < ?f p" by (simp add: sorted_wrt_append)
    with flat [of p] flat [of "last xs"] p assms(4) show ?thesis by (auto simp: before_cursor_def)
  qed (simp add: before_cursor_def)
  ultimately show ?thesis by (simp add: assms(3) filter_empty_conv)
qed

lemma list_posts_run:
  assumes "is_forum c s" "1 \<le> n" "n \<le> 100"
    "(case k of None \<Rightarrow> Inr None | Some x \<Rightarrow> (case parse_cursor x of Inl e \<Rightarrow> Inl e | Inr y \<Rightarrow> Inr (Some y))) = Inr key"
    "rest = (case key of None \<Rightarrow> forum_listing c s | Some y \<Rightarrow> filter (before_cursor y) (forum_listing c s))"
  shows "fst (list_posts user c k (Some n) s) =
    Inr (map (\<lambda>p. post_to_summary p (moderates_posts s user)) (take (nat n) rest),
      if nat n < length rest then Some (post_cursor (last (take (nat n) rest))) else None)"
proof -
  have "posts_page c key (n + 1) s = take (nat (n + 1)) rest"
    using assms(2,5) by (auto simp: posts_page_def sql_limit_def forum_listing_def filter_listing split: option.splits)
  moreover have "take (nat n) (take (nat (n + 1)) rest) = take (nat n) rest"
    using assms(2) by (simp add: min_def)
  moreover have "n < int (length (take (nat (n + 1)) rest)) \<longleftrightarrow> nat n < length rest"
    using assms(2) by auto
  moreover have "nat n < length rest \<Longrightarrow> take (nat n) rest \<noteq> []" using assms(2) by auto
  moreover have "require_forum_channel c s = (Inr (), s)"
    using assms(1) by (auto simp: is_forum_def require_forum_channel_def run_simps split: option.splits)
  ultimately show ?thesis
    using assms(2,3,4)
    by (simp add: list_posts_def run_simps page_limit_def take_usize_def moderates_posts_def Let_def)
qed

lemma follow_lists_rest:
  assumes forum: "is_forum c s" "keyed post_id (posts s)" "1 \<le> n" "n \<le> 100"
    and flat: "\<And>p. p \<in> set (live_posts c s) \<Longrightarrow> post_pinned p = 0 \<and> i64_range (post_last_activity p)"
  shows "forum_listing c s = xs @ rest \<Longrightarrow> length rest < fuel \<Longrightarrow>
    follow fuel user c (if xs = [] then None else Some (post_cursor (last xs))) (Some n) s =
      Some (map (\<lambda>p. post_to_summary p (moderates_posts s user)) rest)"
proof (induction fuel arbitrary: xs rest)
  case (Suc fuel)
  let ?k = "if xs = [] then None else Some (post_cursor (last xs))"
  let ?key = "if xs = [] then None else Some (post_last_activity (last xs), post_id (last xs))"
  have range: "p \<in> set (forum_listing c s) \<Longrightarrow> i64_range (post_last_activity p)" for p
    using flat by (simp add: forum_listing_def listing_order_def)
  have key: "(case ?k of None \<Rightarrow> Inr None
      | Some x \<Rightarrow> (case parse_cursor x of Inl e \<Rightarrow> Inl e | Inr y \<Rightarrow> Inr (Some y))) = Inr ?key"
    using range [of "last xs"] Suc.prems(1) by (simp add: parse_post_cursor)
  have rest: "rest = (case ?key of None \<Rightarrow> forum_listing c s | Some y \<Rightarrow> filter (before_cursor y) (forum_listing c s))"
    using after_cursor [OF forum(2) _ Suc.prems(1)] flat Suc.prems(1) by simp
  note page = list_posts_run [OF forum(1,3,4) key rest, of user]
  show ?case
  proof (cases "nat n < length rest")
    case True
    let ?page = "take (nat n) rest" and ?rest = "drop (nat n) rest"
    have "?page \<noteq> []" using True forum(3) by auto
    with Suc.IH [of "xs @ ?page" ?rest] Suc.prems True forum(3) page show ?thesis
      by (simp add: map_append [symmetric] del: map_append)
  qed (use page in simp)
qed simp

text \<open>
  C22. In a channel without pinned posts, a client that follows the cursors with any page size
  between 1 and 100 is answered on every page, stops, and has seen exactly the live posts of the
  channel, once each, most recently active first.
\<close>

theorem cursors_reach_every_post:
  assumes "is_forum c s" "keyed post_id (posts s)" "1 \<le> n" "n \<le> 100"
    and "\<forall>p \<in> set (live_posts c s). post_pinned p = 0 \<and> i64_range (post_last_activity p)"
  shows "follow (Suc (length (live_posts c s))) user c None (Some n) s =
    Some (map (\<lambda>p. post_to_summary p (moderates_posts s user)) (forum_listing c s))"
proof -
  have "length (forum_listing c s) = length (live_posts c s)" by (simp add: forum_listing_def listing_order_def)
  with follow_lists_rest [OF assms(1-4), of "[]" "forum_listing c s" _ user] assms(5) show ?thesis
    by (simp del: follow.simps)
qed

theorem cursors_reach_every_post_witness:
  "follow 3 demo_mod ''f'' None (Some 1) demo_forum =
     Some (map (\<lambda>p. post_to_summary p (moderates_posts demo_forum demo_mod)) (forum_listing ''f'' demo_forum)) \<and>
   map post_id (forum_listing ''f'' demo_forum) = [''p2'', ''p1'']"
proof -
  have "is_forum ''f'' demo_forum" "keyed post_id (posts demo_forum)"
    "\<forall>p \<in> set (live_posts ''f'' demo_forum). post_pinned p = 0 \<and> i64_range (post_last_activity p)"
    "Suc (length (live_posts ''f'' demo_forum)) = 3"
    by code_simp+
  with cursors_reach_every_post [of "''f''" demo_forum 1 demo_mod] show ?thesis
    by (simp del: follow.simps) code_simp
qed

text \<open>
  With a pinned post the pages overlap the order differently: the pinned post comes first, its
  cursor names its last activity, and every unpinned post that was active later is never listed.
\<close>

lemma pinned_post_hides_newer_posts:
  "map_option (map sum_id)
     (follow 3 demo_mod ''f'' None (Some 1) (content_step demo_forum (ForumOp (PinPost demo_owner ''f'' ''p1'')))) =
   Some [''p1'']"
  by code_simp

end
