(* ===== verification/Messages.thy ===== *)
theory Messages
  imports Forum Moderation
begin

text \<open>
  Channel messages, from \<^verbatim>\<open>hub/src/routes/messages.rs\<close>, and the bots that answer them, from
  \<^verbatim>\<open>hub/src/bots/dispatch.rs\<close>: sending with its gates, editing, deleting, reactions, the history with
  its paging and search, slash commands and component interactions.

  The bot behind a webhook URL is an argument: a function from the posted body to the parsed answer,
  \<^const>\<open>None\<close> when the request fails, the status is not a success or the body does not parse, which the
  code treats alike. So are \<^verbatim>\<open>str::to_lowercase\<close> (Unicode's tables) and the full-text matcher. The
  signature headers of the posts are left out. A row's position in \<^const>\<open>messages\<close> stands for its rowid.

  Main results: who can make a message appear, change or go; a muted user stays silent; the tables'
  references stay sound under messages, channels and moderation together; reaction summaries count
  users. An ephemeral answer is nevertheless part of everybody's history.
\<close>

subsection \<open>Requests\<close>

definition MAX_ATTACHMENTS_BYTES :: nat where
  "MAX_ATTACHMENTS_BYTES = 3 * 1024 * 1024"

record send_message_request =
  smr_content :: string
  smr_attachments :: "attachment list"
  smr_reply_to :: "string option"

definition attach_total :: "attachment list \<Rightarrow> nat" where
  "attach_total xs = sum_list (map (\<lambda>a. length (att_data_b64 a)) xs)"

text \<open>\<^verbatim>\<open>chars().take(n)\<close> and \<^verbatim>\<open>chars().count()\<close> on UTF-8: a byte 10xxxxxx continues a character.\<close>

definition continues_char :: "char \<Rightarrow> bool" where
  "continues_char c \<longleftrightarrow> 128 \<le> (of_char c :: nat) \<and> (of_char c :: nat) < 192"

fun take_chars :: "nat \<Rightarrow> string \<Rightarrow> string" where
  "take_chars n [] = []"
| "take_chars n (c # cs) =
     (if continues_char c then c # take_chars n cs
      else case n of 0 \<Rightarrow> [] | Suc m \<Rightarrow> c # take_chars m cs)"

definition count_chars :: "string \<Rightarrow> nat" where
  "count_chars x = length (filter (\<lambda>c. \<not> continues_char c) x)"

definition display_name :: "hub \<Rightarrow> string \<Rightarrow> string option" where
  "display_name s pk = (case row_at user_key pk (users s) of None \<Rightarrow> None | Some u \<Rightarrow> user_display_name u)"

definition insert_message :: "message_row \<Rightarrow> unit hub_handler" where
  "insert_message m =
     writing (\<lambda>s. insert_row (same_key msg_id) (channel_exists s (msg_channel m) \<and> user_exists s (msg_sender m))
         m (messages s))
       (\<lambda>t s. s\<lparr>messages := t\<rparr>)"

definition send_chat :: "chat_event \<Rightarrow> unit hub_handler" where
  "send_chat e = modify (\<lambda>s. s\<lparr>chat_tx := chat_tx s @ [e]\<rparr>)"

text \<open>A row without attachments, reply or embeds, and the message broadcast for it.\<close>

definition plain_message :: "string \<Rightarrow> string \<Rightarrow> string \<Rightarrow> string \<Rightarrow> int \<Rightarrow> string option \<Rightarrow> json list option \<Rightarrow> message_row" where
  "plain_message i c sender content now visible embeds = \<lparr>msg_id = i, msg_channel = c, msg_sender = sender,
     msg_content = content, msg_created = now, msg_edited = None, msg_attachments = None, msg_reply_to = None,
     msg_visible_to = visible, msg_embeds = embeds\<rparr>"

definition plain_response :: "string \<Rightarrow> string \<Rightarrow> string \<Rightarrow> string option \<Rightarrow> string \<Rightarrow> int \<Rightarrow> string option \<Rightarrow> message_response" where
  "plain_response i c sender name content now visible = \<lparr>mr_id = i, mr_channel = c, mr_sender = sender,
     mr_sender_name = name, mr_content = content, mr_created = now, mr_edited = None, mr_attachments = [],
     mr_reactions = [], mr_reply_to = None, mr_visible_to = visible\<rparr>"

subsection \<open>Slash commands\<close>

record slash_invocation =
  si_hub_url :: string
  si_channel :: string
  si_hint :: string
  si_author :: string
  si_author_name :: "string option"
  si_command :: string
  si_args_raw :: string
  si_args_tokens :: "string list"

record bot_reply =
  reply_text :: string
  reply_embeds :: "json list option"

record bot_response =
  br_reply :: "bot_reply option"
  br_ephemeral :: "bool option"

type_synonym slash_bot = "string \<Rightarrow> slash_invocation \<Rightarrow> bot_response option"

function split_whitespace :: "string \<Rightarrow> string \<Rightarrow> string list" where
  "split_whitespace word x =
     (case x of [] \<Rightarrow> (if word = [] then [] else [word])
      | c # cs \<Rightarrow>
          (case List.find (\<lambda>w. w \<noteq> [] \<and> take (length w) x = w) white_space of
             Some w \<Rightarrow> (if word = [] then [] else [word]) @ split_whitespace [] (drop (length w) x)
           | None \<Rightarrow> split_whitespace (word @ [c]) cs))"
  by auto
termination
  by (relation "measure (\<lambda>(w, x). length x)") (auto simp: find_Some_iff)

declare split_whitespace.simps [simp del]

definition hub_url_public :: "hub \<Rightarrow> string" where
  "hub_url_public s = (case setting ''hub_url'' s of None \<Rightarrow> ''https://unknown-hub'' | Some u \<Rightarrow> u)"

text \<open>No \<^verbatim>\<open>bot_channel_scope\<close> row at all means every channel.\<close>

definition bot_in_scope :: "hub \<Rightarrow> string \<Rightarrow> string \<Rightarrow> bool" where
  "bot_in_scope s pk c \<longleftrightarrow> \<not> exists_row (\<lambda>r. scope_bot r = pk) (bot_channel_scope s) \<or>
     exists_row (\<lambda>r. scope_bot r = pk \<and> scope_channel r = c) (bot_channel_scope s)"

definition is_active_bot :: "hub \<Rightarrow> string \<Rightarrow> bool" where
  "is_active_bot s pk \<longleftrightarrow>
     exists_row (\<lambda>u. user_key u = pk \<and> user_is_bot u = 1 \<and> user_is_bot_removed u = 0) (users s)"

text \<open>The joined \<^verbatim>\<open>SELECT ... LIMIT 1\<close>: the command with the profile of its bot.\<close>

definition matched_command :: "hub \<Rightarrow> string \<Rightarrow> string \<Rightarrow> (bot_command_row \<times> bot_profile_row) option" where
  "matched_command s name c =
     (case fetch_optional (\<lambda>bc. bc_name bc = name \<and> row_at bp_pubkey (bc_pubkey bc) (bot_profiles s) \<noteq> None \<and>
        is_active_bot s (bc_pubkey bc) \<and> bot_in_scope s (bc_pubkey bc) c) (bot_commands s) of
        None \<Rightarrow> None
      | Some bc \<Rightarrow> map_option (\<lambda>bp. (bc, bp)) (row_at bp_pubkey (bc_pubkey bc) (bot_profiles s)))"

definition slash_parts :: "(string \<Rightarrow> string) \<Rightarrow> string \<Rightarrow> string \<times> string" where
  "slash_parts lower content =
     (let rest = tl content in
      (lower (takeWhile (\<lambda>c. c \<noteq> CHR '' '') rest),
       case dropWhile (\<lambda>c. c \<noteq> CHR '' '') rest of [] \<Rightarrow> [] | _ # args \<Rightarrow> args))"

definition post_bot_reply :: "string \<Rightarrow> int \<Rightarrow> string \<Rightarrow> string \<Rightarrow> bot_profile_row \<Rightarrow> string \<Rightarrow> bot_response \<Rightarrow> unit hub_handler" where
  "post_bot_reply answer_id now c invoker bp sender resp =
     (case br_reply resp of None \<Rightarrow> ret ()
      | Some reply \<Rightarrow>
          let visible_to = (if br_ephemeral resp = Some True then Some invoker else None);
              embeds = (case reply_embeds reply of None \<Rightarrow> None | Some es \<Rightarrow> if es = [] then None else Some es) in
          and_then (ignoring (insert_message
            (plain_message answer_id c sender (reply_text reply) now visible_to embeds))) (\<lambda>_.
          and_then (gets (\<lambda>s. display_name s sender)) (\<lambda>shown.
          send_chat (NewMessage c (plain_response answer_id c sender
            (case shown of None \<Rightarrow> Some (bp_name bp) | Some n \<Rightarrow> Some n) (reply_text reply) now visible_to)))))"

definition bot_failed :: "bot_profile_row \<Rightarrow> string" where
  "bot_failed bp = ''Bot @'' @ bp_name bp @ '' failed to respond.''"

definition dispatch_slash :: "(string \<Rightarrow> string) \<Rightarrow> slash_bot \<Rightarrow> string \<Rightarrow> string \<Rightarrow> int \<Rightarrow> string \<Rightarrow> string \<Rightarrow>
    string \<Rightarrow> string option hub_handler" where
  "dispatch_slash lower post hint answer_id now c invoker content =
     (if take 1 content \<noteq> ''/'' then ret None
      else let (command_name, args_raw) = slash_parts lower content in
      if command_name = [] then ret None
      else and_then (gets (\<lambda>s. matched_command s command_name c)) (\<lambda>matched.
      case matched of None \<Rightarrow> ret None
      | Some (bc, bp) \<Rightarrow>
          and_then (gets (\<lambda>s. has_permission (user_permissions invoker s) MANAGE_MESSAGES)) (\<lambda>may_moderate.
          if bc_privileged bc \<noteq> 0 \<and> \<not> may_moderate
          then ret (Some (''You don'' @ [CHR 0x27] @ ''t have permission to use this command.''))
          else (case bp_webhook_url bp of None \<Rightarrow> ret None
          | Some url \<Rightarrow>
              if url = [] then ret None
              else and_then (gets (\<lambda>s. \<lparr>si_hub_url = hub_url_public s, si_channel = c, si_hint = hint, si_author = invoker,
                  si_author_name = display_name s invoker, si_command = command_name, si_args_raw = args_raw,
                  si_args_tokens = (if args_raw = [] then [] else split_whitespace [] args_raw)\<rparr>)) (\<lambda>invocation.
                case post url invocation of None \<Rightarrow> ret (Some (bot_failed bp))
                | Some resp \<Rightarrow>
                    and_then (post_bot_reply answer_id now c invoker bp (bc_pubkey bc) resp) (\<lambda>_.
                    ret None))))))"

definition insert_ephemeral_error :: "string \<Rightarrow> int \<Rightarrow> string \<Rightarrow> string \<Rightarrow> string \<Rightarrow> unit hub_handler" where
  "insert_ephemeral_error err_id now c invoker text =
     and_then (insert_message (plain_message err_id c invoker text now (Some invoker) None)) (\<lambda>_.
     send_chat (NewMessage c (plain_response err_id c invoker None text now (Some invoker))))"

subsection \<open>Reading\<close>

definition reply_context_of :: "hub \<Rightarrow> string \<Rightarrow> reply_context option" where
  "reply_context_of s parent =
     map_option (\<lambda>m. \<lparr>rc_message = parent, rc_sender = msg_sender m, rc_sender_name = display_name s (msg_sender m),
       rc_preview = take_chars 140 (msg_content m)\<rparr>) (row_at msg_id parent (messages s))"

definition load_reply_context :: "hub \<Rightarrow> string option \<Rightarrow> reply_context option" where
  "load_reply_context s parent = (case parent of None \<Rightarrow> None | Some p \<Rightarrow> reply_context_of s p)"

text \<open>\<^verbatim>\<open>GROUP BY emoji ORDER BY MIN(created_at)\<close>; groups of the same age come in the order of the grouping.\<close>

definition reaction_groups :: "hub \<Rightarrow> string \<Rightarrow> (string \<times> reaction_row list) list" where
  "reaction_groups s i =
     (let rows = filter (\<lambda>r. reaction_message r = i) (message_reactions s);
          group = (\<lambda>e. filter (\<lambda>r. reaction_emoji r = e) rows)
      in map (\<lambda>e. (e, group e))
           (sort_key (\<lambda>e. Min (set (map reaction_created (group e)))) (sort (remdups (map reaction_emoji rows)))))"

definition load_reactions :: "hub \<Rightarrow> string \<Rightarrow> string \<Rightarrow> reaction_summary list" where
  "load_reactions s i viewer =
     map (\<lambda>(e, g). \<lparr>rs_emoji = e, rs_count = int (length g), rs_me = list_ex (\<lambda>r. reaction_user r = viewer) g\<rparr>)
       (reaction_groups s i)"

definition load_reactions_anon :: "hub \<Rightarrow> string \<Rightarrow> reaction_summary list" where
  "load_reactions_anon s i =
     map (\<lambda>(e, g). \<lparr>rs_emoji = e, rs_count = int (length g), rs_me = False\<rparr>) (reaction_groups s i)"

definition parse_attachments :: "attachment list option \<Rightarrow> attachment list" where
  "parse_attachments x = (case x of None \<Rightarrow> [] | Some xs \<Rightarrow> xs)"

definition message_view :: "hub \<Rightarrow> reaction_summary list \<Rightarrow> message_row \<Rightarrow> message_response" where
  "message_view s reactions m = \<lparr>mr_id = msg_id m, mr_channel = msg_channel m, mr_sender = msg_sender m,
     mr_sender_name = display_name s (msg_sender m), mr_content = msg_content m, mr_created = msg_created m,
     mr_edited = msg_edited m, mr_attachments = parse_attachments (msg_attachments m), mr_reactions = reactions,
     mr_reply_to = load_reply_context s (msg_reply_to m), mr_visible_to = None\<rparr>"

definition load_message :: "string \<Rightarrow> message_response hub_handler" where
  "load_message i =
     and_then (gets (\<lambda>s. map_option (message_view s (load_reactions_anon s i)) (row_at msg_id i (messages s)))) (\<lambda>r.
     ok_or r (Reject INTERNAL_SERVER_ERROR ''DB error: no rows returned''))"

text \<open>Newest first: by time, then by rowid.\<close>

definition newest_first :: "message_row list \<Rightarrow> message_row list" where
  "newest_first ms = rev (sort_key msg_created ms)"

definition rows_before :: "string \<Rightarrow> message_row list \<Rightarrow> message_row list" where
  "rows_before i ms = (if row_at msg_id i ms = None then [] else takeWhile (\<lambda>m. msg_id m \<noteq> i) ms)"

definition get_messages :: "(string \<Rightarrow> (string \<Rightarrow> bool) option) \<Rightarrow> string \<Rightarrow> string \<Rightarrow> string option \<Rightarrow> int option \<Rightarrow>
    string option \<Rightarrow> message_response list hub_handler" where
  "get_messages fts user c before lim q =
     (let limit = page_limit lim;
          search = (case q of None \<Rightarrow> None | Some x \<Rightarrow> if trim x = [] then None else Some (trim x)) in
      and_then (case search of
        Some x \<Rightarrow>
          (case fts x of None \<Rightarrow> fail (Reject INTERNAL_SERVER_ERROR ''DB error: fts5: syntax error'')
           | Some hit \<Rightarrow> gets (\<lambda>s. filter (\<lambda>m. msg_channel m = c \<and> hit (msg_content m)) (messages s)))
      | None \<Rightarrow>
          (case before of
             Some i \<Rightarrow> gets (\<lambda>s. filter (\<lambda>m. msg_channel m = c) (rows_before i (messages s)))
           | None \<Rightarrow> gets (\<lambda>s. filter (\<lambda>m. msg_channel m = c) (messages s)))) (\<lambda>rows.
      gets (\<lambda>s. map (\<lambda>m. message_view s (load_reactions s (msg_id m) user) m) (sql_limit limit (newest_first rows)))))"

subsection \<open>Sending, editing, deleting\<close>

definition attachment_json :: "attachment \<Rightarrow> json" where
  "attachment_json a = JObj [(''name'', JStr (att_name a)), (''mime'', JStr (att_mime a)),
     (''data_b64'', JStr (att_data_b64 a))]"

definition message_created_payload :: "message_response \<Rightarrow> json" where
  "message_created_payload m = JObj [(''message_id'', JStr (mr_id m)), (''content'', JStr (mr_content m)),
     (''sender'', JStr (mr_sender m)), (''sender_name'', json_opt (mr_sender_name m)),
     (''created_at'', JNum (mr_created m)), (''attachments'', JArr (map attachment_json (mr_attachments m)))]"

definition require_parent :: "string \<Rightarrow> string option \<Rightarrow> unit hub_handler" where
  "require_parent c reply_to =
     (case reply_to of None \<Rightarrow> ret ()
      | Some p \<Rightarrow>
          and_then (gets (\<lambda>s. row_at msg_id p (messages s))) (\<lambda>row.
          case row of None \<Rightarrow> fail (Reject NOT_FOUND ''Parent message not found'')
          | Some m \<Rightarrow> check (msg_channel m = c)
              (Reject BAD_REQUEST ''Parent message is in a different channel'')))"

definition require_may_send :: "int \<Rightarrow> string \<Rightarrow> string \<Rightarrow> unit hub_handler" where
  "require_may_send now user c =
     and_then (gets (user_permissions user)) (\<lambda>perms.
     and_then (require_permission perms SEND_MESSAGES) (\<lambda>_.
     and_then (gets (\<lambda>s. is_muted now s user)) (\<lambda>muted.
     and_then (check (\<not> muted) (Reject FORBIDDEN ''You are muted'')) (\<lambda>_.
     and_then (gets (\<lambda>s. is_channel_banned s c user)) (\<lambda>banned.
     check (\<not> banned) (Reject FORBIDDEN ''You are banned from this channel''))))))"

definition message_row_of :: "string \<Rightarrow> string \<Rightarrow> string \<Rightarrow> int \<Rightarrow> send_message_request \<Rightarrow> message_row" where
  "message_row_of i c user now req = \<lparr>msg_id = i, msg_channel = c, msg_sender = user,
     msg_content = smr_content req, msg_created = now, msg_edited = None,
     msg_attachments = (if smr_attachments req = [] then None else Some (smr_attachments req)),
     msg_reply_to = smr_reply_to req, msg_visible_to = None, msg_embeds = None\<rparr>"

definition store_message :: "string \<Rightarrow> int \<Rightarrow> string \<Rightarrow> string \<Rightarrow> send_message_request \<Rightarrow>
    (status_code \<times> message_response) hub_handler" where
  "store_message i now user c req =
     and_then (insert_message (message_row_of i c user now req)) (\<lambda>_.
     and_then (gets (\<lambda>s. \<lparr>mr_id = i, mr_channel = c, mr_sender = user, mr_sender_name = display_name s user,
       mr_content = smr_content req, mr_created = now, mr_edited = None, mr_attachments = smr_attachments req,
       mr_reactions = [], mr_reply_to = load_reply_context s (smr_reply_to req), mr_visible_to = None\<rparr>)) (\<lambda>m.
     and_then (send_chat (NewMessage c m)) (\<lambda>_.
     and_then (spawn_publish_hub_event ''message.created'' (Some (mr_sender m)) None (Some c)
       (message_created_payload m)) (\<lambda>_.
     ret (CREATED, m)))))"

text \<open>
  The identifiers a request may draw: the message's, the hint for the bot, the bot's reply and the
  ephemeral error.
\<close>

record message_ids =
  mid_message :: string
  mid_hint :: string
  mid_reply :: string
  mid_error :: string

definition send_message :: "(string \<Rightarrow> string) \<Rightarrow> slash_bot \<Rightarrow> message_ids \<Rightarrow> int \<Rightarrow> string \<Rightarrow> string \<Rightarrow>
    send_message_request \<Rightarrow> (status_code \<times> message_response) hub_handler" where
  "send_message lower post ids now user c req =
     and_then (require_may_send now user c) (\<lambda>_.
     and_then (gets (\<lambda>s. channel_exists s c)) (\<lambda>found.
     and_then (check found (Reject NOT_FOUND ''Channel not found'')) (\<lambda>_.
     and_then (check (\<not> MAX_ATTACHMENTS_BYTES < attach_total (smr_attachments req))
       (Reject PAYLOAD_TOO_LARGE ''Attachments exceed 3MB cap'')) (\<lambda>_.
     and_then (require_parent c (smr_reply_to req)) (\<lambda>_.
     and_then (if take 1 (smr_content req) = ''/''
       then dispatch_slash lower post (mid_hint ids) (mid_reply ids) now c user (smr_content req)
       else ret None) (\<lambda>error.
     case error of
       Some text \<Rightarrow>
         and_then (insert_ephemeral_error (mid_error ids) now c user text) (\<lambda>_.
         ret (OK, plain_response (mid_message ids) c user None text now (Some user)))
     | None \<Rightarrow> store_message (mid_message ids) now user c req))))))"

definition require_message :: "string \<Rightarrow> string \<Rightarrow> message_row hub_handler" where
  "require_message c i =
     and_then (gets (\<lambda>s. row_at msg_id i (messages s))) (\<lambda>row.
     and_then (ok_or row (Reject NOT_FOUND ''Message not found'')) (\<lambda>m.
     and_then (check (msg_channel m = c) (Reject NOT_FOUND ''Message not in this channel'')) (\<lambda>_.
     ret m)))"

definition update_message :: "string \<Rightarrow> string \<Rightarrow> int \<Rightarrow> unit hub_handler" where
  "update_message i content now =
     modify (\<lambda>s. s\<lparr>messages := update_where (\<lambda>m. msg_id m = i)
       (\<lambda>m. m\<lparr>msg_content := content, msg_edited := Some now\<rparr>) (messages s)\<rparr>)"

definition edit_message :: "int \<Rightarrow> string \<Rightarrow> string \<Rightarrow> string \<Rightarrow> string \<Rightarrow> message_response hub_handler" where
  "edit_message now user c i content =
     and_then (require_message c i) (\<lambda>m.
     and_then (check (msg_sender m = user) (Reject FORBIDDEN ''You can only edit your own messages'')) (\<lambda>_.
     and_then (update_message i content now) (\<lambda>_.
     and_then (load_message i) (\<lambda>updated.
     and_then (send_chat (EditedMessage c updated)) (\<lambda>_.
     ret updated)))))"

text \<open>Deleting a message cascades to its reactions and components.\<close>

definition delete_message_row :: "string \<Rightarrow> unit hub_handler" where
  "delete_message_row i =
     modify (\<lambda>s. s\<lparr>messages := delete_where (\<lambda>m. msg_id m = i) (messages s),
       message_reactions := delete_where (\<lambda>r. reaction_message r = i) (message_reactions s),
       message_components := delete_where (\<lambda>x. component_message x = i) (message_components s)\<rparr>)"

definition delete_message :: "string \<Rightarrow> string \<Rightarrow> string \<Rightarrow> status_code hub_handler" where
  "delete_message user c i =
     and_then (require_message c i) (\<lambda>m.
     and_then (if msg_sender m \<noteq> user
       then and_then (gets (user_permissions user)) (\<lambda>perms. require_permission perms MANAGE_MESSAGES)
       else ret ()) (\<lambda>_.
     and_then (delete_message_row i) (\<lambda>_.
     and_then (send_chat (DeletedMessage c i)) (\<lambda>_.
     ret NO_CONTENT))))"

subsection \<open>Reactions\<close>

definition reaction_key :: "reaction_row \<Rightarrow> string \<times> string \<times> string" where
  "reaction_key r = (reaction_message r, reaction_emoji r, reaction_user r)"

definition insert_reaction :: "reaction_row \<Rightarrow> unit hub_handler" where
  "insert_reaction r =
     writing (\<lambda>s. insert_or_ignore (same_key reaction_key)
         (exists_row (\<lambda>m. msg_id m = reaction_message r) (messages s) \<and> user_exists s (reaction_user r)) r
         (message_reactions s))
       (\<lambda>t s. s\<lparr>message_reactions := t\<rparr>)"

definition broadcast_reactions :: "string \<Rightarrow> string \<Rightarrow> unit hub_handler" where
  "broadcast_reactions c i =
     and_then (gets (\<lambda>s. load_reactions_anon s i)) (\<lambda>summary. send_chat (ReactionsUpdated c i summary))"

definition add_reaction :: "int \<Rightarrow> string \<Rightarrow> string \<Rightarrow> string \<Rightarrow> string \<Rightarrow> status_code hub_handler" where
  "add_reaction now user c i req_emoji =
     and_then (gets (user_permissions user)) (\<lambda>perms.
     and_then (require_permission perms SEND_MESSAGES) (\<lambda>_.
     let emoji = trim req_emoji in
     and_then (check (\<not> (emoji = [] \<or> 16 < count_chars emoji))
       (Reject BAD_REQUEST ''emoji must be 1..16 chars'')) (\<lambda>_.
     and_then (gets (\<lambda>s. row_at msg_id i (messages s))) (\<lambda>row.
     and_then (case row of None \<Rightarrow> fail (Reject NOT_FOUND ''message not found'')
       | Some m \<Rightarrow> check (msg_channel m = c) (Reject NOT_FOUND ''message not in channel'')) (\<lambda>_.
     and_then (insert_reaction \<lparr>reaction_message = i, reaction_emoji = emoji, reaction_user = user,
       reaction_created = now\<rparr>) (\<lambda>_.
     and_then (broadcast_reactions c i) (\<lambda>_.
     ret CREATED)))))))"

definition remove_reaction :: "string \<Rightarrow> string \<Rightarrow> string \<Rightarrow> string \<Rightarrow> status_code hub_handler" where
  "remove_reaction user c i emoji =
     and_then (modify (\<lambda>s. s\<lparr>message_reactions :=
       delete_where (\<lambda>r. reaction_key r = (i, emoji, user)) (message_reactions s)\<rparr>)) (\<lambda>_.
     and_then (broadcast_reactions c i) (\<lambda>_.
     ret NO_CONTENT))"

subsection \<open>Component interactions\<close>

record component_interaction =
  ci_hub_url :: string
  ci_channel :: string
  ci_message :: string
  ci_custom_id :: string
  ci_values :: "string list"
  ci_user :: string
  ci_user_name :: "string option"

record component_response =
  cresp_update :: "(string option \<times> json option) option"
  cresp_ephemeral :: "string option"
  cresp_defer :: "bool option"

type_synonym component_bot = "string \<Rightarrow> component_interaction \<Rightarrow> component_response option"

definition load_updated_message :: "string \<Rightarrow> hub \<Rightarrow> message_response option" where
  "load_updated_message i s =
     map_option (\<lambda>m. \<lparr>mr_id = i, mr_channel = msg_channel m, mr_sender = msg_sender m,
       mr_sender_name = display_name s (msg_sender m), mr_content = msg_content m, mr_created = msg_created m,
       mr_edited = msg_edited m, mr_attachments = [], mr_reactions = [], mr_reply_to = None, mr_visible_to = None\<rparr>)
     (row_at msg_id i (messages s))"

definition insert_component :: "component_row \<Rightarrow> unit hub_handler" where
  "insert_component r =
     writing (\<lambda>s. insert_row (same_key component_id)
         (exists_row (\<lambda>m. msg_id m = component_message r) (messages s)) r (message_components s))
       (\<lambda>t s. s\<lparr>message_components := t\<rparr>)"

definition replace_components :: "string \<Rightarrow> string \<Rightarrow> json \<Rightarrow> unit hub_handler" where
  "replace_components comp_id i rows =
     and_then (modify (\<lambda>s. s\<lparr>message_components :=
       delete_where (\<lambda>x. component_message x = i) (message_components s)\<rparr>)) (\<lambda>_.
     ignoring (insert_component \<lparr>component_id = comp_id, component_message = i, component_row_idx = 0,
       component_idx = 0, component_type = ''rows'', component_config = rows, component_expires = None\<rparr>))"

definition apply_component_response :: "string \<Rightarrow> string \<Rightarrow> int \<Rightarrow> component_response \<Rightarrow> string \<Rightarrow> string \<Rightarrow> string \<Rightarrow>
    string \<Rightarrow> unit hub_handler" where
  "apply_component_response comp_id eph_id now resp i c sender user =
     (if cresp_defer resp = Some True then ret ()
      else and_then (case cresp_update resp of None \<Rightarrow> ret ()
        | Some (body, components) \<Rightarrow>
            and_then (case body of None \<Rightarrow> ret () | Some b \<Rightarrow> update_message i b now) (\<lambda>_.
            and_then (case components of None \<Rightarrow> ret () | Some rows \<Rightarrow> replace_components comp_id i rows) (\<lambda>_.
            and_then (gets (load_updated_message i)) (\<lambda>m.
            case m of None \<Rightarrow> ret () | Some updated \<Rightarrow> send_chat (EditedMessage c updated))))) (\<lambda>_.
      case cresp_ephemeral resp of None \<Rightarrow> ret ()
      | Some body \<Rightarrow>
          and_then (ignoring (insert_message (plain_message eph_id c sender body now (Some user) None))) (\<lambda>_.
          and_then (gets (\<lambda>s. display_name s sender)) (\<lambda>name.
          send_chat (NewMessage c (plain_response eph_id c sender name body now (Some user)))))))"

definition dispatch_component :: "component_bot \<Rightarrow> string \<Rightarrow> string \<Rightarrow> int \<Rightarrow> string \<Rightarrow> string \<Rightarrow> string list \<Rightarrow>
    string \<Rightarrow> unit hub_handler" where
  "dispatch_component post comp_id eph_id now i custom_id values user =
     and_then (gets (\<lambda>s. row_at msg_id i (messages s))) (\<lambda>row.
     case row of None \<Rightarrow> ret ()
     | Some m \<Rightarrow>
       and_then (gets (\<lambda>s. map_option user_is_bot (row_at user_key (msg_sender m) (users s)))) (\<lambda>is_bot.
       if is_bot \<noteq> Some 1 then ret ()
       else and_then (gets (\<lambda>s. row_at bp_pubkey (msg_sender m) (bot_profiles s))) (\<lambda>bp.
       case (case bp of None \<Rightarrow> None | Some p \<Rightarrow> bp_webhook_url p) of None \<Rightarrow> ret ()
       | Some url \<Rightarrow>
         if url = [] then ret ()
         else and_then (gets (\<lambda>s. bot_in_scope s (msg_sender m) (msg_channel m))) (\<lambda>in_scope.
         if \<not> in_scope then ret ()
         else and_then (gets (\<lambda>s. \<lparr>ci_hub_url = hub_url_public s, ci_channel = msg_channel m, ci_message = i,
             ci_custom_id = custom_id, ci_values = values, ci_user = user, ci_user_name = display_name s user\<rparr>)) (\<lambda>payload.
         case post url payload of None \<Rightarrow> ret ()
         | Some resp \<Rightarrow> apply_component_response comp_id eph_id now resp i (msg_channel m) (msg_sender m) user)))))"

subsection \<open>Requests, as one type of operations\<close>

datatype message_op =
    SendMessage "string \<Rightarrow> string" slash_bot message_ids int string string send_message_request
  | EditMessage int string string string string
  | DeleteMessage string string string
  | AddReaction int string string string string
  | RemoveReaction string string string string
  | Interact component_bot string string int string string "string list" string

fun message_step :: "hub \<Rightarrow> message_op \<Rightarrow> hub" where
  "message_step s (SendMessage lower post ids now user c req) = snd (send_message lower post ids now user c req s)"
| "message_step s (EditMessage now user c i content) = snd (edit_message now user c i content s)"
| "message_step s (DeleteMessage user c i) = snd (delete_message user c i s)"
| "message_step s (AddReaction now user c i emoji) = snd (add_reaction now user c i emoji s)"
| "message_step s (RemoveReaction user c i emoji) = snd (remove_reaction user c i emoji s)"
| "message_step s (Interact post cid eph now i custom values user) =
     snd (dispatch_component post cid eph now i custom values user s)"

fun message_actor :: "message_op \<Rightarrow> string" where
  "message_actor (SendMessage lower post ids now user c req) = user"
| "message_actor (EditMessage now user c i content) = user"
| "message_actor (DeleteMessage user c i) = user"
| "message_actor (AddReaction now user c i emoji) = user"
| "message_actor (RemoveReaction user c i emoji) = user"
| "message_actor (Interact post cid eph now i custom values user) = user"

fun message_time :: "message_op \<Rightarrow> int" where
  "message_time (SendMessage lower post ids now user c req) = now"
| "message_time (EditMessage now user c i content) = now"
| "message_time (DeleteMessage user c i) = 0"
| "message_time (AddReaction now user c i emoji) = now"
| "message_time (RemoveReaction user c i emoji) = 0"
| "message_time (Interact post cid eph now i custom values user) = now"

subsection \<open>What a request does to the message table\<close>

definition is_bot :: "hub \<Rightarrow> string \<Rightarrow> bool" where
  "is_bot s pk \<longleftrightarrow> exists_row (\<lambda>u. user_key u = pk \<and> user_is_bot u = 1) (users s)"

definition may_speak :: "int \<Rightarrow> hub \<Rightarrow> string \<Rightarrow> string \<Rightarrow> bool" where
  "may_speak now s u c \<longleftrightarrow> has_permission (user_permissions u s) SEND_MESSAGES \<and> \<not> is_muted now s u \<and>
     \<not> is_channel_banned s c u"

text \<open>The primitive changes, with who may cause them, all judged in the state the request found.\<close>

inductive message_change :: "int \<Rightarrow> hub \<Rightarrow> string \<Rightarrow> message_row list \<Rightarrow> message_row list \<Rightarrow> bool" for now s u where
  said: "row_at msg_id (msg_id m) ms = None \<Longrightarrow>
    is_bot s (msg_sender m) \<or> msg_sender m = u \<and> may_speak now s u (msg_channel m) \<Longrightarrow>
    message_change now s u ms (ms @ [m])"
| edited: "row_at msg_id i (messages s) = Some m \<Longrightarrow> u = msg_sender m \<or> is_bot s (msg_sender m) \<Longrightarrow>
    message_change now s u ms
      (update_where (\<lambda>m. msg_id m = i) (\<lambda>m. m\<lparr>msg_content := content, msg_edited := Some at\<rparr>) ms)"

definition message_removed :: "hub \<Rightarrow> string \<Rightarrow> hub \<Rightarrow> bool" where
  "message_removed s u t \<longleftrightarrow> (\<exists>i m. row_at msg_id i (messages s) = Some m \<and>
     (u = msg_sender m \<or> has_permission (user_permissions u s) MANAGE_MESSAGES) \<and>
     messages t = delete_where (\<lambda>m. msg_id m = i) (messages s) \<and> users t = users s)"

definition message_trace :: "int \<Rightarrow> hub \<Rightarrow> string \<Rightarrow> hub \<Rightarrow> bool" where
  "message_trace now s u t \<longleftrightarrow> (message_change now s u)\<^sup>*\<^sup>* (messages s) (messages t) \<and> users t = users s"

lemma message_trace_refl: "message_trace now s u s"
  by (simp add: message_trace_def)

lemma trace_frames:
  "message_trace now s u t \<Longrightarrow> message_trace now s u (t\<lparr>message_reactions := x\<rparr>)"
  "message_trace now s u t \<Longrightarrow> message_trace now s u (t\<lparr>message_components := y\<rparr>)"
  "message_trace now s u t \<Longrightarrow> message_trace now s u (t\<lparr>chat_tx := z\<rparr>)"
  "message_trace now s u t \<Longrightarrow> message_trace now s u (t\<lparr>spawned := w\<rparr>)"
  by (simp_all add: message_trace_def)

lemma trace_said:
  assumes "is_bot s (msg_sender m) \<or> msg_sender m = u \<and> may_speak now s u (msg_channel m)"
  shows "preserves (message_trace now s u) (insert_message m)"
  unfolding insert_message_def
proof (rule preserves_writing)
  fix t ms assume t: "message_trace now s u t"
    and ins: "insert_row (same_key msg_id) (channel_exists t (msg_channel m) \<and> user_exists t (msg_sender m)) m
      (messages t) = Inr ms"
  then have "ms = messages t @ [m]" "row_at msg_id (msg_id m) (messages t) = None"
    using row_at_insert_row(2) [OF ins] by (simp_all add: ok_iffs)
  with t assms show "message_trace now s u (t\<lparr>messages := ms\<rparr>)"
    by (auto simp: message_trace_def intro: rtranclp.rtrancl_into_rtrancl message_change.said)
qed

lemma trace_edited:
  assumes "row_at msg_id i (messages s) = Some m" "u = msg_sender m \<or> is_bot s (msg_sender m)"
  shows "preserves (message_trace now s u) (update_message i content at)"
  unfolding update_message_def using assms
  by (intro preserves_modify) (auto simp: message_trace_def intro: rtranclp.rtrancl_into_rtrancl message_change.edited)

lemma preserves_gets_then:
  "(\<And>t. P t \<Longrightarrow> Q (f t)) \<Longrightarrow> (\<And>x. Q x \<Longrightarrow> preserves P (k x)) \<Longrightarrow> preserves P (and_then (gets f) k)"
  by (simp add: preserves_def and_then_def gets_def)

lemma preserves_case_prod [keeps]:
  "(\<And>a b. preserves P (f a b)) \<Longrightarrow> preserves P (case z of (a, b) \<Rightarrow> f a b)"
  by (cases z) simp

lemma preserves_send_chat [keeps]:
  "(\<And>t x. P t \<Longrightarrow> P (t\<lparr>chat_tx := x\<rparr>)) \<Longrightarrow> preserves P (send_chat e)"
  unfolding send_chat_def by (rule preserves_modify)

lemma trace_bot_reply:
  "is_bot s pk \<Longrightarrow> preserves (message_trace now s u) (post_bot_reply answer_id at c invoker bp pk resp)"
  unfolding post_bot_reply_def Let_def
  by (intro keeps trace_said trace_frames) (simp add: plain_message_def)

lemma matched_command_is_bot: "matched_command s name c = Some (bc, bp) \<Longrightarrow> is_bot s (bc_pubkey bc)"
  by (auto simp: matched_command_def is_active_bot_def is_bot_def rows split: option.splits dest!: fetch_optional_SomeD)

lemma trace_is_bot: "message_trace now s u t \<Longrightarrow> is_bot t = is_bot s"
  by (rule ext) (simp add: message_trace_def is_bot_def)

lemma trace_dispatch_slash:
  "preserves (message_trace now s u) (dispatch_slash lower post hint answer_id at c invoker content)"
proof -
  have matched: "preserves (message_trace now s u) (and_then (gets (\<lambda>t. matched_command t name c)) k)"
    if "k None = ret None" "\<And>bc bp. is_bot s (bc_pubkey bc) \<Longrightarrow> preserves (message_trace now s u) (k (Some (bc, bp)))"
    for name and k :: "(bot_command_row \<times> bot_profile_row) option \<Rightarrow> string option hub_handler"
  proof (rule preserves_gets_then [where Q = "\<lambda>x. case x of None \<Rightarrow> True | Some (bc, bp) \<Rightarrow> is_bot s (bc_pubkey bc)"])
    fix t assume "message_trace now s u t"
    then show "case matched_command t name c of None \<Rightarrow> True | Some (bc, bp) \<Rightarrow> is_bot s (bc_pubkey bc)"
      using matched_command_is_bot [of t name c] trace_is_bot [of now s u t] by (auto split: option.split)
  next
    fix x :: "(bot_command_row \<times> bot_profile_row) option"
    assume "case x of None \<Rightarrow> True | Some (bc, bp) \<Rightarrow> is_bot s (bc_pubkey bc)"
    with that show "preserves (message_trace now s u) (k x)" by (auto simp: preserves_ret split: option.splits)
  qed
  show ?thesis
    unfolding dispatch_slash_def Let_def
    by (intro preserves_if preserves_ret preserves_case_prod matched) (auto intro!: keeps trace_bot_reply)
qed

lemma trace_ephemeral_error:
  "may_speak now s u c \<Longrightarrow> preserves (message_trace now s u) (insert_ephemeral_error err_id at c u text)"
  unfolding insert_ephemeral_error_def by (intro keeps trace_said trace_frames) (simp add: plain_message_def)

lemma trace_store_message:
  "may_speak now s u c \<Longrightarrow> preserves (message_trace now s u) (store_message i at u c req)"
  unfolding store_message_def spawn_publish_hub_event_def
  by (intro keeps trace_said trace_frames preserves_modify) (simp add: message_row_of_def)

lemma wp_require_may_send [wps]:
  "wp (require_may_send now u c) Q E s \<longleftrightarrow>
     (if may_speak now s u c then Q () s
      else E (if \<not> has_permission (user_permissions u s) SEND_MESSAGES
          then Reject FORBIDDEN (''Missing permission: '' @ SEND_MESSAGES)
        else if is_muted now s u then Reject FORBIDDEN ''You are muted''
        else Reject FORBIDDEN ''You are banned from this channel'') s)"
  by (simp add: require_may_send_def may_speak_def require_permission_def wps)

lemma preserves_message_guards [keeps]:
  "preserves P (require_parent c p)" "preserves P (require_message c i)" "preserves P (load_message i)"
  unfolding require_parent_def require_message_def load_message_def by (intro keeps)+

lemma wp_require_message [wps]:
  "wp (require_message c i) Q E s =
     (case row_at msg_id i (messages s) of None \<Rightarrow> E (Reject NOT_FOUND ''Message not found'') s
      | Some m \<Rightarrow> if msg_channel m = c then Q m s else E (Reject NOT_FOUND ''Message not in this channel'') s)"
  by (simp add: require_message_def wps split: option.splits)

lemma send_message_trace: "message_trace now s user (snd (send_message lower post ids now user c req s))"
proof -
  let ?P = "message_trace now s user"
  let ?rest = "and_then (gets (\<lambda>s. channel_exists s c)) (\<lambda>found.
     and_then (check found (Reject NOT_FOUND ''Channel not found'')) (\<lambda>_.
     and_then (check (\<not> MAX_ATTACHMENTS_BYTES < attach_total (smr_attachments req))
       (Reject PAYLOAD_TOO_LARGE ''Attachments exceed 3MB cap'')) (\<lambda>_.
     and_then (require_parent c (smr_reply_to req)) (\<lambda>_.
     and_then (if take 1 (smr_content req) = ''/''
       then dispatch_slash lower post (mid_hint ids) (mid_reply ids) now c user (smr_content req)
       else ret None) (\<lambda>error.
     case error of
       Some text \<Rightarrow>
         and_then (insert_ephemeral_error (mid_error ids) now c user text) (\<lambda>_.
         ret (OK, plain_response (mid_message ids) c user None text now (Some user)))
     | None \<Rightarrow> store_message (mid_message ids) now user c req)))))"
  have "preserves ?P ?rest" if "may_speak now s user c"
    using that by (intro keeps trace_dispatch_slash trace_ephemeral_error trace_store_message)
  then have "wp (send_message lower post ids now user c req) (\<lambda>_. ?P) (\<lambda>_. ?P) s"
    unfolding send_message_def
    by (simp add: wp_and_then [of "require_may_send _ _ _"] wp_require_may_send preserves_wp message_trace_refl)
  then show ?thesis by (simp only: wp_always)
qed

lemma edit_message_trace: "message_trace now s user (snd (edit_message at user c i content s))"
proof -
  let ?P = "message_trace now s user"
  have "preserves ?P (and_then (update_message i content at) (\<lambda>_.
     and_then (load_message i) (\<lambda>updated. and_then (send_chat (EditedMessage c updated)) (\<lambda>_. ret updated))))"
    if "row_at msg_id i (messages s) = Some m" "msg_sender m = user" for m
    using that by (intro keeps trace_edited trace_frames) auto
  from preserves_wp [OF this] have "wp (edit_message at user c i content) (\<lambda>_. ?P) (\<lambda>_. ?P) s"
    unfolding edit_message_def
    by (simp add: wp_and_then [of "require_message _ _"] wp_and_then [of "check _ _"] wp_require_message wp_check
        message_trace_refl split: option.split)
  then show ?thesis by (simp only: wp_always)
qed

lemma delete_message_trace:
  "message_trace now s user (snd (delete_message user c i s)) \<or> message_removed s user (snd (delete_message user c i s))"
proof -
  let ?P = "\<lambda>t. message_trace now s user t \<or> message_removed s user t"
  have "wp (delete_message user c i) (\<lambda>_. ?P) (\<lambda>_. ?P) s"
    by (auto simp: delete_message_def delete_message_row_def send_chat_def require_permission_def wps message_trace_refl
        message_removed_def split: option.split)
  then show ?thesis by (simp only: wp_always)
qed

lemma reaction_traces:
  "message_trace now s u (snd (add_reaction at user c i emoji s))"
  "message_trace now s u (snd (remove_reaction user c i emoji s))"
proof -
  have "preserves (message_trace now s u) (add_reaction at user c i emoji)"
    "preserves (message_trace now s u) (remove_reaction user c i emoji)"
    unfolding add_reaction_def remove_reaction_def insert_reaction_def broadcast_reactions_def require_permission_def Let_def
    by (intro keeps preserves_writing preserves_modify trace_frames; assumption)+
  then show "message_trace now s u (snd (add_reaction at user c i emoji s))"
    "message_trace now s u (snd (remove_reaction user c i emoji s))"
    by (simp_all add: preserves_def message_trace_refl)
qed

lemma component_trace: "message_trace now s u (snd (dispatch_component post cid eph at i custom values u s))"
proof -
  let ?P = "message_trace now s u"
  have "preserves ?P (apply_component_response cid eph at resp i c (msg_sender m) user)"
    if "row_at msg_id i (messages s) = Some m" "is_bot s (msg_sender m)" for m c resp user
    using that unfolding apply_component_response_def replace_components_def insert_component_def
    by (intro keeps trace_edited trace_said trace_frames preserves_writing preserves_modify)
      (auto simp: plain_message_def)
  note answered = preserves_wp [OF this]
  have bot: "is_bot s pk" if "row_at user_key pk (users s) = Some x" "user_is_bot x = 1" for pk x
    using that row_at_key [OF that(1)] by (auto simp: is_bot_def rows)
  have "wp (dispatch_component post cid eph at i custom values u) (\<lambda>_. ?P) (\<lambda>_. ?P) s"
    by (auto simp: dispatch_component_def wps message_trace_refl intro!: answered bot split: option.split)
  then show ?thesis by (simp only: wp_always)
qed

lemma message_step_trace:
  "message_trace (message_time op) s (message_actor op) (message_step s op) \<or>
   message_removed s (message_actor op) (message_step s op)"
  using delete_message_trace
  by (cases op) (simp_all add: send_message_trace edit_message_trace reaction_traces component_trace)

lemma message_step_users: "users (message_step s op) = users s"
  using message_step_trace [of op s] by (auto simp: message_trace_def message_removed_def)

definition same_header :: "message_row \<Rightarrow> message_row \<Rightarrow> bool" where
  "same_header m q \<longleftrightarrow> msg_id q = msg_id m \<and> msg_channel q = msg_channel m \<and> msg_sender q = msg_sender m \<and>
     msg_created q = msg_created m \<and> msg_attachments q = msg_attachments m \<and> msg_reply_to q = msg_reply_to m \<and>
     msg_visible_to q = msg_visible_to m \<and> msg_embeds q = msg_embeds m"

text \<open>A message stored before a request, and one that appears with it.\<close>

definition kept_message :: "hub \<Rightarrow> string \<Rightarrow> message_row \<Rightarrow> message_row \<Rightarrow> bool" where
  "kept_message s u m q \<longleftrightarrow> same_header m q \<and>
     (msg_content q = msg_content m \<and> msg_edited q = msg_edited m \<or> u = msg_sender m \<or> is_bot s (msg_sender m))"

definition new_message :: "int \<Rightarrow> hub \<Rightarrow> string \<Rightarrow> message_row \<Rightarrow> bool" where
  "new_message now s u q \<longleftrightarrow> is_bot s (msg_sender q) \<or> msg_sender q = u \<and> may_speak now s u (msg_channel q)"

lemma row_at_single: "row_at key k [r] = (if key r = k then Some r else None)"
  by (simp add: row_at_def)

lemma trace_rows:
  assumes "(message_change now s u)\<^sup>*\<^sup>* (messages s) ms"
  shows "case row_at msg_id i (messages s) of
      None \<Rightarrow> (case row_at msg_id i ms of None \<Rightarrow> True | Some q \<Rightarrow> new_message now s u q)
    | Some m \<Rightarrow> (case row_at msg_id i ms of None \<Rightarrow> False | Some q \<Rightarrow> kept_message s u m q)"
  using assms
proof (induction rule: rtranclp_induct)
  case base
  then show ?case by (auto simp: kept_message_def same_header_def split: option.split)
next
  case (step ms ms')
  from step(2) show ?case
  proof cases
    case (said m)
    with step(3) show ?thesis
      by (auto simp: row_at_append row_at_single new_message_def kept_message_def split: option.splits if_splits)
  next
    case (edited j m at content)
    let ?f = "\<lambda>m. m\<lparr>msg_content := content, msg_edited := Some at\<rparr>"
    have upd: "row_at msg_id i ms' = (if i = j then map_option ?f (row_at msg_id i ms) else row_at msg_id i ms)"
      by (simp add: edited(1) row_at_update_where)
    show ?thesis
    proof (cases "i = j")
      case True
      with step(3) edited(2,3) upd show ?thesis
        by (cases "row_at msg_id i ms") (simp_all add: kept_message_def same_header_def)
    qed (use step(3) upd in \<open>simp split: option.splits\<close>)
  qed
qed


subsection \<open>Muting\<close>

text \<open>Message and moderation requests together.\<close>

datatype chat_op = Say message_op | Moderate moderation_op

fun chat_step :: "hub \<Rightarrow> chat_op \<Rightarrow> hub" where
  "chat_step s (Say op) = message_step s op"
| "chat_step s (Moderate op) = moderation_step s op"

fun lifts_mute :: "string \<Rightarrow> chat_op \<Rightarrow> bool" where
  "lifts_mute v (Moderate (UnmuteUser user t)) \<longleftrightarrow> t = v"
| "lifts_mute v (Moderate (TimeoutUser user t r d now)) \<longleftrightarrow> t = v"
| "lifts_mute v _ \<longleftrightarrow> False"

definition silenced :: "string \<Rightarrow> hub \<Rightarrow> bool" where
  "silenced v s \<longleftrightarrow> \<not> is_bot s v \<and> (\<exists>r \<in> set (mutes s). mute_target r = v \<and> mute_expires r = None)"

lemma silenced_muted: "silenced v s \<Longrightarrow> is_muted now s v"
  by (auto simp: silenced_def is_muted_def rows)

text \<open>A property of the state that does not depend on the tables a message request writes survives it.\<close>

lemma message_requests_keep:
  assumes frames: "\<And>t x. P t \<Longrightarrow> P (t\<lparr>messages := x\<rparr>)" "\<And>t x. P t \<Longrightarrow> P (t\<lparr>message_reactions := x\<rparr>)"
    "\<And>t x. P t \<Longrightarrow> P (t\<lparr>message_components := x\<rparr>)" "\<And>t x. P t \<Longrightarrow> P (t\<lparr>chat_tx := x\<rparr>)"
    "\<And>t x. P t \<Longrightarrow> P (t\<lparr>spawned := x\<rparr>)"
  shows "P s \<Longrightarrow> P (message_step s op)"
proof -
  note defs = send_message_def edit_message_def delete_message_def add_reaction_def remove_reaction_def
    dispatch_component_def dispatch_slash_def post_bot_reply_def insert_ephemeral_error_def store_message_def
    insert_message_def update_message_def delete_message_row_def insert_reaction_def broadcast_reactions_def
    apply_component_response_def replace_components_def insert_component_def spawn_publish_hub_event_def
    require_permission_def require_may_send_def Let_def
  have "preserves P (send_message lower post ids now user c req)" "preserves P (edit_message now user c i content)"
    "preserves P (delete_message user c i)" "preserves P (add_reaction now user c i emoji)"
    "preserves P (remove_reaction user c i emoji)" "preserves P (dispatch_component post2 cid eph now i custom vs user)"
    for lower post ids now user c req i content emoji post2 cid eph custom vs
    unfolding defs by (intro keeps preserves_writing preserves_modify frames; assumption)+
  then show "P s \<Longrightarrow> P (message_step s op)" by (cases op) (simp_all add: preserves_def)
qed

lemma message_step_mutes: "mutes (message_step s op) = mutes s"
  by (rule message_requests_keep [where P = "\<lambda>t. mutes t = mutes s"]) simp_all

lemma silenced_step:
  assumes "silenced v s" "\<not> lifts_mute v op"
  shows "silenced v (chat_step s op)"
proof (cases op)
  case (Say mop)
  with assms(1) show ?thesis by (simp add: silenced_def is_bot_def message_step_mutes message_step_users)
next
  case (Moderate mop)
  have users: "users (moderation_step s mop) = users s" by simp
  from assms Moderate show ?thesis
    by (cases mop) (auto simp: silenced_def is_bot_def users moderation_mutes rows)
qed

definition messages_of :: "string \<Rightarrow> hub \<Rightarrow> message_row list" where
  "messages_of v s = filter (\<lambda>m. msg_sender m = v) (messages s)"

lemma trace_set:
  assumes "(message_change now s u)\<^sup>*\<^sup>* (messages s) ms" "q \<in> set ms"
  shows "(\<exists>m \<in> set (messages s). same_header m q) \<or> new_message now s u q"
  using assms
proof (induction arbitrary: q rule: rtranclp_induct)
  case base
  then show ?case by (auto simp: same_header_def)
next
  case (step ms ms')
  from step(2) show ?case
  proof cases
    case (said m)
    with step(3,4) show ?thesis by (auto simp: new_message_def)
  next
    case (edited j m at content)
    with step(4) obtain p where "p \<in> set ms" "same_header p q" "msg_sender q = msg_sender p" "msg_channel q = msg_channel p"
      by (auto simp: rows same_header_def)
    with step(3) [of p] show ?thesis by (auto simp: same_header_def new_message_def)
  qed
qed

lemma moderation_keeps_messages:
  "messages (moderation_step s op) = messages s" "message_reactions (moderation_step s op) = message_reactions s"
  "message_components (moderation_step s op) = message_components s"
  by (cases op; auto simp: effect_simps upsert_def moderation_step.simps)+

lemma silenced_says_nothing:
  assumes "silenced v s" "q \<in> set (messages_of v (chat_step s op))"
  shows "msg_id q \<in> msg_id ` set (messages_of v s)"
proof (cases op)
  case (Say mop)
  from message_step_trace [of mop s] show ?thesis
  proof
    assume "message_trace (message_time mop) s (message_actor mop) (message_step s mop)"
    with trace_set [of "message_time mop" s "message_actor mop" "messages (message_step s mop)" q] assms(2) Say
    have "(\<exists>m \<in> set (messages s). same_header m q) \<or> new_message (message_time mop) s (message_actor mop) q"
      by (simp add: message_trace_def messages_of_def)
    with assms Say silenced_muted [OF assms(1), of "message_time mop"] show ?thesis
      by (auto simp: messages_of_def new_message_def same_header_def may_speak_def silenced_def)
  next
    assume "message_removed s (message_actor mop) (message_step s mop)"
    with assms(2) Say show ?thesis by (auto simp: message_removed_def messages_of_def rows)
  qed
next
  case (Moderate mop)
  with assms(2) show ?thesis by (simp add: messages_of_def moderation_keeps_messages)
qed


definition demo_muted :: hub where
  "demo_muted = chat_step demo_hub (Moderate (MuteUser demo_mod demo_member None 5))"

definition demo_ids :: message_ids where
  "demo_ids = \<lparr>mid_message = ''m1'', mid_hint = ''h1'', mid_reply = ''r1'', mid_error = ''e1''\<rparr>"

definition demo_text :: "string \<Rightarrow> send_message_request" where
  "demo_text x = \<lparr>smr_content = x, smr_attachments = [], smr_reply_to = None\<rparr>"


subsection \<open>References between the tables\<close>

definition message_refs_ok :: "hub \<Rightarrow> bool" where
  "message_refs_ok s \<longleftrightarrow> keyed msg_id (messages s) \<and> keyed reaction_key (message_reactions s) \<and>
     keyed component_id (message_components s) \<and>
     (\<forall>m \<in> set (messages s). channel_exists s (msg_channel m) \<and> user_exists s (msg_sender m)) \<and>
     (\<forall>r \<in> set (message_reactions s). reaction_message r \<in> msg_id ` set (messages s) \<and> user_exists s (reaction_user r)) \<and>
     (\<forall>x \<in> set (message_components s). component_message x \<in> msg_id ` set (messages s))"

lemma refs_frames:
  "message_refs_ok s \<Longrightarrow> message_refs_ok (s\<lparr>chat_tx := x\<rparr>)"
  "message_refs_ok s \<Longrightarrow> message_refs_ok (s\<lparr>spawned := y\<rparr>)"
  by (simp_all add: message_refs_ok_def channel_exists_def user_exists_def)

lemma refs_insert_message: "preserves message_refs_ok (insert_message m)"
  unfolding insert_message_def
  by (rule preserves_writing)
    (auto simp: ok_iffs message_refs_ok_def keyed_snoc exists_row_iff same_key_def channel_exists_def user_exists_def)

lemma refs_update_message: "preserves message_refs_ok (update_message i content now)"
  unfolding update_message_def
proof (rule preserves_modify)
  fix s assume "message_refs_ok s"
  then show "message_refs_ok (s\<lparr>messages := update_where (\<lambda>m. msg_id m = i)
      (\<lambda>m. m\<lparr>msg_content := content, msg_edited := Some now\<rparr>) (messages s)\<rparr>)"
    by (simp add: message_refs_ok_def keyed_update_where image_update_where ball_update_where
        channel_exists_def user_exists_def)
qed

lemma refs_delete_message: "preserves message_refs_ok (delete_message_row i)"
  unfolding delete_message_row_def
  by (rule preserves_modify)
    (auto simp: message_refs_ok_def keyed_delete_where set_delete_where channel_exists_def user_exists_def)

lemma refs_insert_reaction: "preserves message_refs_ok (insert_reaction r)"
  unfolding insert_reaction_def
  by (rule preserves_writing)
    (auto simp: ok_iffs message_refs_ok_def keyed_snoc exists_row_iff same_key_def channel_exists_def user_exists_def
      intro: rev_image_eqI [OF _ sym] split: if_splits)

lemma refs_insert_component: "preserves message_refs_ok (insert_component r)"
  unfolding insert_component_def
  by (rule preserves_writing)
    (auto simp: ok_iffs message_refs_ok_def keyed_snoc exists_row_iff same_key_def channel_exists_def user_exists_def
      intro: rev_image_eqI [OF _ sym])

lemma refs_fewer:
  "message_refs_ok s \<Longrightarrow> message_refs_ok (s\<lparr>message_reactions := delete_where P (message_reactions s)\<rparr>)"
  "message_refs_ok s \<Longrightarrow> message_refs_ok (s\<lparr>message_components := delete_where Q (message_components s)\<rparr>)"
  by (simp_all add: message_refs_ok_def keyed_delete_where set_delete_where channel_exists_def user_exists_def)

lemmas refs_writes = refs_frames refs_insert_message refs_update_message refs_delete_message refs_insert_reaction
  refs_insert_component refs_fewer

lemma message_step_refs: "message_refs_ok s \<Longrightarrow> message_refs_ok (message_step s op)"
proof -
  note defs = send_message_def edit_message_def delete_message_def add_reaction_def remove_reaction_def
    dispatch_component_def dispatch_slash_def post_bot_reply_def insert_ephemeral_error_def store_message_def
    broadcast_reactions_def apply_component_response_def replace_components_def spawn_publish_hub_event_def
    require_permission_def require_may_send_def Let_def
  have "preserves message_refs_ok (send_message lower post ids now user c req)"
    "preserves message_refs_ok (edit_message now user c i content)"
    "preserves message_refs_ok (delete_message user c i)" "preserves message_refs_ok (add_reaction now user c i emoji)"
    "preserves message_refs_ok (remove_reaction user c i emoji)"
    "preserves message_refs_ok (dispatch_component post2 cid eph now i custom vs user)"
    for lower post ids now user c req i content emoji post2 cid eph custom vs
    unfolding defs by (intro keeps refs_writes preserves_modify; assumption)+
  then show "message_refs_ok s \<Longrightarrow> message_refs_ok (message_step s op)" by (cases op) (simp_all add: preserves_def)
qed

text \<open>The other requests that touch channels, users or the tables above.\<close>

lemma moderation_step_refs: "message_refs_ok s \<Longrightarrow> message_refs_ok (moderation_step s op)"
  by (simp add: message_refs_ok_def moderation_keeps_messages channel_exists_def user_exists_def)

lemma forum_step_refs: "message_refs_ok s \<Longrightarrow> message_refs_ok (forum_step s op)"
proof -
  have "message_refs_ok s \<Longrightarrow> message_refs_ok t" if "forum_effect s u t" for u t
    using that
    by (induction rule: forum_effect.induct)
      (simp_all add: message_refs_ok_def change_post_def change_reply_def channel_exists_def user_exists_def)
  from this [OF forum_step_effect] show "message_refs_ok s \<Longrightarrow> message_refs_ok (forum_step s op)" .
qed

lemma refs_channels:
  assumes "message_refs_ok s" "channel_id ` set (channels s) \<subseteq> channel_id ` set cs"
  shows "message_refs_ok (s\<lparr>channels := cs\<rparr>)"
proof -
  have iff: "channel_exists t c \<longleftrightarrow> c \<in> channel_id ` set (channels t)" for t c
    by (auto simp: channel_exists_def exists_row_iff)
  from assms(2) have "channel_exists s c \<Longrightarrow> channel_exists (s\<lparr>channels := cs\<rparr>) c" for c
    unfolding iff by auto
  with assms(1) show ?thesis by (auto simp: message_refs_ok_def user_exists_def)
qed

lemma channel_writes_refs:
  "preserves message_refs_ok (create_channel user uuid now req)"
  "preserves message_refs_ok (update_channel user c ureq)"
  "preserves message_refs_ok (reorder_channels user cs)"
proof -
  have "preserves message_refs_ok (insert_channel r)" for r
    unfolding insert_channel_def by (rule preserves_writing) (auto simp: ok_iffs intro!: refs_channels)
  moreover have "preserves message_refs_ok (update_channel_row c f)" if "\<And>r. channel_id (f r) = channel_id r" for c f
    unfolding update_channel_row_def
    by (rule preserves_modify) (auto simp: image_update_where that intro!: refs_channels)
  moreover have "preserves message_refs_ok (rename_channel c n)" for c n
    unfolding rename_channel_def
    by (intro keeps preserves_writing) (auto simp: ok_iffs image_update_where intro!: refs_channels)
  ultimately show "preserves message_refs_ok (create_channel user uuid now req)"
    "preserves message_refs_ok (update_channel user c ureq)" "preserves message_refs_ok (reorder_channels user cs)"
    unfolding create_channel_def update_channel_def enforce_move_def store_channel_def reorder_channels_def set_order_def
      spawn_publish_hub_event_def require_permission_def Let_def
    by (auto intro!: keeps preserves_modify refs_frames simp: apply_channel_update_def)
qed

lemma refs_delete_messages_of: "preserves message_refs_ok (delete_messages_of c)"
  unfolding delete_messages_of_def Let_def
proof (rule preserves_modify)
  fix s assume ok: "message_refs_ok s"
  let ?gone = "set (map msg_id (filter (\<lambda>m. msg_channel m = c) (messages s)))"
  have kept: "i \<in> msg_id ` set (delete_where (\<lambda>m. msg_channel m = c) (messages s))"
    if "i \<in> msg_id ` set (messages s)" "i \<notin> ?gone" for i
    using that by (auto simp: set_delete_where)
  from ok show "message_refs_ok (s\<lparr>messages := delete_where (\<lambda>m. msg_channel m = c) (messages s),
      message_reactions := delete_where (\<lambda>x. reaction_message x \<in> ?gone) (message_reactions s),
      message_components := delete_where (\<lambda>x. component_message x \<in> ?gone) (message_components s)\<rparr>)"
    using kept unfolding message_refs_ok_def
    by (simp add: keyed_delete_where channel_exists_def user_exists_def) (simp add: set_delete_where)
qed

lemma refs_delete_channel_row: "preserves message_refs_ok (delete_channel_row c)"
  unfolding delete_channel_row_def
proof (rule preserves_exec)
  fix s t assume ok: "message_refs_ok s"
    and run: "(if channel_referenced c s then Inl (DbError FOREIGN_KEY)
       else let gone = set (map post_id (filter (\<lambda>p. post_channel p = c) (posts s)));
                gone_replies = set (map reply_id (filter (\<lambda>q. reply_post q \<in> gone) (post_replies s))) in
         Inr (s\<lparr>channels := delete_where (\<lambda>r. channel_id r = c) (channels s),
           posts := delete_where (\<lambda>p. post_channel p = c) (posts s),
           post_replies := update_where
             (\<lambda>q. case reply_to_id q of None \<Rightarrow> False | Some i \<Rightarrow> i \<in> gone_replies)
             (\<lambda>q. q\<lparr>reply_to_id := None\<rparr>)
             (delete_where (\<lambda>q. reply_post q \<in> gone) (post_replies s))\<rparr>)) = Inr t"
  then have "messages t = messages s" "message_reactions t = message_reactions s" "users t = users s"
    "message_components t = message_components s" "channels t = delete_where (\<lambda>r. channel_id r = c) (channels s)"
    "\<forall>m \<in> set (messages s). msg_channel m \<noteq> c"
    by (auto simp: Let_def channel_referenced_def exists_row_iff split: if_splits)
  with ok show "message_refs_ok t"
    by (auto simp: message_refs_ok_def channel_exists_def user_exists_def exists_row_iff set_delete_where) metis
qed

lemma refs_delete_channel: "preserves message_refs_ok (delete_channel user c)"
proof -
  have "message_refs_ok s \<Longrightarrow> message_refs_ok (s\<lparr>channel_bans := x\<rparr>)"
    "message_refs_ok s \<Longrightarrow> message_refs_ok (s\<lparr>channel_settings := y\<rparr>)"
    "message_refs_ok s \<Longrightarrow> message_refs_ok (s\<lparr>alliance_shared_channels := z\<rparr>)" for s x y z
    by (simp_all add: message_refs_ok_def channel_exists_def user_exists_def)
  then show ?thesis
    unfolding delete_channel_def spawn_publish_hub_event_def require_permission_def
    by (auto intro!: keeps refs_delete_messages_of refs_delete_channel_row preserves_modify refs_frames)
qed

lemma content_step_refs:
  assumes "message_refs_ok s"
  shows "message_refs_ok (content_step s op)"
proof (cases op)
  case (ChannelOp cop)
  with assms channel_writes_refs refs_delete_channel show ?thesis by (cases cop) (auto simp: preserves_def)
qed (simp add: assms forum_step_refs)

datatype hub_op = Chat chat_op | Content content_op

fun hub_step :: "hub \<Rightarrow> hub_op \<Rightarrow> hub" where
  "hub_step s (Chat op) = chat_step s op"
| "hub_step s (Content op) = content_step s op"

text \<open>
  Message ids, reactions (one per user, emoji and message) and components stay unique, every
  message has its channel and sender, and every reaction and component its message, over any
  sequence of message, moderation, channel and forum requests, the bots' answers included.
\<close>

theorem message_references_hold:
  assumes "message_refs_ok s"
  shows "message_refs_ok (run hub_step s ops)"
proof (rule run_invariant)
  show "message_refs_ok (hub_step t op)" if "message_refs_ok t" for t op
  proof (cases op)
    case (Chat cop)
    with that show ?thesis by (cases cop) (simp_all add: message_step_refs moderation_step_refs)
  qed (simp add: that content_step_refs)
qed (rule assms)

definition demo_chat :: hub where
  "demo_chat = demo_hub\<lparr>channels := [demo_forum_channel\<lparr>channel_id := ''c'', channel_type := ''text''\<rparr>],
     messages := [plain_message ''m0'' ''c'' demo_mod ''hello'' 3 None None,
       plain_message ''m1'' ''c'' demo_mod ''for you only'' 4 (Some demo_mod) None],
     message_reactions := [\<lparr>reaction_message = ''m0'', reaction_emoji = ''+1'', reaction_user = demo_member,
       reaction_created = 4\<rparr>]\<rparr>"

theorem message_references_hold_witness:
  "message_refs_ok (run hub_step demo_chat [Chat (Say (DeleteMessage demo_mod ''c'' ''m0'')),
     Content (ChannelOp (DeleteChannel demo_owner ''c''))])"
proof -
  have "message_refs_ok demo_chat"
    by (simp add: message_refs_ok_def demo_chat_def demo_forum_channel_def plain_message_def keyed_def channel_exists_def
        user_exists_def exists_row_def demo_defs new_user_def)
  then show ?thesis by (rule message_references_hold)
qed

subsection \<open>What readers see\<close>

definition reactors :: "hub \<Rightarrow> string \<Rightarrow> string \<Rightarrow> string set" where
  "reactors s i e = {u. (i, e, u) \<in> reaction_key ` set (message_reactions s)}"

lemma reactors_rows:
  "reactors s i e = reaction_user ` set (filter (\<lambda>r. reaction_emoji r = e) (filter (\<lambda>r. reaction_message r = i) (message_reactions s)))"
  by (force simp: reactors_def reaction_key_def)

lemma card_reactors:
  assumes "keyed reaction_key (message_reactions s)"
  shows "card (reactors s i e) =
    length (filter (\<lambda>r. reaction_emoji r = e) (filter (\<lambda>r. reaction_message r = i) (message_reactions s)))"
proof -
  let ?g = "filter (\<lambda>r. reaction_emoji r = e) (filter (\<lambda>r. reaction_message r = i) (message_reactions s))"
  have "keyed reaction_key ?g" using assms by simp
  then have "inj_on reaction_key (set ?g)" "distinct ?g" by (simp_all add: keyed_def distinct_map)
  moreover from this(1) have "inj_on reaction_user (set ?g)"
    by (auto simp: inj_on_def reaction_key_def)
  ultimately show ?thesis unfolding reactors_rows using card_image [of reaction_user "set ?g"] distinct_card [of ?g] by simp
qed

text \<open>
  A reaction summary lists every emoji on the message once; its count is the number of users who
  reacted with it, never zero, and the flag says whether the reader is one of them.
\<close>

theorem reaction_summary_counts_users:
  assumes "message_refs_ok s"
  shows "distinct (map rs_emoji (load_reactions s i viewer)) \<and>
    rs_emoji ` set (load_reactions s i viewer) = {e. reactors s i e \<noteq> {}} \<and>
    list_all (\<lambda>x. rs_count x = int (card (reactors s i (rs_emoji x))) \<and> 0 < rs_count x \<and>
      rs_me x = (viewer \<in> reactors s i (rs_emoji x))) (load_reactions s i viewer)"
proof -
  let ?rows = "filter (\<lambda>r. reaction_message r = i) (message_reactions s)"
  let ?group = "\<lambda>e. filter (\<lambda>r. reaction_emoji r = e) ?rows"
  let ?es = "sort_key (\<lambda>e. Min (set (map reaction_created (?group e)))) (sort (remdups (map reaction_emoji ?rows)))"
  have load: "load_reactions s i viewer = map (\<lambda>e. \<lparr>rs_emoji = e, rs_count = int (length (?group e)),
      rs_me = list_ex (\<lambda>r. reaction_user r = viewer) (?group e)\<rparr>) ?es"
    by (simp add: load_reactions_def reaction_groups_def Let_def comp_def)
  have emojis: "set ?es = {e. reactors s i e \<noteq> {}}" by (auto simp: reactors_rows)
  have keyed: "keyed reaction_key (message_reactions s)" using assms by (simp add: message_refs_ok_def)
  have "list_ex (\<lambda>r. reaction_user r = viewer) (?group e) \<longleftrightarrow> viewer \<in> reactors s i e" for e
    unfolding reactors_rows by (auto simp: list_ex_iff)
  moreover have "0 < length (?group e)" if "e \<in> set ?es" for e
    using that by (auto simp: filter_empty_conv)
  ultimately show ?thesis
    unfolding load card_reactors [OF keyed] using emojis by (simp add: comp_def list_all_iff image_image)
qed

theorem reaction_summary_witness:
  "map (\<lambda>x. (rs_emoji x, rs_count x, rs_me x)) (load_reactions demo_chat ''m0'' demo_member) = [(''+1'', 1, True)] \<and>
   list_all (\<lambda>x. 0 < rs_count x) (load_reactions demo_chat ''m0'' demo_owner)"
proof -
  have "message_refs_ok demo_chat"
    by (simp add: message_refs_ok_def demo_chat_def demo_forum_channel_def plain_message_def keyed_def channel_exists_def
        user_exists_def exists_row_def demo_defs new_user_def)
  from reaction_summary_counts_users [OF this, of "''m0''" demo_owner]
  have "list_all (\<lambda>x. 0 < rs_count x) (load_reactions demo_chat ''m0'' demo_owner)"
    unfolding list_all_iff by blast
  moreover have "map (\<lambda>x. (rs_emoji x, rs_count x, rs_me x)) (load_reactions demo_chat ''m0'' demo_member) = [(''+1'', 1, True)]"
    by code_simp
  ultimately show ?thesis by simp
qed

text \<open>
  The history ignores \<^verbatim>\<open>visible_to_pubkey\<close>: a message meant for one user is listed for everybody, and
  without the field, so that the client cannot hide it either. Nor does reading ask for the
  \<^verbatim>\<open>read_messages\<close> permission.
\<close>

lemma history_shows_ephemeral_messages:
  "map_sum id (map (\<lambda>m. (mr_id m, mr_visible_to m))) (fst (get_messages (\<lambda>_. None) demo_member ''c'' None None None demo_chat)) =
   Inr [(''m1'', None), (''m0'', None)]"
  by code_simp

lemma history_ignores_permissions:
  "fst (get_messages fts user c before lim q (s\<lparr>roles := [], role_permissions := [], user_roles := [], channel_bans := b\<rparr>)) =
   fst (get_messages fts user c before lim q s)"
proof -
  have same: "load_reactions (s\<lparr>roles := [], role_permissions := [], user_roles := [], channel_bans := b\<rparr>) = load_reactions s"
    "message_view (s\<lparr>roles := [], role_permissions := [], user_roles := [], channel_bans := b\<rparr>) = message_view s"
    by (auto simp: fun_eq_iff load_reactions_def reaction_groups_def message_view_def display_name_def
        load_reply_context_def reply_context_of_def split: option.split)
  show ?thesis by (simp add: get_messages_def run_simps same Let_def split: option.split)
qed

text \<open>A muted author can still change the text of an old message.\<close>

lemma muted_author_can_edit:
  assumes "row_at msg_id i (messages s) = Some m" "msg_channel m = c" "msg_sender m = u" "is_muted now s u"
  shows "\<exists>q. row_at msg_id i (messages (snd (edit_message now u c i text s))) = Some q \<and> msg_content q = text"
proof -
  let ?P = "\<lambda>t. \<exists>q. row_at msg_id i (messages t) = Some q \<and> msg_content q = text"
  have "wp (edit_message now u c i text) (\<lambda>_. ?P) (\<lambda>_. ?P) s"
    using assms by (simp add: edit_message_def update_message_def load_message_def send_chat_def wps row_at_update_where)
  then show ?thesis by (simp only: wp_always)
qed

end
