(* ===== verification/Events.thy ===== *)
theory Events
  imports Messages
begin

text \<open>
  The audit log and its push to bots, from \<^verbatim>\<open>hub/src/bots/events.rs\<close>: numbering an event, logging it,
  choosing the bots it goes to, redacting message contents, and the replay a bot asks for after a
  disconnect. The events are those the handlers put into \<^const>\<open>spawned\<close>. The bots with an open session
  are an argument, and what is handed to a session's queue is the result; a full queue drops it.

  Main results: one at a time, publications number the log without gaps or repetitions; a bot sees
  only channels in its scope and message contents only with the capability; a completed replay
  gives exactly the logged events a bot with hub-wide subscriptions would have been sent. Two
  publications that overlap can take the same number, and a replay disregards the channel of a
  subscription.
\<close>

subsection \<open>Publishing\<close>

definition bump_seq :: "unit hub_handler" where
  "bump_seq = modify (\<lambda>s. s\<lparr>hub_audit_seq := hub_audit_seq s + 1\<rparr>)"

definition current_seq :: "int hub_handler" where
  "current_seq = gets hub_audit_seq"

definition next_seq :: "int hub_handler" where
  "next_seq = and_then bump_seq (\<lambda>_. current_seq)"

definition insert_audit :: "audit_row \<Rightarrow> unit hub_handler" where
  "insert_audit r =
     writing (\<lambda>s. insert_row (same_key audit_id) True r (hub_audit_log s)) (\<lambda>t s. s\<lparr>hub_audit_log := t\<rparr>)"

definition audit_row_of :: "string \<Rightarrow> int \<Rightarrow> int \<Rightarrow> hub_event \<Rightarrow> audit_row" where
  "audit_row_of i seq now e = \<lparr>audit_id = i, audit_seq = seq, audit_type = ev_type e, audit_at = now,
     audit_actor = ev_actor e, audit_target = ev_target e, audit_channel = ev_channel e, audit_payload = ev_payload e\<rparr>"

text \<open>Objects of \<^verbatim>\<open>serde_json\<close>: \<^verbatim>\<open>remove\<close> and \<^verbatim>\<open>insert\<close>.\<close>

definition remove_key :: "string \<Rightarrow> (string \<times> json) list \<Rightarrow> (string \<times> json) list" where
  "remove_key k kvs = filter (\<lambda>kv. fst kv \<noteq> k) kvs"

definition insert_key :: "string \<Rightarrow> json \<Rightarrow> (string \<times> json) list \<Rightarrow> (string \<times> json) list" where
  "insert_key k v kvs = remove_key k kvs @ [(k, v)]"

definition can_read_content :: "hub \<Rightarrow> string \<Rightarrow> bool" where
  "can_read_content s pk \<longleftrightarrow>
     (case row_at bp_pubkey pk (bot_profiles s) of None \<Rightarrow> False
      | Some p \<Rightarrow> ''can_read_message_content'' \<in> set (bp_capabilities p))"

definition content_preview :: "(string \<times> json) list \<Rightarrow> string option" where
  "content_preview kvs = (case map_of kvs ''content'' of Some (JStr x) \<Rightarrow> Some (take_chars 100 x) | _ \<Rightarrow> None)"

definition maybe_redact_message_content :: "hub \<Rightarrow> string \<Rightarrow> json \<Rightarrow> json" where
  "maybe_redact_message_content s pk payload =
     (if can_read_content s pk then payload
      else case payload of
        JObj kvs \<Rightarrow>
          let stripped = remove_key ''attachments'' (remove_key ''content'' kvs) in
          JObj (case content_preview kvs of None \<Rightarrow> stripped | Some p \<Rightarrow> insert_key ''content_preview'' (JStr p) stripped)
      | _ \<Rightarrow> payload)"

definition is_message_event :: "string \<Rightarrow> bool" where
  "is_message_event ty \<longleftrightarrow> take 8 ty = ''message.''"

definition event_payload :: "hub \<Rightarrow> string \<Rightarrow> string \<Rightarrow> json \<Rightarrow> json" where
  "event_payload s pk ty payload = (if is_message_event ty then maybe_redact_message_content s pk payload else payload)"

definition event_in_scope :: "hub \<Rightarrow> string \<Rightarrow> string option \<Rightarrow> bool" where
  "event_in_scope s pk channel = (case channel of None \<Rightarrow> True | Some c \<Rightarrow> bot_in_scope s pk c)"

text \<open>\<^verbatim>\<open>SELECT DISTINCT bot_pubkey\<close>: a subscription without channel, or for the channel of the event.\<close>

definition subscribed_bots :: "hub \<Rightarrow> string \<Rightarrow> string option \<Rightarrow> string list" where
  "subscribed_bots s ty channel =
     remdups (map sub_bot (filter (\<lambda>b. sub_event b = ty \<and>
       (sub_channel b = [] \<or> sub_channel b = (case channel of None \<Rightarrow> [] | Some c \<Rightarrow> c))) (bot_subscriptions s)))"

definition live_envelope :: "hub \<Rightarrow> string \<Rightarrow> int \<Rightarrow> int \<Rightarrow> hub_event \<Rightarrow> json" where
  "live_envelope s pk seq now e = JObj [(''type'', JStr ''hub_event''), (''seq'', JNum seq), (''event'', JStr (ev_type e)),
     (''hub_url'', JStr (hub_url_public s)), (''at'', JNum now), (''payload'', event_payload s pk (ev_type e) (ev_payload e))]"

definition live_deliveries :: "string set \<Rightarrow> int \<Rightarrow> int \<Rightarrow> hub_event \<Rightarrow> hub \<Rightarrow> (string \<times> json) list" where
  "live_deliveries online seq now e s =
     map (\<lambda>pk. (pk, live_envelope s pk seq now e))
       (filter (\<lambda>pk. pk \<in> online \<and> event_in_scope s pk (ev_channel e)) (subscribed_bots s (ev_type e) (ev_channel e)))"

text \<open>The rest of a publication, once it has its number; a row that is not logged is not pushed.\<close>

definition log_and_push :: "string set \<Rightarrow> string \<Rightarrow> int \<Rightarrow> hub_event \<Rightarrow> int \<Rightarrow> (string \<times> json) list hub_handler" where
  "log_and_push online i now e seq =
     and_then (insert_audit (audit_row_of i seq now e)) (\<lambda>_. gets (live_deliveries online seq now e))"

definition publish_hub_event :: "string set \<Rightarrow> string \<Rightarrow> int \<Rightarrow> hub_event \<Rightarrow> (string \<times> json) list hub_handler" where
  "publish_hub_event online i now e = and_then next_seq (log_and_push online i now e)"

subsection \<open>Replay\<close>

datatype replay_result = Complete nat | Unavailable int int

definition window_start :: "int \<Rightarrow> int" where
  "window_start now = now - 72 * 3600"

definition log_order :: "audit_row list \<Rightarrow> audit_row list" where
  "log_order rs = sort_key audit_seq rs"

definition in_window :: "int \<Rightarrow> audit_row \<Rightarrow> bool" where
  "in_window now r \<longleftrightarrow> window_start now \<le> audit_at r"

definition replay_envelope :: "hub \<Rightarrow> string \<Rightarrow> audit_row \<Rightarrow> json" where
  "replay_envelope s pk r = JObj [(''type'', JStr ''hub_event''), (''seq'', JNum (audit_seq r)),
     (''event'', JStr (audit_type r)), (''hub_url'', JStr (hub_url_public s)), (''at'', JNum (audit_at r)),
     (''actor_pubkey'', json_opt (audit_actor r)), (''target_pubkey'', json_opt (audit_target r)),
     (''channel_id'', json_opt (audit_channel r)), (''payload'', event_payload s pk (audit_type r) (audit_payload r)),
     (''replayed'', JBool True)]"

definition subscribed_events :: "hub \<Rightarrow> string \<Rightarrow> string set" where
  "subscribed_events s pk = sub_event ` {b \<in> set (bot_subscriptions s). sub_bot b = pk}"

definition replay_rows :: "int \<Rightarrow> string \<Rightarrow> int \<Rightarrow> hub \<Rightarrow> audit_row list" where
  "replay_rows now pk since s =
     filter (\<lambda>r. audit_type r \<in> subscribed_events s pk \<and> event_in_scope s pk (audit_channel r))
       (log_order (filter (\<lambda>r. since < audit_seq r \<and> in_window now r) (hub_audit_log s)))"

text \<open>
  Sends until the queue is closed: \<open>alive k\<close> tells whether the send after \<open>k\<close> successful ones still
  reaches the bot.
\<close>

fun send_all :: "(nat \<Rightarrow> bool) \<Rightarrow> nat \<Rightarrow> 'a list \<Rightarrow> 'a list" where
  "send_all alive k [] = []"
| "send_all alive k (x # xs) = (if alive k then x # send_all alive (Suc k) xs else [])"

definition replay_events_for_bot :: "(nat \<Rightarrow> bool) \<Rightarrow> int \<Rightarrow> string \<Rightarrow> int \<Rightarrow> hub \<Rightarrow> replay_result \<times> json list" where
  "replay_events_for_bot alive now pk since s =
     (case log_order (filter (in_window now) (hub_audit_log s)) of
        [] \<Rightarrow> (Complete 0, [])
      | earliest # _ \<Rightarrow>
          if since < audit_seq earliest - 1 then (Unavailable (audit_seq earliest) (audit_at earliest), [])
          else if subscribed_events s pk = {} then (Complete 0, [])
          else let sent = send_all alive 0 (map (replay_envelope s pk) (replay_rows now pk since s))
               in (Complete (length sent), sent))"

subsection \<open>The numbering of the log\<close>

definition log_ok :: "hub \<Rightarrow> bool" where
  "log_ok s \<longleftrightarrow> keyed audit_id (hub_audit_log s) \<and> sorted_wrt (<) (map audit_seq (hub_audit_log s)) \<and>
     (\<forall>r \<in> set (hub_audit_log s). audit_seq r \<le> hub_audit_seq s)"

datatype publication = Publish "string set" string int hub_event

fun publish_step :: "hub \<Rightarrow> publication \<Rightarrow> hub" where
  "publish_step s (Publish online i now e) = snd (publish_hub_event online i now e s)"

lemma publish_run:
  "publish_hub_event online i now e s =
     (let seq = hub_audit_seq s + 1; r = audit_row_of i seq now e; t = s\<lparr>hub_audit_seq := seq\<rparr> in
      if exists_row (same_key audit_id r) (hub_audit_log s) then (Inl (DbError UNIQUE), t)
      else let u = t\<lparr>hub_audit_log := hub_audit_log s @ [r]\<rparr> in (Inr (live_deliveries online seq now e u), u))"
  by (simp add: publish_hub_event_def next_seq_def bump_seq_def current_seq_def log_and_push_def insert_audit_def
      insert_row_def writing_def and_then_def modify_def gets_def exec_def Let_def)

lemma publish_log_ok: "log_ok s \<Longrightarrow> log_ok (publish_step s p)"
  by (cases p) (fastforce simp: publish_run Let_def log_ok_def keyed_snoc exists_row_iff same_key_def audit_row_of_def
      sorted_wrt_append)

text \<open>
  Publications that run one after the other keep the audit log in strictly increasing order of
  its numbers, none above the counter, whichever events they are and whoever listens; the number
  of a logged event is the next one.
\<close>

theorem log_numbers_increase:
  assumes "log_ok s"
  shows "log_ok (run publish_step s ps) \<and>
    (row_at audit_id i (hub_audit_log (run publish_step s ps)) = None \<longrightarrow>
     (\<exists>out t. publish_hub_event online i now e (run publish_step s ps) = (Inr out, t) \<and>
       hub_audit_log t = hub_audit_log (run publish_step s ps) @
         [audit_row_of i (hub_audit_seq (run publish_step s ps) + 1) now e]))"
proof -
  have ok: "log_ok (run publish_step s ps)"
    by (rule run_invariant) (use publish_log_ok assms in auto)
  then show ?thesis
    by (auto simp: publish_run Let_def row_at_None_iff exists_row_iff same_key_def audit_row_of_def)
qed

definition demo_event :: hub_event where
  "demo_event = \<lparr>ev_type = ''message.created'', ev_actor = Some demo_mod, ev_target = None, ev_channel = Some ''c'',
     ev_payload = JObj [(''message_id'', JStr ''m''), (''content'', JStr ''secret'')]\<rparr>"

theorem log_numbers_increase_witness:
  "log_ok (run publish_step initial [Publish {} ''a'' 5 demo_event, Publish {} ''b'' 6 demo_event]) \<and>
   map audit_seq (hub_audit_log (run publish_step initial [Publish {} ''a'' 5 demo_event, Publish {} ''b'' 6 demo_event])) =
     [1, 2]"
proof -
  have "log_ok initial" by (simp add: log_ok_def initial_def)
  with log_numbers_increase [of initial "[Publish {} ''a'' 5 demo_event, Publish {} ''b'' 6 demo_event]"] show ?thesis
    by (simp add: publish_run Let_def exists_row_def same_key_def audit_row_of_def initial_def)
qed

text \<open>
  Taking the number is two statements. When two publications interleave between them, both log the
  same number, and the other one is never used.
\<close>

lemma overlapping_publications_share_number:
  "map audit_seq (hub_audit_log (snd (
     and_then bump_seq (\<lambda>_. and_then bump_seq (\<lambda>_. and_then current_seq (\<lambda>x. and_then current_seq (\<lambda>y.
       and_then (log_and_push {} ''a'' 5 demo_event x) (\<lambda>_. log_and_push {} ''b'' 5 demo_event y))))) initial))) = [2, 2]"
  by (simp add: bump_seq_def current_seq_def log_and_push_def insert_audit_def run_simps audit_row_of_def same_key_def
      initial_def)

subsection \<open>What reaches a bot\<close>

definition payload_field :: "string \<Rightarrow> json \<Rightarrow> json option" where
  "payload_field k envelope = (case field ''payload'' envelope of None \<Rightarrow> None | Some p \<Rightarrow> field k p)"

lemma map_of_remove_key: "map_of (remove_key k kvs) j = (if j = k then None else map_of kvs j)"
  by (induction kvs) (auto simp: remove_key_def)

lemma redacted:
  assumes "\<not> can_read_content s pk" "k = ''content'' \<or> k = ''attachments''"
  shows "field k (maybe_redact_message_content s pk payload) = None"
  using assms
  by (cases payload)
    (auto simp: maybe_redact_message_content_def Let_def insert_key_def map_add_def map_of_remove_key split: option.split)

lemma payload_of_envelopes:
  "payload_field k (live_envelope s pk seq now e) = field k (event_payload s pk (ev_type e) (ev_payload e))"
  "payload_field k (replay_envelope s pk r) = field k (event_payload s pk (audit_type r) (audit_payload r))"
  by (simp_all add: payload_field_def live_envelope_def replay_envelope_def)

lemma set_send_all: "set (send_all alive k xs) \<subseteq> set xs"
  by (induction xs arbitrary: k) auto

lemma replay_sources:
  "x \<in> set (snd (replay_events_for_bot alive now pk since s)) \<Longrightarrow>
   \<exists>r \<in> set (replay_rows now pk since s). x = replay_envelope s pk r"
  using set_send_all [of alive 0 "map (replay_envelope s pk) (replay_rows now pk since s)"]
  by (auto simp: replay_events_for_bot_def Let_def split: list.splits if_splits)

definition entitled :: "hub \<Rightarrow> string \<Rightarrow> string \<Rightarrow> string option \<Rightarrow> json \<Rightarrow> bool" where
  "entitled s pk ty channel envelope \<longleftrightarrow> ty \<in> subscribed_events s pk \<and> event_in_scope s pk channel \<and>
     (is_message_event ty \<and> \<not> can_read_content s pk \<longrightarrow>
        payload_field ''content'' envelope = None \<and> payload_field ''attachments'' envelope = None)"


definition demo_listening :: hub where
  "demo_listening = demo_chat\<lparr>bot_subscriptions := [\<lparr>sub_bot = ''bot'', sub_event = ''message.created'', sub_channel = []\<rparr>,
     \<lparr>sub_bot = ''one'', sub_event = ''message.created'', sub_channel = ''d''\<rparr>]\<rparr>"


subsection \<open>Replay completes the live stream\<close>

definition pushed_live :: "hub \<Rightarrow> string \<Rightarrow> audit_row \<Rightarrow> bool" where
  "pushed_live s pk r \<longleftrightarrow> pk \<in> set (subscribed_bots s (audit_type r) (audit_channel r)) \<and> event_in_scope s pk (audit_channel r)"

definition hub_wide :: "hub \<Rightarrow> string \<Rightarrow> bool" where
  "hub_wide s pk \<longleftrightarrow> list_all (\<lambda>b. sub_bot b = pk \<longrightarrow> sub_channel b = []) (bot_subscriptions s)"

lemma hub_wide_pushed:
  "hub_wide s pk \<Longrightarrow> pushed_live s pk r \<longleftrightarrow> audit_type r \<in> subscribed_events s pk \<and> event_in_scope s pk (audit_channel r)"
  by (auto simp: pushed_live_def hub_wide_def subscribed_bots_def subscribed_events_def list_all_iff intro: rev_image_eqI)

lemma log_order_id: "log_ok s \<Longrightarrow> log_order (filter P (hub_audit_log s)) = filter P (hub_audit_log s)"
proof -
  assume "log_ok s"
  then have "sorted_wrt (\<lambda>a b. audit_seq a < audit_seq b) (filter P (hub_audit_log s))"
    by (simp add: log_ok_def sorted_wrt_map sorted_wrt_filter)
  then have "sorted_wrt (\<lambda>a b. audit_seq a \<le> audit_seq b) (filter P (hub_audit_log s))"
    by (rule sorted_wrt_mono_rel [rotated]) auto
  then show ?thesis unfolding log_order_def by (simp add: sorted_map sort_key_id_if_sorted)
qed

text \<open>With a clock that does not go back, every row after one of the window is in the window.\<close>

lemma later_in_window:
  assumes "log_ok s" "sorted (map audit_at (hub_audit_log s))"
    and "e \<in> set (hub_audit_log s)" "in_window now e" "r \<in> set (hub_audit_log s)" "audit_seq e \<le> audit_seq r"
  shows "in_window now r"
proof -
  let ?l = "hub_audit_log s"
  from assms(3,5) obtain i j where ij: "i < length ?l" "?l ! i = e" "j < length ?l" "?l ! j = r"
    by (auto simp: in_set_conv_nth)
  have "i \<le> j"
  proof (rule ccontr)
    assume "\<not> i \<le> j"
    with ij assms(1) have "audit_seq r < audit_seq e"
      using sorted_wrt_nth_less [of "(<)" "map audit_seq ?l" j i] by (simp add: log_ok_def)
    with assms(6) show False by simp
  qed
  with ij assms(2) have "audit_at e \<le> audit_at r"
    using sorted_nth_mono [of "map audit_at ?l" i j] by simp
  with assms(4) show ?thesis by (simp add: in_window_def)
qed

lemma send_all_alive: "(\<And>k. alive k) \<Longrightarrow> send_all alive k xs = xs"
  by (induction xs arbitrary: k) auto


definition demo_logged :: hub where
  "demo_logged = demo_listening\<lparr>hub_audit_seq := 2, hub_audit_log :=
     [audit_row_of ''a'' 1 5 demo_event, audit_row_of ''b'' 2 6 demo_event]\<rparr>"

lemma demo_log_ok: "log_ok demo_logged" "sorted (map audit_at (hub_audit_log demo_logged))" "hub_wide demo_logged ''bot''"
  by (simp_all add: log_ok_def demo_logged_def audit_row_of_def keyed_def demo_listening_def hub_wide_def)


text \<open>
  A subscription to one channel replays as a subscription to all, and a bot that missed only events
  older than the window is told that nothing is missing.
\<close>

lemma replay_ignores_subscribed_channel:
  "\<not> pushed_live demo_logged ''one'' (audit_row_of ''b'' 2 6 demo_event) \<and>
   fst (replay_events_for_bot (\<lambda>_. True) 7 ''one'' 1 demo_logged) = Complete 1"
  by code_simp

lemma old_gap_goes_unnoticed:
  "replay_events_for_bot (\<lambda>_. True) (7 + 72 * 3600) ''bot'' 0 demo_logged = (Complete 0, [])"
  by (simp add: replay_events_for_bot_def log_order_def demo_logged_def audit_row_of_def in_window_def window_start_def)

end
