(* ===== verification/Dms.thy ===== *)
theory Dms
  imports Events Identity_Store Recovery Auth
begin

text \<open>
  Direct messages and friends, from \<^verbatim>\<open>hub/src/routes/dms.rs\<close>, \<^verbatim>\<open>hub/src/routes/friends.rs\<close>, the retry
  worker \<^verbatim>\<open>hub/src/dm_worker.rs\<close> and the part of \<^verbatim>\<open>hub/src/federation/client.rs\<close> that delivers to
  another hub. The other hubs are an argument, a function from URLs to what the hub there answers
  during the request; how it answers may differ from request to request.

  Main results: the members of a conversation are fixed and nobody else reads or writes it; a
  blocked sender is answered as if the message had been sent, and nothing is stored; a federated
  delivery can be repeated; the outbox keeps every undelivered message until it is delivered or
  bounced, which happens after at most eight attempts. An encrypted message is never stored, and
  any authenticated caller can forge a federated one.
\<close>

subsection \<open>Other hubs\<close>

record federated_dm =
  fd_message :: string
  fd_conversation :: string
  fd_type :: string
  fd_sender :: string
  fd_members :: "string list"
  fd_content :: "string option"
  fd_attachments :: "attachment list"
  fd_signature :: "string option"
  fd_created :: int
  fd_envelope :: "encrypted_envelope option"

datatype 'a http = NoConnection | BadBody | Body 'a

text \<open>
  \<open>ps_info\<close> is the key and name in the answer to \<^verbatim>\<open>GET /info\<close>, \<open>ps_challenge\<close> and \<open>ps_verify\<close> the two steps
  of a login, \<open>ps_dm\<close> the status of \<^verbatim>\<open>POST /federation/dm\<close>: whether it is a success, and its text.
\<close>

record peer_server =
  ps_info :: "(string \<times> string) http"
  ps_challenge :: "string \<Rightarrow> string http"
  ps_verify :: "string \<Rightarrow> string \<Rightarrow> string \<Rightarrow> string http"
  ps_dm :: "string \<Rightarrow> federated_dm \<Rightarrow> (bool \<times> string) http"

type_synonym network = "string \<Rightarrow> peer_server"

definition http_context :: "string \<Rightarrow> string \<Rightarrow> 'a http \<Rightarrow> string + 'a" where
  "http_context unreachable invalid r =
     (case r of NoConnection \<Rightarrow> Inl unreachable | BadBody \<Rightarrow> Inl invalid | Body x \<Rightarrow> Inr x)"

definition get_info :: "network \<Rightarrow> string \<Rightarrow> string + (string \<times> string)" where
  "get_info net url = http_context ''Failed to connect to peer'' ''Invalid info response'' (ps_info (net url))"

definition authenticate_peer :: "crypto \<Rightarrow> identity \<Rightarrow> network \<Rightarrow> string \<Rightarrow> string + string" where
  "authenticate_peer K me net url =
     (let pub_key = public_key_hex K me in
      case http_context ''Failed to request challenge from peer'' ''Invalid challenge response'' (ps_challenge (net url) pub_key) of
        Inl e \<Rightarrow> Inl e
      | Inr ch \<Rightarrow>
          (case hex_decode K ch of Inl _ \<Rightarrow> Inl ''Invalid challenge hex from peer''
           | Inr bytes \<Rightarrow>
               http_context ''Failed to verify with peer'' ''Invalid verify response''
                 (ps_verify (net url) pub_key ch (hex_encode K (sign K me bytes)))))"

definition upsert_peer :: "string \<Rightarrow> string \<Rightarrow> string \<Rightarrow> int \<Rightarrow> unit hub_handler" where
  "upsert_peer pk name url now =
     writing (\<lambda>s. upsert (same_key peer_key) True \<lparr>peer_key = pk, peer_name = name, peer_url = url, peer_added = now\<rparr>
         (\<lambda>r. r\<lparr>peer_name := name, peer_url := url\<rparr>) (peers s))
       (\<lambda>t s. s\<lparr>peers := t\<rparr>)"

text \<open>The session token of the peer at a URL, cached or obtained by logging in there.\<close>

definition cached_token :: "hub \<Rightarrow> string \<Rightarrow> string option" where
  "cached_token s url =
     (case fetch_optional (\<lambda>r. peer_url r = url) (peers s) of None \<Rightarrow> None | Some r \<Rightarrow> peer_tokens s (peer_key r))"

definition peer_token :: "crypto \<Rightarrow> identity \<Rightarrow> network \<Rightarrow> int \<Rightarrow> string \<Rightarrow> (string + string) hub_handler" where
  "peer_token K me net now url =
     and_then (gets (\<lambda>s. cached_token s url)) (\<lambda>cached.
     case cached of Some t \<Rightarrow> ret (Inr t)
     | None \<Rightarrow>
         (case authenticate_peer K me net url of Inl e \<Rightarrow> ret (Inl (''authenticate: '' @ e))
          | Inr fresh \<Rightarrow>
              (case get_info net url of Inl e \<Rightarrow> ret (Inl (''get_info: '' @ e))
               | Inr (pk, name) \<Rightarrow>
                   and_then (ignoring (upsert_peer pk name url now)) (\<lambda>_.
                   and_then (modify (\<lambda>s. s\<lparr>peer_tokens := (peer_tokens s)(pk \<mapsto> fresh)\<rparr>)) (\<lambda>_.
                   ret (Inr fresh))))))"

definition deliver_federated_dm :: "crypto \<Rightarrow> identity \<Rightarrow> network \<Rightarrow> int \<Rightarrow> string \<Rightarrow> federated_dm \<Rightarrow> (string + unit) hub_handler" where
  "deliver_federated_dm K me net now url envelope =
     and_then (peer_token K me net now url) (\<lambda>token.
     ret (case token of Inl e \<Rightarrow> Inl e
       | Inr t \<Rightarrow>
           (case ps_dm (net url) t envelope of
              Body (ok, status) \<Rightarrow> if ok then Inr () else Inl (''remote hub returned '' @ status)
            | _ \<Rightarrow> Inl ''deliver: Failed to deliver DM to peer'')))"

subsection \<open>Conversations\<close>

definition member_key :: "conversation_member_row \<Rightarrow> string \<times> string" where
  "member_key m = (cm_conversation m, cm_key m)"

definition conversation_exists :: "hub \<Rightarrow> string \<Rightarrow> bool" where
  "conversation_exists s c \<longleftrightarrow> exists_row (\<lambda>r. conv_id r = c) (conversations s)"

definition load_members :: "hub \<Rightarrow> string \<Rightarrow> conversation_member_row list" where
  "load_members s c = filter (\<lambda>m. cm_conversation m = c) (conversation_members s)"

definition is_member :: "hub \<Rightarrow> string \<Rightarrow> string \<Rightarrow> bool" where
  "is_member s c u \<longleftrightarrow> u \<in> cm_key ` set (load_members s c)"

definition insert_conversation :: "conversation_row \<Rightarrow> unit hub_handler" where
  "insert_conversation r =
     writing (\<lambda>s. insert_row (same_key conv_id) True r (conversations s)) (\<lambda>t s. s\<lparr>conversations := t\<rparr>)"

definition insert_member :: "conversation_member_row \<Rightarrow> unit hub_handler" where
  "insert_member m =
     writing (\<lambda>s. insert_row (same_key member_key) (conversation_exists s (cm_conversation m) \<and> user_exists s (cm_key m))
         m (conversation_members s))
       (\<lambda>t s. s\<lparr>conversation_members := t\<rparr>)"

definition insert_or_ignore_member :: "conversation_member_row \<Rightarrow> unit hub_handler" where
  "insert_or_ignore_member m =
     writing (\<lambda>s. insert_or_ignore (same_key member_key)
         (conversation_exists s (cm_conversation m) \<and> user_exists s (cm_key m)) m (conversation_members s))
       (\<lambda>t s. s\<lparr>conversation_members := t\<rparr>)"

definition ensure_user_stub :: "string \<Rightarrow> int \<Rightarrow> unit hub_handler" where
  "ensure_user_stub pk now = insert_or_ignore_user (new_user pk now ''approved'' None)"

record conversation_response =
  cv_id :: string
  cv_type :: string
  cv_members :: "string list"
  cv_created :: int
  cv_last_activity :: int

text \<open>The join of \<^verbatim>\<open>find_existing_dm\<close>, and its loop.\<close>

definition common_dms :: "hub \<Rightarrow> string \<Rightarrow> string \<Rightarrow> conversation_row list" where
  "common_dms s a b =
     concat (map (\<lambda>x. concat (map (\<lambda>y.
       if cm_key x = a \<and> cm_key y = b \<and> cm_conversation y = cm_conversation x
       then filter (\<lambda>c. conv_id c = cm_conversation x \<and> conv_type c = ''dm'') (conversations s) else [])
       (conversation_members s))) (conversation_members s))"

definition find_existing_dm :: "hub \<Rightarrow> string \<Rightarrow> string \<Rightarrow> conversation_response option" where
  "find_existing_dm s a b =
     map_option (\<lambda>c. \<lparr>cv_id = conv_id c, cv_type = conv_type c, cv_members = [a, b], cv_created = conv_created c,
       cv_last_activity = conv_created c\<rparr>)
     (List.find (\<lambda>c. length (load_members s (conv_id c)) = 2) (common_dms s a b))"

definition add_member :: "string \<Rightarrow> int \<Rightarrow> (string \<rightharpoonup> string) \<Rightarrow> string \<Rightarrow> unit hub_handler" where
  "add_member c now member_hubs pk =
     and_then (ensure_user_stub pk now) (\<lambda>_.
     insert_member \<lparr>cm_conversation = c, cm_key = pk, cm_joined = now, cm_hub_url = member_hubs pk\<rparr>)"

definition create_conversation :: "string \<Rightarrow> int \<Rightarrow> string \<Rightarrow> string list \<Rightarrow> (string \<rightharpoonup> string) \<Rightarrow>
    (status_code \<times> conversation_response) hub_handler" where
  "create_conversation uuid now user members member_hubs =
     and_then (check (members \<noteq> []) (Reject BAD_REQUEST ''Need at least one other member'')) (\<lambda>_.
     let ty = (if length members = 1 then ''dm'' else ''group'') in
     and_then (gets (\<lambda>s. if ty = ''dm'' then find_existing_dm s user (hd members) else None)) (\<lambda>existing.
     case existing of Some conv \<Rightarrow> ret (OK, conv)
     | None \<Rightarrow>
         and_then (insert_conversation \<lparr>conv_id = uuid, conv_type = ty, conv_created = now\<rparr>) (\<lambda>_.
         and_then (insert_member \<lparr>cm_conversation = uuid, cm_key = user, cm_joined = now, cm_hub_url = None\<rparr>) (\<lambda>_.
         and_then (for_each (add_member uuid now member_hubs) members) (\<lambda>_.
         ret (CREATED, \<lparr>cv_id = uuid, cv_type = ty, cv_members = members @ [user], cv_created = now,
           cv_last_activity = now\<rparr>))))))"

definition last_activity :: "hub \<Rightarrow> conversation_row \<Rightarrow> int" where
  "last_activity s c =
     (case map dm_created (filter (\<lambda>m. dm_conversation m = conv_id c) (dm_messages s)) of
        [] \<Rightarrow> conv_created c
      | t # ts \<Rightarrow> fold max ts t)"

definition list_conversations :: "string \<Rightarrow> conversation_response list hub_handler" where
  "list_conversations user =
     gets (\<lambda>s. map (\<lambda>c. \<lparr>cv_id = conv_id c, cv_type = conv_type c, cv_members = map cm_key (load_members s (conv_id c)),
         cv_created = conv_created c, cv_last_activity = last_activity s c\<rparr>)
       (sort_key (\<lambda>c. - conv_created c) (filter (\<lambda>c. is_member s (conv_id c) user) (conversations s))))"

subsection \<open>Sending\<close>

record send_dm_request =
  sdr_content :: "string option"
  sdr_attachments :: "attachment list"
  sdr_envelope :: "encrypted_envelope option"

record dm_response =
  dmr_id :: string
  dmr_conversation :: string
  dmr_sender :: string
  dmr_sender_name :: "string option"
  dmr_content :: "string option"
  dmr_created :: int
  dmr_attachments :: "attachment list"
  dmr_delivery_failed :: bool
  dmr_is_encrypted :: bool
  dmr_envelope :: "encrypted_envelope option"

definition envelope_signing_bytes :: "encrypted_envelope \<Rightarrow> u8 list" where
  "envelope_signing_bytes env =
     foldl write_str (as_bytes (''voxply/dm-ciphertext/v1'' @ [CHR 0x00]))
       [env_conv env, env_ciphertext_hex env, env_nonce_hex env, env_dh_pubkey_hex env]"

definition check_envelope :: "crypto \<Rightarrow> string \<Rightarrow> encrypted_envelope \<Rightarrow> unit hub_handler" where
  "check_envelope K pk env =
     and_then (lift (case hex_decode K (env_signature_hex env) of
         Inl e \<Rightarrow> Inl (Reject BAD_REQUEST (''Bad signature hex: '' @ e)) | Inr b \<Rightarrow> Inr b)) (\<lambda>sig_bytes.
     lift (case verify_signature K pk (envelope_signing_bytes env) sig_bytes of
         Inl e \<Rightarrow> Inl (Reject BAD_REQUEST (''Invalid envelope signature: '' @ e)) | Inr u \<Rightarrow> Inr u))"

text \<open>
  \<^verbatim>\<open>content\<close> is declared \<^verbatim>\<open>TEXT NOT NULL\<close>, and no later migration lifts that, so a NULL there is
  refused.
\<close>

definition insert_dm_message :: "string option \<Rightarrow> dm_message_row \<Rightarrow> unit hub_handler" where
  "insert_dm_message content m =
     writing (\<lambda>s. case content of None \<Rightarrow> Inl (DbError NOT_NULL)
         | Some x \<Rightarrow> insert_row (same_key dm_id) True (m\<lparr>dm_content := x\<rparr>) (dm_messages s))
       (\<lambda>t s. s\<lparr>dm_messages := t\<rparr>)"

definition stored_dm :: "string \<Rightarrow> string \<Rightarrow> string \<Rightarrow> attachment list \<Rightarrow> string option \<Rightarrow> int \<Rightarrow> encrypted_envelope option \<Rightarrow> dm_message_row" where
  "stored_dm i c sender atts sig now env = \<lparr>dm_id = i, dm_conversation = c, dm_sender = sender, dm_content = [],
     dm_attachments = (if atts = [] then None else Some atts), dm_signature = sig, dm_created = now,
     dm_is_encrypted = (if env = None then 0 else 1), dm_ciphertext = env\<rparr>"

definition store_dm :: "dm_message_row \<Rightarrow> string option \<Rightarrow> unit hub_handler" where
  "store_dm m content =
     insert_dm_message (if dm_ciphertext m \<noteq> None then None else Some (case content of None \<Rightarrow> [] | Some x \<Rightarrow> x)) m"

definition send_dm_event :: "dm_event \<Rightarrow> unit hub_handler" where
  "send_dm_event e = modify (\<lambda>s. s\<lparr>dm_tx := dm_tx s @ [DmSent e]\<rparr>)"

definition ws_content :: "bool \<Rightarrow> string option \<Rightarrow> string" where
  "ws_content is_encrypted content =
     (if is_encrypted then ''[encrypted]'' else case content of None \<Rightarrow> [] | Some x \<Rightarrow> x)"

definition delivery_urls :: "hub \<Rightarrow> conversation_member_row \<Rightarrow> string list" where
  "delivery_urls s m =
     (let designated = (case row_at user_key (cm_key m) (users s) of None \<Rightarrow> None
        | Some u \<Rightarrow> (case user_master u of None \<Rightarrow> None
           | Some mpk \<Rightarrow> map_option des_hubs (row_at des_master mpk (home_hub_designations s))))
      in case designated of
        Some (x # xs) \<Rightarrow> x # xs
      | _ \<Rightarrow> (case cm_hub_url m of None \<Rightarrow> [] | Some url \<Rightarrow> [url]))"

definition outbox_key :: "outbox_row \<Rightarrow> string \<times> string" where
  "outbox_key r = (out_message r, out_hub_url r)"

definition insert_outbox :: "outbox_row \<Rightarrow> unit hub_handler" where
  "insert_outbox r =
     writing (\<lambda>s. insert_or_ignore (same_key outbox_key)
         (exists_row (\<lambda>m. dm_id m = out_message r) (dm_messages s)) r (dm_outbox s))
       (\<lambda>t s. s\<lparr>dm_outbox := t\<rparr>)"

definition delete_outbox :: "string \<Rightarrow> string \<Rightarrow> unit hub_handler" where
  "delete_outbox i url = modify (\<lambda>s. s\<lparr>dm_outbox := delete_where (\<lambda>r. outbox_key r = (i, url)) (dm_outbox s)\<rparr>)"

definition update_outbox :: "string \<Rightarrow> string \<Rightarrow> (outbox_row \<Rightarrow> outbox_row) \<Rightarrow> unit hub_handler" where
  "update_outbox i url f =
     modify (\<lambda>s. s\<lparr>dm_outbox := update_where (\<lambda>r. outbox_key r = (i, url)) f (dm_outbox s)\<rparr>)"

definition new_outbox :: "string \<Rightarrow> string \<Rightarrow> int \<Rightarrow> outbox_row" where
  "new_outbox i url now = \<lparr>out_message = i, out_hub_url = url, out_attempts = 0, out_next_attempt = now,
     out_last_error = None, out_bounced = None\<rparr>"

definition first_delivery :: "crypto \<Rightarrow> identity \<Rightarrow> network \<Rightarrow> int \<Rightarrow> federated_dm \<Rightarrow> string \<Rightarrow> unit hub_handler" where
  "first_delivery K me net now envelope url =
     and_then (insert_outbox (new_outbox (fd_message envelope) url now)) (\<lambda>_.
     and_then (deliver_federated_dm K me net now url envelope) (\<lambda>result.
     case result of
       Inr _ \<Rightarrow> delete_outbox (fd_message envelope) url
     | Inl e \<Rightarrow> update_outbox (fd_message envelope) url
         (\<lambda>r. r\<lparr>out_attempts := 1, out_next_attempt := now + 10, out_last_error := Some e\<rparr>)))"

definition deliver_to_member :: "crypto \<Rightarrow> identity \<Rightarrow> network \<Rightarrow> int \<Rightarrow> federated_dm \<Rightarrow> conversation_member_row \<Rightarrow> unit hub_handler" where
  "deliver_to_member K me net now envelope m =
     (if cm_key m = fd_sender envelope then ret ()
      else and_then (gets (\<lambda>s. delivery_urls s m)) (\<lambda>urls.
           for_each (first_delivery K me net now envelope) urls))"

definition dm_kind :: "string \<Rightarrow> send_dm_request \<Rightarrow> bool result" where
  "dm_kind ty req =
     (case (sdr_content req, sdr_envelope req) of
        (None, None) \<Rightarrow> Inl (Reject BAD_REQUEST ''Either content or encrypted_envelope is required'')
      | (Some _, Some _) \<Rightarrow> Inl (Reject BAD_REQUEST ''Provide content or encrypted_envelope, not both'')
      | (None, Some _) \<Rightarrow>
          if ty \<noteq> ''dm'' then Inl (Reject BAD_REQUEST ''E2E encryption is only supported for 1:1 DMs'') else Inr True
      | (Some _, None) \<Rightarrow> Inr False)"

definition blocked_by_member :: "hub \<Rightarrow> string \<Rightarrow> conversation_member_row list \<Rightarrow> bool" where
  "blocked_by_member s user members \<longleftrightarrow>
     list_ex (\<lambda>m. cm_key m \<noteq> user \<and> is_dm_blocked s (cm_key m) user) members"

definition send_dm :: "crypto \<Rightarrow> identity \<Rightarrow> network \<Rightarrow> string \<Rightarrow> int \<Rightarrow> string \<Rightarrow> string \<Rightarrow> send_dm_request \<Rightarrow>
    (status_code \<times> dm_response) hub_handler" where
  "send_dm K me net uuid now user c req =
     and_then (gets (\<lambda>s. load_members s c)) (\<lambda>members.
     and_then (check (list_ex (\<lambda>m. cm_key m = user) members)
       (Reject FORBIDDEN ''Not a member of this conversation'')) (\<lambda>_.
     and_then (gets (\<lambda>s. blocked_by_member s user members)) (\<lambda>blocked.
     if blocked then ret (CREATED, \<lparr>dmr_id = uuid, dmr_conversation = c, dmr_sender = user, dmr_sender_name = None,
       dmr_content = sdr_content req, dmr_created = now, dmr_attachments = sdr_attachments req,
       dmr_delivery_failed = False, dmr_is_encrypted = False, dmr_envelope = None\<rparr>)
     else
       and_then (gets (\<lambda>s. map_option conv_type (row_at conv_id c (conversations s)))) (\<lambda>ty.
       and_then (ok_or ty (Reject NOT_FOUND ''Conversation not found'')) (\<lambda>ty.
       and_then (lift (dm_kind ty req)) (\<lambda>is_encrypted.
       and_then (check (\<not> MAX_ATTACHMENTS_BYTES < attach_total (sdr_attachments req))
         (Reject PAYLOAD_TOO_LARGE ''Attachments exceed 3MB cap'')) (\<lambda>_.
       and_then (case sdr_envelope req of None \<Rightarrow> ret () | Some env \<Rightarrow> check_envelope K user env) (\<lambda>_.
       and_then (store_dm (stored_dm uuid c user (sdr_attachments req) None now (sdr_envelope req)) (sdr_content req)) (\<lambda>_.
       and_then (gets (\<lambda>s. display_name s user)) (\<lambda>sender_name.
       and_then (send_dm_event \<lparr>dme_conversation = c, dme_sender = user, dme_sender_name = sender_name,
         dme_content = ws_content is_encrypted (sdr_content req), dme_timestamp = now\<rparr>) (\<lambda>_.
       and_then (for_each (deliver_to_member K me net now \<lparr>fd_message = uuid, fd_conversation = c, fd_type = ty,
           fd_sender = user, fd_members = map cm_key members, fd_content = sdr_content req,
           fd_attachments = sdr_attachments req, fd_signature = None, fd_created = now, fd_envelope = sdr_envelope req\<rparr>)
         members) (\<lambda>_.
       ret (CREATED, \<lparr>dmr_id = uuid, dmr_conversation = c, dmr_sender = user, dmr_sender_name = sender_name,
         dmr_content = sdr_content req, dmr_created = now, dmr_attachments = sdr_attachments req,
         dmr_delivery_failed = False, dmr_is_encrypted = is_encrypted, dmr_envelope = sdr_envelope req\<rparr>)))))))))))))"

subsection \<open>Reading\<close>

definition dm_view :: "hub \<Rightarrow> dm_message_row \<Rightarrow> dm_response" where
  "dm_view s m = \<lparr>dmr_id = dm_id m, dmr_conversation = dm_conversation m, dmr_sender = dm_sender m,
     dmr_sender_name = display_name s (dm_sender m), dmr_content = Some (dm_content m), dmr_created = dm_created m,
     dmr_attachments = parse_attachments (dm_attachments m),
     dmr_delivery_failed = exists_row (\<lambda>r. out_message r = dm_id m \<and> out_bounced r \<noteq> None) (dm_outbox s),
     dmr_is_encrypted = (dm_is_encrypted m \<noteq> 0), dmr_envelope = (if dm_is_encrypted m \<noteq> 0 then dm_ciphertext m else None)\<rparr>"

definition list_dm_messages :: "string \<Rightarrow> string \<Rightarrow> dm_response list hub_handler" where
  "list_dm_messages user c =
     and_then (gets (\<lambda>s. count_rows (\<lambda>m. cm_conversation m = c \<and> cm_key m = user) (conversation_members s))) (\<lambda>n.
     and_then (check (n \<noteq> 0) (Reject FORBIDDEN ''Not a member of this conversation'')) (\<lambda>_.
     gets (\<lambda>s. map (dm_view s) (sort_key dm_created (filter (\<lambda>m. dm_conversation m = c) (dm_messages s))))))"

subsection \<open>Federated delivery\<close>

definition open_conversation :: "federated_dm \<Rightarrow> unit hub_handler" where
  "open_conversation req =
     and_then (insert_conversation \<lparr>conv_id = fd_conversation req, conv_type = fd_type req, conv_created = fd_created req\<rparr>) (\<lambda>_.
     for_each (\<lambda>pk.
       and_then (ensure_user_stub pk (fd_created req)) (\<lambda>_.
       insert_or_ignore_member \<lparr>cm_conversation = fd_conversation req, cm_key = pk, cm_joined = fd_created req,
         cm_hub_url = None\<rparr>)) (fd_members req))"

definition receive_federated_dm :: "crypto \<Rightarrow> int \<Rightarrow> federated_dm \<Rightarrow> status_code hub_handler" where
  "receive_federated_dm K now req =
     and_then (gets (\<lambda>s. exists_row (\<lambda>m. dm_id m = fd_message req) (dm_messages s))) (\<lambda>seen.
     if seen then ret OK
     else and_then (gets (\<lambda>s. list_ex (\<lambda>pk. pk \<noteq> fd_sender req \<and> is_dm_blocked s pk (fd_sender req)) (fd_members req))) (\<lambda>blocked.
     if blocked then ret OK
     else
       and_then (gets (\<lambda>s. conversation_exists s (fd_conversation req))) (\<lambda>known.
       and_then (if known then ret () else open_conversation req) (\<lambda>_.
       and_then (ensure_user_stub (fd_sender req) (fd_created req)) (\<lambda>_.
       and_then (case fd_envelope req of None \<Rightarrow> ret () | Some env \<Rightarrow> check_envelope K (fd_sender req) env) (\<lambda>_.
       and_then (store_dm (stored_dm (fd_message req) (fd_conversation req) (fd_sender req) (fd_attachments req)
         (fd_signature req) (fd_created req) (fd_envelope req)) (fd_content req)) (\<lambda>_.
       and_then (gets (\<lambda>s. display_name s (fd_sender req))) (\<lambda>sender_name.
       and_then (send_dm_event \<lparr>dme_conversation = fd_conversation req, dme_sender = fd_sender req,
         dme_sender_name = sender_name, dme_content = ws_content (fd_envelope req \<noteq> None) (fd_content req),
         dme_timestamp = max (fd_created req) now\<rparr>) (\<lambda>_.
       ret OK)))))))))"

subsection \<open>The retry worker\<close>

definition BACKOFF_SECS :: "int list" where
  "BACKOFF_SECS = [10, 60, 300, 1800, 3600, 21600, 86400]"

definition load_envelope :: "string \<Rightarrow> federated_dm option hub_handler" where
  "load_envelope i =
     and_then (gets (\<lambda>s. row_at dm_id i (dm_messages s))) (\<lambda>row.
     case row of None \<Rightarrow> ret None
     | Some m \<Rightarrow>
         and_then (gets (\<lambda>s. row_at conv_id (dm_conversation m) (conversations s))) (\<lambda>conv.
         and_then (ok_or conv (Reject INTERNAL_SERVER_ERROR ''no rows returned'')) (\<lambda>conv.
         gets (\<lambda>s. Some \<lparr>fd_message = dm_id m, fd_conversation = dm_conversation m, fd_type = conv_type conv,
           fd_sender = dm_sender m, fd_members = map cm_key (load_members s (dm_conversation m)),
           fd_content = Some (dm_content m), fd_attachments = parse_attachments (dm_attachments m),
           fd_signature = dm_signature m, fd_created = dm_created m,
           fd_envelope = (if dm_is_encrypted m \<noteq> 0 then dm_ciphertext m else None)\<rparr>))))"

text \<open>What a failed attempt leaves in the outbox row.\<close>

definition after_failure :: "int \<Rightarrow> int \<Rightarrow> string \<Rightarrow> outbox_row \<Rightarrow> outbox_row" where
  "after_failure now attempts err r =
     (if attempts < 0 \<or> length BACKOFF_SECS \<le> nat attempts
      then r\<lparr>out_attempts := attempts + 1, out_last_error := Some err, out_bounced := Some now\<rparr>
      else r\<lparr>out_attempts := attempts + 1, out_next_attempt := now + BACKOFF_SECS ! nat attempts,
        out_last_error := Some err\<rparr>)"

definition retry :: "crypto \<Rightarrow> identity \<Rightarrow> network \<Rightarrow> int \<Rightarrow> outbox_row \<Rightarrow> unit hub_handler" where
  "retry K me net now row =
     and_then (load_envelope (out_message row)) (\<lambda>envelope.
     case envelope of None \<Rightarrow> delete_outbox (out_message row) (out_hub_url row)
     | Some envelope \<Rightarrow>
         and_then (deliver_federated_dm K me net now (out_hub_url row) envelope) (\<lambda>result.
         case result of
           Inr _ \<Rightarrow> delete_outbox (out_message row) (out_hub_url row)
         | Inl err \<Rightarrow> update_outbox (out_message row) (out_hub_url row) (after_failure now (out_attempts row) err)))"

definition due_rows :: "int \<Rightarrow> hub \<Rightarrow> outbox_row list" where
  "due_rows now s = take 100 (filter (\<lambda>r. out_bounced r = None \<and> out_next_attempt r \<le> now) (dm_outbox s))"

definition tick :: "crypto \<Rightarrow> identity \<Rightarrow> network \<Rightarrow> int \<Rightarrow> unit hub_handler" where
  "tick K me net now = and_then (gets (due_rows now)) (for_each (retry K me net now))"

subsection \<open>Friends\<close>

definition friend_key :: "friend_row \<Rightarrow> string \<times> string" where
  "friend_key f = (friend_a f, friend_b f)"

definition send_friend_request :: "int \<Rightarrow> string \<Rightarrow> string \<Rightarrow> string option \<Rightarrow> string option \<Rightarrow> status_code hub_handler" where
  "send_friend_request now user target hub name =
     and_then (check (target \<noteq> user) (Reject BAD_REQUEST ''Cannot friend yourself'')) (\<lambda>_.
     and_then (writing (\<lambda>s. insert_or_ignore (same_key friend_key) (user_exists s user)
         \<lparr>friend_a = user, friend_b = target, friend_status = (if hub \<noteq> None then ''accepted'' else ''pending''),
          friend_created = now, friend_hub_url = hub, friend_display_name = name\<rparr> (friends s))
       (\<lambda>t s. s\<lparr>friends := t\<rparr>)) (\<lambda>_.
     ret CREATED))"

definition pending_from :: "string \<Rightarrow> string \<Rightarrow> friend_row \<Rightarrow> bool" where
  "pending_from a b f \<longleftrightarrow> friend_a f = a \<and> friend_b f = b \<and> friend_status f = ''pending''"

definition accept_friend_request :: "string \<Rightarrow> string \<Rightarrow> status_code hub_handler" where
  "accept_friend_request user from_key =
     and_then (gets (\<lambda>s. count_rows (pending_from from_key user) (friends s))) (\<lambda>n.
     and_then (modify (\<lambda>s. s\<lparr>friends := update_where (pending_from from_key user)
       (\<lambda>f. f\<lparr>friend_status := ''accepted''\<rparr>) (friends s)\<rparr>)) (\<lambda>_.
     and_then (check (n \<noteq> 0) (Reject NOT_FOUND ''No pending request from this user'')) (\<lambda>_.
     ret OK)))"

definition remove_friend :: "string \<Rightarrow> string \<Rightarrow> status_code hub_handler" where
  "remove_friend user target =
     and_then (modify (\<lambda>s. s\<lparr>friends := delete_where (\<lambda>f. friend_key f = (user, target) \<or> friend_key f = (target, user))
       (friends s)\<rparr>)) (\<lambda>_.
     ret NO_CONTENT)"

record friend_info =
  fi_key :: string
  fi_display_name :: "string option"
  fi_hub_url :: "string option"
  fi_since :: int

definition friend_view :: "hub \<Rightarrow> string \<Rightarrow> friend_row \<Rightarrow> friend_info" where
  "friend_view s user f =
     (let mine = (friend_a f = user); key = (if mine then friend_b f else friend_a f);
          cached = (if mine then friend_display_name f else None) in
      \<lparr>fi_key = key,
       fi_display_name = (case cached of Some (c # cs) \<Rightarrow> Some (c # cs) | _ \<Rightarrow> display_name s key),
       fi_hub_url = (if mine then friend_hub_url f else None), fi_since = friend_created f\<rparr>)"

definition list_friends :: "string \<Rightarrow> friend_info list hub_handler" where
  "list_friends user =
     gets (\<lambda>s. map (friend_view s user)
       (filter (\<lambda>f. (friend_a f = user \<or> friend_b f = user) \<and> friend_status f = ''accepted'') (friends s)))"

definition list_pending_requests :: "string \<Rightarrow> friend_info list hub_handler" where
  "list_pending_requests user =
     gets (\<lambda>s. map (\<lambda>f. \<lparr>fi_key = friend_a f, fi_display_name = display_name s (friend_a f), fi_hub_url = None,
         fi_since = friend_created f\<rparr>)
       (filter (\<lambda>f. friend_b f = user \<and> friend_status f = ''pending'') (friends s)))"

subsection \<open>Requests, as one type of operations\<close>

datatype dm_op =
    CreateConversation string int string "string list" "string \<rightharpoonup> string"
  | SendDm crypto identity network string int string string send_dm_request
  | ReceiveDm crypto int federated_dm
  | Tick crypto identity network int
  | SetBlocks string "string list"
  | SendFriendRequest int string string "string option" "string option"
  | AcceptFriend string string
  | RemoveFriend string string

fun dm_step :: "hub \<Rightarrow> dm_op \<Rightarrow> hub" where
  "dm_step s (CreateConversation uuid now user members hubs) = snd (create_conversation uuid now user members hubs s)"
| "dm_step s (SendDm K me net uuid now user c req) = snd (send_dm K me net uuid now user c req s)"
| "dm_step s (ReceiveDm K now req) = snd (receive_federated_dm K now req s)"
| "dm_step s (Tick K me net now) = snd (tick K me net now s)"
| "dm_step s (SetBlocks user pks) = snd (put_dm_blocks user pks s)"
| "dm_step s (SendFriendRequest now user target hub name) = snd (send_friend_request now user target hub name s)"
| "dm_step s (AcceptFriend user from_key) = snd (accept_friend_request user from_key s)"
| "dm_step s (RemoveFriend user target) = snd (remove_friend user target s)"

subsection \<open>What the requests keep\<close>

text \<open>A property that depends on none of the tables below survives every direct-message request.\<close>

lemma deliver_keeps:
  assumes "\<And>t x. P t \<Longrightarrow> P (t\<lparr>peers := x\<rparr>)" "\<And>t x. P t \<Longrightarrow> P (t\<lparr>peer_tokens := x\<rparr>)"
  shows "preserves P (deliver_federated_dm K me net now url envelope)"
  unfolding deliver_federated_dm_def peer_token_def upsert_peer_def
  by (auto intro!: keeps preserves_writing preserves_modify assms split: sum.split)

lemma preserves_check_envelope [keeps]: "preserves P (check_envelope K pk env)"
  unfolding check_envelope_def by (intro keeps)

lemma preserves_case_sum [keeps]:
  "(\<And>x. preserves P (f x)) \<Longrightarrow> (\<And>y. preserves P (g y)) \<Longrightarrow> preserves P (case z of Inl x \<Rightarrow> f x | Inr y \<Rightarrow> g y)"
  by (cases z) auto

text \<open>The people in a conversation.\<close>

definition closed :: "string \<Rightarrow> conversation_member_row list \<Rightarrow> hub \<Rightarrow> bool" where
  "closed c M s \<longleftrightarrow> conversation_exists s c \<and> load_members s c = M"

lemma closed_frames:
  "closed c M s \<Longrightarrow> closed c M (s\<lparr>users := x1\<rparr>)" "closed c M s \<Longrightarrow> closed c M (s\<lparr>dm_messages := x2\<rparr>)"
  "closed c M s \<Longrightarrow> closed c M (s\<lparr>dm_outbox := x3\<rparr>)" "closed c M s \<Longrightarrow> closed c M (s\<lparr>dm_tx := x4\<rparr>)"
  "closed c M s \<Longrightarrow> closed c M (s\<lparr>peers := x5\<rparr>)" "closed c M s \<Longrightarrow> closed c M (s\<lparr>peer_tokens := x6\<rparr>)"
  "closed c M s \<Longrightarrow> closed c M (s\<lparr>dm_blocks := x7\<rparr>)" "closed c M s \<Longrightarrow> closed c M (s\<lparr>friends := x8\<rparr>)"
  by (simp_all add: closed_def conversation_exists_def load_members_def)

lemma closed_conversation: "preserves (closed c M) (insert_conversation r)"
  unfolding insert_conversation_def
  by (rule preserves_writing) (auto simp: ok_iffs closed_def conversation_exists_def load_members_def exists_row_iff)

lemma closed_members:
  assumes "cm_conversation m \<noteq> c"
  shows "preserves (closed c M) (insert_member m)" "preserves (closed c M) (insert_or_ignore_member m)"
  unfolding insert_member_def insert_or_ignore_member_def
  by (rule preserves_writing; use assms in \<open>auto simp: ok_iffs closed_def conversation_exists_def load_members_def
      split: if_splits\<close>)+

text \<open>Opening a conversation under a taken id fails before anybody is added to it.\<close>

lemma closed_insert_then:
  assumes "conv_id r \<noteq> c \<Longrightarrow> preserves (closed c M) (k ())"
  shows "preserves (closed c M) (and_then (insert_conversation r) k)"
proof (cases "conv_id r = c")
  case True
  have "insert_conversation r t = (Inl (DbError UNIQUE), t)" if "closed c M t" for t
    using that True
    by (auto simp: insert_conversation_def writing_def exec_def insert_row_def closed_def conversation_exists_def
        exists_row_iff same_key_def)
  then show ?thesis by (simp add: preserves_def and_then_def)
qed (simp add: assms closed_conversation preserves_and_then)

lemma closed_stub: "preserves (closed c M) (ensure_user_stub pk now)"
  unfolding ensure_user_stub_def insert_or_ignore_user_def by (intro preserves_writing closed_frames)

lemma closed_create: "preserves (closed c M) (create_conversation uuid now user members hubs)"
  unfolding create_conversation_def add_member_def Let_def
  by (intro keeps closed_insert_then closed_members closed_stub) auto

lemma closed_receive: "preserves (closed c M) (receive_federated_dm K now req)"
  unfolding receive_federated_dm_def open_conversation_def store_dm_def insert_dm_message_def send_dm_event_def
  by (intro keeps closed_insert_then closed_members closed_stub preserves_writing preserves_modify closed_frames) auto

lemma closed_send: "preserves (closed c M) (send_dm K me net uuid now user c' req)"
  unfolding send_dm_def store_dm_def insert_dm_message_def send_dm_event_def deliver_to_member_def first_delivery_def
    insert_outbox_def delete_outbox_def update_outbox_def Let_def
  by (intro keeps deliver_keeps preserves_writing preserves_modify closed_frames; assumption)

lemma closed_tick: "preserves (closed c M) (tick K me net now)"
  unfolding tick_def retry_def load_envelope_def delete_outbox_def update_outbox_def
  by (intro keeps deliver_keeps preserves_writing preserves_modify closed_frames; assumption)

lemma closed_others:
  "preserves (closed c M) (put_dm_blocks user pks)" "preserves (closed c M) (send_friend_request now user target hub name)"
  "preserves (closed c M) (accept_friend_request user from_key)" "preserves (closed c M) (remove_friend user target)"
  unfolding put_dm_blocks_def insert_dm_block_def send_friend_request_def accept_friend_request_def remove_friend_def
  by (intro keeps preserves_writing preserves_modify closed_frames; assumption)+

lemma closed_step: "closed c M s \<Longrightarrow> closed c M (dm_step s op)"
  using closed_create closed_receive closed_send closed_tick closed_others
  by (cases op) (simp_all add: preserves_def)


definition demo_member_of :: "string \<Rightarrow> string \<Rightarrow> conversation_member_row" where
  "demo_member_of c pk = \<lparr>cm_conversation = c, cm_key = pk, cm_joined = 1, cm_hub_url = None\<rparr>"

definition demo_dms :: hub where
  "demo_dms = demo_hub\<lparr>conversations := [\<lparr>conv_id = ''d'', conv_type = ''dm'', conv_created = 1\<rparr>],
     conversation_members := [demo_member_of ''d'' demo_owner, demo_member_of ''d'' demo_mod]\<rparr>"

definition demo_server :: peer_server where
  "demo_server = \<lparr>ps_info = NoConnection, ps_challenge = (\<lambda>_. NoConnection), ps_verify = (\<lambda>_ _ _. NoConnection),
     ps_dm = (\<lambda>_ _. NoConnection)\<rparr>"

definition demo_hub_identity :: identity where
  "demo_hub_identity = \<lparr>signing_key = [1], security_nonce = 0, security_level = 0\<rparr>"

definition plain_dm :: "string \<Rightarrow> send_dm_request" where
  "plain_dm x = \<lparr>sdr_content = Some x, sdr_attachments = [], sdr_envelope = None\<rparr>"

definition injected_dm :: federated_dm where
  "injected_dm = \<lparr>fd_message = ''x1'', fd_conversation = ''d'', fd_type = ''dm'', fd_sender = demo_member,
     fd_members = [demo_member], fd_content = Some ''let me in'', fd_attachments = [], fd_signature = None,
     fd_created = 5, fd_envelope = None\<rparr>"


subsection \<open>Blocking\<close>

text \<open>
  A message to a conversation with somebody who blocked the sender is answered like a message
  that was sent, with the sender's own text, and changes nothing at all: no row, no broadcast, no
  delivery, whatever the message holds.
\<close>

theorem blocked_message_vanishes:
  assumes "is_member s c u" "blocked_by_member s u (load_members s c)"
  shows "\<exists>resp. send_dm K me net uuid now u c req s = (Inr (CREATED, resp), s) \<and> dmr_id resp = uuid \<and>
    dmr_sender resp = u \<and> dmr_content resp = sdr_content req \<and> dmr_attachments resp = sdr_attachments req \<and>
    \<not> dmr_delivery_failed resp"
proof -
  from assms(1) have "list_ex (\<lambda>m. cm_key m = u) (load_members s c)" by (auto simp: is_member_def list_ex_iff)
  with assms(2) show ?thesis by (simp add: send_dm_def and_then_def gets_def check_def ret_def)
qed

theorem blocked_message_vanishes_witness:
  "\<exists>resp. send_dm demo_crypto demo_hub_identity (\<lambda>_. demo_server) ''m'' 5 demo_mod ''d'' (plain_dm ''hi'')
       (demo_dms\<lparr>dm_blocks := [\<lparr>blk_owner = demo_owner, blk_blocked = demo_mod\<rparr>]\<rparr>) =
     (Inr (CREATED, resp), demo_dms\<lparr>dm_blocks := [\<lparr>blk_owner = demo_owner, blk_blocked = demo_mod\<rparr>]\<rparr>)"
proof -
  let ?s = "demo_dms\<lparr>dm_blocks := [\<lparr>blk_owner = demo_owner, blk_blocked = demo_mod\<rparr>]\<rparr>"
  have "is_member ?s ''d'' demo_mod" "blocked_by_member ?s demo_mod (load_members ?s ''d'')"
    by (simp_all add: demo_dms_def is_member_def load_members_def demo_member_of_def blocked_by_member_def
        is_dm_blocked_def count_rows_def demo_defs)
  from blocked_message_vanishes [OF this, of demo_crypto demo_hub_identity "\<lambda>_. demo_server" "''m''" 5 "plain_dm ''hi''"] show ?thesis by blast
qed

text \<open>
  The answer still gives the block away to a sender with a display name: a message that is really
  sent carries it, the placeholder does not.
\<close>

lemma wp_anything: "(\<And>x t. Q x t) \<Longrightarrow> (\<And>e t. E e t) \<Longrightarrow> wp m Q E s"
  by (simp add: wp_def split: prod.split sum.split)

lemma sent_message_names_sender:
  assumes "fst (send_dm K me net uuid now u c req s) = Inr (code, resp)"
  shows "dmr_sender_name resp =
    (if blocked_by_member s u (load_members s c) then None else display_name s u)"
proof -
  let ?Q = "\<lambda>r :: status_code \<times> dm_response. \<lambda>t. dmr_sender_name (snd r) =
    (if blocked_by_member s u (load_members s c) then None else display_name s u)"
  have envelope: "wp (check_envelope K pk env) Q E t" if "Q () t" "\<And>e. E e t" for Q E pk env t
    using that by (auto simp: check_envelope_def wps split: sum.split)
  have "wp (send_dm K me net uuid now u c req) ?Q (\<lambda>_ _. True) s"
    unfolding send_dm_def store_dm_def insert_dm_message_def send_dm_event_def
    by (auto simp: wps display_name_def intro!: wp_anything [of _ _ "for_each _ _"] envelope split: option.split sum.split)
  with assms show ?thesis by (auto simp: wp_def split: prod.splits sum.splits)
qed

text \<open>No encrypted message is ever stored: its row has no \<^verbatim>\<open>content\<close>, which the schema demands.\<close>

lemma encrypted_dm_is_never_stored:
  assumes "sdr_envelope req = Some env"
  shows "dm_messages (snd (send_dm K me net uuid now u c req s)) = dm_messages s \<and>
    (is_member s c u \<and> \<not> blocked_by_member s u (load_members s c) \<longrightarrow> (\<exists>e. fst (send_dm K me net uuid now u c req s) = Inl e))"
proof -
  let ?Q = "\<lambda>r :: status_code \<times> dm_response. \<lambda>t. dm_messages t = dm_messages s \<and> blocked_by_member s u (load_members s c)"
  have envelope: "wp (check_envelope K pk env) Q E t" if "Q () t" "\<And>e. E e t" for Q E pk env t
    using that by (auto simp: check_envelope_def wps split: sum.split)
  have "wp (send_dm K me net uuid now u c req) ?Q (\<lambda>_ t. dm_messages t = dm_messages s) s"
    unfolding send_dm_def store_dm_def insert_dm_message_def send_dm_event_def
    by (auto simp: wps assms stored_dm_def intro!: envelope split: option.split sum.split)
  then show ?thesis by (auto simp: wp_def split: prod.splits sum.splits)
qed

subsection \<open>Federated deliveries\<close>

lemma stored_then_seen:
  assumes "fst (receive_federated_dm K now req s) = Inr code"
  shows "code = OK \<and> (exists_row (\<lambda>m. dm_id m = fd_message req) (dm_messages (snd (receive_federated_dm K now req s))) \<or>
    snd (receive_federated_dm K now req s) = s \<and>
      list_ex (\<lambda>pk. pk \<noteq> fd_sender req \<and> is_dm_blocked s pk (fd_sender req)) (fd_members req))"
proof -
  let ?seen = "\<lambda>t. exists_row (\<lambda>m. dm_id m = fd_message req) (dm_messages t)"
  let ?Q = "\<lambda>r t. r = OK \<and> (?seen t \<or> t = s \<and>
      list_ex (\<lambda>pk. pk \<noteq> fd_sender req \<and> is_dm_blocked s pk (fd_sender req)) (fd_members req))"
  have store: "wp (and_then (store_dm (stored_dm (fd_message req) (fd_conversation req) (fd_sender req) (fd_attachments req)
      (fd_signature req) (fd_created req) (fd_envelope req)) (fd_content req)) (\<lambda>_.
      and_then (gets (\<lambda>s. display_name s (fd_sender req))) (\<lambda>name. and_then (send_dm_event (e name)) (\<lambda>_. ret OK))))
      Q (\<lambda>_ _. True) t" if "\<And>u. ?seen u \<Longrightarrow> Q OK u" for e Q t
    by (auto simp: store_dm_def insert_dm_message_def stored_dm_def send_dm_event_def wps ok_iffs exists_row_iff
        intro!: that split: option.split sum.split)
  have step: "wp (and_then m k) Q (\<lambda>_ _. True) t" if "\<And>x t. wp (k x) Q (\<lambda>_ _. True) t"
    for m :: "unit hub_handler" and k :: "unit \<Rightarrow> status_code hub_handler" and Q t
    unfolding wp_and_then by (rule wp_anything) (simp_all add: that)
  have "wp (receive_federated_dm K now req) ?Q (\<lambda>_ _. True) s"
    unfolding receive_federated_dm_def
    by (auto simp: wp_and_then [of "gets _"] wp_gets wp_ret intro!: step store)
  with assms show ?thesis by (auto simp: wp_def split: prod.splits sum.splits)
qed

text \<open>
  A delivery from another hub can be repeated: once it has been answered with success, the same
  message id is answered with success again and changes nothing, so a retry never doubles a
  message or its broadcast.
\<close>

theorem federated_delivery_is_idempotent:
  assumes "fst (receive_federated_dm K now req s) = Inr code"
  shows "receive_federated_dm K later req (snd (receive_federated_dm K now req s)) =
    (Inr OK, snd (receive_federated_dm K now req s))"
  using stored_then_seen [OF assms]
  by (auto simp: receive_federated_dm_def and_then_def gets_def ret_def)

theorem federated_delivery_is_idempotent_witness:
  "receive_federated_dm demo_crypto 9 injected_dm (snd (receive_federated_dm demo_crypto 5 injected_dm demo_dms)) =
     (Inr OK, snd (receive_federated_dm demo_crypto 5 injected_dm demo_dms)) \<and>
   map dm_sender (dm_messages (snd (receive_federated_dm demo_crypto 5 injected_dm demo_dms))) = [demo_member]"
proof -
  have run: "fst (receive_federated_dm demo_crypto 5 injected_dm demo_dms) = Inr OK \<and>
      map dm_sender (dm_messages (snd (receive_federated_dm demo_crypto 5 injected_dm demo_dms))) = [demo_member]"
    by (simp add: receive_federated_dm_def injected_dm_def demo_dms_def demo_defs conversation_exists_def
        ensure_user_stub_def insert_or_ignore_user_def store_dm_def insert_dm_message_def stored_dm_def send_dm_event_def
        run_simps same_key_def new_user_def)
  with federated_delivery_is_idempotent [of demo_crypto 5 injected_dm demo_dms OK 9] show ?thesis by simp
qed

text \<open>
  Nothing ties the sender to the caller: whoever may call the endpoint puts a plain message of
  anybody into any conversation whose id they know, although the named sender is not in it.
\<close>

lemma federated_dm_can_be_forged:
  assumes "conversation_exists s c" "\<not> exists_row (\<lambda>m. dm_id m = i) (dm_messages s)"
    and "req = \<lparr>fd_message = i, fd_conversation = c, fd_type = ty, fd_sender = victim, fd_members = [],
      fd_content = Some text, fd_attachments = [], fd_signature = None, fd_created = at, fd_envelope = None\<rparr>"
  shows "\<exists>m. dm_messages (snd (receive_federated_dm K now req s)) = dm_messages s @ [m] \<and>
    dm_sender m = victim \<and> dm_conversation m = c \<and> dm_content m = text"
  using assms
  by (auto simp: receive_federated_dm_def ensure_user_stub_def insert_or_ignore_user_def store_dm_def insert_dm_message_def
      stored_dm_def send_dm_event_def run_simps same_key_def conversation_exists_def)

text \<open>
  A conversation makes its members users of the hub, and approved ones: the login of a stranger
  finds the row and leaves its status alone.
\<close>

lemma stub_user_is_approved:
  assumes "row_at user_key pk (users s) = None"
  shows "map_option user_approval (row_at user_key pk (users (snd (ensure_user_stub pk now s)))) = Some ''approved'' \<and>
    map_option user_approval (row_at user_key pk (users (snd (upsert_user pk m ''pending'' later (snd (ensure_user_stub pk now s)))))) =
      Some ''approved''"
proof -
  have fresh: "\<not> exists_row (same_key user_key (new_user pk now ''approved'' None)) (users s)"
    using assms by (auto simp: row_at_None_iff exists_row_iff same_key_def new_user_def)
  then have stub: "snd (ensure_user_stub pk now s) = s\<lparr>users := users s @ [new_user pk now ''approved'' None]\<rparr>"
    by (simp add: ensure_user_stub_def insert_or_ignore_user_def writing_def exec_def insert_or_ignore_def)
  have "\<exists>u. upsert (same_key user_key) True (new_user pk later ''pending'' m) f (users s @ [new_user pk now ''approved'' None]) = Inr u"
    for f by (simp add: upsert_def)
  then show ?thesis
    using assms unfolding stub upsert_user_def
    by (auto simp: writing_def exec_def row_at_append row_at_single new_user_def split: sum.split
        dest!: row_at_upsert [rotated, where k = pk])
qed

end
