(* ===== verification/Outbox.thy ===== *)
theory Outbox
  imports Dms
begin

text \<open>
  The delivery queue of direct messages to other hubs: the rows \<^verbatim>\<open>send_dm\<close> puts into \<^verbatim>\<open>dm_outbox\<close>
  (\<^verbatim>\<open>hub/src/routes/dms.rs\<close>) and the worker that retries them (\<^verbatim>\<open>hub/src/dm_worker.rs\<close>), over any sequence of
  direct-message requests.

  Main results: a message the other hub does not accept stays queued, and eight passes of the
  worker, a day apart, leave nothing pending: every row is delivered and gone, or bounced and shown
  as failed to the sender.
\<close>

subsection \<open>The queue is well formed\<close>

definition outbox_row_ok :: "outbox_row \<Rightarrow> bool" where
  "outbox_row_ok r \<longleftrightarrow> 0 \<le> out_attempts r \<and> (if out_bounced r = None then out_attempts r \<le> 7 else out_attempts r = 8)"

definition outbox_ok :: "hub \<Rightarrow> bool" where
  "outbox_ok s \<longleftrightarrow> keyed outbox_key (dm_outbox s) \<and> (\<forall>r \<in> set (dm_outbox s). outbox_row_ok r) \<and>
     (\<forall>r \<in> set (dm_outbox s). out_message r \<in> dm_id ` set (dm_messages s)) \<and>
     (\<forall>m \<in> set (dm_messages s). conversation_exists s (dm_conversation m))"

lemma outbox_ok_frames:
  "outbox_ok s \<Longrightarrow> outbox_ok (s\<lparr>users := x1\<rparr>)" "outbox_ok s \<Longrightarrow> outbox_ok (s\<lparr>conversation_members := x2\<rparr>)"
  "outbox_ok s \<Longrightarrow> outbox_ok (s\<lparr>dm_tx := x4\<rparr>)" "outbox_ok s \<Longrightarrow> outbox_ok (s\<lparr>peers := x5\<rparr>)"
  "outbox_ok s \<Longrightarrow> outbox_ok (s\<lparr>peer_tokens := x6\<rparr>)" "outbox_ok s \<Longrightarrow> outbox_ok (s\<lparr>dm_blocks := x7\<rparr>)"
  "outbox_ok s \<Longrightarrow> outbox_ok (s\<lparr>friends := x8\<rparr>)"
  by (simp_all add: outbox_ok_def conversation_exists_def)

lemma after_failure_key [simp]: "outbox_key (after_failure now k e r) = outbox_key r"
  by (simp add: after_failure_def outbox_key_def)

lemma after_failure_message [simp]: "out_message (after_failure now k e r) = out_message r"
  by (simp add: after_failure_def)

lemma after_failure_ok: "outbox_row_ok r \<Longrightarrow> out_bounced r = None \<Longrightarrow> outbox_row_ok (after_failure now (out_attempts r) e r)"
  by (auto simp: outbox_row_ok_def after_failure_def BACKOFF_SECS_def)

subsection \<open>One pass of the worker\<close>

text \<open>How one attempt ends: the row is deleted, or its failure is noted.\<close>

definition settle :: "int \<Rightarrow> outbox_row \<Rightarrow> string option \<Rightarrow> outbox_row list \<Rightarrow> outbox_row list" where
  "settle now row failure rs =
     (case failure of None \<Rightarrow> delete_where (\<lambda>r. outbox_key r = outbox_key row) rs
      | Some e \<Rightarrow> update_where (\<lambda>r. outbox_key r = outbox_key row) (after_failure now (out_attempts row) e) rs)"

definition dm_tables :: "hub \<Rightarrow> dm_message_row list \<times> conversation_row list \<times> conversation_member_row list" where
  "dm_tables s = (dm_messages s, conversations s, conversation_members s)"

lemma deliver_outcome:
  "\<exists>r t. deliver_federated_dm K me net now url d s = (Inr r, t) \<and> dm_outbox t = dm_outbox s \<and>
    dm_tables t = dm_tables s \<and> (r = Inr () \<longrightarrow> (\<exists>token st. ps_dm (net url) token d = Body (True, st)))"
proof -
  have keep: "preserves (\<lambda>t. dm_outbox t = dm_outbox s \<and> dm_tables t = dm_tables s) (deliver_federated_dm K me net now url d)"
    by (rule deliver_keeps) (simp_all add: dm_tables_def)
  have "wp (deliver_federated_dm K me net now url d)
    (\<lambda>r t. r = Inr () \<longrightarrow> (\<exists>t st. ps_dm (net url) t d = Body (True, st))) (\<lambda>_ _. False) s"
    unfolding deliver_federated_dm_def peer_token_def
    by (auto simp: wps split: sum.splits option.splits http.splits prod.splits if_splits)
  moreover obtain r t where run: "deliver_federated_dm K me net now url d s = (r, t)" by fastforce
  ultimately obtain r' where "r = Inr r'" "r' = Inr () \<longrightarrow> (\<exists>t st. ps_dm (net url) t d = Body (True, st))"
    by (cases r) (auto simp: wp_def)
  moreover from keep have "dm_outbox t = dm_outbox s \<and> dm_tables t = dm_tables s"
    by (rule preservesD) (use run in auto)
  ultimately show ?thesis using run by auto
qed

definition accepts :: "peer_server \<Rightarrow> bool" where
  "accepts p \<longleftrightarrow> (\<exists>token d st. ps_dm p token d = Body (True, st))"

lemma load_envelope_outcome:
  assumes "outbox_ok s"
  shows "\<exists>d. load_envelope i s = (Inr d, s) \<and> (d = None \<longleftrightarrow> i \<notin> dm_id ` set (dm_messages s))"
proof (cases "row_at dm_id i (dm_messages s)")
  case None
  moreover from this have "i \<notin> dm_id ` set (dm_messages s)" by (auto simp: row_at_None_iff)
  ultimately show ?thesis by (simp add: load_envelope_def and_then_def gets_def ret_def)
next
  case (Some m)
  then have m: "m \<in> set (dm_messages s)" "dm_id m = i" by (auto dest: row_at_key)
  with assms have "conversation_exists s (dm_conversation m)" by (simp add: outbox_ok_def)
  then obtain c where "row_at conv_id (dm_conversation m) (conversations s) = Some c"
    by (cases "row_at conv_id (dm_conversation m) (conversations s)")
       (auto simp: row_at_None_iff conversation_exists_def exists_row_iff)
  with Some m show ?thesis by (auto simp: load_envelope_def and_then_def gets_def ok_or_def ret_def)
qed

lemma retry_outcome:
  assumes "outbox_ok s"
  shows "\<exists>failure t. retry K me net now row s = (Inr (), t) \<and> dm_tables t = dm_tables s \<and>
    dm_outbox t = settle now row failure (dm_outbox s) \<and>
    (failure = None \<longrightarrow> accepts (net (out_hub_url row)) \<or> out_message row \<notin> dm_id ` set (dm_messages s))"
proof -
  from load_envelope_outcome [OF assms] obtain d where
    d: "load_envelope (out_message row) s = (Inr d, s)" "d = None \<longleftrightarrow> out_message row \<notin> dm_id ` set (dm_messages s)"
    by blast
  have key: "(\<lambda>r. outbox_key r = (out_message row, out_hub_url row)) = (\<lambda>r. outbox_key r = outbox_key row)"
    by (simp add: outbox_key_def)
  show ?thesis
  proof (cases d)
    case None
    with d show ?thesis
      by (intro exI [of _ None] exI [of _ "s\<lparr>dm_outbox := settle now row None (dm_outbox s)\<rparr>"])
         (simp add: retry_def and_then_def delete_outbox_def modify_def settle_def key dm_tables_def)
  next
    case (Some e)
    from deliver_outcome [of K me net now "out_hub_url row" e s] obtain r t where
      r: "deliver_federated_dm K me net now (out_hub_url row) e s = (Inr r, t)" "dm_outbox t = dm_outbox s"
      "dm_tables t = dm_tables s" "r = Inr () \<longrightarrow> accepts (net (out_hub_url row))"
      unfolding accepts_def by blast
    let ?f = "case r of Inl err \<Rightarrow> Some err | Inr _ \<Rightarrow> None"
    show ?thesis
      by (intro exI [of _ ?f] exI [of _ "t\<lparr>dm_outbox := settle now row ?f (dm_outbox s)\<rparr>"])
         (use d r Some in \<open>auto simp: retry_def and_then_def delete_outbox_def update_outbox_def modify_def settle_def key
            dm_tables_def split: sum.splits\<close>)
  qed
qed

lemma settle_ok:
  assumes "outbox_ok s" "row \<in> set (dm_outbox s)" "out_bounced row = None"
    and "dm_tables t = dm_tables s" "dm_outbox t = settle now row failure (dm_outbox s)"
  shows "outbox_ok t"
proof -
  have same: "r = row" if "r \<in> set (dm_outbox s)" "outbox_key r = outbox_key row" for r
    using keyed_unique [of outbox_key "dm_outbox s" r row] assms(1,2) that by (simp add: outbox_ok_def)
  have "keyed outbox_key (settle now row failure (dm_outbox s))"
    using assms(1) by (auto simp: outbox_ok_def settle_def keyed_delete_where keyed_update_where split: option.split)
  moreover have "outbox_row_ok r" "out_message r \<in> dm_id ` set (dm_messages s)"
    if "r \<in> set (settle now row failure (dm_outbox s))" for r
    using that assms(1,2,3)
    by (auto simp: settle_def rows outbox_ok_def after_failure_ok dest: same split: option.splits if_splits)
  ultimately show ?thesis
    using assms(1,4,5) by (auto simp: outbox_ok_def dm_tables_def conversation_exists_def)
qed

text \<open>
  What a pass over some of the rows leaves: a row it did not touch, or the row with its failure
  noted.
\<close>

definition leftover :: "int \<Rightarrow> outbox_row list \<Rightarrow> hub \<Rightarrow> outbox_row \<Rightarrow> bool" where
  "leftover now due s r \<longleftrightarrow> r \<in> set (dm_outbox s) \<and> outbox_key r \<notin> outbox_key ` set due \<or>
     (\<exists>row e. row \<in> set due \<and> row \<in> set (dm_outbox s) \<and> r = after_failure now (out_attempts row) e row)"

lemma pass_outcome:
  assumes "outbox_ok s" "keyed outbox_key due" "\<forall>r \<in> set due. r \<in> set (dm_outbox s) \<and> out_bounced r = None"
  shows "\<exists>t. for_each (retry K me net now) due s = (Inr (), t) \<and> outbox_ok t \<and> dm_tables t = dm_tables s \<and>
    (\<forall>r \<in> set (dm_outbox t). leftover now due s r)"
  using assms
proof (induction due arbitrary: s)
  case Nil
  then show ?case by (auto simp: ret_def leftover_def)
next
  case (Cons row due)
  from retry_outcome [OF Cons.prems(1)] obtain failure t where
    t: "retry K me net now row s = (Inr (), t)" "dm_tables t = dm_tables s" "dm_outbox t = settle now row failure (dm_outbox s)"
    by blast
  have row: "row \<in> set (dm_outbox s)" "out_bounced row = None" using Cons.prems(3) by auto
  have other: "outbox_key r \<noteq> outbox_key row" if "r \<in> set due" for r
    using Cons.prems(2) that by (auto simp: keyed_def image_iff)
  have unique: "r = row" if "r \<in> set (dm_outbox s)" "outbox_key r = outbox_key row" for r
    using keyed_unique [of outbox_key "dm_outbox s" r row] Cons.prems(1) row that by (simp add: outbox_ok_def)
  have "outbox_ok t" by (rule settle_ok [OF Cons.prems(1) row t(2,3)])
  moreover have "keyed outbox_key due" using Cons.prems(2) by (simp add: keyed_def)
  moreover have "\<forall>r \<in> set due. r \<in> set (dm_outbox t) \<and> out_bounced r = None"
    using Cons.prems(3) other by (auto simp: t(3) settle_def rows split: option.split)
  ultimately obtain u where u: "for_each (retry K me net now) due t = (Inr (), u)" "outbox_ok u" "dm_tables u = dm_tables t"
      "\<forall>r \<in> set (dm_outbox u). leftover now due t r"
    using Cons.IH [of t] by blast
  have "leftover now (row # due) s r" if "leftover now due t r" for r
  proof -
    have "r \<in> set (dm_outbox s) \<and> outbox_key r \<noteq> outbox_key row \<or>
        (\<exists>e. r = after_failure now (out_attempts row) e row)" if "r \<in> set (dm_outbox t)" for r
      using that unique by (auto simp: t(3) settle_def rows split: option.splits)
    with that other row show ?thesis unfolding leftover_def by fastforce
  qed
  with t(1,2) u show ?case by (auto simp: and_then_def)
qed

definition pending :: "hub \<Rightarrow> outbox_row list" where
  "pending s = filter (\<lambda>r. out_bounced r = None) (dm_outbox s)"

lemma backoff_within_a_day: "k < length BACKOFF_SECS \<Longrightarrow> BACKOFF_SECS ! k \<le> 86400"
  by (auto simp: BACKOFF_SECS_def less_Suc_eq numeral_eq_Suc)

lemma keyed_subset_length:
  assumes "keyed key xs" "keyed key ys" "key ` set xs \<subseteq> key ` set ys"
  shows "length xs \<le> length ys"
proof -
  have "length xs = card (key ` set xs)" "length ys = card (key ` set ys)"
    using assms(1,2) by (metis distinct_card keyed_def length_map list.set_map)+
  with assms(3) show ?thesis by (simp add: card_mono)
qed

lemma due_rows_ok:
  assumes "outbox_ok s"
  shows "keyed outbox_key (due_rows now s) \<and> (\<forall>r \<in> set (due_rows now s). r \<in> set (dm_outbox s) \<and> out_bounced r = None)"
proof
  show "keyed outbox_key (due_rows now s)"
    using assms by (auto simp: due_rows_def outbox_ok_def keyed_def take_map [symmetric] intro!: distinct_take)
       (metis distinct_map_filter)
  show "\<forall>r \<in> set (due_rows now s). r \<in> set (dm_outbox s) \<and> out_bounced r = None"
    by (auto simp: due_rows_def dest: in_set_takeD)
qed

lemma tick_outcome:
  assumes "outbox_ok s"
  shows "\<exists>t. tick K me net now s = (Inr (), t) \<and> outbox_ok t \<and> dm_tables t = dm_tables s \<and>
    (\<forall>r \<in> set (dm_outbox t). leftover now (due_rows now s) s r)"
  using pass_outcome [OF assms] due_rows_ok [OF assms] by (simp add: tick_def and_then_def gets_def)

lemma tick_progress:
  assumes "outbox_ok s" "length (pending s) \<le> 100" "\<forall>r \<in> set (pending s). out_next_attempt r \<le> now"
    and "tick K me net now s = (x, t)"
  shows "outbox_ok t \<and> length (pending t) \<le> length (pending s) \<and>
    (\<forall>r \<in> set (pending t). out_next_attempt r \<le> now + 86400 \<and> (\<exists>q \<in> set (pending s). out_attempts r = out_attempts q + 1))"
proof -
  have due: "due_rows now s = pending s"
  proof -
    have "filter (\<lambda>r. out_bounced r = None \<and> out_next_attempt r \<le> now) (dm_outbox s) = pending s"
      using assms(3) by (auto simp: pending_def intro: filter_cong)
    with assms(2) show ?thesis by (simp add: due_rows_def)
  qed
  from tick_outcome [OF assms(1), of K me net now] assms(4) have
    t: "outbox_ok t" "\<forall>r \<in> set (dm_outbox t). leftover now (pending s) s r" by (auto simp: due)
  have step: "\<exists>q e. q \<in> set (pending s) \<and> r = after_failure now (out_attempts q) e q" if "r \<in> set (pending t)" for r
  proof -
    have r: "r \<in> set (dm_outbox t)" "out_bounced r = None" using that by (auto simp: pending_def)
    with t(2) have "leftover now (pending s) s r" by blast
    moreover have "\<not> (r \<in> set (dm_outbox s) \<and> outbox_key r \<notin> outbox_key ` set (pending s))"
      using r(2) by (auto simp: pending_def)
    ultimately show ?thesis unfolding leftover_def by blast
  qed
  have "outbox_key ` set (pending t) \<subseteq> outbox_key ` set (pending s)"
    by (auto dest!: step)
  then have "length (pending t) \<le> length (pending s)"
    using assms(1) t(1) by (intro keyed_subset_length) (auto simp: pending_def outbox_ok_def)
  moreover have "out_next_attempt r \<le> now + 86400 \<and> (\<exists>q \<in> set (pending s). out_attempts r = out_attempts q + 1)"
    if r: "r \<in> set (pending t)" for r
  proof -
    from step [OF r] obtain q e where q: "q \<in> set (pending s)" "r = after_failure now (out_attempts q) e q" by blast
    have "out_bounced r = None" using r by (simp add: pending_def)
    with q have "out_attempts r = out_attempts q + 1" "out_next_attempt r \<le> now + 86400"
      by (auto simp: after_failure_def backoff_within_a_day split: if_splits)
    with q(1) show ?thesis by blast
  qed
  ultimately show ?thesis using t(1) by blast
qed

subsection \<open>The queue drains\<close>

text \<open>Passes at these times, the first not before \<open>t\<close> and each a day or more after the one before.\<close>

fun spaced :: "int \<Rightarrow> int list \<Rightarrow> bool" where
  "spaced t [] = True"
| "spaced t (x # xs) = (t \<le> x \<and> spaced (x + 86400) xs)"

lemma passes_drain:
  assumes "outbox_ok s" "length (pending s) \<le> 100" "\<forall>r \<in> set (pending s). out_next_attempt r \<le> t"
    and "\<forall>r \<in> set (pending s). 8 \<le> out_attempts r + int (length passes)" "spaced t (map snd passes)"
  shows "outbox_ok (run dm_step s (map (\<lambda>(net, now). Tick K me net now) passes)) \<and>
    pending (run dm_step s (map (\<lambda>(net, now). Tick K me net now) passes)) = []"
  using assms
proof (induction passes arbitrary: s t)
  case Nil
  have "r \<notin> set (pending s)" for r
  proof
    assume r: "r \<in> set (pending s)"
    then have "outbox_row_ok r" "out_bounced r = None" using Nil.prems(1) by (auto simp: pending_def outbox_ok_def)
    with r Nil.prems(4) show False by (fastforce simp: outbox_row_ok_def)
  qed
  then have "pending s = []" by (metis list.set_sel(1))
  with Nil show ?case by simp
next
  case (Cons p passes)
  obtain net now where p: "p = (net, now)" by fastforce
  let ?u = "snd (tick K me net now s)"
  have due: "\<forall>r \<in> set (pending s). out_next_attempt r \<le> now" using Cons.prems(3,5) p by force
  have u: "outbox_ok ?u" "length (pending ?u) \<le> length (pending s)"
    "\<forall>r \<in> set (pending ?u). out_next_attempt r \<le> now + 86400 \<and> (\<exists>q \<in> set (pending s). out_attempts r = out_attempts q + 1)"
    using tick_progress [OF Cons.prems(1,2) due, of K me net "fst (tick K me net now s)" ?u] by auto
  moreover have "\<forall>r \<in> set (pending ?u). 8 \<le> out_attempts r + int (length passes)"
    using u(3) Cons.prems(4) by fastforce
  ultimately show ?case
    using Cons.IH [of ?u "now + 86400"] Cons.prems(2,5) p by auto
qed

subsection \<open>Every request keeps the queue well formed\<close>

lemma outbox_ok_conversation: "preserves outbox_ok (insert_conversation r)"
  unfolding insert_conversation_def
  by (rule preserves_writing) (auto simp: ok_iffs outbox_ok_def conversation_exists_def exists_row_iff)

lemma outbox_ok_stub: "preserves outbox_ok (ensure_user_stub pk now)"
  unfolding ensure_user_stub_def insert_or_ignore_user_def by (intro preserves_writing outbox_ok_frames)

lemma outbox_ok_members: "preserves outbox_ok (insert_member m)" "preserves outbox_ok (insert_or_ignore_member m)"
  unfolding insert_member_def insert_or_ignore_member_def by (intro preserves_writing outbox_ok_frames; assumption)+

lemma outbox_ok_create: "preserves outbox_ok (create_conversation uuid now user members hubs)"
  unfolding create_conversation_def add_member_def Let_def
  by (intro keeps outbox_ok_conversation outbox_ok_members outbox_ok_stub)

text \<open>A message is stored once its conversation is known to exist.\<close>

definition conv_ready :: "string \<Rightarrow> hub \<Rightarrow> bool" where
  "conv_ready c s \<longleftrightarrow> outbox_ok s \<and> conversation_exists s c"

lemma conv_ready_store:
  assumes "dm_conversation m = c"
  shows "preserves (conv_ready c) (store_dm m content)"
  unfolding store_dm_def insert_dm_message_def
  by (rule preserves_writing)
     (use assms in \<open>auto simp: ok_iffs conv_ready_def outbox_ok_def conversation_exists_def split: option.splits\<close>)

lemma conv_ready_stub: "preserves (conv_ready c) (ensure_user_stub pk now)"
  unfolding ensure_user_stub_def insert_or_ignore_user_def
  by (rule preserves_writing) (auto simp: conv_ready_def outbox_ok_frames conversation_exists_def)

lemma conv_ready_event: "preserves (conv_ready c) (send_dm_event e)"
  unfolding send_dm_event_def by (rule preserves_modify) (auto simp: conv_ready_def outbox_ok_frames conversation_exists_def)

lemma conv_ready_open: "wp (open_conversation req) (\<lambda>_. conv_ready (fd_conversation req)) (\<lambda>_. outbox_ok) s" if "outbox_ok s"
proof -
  have loop: "preserves (conv_ready (fd_conversation req)) (for_each (\<lambda>pk. and_then (ensure_user_stub pk (fd_created req))
      (\<lambda>_. insert_or_ignore_member (f pk))) pks)" for f pks
    unfolding insert_or_ignore_member_def
    by (intro keeps conv_ready_stub preserves_writing) (auto simp: conv_ready_def outbox_ok_frames conversation_exists_def)
  have "wp (insert_conversation r) (\<lambda>_. conv_ready (conv_id r)) (\<lambda>_. outbox_ok) s" for r
    using that preserves_wp [OF outbox_ok_conversation that, of r]
    by (auto simp: wp_def insert_conversation_def ok_iffs conv_ready_def conversation_exists_def exists_row_iff split: prod.splits sum.splits)
  then show ?thesis
    unfolding open_conversation_def wp_and_then
    by (rule wp_mono) (auto intro: wp_mono [OF preserves_wp [OF loop]] simp: conv_ready_def)
qed

lemma outbox_ok_receive: "preserves outbox_ok (receive_federated_dm K now req)"
proof -
  let ?c = "fd_conversation req"
  have rest: "preserves (conv_ready ?c) (and_then (ensure_user_stub (fd_sender req) (fd_created req)) (\<lambda>_.
     and_then (case fd_envelope req of None \<Rightarrow> ret () | Some env \<Rightarrow> check_envelope K (fd_sender req) env) (\<lambda>_.
     and_then (store_dm (stored_dm (fd_message req) ?c (fd_sender req) (fd_attachments req)
         (fd_signature req) (fd_created req) (fd_envelope req)) (fd_content req)) (\<lambda>_.
     and_then (gets (\<lambda>s. display_name s (fd_sender req))) (\<lambda>sender_name.
     and_then (send_dm_event (e sender_name)) (\<lambda>_. ret OK))))))" for e
    by (intro keeps conv_ready_stub conv_ready_store conv_ready_event) (simp add: stored_dm_def)
  show ?thesis
    unfolding receive_federated_dm_def
    by (rule preserves_if_wp)
       (auto simp: wp_and_then [of "gets _"] wp_and_then [of "if _ then _ else _"] wp_gets wp_ret wp_if
          intro!: wp_mono [OF conv_ready_open] wp_mono [OF preserves_wp [OF rest]] simp: conv_ready_def)
qed

text \<open>While a fresh message is sent, none of its rows has bounced.\<close>

definition sending :: "string \<Rightarrow> hub \<Rightarrow> bool" where
  "sending i s \<longleftrightarrow> outbox_ok s \<and> (\<forall>r \<in> set (dm_outbox s). out_message r = i \<longrightarrow> out_bounced r = None)"

lemma sending_frames:
  "sending i s \<Longrightarrow> sending i (s\<lparr>dm_tx := x4\<rparr>)" "sending i s \<Longrightarrow> sending i (s\<lparr>peers := x5\<rparr>)"
  "sending i s \<Longrightarrow> sending i (s\<lparr>peer_tokens := x6\<rparr>)"
  by (simp_all add: sending_def outbox_ok_frames)

lemma sending_store:
  assumes "conv_ready c s" "dm_conversation m = c"
  shows "wp (store_dm m content) (\<lambda>_. sending (dm_id m)) (\<lambda>_. outbox_ok) s"
  using assms
  by (auto simp: store_dm_def insert_dm_message_def wps ok_iffs sending_def conv_ready_def outbox_ok_def conversation_exists_def
      exists_row_iff same_key_def split: sum.split option.split)

lemma sending_first_delivery: "preserves (sending (fd_message d)) (first_delivery K me net now d url)"
proof -
  have ins: "preserves (sending (fd_message d)) (insert_outbox (new_outbox (fd_message d) url now))"
    unfolding insert_outbox_def
    by (rule preserves_writing)
       (auto simp: ok_iffs sending_def outbox_ok_def new_outbox_def outbox_row_ok_def keyed_snoc exists_row_iff same_key_def
          conversation_exists_def intro: rev_image_eqI split: if_splits)
  have del: "preserves (sending (fd_message d)) (delete_outbox (fd_message d) url)"
    unfolding delete_outbox_def
    by (rule preserves_modify) (auto simp: sending_def outbox_ok_def rows keyed_delete_where conversation_exists_def)
  have upd: "preserves (sending (fd_message d)) (update_outbox (fd_message d) url
      (\<lambda>r. r\<lparr>out_attempts := 1, out_next_attempt := now + 10, out_last_error := Some e\<rparr>))" for e
    unfolding update_outbox_def
    by (rule preserves_modify)
       (auto simp: sending_def outbox_ok_def rows outbox_row_ok_def outbox_key_def conversation_exists_def
          intro!: keyed_update_where, metis)
  show ?thesis
    unfolding first_delivery_def by (intro keeps ins del upd deliver_keeps sending_frames; assumption)
qed

lemma outbox_ok_send: "preserves outbox_ok (send_dm K me net uuid now user c req)"
proof -
  have event: "preserves (sending uuid) (send_dm_event e)" for e
    unfolding send_dm_event_def by (intro preserves_modify sending_frames)
  have deliver: "preserves (sending uuid) (for_each (deliver_to_member K me net now d) ms)" if "fd_message d = uuid" for d ms
    unfolding deliver_to_member_def using sending_first_delivery [of d] that by (intro keeps) auto
  have rest: "preserves (sending uuid) (and_then (gets f) (\<lambda>name. and_then (send_dm_event (e name)) (\<lambda>_.
      and_then (for_each (deliver_to_member K me net now d) ms) (\<lambda>_. ret (g name)))))"
    if "fd_message d = uuid" for f e d ms and g :: "string option \<Rightarrow> status_code \<times> dm_response"
    by (intro keeps event deliver that)
  have store: "wp (and_then (store_dm (stored_dm uuid c user atts None now env) content) (\<lambda>_.
      and_then (gets f) (\<lambda>name. and_then (send_dm_event (e name)) (\<lambda>_.
      and_then (for_each (deliver_to_member K me net now d) ms) (\<lambda>_. ret (g name))))))
      (\<lambda>_. outbox_ok) (\<lambda>_. outbox_ok) s"
    if "conv_ready c s" "fd_message d = uuid" for s atts env content f e d ms and g :: "string option \<Rightarrow> status_code \<times> dm_response"
    unfolding wp_and_then [of "store_dm _ _"]
    by (rule wp_mono [OF sending_store [OF that(1)]])
       (auto simp: stored_dm_def sending_def intro!: wp_mono [OF preserves_wp [OF rest]] that)
  have envelope: "wp (and_then (check_envelope K pk env) k) Q E t" if "wp (k ()) Q E t" "\<And>e. E e t"
    for pk env k t and Q :: "status_code \<times> dm_response \<Rightarrow> hub \<Rightarrow> bool" and E
    using that by (auto simp: check_envelope_def wps split: sum.split)
  have known: "conversation_exists t c" if "row_at conv_id c (conversations t) = Some x" for x t
    using row_at_key [OF that] by (auto simp: conversation_exists_def exists_row_iff)
  show ?thesis
    unfolding send_dm_def
    by (rule preserves_if_wp)
       (auto simp: wp_and_then [of "gets _"] wp_and_then [of "check _ _"] wp_and_then [of "ok_or _ _"] wp_and_then [of "lift _"]
          wp_and_then [of "ret _"] wp_gets wp_check wp_ok_or wp_lift wp_ret conv_ready_def
          intro: known intro!: envelope store split: option.split sum.split)
qed

lemma outbox_ok_others:
  "preserves outbox_ok (put_dm_blocks user pks)" "preserves outbox_ok (send_friend_request now user target hub name)"
  "preserves outbox_ok (accept_friend_request user from_key)" "preserves outbox_ok (remove_friend user target)"
  unfolding put_dm_blocks_def insert_dm_block_def send_friend_request_def accept_friend_request_def remove_friend_def
  by (intro keeps preserves_writing preserves_modify outbox_ok_frames; assumption)+

lemma outbox_ok_tick: "preserves outbox_ok (tick K me net now)"
  unfolding preserves_def using tick_outcome by (metis snd_conv)

lemma outbox_ok_step: "outbox_ok s \<Longrightarrow> outbox_ok (dm_step s op)"
  using outbox_ok_create outbox_ok_receive outbox_ok_send outbox_ok_tick outbox_ok_others
  by (cases op) (simp_all add: preserves_def)

subsection \<open>An unaccepted message stays queued\<close>

definition queued :: "string \<Rightarrow> string \<Rightarrow> hub \<Rightarrow> bool" where
  "queued i url s \<longleftrightarrow> exists_row (\<lambda>r. outbox_key r = (i, url)) (dm_outbox s)"

text \<open>The worker's passes find no acceptance at \<open>url\<close>; nothing is asked of any other request.\<close>

fun refused :: "string \<Rightarrow> dm_op \<Rightarrow> bool" where
  "refused url (Tick K me net now) = (\<not> accepts (net url))"
| "refused url _ = True"

lemma queued_message: "outbox_ok s \<Longrightarrow> queued i url s \<Longrightarrow> i \<in> dm_id ` set (dm_messages s)"
  by (auto simp: outbox_ok_def queued_def exists_row_iff outbox_key_def)

lemma queued_frames:
  "queued i url s \<Longrightarrow> queued i url (s\<lparr>users := x1\<rparr>)" "queued i url s \<Longrightarrow> queued i url (s\<lparr>conversation_members := x2\<rparr>)"
  "queued i url s \<Longrightarrow> queued i url (s\<lparr>conversations := x3\<rparr>)" "queued i url s \<Longrightarrow> queued i url (s\<lparr>dm_tx := x4\<rparr>)"
  "queued i url s \<Longrightarrow> queued i url (s\<lparr>peers := x5\<rparr>)" "queued i url s \<Longrightarrow> queued i url (s\<lparr>peer_tokens := x6\<rparr>)"
  "queued i url s \<Longrightarrow> queued i url (s\<lparr>dm_blocks := x7\<rparr>)" "queued i url s \<Longrightarrow> queued i url (s\<lparr>friends := x8\<rparr>)"
  "queued i url s \<Longrightarrow> queued i url (s\<lparr>dm_messages := x9\<rparr>)"
  by (simp_all add: queued_def)

lemma queued_writes:
  "preserves (queued i url) (insert_conversation cv)" "preserves (queued i url) (insert_member m)"
  "preserves (queued i url) (insert_or_ignore_member m)" "preserves (queued i url) (ensure_user_stub pk now)"
  "preserves (queued i url) (store_dm dm content)" "preserves (queued i url) (send_dm_event e)"
  unfolding insert_conversation_def insert_member_def insert_or_ignore_member_def ensure_user_stub_def
    insert_or_ignore_user_def store_dm_def insert_dm_message_def send_dm_event_def
  by (intro preserves_writing preserves_modify queued_frames; assumption)+

lemma queued_update:
  assumes "queued i url s" "\<And>r. outbox_key (f r) = outbox_key r"
  shows "queued i url (s\<lparr>dm_outbox := update_where P f (dm_outbox s)\<rparr>)"
proof -
  from assms(1) obtain r where r: "r \<in> set (dm_outbox s)" "outbox_key r = (i, url)" by (auto simp: queued_def exists_row_iff)
  then have "(if P r then f r else r) \<in> set (update_where P f (dm_outbox s))"
    "outbox_key (if P r then f r else r) = (i, url)" by (auto simp: rows assms(2))
  then show ?thesis unfolding queued_def exists_row_iff by auto
qed

lemma queued_delete:
  assumes "queued i url s" "k \<noteq> (i, url)"
  shows "queued i url (s\<lparr>dm_outbox := delete_where (\<lambda>r. outbox_key r = k) (dm_outbox s)\<rparr>)"
  using assms by (auto simp: queued_def exists_row_iff rows)

lemma queued_first_delivery:
  assumes "queued i url s \<or> fd_message d = i \<and> url' = url" "fd_message d = i \<longrightarrow> \<not> accepts (net url)"
  shows "wp (first_delivery K me net now d url') (\<lambda>_. queued i url) (\<lambda>_ _. True) s"
proof -
  have keep: "wp (deliver_federated_dm K me net now url' d) (\<lambda>r t. queued i url t \<and> (r = Inr () \<longrightarrow> fd_message d \<noteq> i \<or> url' \<noteq> url))
      (\<lambda>_ _. True) t" if "queued i url t" for t
    using deliver_outcome [of K me net now url' d t] that assms(2) by (auto simp: wp_def queued_def accepts_def)
  have "wp (insert_outbox (new_outbox (fd_message d) url' now)) (\<lambda>_. queued i url) (\<lambda>_ _. True) s"
    using assms(1)
    by (auto simp: insert_outbox_def wps insert_or_ignore_def queued_def exists_row_iff new_outbox_def outbox_key_def
        same_key_def split: sum.split)
  then show ?thesis
    unfolding first_delivery_def wp_and_then
    by (rule wp_mono)
       (auto intro!: wp_mono [OF keep] queued_update queued_delete split: sum.splits
          simp: delete_outbox_def update_outbox_def wp_modify, simp_all add: outbox_key_def)
qed

lemma queued_deliver_to_member:
  assumes "\<not> accepts (net url)"
    and "queued (fd_message d) url s \<or> cm_key m \<noteq> fd_sender d \<and> url \<in> set (delivery_urls s m)"
  shows "wp (deliver_to_member K me net now d m) (\<lambda>_. queued (fd_message d) url) (\<lambda>_ _. True) s"
proof -
  have "wp (for_each (first_delivery K me net now d) urls) (\<lambda>_. queued (fd_message d) url) (\<lambda>_ _. True) t"
    if "queued (fd_message d) url t \<or> url \<in> set urls" for t urls
    using that
  proof (induction urls arbitrary: t)
    case Nil
    then show ?case by (simp add: wps)
  next
    case (Cons x urls)
    have "wp (first_delivery K me net now d x) (\<lambda>_ u. queued (fd_message d) url u \<or> url \<in> set urls) (\<lambda>_ _. True) t"
    proof (cases "queued (fd_message d) url t \<or> x = url")
      case True
      then show ?thesis by (intro wp_mono [OF queued_first_delivery [of "fd_message d" url t d x net]]) (use assms(1) in auto)
    next
      case False
      with Cons.prems show ?thesis by (intro wp_anything) auto
    qed
    then show ?case unfolding for_each.simps wp_and_then by (rule wp_mono) (auto intro: Cons.IH)
  qed
  with assms(2) show ?thesis by (auto simp: deliver_to_member_def wps)
qed

definition same_addresses :: "hub \<Rightarrow> hub \<Rightarrow> bool" where
  "same_addresses s t \<longleftrightarrow> users t = users s \<and> home_hub_designations t = home_hub_designations s"

lemma same_addresses_simps [simp]:
  "same_addresses s s" "same_addresses s (t\<lparr>dm_tx := x\<rparr>) = same_addresses s t"
  by (simp_all add: same_addresses_def)

lemma sent_is_queued:
  assumes "fst (send_dm K me net uuid now u c req s) = Inr resp" "\<not> blocked_by_member s u (load_members s c)"
    and "m \<in> set (load_members s c)" "cm_key m \<noteq> u" "url \<in> set (delivery_urls s m)" "\<not> accepts (net url)"
  shows "queued uuid url (snd (send_dm K me net uuid now u c req s))"
proof -
  let ?same = "same_addresses s"
  have urls: "delivery_urls t m = delivery_urls s m" if "?same t" for t
    using that unfolding delivery_urls_def same_addresses_def by (elim conjE) (simp only:)
  have same: "preserves ?same (deliver_to_member K me net now d x)" for d x
    unfolding deliver_to_member_def first_delivery_def insert_outbox_def delete_outbox_def update_outbox_def
    by (intro keeps deliver_keeps preserves_writing preserves_modify) (simp_all add: same_addresses_def)
  have loop: "wp (for_each (deliver_to_member K me net now d) ms) (\<lambda>_. queued uuid url) (\<lambda>_ _. True) t"
    if d: "fd_message d = uuid" "fd_sender d = u" and "?same t" "queued uuid url t \<or> m \<in> set ms" for d ms t
    using that(3,4)
  proof (induction ms arbitrary: t)
    case Nil
    then show ?case by (simp add: wps)
  next
    case (Cons x ms)
    have "queued uuid url v \<or> m \<in> set ms" if run: "deliver_to_member K me net now d x t = (Inr y, v)" for y v
    proof (cases "queued uuid url t \<or> x = m")
      case True
      then have "queued (fd_message d) url t \<or> cm_key x \<noteq> fd_sender d \<and> url \<in> set (delivery_urls t x)"
        using d urls [OF Cons.prems(1)] assms(4,5) by auto
      from queued_deliver_to_member [of net url d t x K me now, OF assms(6) this] run d show ?thesis by (auto dest: wp_okD)
    next
      case False
      with Cons.prems(2) show ?thesis by auto
    qed
    moreover have "?same v" if "deliver_to_member K me net now d x t = (y, v)" for y v
      using preservesD [OF same Cons.prems(1) that] .
    ultimately have "wp (deliver_to_member K me net now d x) (\<lambda>_ v. ?same v \<and> (queued uuid url v \<or> m \<in> set ms)) (\<lambda>_ _. True) t"
      unfolding wp_def by (auto simp del: split_paired_All split: prod.split sum.split)
    then show ?case unfolding for_each.simps wp_and_then by (rule wp_mono) (auto intro: Cons.IH)
  qed
  have store: "wp (and_then (store_dm dm content) k) Q E t" if "\<And>v. ?same v \<Longrightarrow> wp (k ()) Q E v" "?same t" "\<And>e. E e t"
    for dm content k t and Q :: "status_code \<times> dm_response \<Rightarrow> hub \<Rightarrow> bool" and E
    using that by (auto simp: store_dm_def insert_dm_message_def wps same_addresses_def split: sum.split)
  have envelope: "wp (and_then (check_envelope K pk env) k) Q E t" if "wp (k ()) Q E t" "\<And>e. E e t"
    for pk env k t and Q :: "status_code \<times> dm_response \<Rightarrow> hub \<Rightarrow> bool" and E
    using that by (auto simp: check_envelope_def wps split: sum.split)
  have "wp (send_dm K me net uuid now u c req) (\<lambda>_. queued uuid url) (\<lambda>_ _. True) s"
    unfolding send_dm_def
    by (auto simp: wp_and_then [of "gets _"] wp_and_then [of "check _ _"] wp_and_then [of "ok_or _ _"] wp_and_then [of "lift _"]
          wp_and_then [of "ret _"] wp_and_then [of "modify _"] wp_and_then [of "for_each _ _"] send_dm_event_def
          wp_modify wp_gets wp_check wp_ok_or wp_lift wp_ret assms(2,3)
        intro!: envelope store wp_mono [OF loop] split: option.split sum.split)
  with assms(1) show ?thesis by (auto simp: wp_def split: prod.splits sum.splits)
qed

subsection \<open>What other requests leave of a queued message\<close>

definition stays :: "string \<Rightarrow> string \<Rightarrow> hub \<Rightarrow> bool" where
  "stays i url s \<longleftrightarrow> outbox_ok s \<and> queued i url s"

lemma queued_send: "preserves (stays i url) (send_dm K me net uuid now u c req)"
proof -
  have other: "preserves (queued i url) (for_each (deliver_to_member K me net now d) ms)" if "fd_message d \<noteq> i" for d ms
  proof (intro preserves_for_each, unfold deliver_to_member_def, intro keeps, unfold first_delivery_def insert_outbox_def
      delete_outbox_def update_outbox_def, intro keeps deliver_keeps queued_frames)
    show "preserves (queued i url) (writing (\<lambda>s. insert_or_ignore (same_key outbox_key) (fk s) r (dm_outbox s))
        (\<lambda>t s. s\<lparr>dm_outbox := t\<rparr>))" for fk r
      by (rule preserves_writing) (auto simp: ok_iffs queued_def exists_row_iff split: if_splits)
    show "preserves (queued i url) (modify (\<lambda>s. s\<lparr>dm_outbox := update_where (\<lambda>r. outbox_key r = (fd_message d, x))
        (\<lambda>r. r\<lparr>out_attempts := 1, out_next_attempt := now + 10, out_last_error := Some e\<rparr>) (dm_outbox s)\<rparr>))" for x e
      by (intro preserves_modify queued_update) (simp_all add: outbox_key_def)
    show "preserves (queued i url) (modify (\<lambda>s. s\<lparr>dm_outbox := delete_where (\<lambda>r. outbox_key r = (fd_message d, x)) (dm_outbox s)\<rparr>))" for x
      by (intro preserves_modify queued_delete) (use that in simp_all)
  qed
  have store: "wp (and_then (store_dm (stored_dm uuid cv user atts sig at env) content) k) (\<lambda>_. queued i url) (\<lambda>_. queued i url) t"
    if "uuid \<noteq> i \<Longrightarrow> preserves (queued i url) (k ())" "stays i url t" for cv user atts sig at env content t
    and k :: "unit \<Rightarrow> (status_code \<times> dm_response) hub_handler"
  proof (cases "uuid = i")
    case True
    have "exists_row (\<lambda>m. dm_id m = i) (dm_messages t)" using queued_message [of t i url] that(2) by (auto simp: stays_def exists_row_iff)
    with True that(2) show ?thesis
      by (auto simp: store_dm_def insert_dm_message_def wps ok_iffs stored_dm_def stays_def same_key_def exists_row_iff
          split: sum.split option.split)
  next
    case False
    with that show ?thesis
      by (intro preserves_wp preserves_and_then queued_writes(5)) (simp_all add: stays_def)
  qed
  have rest: "preserves (queued i url) (and_then (gets f) (\<lambda>name. and_then (send_dm_event (e name)) (\<lambda>_.
      and_then (for_each (deliver_to_member K me net now d) ms) (\<lambda>_. ret (g name)))))"
    if "fd_message d \<noteq> i" for f e d ms and g :: "string option \<Rightarrow> status_code \<times> dm_response"
    by (intro keeps queued_writes other that)
  have envelope: "wp (and_then (check_envelope K pk env) k) Q E t" if "wp (k ()) Q E t" "\<And>e. E e t"
    for pk env k t and Q :: "status_code \<times> dm_response \<Rightarrow> hub \<Rightarrow> bool" and E
    using that by (auto simp: check_envelope_def wps split: sum.split)
  have "wp (send_dm K me net uuid now u c req) (\<lambda>_. queued i url) (\<lambda>_. queued i url) s" if "stays i url s" for s
    using that unfolding send_dm_def
    by (auto simp: wp_and_then [of "gets _"] wp_and_then [of "check _ _"] wp_and_then [of "ok_or _ _"] wp_and_then [of "lift _"]
          wp_and_then [of "ret _"] wp_gets wp_check wp_ok_or wp_lift wp_ret stays_def
        intro!: envelope store rest split: option.split sum.split)
  then show ?thesis
    using outbox_ok_send by (simp add: wp_always stays_def preserves_def)
qed

lemma queued_retry:
  assumes "stays i url s" "\<not> accepts (net url)" "retry K me net now row s = (y, t)"
  shows "queued i url t"
proof -
  from assms(1) have ok: "outbox_ok s" and q: "queued i url s" and m: "i \<in> dm_id ` set (dm_messages s)"
    using queued_message by (auto simp: stays_def)
  from retry_outcome [OF ok, of K me net now row] assms(3) obtain failure where
    f: "dm_outbox t = settle now row failure (dm_outbox s)"
    "failure = None \<longrightarrow> accepts (net (out_hub_url row)) \<or> out_message row \<notin> dm_id ` set (dm_messages s)" by auto
  show ?thesis
  proof (cases failure)
    case None
    with f(2) assms(2) m have "outbox_key row \<noteq> (i, url)" by (auto simp: outbox_key_def)
    from queued_delete [OF q this] show ?thesis using f(1) None by (simp add: settle_def queued_def)
  next
    case (Some e)
    from queued_update [OF q, of "after_failure now (out_attempts row) e" "\<lambda>r. outbox_key r = outbox_key row"]
    show ?thesis using f(1) Some by (simp add: settle_def queued_def)
  qed
qed

lemma queued_pass:
  assumes "stays i url s" "\<not> accepts (net url)" "keyed outbox_key due"
    and "\<forall>r \<in> set due. r \<in> set (dm_outbox s) \<and> out_bounced r = None"
  shows "stays i url (snd (for_each (retry K me net now) due s))"
  using assms(1,3,4)
proof (induction due arbitrary: s)
  case Nil
  then show ?case by (simp add: ret_def)
next
  case (Cons row due)
  from Cons.prems(1) have ok: "outbox_ok s" by (simp add: stays_def)
  from retry_outcome [OF ok, of K me net now row] obtain failure v where
    v: "retry K me net now row s = (Inr (), v)" "dm_tables v = dm_tables s" "dm_outbox v = settle now row failure (dm_outbox s)"
    by blast
  have row: "row \<in> set (dm_outbox s)" "out_bounced row = None" using Cons.prems(3) by auto
  have other: "outbox_key r \<noteq> outbox_key row" if "r \<in> set due" for r
    using Cons.prems(2) that by (auto simp: keyed_def image_iff)
  have "stays i url v"
    using queued_retry [OF Cons.prems(1) assms(2) v(1)] settle_ok [OF ok row v(2,3)] by (simp add: stays_def)
  moreover have "\<forall>r \<in> set due. r \<in> set (dm_outbox v) \<and> out_bounced r = None"
    using Cons.prems(3) other by (auto simp: v(3) settle_def rows split: option.split)
  ultimately show ?case using Cons.IH [of v] Cons.prems(2) v(1) by (simp add: keyed_def and_then_def)
qed

lemma queued_tick:
  assumes "stays i url s" "\<not> accepts (net url)"
  shows "stays i url (snd (tick K me net now s))"
  using queued_pass [of i url s net] due_rows_ok [of s] assms by (simp add: tick_def and_then_def gets_def stays_def)

lemma stays_step: "stays i url s \<Longrightarrow> refused url op \<Longrightarrow> stays i url (dm_step s op)"
proof -
  assume s: "stays i url s" and op: "refused url op"
  have q: "preserves (queued i url) (create_conversation uuid now user members hubs)"
    "preserves (queued i url) (receive_federated_dm K now req)" "preserves (queued i url) (put_dm_blocks user pks)"
    "preserves (queued i url) (send_friend_request now user target hub name)"
    "preserves (queued i url) (accept_friend_request user from_key)" "preserves (queued i url) (remove_friend user target)"
    for uuid now user members hubs K req pks target hub name from_key
    unfolding create_conversation_def add_member_def receive_federated_dm_def open_conversation_def put_dm_blocks_def
      insert_dm_block_def send_friend_request_def accept_friend_request_def remove_friend_def Let_def
    by (intro keeps queued_writes preserves_writing preserves_modify queued_frames; assumption)+
  from s have "outbox_ok (dm_step s op)" using outbox_ok_step by (simp add: stays_def)
  moreover have "queued i url (dm_step s op)"
    using s op q queued_tick queued_send by (cases op) (auto simp: preserves_def stays_def)
  ultimately show ?thesis by (simp add: stays_def)
qed



definition demo_remote :: hub where
  "demo_remote = demo_hub\<lparr>conversations := [\<lparr>conv_id = ''d'', conv_type = ''dm'', conv_created = 1\<rparr>],
     conversation_members := [demo_member_of ''d'' demo_owner,
       (demo_member_of ''d'' demo_mod)\<lparr>cm_hub_url := Some ''https://b''\<rparr>]\<rparr>"

definition day_passes :: "nat \<Rightarrow> (network \<times> int) list" where
  "day_passes n = map (\<lambda>k. (\<lambda>_. demo_server, 100 + 86400 * int k)) [0..<n]"

lemma demo_remote_ok: "outbox_ok demo_remote" "\<not> accepts demo_server"
  by (simp_all add: outbox_ok_def demo_remote_def demo_defs accepts_def demo_server_def)


definition demo_backlog :: hub where
  "demo_backlog = demo_remote\<lparr>
     dm_messages := [(stored_dm ''m'' ''d'' demo_owner [] None 5 None)\<lparr>dm_content := ''hi''\<rparr>],
     dm_outbox := [new_outbox ''m'' ''https://b'' 5]\<rparr>"


end
