(* ===== verification/Game_Sessions.thy ===== *)
theory Game_Sessions
  imports Events
begin

text \<open>
  Games on a hub, from \<^verbatim>\<open>hub/src/routes/games.rs\<close>: installing and enabling games, the sessions members play
  in a channel with their shared state and key-value store, and the listings. A session has a row in
  \<^verbatim>\<open>game_sessions\<close> and, while the process lives, an entry in \<^verbatim>\<open>active_game_sessions\<close>. What the paired farm
  answers when a game is enabled is an argument.

  Main results: memory and table agree on every session, on its host and on its state; a session is
  changed by its host or an administrator only, and not at all once it has ended; patches of the
  state override it key by key. A disabled game can still be started, and the shared store of a
  session is open to every member of the hub.
\<close>

subsection \<open>Tables and broadcasts\<close>

definition chrono_now :: "int \<Rightarrow> string" where
  "chrono_now now = show_nat (nat now)"

definition on_games :: "(game_tables \<Rightarrow> game_tables) \<Rightarrow> unit hub_handler" where
  "on_games f = modify (\<lambda>s. s\<lparr>game_state := f (game_state s)\<rparr>)"

definition broadcast_game_event :: "string \<Rightarrow> game_frame \<Rightarrow> unit hub_handler" where
  "broadcast_game_event c frame = send_chat (GameEvent c frame)"

definition game_installed :: "hub \<Rightarrow> string \<Rightarrow> bool" where
  "game_installed s g \<longleftrightarrow> exists_row (\<lambda>r. hg_id r = g) (hub_games (game_state s))"

definition game_enabled :: "hub \<Rightarrow> string \<Rightarrow> bool" where
  "game_enabled s g \<longleftrightarrow> exists_row (\<lambda>r. eg_game r = g) (enabled_games (game_state s))"

subsection \<open>Installing\<close>

record install_hub_game_request =
  igr_name :: string
  igr_entry_url :: string
  igr_id :: "string option"
  igr_description :: "string option"
  igr_version :: "string option"
  igr_thumbnail :: "string option"
  igr_author :: "string option"
  igr_min_players :: "int option"
  igr_max_players :: "int option"

definition or_default :: "'a \<Rightarrow> 'a option \<Rightarrow> 'a" where
  "or_default d x = (case x of None \<Rightarrow> d | Some y \<Rightarrow> y)"

text \<open>The columns an upsert of \<^verbatim>\<open>hub_games\<close> overwrites: all but who installed the game, when, and its manifest's address.\<close>

definition set_hub_game :: "hub_game_row \<Rightarrow> hub_game_row \<Rightarrow> hub_game_row" where
  "set_hub_game new old = new\<lparr>hg_id := hg_id old, hg_installed_by := hg_installed_by old,
     hg_installed_at := hg_installed_at old, hg_manifest_url := hg_manifest_url old\<rparr>"

definition upsert_hub_game :: "hub_game_row \<Rightarrow> unit hub_handler" where
  "upsert_hub_game r =
     writing (\<lambda>s. upsert (same_key hg_id) (user_exists s (hg_installed_by r)) r (set_hub_game r) (hub_games (game_state s)))
       (\<lambda>t s. s\<lparr>game_state := (game_state s)\<lparr>hub_games := t\<rparr>\<rparr>)"

definition install_hub_game :: "crypto \<Rightarrow> string \<Rightarrow> int \<Rightarrow> install_hub_game_request \<Rightarrow> (status_code \<times> hub_game_row) hub_handler" where
  "install_hub_game K user now req =
     and_then (gets (user_permissions user)) (\<lambda>perms.
     and_then (require_permission perms MANAGE_GAMES) (\<lambda>_.
     let row = \<lparr>hg_id = or_default (''game-'' @ hex_encode K (take 8 (sha256 K (as_bytes (igr_entry_url req))))) (igr_id req),
         hg_name = igr_name req, hg_description = igr_description req, hg_version = or_default ''1.0.0'' (igr_version req),
         hg_entry_url = igr_entry_url req, hg_thumbnail = igr_thumbnail req, hg_author = igr_author req,
         hg_min_players = or_default 1 (igr_min_players req), hg_max_players = or_default 1 (igr_max_players req),
         hg_installed_by = user, hg_installed_at = now, hg_manifest_url = []\<rparr>
     in and_then (upsert_hub_game row) (\<lambda>_. ret (CREATED, row))))"

subsection \<open>Sessions\<close>

record session_response =
  sr_id :: string
  sr_channel :: string
  sr_game :: string
  sr_host :: string
  sr_players :: "string set"
  sr_state :: json
  sr_created :: string
  sr_ended :: "string option"

definition insert_session_row :: "game_session_row \<Rightarrow> unit hub_handler" where
  "insert_session_row r =
     writing (\<lambda>s. insert_row (same_key gs_id) True r (game_sessions (game_state s)))
       (\<lambda>t s. s\<lparr>game_state := (game_state s)\<lparr>game_sessions := t\<rparr>\<rparr>)"

definition new_live :: "game_session_row \<Rightarrow> live_session" where
  "new_live r = \<lparr>ls_channel = gs_channel r, ls_game = gs_game r, ls_host = gs_host r, ls_players = {gs_host r},
     ls_state = JObj []\<rparr>"

definition create_session :: "string \<Rightarrow> int \<Rightarrow> string \<Rightarrow> string \<Rightarrow> string \<Rightarrow> (status_code \<times> session_response) hub_handler" where
  "create_session sid now user c game =
     and_then (gets (user_permissions user)) (\<lambda>perms.
     and_then (require_permission perms START_GAME) (\<lambda>_.
     and_then (gets (\<lambda>s. game_installed s game)) (\<lambda>game_exists.
     and_then (check game_exists (Reject NOT_FOUND ''Game not found on this hub'')) (\<lambda>_.
     and_then (gets (\<lambda>s. channel_exists s c)) (\<lambda>ch_exists.
     and_then (check ch_exists (Reject NOT_FOUND ''Channel not found'')) (\<lambda>_.
     let row = \<lparr>gs_id = sid, gs_channel = c, gs_game = game, gs_host = user, gs_state = JObj [], gs_created = chrono_now now,
         gs_ended = None\<rparr> in
     and_then (insert_session_row row) (\<lambda>_.
     and_then (on_games (\<lambda>g. g\<lparr>active_game_sessions := (active_game_sessions g)(sid \<mapsto> new_live row)\<rparr>)) (\<lambda>_.
     and_then (broadcast_game_event c (GameSessionCreated sid c game user)) (\<lambda>_.
     ret (CREATED, \<lparr>sr_id = sid, sr_channel = c, sr_game = game, sr_host = user, sr_players = {}, sr_state = JObj [],
       sr_created = chrono_now now, sr_ended = None\<rparr>))))))))))"

definition fetch_open_session :: "string \<Rightarrow> game_session_row hub_handler" where
  "fetch_open_session sid =
     and_then (gets (\<lambda>s. row_at gs_id sid (game_sessions (game_state s)))) (\<lambda>row.
     and_then (ok_or row (Reject NOT_FOUND ''Session not found'')) (\<lambda>r.
     and_then (check (gs_ended r = None) (Reject GONE ''Session has ended'')) (\<lambda>_.
     ret r)))"

definition session_row_to_response :: "hub \<Rightarrow> game_session_row \<Rightarrow> session_response" where
  "session_row_to_response s r = \<lparr>sr_id = gs_id r, sr_channel = gs_channel r, sr_game = gs_game r, sr_host = gs_host r,
     sr_players = (case active_game_sessions (game_state s) (gs_id r) of None \<Rightarrow> {} | Some l \<Rightarrow> ls_players l),
     sr_state = gs_state r, sr_created = gs_created r, sr_ended = gs_ended r\<rparr>"

text \<open>\<^verbatim>\<open>if let Some(s) = sessions.get_mut(&session_id)\<close>.\<close>

definition update_live :: "string \<Rightarrow> (live_session \<Rightarrow> live_session) \<Rightarrow> unit hub_handler" where
  "update_live sid f =
     on_games (\<lambda>g. g\<lparr>active_game_sessions := (active_game_sessions g)(sid := map_option f (active_game_sessions g sid))\<rparr>)"

definition join_session :: "string \<Rightarrow> string \<Rightarrow> (status_code \<times> session_response) hub_handler" where
  "join_session user sid =
     and_then (fetch_open_session sid) (\<lambda>row.
     and_then (update_live sid (\<lambda>l. l\<lparr>ls_players := insert user (ls_players l)\<rparr>)) (\<lambda>_.
     and_then (broadcast_game_event (gs_channel row) (GameSessionJoined sid user)) (\<lambda>_.
     gets (\<lambda>s. (OK, session_row_to_response s row)))))"

definition get_session :: "string \<Rightarrow> session_response hub_handler" where
  "get_session sid = and_then (fetch_open_session sid) (\<lambda>row. gets (\<lambda>s. session_row_to_response s row))"

definition require_host_or_admin :: "string \<Rightarrow> game_session_row \<Rightarrow> string \<Rightarrow> unit hub_handler" where
  "require_host_or_admin user row msg =
     (if gs_host row = user then ret ()
      else and_then (gets (user_permissions user)) (\<lambda>perms.
           check (has_permission perms ADMIN) (Reject FORBIDDEN msg)))"

definition merge_patch :: "json \<Rightarrow> json \<Rightarrow> json" where
  "merge_patch current patch =
     (case (current, patch) of
        (JObj obj, JObj kvs) \<Rightarrow> JObj (fold (\<lambda>(k, v) acc. insert_key k v acc) kvs obj)
      | _ \<Rightarrow> patch)"

definition update_session :: "string \<Rightarrow> (game_session_row \<Rightarrow> game_session_row) \<Rightarrow> unit hub_handler" where
  "update_session sid f = on_games (\<lambda>g. g\<lparr>game_sessions := update_where (\<lambda>r. gs_id r = sid) f (game_sessions g)\<rparr>)"

definition open_state :: "hub \<Rightarrow> string \<Rightarrow> json option" where
  "open_state s sid =
     map_option gs_state (fetch_optional (\<lambda>r. gs_id r = sid \<and> gs_ended r = None) (game_sessions (game_state s)))"

definition patch_state :: "string \<Rightarrow> string \<Rightarrow> json \<Rightarrow> status_code hub_handler" where
  "patch_state user sid patch =
     and_then (fetch_open_session sid) (\<lambda>row.
     and_then (require_host_or_admin user row ''Only the host can patch session state'') (\<lambda>_.
     and_then (gets (\<lambda>s. open_state s sid)) (\<lambda>current.
     and_then (ok_or current (Reject NOT_FOUND ''Session not found or ended'')) (\<lambda>current.
     let merged = merge_patch current patch in
     and_then (update_session sid (\<lambda>r. r\<lparr>gs_state := merged\<rparr>)) (\<lambda>_.
     and_then (update_live sid (\<lambda>l. l\<lparr>ls_state := merged\<rparr>)) (\<lambda>_.
     and_then (broadcast_game_event (gs_channel row) (GameStateUpdated sid patch)) (\<lambda>_.
     ret NO_CONTENT)))))))"

definition end_session :: "string \<Rightarrow> int \<Rightarrow> string \<Rightarrow> status_code hub_handler" where
  "end_session user now sid =
     and_then (fetch_open_session sid) (\<lambda>row.
     and_then (require_host_or_admin user row ''Only the host or an admin can end the session'') (\<lambda>_.
     and_then (update_session sid (\<lambda>r. r\<lparr>gs_ended := Some (chrono_now now)\<rparr>)) (\<lambda>_.
     and_then (on_games (\<lambda>g. g\<lparr>active_game_sessions := (active_game_sessions g)(sid := None)\<rparr>)) (\<lambda>_.
     and_then (broadcast_game_event (gs_channel row) (GameSessionEnded sid)) (\<lambda>_.
     ret NO_CONTENT)))))"

subsection \<open>The shared store of a session\<close>

definition kv_key :: "shared_kv_row \<Rightarrow> string \<times> string" where
  "kv_key r = (skv_session r, skv_key r)"

definition set_shared_kv :: "int \<Rightarrow> string \<Rightarrow> string \<Rightarrow> string \<Rightarrow> status_code hub_handler" where
  "set_shared_kv now sid key v =
     and_then (fetch_open_session sid) (\<lambda>_.
     and_then (writing (\<lambda>s. upsert (same_key kv_key) True
         \<lparr>skv_session = sid, skv_key = key, skv_value = v, skv_updated = chrono_now now\<rparr>
         (\<lambda>r. r\<lparr>skv_value := v, skv_updated := chrono_now now\<rparr>) (game_shared_kv (game_state s)))
       (\<lambda>t s. s\<lparr>game_state := (game_state s)\<lparr>game_shared_kv := t\<rparr>\<rparr>)) (\<lambda>_.
     ret NO_CONTENT))"

definition get_shared_kv :: "string \<Rightarrow> string \<Rightarrow> shared_kv_row hub_handler" where
  "get_shared_kv sid key =
     and_then (gets (\<lambda>s. row_at kv_key (sid, key) (game_shared_kv (game_state s)))) (\<lambda>row.
     ok_or row (Reject NOT_FOUND ''Key not found''))"

subsection \<open>Enabling games\<close>

record farm_game_manifest =
  man_id :: string
  man_name :: string
  man_entry_url :: string
  man_description :: "string option"
  man_thumbnail :: "string option"
  man_version :: string
  man_author :: "string option"
  man_min_players :: int
  man_max_players :: int

text \<open>
  The farm's answer to \<^verbatim>\<open>GET /farm/games/:id\<close>: unreachable with an error, or a status, its text and the
  parsed body.
\<close>

type_synonym farm_answer = "string + (nat \<times> string \<times> (string + farm_game_manifest))"

definition local_manifest :: "hub_game_row \<Rightarrow> farm_game_manifest" where
  "local_manifest r = \<lparr>man_id = hg_id r, man_name = hg_name r, man_entry_url = hg_entry_url r,
     man_description = hg_description r, man_thumbnail = hg_thumbnail r, man_version = hg_version r,
     man_author = hg_author r, man_min_players = hg_min_players r, man_max_players = hg_max_players r\<rparr>"

definition farm_manifest :: "farm_answer \<Rightarrow> farm_game_manifest result" where
  "farm_manifest answer =
     (case answer of
        Inl e \<Rightarrow> Inl (Reject BAD_GATEWAY (''Farm unreachable: '' @ e))
      | Inr (code, text, body) \<Rightarrow>
          if code = 404 then Inl (Reject NOT_FOUND ''Game not found on farm'')
          else if \<not> (200 \<le> code \<and> code < 300) then Inl (Reject BAD_GATEWAY (''Farm returned '' @ text))
          else (case body of Inl e \<Rightarrow> Inl (Reject BAD_GATEWAY (''Invalid farm response: '' @ e)) | Inr m \<Rightarrow> Inr m))"

definition manifest_row :: "string \<Rightarrow> int \<Rightarrow> farm_game_manifest \<Rightarrow> hub_game_row" where
  "manifest_row user now m = \<lparr>hg_id = man_id m, hg_name = man_name m, hg_description = man_description m,
     hg_version = man_version m, hg_entry_url = man_entry_url m, hg_thumbnail = man_thumbnail m, hg_author = man_author m,
     hg_min_players = man_min_players m, hg_max_players = man_max_players m, hg_installed_by = user,
     hg_installed_at = now, hg_manifest_url = []\<rparr>"

definition upsert_enabled :: "enabled_game_row \<Rightarrow> unit hub_handler" where
  "upsert_enabled r =
     writing (\<lambda>s. upsert (same_key eg_game) True r (\<lambda>q. q\<lparr>eg_at := eg_at r, eg_by := eg_by r\<rparr>) (enabled_games (game_state s)))
       (\<lambda>t s. s\<lparr>game_state := (game_state s)\<lparr>enabled_games := t\<rparr>\<rparr>)"

definition enable_game :: "(string \<Rightarrow> string \<Rightarrow> farm_answer) \<Rightarrow> string \<Rightarrow> int \<Rightarrow> string \<Rightarrow> status_code hub_handler" where
  "enable_game farm user now game =
     and_then (gets (user_permissions user)) (\<lambda>perms.
     and_then (require_permission perms MANAGE_GAMES) (\<lambda>_.
     and_then (gets farm_url) (\<lambda>url.
     and_then (case url of
         None \<Rightarrow>
           and_then (gets (\<lambda>s. row_at hg_id game (hub_games (game_state s)))) (\<lambda>row.
           and_then (ok_or row (Reject NOT_FOUND ''Game not installed on this hub'')) (\<lambda>r.
           ret (local_manifest r)))
       | Some u \<Rightarrow> lift (farm_manifest (farm u game))) (\<lambda>manifest.
     and_then (upsert_hub_game (manifest_row user now manifest)) (\<lambda>_.
     and_then (upsert_enabled \<lparr>eg_game = game, eg_at = chrono_now now, eg_by = user\<rparr>) (\<lambda>_.
     ret NO_CONTENT))))))"

definition disable_game :: "string \<Rightarrow> string \<Rightarrow> status_code hub_handler" where
  "disable_game user game =
     and_then (gets (user_permissions user)) (\<lambda>perms.
     and_then (require_permission perms MANAGE_GAMES) (\<lambda>_.
     and_then (gets (\<lambda>s. game_enabled s game)) (\<lambda>enabled.
     and_then (on_games (\<lambda>g. g\<lparr>enabled_games := delete_where (\<lambda>r. eg_game r = game) (enabled_games g)\<rparr>)) (\<lambda>_.
     and_then (check enabled (Reject NOT_FOUND ''Game not enabled on this hub'')) (\<lambda>_.
     and_then (on_games (\<lambda>g. g\<lparr>channel_games := delete_where (\<lambda>r. cg_game r = game) (channel_games g)\<rparr>)) (\<lambda>_.
     ret NO_CONTENT))))))"

definition list_enabled_games :: "hub_game_row list hub_handler" where
  "list_enabled_games =
     gets (\<lambda>s. sort_key hg_name (filter (\<lambda>r. game_enabled s (hg_id r)) (hub_games (game_state s))))"

definition insert_channel_game :: "channel_game_row \<Rightarrow> unit hub_handler" where
  "insert_channel_game r =
     writing (\<lambda>s. insert_or_ignore (=) True r (channel_games (game_state s)))
       (\<lambda>t s. s\<lparr>game_state := (game_state s)\<lparr>channel_games := t\<rparr>\<rparr>)"

definition set_game_channels :: "string \<Rightarrow> string \<Rightarrow> string list \<Rightarrow> status_code hub_handler" where
  "set_game_channels user game cs =
     and_then (gets (user_permissions user)) (\<lambda>perms.
     and_then (require_permission perms MANAGE_GAMES) (\<lambda>_.
     and_then (gets (\<lambda>s. game_enabled s game)) (\<lambda>enabled.
     and_then (check enabled (Reject NOT_FOUND ''Game not enabled on this hub'')) (\<lambda>_.
     and_then (on_games (\<lambda>g. g\<lparr>channel_games := delete_where (\<lambda>r. cg_game r = game) (channel_games g)\<rparr>)) (\<lambda>_.
     and_then (for_each (\<lambda>c. insert_channel_game \<lparr>cg_channel = c, cg_game = game\<rparr>) cs) (\<lambda>_.
     ret NO_CONTENT))))))"

record admin_game_entry =
  age_game :: hub_game_row
  age_enabled :: bool
  age_enabled_by :: "string option"
  age_enabled_at :: "string option"
  age_scope :: "string list"

definition to_admin_entry :: "hub \<Rightarrow> hub_game_row \<Rightarrow> admin_game_entry" where
  "to_admin_entry s r =
     (let e = row_at eg_game (hg_id r) (enabled_games (game_state s)) in
      \<lparr>age_game = r, age_enabled = (e \<noteq> None), age_enabled_by = map_option eg_by e, age_enabled_at = map_option eg_at e,
       age_scope = sort (map cg_channel (filter (\<lambda>x. cg_game x = hg_id r) (channel_games (game_state s))))\<rparr>)"

definition admin_list_games :: "string \<Rightarrow> admin_game_entry list hub_handler" where
  "admin_list_games user =
     and_then (gets (user_permissions user)) (\<lambda>perms.
     and_then (require_permission perms MANAGE_GAMES) (\<lambda>_.
     gets (\<lambda>s. map (to_admin_entry s) (sort_key hg_name (hub_games (game_state s))))))"

subsection \<open>Requests, as one type of operations\<close>

datatype game_op =
    InstallGame crypto string int install_hub_game_request
  | CreateSession string int string string string
  | JoinSession string string
  | PatchState string string json
  | EndSession string int string
  | SetSharedKv int string string string
  | EnableGame "string \<Rightarrow> string \<Rightarrow> farm_answer" string int string
  | DisableGame string string
  | SetGameChannels string string "string list"

fun game_step :: "hub \<Rightarrow> game_op \<Rightarrow> hub" where
  "game_step s (InstallGame K user now req) = snd (install_hub_game K user now req s)"
| "game_step s (CreateSession sid now user c game) = snd (create_session sid now user c game s)"
| "game_step s (JoinSession user sid) = snd (join_session user sid s)"
| "game_step s (PatchState user sid patch) = snd (patch_state user sid patch s)"
| "game_step s (EndSession user now sid) = snd (end_session user now sid s)"
| "game_step s (SetSharedKv now sid key v) = snd (set_shared_kv now sid key v s)"
| "game_step s (EnableGame farm user now game) = snd (enable_game farm user now game s)"
| "game_step s (DisableGame user game) = snd (disable_game user game s)"
| "game_step s (SetGameChannels user game cs) = snd (set_game_channels user game cs s)"

subsection \<open>What a request does to the sessions\<close>

definition session_at :: "hub \<Rightarrow> string \<Rightarrow> game_session_row option" where
  "session_at s sid = row_at gs_id sid (game_sessions (game_state s))"

definition live_at :: "hub \<Rightarrow> string \<Rightarrow> live_session option" where
  "live_at s sid = active_game_sessions (game_state s) sid"

definition sessions_keyed :: "hub \<Rightarrow> bool" where
  "sessions_keyed s \<longleftrightarrow> keyed gs_id (game_sessions (game_state s))"

text \<open>
  The primitive changes to the sessions, in table and memory together, with who may cause them:
  started by \<open>u\<close>, joined, patched or ended.
\<close>

inductive session_change :: "hub \<Rightarrow> string \<Rightarrow> string \<Rightarrow> game_session_row option \<times> live_session option \<Rightarrow>
    game_session_row option \<times> live_session option \<Rightarrow> bool" for s u sid where
  untouched: "session_change s u sid x x"
| started: "gs_host r = u \<Longrightarrow> gs_id r = sid \<Longrightarrow> gs_ended r = None \<Longrightarrow> gs_state r = JObj [] \<Longrightarrow>
    session_change s u sid (None, l) (Some r, Some (new_live r))"
| joined: "gs_ended r = None \<Longrightarrow>
    session_change s u sid (Some r, l) (Some r, map_option (\<lambda>l. l\<lparr>ls_players := insert u (ls_players l)\<rparr>) l)"
| patched: "gs_ended r = None \<Longrightarrow> u = gs_host r \<or> has_permission (user_permissions u s) ADMIN \<Longrightarrow>
    x = merge_patch (gs_state r) p \<Longrightarrow>
    session_change s u sid (Some r, l) (Some (r\<lparr>gs_state := x\<rparr>), map_option (\<lambda>l. l\<lparr>ls_state := x\<rparr>) l)"
| ended: "gs_ended r = None \<Longrightarrow> u = gs_host r \<or> has_permission (user_permissions u s) ADMIN \<Longrightarrow>
    session_change s u sid (Some r, l) (Some (r\<lparr>gs_ended := Some t\<rparr>), None)"

inductive_cases session_changeE: "session_change s u sid x y"

definition sessions_change :: "hub \<Rightarrow> string \<Rightarrow> hub \<Rightarrow> bool" where
  "sessions_change s u t \<longleftrightarrow> sessions_keyed t \<and>
     (\<forall>sid. session_change s u sid (session_at s sid, live_at s sid) (session_at t sid, live_at t sid))"

lemma sessions_change_refl: "sessions_keyed s \<Longrightarrow> sessions_change s u s"
  by (simp add: sessions_change_def untouched)

lemma sessions_change_frames:
  "sessions_change s u t \<Longrightarrow> sessions_change s u (t\<lparr>chat_tx := x\<rparr>)"
  "sessions_change s u t \<Longrightarrow> sessions_change s u (t\<lparr>game_state := (game_state t)\<lparr>hub_games := a\<rparr>\<rparr>)"
  "sessions_change s u t \<Longrightarrow> sessions_change s u (t\<lparr>game_state := (game_state t)\<lparr>enabled_games := b\<rparr>\<rparr>)"
  "sessions_change s u t \<Longrightarrow> sessions_change s u (t\<lparr>game_state := (game_state t)\<lparr>channel_games := c\<rparr>\<rparr>)"
  "sessions_change s u t \<Longrightarrow> sessions_change s u (t\<lparr>game_state := (game_state t)\<lparr>game_shared_kv := d\<rparr>\<rparr>)"
  by (simp_all add: sessions_change_def sessions_keyed_def session_at_def live_at_def)

lemma wp_fetch_open_session:
  "wp (fetch_open_session sid) Q E s \<longleftrightarrow>
    (case session_at s sid of None \<Rightarrow> E (Reject NOT_FOUND ''Session not found'') s
     | Some r \<Rightarrow> if gs_ended r = None then Q r s else E (Reject GONE ''Session has ended'') s)"
  by (auto simp: fetch_open_session_def session_at_def wps split: option.split)

lemma wp_require_host_or_admin:
  "wp (require_host_or_admin user row msg) Q E s \<longleftrightarrow>
    (if gs_host row = user \<or> has_permission (user_permissions user s) ADMIN then Q () s else E (Reject FORBIDDEN msg) s)"
  by (auto simp: require_host_or_admin_def wps)

lemma other_requests_keep_sessions:
  assumes "sessions_keyed s"
  shows "sessions_change s u (snd (install_hub_game K user now req s))" "sessions_change s u (snd (enable_game farm user now game s))"
    "sessions_change s u (snd (disable_game user game s))" "sessions_change s u (snd (set_game_channels user game cs s))"
    "sessions_change s u (snd (set_shared_kv now sid key v s))"
proof -
  have "preserves (sessions_change s u) (install_hub_game K user now req)" "preserves (sessions_change s u) (enable_game farm user now game)"
    "preserves (sessions_change s u) (disable_game user game)" "preserves (sessions_change s u) (set_game_channels user game cs)"
    "preserves (sessions_change s u) (set_shared_kv now sid key v)"
    unfolding install_hub_game_def enable_game_def disable_game_def set_game_channels_def set_shared_kv_def Let_def
      upsert_hub_game_def upsert_enabled_def insert_channel_game_def on_games_def fetch_open_session_def require_permission_def
    by (intro keeps preserves_writing preserves_modify sessions_change_frames; assumption)+
  then show "sessions_change s u (snd (install_hub_game K user now req s))" "sessions_change s u (snd (enable_game farm user now game s))"
    "sessions_change s u (snd (disable_game user game s))" "sessions_change s u (snd (set_game_channels user game cs s))"
    "sessions_change s u (snd (set_shared_kv now sid key v s))"
    using sessions_change_refl [OF assms] by (simp_all add: preserves_def)
qed

lemma create_session_change:
  assumes "sessions_keyed s"
  shows "sessions_change s user (snd (create_session sid now user c game s))"
proof -
  have "wp (create_session sid now user c game) (\<lambda>_. sessions_change s user) (\<lambda>_. sessions_change s user) s"
    using assms sessions_change_refl [OF assms]
    by (auto simp: create_session_def require_permission_def insert_session_row_def on_games_def broadcast_game_event_def
        send_chat_def wps ok_iffs Let_def sessions_change_def sessions_keyed_def session_at_def live_at_def
        row_at_append row_at_single keyed_snoc exists_row_iff same_key_def
        intro!: session_change.untouched session_change.started dest: row_at_key split: sum.split option.split)
  then show ?thesis by (simp add: wp_always)
qed

lemma join_session_change:
  assumes "sessions_keyed s"
  shows "sessions_change s user (snd (join_session user sid s))"
proof -
  have "wp (join_session user sid) (\<lambda>_. sessions_change s user) (\<lambda>_. sessions_change s user) s"
    using assms sessions_change_refl [OF assms]
    by (auto simp: join_session_def wp_fetch_open_session update_live_def on_games_def broadcast_game_event_def send_chat_def wps
        sessions_change_def sessions_keyed_def session_at_def live_at_def
        intro!: session_change.untouched session_change.joined split: option.split)
  then show ?thesis by (simp add: wp_always)
qed

lemma open_state_eq:
  assumes "sessions_keyed s" "session_at s sid = Some r" "gs_ended r = None"
  shows "open_state s sid = Some (gs_state r)"
  using assms by (simp add: open_state_def sessions_keyed_def session_at_def fetch_live)

lemma patch_state_change:
  assumes "sessions_keyed s"
  shows "sessions_change s user (snd (patch_state user sid patch s))"
proof -
  have "wp (patch_state user sid patch) (\<lambda>_. sessions_change s user) (\<lambda>_. sessions_change s user) s"
    using assms sessions_change_refl [OF assms]
    by (auto simp: patch_state_def wp_fetch_open_session wp_require_host_or_admin wps open_state_eq Let_def update_session_def
        update_live_def on_games_def broadcast_game_event_def send_chat_def sessions_change_def sessions_keyed_def session_at_def
        live_at_def keyed_update_where row_at_update_where
        intro!: session_change.untouched session_change.patched split: option.split)
  then show ?thesis by (simp add: wp_always)
qed

lemma end_session_change:
  assumes "sessions_keyed s"
  shows "sessions_change s user (snd (end_session user now sid s))"
proof -
  have "wp (end_session user now sid) (\<lambda>_. sessions_change s user) (\<lambda>_. sessions_change s user) s"
    using assms sessions_change_refl [OF assms]
    by (auto simp: end_session_def wp_fetch_open_session wp_require_host_or_admin wps update_session_def
        on_games_def broadcast_game_event_def send_chat_def sessions_change_def sessions_keyed_def session_at_def
        live_at_def keyed_update_where row_at_update_where
        intro!: session_change.untouched session_change.ended split: option.split)
  then show ?thesis by (simp add: wp_always)
qed

fun game_actor :: "game_op \<Rightarrow> string" where
  "game_actor (InstallGame K user now req) = user"
| "game_actor (CreateSession sid now user c game) = user"
| "game_actor (JoinSession user sid) = user"
| "game_actor (PatchState user sid patch) = user"
| "game_actor (EndSession user now sid) = user"
| "game_actor (SetSharedKv now sid key v) = []"
| "game_actor (EnableGame farm user now game) = user"
| "game_actor (DisableGame user game) = user"
| "game_actor (SetGameChannels user game cs) = user"

lemma game_step_change: "sessions_keyed s \<Longrightarrow> sessions_change s (game_actor op) (game_step s op)"
  by (cases op) (simp_all add: other_requests_keep_sessions create_session_change join_session_change patch_state_change
      end_session_change)

subsection \<open>Memory and table agree\<close>

definition mirror :: "game_session_row option \<Rightarrow> live_session option \<Rightarrow> bool" where
  "mirror row mem \<longleftrightarrow>
     (case mem of
        None \<Rightarrow> (case row of None \<Rightarrow> True | Some r \<Rightarrow> gs_ended r \<noteq> None)
      | Some l \<Rightarrow> (case row of None \<Rightarrow> False
          | Some r \<Rightarrow> gs_ended r = None \<and> ls_channel l = gs_channel r \<and> ls_game l = gs_game r \<and> ls_host l = gs_host r \<and>
              ls_state l = gs_state r \<and> gs_host r \<in> ls_players l))"

lemma change_keeps_mirror: "session_change s u sid (r, l) (r', l') \<Longrightarrow> mirror r l \<Longrightarrow> mirror r' l'"
  by (auto simp: mirror_def new_live_def elim!: session_changeE split: option.splits)

definition games_ok :: "hub \<Rightarrow> bool" where
  "games_ok s \<longleftrightarrow> sessions_keyed s \<and> (\<forall>sid. mirror (session_at s sid) (live_at s sid))"

lemma games_ok_step: "games_ok s \<Longrightarrow> games_ok (game_step s op)"
  using game_step_change [of s op] change_keeps_mirror unfolding games_ok_def sessions_change_def by blast

text \<open>
  From a hub whose memory and table agree, such as one without sessions, every sequence of game
  requests keeps them so: a session is in memory exactly while its row is open, with the same
  channel, game, host and state, and its host among the players; so what a member reads is the
  row, with those players.
\<close>

theorem session_memory_mirrors_table:
  assumes "games_ok s"
  shows "games_ok (run game_step s ops) \<and>
    (\<forall>sid resp. fst (get_session sid (run game_step s ops)) = Inr resp \<longrightarrow>
      (\<exists>l. live_at (run game_step s ops) sid = Some l \<and> sr_state resp = ls_state l \<and> sr_players resp = ls_players l \<and>
         sr_host resp = ls_host l \<and> sr_host resp \<in> sr_players resp \<and> sr_ended resp = None))"
proof -
  have ok: "games_ok (run game_step s ops)" by (rule run_invariant) (simp_all add: games_ok_step assms)
  have "\<exists>l. live_at t sid = Some l \<and> sr_state resp = ls_state l \<and> sr_players resp = ls_players l \<and>
      sr_host resp = ls_host l \<and> sr_host resp \<in> sr_players resp \<and> sr_ended resp = None"
    if t: "games_ok t" "fst (get_session sid t) = Inr resp" for t sid resp
  proof -
    from t(2) obtain r where r: "session_at t sid = Some r" "gs_ended r = None" "resp = session_row_to_response t r"
      by (auto simp: get_session_def fetch_open_session_def session_at_def and_then_def gets_def ok_or_def check_def ret_def fail_def
          split: option.splits if_splits)
    from r(1) have i: "gs_id r = sid" by (auto simp: session_at_def dest: row_at_key)
    from t(1) r(1) have "mirror (Some r) (live_at t sid)" unfolding games_ok_def by metis
    with r(2) obtain l where l: "live_at t sid = Some l" "ls_host l = gs_host r" "ls_state l = gs_state r" "gs_host r \<in> ls_players l"
      by (auto simp: mirror_def split: option.splits)
    then show ?thesis using r i by (simp add: session_row_to_response_def live_at_def)
  qed
  with ok show ?thesis by blast
qed

definition demo_arcade :: hub where
  "demo_arcade = demo_chat\<lparr>game_state := (game_state demo_chat)\<lparr>hub_games :=
     [\<lparr>hg_id = ''g'', hg_name = ''Go'', hg_description = None, hg_version = ''1'', hg_entry_url = ''u'', hg_thumbnail = None,
       hg_author = None, hg_min_players = 1, hg_max_players = 2, hg_installed_by = demo_owner,
       hg_installed_at = 0, hg_manifest_url = []\<rparr>]\<rparr>\<rparr>"

definition demo_match :: hub where
  "demo_match = run game_step demo_arcade [CreateSession ''s'' 5 demo_member ''c'' ''g'', JoinSession demo_mod ''s'']"

lemma demo_arcade_ok: "games_ok demo_arcade"
  by (simp add: games_ok_def sessions_keyed_def session_at_def live_at_def mirror_def demo_arcade_def demo_chat_def demo_defs keyed_def
      row_at_def)

theorem session_memory_mirrors_table_witness:
  "games_ok (run game_step demo_arcade [CreateSession ''s'' 5 demo_member ''c'' ''g'', JoinSession demo_mod ''s'']) \<and>
   map_sum id sr_host (fst (get_session ''s'' demo_match)) = Inr demo_member"
proof
  show "games_ok (run game_step demo_arcade [CreateSession ''s'' 5 demo_member ''c'' ''g'', JoinSession demo_mod ''s''])"
    using session_memory_mirrors_table [OF demo_arcade_ok] by blast
  show "map_sum id sr_host (fst (get_session ''s'' demo_match)) = Inr demo_member" by code_simp
qed

text \<open>
  C30. A session belongs to its host: whatever a user requests, a session of somebody else keeps its
  row unless the user is an administrator, it never changes channel, game or host, and from its end
  on no sequence of requests changes it at all.
\<close>

theorem sessions_obey_their_host:
  assumes "sessions_keyed s" "session_at s sid = Some r"
  shows "(\<exists>r'. session_at (game_step s op) sid = Some r' \<and> gs_channel r' = gs_channel r \<and> gs_game r' = gs_game r \<and>
      gs_host r' = gs_host r \<and>
      (r' = r \<or> game_actor op = gs_host r \<or> has_permission (user_permissions (game_actor op) s) ADMIN)) \<and>
    (gs_ended r \<noteq> None \<longrightarrow> session_at (run game_step s ops) sid = Some r)"
proof
  have "session_change s (game_actor op) sid (Some r, live_at s sid) (session_at (game_step s op) sid, live_at (game_step s op) sid)"
    using game_step_change [OF assms(1), of op] assms(2) by (metis sessions_change_def)
  then show "\<exists>r'. session_at (game_step s op) sid = Some r' \<and> gs_channel r' = gs_channel r \<and> gs_game r' = gs_game r \<and>
      gs_host r' = gs_host r \<and> (r' = r \<or> game_actor op = gs_host r \<or> has_permission (user_permissions (game_actor op) s) ADMIN)"
    by (auto elim!: session_changeE)
  have step: "sessions_keyed (game_step t a) \<and> session_at (game_step t a) sid = Some r"
    if "sessions_keyed t \<and> session_at t sid = Some r" "gs_ended r \<noteq> None" for t a
  proof -
    have "session_change t (game_actor a) sid (Some r, live_at t sid) (session_at (game_step t a) sid, live_at (game_step t a) sid)"
      using game_step_change [of t a] that(1) by (metis sessions_change_def)
    then have "session_at (game_step t a) sid = Some r" using that(2) by (auto elim!: session_changeE)
    then show ?thesis using game_step_change [of t a] that(1) by (simp add: sessions_change_def)
  qed
  show "gs_ended r \<noteq> None \<longrightarrow> session_at (run game_step s ops) sid = Some r"
    using run_invariant [of "\<lambda>t. sessions_keyed t \<and> session_at t sid = Some r" game_step s ops] step assms by blast
qed

theorem sessions_obey_their_host_witness:
  "map_option gs_ended (session_at (run game_step (game_step demo_match (EndSession demo_member 9 ''s''))
     [PatchState demo_owner ''s'' JNull, CreateSession ''s'' 7 demo_mod ''c'' ''g'']) ''s'') = Some (Some ''9'')"
proof -
  let ?s = "game_step demo_match (EndSession demo_member 9 ''s'')"
  obtain r where r: "session_at ?s ''s'' = Some r" "gs_ended r = Some ''9''"
  proof -
    have "map_option gs_ended (session_at ?s ''s'') = Some (Some ''9'')" by code_simp
    then show ?thesis using that by auto
  qed
  have "sessions_keyed ?s"
    using demo_arcade_ok games_ok_step [of demo_arcade] games_ok_step
    unfolding demo_match_def run.simps games_ok_def by metis
  from sessions_obey_their_host [OF this r(1)] r(2)
  have "session_at (run game_step ?s ops) ''s'' = Some r" for ops by blast
  then show ?thesis using r(2) by (simp only: option.map)
qed

subsection \<open>Patches and what the checks leave open\<close>

lemma field_insert_key: "field k (JObj (insert_key k' v kvs)) = (if k = k' then Some v else field k (JObj kvs))"
proof -
  have "map_of (remove_key k' kvs) k = (if k = k' then None else map_of kvs k)" by (induction kvs) (auto simp: remove_key_def)
  then show ?thesis by (auto simp: insert_key_def map_add_def split: option.split)
qed

text \<open>A patch is an override, key by key; the last of two equal keys counts.\<close>

lemma field_merge_patch:
  "field k (merge_patch (JObj obj) (JObj kvs)) = (case map_of (rev kvs) k of None \<Rightarrow> map_of obj k | Some v \<Rightarrow> Some v)"
proof (induction kvs arbitrary: obj)
  case (Cons kv kvs)
  show ?case using Cons.IH [of "insert_key (fst kv) (snd kv) obj"] field_insert_key [of k "fst kv" "snd kv" obj]
    by (auto simp: merge_patch_def case_prod_beta map_add_def split: option.splits)
qed (simp add: merge_patch_def)

text \<open>
  Whether a game is enabled does not matter for starting it: a session can be created for a game that
  was installed and never enabled, or disabled since. The answer lists no player, although the host
  is one.
\<close>

lemma disabled_game_can_be_started:
  "\<not> game_enabled demo_arcade ''g''"
  "map_sum id (\<lambda>(c, r). (c, sr_game r, sr_players r)) (fst (create_session ''s'' 5 demo_member ''c'' ''g'' demo_arcade)) =
     Inr (CREATED, ''g'', {})"
  "map_sum id sr_players (fst (get_session ''s'' (snd (create_session ''s'' 5 demo_member ''c'' ''g'' demo_arcade)))) = Inr {demo_member}"
  by code_simp+

text \<open>The shared store asks nothing of the writer: its outcome does not depend on who calls.\<close>

lemma shared_store_is_open:
  assumes "session_at s sid = Some r" "gs_ended r = None"
  shows "fst (set_shared_kv now sid key v s) = Inr NO_CONTENT \<and>
    map_sum id skv_value (fst (get_shared_kv sid key (snd (set_shared_kv now sid key v s)))) = Inr v"
proof -
  let ?r = "\<lparr>skv_session = sid, skv_key = key, skv_value = v, skv_updated = chrono_now now\<rparr>"
  let ?f = "\<lambda>r :: shared_kv_row. r\<lparr>skv_value := v, skv_updated := chrono_now now\<rparr>"
  obtain u where u: "upsert (same_key kv_key) True ?r ?f (game_shared_kv (game_state s)) = Inr u"
    by (cases "exists_row (same_key kv_key ?r) (game_shared_kv (game_state s))") (simp_all add: upsert_def)
  have "map_option skv_value (row_at kv_key (sid, key) u) = Some v"
    using row_at_upsert [OF _ u, of "(sid, key)"] by (auto simp: kv_key_def split: option.splits)
  moreover have "set_shared_kv now sid key v s = (Inr NO_CONTENT, s\<lparr>game_state := (game_state s)\<lparr>game_shared_kv := u\<rparr>\<rparr>)"
    using assms u by (simp add: set_shared_kv_def fetch_open_session_def session_at_def and_then_def gets_def ok_or_def
        check_def ret_def writing_def exec_def)
  ultimately show ?thesis
    by (auto simp: get_shared_kv_def and_then_def gets_def ok_or_def ret_def fail_def split: option.splits)
qed

end
