(* ===== verification/Alliances.thy ===== *)
theory Alliances
  imports Dms
begin

text \<open>
  Alliances between hubs and the channels of peers, from \<^verbatim>\<open>hub/src/routes/alliances.rs\<close>,
  \<^verbatim>\<open>hub/src/federation/handlers.rs\<close> (badge offers apart) and the calls of
  \<^verbatim>\<open>hub/src/federation/client.rs\<close> they make. What other hubs answer is an argument.

  Main results: a hub enters an alliance only on a token this hub signed or by an administrator's
  own request; alliance, member and shared-channel rows keep their keys and references; a message
  to an alliance channel goes to exactly one place. The token is the hub's signature on the bare
  alliance id, and the same key signs any challenge a peer sends, so a peer can obtain a token.
\<close>

subsection \<open>The client side of federation\<close>

record alliance_member_info =
  ami_key :: string
  ami_name :: string
  ami_url :: string
  ami_joined :: int

record alliance_detail =
  ad_id :: string
  ad_name :: string
  ad_created_by :: string
  ad_created :: int
  ad_members :: "alliance_member_info list"

record shared_channel_response =
  sc_channel :: string
  sc_name :: string
  sc_hub_key :: string
  sc_hub_name :: string

record alliance_invite_payload =
  aip_id :: string
  aip_alliance :: string
  aip_alliance_name :: string
  aip_from_url :: string
  aip_from_name :: string
  aip_from_key :: string
  aip_token :: string
  aip_message :: "string option"

text \<open>
  The answers of other hubs, by URL and session token. A plain \<^verbatim>\<open>Response\<close>, whose body is not parsed,
  is its status code and text; it cannot be \<open>BadBody\<close>.
\<close>

record federation_api =
  api_channels :: "string \<Rightarrow> string \<Rightarrow> channel_response list http"
  api_send :: "string \<Rightarrow> string \<Rightarrow> string \<Rightarrow> string \<Rightarrow> message_response http"
  api_messages :: "string \<Rightarrow> string \<Rightarrow> string \<Rightarrow> message_response list http"
  api_join :: "string \<Rightarrow> string \<Rightarrow> string \<Rightarrow> string \<Rightarrow> string \<Rightarrow> (nat \<times> string) option"
  api_detail :: "string \<Rightarrow> string \<Rightarrow> string \<Rightarrow> alliance_detail http"
  api_shared :: "string \<Rightarrow> string \<Rightarrow> string \<Rightarrow> shared_channel_response list http"
  api_invite :: "string \<Rightarrow> alliance_invite_payload \<Rightarrow> string + (nat \<times> string)"

definition get_channels :: "federation_api \<Rightarrow> string \<Rightarrow> string \<Rightarrow> string + channel_response list" where
  "get_channels api url token =
     http_context ''Failed to fetch channels from peer'' ''Invalid channels response'' (api_channels api url token)"

definition send_remote_message :: "federation_api \<Rightarrow> string \<Rightarrow> string \<Rightarrow> string \<Rightarrow> string \<Rightarrow> string + message_response" where
  "send_remote_message api url token c content =
     http_context ''Failed to send message to peer'' ''Invalid message response'' (api_send api url token c content)"

definition get_remote_messages :: "federation_api \<Rightarrow> string \<Rightarrow> string \<Rightarrow> string \<Rightarrow> string + message_response list" where
  "get_remote_messages api url token c =
     http_context ''Failed to fetch messages from peer'' ''Invalid messages response'' (api_messages api url token c)"

definition get_alliance_detail :: "federation_api \<Rightarrow> string \<Rightarrow> string \<Rightarrow> string \<Rightarrow> string + alliance_detail" where
  "get_alliance_detail api url token a =
     http_context ''Failed to fetch alliance detail'' ''Invalid alliance detail response'' (api_detail api url token a)"

definition get_alliance_shared_channels :: "federation_api \<Rightarrow> string \<Rightarrow> string \<Rightarrow> string \<Rightarrow>
    string + shared_channel_response list" where
  "get_alliance_shared_channels api url token a =
     http_context ''Failed to fetch alliance channels from peer'' ''Invalid alliance channels response'' (api_shared api url token a)"

text \<open>\<^verbatim>\<open>StatusCode::is_success\<close> and \<^verbatim>\<open>StatusCode::from_u16\<close>, which accepts 100 to 999.\<close>

definition is_success :: "nat \<Rightarrow> bool" where
  "is_success code \<longleftrightarrow> 200 \<le> code \<and> code < 300"

definition from_u16 :: "nat \<Rightarrow> status_code" where
  "from_u16 code =
     (if code = 400 then BAD_REQUEST else if code = 401 then UNAUTHORIZED else if code = 403 then FORBIDDEN
      else if code = 404 then NOT_FOUND else if code = 409 then CONFLICT else if code = 410 then GONE
      else if code = 413 then PAYLOAD_TOO_LARGE else if code = 422 then UNPROCESSABLE_ENTITY
      else if code = 429 then TOO_MANY_REQUESTS else if code = 500 then INTERNAL_SERVER_ERROR
      else if code = 502 then BAD_GATEWAY else if code = 503 then SERVICE_UNAVAILABLE
      else if code < 100 \<or> 1000 \<le> code then BAD_GATEWAY else STATUS code)"

subsection \<open>Tables\<close>

definition on_federation :: "(federation_tables \<Rightarrow> federation_tables) \<Rightarrow> unit hub_handler" where
  "on_federation f = modify (\<lambda>s. s\<lparr>federation := f (federation s)\<rparr>)"

definition alliance_exists :: "hub \<Rightarrow> string \<Rightarrow> bool" where
  "alliance_exists s a \<longleftrightarrow> exists_row (\<lambda>r. al_id r = a) (alliances (federation s))"

definition am_key :: "alliance_member_row \<Rightarrow> string \<times> string" where
  "am_key m = (am_alliance m, am_hub_key m)"

definition shared_key :: "shared_channel_row \<Rightarrow> string \<times> string" where
  "shared_key r = (shared_alliance r, shared_channel r)"

definition insert_alliance :: "alliance_row \<Rightarrow> unit hub_handler" where
  "insert_alliance r =
     writing (\<lambda>s. insert_row (same_key al_id) True r (alliances (federation s)))
       (\<lambda>t s. s\<lparr>federation := (federation s)\<lparr>alliances := t\<rparr>\<rparr>)"

definition insert_or_ignore_alliance :: "alliance_row \<Rightarrow> unit hub_handler" where
  "insert_or_ignore_alliance r =
     writing (\<lambda>s. insert_or_ignore (same_key al_id) True r (alliances (federation s)))
       (\<lambda>t s. s\<lparr>federation := (federation s)\<lparr>alliances := t\<rparr>\<rparr>)"

definition insert_alliance_member :: "alliance_member_row \<Rightarrow> unit hub_handler" where
  "insert_alliance_member r =
     writing (\<lambda>s. insert_row (same_key am_key) (alliance_exists s (am_alliance r)) r (alliance_members (federation s)))
       (\<lambda>t s. s\<lparr>federation := (federation s)\<lparr>alliance_members := t\<rparr>\<rparr>)"

definition insert_or_ignore_alliance_member :: "alliance_member_row \<Rightarrow> unit hub_handler" where
  "insert_or_ignore_alliance_member r =
     writing (\<lambda>s. insert_or_ignore (same_key am_key) (alliance_exists s (am_alliance r)) r (alliance_members (federation s)))
       (\<lambda>t s. s\<lparr>federation := (federation s)\<lparr>alliance_members := t\<rparr>\<rparr>)"

definition current_hub_name :: "string \<Rightarrow> hub \<Rightarrow> string" where
  "current_hub_name boot_name s = (case setting ''hub_name'' s of None \<Rightarrow> boot_name | Some n \<Rightarrow> n)"

subsection \<open>Creating, listing, sharing\<close>

definition create_alliance :: "crypto \<Rightarrow> identity \<Rightarrow> string \<Rightarrow> string \<Rightarrow> int \<Rightarrow> string \<Rightarrow> string \<Rightarrow>
    (status_code \<times> alliance_row) hub_handler" where
  "create_alliance K me boot_name uuid now user name =
     and_then (gets (user_permissions user)) (\<lambda>perms.
     and_then (require_permission perms ADMIN) (\<lambda>_.
     let row = \<lparr>al_id = uuid, al_name = name, al_created_by = user, al_created = now\<rparr> in
     and_then (insert_alliance row) (\<lambda>_.
     and_then (gets (current_hub_name boot_name)) (\<lambda>hub_name.
     and_then (insert_alliance_member \<lparr>am_alliance = uuid, am_hub_key = public_key_hex K me, am_hub_name = hub_name,
       am_hub_url = ''self'', am_joined = now\<rparr>) (\<lambda>_.
     ret (CREATED, row))))))"

definition list_alliances :: "crypto \<Rightarrow> identity \<Rightarrow> alliance_row list hub_handler" where
  "list_alliances K me =
     gets (\<lambda>s. sort_key al_created (filter (\<lambda>a. exists_row (\<lambda>m. am_alliance m = al_id a \<and> am_hub_key m = public_key_hex K me)
       (alliance_members (federation s))) (alliances (federation s))))"

definition require_alliance :: "string \<Rightarrow> alliance_row hub_handler" where
  "require_alliance a =
     and_then (gets (\<lambda>s. row_at al_id a (alliances (federation s)))) (\<lambda>row.
     ok_or row (Reject NOT_FOUND ''Alliance not found''))"

definition get_alliance :: "string \<Rightarrow> alliance_detail hub_handler" where
  "get_alliance a =
     and_then (require_alliance a) (\<lambda>r.
     gets (\<lambda>s. \<lparr>ad_id = al_id r, ad_name = al_name r, ad_created_by = al_created_by r, ad_created = al_created r,
       ad_members = map (\<lambda>m. \<lparr>ami_key = am_hub_key m, ami_name = am_hub_name m, ami_url = am_hub_url m, ami_joined = am_joined m\<rparr>)
         (filter (\<lambda>m. am_alliance m = a) (alliance_members (federation s)))\<rparr>))"

definition share_channel :: "int \<Rightarrow> string \<Rightarrow> string \<Rightarrow> string \<Rightarrow> status_code hub_handler" where
  "share_channel now user a c =
     and_then (gets (user_permissions user)) (\<lambda>perms.
     and_then (require_permission perms ADMIN) (\<lambda>_.
     and_then (gets (\<lambda>s. alliance_exists s a)) (\<lambda>found.
     and_then (check found (Reject NOT_FOUND ''Alliance not found'')) (\<lambda>_.
     and_then (gets (\<lambda>s. channel_exists s c)) (\<lambda>ch_found.
     and_then (check ch_found (Reject NOT_FOUND ''Channel not found'')) (\<lambda>_.
     and_then (writing (\<lambda>s. insert_or_ignore (same_key shared_key) (alliance_exists s a \<and> channel_exists s c)
         \<lparr>shared_alliance = a, shared_channel = c, shared_at = now\<rparr> (alliance_shared_channels s))
       (\<lambda>t s. s\<lparr>alliance_shared_channels := t\<rparr>)) (\<lambda>_.
     ret OK)))))))"

definition unshare_channel :: "string \<Rightarrow> string \<Rightarrow> string \<Rightarrow> status_code hub_handler" where
  "unshare_channel user a c =
     and_then (gets (user_permissions user)) (\<lambda>perms.
     and_then (require_permission perms ADMIN) (\<lambda>_.
     and_then (modify (\<lambda>s. s\<lparr>alliance_shared_channels :=
       delete_where (\<lambda>r. shared_key r = (a, c)) (alliance_shared_channels s)\<rparr>)) (\<lambda>_.
     ret NO_CONTENT)))"

text \<open>The other members of an alliance, and a session on one of them: cached, or by logging in.\<close>

definition other_members :: "crypto \<Rightarrow> identity \<Rightarrow> string \<Rightarrow> hub \<Rightarrow> alliance_member_row list" where
  "other_members K me a s =
     filter (\<lambda>m. am_alliance m = a \<and> am_hub_key m \<noteq> public_key_hex K me) (alliance_members (federation s))"

definition remember_token :: "string \<Rightarrow> string \<Rightarrow> unit hub_handler" where
  "remember_token pk t = modify (\<lambda>s. s\<lparr>peer_tokens := (peer_tokens s)(pk \<mapsto> t)\<rparr>)"

definition member_token :: "crypto \<Rightarrow> identity \<Rightarrow> network \<Rightarrow> alliance_member_row \<Rightarrow> string option hub_handler" where
  "member_token K me net m =
     and_then (gets (\<lambda>s. peer_tokens s (am_hub_key m))) (\<lambda>cached.
     case cached of Some t \<Rightarrow> ret (Some t)
     | None \<Rightarrow>
         (case authenticate_peer K me net (am_hub_url m) of Inl _ \<Rightarrow> ret None
          | Inr t \<Rightarrow> and_then (remember_token (am_hub_key m) t) (\<lambda>_. ret (Some t))))"

text \<open>The warnings name the peer by \<^verbatim>\<open>&key[..16.min(key.len())]\<close>.\<close>

definition warn_peer :: "string \<Rightarrow> unit hub_handler" where
  "warn_peer key = check (is_char_boundary key (min 16 (length key))) Panic"

fun remote_shared :: "crypto \<Rightarrow> identity \<Rightarrow> network \<Rightarrow> federation_api \<Rightarrow> string \<Rightarrow> alliance_member_row list \<Rightarrow>
    shared_channel_response list hub_handler" where
  "remote_shared K me net api a [] = ret []"
| "remote_shared K me net api a (m # ms) =
     and_then (member_token K me net m) (\<lambda>token.
     and_then (case token of
         None \<Rightarrow> and_then (warn_peer (am_hub_key m)) (\<lambda>_. ret [])
       | Some t \<Rightarrow>
           (case get_alliance_shared_channels api (am_hub_url m) t a of
              Inl _ \<Rightarrow> and_then (warn_peer (am_hub_key m)) (\<lambda>_. ret [])
            | Inr remote \<Rightarrow> ret remote)) (\<lambda>xs.
     and_then (remote_shared K me net api a ms) (\<lambda>ys. ret (xs @ ys))))"

definition local_shared :: "crypto \<Rightarrow> identity \<Rightarrow> string \<Rightarrow> string \<Rightarrow> hub \<Rightarrow> shared_channel_response list" where
  "local_shared K me boot_name a s =
     concat (map (\<lambda>r. map (\<lambda>c. \<lparr>sc_channel = shared_channel r, sc_name = channel_name c, sc_hub_key = public_key_hex K me,
         sc_hub_name = current_hub_name boot_name s\<rparr>)
         (filter (\<lambda>c. channel_id c = shared_channel r) (channels s)))
       (filter (\<lambda>r. shared_alliance r = a) (alliance_shared_channels s)))"

definition list_shared_channels :: "crypto \<Rightarrow> identity \<Rightarrow> network \<Rightarrow> federation_api \<Rightarrow> string \<Rightarrow> string \<Rightarrow>
    shared_channel_response list hub_handler" where
  "list_shared_channels K me net api boot_name a =
     and_then (gets (local_shared K me boot_name a)) (\<lambda>out.
     and_then (gets (other_members K me a)) (\<lambda>members.
     and_then (remote_shared K me net api a members) (\<lambda>remote.
     ret (out @ remote))))"

subsection \<open>Messages in alliance channels\<close>

definition is_local :: "string \<Rightarrow> string \<Rightarrow> hub \<Rightarrow> bool" where
  "is_local a c s \<longleftrightarrow> exists_row (\<lambda>r. shared_key r = (a, c)) (alliance_shared_channels s)"

text \<open>The first member that answers with a list of shared channels containing \<open>c\<close>, and the session there.\<close>

fun find_owner :: "crypto \<Rightarrow> identity \<Rightarrow> network \<Rightarrow> federation_api \<Rightarrow> string \<Rightarrow> string \<Rightarrow> alliance_member_row list \<Rightarrow>
    (alliance_member_row \<times> string) option hub_handler" where
  "find_owner K me net api a c [] = ret None"
| "find_owner K me net api a c (m # ms) =
     and_then (member_token K me net m) (\<lambda>token.
     case token of None \<Rightarrow> find_owner K me net api a c ms
     | Some t \<Rightarrow>
         (case get_alliance_shared_channels api (am_hub_url m) t a of
            Inl _ \<Rightarrow> find_owner K me net api a c ms
          | Inr shared \<Rightarrow>
              if list_ex (\<lambda>x. sc_channel x = c) shared then ret (Some (m, t)) else find_owner K me net api a c ms))"

definition user_label :: "string \<Rightarrow> string \<Rightarrow> hub \<Rightarrow> string result" where
  "user_label boot_name user s =
     (let via = '' via '' @ current_hub_name boot_name s @ ''] '' in
      case display_name s user of
        Some name \<Rightarrow> Inr (''['' @ name @ via)
      | None \<Rightarrow> if is_char_boundary user 16 then Inr (''['' @ take 16 user @ via) else Inl Panic)"

definition post_alliance_channel_message :: "crypto \<Rightarrow> identity \<Rightarrow> network \<Rightarrow> federation_api \<Rightarrow> string \<Rightarrow>
    (string \<Rightarrow> string) \<Rightarrow> slash_bot \<Rightarrow> message_ids \<Rightarrow> int \<Rightarrow> string \<Rightarrow> string \<Rightarrow> string \<Rightarrow> send_message_request \<Rightarrow>
    (status_code \<times> message_response) hub_handler" where
  "post_alliance_channel_message K me net api boot_name lower post ids now user a c req =
     and_then (gets (user_permissions user)) (\<lambda>perms.
     and_then (require_permission perms SEND_MESSAGES) (\<lambda>_.
     and_then (gets (is_local a c)) (\<lambda>here.
     if here then send_message lower post ids now user c req
     else
       and_then (gets (other_members K me a)) (\<lambda>members.
       and_then (find_owner K me net api a c members) (\<lambda>owner.
       and_then (ok_or owner (Reject NOT_FOUND ''Alliance channel not found on any member hub'')) (\<lambda>(m, t).
       and_then (gets (user_label boot_name user)) (\<lambda>label.
       and_then (lift label) (\<lambda>prefix.
       lift (case send_remote_message api (am_hub_url m) t c (prefix @ smr_content req) of
               Inl e \<Rightarrow> Inl (Reject BAD_GATEWAY (''Failed to deliver message to peer: '' @ e))
             | Inr msg \<Rightarrow> Inr (CREATED, msg))))))))))"

definition get_alliance_channel_messages :: "crypto \<Rightarrow> identity \<Rightarrow> network \<Rightarrow> federation_api \<Rightarrow> string \<Rightarrow> string \<Rightarrow> string \<Rightarrow>
    message_response list hub_handler" where
  "get_alliance_channel_messages K me net api user a c =
     and_then (gets (is_local a c)) (\<lambda>here.
     if here then
       gets (\<lambda>s. map (\<lambda>m. (message_view s (load_reactions s (msg_id m) user) m)\<lparr>mr_reply_to := None\<rparr>)
         (take 50 (newest_first (filter (\<lambda>m. msg_channel m = c) (messages s)))))
     else
       and_then (gets (other_members K me a)) (\<lambda>members.
       and_then (find_owner K me net api a c members) (\<lambda>owner.
       and_then (ok_or owner (Reject NOT_FOUND ''Alliance channel not found on any member hub'')) (\<lambda>(m, t).
       lift (case get_remote_messages api (am_hub_url m) t c of
               Inl e \<Rightarrow> Inl (Reject BAD_GATEWAY (''Failed to fetch messages from peer: '' @ e))
             | Inr xs \<Rightarrow> Inr xs)))))"

definition delete_alliance :: "string \<Rightarrow> unit hub_handler" where
  "delete_alliance a =
     exec (\<lambda>s. if exists_row (\<lambda>m. am_alliance m = a) (alliance_members (federation s)) \<or>
           exists_row (\<lambda>r. shared_alliance r = a) (alliance_shared_channels s)
         then (if alliance_exists s a then Inl (DbError FOREIGN_KEY) else Inr s)
         else Inr (s\<lparr>federation := (federation s)\<lparr>alliances := delete_where (\<lambda>r. al_id r = a) (alliances (federation s))\<rparr>\<rparr>))"

definition leave_alliance :: "crypto \<Rightarrow> identity \<Rightarrow> string \<Rightarrow> string \<Rightarrow> status_code hub_handler" where
  "leave_alliance K me user a =
     and_then (gets (user_permissions user)) (\<lambda>perms.
     and_then (require_permission perms ADMIN) (\<lambda>_.
     and_then (modify (\<lambda>s. s\<lparr>alliance_shared_channels :=
       delete_where (\<lambda>r. shared_alliance r = a \<and> channel_exists s (shared_channel r)) (alliance_shared_channels s)\<rparr>)) (\<lambda>_.
     and_then (on_federation (\<lambda>f. f\<lparr>alliance_members :=
       delete_where (\<lambda>m. am_key m = (a, public_key_hex K me)) (alliance_members f)\<rparr>)) (\<lambda>_.
     and_then (gets (\<lambda>s. count_rows (\<lambda>m. am_alliance m = a) (alliance_members (federation s)))) (\<lambda>n.
     and_then (if n = 0 then delete_alliance a else ret ()) (\<lambda>_.
     ret NO_CONTENT))))))"

subsection \<open>Invites and joining\<close>

definition invite_token :: "crypto \<Rightarrow> identity \<Rightarrow> string \<Rightarrow> string" where
  "invite_token K me a = hex_encode K (sign K me (as_bytes a))"

definition create_alliance_invite :: "crypto \<Rightarrow> identity \<Rightarrow> string \<Rightarrow> string \<Rightarrow> (string \<times> string \<times> string \<times> string) hub_handler" where
  "create_alliance_invite K me user a =
     and_then (gets (user_permissions user)) (\<lambda>perms.
     and_then (require_permission perms ADMIN) (\<lambda>_.
     and_then (require_alliance a) (\<lambda>r.
     ret (invite_token K me a, al_id r, al_name r, ''self''))))"

definition declined_text :: "nat \<Rightarrow> string" where
  "declined_text code =
     (if code = 403 \<or> code = 401 then ''The invite has expired or has already been used.''
      else if code = 409 then ''This hub is already a member of the alliance.''
      else ''The inviting hub declined the join request. The invite may be invalid or expired.'')"

definition unreachable :: failure where
  "unreachable = Reject BAD_GATEWAY ''Could not reach the inviting hub. It may be offline or its URL has changed.''"

text \<open>The remote part of a join: log in, ask to join, read the alliance.\<close>

definition join_remotely :: "crypto \<Rightarrow> identity \<Rightarrow> network \<Rightarrow> federation_api \<Rightarrow> string \<Rightarrow> string \<Rightarrow> string \<Rightarrow> string \<Rightarrow>
    (string \<times> alliance_detail) result" where
  "join_remotely K me net api inviter a token own_url =
     (case authenticate_peer K me net inviter of Inl _ \<Rightarrow> Inl unreachable
      | Inr t \<Rightarrow>
          (case api_join api inviter t a token own_url of None \<Rightarrow> Inl unreachable
           | Some (code, body) \<Rightarrow>
               if \<not> is_success code then Inl (Reject (from_u16 code) (declined_text code))
               else (case get_alliance_detail api inviter t a of
                       Inl _ \<Rightarrow> Inl (Reject BAD_GATEWAY
                         ''Joined the alliance but could not load its details. Try refreshing the page.'')
                     | Inr detail \<Rightarrow> Inr (t, detail))))"

definition insert_or_ignore_peer :: "peer_row \<Rightarrow> unit hub_handler" where
  "insert_or_ignore_peer r =
     writing (\<lambda>s. insert_or_ignore (same_key peer_key) True r (peers s)) (\<lambda>t s. s\<lparr>peers := t\<rparr>)"

definition cache_inviter :: "int \<Rightarrow> string \<Rightarrow> string \<Rightarrow> alliance_detail \<Rightarrow> unit hub_handler" where
  "cache_inviter now inviter token detail =
     and_then (gets (\<lambda>s. fetch_optional (\<lambda>m. am_alliance m = ad_id detail \<and> am_hub_url m = inviter) (alliance_members (federation s)))) (\<lambda>row.
     case row of None \<Rightarrow> ret ()
     | Some m \<Rightarrow>
         and_then (remember_token (am_hub_key m) token) (\<lambda>_.
         and_then (gets (\<lambda>s. exists_row (\<lambda>p. peer_key p = am_hub_key m) (peers s))) (\<lambda>known.
         if known then ret ()
         else for_each (\<lambda>x. ignoring (insert_or_ignore_peer \<lparr>peer_key = ami_key x, peer_name = ami_name x, peer_url = ami_url x,
                peer_added = now\<rparr>))
              (filter (\<lambda>x. ami_url x \<noteq> ''self'' \<and> ami_url x = inviter) (ad_members detail)))))"

definition mirrored_member :: "crypto \<Rightarrow> identity \<Rightarrow> string \<Rightarrow> alliance_member_info \<Rightarrow> alliance_member_row" where
  "mirrored_member K me a x = \<lparr>am_alliance = a, am_hub_key = ami_key x, am_hub_name = ami_name x,
     am_hub_url = (if ami_key x = public_key_hex K me then ''self'' else ami_url x), am_joined = ami_joined x\<rparr>"

definition do_join_alliance :: "crypto \<Rightarrow> identity \<Rightarrow> network \<Rightarrow> federation_api \<Rightarrow> int \<Rightarrow> string \<Rightarrow> string \<Rightarrow> string \<Rightarrow> string \<Rightarrow>
    alliance_detail hub_handler" where
  "do_join_alliance K me net api now inviter a token own_url =
     and_then (lift (join_remotely K me net api inviter a token own_url)) (\<lambda>(t, detail).
     and_then (insert_or_ignore_alliance \<lparr>al_id = ad_id detail, al_name = ad_name detail, al_created_by = ad_created_by detail,
       al_created = ad_created detail\<rparr>) (\<lambda>_.
     and_then (for_each (\<lambda>x. insert_or_ignore_alliance_member (mirrored_member K me (ad_id detail) x)) (ad_members detail)) (\<lambda>_.
     and_then (cache_inviter now inviter t detail) (\<lambda>_.
     ret detail))))"

record join_local_request =
  jlr_inviter_url :: string
  jlr_alliance :: string
  jlr_token :: string
  jlr_own_url :: string

definition join_alliance_local :: "crypto \<Rightarrow> identity \<Rightarrow> network \<Rightarrow> federation_api \<Rightarrow> int \<Rightarrow> string \<Rightarrow> join_local_request \<Rightarrow>
    alliance_detail hub_handler" where
  "join_alliance_local K me net api now user req =
     and_then (gets (user_permissions user)) (\<lambda>perms.
     and_then (require_permission perms ADMIN) (\<lambda>_.
     do_join_alliance K me net api now (trim_end_slash (jlr_inviter_url req)) (jlr_alliance req) (jlr_token req) (jlr_own_url req)))"

definition push_invite_handler :: "crypto \<Rightarrow> identity \<Rightarrow> federation_api \<Rightarrow> string \<Rightarrow> string \<Rightarrow> string \<Rightarrow> string \<Rightarrow> string \<Rightarrow>
    string option \<Rightarrow> status_code hub_handler" where
  "push_invite_handler K me api uuid user a target_url own_url message =
     and_then (gets (user_permissions user)) (\<lambda>perms.
     and_then (require_permission perms ADMIN) (\<lambda>_.
     and_then (require_alliance a) (\<lambda>r.
     and_then (gets (setting ''name'')) (\<lambda>name.
     let payload = \<lparr>aip_id = uuid, aip_alliance = al_id r, aip_alliance_name = al_name r, aip_from_url = own_url,
         aip_from_name = (case name of None \<Rightarrow> ''Unknown'' | Some n \<Rightarrow> n), aip_from_key = public_key_hex K me,
         aip_token = invite_token K me a, aip_message = message\<rparr> in
     lift (case api_invite api (trim_end_slash target_url) payload of
             Inl e \<Rightarrow> Inl (Reject BAD_GATEWAY (''Failed to reach target hub: '' @ e))
           | Inr (code, body) \<Rightarrow>
               if is_success code then Inr OK
               else Inl (Reject (from_u16 code) (''Target hub rejected invite: '' @ body)))))))"

definition receive_federation_alliance_invite :: "int \<Rightarrow> alliance_invite_payload \<Rightarrow> status_code hub_handler" where
  "receive_federation_alliance_invite now p =
     and_then (writing (\<lambda>s. insert_or_ignore (same_key pi_id) True
         \<lparr>pi_id = aip_id p, pi_alliance = aip_alliance p, pi_alliance_name = aip_alliance_name p, pi_from_url = aip_from_url p,
          pi_from_name = aip_from_name p, pi_from_key = aip_from_key p, pi_token = aip_token p, pi_created = now,
          pi_message = aip_message p\<rparr> (pending_alliance_invites (federation s)))
       (\<lambda>t s. s\<lparr>federation := (federation s)\<lparr>pending_alliance_invites := t\<rparr>\<rparr>)) (\<lambda>_.
     ret OK)"

definition list_pending_invites :: "string \<Rightarrow> pending_invite_row list hub_handler" where
  "list_pending_invites user =
     and_then (gets (user_permissions user)) (\<lambda>perms.
     and_then (require_permission perms ADMIN) (\<lambda>_.
     gets (\<lambda>s. sort_key (\<lambda>r. - pi_created r) (pending_alliance_invites (federation s)))))"

definition drop_pending_invite :: "string \<Rightarrow> unit hub_handler" where
  "drop_pending_invite i =
     on_federation (\<lambda>f. f\<lparr>pending_alliance_invites := delete_where (\<lambda>r. pi_id r = i) (pending_alliance_invites f)\<rparr>)"

definition accept_pending_invite :: "crypto \<Rightarrow> identity \<Rightarrow> network \<Rightarrow> federation_api \<Rightarrow> int \<Rightarrow> string \<Rightarrow> string \<Rightarrow> string \<Rightarrow>
    alliance_detail hub_handler" where
  "accept_pending_invite K me net api now user i own_url =
     and_then (gets (user_permissions user)) (\<lambda>perms.
     and_then (require_permission perms ADMIN) (\<lambda>_.
     and_then (gets (\<lambda>s. row_at pi_id i (pending_alliance_invites (federation s)))) (\<lambda>row.
     and_then (ok_or row (Reject NOT_FOUND ''Pending invite not found'')) (\<lambda>r.
     and_then (do_join_alliance K me net api now (trim_end_slash (pi_from_url r)) (pi_alliance r) (pi_token r) own_url) (\<lambda>detail.
     and_then (drop_pending_invite i) (\<lambda>_.
     ret detail))))))"

definition decline_pending_invite :: "string \<Rightarrow> string \<Rightarrow> status_code hub_handler" where
  "decline_pending_invite user i =
     and_then (gets (user_permissions user)) (\<lambda>perms.
     and_then (require_permission perms ADMIN) (\<lambda>_.
     and_then (drop_pending_invite i) (\<lambda>_.
     ret NO_CONTENT)))"

definition insert_peer :: "peer_row \<Rightarrow> unit hub_handler" where
  "insert_peer r =
     writing (\<lambda>s. insert_row (same_key peer_key) True r (peers s)) (\<lambda>t s. s\<lparr>peers := t\<rparr>)"

definition join_alliance :: "crypto \<Rightarrow> identity \<Rightarrow> network \<Rightarrow> int \<Rightarrow> string \<Rightarrow> string \<Rightarrow> string \<Rightarrow> status_code hub_handler" where
  "join_alliance K me net now a token url =
     and_then (lift (case hex_decode K token of Inl _ \<Rightarrow> Inl (Reject BAD_REQUEST ''Invalid invite token hex'') | Inr sig \<Rightarrow> Inr sig)) (\<lambda>sig.
     and_then (check (verify_signature K (public_key_hex K me) (as_bytes a) sig = Inr ()) (Reject FORBIDDEN ''Invalid invite token'')) (\<lambda>_.
     and_then (lift (case get_info net url of Inl e \<Rightarrow> Inl (Reject BAD_GATEWAY (''Cannot reach hub: '' @ e)) | Inr x \<Rightarrow> Inr x)) (\<lambda>(pk, name).
     and_then (insert_or_ignore_alliance_member \<lparr>am_alliance = a, am_hub_key = pk, am_hub_name = name, am_hub_url = url, am_joined = now\<rparr>) (\<lambda>_.
     and_then (gets (\<lambda>s. exists_row (\<lambda>p. peer_key p = pk) (peers s))) (\<lambda>known.
     and_then (if known then ret ()
       else and_then (insert_peer \<lparr>peer_key = pk, peer_name = name, peer_url = url, peer_added = now\<rparr>) (\<lambda>_.
            case authenticate_peer K me net url of Inl _ \<Rightarrow> ret () | Inr t \<Rightarrow> remember_token pk t)) (\<lambda>_.
     and_then (check (is_char_boundary a 8) Panic) (\<lambda>_.
     ret OK)))))))"

subsection \<open>Peers and their channels\<close>

definition add_peer :: "crypto \<Rightarrow> identity \<Rightarrow> network \<Rightarrow> int \<Rightarrow> string \<Rightarrow> string \<Rightarrow> (status_code \<times> peer_row) hub_handler" where
  "add_peer K me net now user raw_url =
     and_then (gets (user_permissions user)) (\<lambda>perms.
     and_then (require_permission perms ADMIN) (\<lambda>_.
     let url = trim_end_slash raw_url in
     and_then (lift (case get_info net url of Inl e \<Rightarrow> Inl (Reject BAD_GATEWAY (''Cannot reach peer: '' @ e)) | Inr x \<Rightarrow> Inr x)) (\<lambda>(pk, name).
     and_then (lift (case authenticate_peer K me net url of Inl e \<Rightarrow> Inl (Reject BAD_GATEWAY (''Handshake failed: '' @ e)) | Inr t \<Rightarrow> Inr t)) (\<lambda>token.
     and_then (upsert_peer pk name url now) (\<lambda>_.
     and_then (remember_token pk token) (\<lambda>_.
     and_then (log_prefix pk) (\<lambda>_.
     ret (CREATED, \<lparr>peer_key = pk, peer_name = name, peer_url = url, peer_added = now\<rparr>))))))))"

definition list_peers :: "peer_row list hub_handler" where
  "list_peers = gets (\<lambda>s. sort_key peer_added (peers s))"

definition get_peer :: "string \<Rightarrow> peer_row hub_handler" where
  "get_peer pk = and_then (gets (\<lambda>s. row_at peer_key pk (peers s))) (\<lambda>row. ok_or row (Reject NOT_FOUND ''Peer not found''))"

definition get_peer_token :: "string \<Rightarrow> string hub_handler" where
  "get_peer_token pk =
     and_then (gets (\<lambda>s. peer_tokens s pk)) (\<lambda>t.
     ok_or t (Reject UNAUTHORIZED ''No active session with this peer. Re-add the peer to re-authenticate.''))"

text \<open>
  \<^verbatim>\<open>ON CONFLICT(peer_public_key, remote_id)\<close> covers that constraint only; a clash of the primary key is
  an error.
\<close>

definition fc_key :: "fed_channel_row \<Rightarrow> string \<times> string" where
  "fc_key r = (fc_peer r, fc_remote r)"

definition upsert_fed_channel :: "fed_channel_row \<Rightarrow> unit hub_handler" where
  "upsert_fed_channel r =
     writing (\<lambda>s. if \<not> exists_row (same_key fc_key r) (federated_channels (federation s)) \<and>
           exists_row (same_key fc_id r) (federated_channels (federation s)) then Inl (DbError UNIQUE)
         else upsert (same_key fc_key) (exists_row (\<lambda>p. peer_key p = fc_peer r) (peers s)) r
           (\<lambda>q. q\<lparr>fc_name := fc_name r, fc_synced := fc_synced r\<rparr>) (federated_channels (federation s)))
       (\<lambda>t s. s\<lparr>federation := (federation s)\<lparr>federated_channels := t\<rparr>\<rparr>)"

definition fed_channel :: "string \<Rightarrow> int \<Rightarrow> channel_response \<Rightarrow> fed_channel_row" where
  "fed_channel pk now ch = \<lparr>fc_id = take 16 pk @ '':'' @ cr_id ch, fc_peer = pk, fc_remote = cr_id ch, fc_name = cr_name ch,
     fc_created = cr_created ch, fc_synced = now\<rparr>"

definition peer_channels :: "federation_api \<Rightarrow> int \<Rightarrow> string \<Rightarrow> fed_channel_row list hub_handler" where
  "peer_channels api now pk =
     and_then (get_peer pk) (\<lambda>peer.
     and_then (get_peer_token pk) (\<lambda>token.
     and_then (lift (case get_channels api (peer_url peer) token of
         Inl e \<Rightarrow> Inl (Reject BAD_GATEWAY (''Failed to fetch channels: '' @ e)) | Inr xs \<Rightarrow> Inr xs)) (\<lambda>chs.
     and_then (for_each (\<lambda>ch. and_then (check (is_char_boundary pk 16) Panic) (\<lambda>_. upsert_fed_channel (fed_channel pk now ch))) chs) (\<lambda>_.
     ret (map (fed_channel pk now) chs)))))"

definition all_federated_channels :: "fed_channel_row list hub_handler" where
  "all_federated_channels = gets (\<lambda>s. sort_key fc_name (federated_channels (federation s)))"

record federated_message_response =
  fmr_id :: string
  fmr_remote :: string
  fmr_sender :: string
  fmr_content :: string
  fmr_created :: int

definition fed_view :: "message_response \<Rightarrow> federated_message_response" where
  "fed_view m = \<lparr>fmr_id = mr_id m, fmr_remote = mr_id m, fmr_sender = mr_sender m, fmr_content = mr_content m, fmr_created = mr_created m\<rparr>"

definition require_fed_channel :: "string \<Rightarrow> fed_channel_row hub_handler" where
  "require_fed_channel i =
     and_then (gets (\<lambda>s. row_at fc_id i (federated_channels (federation s)))) (\<lambda>row.
     ok_or row (Reject NOT_FOUND ''Federated channel not found''))"

definition insert_fed_message :: "fed_message_row \<Rightarrow> unit hub_handler" where
  "insert_fed_message r =
     writing (\<lambda>s. insert_or_ignore (\<lambda>x q. fm_id q = fm_id x \<or> (fm_channel q = fm_channel x \<and> fm_remote q = fm_remote x))
         (exists_row (\<lambda>c. fc_id c = fm_channel r) (federated_channels (federation s))) r (federated_messages (federation s)))
       (\<lambda>t s. s\<lparr>federation := (federation s)\<lparr>federated_messages := t\<rparr>\<rparr>)"

definition fetch_federated_messages :: "federation_api \<Rightarrow> (nat \<Rightarrow> string) \<Rightarrow> string \<Rightarrow> federated_message_response list hub_handler" where
  "fetch_federated_messages api uuid i =
     and_then (require_fed_channel i) (\<lambda>ch.
     and_then (get_peer (fc_peer ch)) (\<lambda>peer.
     and_then (get_peer_token (fc_peer ch)) (\<lambda>token.
     and_then (lift (case get_remote_messages api (peer_url peer) token (fc_remote ch) of
         Inl e \<Rightarrow> Inl (Reject BAD_GATEWAY (''Failed to fetch messages: '' @ e)) | Inr xs \<Rightarrow> Inr xs)) (\<lambda>msgs.
     and_then (for_each (\<lambda>(n, m). ignoring (insert_fed_message \<lparr>fm_id = uuid n, fm_channel = i, fm_remote = mr_id m, fm_sender = mr_sender m,
         fm_content = mr_content m, fm_created = mr_created m\<rparr>)) (enumerate 0 msgs)) (\<lambda>_.
     ret (map fed_view msgs))))))"

definition send_federated_message :: "federation_api \<Rightarrow> string \<Rightarrow> send_message_request \<Rightarrow>
    (status_code \<times> federated_message_response) hub_handler" where
  "send_federated_message api i req =
     and_then (require_fed_channel i) (\<lambda>ch.
     and_then (get_peer (fc_peer ch)) (\<lambda>peer.
     and_then (get_peer_token (fc_peer ch)) (\<lambda>token.
     lift (case send_remote_message api (peer_url peer) token (fc_remote ch) (smr_content req) of
             Inl e \<Rightarrow> Inl (Reject BAD_GATEWAY (''Failed to send message: '' @ e))
           | Inr m \<Rightarrow> Inr (CREATED, fed_view m)))))"

subsection \<open>Requests, as one type of operations\<close>

datatype alliance_op =
    CreateAlliance string int string string
  | ShareChannel int string string string
  | UnshareChannel string string string
  | ListShared network federation_api string
  | PostAllianceMessage network federation_api "string \<Rightarrow> string" slash_bot message_ids int string string string send_message_request
  | ReadAllianceMessages network federation_api string string string
  | LeaveAlliance string string
  | JoinLocal network federation_api int string join_local_request
  | ReceiveInvite int alliance_invite_payload
  | AcceptInvite network federation_api int string string string
  | DeclineInvite string string
  | JoinAlliance network int string string string
  | AddPeer network int string string
  | PeerChannels federation_api int string
  | FederatedMessages federation_api "nat \<Rightarrow> string" string
  | ManageChannel channel_op

text \<open>\<open>K\<close>, \<open>me\<close> and \<open>nm\<close> are the hub's libraries, identity and configured name.\<close>

fun alliance_step :: "crypto \<Rightarrow> identity \<Rightarrow> string \<Rightarrow> hub \<Rightarrow> alliance_op \<Rightarrow> hub" where
  "alliance_step K me nm s (CreateAlliance uuid now user name) = snd (create_alliance K me nm uuid now user name s)"
| "alliance_step K me nm s (ShareChannel now user a c) = snd (share_channel now user a c s)"
| "alliance_step K me nm s (UnshareChannel user a c) = snd (unshare_channel user a c s)"
| "alliance_step K me nm s (ListShared net api a) = snd (list_shared_channels K me net api nm a s)"
| "alliance_step K me nm s (PostAllianceMessage net api lower post ids now user a c req) =
     snd (post_alliance_channel_message K me net api nm lower post ids now user a c req s)"
| "alliance_step K me nm s (ReadAllianceMessages net api user a c) = snd (get_alliance_channel_messages K me net api user a c s)"
| "alliance_step K me nm s (LeaveAlliance user a) = snd (leave_alliance K me user a s)"
| "alliance_step K me nm s (JoinLocal net api now user req) = snd (join_alliance_local K me net api now user req s)"
| "alliance_step K me nm s (ReceiveInvite now p) = snd (receive_federation_alliance_invite now p s)"
| "alliance_step K me nm s (AcceptInvite net api now user i own) = snd (accept_pending_invite K me net api now user i own s)"
| "alliance_step K me nm s (DeclineInvite user i) = snd (decline_pending_invite user i s)"
| "alliance_step K me nm s (JoinAlliance net now a token url) = snd (join_alliance K me net now a token url s)"
| "alliance_step K me nm s (AddPeer net now user url) = snd (add_peer K me net now user url s)"
| "alliance_step K me nm s (PeerChannels api now pk) = snd (peer_channels api now pk s)"
| "alliance_step K me nm s (FederatedMessages api uuid i) = snd (fetch_federated_messages api uuid i s)"
| "alliance_step K me nm s (ManageChannel op) = channel_step s op"

subsection \<open>Keys and references\<close>

definition alliances_ok :: "hub \<Rightarrow> bool" where
  "alliances_ok s \<longleftrightarrow> keyed al_id (alliances (federation s)) \<and> keyed am_key (alliance_members (federation s)) \<and>
     keyed shared_key (alliance_shared_channels s) \<and>
     (\<forall>m \<in> set (alliance_members (federation s)). alliance_exists s (am_alliance m)) \<and>
     (\<forall>r \<in> set (alliance_shared_channels s). alliance_exists s (shared_alliance r) \<and> channel_exists s (shared_channel r))"

lemma alliances_ok_frames:
  "alliances_ok s \<Longrightarrow> alliances_ok (s\<lparr>messages := x1\<rparr>)" "alliances_ok s \<Longrightarrow> alliances_ok (s\<lparr>message_reactions := x2\<rparr>)"
  "alliances_ok s \<Longrightarrow> alliances_ok (s\<lparr>message_components := x3\<rparr>)" "alliances_ok s \<Longrightarrow> alliances_ok (s\<lparr>chat_tx := x4\<rparr>)"
  "alliances_ok s \<Longrightarrow> alliances_ok (s\<lparr>spawned := x5\<rparr>)" "alliances_ok s \<Longrightarrow> alliances_ok (s\<lparr>peers := x6\<rparr>)"
  "alliances_ok s \<Longrightarrow> alliances_ok (s\<lparr>peer_tokens := x7\<rparr>)" "alliances_ok s \<Longrightarrow> alliances_ok (s\<lparr>channel_bans := x8\<rparr>)"
  "alliances_ok s \<Longrightarrow> alliances_ok (s\<lparr>channel_settings := x9\<rparr>)"
  "alliances_ok s \<Longrightarrow> alliances_ok (s\<lparr>federation := (federation s)\<lparr>pending_alliance_invites := y1\<rparr>\<rparr>)"
  "alliances_ok s \<Longrightarrow> alliances_ok (s\<lparr>federation := (federation s)\<lparr>federated_channels := y2\<rparr>\<rparr>)"
  "alliances_ok s \<Longrightarrow> alliances_ok (s\<lparr>federation := (federation s)\<lparr>federated_messages := y3\<rparr>\<rparr>)"
  by (simp_all add: alliances_ok_def alliance_exists_def channel_exists_def)

lemma alliances_ok_inserts:
  "preserves alliances_ok (insert_alliance r)" "preserves alliances_ok (insert_or_ignore_alliance r)"
  "preserves alliances_ok (insert_alliance_member m)" "preserves alliances_ok (insert_or_ignore_alliance_member m)"
  unfolding insert_alliance_def insert_or_ignore_alliance_def insert_alliance_member_def insert_or_ignore_alliance_member_def
  by (rule preserves_writing; auto simp: ok_iffs alliances_ok_def alliance_exists_def channel_exists_def exists_row_iff keyed_snoc
      same_key_def split: if_splits)+

lemma alliances_ok_share:
  "preserves alliances_ok (share_channel now user a c)" "preserves alliances_ok (unshare_channel user a c)"
proof -
  show "preserves alliances_ok (share_channel now user a c)"
    unfolding share_channel_def require_permission_def
    by (intro keeps preserves_writing)
      (auto simp: ok_iffs alliances_ok_def alliance_exists_def channel_exists_def exists_row_iff keyed_snoc same_key_def split: if_splits)
  show "preserves alliances_ok (unshare_channel user a c)"
    unfolding unshare_channel_def require_permission_def
    by (intro keeps preserves_modify)
      (auto simp: alliances_ok_def alliance_exists_def channel_exists_def keyed_delete_where set_delete_where)
qed

lemma alliances_ok_leave: "preserves alliances_ok (leave_alliance K me user a)"
proof -
  have "preserves alliances_ok (delete_alliance a)"
    unfolding delete_alliance_def
    by (rule preserves_exec)
      ((auto simp: alliances_ok_def alliance_exists_def channel_exists_def exists_row_iff keyed_delete_where set_delete_where
        split: if_splits), metis+)
  then show ?thesis
    unfolding leave_alliance_def require_permission_def on_federation_def
    by (intro keeps preserves_modify)
      (auto simp: alliances_ok_def alliance_exists_def channel_exists_def keyed_delete_where set_delete_where)
qed

text \<open>A property that depends on none of what the calls to other hubs write survives them.\<close>

lemma member_token_keeps:
  "(\<And>t x. P t \<Longrightarrow> P (t\<lparr>peer_tokens := x\<rparr>)) \<Longrightarrow> preserves P (member_token K me net m)"
  unfolding member_token_def remember_token_def by (intro keeps preserves_modify)

lemma remote_reads_keep:
  assumes "\<And>t x. P t \<Longrightarrow> P (t\<lparr>peer_tokens := x\<rparr>)"
  shows "preserves P (remote_shared K me net api a ms)" "preserves P (find_owner K me net api a c ms)"
  by (induction ms) (auto intro!: keeps member_token_keeps assms simp: warn_peer_def)

lemma send_message_keeps:
  assumes "\<And>t x. P t \<Longrightarrow> P (t\<lparr>messages := x\<rparr>)" "\<And>t x. P t \<Longrightarrow> P (t\<lparr>message_reactions := x\<rparr>)"
    "\<And>t x. P t \<Longrightarrow> P (t\<lparr>message_components := x\<rparr>)" "\<And>t x. P t \<Longrightarrow> P (t\<lparr>chat_tx := x\<rparr>)"
    "\<And>t x. P t \<Longrightarrow> P (t\<lparr>spawned := x\<rparr>)"
  shows "preserves P (send_message lower post ids now user c req)"
  using message_requests_keep [of P _ "SendMessage lower post ids now user c req"] assms by (simp add: preserves_def)

lemma alliance_reads_keep:
  assumes "\<And>t x. P t \<Longrightarrow> P (t\<lparr>messages := x\<rparr>)" "\<And>t x. P t \<Longrightarrow> P (t\<lparr>message_reactions := x\<rparr>)"
    "\<And>t x. P t \<Longrightarrow> P (t\<lparr>message_components := x\<rparr>)" "\<And>t x. P t \<Longrightarrow> P (t\<lparr>chat_tx := x\<rparr>)"
    "\<And>t x. P t \<Longrightarrow> P (t\<lparr>spawned := x\<rparr>)" "\<And>t x. P t \<Longrightarrow> P (t\<lparr>peer_tokens := x\<rparr>)" "\<And>t x. P t \<Longrightarrow> P (t\<lparr>peers := x\<rparr>)"
    "\<And>t x. P t \<Longrightarrow> P (t\<lparr>federation := (federation t)\<lparr>pending_alliance_invites := x\<rparr>\<rparr>)"
    "\<And>t x. P t \<Longrightarrow> P (t\<lparr>federation := (federation t)\<lparr>federated_channels := x\<rparr>\<rparr>)"
    "\<And>t x. P t \<Longrightarrow> P (t\<lparr>federation := (federation t)\<lparr>federated_messages := x\<rparr>\<rparr>)"
  shows "preserves P (list_shared_channels K me net api nm a)" "preserves P (get_alliance_channel_messages K me net api user a c)"
    "preserves P (post_alliance_channel_message K me net api nm lower post ids now user a c req)"
    "preserves P (receive_federation_alliance_invite now p)" "preserves P (decline_pending_invite user i)"
    "preserves P (add_peer K me net now user url)" "preserves P (peer_channels api now pk)"
    "preserves P (fetch_federated_messages api uuid i)" "preserves P (drop_pending_invite i)"
    "preserves P (cache_inviter now inviter token detail)"
  unfolding list_shared_channels_def get_alliance_channel_messages_def post_alliance_channel_message_def
    receive_federation_alliance_invite_def decline_pending_invite_def add_peer_def peer_channels_def fetch_federated_messages_def
    drop_pending_invite_def on_federation_def cache_inviter_def remember_token_def insert_or_ignore_peer_def upsert_peer_def
    get_peer_def get_peer_token_def require_fed_channel_def upsert_fed_channel_def insert_fed_message_def log_prefix_def
    require_permission_def Let_def
  by (intro keeps send_message_keeps remote_reads_keep preserves_writing preserves_modify assms; assumption)+

lemma alliances_ok_joins:
  "preserves alliances_ok (create_alliance K me nm uuid now user name)"
  "preserves alliances_ok (join_alliance K me net now a token url)"
  "preserves alliances_ok (join_alliance_local K me net api now user req)"
  "preserves alliances_ok (accept_pending_invite K me net api now user i own)"
  unfolding create_alliance_def join_alliance_def join_alliance_local_def accept_pending_invite_def do_join_alliance_def
    insert_peer_def remember_token_def require_permission_def Let_def
  by (intro keeps alliances_ok_inserts alliance_reads_keep preserves_writing preserves_modify alliances_ok_frames; assumption)+

subsection \<open>Channel requests beside alliances\<close>

lemma alliances_ok_channels:
  assumes "alliances_ok s" "channel_id ` set (channels s) \<subseteq> channel_id ` set cs"
  shows "alliances_ok (s\<lparr>channels := cs\<rparr>)"
proof -
  have iff: "channel_exists t c \<longleftrightarrow> c \<in> channel_id ` set (channels t)" for t c
    by (auto simp: channel_exists_def exists_row_iff)
  from assms(2) have "channel_exists s c \<Longrightarrow> channel_exists (s\<lparr>channels := cs\<rparr>) c" for c
    unfolding iff by auto
  with assms(1) show ?thesis by (auto simp: alliances_ok_def alliance_exists_def)
qed

lemma alliances_ok_channel_writes:
  "preserves alliances_ok (create_channel user uuid now req)" "preserves alliances_ok (update_channel user c ureq)"
  "preserves alliances_ok (reorder_channels user cs)"
proof -
  have "preserves alliances_ok (insert_channel r)" for r
    unfolding insert_channel_def by (rule preserves_writing) (auto simp: ok_iffs intro!: alliances_ok_channels)
  moreover have "preserves alliances_ok (update_channel_row c f)" if "\<And>r. channel_id (f r) = channel_id r" for c f
    unfolding update_channel_row_def
    by (rule preserves_modify) (auto simp: image_update_where that intro!: alliances_ok_channels)
  moreover have "preserves alliances_ok (rename_channel c n)" for c n
    unfolding rename_channel_def
    by (intro keeps preserves_writing) (auto simp: ok_iffs image_update_where intro!: alliances_ok_channels)
  ultimately show "preserves alliances_ok (create_channel user uuid now req)"
    "preserves alliances_ok (update_channel user c ureq)" "preserves alliances_ok (reorder_channels user cs)"
    unfolding create_channel_def update_channel_def enforce_move_def store_channel_def reorder_channels_def set_order_def
      spawn_publish_hub_event_def require_permission_def Let_def
    by (auto intro!: keeps preserves_modify alliances_ok_frames simp: apply_channel_update_def)
qed

lemma alliances_ok_delete_channel: "preserves alliances_ok (delete_channel user c)"
proof -
  have "preserves alliances_ok (delete_channel_row c)"
    unfolding delete_channel_row_def
    by (rule preserves_exec)
      ((auto simp: Let_def channel_referenced_def alliances_ok_def alliance_exists_def channel_exists_def exists_row_iff
        set_delete_where split: if_splits), metis)
  moreover have "preserves alliances_ok (delete_messages_of c)"
    unfolding delete_messages_of_def Let_def
    by (rule preserves_modify) (simp add: alliances_ok_def alliance_exists_def channel_exists_def)
  moreover have "alliances_ok s \<Longrightarrow> alliances_ok (s\<lparr>alliance_shared_channels := delete_where P (alliance_shared_channels s)\<rparr>)" for s P
    by (auto simp: alliances_ok_def alliance_exists_def channel_exists_def keyed_delete_where set_delete_where)
  ultimately show ?thesis
    unfolding delete_channel_def spawn_publish_hub_event_def require_permission_def
    by (auto intro!: keeps preserves_modify alliances_ok_frames)
qed

lemma alliances_ok_step:
  assumes "alliances_ok s"
  shows "alliances_ok (alliance_step K me nm s op)"
proof (cases op)
  case (ManageChannel cop)
  with assms alliances_ok_channel_writes alliances_ok_delete_channel show ?thesis by (cases cop) (auto simp: preserves_def)
qed (use assms alliances_ok_share alliances_ok_leave alliances_ok_joins
    alliance_reads_keep [where P = alliances_ok, OF alliances_ok_frames(1-5,7,6,10-12)] in \<open>auto simp: preserves_def\<close>)

text \<open>
  Alliance ids, memberships (one per alliance and hub) and shares (one per alliance and channel)
  stay unique, every membership has its alliance and every share its alliance and its channel, over
  any sequence of alliance, federation and channel requests, whatever other hubs answer; so every
  share of an existing alliance is listed with the name of its channel.
\<close>

theorem alliance_references_hold:
  assumes "alliances_ok s"
  shows "alliances_ok (run (alliance_step K me nm) s ops) \<and>
    length (local_shared K me nm a (run (alliance_step K me nm) s ops)) \<ge>
      count_rows (\<lambda>r. shared_alliance r = a) (alliance_shared_channels (run (alliance_step K me nm) s ops))"
proof -
  have ok: "alliances_ok (run (alliance_step K me nm) s ops)" by (rule run_invariant) (simp_all add: alliances_ok_step assms)
  have "count_rows (\<lambda>r. shared_alliance r = a) (alliance_shared_channels t) \<le> length (local_shared K me nm a t)"
    if "alliances_ok t" for t
  proof -
    let ?rs = "filter (\<lambda>r. shared_alliance r = a) (alliance_shared_channels t)"
    let ?f = "\<lambda>r. filter (\<lambda>c. channel_id c = shared_channel r) (channels t)"
    have "?f r \<noteq> []" if "r \<in> set ?rs" for r
      using that \<open>alliances_ok t\<close> by (auto simp: alliances_ok_def channel_exists_def exists_row_iff filter_empty_conv)
    then have "sum_list (map (\<lambda>_. 1) ?rs) \<le> sum_list (map (\<lambda>r. length (?f r)) ?rs)"
      by (intro sum_list_mono) (simp add: Suc_le_eq)
    then show ?thesis by (simp add: local_shared_def count_rows_def length_concat comp_def sum_list_triv)
  qed
  with ok show ?thesis by blast
qed

definition demo_league :: hub where
  "demo_league = demo_chat\<lparr>federation := (federation demo_chat)\<lparr>alliances := [\<lparr>al_id = ''alliance'', al_name = ''A'',
       al_created_by = demo_owner, al_created = 1\<rparr>]\<rparr>\<rparr>"

lemma demo_league_ok: "alliances_ok demo_league"
  by (simp add: alliances_ok_def alliance_exists_def demo_league_def demo_chat_def demo_defs exists_row_def keyed_def)

theorem alliance_references_hold_witness:
  "alliances_ok (run (alliance_step demo_crypto demo_hub_identity ''hub'') demo_league
     [ShareChannel 5 demo_owner ''alliance'' ''c'', ManageChannel (DeleteChannel demo_mod ''c'')])"
  using alliance_references_hold [OF demo_league_ok] by blast

subsection \<open>Who is in an alliance\<close>

definition allies :: "hub \<Rightarrow> (string \<times> string) set" where
  "allies s = am_key ` set (alliance_members (federation s))"

definition invite_valid :: "crypto \<Rightarrow> identity \<Rightarrow> string \<Rightarrow> string \<Rightarrow> bool" where
  "invite_valid K me a token \<longleftrightarrow>
     (case hex_decode K token of Inl _ \<Rightarrow> False | Inr sig \<Rightarrow> verify_signature K (public_key_hex K me) (as_bytes a) sig = Inr ())"

text \<open>The requests that may make the hub with key \<open>k\<close> a member of alliance \<open>a\<close>.\<close>

fun admits :: "crypto \<Rightarrow> identity \<Rightarrow> hub \<Rightarrow> alliance_op \<Rightarrow> string \<Rightarrow> string \<Rightarrow> bool" where
  "admits K me s (CreateAlliance uuid now user name) a k \<longleftrightarrow>
     has_permission (user_permissions user s) ADMIN \<and> uuid = a \<and> public_key_hex K me = k"
| "admits K me s (JoinLocal net api now user req) a k \<longleftrightarrow> has_permission (user_permissions user s) ADMIN"
| "admits K me s (AcceptInvite net api now user i own) a k \<longleftrightarrow> has_permission (user_permissions user s) ADMIN"
| "admits K me s (JoinAlliance net now b token url) a k \<longleftrightarrow>
     b = a \<and> invite_valid K me a token \<and> (\<exists>name. get_info net url = Inr (k, name))"
| "admits K me s op a k \<longleftrightarrow> False"

lemma allies_frames [simp]:
  "allies (s\<lparr>messages := x1\<rparr>) = allies s" "allies (s\<lparr>message_reactions := x2\<rparr>) = allies s"
  "allies (s\<lparr>message_components := x3\<rparr>) = allies s" "allies (s\<lparr>chat_tx := x4\<rparr>) = allies s" "allies (s\<lparr>spawned := x5\<rparr>) = allies s"
  "allies (s\<lparr>peers := x6\<rparr>) = allies s" "allies (s\<lparr>peer_tokens := x7\<rparr>) = allies s" "allies (s\<lparr>channel_bans := x8\<rparr>) = allies s"
  "allies (s\<lparr>channel_settings := x9\<rparr>) = allies s" "allies (s\<lparr>channels := x10\<rparr>) = allies s"
  "allies (s\<lparr>alliance_shared_channels := x11\<rparr>) = allies s" "allies (s\<lparr>posts := x12\<rparr>) = allies s" "allies (s\<lparr>post_replies := x13\<rparr>) = allies s"
  "allies (s\<lparr>federation := (federation s)\<lparr>pending_alliance_invites := y1\<rparr>\<rparr>) = allies s"
  "allies (s\<lparr>federation := (federation s)\<lparr>federated_channels := y2\<rparr>\<rparr>) = allies s"
  "allies (s\<lparr>federation := (federation s)\<lparr>federated_messages := y3\<rparr>\<rparr>) = allies s"
  "allies (s\<lparr>federation := (federation s)\<lparr>alliances := y4\<rparr>\<rparr>) = allies s"
  by (simp_all add: allies_def)

lemma allies_inserts:
  "preserves (\<lambda>t. allies t \<subseteq> M) (insert_alliance r)" "preserves (\<lambda>t. allies t \<subseteq> M) (insert_or_ignore_alliance r)"
  "am_key m \<in> M \<Longrightarrow> preserves (\<lambda>t. allies t \<subseteq> M) (insert_alliance_member m)"
  "am_key m \<in> M \<Longrightarrow> preserves (\<lambda>t. allies t \<subseteq> M) (insert_or_ignore_alliance_member m)"
proof -
  show "preserves (\<lambda>t. allies t \<subseteq> M) (insert_alliance r)" "preserves (\<lambda>t. allies t \<subseteq> M) (insert_or_ignore_alliance r)"
    unfolding insert_alliance_def insert_or_ignore_alliance_def by (rule preserves_writing; simp)+
  show "am_key m \<in> M \<Longrightarrow> preserves (\<lambda>t. allies t \<subseteq> M) (insert_alliance_member m)"
    "am_key m \<in> M \<Longrightarrow> preserves (\<lambda>t. allies t \<subseteq> M) (insert_or_ignore_alliance_member m)"
    unfolding insert_alliance_member_def insert_or_ignore_alliance_member_def
    by (rule preserves_writing; force simp: allies_def ok_iffs split: if_splits)+
qed

lemma allies_shrink:
  "preserves (\<lambda>t. allies t \<subseteq> M) (share_channel now user a c)" "preserves (\<lambda>t. allies t \<subseteq> M) (unshare_channel user a c)"
  "preserves (\<lambda>t. allies t \<subseteq> M) (leave_alliance K me user a)"
proof -
  have "preserves (\<lambda>t. allies t \<subseteq> M) (on_federation (\<lambda>f. f\<lparr>alliance_members := delete_where P (alliance_members f)\<rparr>))" for P
    unfolding on_federation_def by (rule preserves_modify) (auto simp: allies_def set_delete_where)
  moreover have "preserves (\<lambda>t. allies t \<subseteq> M) (delete_alliance a)"
    unfolding delete_alliance_def by (rule preserves_exec) (auto split: if_splits)
  ultimately show "preserves (\<lambda>t. allies t \<subseteq> M) (leave_alliance K me user a)"
    unfolding leave_alliance_def require_permission_def by (auto intro!: keeps preserves_modify)
  show "preserves (\<lambda>t. allies t \<subseteq> M) (share_channel now user a c)" "preserves (\<lambda>t. allies t \<subseteq> M) (unshare_channel user a c)"
    unfolding share_channel_def unshare_channel_def require_permission_def
    by (auto intro!: keeps preserves_modify preserves_writing)
qed

lemma allies_channel_step: "allies (channel_step s op) \<subseteq> allies s"
proof -
  have "preserves (\<lambda>t. allies t \<subseteq> allies s) (delete_channel_row c)" for c
    unfolding delete_channel_row_def by (rule preserves_exec) (auto simp: Let_def allies_def split: if_splits)
  then have "preserves (\<lambda>t. allies t \<subseteq> allies s) (create_channel user uuid now req)" "preserves (\<lambda>t. allies t \<subseteq> allies s) (update_channel user c ureq)"
    "preserves (\<lambda>t. allies t \<subseteq> allies s) (reorder_channels user cs)" "preserves (\<lambda>t. allies t \<subseteq> allies s) (delete_channel user c)"
    for user uuid now req c ureq cs
    unfolding create_channel_def update_channel_def enforce_move_def store_channel_def reorder_channels_def set_order_def
      insert_channel_def update_channel_row_def rename_channel_def delete_channel_def delete_messages_of_def
      spawn_publish_hub_event_def require_permission_def Let_def
    by (auto intro!: keeps preserves_modify preserves_writing simp: allies_def)
  then show ?thesis by (cases op) (auto simp: preserves_def)
qed

lemma refused_changes_nothing:
  assumes "\<not> has_permission (user_permissions user s) ADMIN"
  shows "snd (create_alliance K me nm uuid now user name s) = s" "snd (join_alliance_local K me net api now user req s) = s"
    "snd (accept_pending_invite K me net api now user i own s) = s"
  using assms
  by (simp_all add: create_alliance_def join_alliance_local_def accept_pending_invite_def require_permission_def run_simps)

lemma create_alliance_allies: "allies (snd (create_alliance K me nm uuid now user name s)) \<subseteq> insert (uuid, public_key_hex K me) (allies s)"
proof -
  have "preserves (\<lambda>t. allies t \<subseteq> insert (uuid, public_key_hex K me) (allies s)) (create_alliance K me nm uuid now user name)"
    unfolding create_alliance_def require_permission_def Let_def by (intro keeps allies_inserts) (simp add: am_key_def)
  then show ?thesis by (simp add: preserves_def subset_insertI)
qed

lemma and_then_lift_Inr [simp]: "and_then (lift (Inr x)) f = f x"
  by (simp add: fun_eq_iff and_then_def lift_def)

lemma join_alliance_allies:
  "allies (snd (join_alliance K me net now a token url s)) \<subseteq>
     allies s \<union> {(a, k) |k. invite_valid K me a token \<and> (\<exists>name. get_info net url = Inr (k, name))}"
proof (cases "invite_valid K me a token \<and> (\<exists>k name. get_info net url = Inr (k, name))")
  case True
  then obtain k name where k: "get_info net url = Inr (k, name)" by blast
  have "preserves (\<lambda>t. allies t \<subseteq> insert (a, k) (allies s)) (join_alliance K me net now a token url)"
    unfolding join_alliance_def insert_peer_def remember_token_def k sum.case and_then_lift_Inr prod.case
    by (intro keeps allies_inserts preserves_writing preserves_modify) (simp_all add: am_key_def)
  then show ?thesis using True k by (auto simp: preserves_def)
next
  case False
  then have "snd (join_alliance K me net now a token url s) = s"
    by (auto simp: join_alliance_def invite_valid_def run_simps split: sum.splits)
  then show ?thesis by simp
qed

lemma allies_step:
  assumes "(a, k) \<in> allies (alliance_step K me nm s op)"
  shows "(a, k) \<in> allies s \<or> admits K me s op a k"
proof -
  have read: "(a, k) \<in> allies s" if "preserves (\<lambda>t. allies t \<subseteq> allies s) m" "(a, k) \<in> allies (snd (m s))"
    for m :: "'x hub_handler" using that by (auto simp: preserves_def)
  note reads = alliance_reads_keep [where P = "\<lambda>t. allies t \<subseteq> allies s", simplified]
  show ?thesis
  proof (cases op)
    case (CreateAlliance uuid now user name)
    with assms show ?thesis
      using create_alliance_allies [of K me nm uuid now user name s]
        refused_changes_nothing(1) [of user s K me nm uuid now name] by fastforce
  next
    case (JoinLocal net api now user req)
    with assms show ?thesis using refused_changes_nothing(2) [of user s K me net api now req] by fastforce
  next
    case (AcceptInvite net api now user i own)
    with assms show ?thesis using refused_changes_nothing(3) [of user s K me net api now i own] by fastforce
  next
    case (JoinAlliance net now b token url)
    with assms show ?thesis using join_alliance_allies [of K me net now b token url s] by auto
  next
    case (ManageChannel cop)
    with assms show ?thesis using allies_channel_step [of s cop] by auto
  qed (use assms in \<open>auto intro!: disjI1 elim!: read [rotated] intro: allies_shrink reads\<close>)
qed

interpretation membership: traced "\<lambda>_. True" "alliance_step K me nm" "\<lambda>p s. p \<in> allies s"
    "\<lambda>s op p. admits K me s op (fst p) (snd p)"
  for K me nm
proof unfold_locales
  fix s op and p :: "string \<times> string"
  assume "p \<in> allies (alliance_step K me nm s op)"
  then show "p \<in> allies s \<or> admits K me s op (fst p) (snd p)" using allies_step [of "fst p" "snd p"] by simp
qed simp

text \<open>
  C31. A hub that is in an alliance and was not at first has been let in by an identifiable request:
  this hub entered an alliance its administrator created, or an administrator of this hub joined
  and took over the inviter's list, or somebody presented a token for that very alliance that
  verifies under this hub's own key, from the URL that answers with the new member's key.
\<close>

theorem allies_were_invited:
  assumes "(a, k) \<in> allies (run (alliance_step K me nm) s ops)" "(a, k) \<notin> allies s"
  shows "\<exists>pre op post. ops = pre @ op # post \<and> admits K me (run (alliance_step K me nm) s pre) op a k"
  using membership.granted_in_run [where k = "(a, k)" and s = s and ops = ops] assms by simp

subsection \<open>Tokens\<close>

text \<open>
  A hub that presents the token \<^verbatim>\<open>create_invite\<close> made for an alliance is let in: the request succeeds,
  and the hub whose key is reported at the given URL is then a member.
\<close>

theorem invited_hub_joins:
  assumes "hex_roundtrip K" "signing_correct K" "length (signing_key me) = 32" "alliance_exists s a" "is_char_boundary a 8"
    and "get_info net url = Inr (k, name)"
    and "has_permission (user_permissions user s) ADMIN"
  shows "\<exists>token. map_sum id fst (fst (create_alliance_invite K me user a s)) = Inr token \<and>
    fst (join_alliance K me net now a token url s) = Inr OK \<and>
    (a, k) \<in> allies (snd (join_alliance K me net now a token url s))"
proof -
  let ?t = "invite_token K me a"
  let ?m = "\<lparr>am_alliance = a, am_hub_key = k, am_hub_name = name, am_hub_url = url, am_joined = now\<rparr>"
  have "fst (create_alliance_invite K me user a s) = Inr (?t, al_id r, al_name r, ''self'')"
    if "row_at al_id a (alliances (federation s)) = Some r" for r
    using assms(7) that by (simp add: create_alliance_invite_def require_alliance_def require_permission_def run_simps)
  moreover obtain r where "row_at al_id a (alliances (federation s)) = Some r"
    using assms(4) by (cases "row_at al_id a (alliances (federation s))") (auto simp: alliance_exists_def exists_row_iff row_at_None_iff)
  ultimately have token: "map_sum id fst (fst (create_alliance_invite K me user a s)) = Inr ?t" by simp
  have sig: "hex_decode K ?t = Inr (sign K me (as_bytes a))" "verify_signature K (public_key_hex K me) (as_bytes a) (sign K me (as_bytes a)) = Inr ()"
    using assms(1-3) by (simp_all add: invite_token_def hex_roundtrip_def sign_verifies)
  have "wp (join_alliance K me net now a ?t url) (\<lambda>c t. c = OK \<and> (a, k) \<in> allies t) (\<lambda>_ _. False) s"
    using assms(4,5,6)
    by (auto simp: join_alliance_def sig wps insert_or_ignore_alliance_member_def insert_peer_def remember_token_def
        insert_or_ignore_def insert_row_def exists_row_iff same_key_def allies_def am_key_def alliance_exists_def
        split: sum.splits if_splits; force)
  then have "fst (join_alliance K me net now a ?t url s) = Inr OK" "(a, k) \<in> allies (snd (join_alliance K me net now a ?t url s))"
    by (auto simp: wp_def split: prod.splits sum.splits)
  with token show ?thesis by blast
qed

text \<open>
  The hub signs whatever challenge a peer sends when it logs in there. With the bytes of an alliance
  id as the challenge, the signature it sends back is an invite token for that alliance.
\<close>

lemma login_hands_out_invite:
  assumes "hex_roundtrip K" "ps_challenge (net url) (public_key_hex K me) = Body (hex_encode K (as_bytes a))"
  shows "authenticate_peer K me net url = http_context ''Failed to verify with peer'' ''Invalid verify response''
    (ps_verify (net url) (public_key_hex K me) (hex_encode K (as_bytes a)) (invite_token K me a))"
  using assms by (simp add: authenticate_peer_def http_context_def hex_roundtrip_def invite_token_def)

text \<open>A token is the same every time, so it keeps working after the hub it was made for has left.\<close>

lemma invite_is_not_used_up:
  "invite_valid K me a (invite_token K me a) \<Longrightarrow> \<not> isl (fst (create_alliance_invite K me user a s)) \<Longrightarrow>
   map_sum id fst (fst (create_alliance_invite K me user a s)) = Inr (invite_token K me a)"
  by (auto simp: create_alliance_invite_def require_alliance_def require_permission_def run_simps split: option.splits if_splits)

definition demo_ally :: identity where
  "demo_ally = \<lparr>signing_key = replicate 32 7, security_nonce = 0, security_level = 0\<rparr>"

definition demo_net :: network where
  "demo_net url = \<lparr>ps_info = Body (''peer'', ''Peer''), ps_challenge = (\<lambda>_. NoConnection), ps_verify = (\<lambda>_ _ _. NoConnection),
     ps_dm = (\<lambda>_ _. NoConnection)\<rparr>"

lemma demo_owner_is_admin: "has_permission (user_permissions demo_owner demo_league) ADMIN" by code_simp

theorem invited_hub_joins_witness:
  "\<exists>token. map_sum id fst (fst (create_alliance_invite demo_crypto demo_ally demo_owner ''alliance'' demo_league)) = Inr token \<and>
    fst (join_alliance demo_crypto demo_ally demo_net 9 ''alliance'' token ''https://peer'' demo_league) = Inr OK \<and>
    (''alliance'', ''peer'') \<in> allies (snd (join_alliance demo_crypto demo_ally demo_net 9 ''alliance'' token ''https://peer'' demo_league))"
proof (rule invited_hub_joins [OF demo_hex_roundtrip demo_signing_correct])
  show "length (signing_key demo_ally) = 32" by (simp add: demo_ally_def)
  show "alliance_exists demo_league ''alliance''" by (simp add: alliance_exists_def demo_league_def exists_row_def)
  show "is_char_boundary ''alliance'' 8" by (simp add: is_char_boundary_def)
  show "get_info demo_net ''https://peer'' = Inr (''peer'', ''Peer'')" by (simp add: get_info_def demo_net_def http_context_def)
  show "has_permission (user_permissions demo_owner demo_league) ADMIN" by (rule demo_owner_is_admin)
qed

lemma created_alliance_has_hub:
  assumes "has_permission (user_permissions user s) ADMIN" "\<not> alliance_exists s uuid" "(uuid, public_key_hex K me) \<notin> allies s"
  shows "(uuid, public_key_hex K me) \<in> allies (snd (create_alliance K me nm uuid now user name s))"
proof -
  have "wp (create_alliance K me nm uuid now user name) (\<lambda>_ t. (uuid, public_key_hex K me) \<in> allies t) (\<lambda>_ _. False) s"
    using assms
    by (auto simp: create_alliance_def require_permission_def insert_alliance_def insert_alliance_member_def wps Let_def insert_row_def
        exists_row_iff same_key_def alliance_exists_def allies_def am_key_def image_iff split: sum.splits if_splits)
  then show ?thesis by (auto simp: wp_def split: prod.splits sum.splits)
qed

theorem allies_were_invited_witness:
  "\<exists>pre op post. [CreateAlliance ''new'' 5 demo_owner ''N''] = pre @ op # post \<and>
     admits demo_crypto demo_ally (run (alliance_step demo_crypto demo_ally ''hub'') demo_league pre) op ''new''
       (public_key_hex demo_crypto demo_ally)"
proof (rule allies_were_invited)
  have fresh: "\<not> alliance_exists demo_league ''new''" "allies demo_league = {}"
    by (simp_all add: alliance_exists_def exists_row_def allies_def demo_league_def demo_chat_def demo_defs)
  from created_alliance_has_hub [OF demo_owner_is_admin this(1)] this(2)
  show "(''new'', public_key_hex demo_crypto demo_ally) \<in>
      allies (run (alliance_step demo_crypto demo_ally ''hub'') demo_league [CreateAlliance ''new'' 5 demo_owner ''N''])" by simp
  from fresh show "(''new'', public_key_hex demo_crypto demo_ally) \<notin> allies demo_league" by simp
qed

subsection \<open>Where a message goes\<close>

text \<open>
  A channel shared by this hub is an ordinary channel; in a channel of another member the message is
  handed to that hub under this hub's session, with the author's name in front, and nothing is
  stored here. The answer is the same for a muted author: nothing but \<^verbatim>\<open>send_messages\<close> is asked.
\<close>

lemma alliance_message_outcome:
  assumes "has_permission (user_permissions user s) SEND_MESSAGES"
  shows "is_local a c s \<Longrightarrow> post_alliance_channel_message K me net api nm lower post ids now user a c req s =
      send_message lower post ids now user c req s"
    and "\<not> is_local a c s \<Longrightarrow> find_owner K me net api a c (other_members K me a s) s = (Inr (Some (m, t)), s') \<Longrightarrow>
      user_label nm user s' = Inr prefix \<Longrightarrow>
      post_alliance_channel_message K me net api nm lower post ids now user a c req s =
        (case api_send api (am_hub_url m) t c (prefix @ smr_content req) of
           Body msg \<Rightarrow> Inr (CREATED, msg)
         | NoConnection \<Rightarrow> Inl (Reject BAD_GATEWAY ''Failed to deliver message to peer: Failed to send message to peer'')
         | BadBody \<Rightarrow> Inl (Reject BAD_GATEWAY ''Failed to deliver message to peer: Invalid message response''), s')"
  using assms
  by (auto simp: post_alliance_channel_message_def require_permission_def run_simps send_remote_message_def http_context_def
      split: http.splits)

lemma find_owner_stores_nothing: "messages (snd (find_owner K me net api a c ms s)) = messages s"
  using remote_reads_keep(2) [of "\<lambda>t. messages t = messages s"] by (simp add: preserves_def)

end
