(* ===== verification/Surveys.thy ===== *)
theory Surveys
  imports Auth Messages
begin

text \<open>
  The onboarding survey, from \<^verbatim>\<open>hub/src/routes/survey.rs\<close>: administrators define one, members answer it
  once and receive the roles their choices stand for.

  Main results: at most one survey is active and a member answers each survey at most once, over any
  sequence of requests; a submission gives its author roles that are mapped to a submitted choice and
  touches nobody else; what an administrator stores is what an administrator reads back. Choices are
  not compared with the questions of the survey, and a submission that fails half way cannot be
  repeated.
\<close>

subsection \<open>What members and administrators see\<close>

record choice_public =
  cp_id :: string
  cp_label :: string
  cp_order :: int

record question_public =
  qp_id :: string
  qp_prompt :: string
  qp_kind :: string
  qp_required :: bool
  qp_order :: int
  qp_choices :: "choice_public list option"

record survey_public =
  sp_id :: string
  sp_questions :: "question_public list"

record choice_admin =
  ca_id :: string
  ca_label :: string
  ca_order :: int
  ca_roles :: "string list"

record question_admin =
  qa_id :: string
  qa_prompt :: string
  qa_kind :: string
  qa_required :: bool
  qa_order :: int
  qa_choices :: "choice_admin list option"

record survey_admin =
  sa_id :: string
  sa_enabled :: bool
  sa_questions :: "question_admin list"

record answer_input =
  ai_question :: string
  ai_choice :: "string option"
  ai_text :: "string option"

record submit_request =
  sub_survey :: string
  sub_answers :: "answer_input list"

record answer_view =
  av_question :: string
  av_prompt :: string
  av_choice :: "string option"
  av_text :: "string option"

record response_admin =
  ra_id :: string
  ra_pubkey :: string
  ra_display_name :: "string option"
  ra_submitted :: int
  ra_answers :: "answer_view list"

subsection \<open>Reading\<close>

definition questions_of :: "survey_tables \<Rightarrow> string \<Rightarrow> question_row list" where
  "questions_of v i = sort_key q_order (filter (\<lambda>q. q_survey q = i) (survey_questions v))"

definition choices_of :: "survey_tables \<Rightarrow> string \<Rightarrow> choice_row list" where
  "choices_of v i = sort_key ch_order (filter (\<lambda>c. ch_question c = i) (survey_choices v))"

definition roles_of_choice :: "survey_tables \<Rightarrow> string \<Rightarrow> string list" where
  "roles_of_choice v i = map cr_role (filter (\<lambda>r. cr_choice r = i) (survey_choice_roles v))"

definition question_view :: "survey_tables \<Rightarrow> question_row \<Rightarrow> question_public" where
  "question_view v q = \<lparr>qp_id = q_id q, qp_prompt = q_prompt q, qp_kind = q_kind q, qp_required = (q_required q \<noteq> 0),
     qp_order = q_order q,
     qp_choices = (if q_kind q = ''choice''
       then Some (map (\<lambda>c. \<lparr>cp_id = ch_id c, cp_label = ch_label c, cp_order = ch_order c\<rparr>) (choices_of v (q_id q))) else None)\<rparr>"

definition load_active_survey_public :: "hub \<Rightarrow> survey_public option" where
  "load_active_survey_public s =
     (let v = survey_state s in
      map_option (\<lambda>r. \<lparr>sp_id = survey_id r, sp_questions = map (question_view v) (questions_of v (survey_id r))\<rparr>)
        (fetch_optional (\<lambda>r. survey_enabled r = 1) (surveys v)))"

definition choice_admin_view :: "survey_tables \<Rightarrow> choice_row \<Rightarrow> choice_admin" where
  "choice_admin_view v c = \<lparr>ca_id = ch_id c, ca_label = ch_label c, ca_order = ch_order c, ca_roles = roles_of_choice v (ch_id c)\<rparr>"

definition question_admin_view :: "survey_tables \<Rightarrow> question_row \<Rightarrow> question_admin" where
  "question_admin_view v q = \<lparr>qa_id = q_id q, qa_prompt = q_prompt q, qa_kind = q_kind q, qa_required = (q_required q \<noteq> 0),
     qa_order = q_order q,
     qa_choices = (if q_kind q = ''choice'' then Some (map (choice_admin_view v) (choices_of v (q_id q))) else None)\<rparr>"

definition load_survey_admin :: "string \<Rightarrow> hub \<Rightarrow> survey_admin option" where
  "load_survey_admin i s =
     (let v = survey_state s in
      map_option (\<lambda>r. \<lparr>sa_id = survey_id r, sa_enabled = (survey_enabled r \<noteq> 0),
        sa_questions = map (question_admin_view v) (questions_of v (survey_id r))\<rparr>) (row_at survey_id i (surveys v)))"

definition get_current :: "survey_public option hub_handler" where
  "get_current = gets load_active_survey_public"

subsection \<open>Submitting\<close>

definition on_surveys :: "(survey_tables \<Rightarrow> survey_tables) \<Rightarrow> unit hub_handler" where
  "on_surveys f = modify (\<lambda>s. s\<lparr>survey_state := f (survey_state s)\<rparr>)"

definition nonempty_text :: "string option \<Rightarrow> bool" where
  "nonempty_text x = (case x of None \<Rightarrow> False | Some t \<Rightarrow> t \<noteq> [])"

definition is_answered :: "answer_input list \<Rightarrow> question_public \<Rightarrow> bool" where
  "is_answered answers q =
     list_ex (\<lambda>a. ai_question a = qp_id q \<and> (ai_choice a \<noteq> None \<or> nonempty_text (ai_text a))) answers"

definition require_answers :: "answer_input list \<Rightarrow> question_public list \<Rightarrow> unit hub_handler" where
  "require_answers answers qs =
     (case List.find (\<lambda>q. qp_required q \<and> \<not> is_answered answers q) qs of
        None \<Rightarrow> ret ()
      | Some q \<Rightarrow> fail (Reject UNPROCESSABLE_ENTITY (''Required question '' @ [CHR 39] @ qp_id q @ [CHR 39] @ '' not answered'')))"

definition response_clash :: "response_row \<Rightarrow> response_row \<Rightarrow> bool" where
  "response_clash r q \<longleftrightarrow> resp_row_id q = resp_row_id r \<or> (resp_pubkey q = resp_pubkey r \<and> resp_survey q = resp_survey r)"

definition insert_response :: "response_row \<Rightarrow> unit hub_handler" where
  "insert_response r =
     map_err (\<lambda>e. if e = DbError UNIQUE then Reject CONFLICT ''Survey already submitted'' else e)
       (writing (\<lambda>s. insert_row response_clash True r (survey_responses (survey_state s)))
         (\<lambda>t s. s\<lparr>survey_state := (survey_state s)\<lparr>survey_responses := t\<rparr>\<rparr>))"

definition ans_key :: "answer_row \<Rightarrow> string \<times> string" where
  "ans_key r = (ans_response r, ans_question r)"

definition insert_answer :: "answer_row \<Rightarrow> unit hub_handler" where
  "insert_answer r =
     writing (\<lambda>s. insert_row (same_key ans_key) (exists_row (\<lambda>q. resp_row_id q = ans_response r) (survey_responses (survey_state s)))
         r (survey_answers (survey_state s)))
       (\<lambda>t s. s\<lparr>survey_state := (survey_state s)\<lparr>survey_answers := t\<rparr>\<rparr>)"

definition choice_roles :: "hub \<Rightarrow> string option \<Rightarrow> string list" where
  "choice_roles s x = (case x of None \<Rightarrow> [] | Some c \<Rightarrow> roles_of_choice (survey_state s) c)"

text \<open>The loop over the answers; its value is the list of applied roles.\<close>

fun store_answers :: "string \<Rightarrow> string \<Rightarrow> int \<Rightarrow> answer_input list \<Rightarrow> string list hub_handler" where
  "store_answers uuid user now [] = ret []"
| "store_answers uuid user now (a # as) =
     and_then (insert_answer \<lparr>ans_response = uuid, ans_question = ai_question a, ans_choice = ai_choice a, ans_text = ai_text a\<rparr>) (\<lambda>_.
     and_then (gets (\<lambda>s. choice_roles s (ai_choice a))) (\<lambda>role_ids.
     and_then (for_each (\<lambda>i. insert_or_ignore_user_role user i now) role_ids) (\<lambda>_.
     and_then (store_answers uuid user now as) (\<lambda>rest.
     ret (role_ids @ rest)))))"

definition submit_survey :: "string \<Rightarrow> int \<Rightarrow> string \<Rightarrow> submit_request \<Rightarrow> (string \<times> string list) hub_handler" where
  "submit_survey uuid now user req =
     and_then (gets load_active_survey_public) (\<lambda>active.
     and_then (ok_or active (Reject NOT_FOUND ''No active survey'')) (\<lambda>survey.
     and_then (check (sp_id survey = sub_survey req) (Reject BAD_REQUEST ''survey_id does not match active survey'')) (\<lambda>_.
     and_then (require_answers (sub_answers req) (sp_questions survey)) (\<lambda>_.
     and_then (insert_response \<lparr>resp_row_id = uuid, resp_pubkey = user, resp_survey = sub_survey req, resp_submitted = now\<rparr>) (\<lambda>_.
     and_then (store_answers uuid user now (sub_answers req)) (\<lambda>applied.
     let next_state = (if list_ex (\<lambda>a. nonempty_text (ai_text a)) (sub_answers req) then ''pending'' else ''approved'') in
     and_then (update_user user (\<lambda>u. u\<lparr>user_approval := next_state\<rparr>)) (\<lambda>_.
     ret (next_state, applied))))))))"

subsection \<open>Administration\<close>

definition admin_get_survey :: "string \<Rightarrow> survey_admin option hub_handler" where
  "admin_get_survey user =
     and_then (gets (user_permissions user)) (\<lambda>perms.
     and_then (require_permission perms ADMIN) (\<lambda>_.
     gets (\<lambda>s. case sort_key (\<lambda>r. - survey_enabled r) (sort_key (\<lambda>r. - survey_updated r) (surveys (survey_state s))) of
         [] \<Rightarrow> None | r # _ \<Rightarrow> load_survey_admin (survey_id r) s)))"

text \<open>\<^verbatim>\<open>DELETE FROM surveys\<close> with the cascades to questions, choices and role mappings.\<close>

definition delete_survey :: "string \<Rightarrow> survey_tables \<Rightarrow> survey_tables" where
  "delete_survey i v =
     (let qs = q_id ` set (filter (\<lambda>q. q_survey q = i) (survey_questions v));
          cs = ch_id ` set (filter (\<lambda>c. ch_question c \<in> qs) (survey_choices v))
      in v\<lparr>surveys := delete_where (\<lambda>r. survey_id r = i) (surveys v),
           survey_questions := delete_where (\<lambda>q. q_survey q = i) (survey_questions v),
           survey_choices := delete_where (\<lambda>c. ch_question c \<in> qs) (survey_choices v),
           survey_choice_roles := delete_where (\<lambda>r. cr_choice r \<in> cs) (survey_choice_roles v)\<rparr>)"

definition insert_survey :: "survey_row \<Rightarrow> unit hub_handler" where
  "insert_survey r =
     writing (\<lambda>s. insert_row (same_key survey_id) True r (surveys (survey_state s)))
       (\<lambda>t s. s\<lparr>survey_state := (survey_state s)\<lparr>surveys := t\<rparr>\<rparr>)"

definition insert_question :: "question_row \<Rightarrow> unit hub_handler" where
  "insert_question r =
     writing (\<lambda>s. insert_row (same_key q_id) (exists_row (\<lambda>x. survey_id x = q_survey r) (surveys (survey_state s))) r
         (survey_questions (survey_state s)))
       (\<lambda>t s. s\<lparr>survey_state := (survey_state s)\<lparr>survey_questions := t\<rparr>\<rparr>)"

definition insert_choice :: "choice_row \<Rightarrow> unit hub_handler" where
  "insert_choice r =
     writing (\<lambda>s. insert_row (same_key ch_id) (exists_row (\<lambda>x. q_id x = ch_question r) (survey_questions (survey_state s))) r
         (survey_choices (survey_state s)))
       (\<lambda>t s. s\<lparr>survey_state := (survey_state s)\<lparr>survey_choices := t\<rparr>\<rparr>)"

definition insert_choice_role :: "choice_role_row \<Rightarrow> unit hub_handler" where
  "insert_choice_role r =
     writing (\<lambda>s. insert_or_ignore (\<lambda>x q. q = x) (exists_row (\<lambda>x. ch_id x = cr_choice r) (survey_choices (survey_state s))) r
         (survey_choice_roles (survey_state s)))
       (\<lambda>t s. s\<lparr>survey_state := (survey_state s)\<lparr>survey_choice_roles := t\<rparr>\<rparr>)"

definition put_choice :: "string \<Rightarrow> choice_admin \<Rightarrow> unit hub_handler" where
  "put_choice qid c =
     and_then (insert_choice \<lparr>ch_id = ca_id c, ch_question = qid, ch_label = ca_label c, ch_order = ca_order c\<rparr>) (\<lambda>_.
     for_each (\<lambda>i. insert_choice_role \<lparr>cr_choice = ca_id c, cr_role = i\<rparr>) (ca_roles c))"

definition put_question :: "string \<Rightarrow> question_admin \<Rightarrow> unit hub_handler" where
  "put_question sid q =
     and_then (insert_question \<lparr>q_id = qa_id q, q_survey = sid, q_prompt = qa_prompt q, q_kind = qa_kind q,
       q_required = (if qa_required q then 1 else 0), q_order = qa_order q\<rparr>) (\<lambda>_.
     case qa_choices q of None \<Rightarrow> ret () | Some cs \<Rightarrow> for_each (put_choice (qa_id q)) cs)"

definition admin_put_survey :: "int \<Rightarrow> string \<Rightarrow> survey_admin \<Rightarrow> status_code hub_handler" where
  "admin_put_survey now user req =
     and_then (gets (user_permissions user)) (\<lambda>perms.
     and_then (require_permission perms ADMIN) (\<lambda>_.
     and_then (on_surveys (delete_survey (sa_id req))) (\<lambda>_.
     and_then (if sa_enabled req then on_surveys (\<lambda>v. v\<lparr>surveys := map (\<lambda>r. r\<lparr>survey_enabled := 0\<rparr>) (surveys v)\<rparr>) else ret ()) (\<lambda>_.
     and_then (insert_survey \<lparr>survey_id = sa_id req, survey_enabled = (if sa_enabled req then 1 else 0), survey_updated = now\<rparr>) (\<lambda>_.
     and_then (for_each (put_question (sa_id req)) (sa_questions req)) (\<lambda>_.
     ret OK))))))"

text \<open>
  The answers of a response, joined with their questions. The prompt is decoded as a plain
  \<^verbatim>\<open>String\<close>, so an answer whose question is gone makes the query fail.
\<close>

definition decode_null :: failure where
  "decode_null = Reject INTERNAL_SERVER_ERROR
     ''DB error: error occurred while decoding column \"prompt\": unexpected null; try decoding as an `Option`''"

definition load_response_answers :: "hub \<Rightarrow> string \<Rightarrow> answer_view list result" where
  "load_response_answers s i =
     (let v = survey_state s; rows = filter (\<lambda>a. ans_response a = i) (survey_answers v) in
      if list_ex (\<lambda>a. row_at q_id (ans_question a) (survey_questions v) = None) rows then Inl decode_null
      else Inr (map (\<lambda>a. \<lparr>av_question = ans_question a,
          av_prompt = (case row_at q_id (ans_question a) (survey_questions v) of None \<Rightarrow> [] | Some q \<Rightarrow> q_prompt q),
          av_choice = (case ans_choice a of None \<Rightarrow> None | Some c \<Rightarrow> map_option ch_label (row_at ch_id c (survey_choices v))),
          av_text = ans_text a\<rparr>) rows))"

definition response_view :: "hub \<Rightarrow> response_row \<Rightarrow> response_admin result" where
  "response_view s r =
     map_sum id (\<lambda>answers. \<lparr>ra_id = resp_row_id r, ra_pubkey = resp_pubkey r, ra_display_name = display_name s (resp_pubkey r),
       ra_submitted = resp_submitted r, ra_answers = answers\<rparr>) (load_response_answers s (resp_row_id r))"

fun collect :: "'a result list \<Rightarrow> 'a list result" where
  "collect [] = Inr []"
| "collect (r # rs) = (case r of Inl e \<Rightarrow> Inl e | Inr x \<Rightarrow> map_sum id (\<lambda>xs. x # xs) (collect rs))"

definition is_pending :: "hub \<Rightarrow> string \<Rightarrow> bool" where
  "is_pending s pk = (case row_at user_key pk (users s) of None \<Rightarrow> False | Some u \<Rightarrow> user_approval u = ''pending'')"

definition admin_list_responses :: "string \<Rightarrow> string \<Rightarrow> int \<Rightarrow> response_admin list hub_handler" where
  "admin_list_responses user status lim =
     and_then (gets (user_permissions user)) (\<lambda>perms.
     and_then (require_permission perms ADMIN) (\<lambda>_.
     and_then (gets (\<lambda>s. sql_limit lim (sort_key (\<lambda>r. - resp_submitted r)
       (if status = ''all'' then survey_responses (survey_state s)
        else filter (\<lambda>r. is_pending s (resp_pubkey r)) (survey_responses (survey_state s)))))) (\<lambda>rows.
     and_then (gets (\<lambda>s. collect (map (response_view s) rows))) lift)))"

definition admin_get_response_for_pubkey :: "string \<Rightarrow> string \<Rightarrow> response_admin option hub_handler" where
  "admin_get_response_for_pubkey user pk =
     and_then (gets (user_permissions user)) (\<lambda>perms.
     and_then (require_permission perms ADMIN) (\<lambda>_.
     and_then (gets (\<lambda>s. case sort_key (\<lambda>r. - resp_submitted r) (filter (\<lambda>r. resp_pubkey r = pk) (survey_responses (survey_state s))) of
         [] \<Rightarrow> Inr None | r # _ \<Rightarrow> map_sum id Some (response_view s r))) lift))"

subsection \<open>Requests, as one type of operations\<close>

datatype survey_op = SubmitSurvey string int string submit_request | PutSurvey int string survey_admin

fun survey_step :: "hub \<Rightarrow> survey_op \<Rightarrow> hub" where
  "survey_step s (SubmitSurvey uuid now user req) = snd (submit_survey uuid now user req s)"
| "survey_step s (PutSurvey now user req) = snd (admin_put_survey now user req s)"

subsection \<open>Roles from answers\<close>

definition mapped_roles :: "hub \<Rightarrow> answer_input list \<Rightarrow> string list" where
  "mapped_roles s as = concat (map (\<lambda>a. choice_roles s (ai_choice a)) as)"

text \<open>What the loop over the answers may do: add roles out of \<open>R\<close> to the author.\<close>

definition only_grants :: "hub \<Rightarrow> string \<Rightarrow> string set \<Rightarrow> hub \<Rightarrow> bool" where
  "only_grants s user R t \<longleftrightarrow> users t = users s \<and> roles t = roles s \<and>
     survey_choice_roles (survey_state t) = survey_choice_roles (survey_state s) \<and> set (user_roles s) \<subseteq> set (user_roles t) \<and>
     (\<forall>r \<in> set (user_roles t). r \<in> set (user_roles s) \<or> (ur_user r = user \<and> ur_role r \<in> R))"

lemma only_grants_refl: "only_grants s user R s"
  by (simp add: only_grants_def)

lemma only_grants_frames:
  "only_grants s user R t \<Longrightarrow> only_grants s user R (t\<lparr>survey_state := (survey_state t)\<lparr>survey_answers := x\<rparr>\<rparr>)"
  "only_grants s user R t \<Longrightarrow> only_grants s user R (t\<lparr>survey_state := (survey_state t)\<lparr>survey_responses := y\<rparr>\<rparr>)"
  by (simp_all add: only_grants_def)

lemma only_grants_choice_roles: "only_grants s user R t \<Longrightarrow> choice_roles t x = choice_roles s x"
  by (simp add: only_grants_def choice_roles_def roles_of_choice_def split: option.split)

definition role_keys :: "hub \<Rightarrow> (string \<times> string) set" where
  "role_keys s = (\<lambda>r. (ur_user r, ur_role r)) ` set (user_roles s)"

lemma wp_grant:
  assumes "only_grants s user R t" "i \<in> R"
  shows "wp (insert_or_ignore_user_role user i now)
    (\<lambda>_ u. only_grants s user R u \<and> insert (user, i) (role_keys t) \<subseteq> role_keys u) (\<lambda>_. only_grants s user R) t"
  using assms
  by (auto simp: insert_or_ignore_user_role_def wps insert_or_ignore_def exists_row_iff same_key_def only_grants_def role_keys_def
      image_iff split: sum.split)

lemma wp_grant_all:
  assumes "only_grants s user R t" "set is \<subseteq> R"
  shows "wp (for_each (\<lambda>i. insert_or_ignore_user_role user i now) is)
    (\<lambda>_ u. only_grants s user R u \<and> {user} \<times> set is \<union> role_keys t \<subseteq> role_keys u) (\<lambda>_. only_grants s user R) t"
  using assms
proof (induction "is" arbitrary: t)
  case (Cons i "is")
  have "wp (insert_or_ignore_user_role user i now)
      (\<lambda>_. wp (for_each (\<lambda>i. insert_or_ignore_user_role user i now) is)
        (\<lambda>_ u. only_grants s user R u \<and> {user} \<times> set (i # is) \<union> role_keys t \<subseteq> role_keys u) (\<lambda>_. only_grants s user R))
      (\<lambda>_. only_grants s user R) t"
    using Cons.prems by (intro wp_mono [OF wp_grant] wp_mono [OF Cons.IH]) auto
  then show ?case by (simp add: wps)
qed (simp add: wps)

lemma wp_store_answers:
  assumes "only_grants s user R t" "set (mapped_roles s as) \<subseteq> R"
  shows "wp (store_answers uuid user now as)
    (\<lambda>xs u. xs = mapped_roles s as \<and> only_grants s user R u \<and> {user} \<times> set xs \<union> role_keys t \<subseteq> role_keys u)
    (\<lambda>_. only_grants s user R) t"
  using assms
proof (induction as arbitrary: t)
  case (Cons a as)
  let ?Q = "\<lambda>as (t :: hub) xs u. xs = mapped_roles s as \<and> only_grants s user R u \<and> {user} \<times> set xs \<union> role_keys t \<subseteq> role_keys u"
  have rest: "wp (and_then (for_each (\<lambda>i. insert_or_ignore_user_role user i now) (choice_roles s (ai_choice a))) (\<lambda>_.
      and_then (store_answers uuid user now as) (\<lambda>rest. ret (choice_roles s (ai_choice a) @ rest)))) (?Q (a # as) u)
      (\<lambda>_. only_grants s user R) u" if "only_grants s user R u" for u
    unfolding wp_and_then wp_ret using that Cons.prems(2)
    by (intro wp_mono [OF wp_grant_all] wp_mono [OF Cons.IH]) (auto simp: mapped_roles_def)
  have keys: "role_keys (t\<lparr>survey_state := (survey_state t)\<lparr>survey_answers := x\<rparr>\<rparr>) = role_keys t" for x
    by (simp add: role_keys_def)
  show ?case
    using rest [OF only_grants_frames(1) [OF Cons.prems(1)]] Cons.prems(1)
    by (simp add: insert_answer_def wp_writing wp_and_then wp_gets only_grants_choice_roles [OF only_grants_frames(1) [OF Cons.prems(1)]] keys
        split: sum.split)
qed (simp add: wps mapped_roles_def)

text \<open>
  C32. A submission, whatever its outcome, gives roles to its author only, takes none from anybody,
  and every role it gives is mapped to a choice it names; no other user's row changes. When it
  succeeds it reports exactly those roles, the author holds all of them, and is approved or waits
  for approval depending on whether there is a text to read.
\<close>

theorem survey_grants_mapped_roles:
  shows "let R = set (mapped_roles s (sub_answers req)); t = snd (submit_survey uuid now user req s) in
    set (user_roles s) \<subseteq> set (user_roles t) \<and> (\<forall>r \<in> set (user_roles t) - set (user_roles s). ur_user r = user \<and> ur_role r \<in> R) \<and>
    (\<forall>u. u \<noteq> user \<longrightarrow> row_at user_key u (users t) = row_at user_key u (users s)) \<and>
    (case fst (submit_survey uuid now user req s) of Inl e \<Rightarrow> users t = users s
     | Inr (next_state, applied) \<Rightarrow> applied = mapped_roles s (sub_answers req) \<and> {user} \<times> set applied \<subseteq> role_keys t \<and>
         map_option user_approval (row_at user_key user (users t)) = map_option (\<lambda>_. next_state) (row_at user_key user (users s)) \<and>
         (next_state = ''pending'' \<longleftrightarrow> (\<exists>a \<in> set (sub_answers req). nonempty_text (ai_text a))))"
proof -
  let ?R = "set (mapped_roles s (sub_answers req))"
  let ?next = "if list_ex (\<lambda>a. nonempty_text (ai_text a)) (sub_answers req) then ''pending'' else ''approved''"
  let ?Q = "\<lambda>x t. \<exists>u. x = (?next, mapped_roles s (sub_answers req)) \<and> only_grants s user ?R u \<and> {user} \<times> ?R \<subseteq> role_keys u \<and>
    t = u\<lparr>users := update_where (\<lambda>r. user_key r = user) (\<lambda>r. r\<lparr>user_approval := ?next\<rparr>) (users u)\<rparr>"
  have after: "wp (and_then (store_answers uuid user now (sub_answers req)) (\<lambda>applied.
      and_then (update_user user (\<lambda>u. u\<lparr>user_approval := ?next\<rparr>)) (\<lambda>_. ret (?next, applied)))) ?Q (\<lambda>_. only_grants s user ?R) u"
    if "only_grants s user ?R u" for u
    unfolding wp_and_then wp_ret using that by (intro wp_mono [OF wp_store_answers]) (auto simp: update_user_def wps)
  have run: "wp (submit_survey uuid now user req) ?Q (\<lambda>_. only_grants s user ?R) s"
    using after [OF only_grants_frames(2) [OF only_grants_refl]] only_grants_refl [of s user ?R]
    unfolding submit_survey_def Let_def insert_response_def require_answers_def wp_and_then [of "gets _"] wp_gets
    by (auto simp: wp_and_then wp_ok_or wp_check wp_map_err wp_writing wp_ret wp_fail wp_case_option split: option.split sum.split)
  show ?thesis
  proof (cases "fst (submit_survey uuid now user req s)")
    case (Inl e)
    with run have "only_grants s user ?R (snd (submit_survey uuid now user req s))" by (auto simp: wp_def split: prod.splits)
    with Inl show ?thesis by (auto simp: Let_def only_grants_def)
  next
    case (Inr x)
    with run obtain u where u: "x = (?next, mapped_roles s (sub_answers req))" "only_grants s user ?R u" "{user} \<times> ?R \<subseteq> role_keys u"
      "snd (submit_survey uuid now user req s) = u\<lparr>users := update_where (\<lambda>r. user_key r = user) (\<lambda>r. r\<lparr>user_approval := ?next\<rparr>) (users u)\<rparr>"
      by (auto simp: wp_def split: prod.splits)
    then show ?thesis using Inr
      by (auto simp: Let_def only_grants_def role_keys_def row_at_update_where option.map_comp comp_def list_ex_iff)
  qed
qed

definition demo_survey_tables :: survey_tables where
  "demo_survey_tables = \<lparr>surveys = [\<lparr>survey_id = ''v'', survey_enabled = 1, survey_updated = 3\<rparr>],
     survey_questions = [\<lparr>q_id = ''q'', q_survey = ''v'', q_prompt = ''Why?'', q_kind = ''choice'', q_required = 1, q_order = 0\<rparr>],
     survey_choices = [\<lparr>ch_id = ''yes'', ch_question = ''q'', ch_label = ''Yes'', ch_order = 0\<rparr>],
     survey_choice_roles = [\<lparr>cr_choice = ''yes'', cr_role = ''mods''\<rparr>], survey_responses = [], survey_answers = []\<rparr>"

definition demo_polled :: hub where
  "demo_polled = demo_hub\<lparr>survey_state := demo_survey_tables\<rparr>"

definition demo_submission :: submit_request where
  "demo_submission = \<lparr>sub_survey = ''v'', sub_answers = [\<lparr>ai_question = ''q'', ai_choice = Some ''yes'', ai_text = None\<rparr>]\<rparr>"

theorem survey_grants_mapped_roles_witness:
  "fst (submit_survey ''r1'' 9 demo_member demo_submission demo_polled) = Inr (''approved'', [''mods'']) \<and>
   (demo_member, ''mods'') \<in> role_keys (snd (submit_survey ''r1'' 9 demo_member demo_submission demo_polled))"
proof -
  have run: "fst (submit_survey ''r1'' 9 demo_member demo_submission demo_polled) = Inr (''approved'', [''mods''])" by code_simp
  with survey_grants_mapped_roles [where s = demo_polled and req = demo_submission and uuid = "''r1''" and now = 9 and user = demo_member]
  show ?thesis by (auto simp: Let_def)
qed

subsection \<open>One active survey, one response\<close>

definition tables_ok :: "survey_tables \<Rightarrow> bool" where
  "tables_ok v \<longleftrightarrow> keyed survey_id (surveys v) \<and> count_rows (\<lambda>r. survey_enabled r \<noteq> 0) (surveys v) \<le> 1 \<and>
     keyed q_id (survey_questions v) \<and> (\<forall>q \<in> set (survey_questions v). q_survey q \<in> survey_id ` set (surveys v)) \<and>
     keyed ch_id (survey_choices v) \<and> (\<forall>c \<in> set (survey_choices v). ch_question c \<in> q_id ` set (survey_questions v)) \<and>
     distinct (survey_choice_roles v) \<and> (\<forall>x \<in> set (survey_choice_roles v). cr_choice x \<in> ch_id ` set (survey_choices v)) \<and>
     keyed resp_row_id (survey_responses v) \<and> keyed (\<lambda>r. (resp_pubkey r, resp_survey r)) (survey_responses v) \<and>
     keyed ans_key (survey_answers v) \<and> (\<forall>a \<in> set (survey_answers v). ans_response a \<in> resp_row_id ` set (survey_responses v))"

definition surveys_ok :: "hub \<Rightarrow> bool" where
  "surveys_ok s \<longleftrightarrow> tables_ok (survey_state s)"

lemma surveys_ok_frames: "surveys_ok s \<Longrightarrow> surveys_ok (s\<lparr>user_roles := x\<rparr>)" "surveys_ok s \<Longrightarrow> surveys_ok (s\<lparr>users := y\<rparr>)"
  by (simp_all add: surveys_ok_def)

lemma surveys_ok_inserts:
  "preserves surveys_ok (insert_response r)" "preserves surveys_ok (insert_answer a)" "preserves surveys_ok (insert_question q)"
  "preserves surveys_ok (insert_choice c)" "preserves surveys_ok (insert_choice_role x)"
proof -
  show "preserves surveys_ok (insert_response r)"
    unfolding insert_response_def
    by (intro keeps preserves_writing) (auto simp: ok_iffs surveys_ok_def tables_ok_def keyed_snoc exists_row_iff response_clash_def)
  show "preserves surveys_ok (insert_answer a)"
    unfolding insert_answer_def
    by (intro preserves_writing) (auto simp: ok_iffs surveys_ok_def tables_ok_def keyed_snoc exists_row_iff same_key_def intro: rev_image_eqI)
  show "preserves surveys_ok (insert_question q)"
    unfolding insert_question_def
    by (intro preserves_writing) (auto simp: ok_iffs surveys_ok_def tables_ok_def keyed_snoc exists_row_iff same_key_def intro: rev_image_eqI)
  show "preserves surveys_ok (insert_choice c)"
    unfolding insert_choice_def
    by (intro preserves_writing) (auto simp: ok_iffs surveys_ok_def tables_ok_def keyed_snoc exists_row_iff same_key_def intro: rev_image_eqI)
  show "preserves surveys_ok (insert_choice_role x)"
    unfolding insert_choice_role_def
    by (intro preserves_writing) (auto simp: ok_iffs surveys_ok_def tables_ok_def exists_row_iff intro: rev_image_eqI split: if_splits)
qed

lemma surveys_ok_submit: "preserves surveys_ok (submit_survey uuid now user req)"
proof -
  have "preserves surveys_ok (store_answers uuid user now as)" for as
    by (induction as) (auto intro!: keeps surveys_ok_inserts preserves_writing surveys_ok_frames simp: insert_or_ignore_user_role_def)
  then show ?thesis
    unfolding submit_survey_def require_answers_def update_user_def Let_def
    by (intro keeps surveys_ok_inserts preserves_modify surveys_ok_frames)
qed

lemma tables_ok_delete: "tables_ok v \<Longrightarrow> tables_ok (delete_survey i v)"
proof -
  assume ok: "tables_ok v"
  have "count_rows (\<lambda>r. survey_enabled r \<noteq> 0) (delete_where P xs) \<le> count_rows (\<lambda>r. survey_enabled r \<noteq> 0) xs" for P xs
    by (induction xs) (auto simp: count_rows_def delete_where_def)
  from this [of "\<lambda>r. survey_id r = i" "surveys v"] ok show ?thesis
    unfolding tables_ok_def delete_survey_def Let_def
    by (auto simp: keyed_delete_where set_delete_where delete_where_def image_iff) blast+
qed

lemma no_survey_after_delete: "r \<in> set (surveys (delete_survey i v)) \<Longrightarrow> survey_id r \<noteq> i"
  by (auto simp: delete_survey_def Let_def set_delete_where)

text \<open>Everything \<^verbatim>\<open>PUT /admin/survey\<close> does before the questions.\<close>

definition fresh_survey :: "int \<Rightarrow> survey_admin \<Rightarrow> survey_tables \<Rightarrow> survey_tables" where
  "fresh_survey now req v =
     (let w = delete_survey (sa_id req) v in
      w\<lparr>surveys := (if sa_enabled req then map (\<lambda>r. r\<lparr>survey_enabled := 0\<rparr>) (surveys w) else surveys w) @
        [\<lparr>survey_id = sa_id req, survey_enabled = (if sa_enabled req then 1 else 0), survey_updated = now\<rparr>]\<rparr>)"

lemma admin_put_survey_run:
  assumes "has_permission (user_permissions user s) ADMIN"
  shows "admin_put_survey now user req s =
    and_then (for_each (put_question (sa_id req)) (sa_questions req)) (\<lambda>_. ret OK)
      (s\<lparr>survey_state := fresh_survey now req (survey_state s)\<rparr>)"
  using assms no_survey_after_delete [of _ "sa_id req" "survey_state s"]
  by (auto simp: admin_put_survey_def require_permission_def run_simps on_surveys_def insert_survey_def fresh_survey_def Let_def
      same_key_def)

lemma tables_ok_fresh: "tables_ok v \<Longrightarrow> tables_ok (fresh_survey now req v)"
proof -
  assume "tables_ok v"
  then have ok: "tables_ok (delete_survey (sa_id req) v)" by (rule tables_ok_delete)
  have none: "count_rows (\<lambda>r. survey_enabled r \<noteq> 0) (map (\<lambda>r. r\<lparr>survey_enabled := 0\<rparr>) xs) = 0" for xs
    by (induction xs) (simp_all add: count_rows_def)
  have keyed: "keyed survey_id (map (\<lambda>r. r\<lparr>survey_enabled := 0\<rparr>) xs) = keyed survey_id xs" for xs
    by (rule keyed_map_same) simp
  show ?thesis
    using ok no_survey_after_delete [of _ "sa_id req" v]
    unfolding fresh_survey_def tables_ok_def Let_def
    by (auto simp: none keyed keyed_snoc image_iff)
qed

lemma surveys_ok_put:
  assumes "surveys_ok s"
  shows "surveys_ok (snd (admin_put_survey now user req s))"
proof (cases "has_permission (user_permissions user s) ADMIN")
  case True
  have "preserves surveys_ok (and_then (for_each (put_question (sa_id req)) (sa_questions req)) (\<lambda>_. ret OK))"
    unfolding put_question_def put_choice_def by (intro keeps surveys_ok_inserts)
  with True assms tables_ok_fresh show ?thesis by (simp add: admin_put_survey_run preserves_def surveys_ok_def)
qed (use assms in \<open>simp add: admin_put_survey_def require_permission_def run_simps\<close>)

text \<open>
  From consistent survey tables, such as empty ones, every sequence of submissions and
  administration requests keeps them consistent: at most one survey is enabled, questions, choices
  and role mappings have unique keys and existing parents, and nobody has two responses to one
  survey; so a second submission to the survey a member has answered is refused and changes nothing.
\<close>

theorem one_survey_one_response:
  assumes "surveys_ok s"
  shows "surveys_ok (run survey_step s ops) \<and>
    (\<forall>q uuid now user req. q \<in> set (survey_responses (survey_state (run survey_step s ops))) \<longrightarrow> resp_pubkey q = user \<longrightarrow>
       resp_survey q = sub_survey req \<longrightarrow>
       isl (fst (submit_survey uuid now user req (run survey_step s ops))) \<and>
       snd (submit_survey uuid now user req (run survey_step s ops)) = run survey_step s ops)"
proof -
  have step: "surveys_ok (survey_step t op)" if "surveys_ok t" for t op
    using that surveys_ok_submit surveys_ok_put by (cases op) (auto simp: preserves_def)
  have "surveys_ok (run survey_step s ops)" by (rule run_invariant) (simp_all add: step assms)
  moreover have "isl (fst (submit_survey uuid now user req t)) \<and> snd (submit_survey uuid now user req t) = t"
    if "q \<in> set (survey_responses (survey_state t))" "resp_pubkey q = user" "resp_survey q = sub_survey req" for q uuid now user req t
  proof -
    have "exists_row (response_clash \<lparr>resp_row_id = uuid, resp_pubkey = user, resp_survey = sub_survey req, resp_submitted = now\<rparr>)
        (survey_responses (survey_state t))" using that by (auto simp: exists_row_iff response_clash_def)
    then have "wp (submit_survey uuid now user req) (\<lambda>_ _. False) (\<lambda>_ u. u = t) t"
      unfolding submit_survey_def Let_def insert_response_def require_answers_def
      by (auto simp: wps insert_row_def split: option.split)
    then show ?thesis by (auto simp: wp_def split: prod.splits sum.splits)
  qed
  ultimately show ?thesis by blast
qed

theorem one_survey_one_response_witness:
  "isl (fst (submit_survey ''r2'' 11 demo_member demo_submission
     (run survey_step demo_polled [SubmitSurvey ''r1'' 9 demo_member demo_submission])))"
proof -
  have "surveys_ok demo_polled"
    by (simp add: surveys_ok_def tables_ok_def demo_polled_def demo_survey_tables_def keyed_def count_rows_def)
  note ok = one_survey_one_response [OF this, of "[SubmitSurvey ''r1'' 9 demo_member demo_submission]"]
  have "map (\<lambda>q. (resp_pubkey q, resp_survey q))
      (survey_responses (survey_state (run survey_step demo_polled [SubmitSurvey ''r1'' 9 demo_member demo_submission]))) =
    [(demo_member, ''v'')]" by code_simp
  then obtain q where "q \<in> set (survey_responses (survey_state (run survey_step demo_polled [SubmitSurvey ''r1'' 9 demo_member demo_submission])))"
    "resp_pubkey q = demo_member" "resp_survey q = ''v''" by (auto simp: map_eq_Cons_conv simp del: run.simps)
  moreover have "sub_survey demo_submission = ''v''" by (simp add: demo_submission_def)
  ultimately show ?thesis using ok by metis
qed

subsection \<open>What is stored is what is read\<close>

definition choices_in :: "question_admin \<Rightarrow> choice_admin list" where
  "choices_in q = (case qa_choices q of None \<Rightarrow> [] | Some cs \<Rightarrow> cs)"

definition new_question :: "string \<Rightarrow> question_admin \<Rightarrow> question_row" where
  "new_question sid q = \<lparr>q_id = qa_id q, q_survey = sid, q_prompt = qa_prompt q, q_kind = qa_kind q,
     q_required = (if qa_required q then 1 else 0), q_order = qa_order q\<rparr>"

definition new_choice :: "string \<Rightarrow> choice_admin \<Rightarrow> choice_row" where
  "new_choice qid c = \<lparr>ch_id = ca_id c, ch_question = qid, ch_label = ca_label c, ch_order = ca_order c\<rparr>"

definition new_choice_roles :: "choice_admin \<Rightarrow> choice_role_row list" where
  "new_choice_roles c = map (\<lambda>i. \<lparr>cr_choice = ca_id c, cr_role = i\<rparr>) (ca_roles c)"

definition add_choice :: "string \<Rightarrow> choice_admin \<Rightarrow> survey_tables \<Rightarrow> survey_tables" where
  "add_choice qid c v = v\<lparr>survey_choices := survey_choices v @ [new_choice qid c],
     survey_choice_roles := survey_choice_roles v @ new_choice_roles c\<rparr>"

definition add_question :: "string \<Rightarrow> question_admin \<Rightarrow> survey_tables \<Rightarrow> survey_tables" where
  "add_question sid q v =
     fold (add_choice (qa_id q)) (choices_in q) (v\<lparr>survey_questions := survey_questions v @ [new_question sid q]\<rparr>)"

lemma insert_choice_roles_run:
  "distinct is \<Longrightarrow> (\<And>x. x \<in> set (survey_choice_roles v) \<Longrightarrow> cr_choice x = c \<Longrightarrow> cr_role x \<notin> set is) \<Longrightarrow> c \<in> ch_id ` set (survey_choices v) \<Longrightarrow>
   for_each (\<lambda>i. insert_choice_role \<lparr>cr_choice = c, cr_role = i\<rparr>) is (s\<lparr>survey_state := v\<rparr>) =
     (Inr (), s\<lparr>survey_state := v\<lparr>survey_choice_roles := survey_choice_roles v @ map (\<lambda>i. \<lparr>cr_choice = c, cr_role = i\<rparr>) is\<rparr>\<rparr>)"
proof (induction "is" arbitrary: v)
  case (Cons i "is")
  have "insert_choice_role \<lparr>cr_choice = c, cr_role = i\<rparr> (s\<lparr>survey_state := v\<rparr>) =
      (Inr (), s\<lparr>survey_state := v\<lparr>survey_choice_roles := survey_choice_roles v @ [\<lparr>cr_choice = c, cr_role = i\<rparr>]\<rparr>\<rparr>)"
    using Cons.prems(2) [of "\<lparr>cr_choice = c, cr_role = i\<rparr>"] Cons.prems(3)
    by (auto simp: insert_choice_role_def writing_def exec_def insert_or_ignore_def exists_row_iff image_iff)
  moreover have "cr_role x \<notin> set is" if "x \<in> set (survey_choice_roles v @ [\<lparr>cr_choice = c, cr_role = i\<rparr>])" "cr_choice x = c" for x
  proof (cases "x \<in> set (survey_choice_roles v)")
    case True
    with Cons.prems(2) [of x] that(2) show ?thesis by simp
  next
    case False
    with that(1) have "cr_role x = i" by simp
    with Cons.prems(1) show ?thesis by simp
  qed
  ultimately show ?case
    using Cons.IH [of "v\<lparr>survey_choice_roles := survey_choice_roles v @ [\<lparr>cr_choice = c, cr_role = i\<rparr>]\<rparr>"] Cons.prems(1,3)
    by (simp add: and_then_def)
qed (simp add: ret_def)

definition refs_ok :: "survey_tables \<Rightarrow> bool" where
  "refs_ok v \<longleftrightarrow> (\<forall>x \<in> set (survey_choice_roles v). cr_choice x \<in> ch_id ` set (survey_choices v))"

lemma refs_ok_add: "refs_ok v \<Longrightarrow> refs_ok (add_choice qid c v)" "refs_ok v \<Longrightarrow> refs_ok (v\<lparr>survey_questions := x\<rparr>)"
  by (auto simp: refs_ok_def add_choice_def new_choice_def new_choice_roles_def)

lemma put_choice_run:
  assumes "ca_id c \<notin> ch_id ` set (survey_choices v)" "qid \<in> q_id ` set (survey_questions v)" "refs_ok v" "distinct (ca_roles c)"
  shows "put_choice qid c (s\<lparr>survey_state := v\<rparr>) = (Inr (), s\<lparr>survey_state := add_choice qid c v\<rparr>)"
proof -
  have "insert_choice (new_choice qid c) (s\<lparr>survey_state := v\<rparr>) =
      (Inr (), s\<lparr>survey_state := v\<lparr>survey_choices := survey_choices v @ [new_choice qid c]\<rparr>\<rparr>)"
    using assms(1,2) by (auto simp: insert_choice_def new_choice_def writing_def exec_def insert_row_def exists_row_iff same_key_def image_iff)
  moreover have "x \<in> set (survey_choice_roles v) \<Longrightarrow> cr_choice x \<noteq> ca_id c" for x
    using assms(1,3) unfolding refs_ok_def by metis
  ultimately show ?thesis
    using insert_choice_roles_run [of "ca_roles c" "v\<lparr>survey_choices := survey_choices v @ [new_choice qid c]\<rparr>" "ca_id c"] assms(4)
    by (simp add: put_choice_def and_then_def add_choice_def new_choice_def new_choice_roles_def)
qed

lemma put_choices_run:
  "distinct (map ca_id cs) \<Longrightarrow> ca_id ` set cs \<inter> ch_id ` set (survey_choices v) = {} \<Longrightarrow> qid \<in> q_id ` set (survey_questions v) \<Longrightarrow>
   refs_ok v \<Longrightarrow> (\<And>c. c \<in> set cs \<Longrightarrow> distinct (ca_roles c)) \<Longrightarrow>
   for_each (put_choice qid) cs (s\<lparr>survey_state := v\<rparr>) = (Inr (), s\<lparr>survey_state := fold (add_choice qid) cs v\<rparr>)"
proof (induction cs arbitrary: v)
  case (Cons c cs)
  have "ca_id ` set cs \<inter> ch_id ` set (survey_choices (add_choice qid c v)) = {}" "qid \<in> q_id ` set (survey_questions (add_choice qid c v))"
    using Cons.prems(1-3) by (auto simp: add_choice_def new_choice_def)
  with Cons.IH [of "add_choice qid c v"] Cons.prems put_choice_run [of c v qid s] show ?case
    by (simp add: and_then_def refs_ok_add)
qed (simp add: ret_def)

lemma fold_add_choice:
  "surveys (fold (add_choice qid) cs v) = surveys v" "survey_questions (fold (add_choice qid) cs v) = survey_questions v"
  "survey_choices (fold (add_choice qid) cs v) = survey_choices v @ map (new_choice qid) cs"
  "survey_choice_roles (fold (add_choice qid) cs v) = survey_choice_roles v @ concat (map new_choice_roles cs)"
  "refs_ok v \<Longrightarrow> refs_ok (fold (add_choice qid) cs v)"
proof (induction cs arbitrary: v)
  case (Cons c cs)
  { case 1 then show ?case using Cons(1) by (simp add: add_choice_def) }
  { case 2 then show ?case using Cons(2) by (simp add: add_choice_def) }
  { case 3 then show ?case using Cons(3) by (simp add: add_choice_def) }
  { case 4 then show ?case using Cons(4) by (simp add: add_choice_def) }
  { case 5 then show ?case using Cons(5) by (simp add: refs_ok_add) }
qed simp_all

lemma put_question_run:
  assumes "qa_id q \<notin> q_id ` set (survey_questions v)" "sid \<in> survey_id ` set (surveys v)" "refs_ok v"
    and "distinct (map ca_id (choices_in q))" "ca_id ` set (choices_in q) \<inter> ch_id ` set (survey_choices v) = {}"
    and "\<And>c. c \<in> set (choices_in q) \<Longrightarrow> distinct (ca_roles c)"
  shows "put_question sid q (s\<lparr>survey_state := v\<rparr>) = (Inr (), s\<lparr>survey_state := add_question sid q v\<rparr>)"
proof -
  let ?v = "v\<lparr>survey_questions := survey_questions v @ [new_question sid q]\<rparr>"
  have "insert_question (new_question sid q) (s\<lparr>survey_state := v\<rparr>) = (Inr (), s\<lparr>survey_state := ?v\<rparr>)"
    using assms(1,2) by (auto simp: insert_question_def new_question_def writing_def exec_def insert_row_def exists_row_iff same_key_def image_iff)
  moreover have "for_each (put_choice (qa_id q)) (choices_in q) (s\<lparr>survey_state := ?v\<rparr>) = (Inr (), s\<lparr>survey_state := add_question sid q v\<rparr>)"
    unfolding add_question_def using assms(3-6)
    by (intro put_choices_run refs_ok_add(2)) (simp_all add: new_question_def)
  ultimately show ?thesis
    by (cases "qa_choices q") (simp_all add: put_question_def and_then_def choices_in_def new_question_def ret_def)
qed

lemma add_question_tables:
  "surveys (add_question sid q v) = surveys v" "survey_questions (add_question sid q v) = survey_questions v @ [new_question sid q]"
  "survey_choices (add_question sid q v) = survey_choices v @ map (new_choice (qa_id q)) (choices_in q)"
  "survey_choice_roles (add_question sid q v) = survey_choice_roles v @ concat (map new_choice_roles (choices_in q))"
  "refs_ok v \<Longrightarrow> refs_ok (add_question sid q v)"
  by (simp_all add: add_question_def fold_add_choice refs_ok_add)

lemma put_questions_run:
  "distinct (map qa_id qs) \<Longrightarrow> qa_id ` set qs \<inter> q_id ` set (survey_questions v) = {} \<Longrightarrow> sid \<in> survey_id ` set (surveys v) \<Longrightarrow> refs_ok v \<Longrightarrow>
   distinct (map ca_id (concat (map choices_in qs))) \<Longrightarrow> ca_id ` set (concat (map choices_in qs)) \<inter> ch_id ` set (survey_choices v) = {} \<Longrightarrow>
   (\<And>c. c \<in> set (concat (map choices_in qs)) \<Longrightarrow> distinct (ca_roles c)) \<Longrightarrow>
   for_each (put_question sid) qs (s\<lparr>survey_state := v\<rparr>) = (Inr (), s\<lparr>survey_state := fold (add_question sid) qs v\<rparr>)"
proof (induction qs arbitrary: v)
  case (Cons q qs)
  have "put_question sid q (s\<lparr>survey_state := v\<rparr>) = (Inr (), s\<lparr>survey_state := add_question sid q v\<rparr>)"
    using Cons.prems by (intro put_question_run) auto
  moreover have "ch_id ` set (survey_choices (add_question sid q v)) = ch_id ` set (survey_choices v) \<union> ca_id ` set (choices_in q)"
    by (simp add: add_question_tables new_choice_def image_Un image_image)
  with Cons.prems(5,6) have "ca_id ` set (concat (map choices_in qs)) \<inter> ch_id ` set (survey_choices (add_question sid q v)) = {}"
    by (simp add: image_Un) blast
  with Cons.prems have "for_each (put_question sid) qs (s\<lparr>survey_state := add_question sid q v\<rparr>) =
      (Inr (), s\<lparr>survey_state := fold (add_question sid) qs (add_question sid q v)\<rparr>)"
    by (intro Cons.IH) (auto simp: add_question_tables new_question_def)
  ultimately show ?case by (simp add: and_then_def)
qed (simp add: ret_def)

lemma fold_add_question:
  "surveys (fold (add_question sid) qs v) = surveys v"
  "survey_questions (fold (add_question sid) qs v) = survey_questions v @ map (new_question sid) qs"
  "survey_choices (fold (add_question sid) qs v) = survey_choices v @ concat (map (\<lambda>q. map (new_choice (qa_id q)) (choices_in q)) qs)"
  "survey_choice_roles (fold (add_question sid) qs v) = survey_choice_roles v @ concat (map new_choice_roles (concat (map choices_in qs)))"
proof (induction qs arbitrary: v)
  case (Cons q qs)
  { case 1 then show ?case using Cons(1) by (simp add: add_question_tables) }
  { case 2 then show ?case using Cons(2) by (simp add: add_question_tables) }
  { case 3 then show ?case using Cons(3) by (simp add: add_question_tables) }
  { case 4 then show ?case using Cons(4) by (simp add: add_question_tables) }
qed simp_all

lemma filter_group:
  "distinct (map f xs) \<Longrightarrow> x \<in> set xs \<Longrightarrow> (\<And>x y. y \<in> set (g x) \<Longrightarrow> key y = f x) \<Longrightarrow>
   filter (\<lambda>y. key y = f x) (concat (map g xs)) = g x"
proof (induction xs)
  case (Cons z zs)
  have none: "filter (\<lambda>y. key y = f x) (concat (map g zs)) = []" if "f x \<notin> f ` set zs"
    using that Cons.prems(3) by (auto simp: filter_empty_conv) (metis imageI)
  have all: "filter (\<lambda>y. key y = f z) (g z) = g z" using Cons.prems(3) by (auto intro: filter_True)
  show ?case
  proof (cases "x = z")
    case True
    with Cons.prems(1) none all show ?thesis by simp
  next
    case False
    with Cons.prems have "x \<in> set zs" "f z \<noteq> f x" by auto
    then have "filter (\<lambda>y. key y = f x) (g z) = []" using Cons.prems(3) by (auto simp: filter_empty_conv)
    with Cons \<open>x \<in> set zs\<close> show ?thesis by simp
  qed
qed simp

text \<open>Surveys with unique ids in display order, choices exactly on choice questions, and no role twice.\<close>

definition survey_wf :: "survey_admin \<Rightarrow> bool" where
  "survey_wf x \<longleftrightarrow> distinct (map qa_id (sa_questions x)) \<and> sorted (map qa_order (sa_questions x)) \<and>
     distinct (map ca_id (concat (map choices_in (sa_questions x)))) \<and>
     list_all (\<lambda>q. (qa_choices q \<noteq> None \<longleftrightarrow> qa_kind q = ''choice'') \<and> sorted (map ca_order (choices_in q)) \<and>
       list_all (\<lambda>c. distinct (ca_roles c)) (choices_in q)) (sa_questions x)"

text \<open>No id of the survey is taken by another survey.\<close>

definition ids_free :: "survey_admin \<Rightarrow> hub \<Rightarrow> bool" where
  "ids_free x s \<longleftrightarrow> (let w = delete_survey (sa_id x) (survey_state s) in
     qa_id ` set (sa_questions x) \<inter> q_id ` set (survey_questions w) = {} \<and>
     ca_id ` set (concat (map choices_in (sa_questions x))) \<inter> ch_id ` set (survey_choices w) = {})"

lemma questions_read_back:
  assumes "survey_wf x" and v: "v = fold (add_question (sa_id x)) (sa_questions x) w"
    and "\<And>q. q \<in> set (survey_questions w) \<Longrightarrow> q_survey q \<noteq> sa_id x"
    and choices: "\<And>c. c \<in> set (survey_choices w) \<Longrightarrow> ch_question c \<notin> qa_id ` set (sa_questions x)"
    and roles: "\<And>r. r \<in> set (survey_choice_roles w) \<Longrightarrow> cr_choice r \<notin> ca_id ` set (concat (map choices_in (sa_questions x)))"
  shows "map (question_admin_view v) (questions_of v (sa_id x)) = sa_questions x"
proof -
  let ?qs = "sa_questions x"
  have "filter (\<lambda>q. q_survey q = sa_id x) (survey_questions v) = map (new_question (sa_id x)) ?qs"
    using assms(3) by (auto simp: v fold_add_question filter_empty_conv filter_map comp_def new_question_def)
  moreover have "sort_key q_order (map (new_question (sa_id x)) ?qs) = map (new_question (sa_id x)) ?qs"
    using assms(1) by (intro sort_key_id_if_sorted) (simp add: survey_wf_def comp_def new_question_def)
  ultimately have qs: "questions_of v (sa_id x) = map (new_question (sa_id x)) ?qs" by (simp add: questions_of_def)
  have rs: "roles_of_choice v (ca_id c) = ca_roles c" if "c \<in> set (concat (map choices_in ?qs))" for c
  proof -
    have "filter (\<lambda>r. cr_choice r = ca_id c) (concat (map new_choice_roles (concat (map choices_in ?qs)))) = new_choice_roles c"
      using assms(1) that by (intro filter_group) (auto simp: survey_wf_def new_choice_roles_def)
    moreover have "filter (\<lambda>r. cr_choice r = ca_id c) (survey_choice_roles w) = []"
      using roles that by (auto simp: filter_empty_conv)
    ultimately show ?thesis by (simp add: roles_of_choice_def v fold_add_question new_choice_roles_def comp_def)
  qed
  have cs: "choices_of v (qa_id q) = map (new_choice (qa_id q)) (choices_in q)" if "q \<in> set ?qs" for q
  proof -
    have "filter (\<lambda>c. ch_question c = qa_id q) (concat (map (\<lambda>q. map (new_choice (qa_id q)) (choices_in q)) ?qs)) =
        map (new_choice (qa_id q)) (choices_in q)"
      using assms(1) that by (intro filter_group [where f = qa_id]) (auto simp: survey_wf_def new_choice_def)
    moreover have "filter (\<lambda>c. ch_question c = qa_id q) (survey_choices w) = []" using choices that by (auto simp: filter_empty_conv)
    moreover have "sort_key ch_order (map (new_choice (qa_id q)) (choices_in q)) = map (new_choice (qa_id q)) (choices_in q)"
      using assms(1) that by (intro sort_key_id_if_sorted) (auto simp: survey_wf_def comp_def new_choice_def list_all_iff)
    ultimately show ?thesis by (simp add: choices_of_def v fold_add_question)
  qed
  have "question_admin_view v (new_question (sa_id x) q) = q" if "q \<in> set ?qs" for q
  proof -
    have "choice_admin_view v (new_choice (qa_id q) c) = c" if "c \<in> set (choices_in q)" for c
    proof -
      have "c \<in> set (concat (map choices_in ?qs))" using that \<open>q \<in> set ?qs\<close> by auto
      from rs [OF this] show ?thesis by (simp add: choice_admin_view_def new_choice_def)
    qed
    then have "map (choice_admin_view v) (map (new_choice (qa_id q)) (choices_in q)) = choices_in q"
      by (simp add: comp_def map_idI)
    moreover have "(qa_choices q \<noteq> None \<longleftrightarrow> qa_kind q = ''choice'')" using assms(1) that by (auto simp: survey_wf_def list_all_iff)
    ultimately show ?thesis
      using cs [OF that] by (cases "qa_choices q") (simp_all add: question_admin_view_def new_question_def choices_in_def)
  qed
  with qs show ?thesis by (simp add: comp_def map_idI)
qed

text \<open>
  A survey an administrator stores, with unique ids in display order, comes back unchanged from
  \<^verbatim>\<open>load_survey_admin\<close>, role mappings included, whatever survey had its id before.
\<close>

theorem survey_roundtrip:
  assumes "surveys_ok s" "has_permission (user_permissions user s) ADMIN" "survey_wf x" "ids_free x s"
  shows "fst (admin_put_survey now user x s) = Inr OK \<and> load_survey_admin (sa_id x) (snd (admin_put_survey now user x s)) = Some x"
proof -
  let ?w = "fresh_survey now x (survey_state s)" and ?d = "delete_survey (sa_id x) (survey_state s)"
  let ?v = "fold (add_question (sa_id x)) (sa_questions x) ?w"
  have d: "tables_ok ?d" using assms(1) by (simp add: surveys_ok_def tables_ok_delete)
  have w: "survey_questions ?w = survey_questions ?d" "survey_choices ?w = survey_choices ?d" "survey_choice_roles ?w = survey_choice_roles ?d"
    by (simp_all add: fresh_survey_def Let_def)
  have free: "qa_id ` set (sa_questions x) \<inter> q_id ` set (survey_questions ?d) = {}"
    "ca_id ` set (concat (map choices_in (sa_questions x))) \<inter> ch_id ` set (survey_choices ?d) = {}"
    using assms(4) by (simp_all add: ids_free_def Let_def)
  have "for_each (put_question (sa_id x)) (sa_questions x) (s\<lparr>survey_state := ?w\<rparr>) = (Inr (), s\<lparr>survey_state := ?v\<rparr>)"
  proof (rule put_questions_run)
    show "refs_ok ?w" using d by (simp add: refs_ok_def w tables_ok_def)
    show "sa_id x \<in> survey_id ` set (surveys ?w)" by (simp add: fresh_survey_def Let_def)
  qed (use assms(3) free in \<open>auto simp: w survey_wf_def list_all_iff\<close>)
  then have run: "admin_put_survey now user x s = (Inr OK, s\<lparr>survey_state := ?v\<rparr>)"
    by (simp add: admin_put_survey_run [OF assms(2)] and_then_def ret_def)
  have "row_at survey_id (sa_id x) (surveys ?v) =
      Some \<lparr>survey_id = sa_id x, survey_enabled = (if sa_enabled x then 1 else 0), survey_updated = now\<rparr>"
    using no_survey_after_delete [of _ "sa_id x" "survey_state s"]
    by (auto simp: fold_add_question fresh_survey_def Let_def row_at_append row_at_None_iff row_at_def [of _ _ "[_]"]
        split: option.split dest!: row_at_key)
  moreover have "map (question_admin_view ?v) (questions_of ?v (sa_id x)) = sa_questions x"
  proof (rule questions_read_back [OF assms(3) refl])
    show "q \<in> set (survey_questions ?w) \<Longrightarrow> q_survey q \<noteq> sa_id x" for q
      by (auto simp: w delete_survey_def Let_def set_delete_where)
    show "c \<in> set (survey_choices ?w) \<Longrightarrow> ch_question c \<notin> qa_id ` set (sa_questions x)" for c
      using d free(1) by (auto simp: w tables_ok_def)
    show "r \<in> set (survey_choice_roles ?w) \<Longrightarrow> cr_choice r \<notin> ca_id ` set (concat (map choices_in (sa_questions x)))" for r
      using d free(2) unfolding w tables_ok_def by blast
  qed
  ultimately show ?thesis by (simp add: run load_survey_admin_def Let_def)
qed

definition demo_new_survey :: survey_admin where
  "demo_new_survey = \<lparr>sa_id = ''v'', sa_enabled = True, sa_questions =
     [\<lparr>qa_id = ''p'', qa_prompt = ''Who?'', qa_kind = ''text'', qa_required = False, qa_order = 0, qa_choices = None\<rparr>,
      \<lparr>qa_id = ''q'', qa_prompt = ''What?'', qa_kind = ''choice'', qa_required = True, qa_order = 1, qa_choices =
        Some [\<lparr>ca_id = ''a'', ca_label = ''A'', ca_order = 0, ca_roles = [''mods'', ''builtin-everyone'']\<rparr>,
              \<lparr>ca_id = ''b'', ca_label = ''B'', ca_order = 1, ca_roles = []\<rparr>]\<rparr>]\<rparr>"

theorem survey_roundtrip_witness:
  "load_survey_admin ''v'' (snd (admin_put_survey 20 demo_owner demo_new_survey demo_polled)) = Some demo_new_survey"
proof -
  have "surveys_ok demo_polled"
    by (simp add: surveys_ok_def tables_ok_def demo_polled_def demo_survey_tables_def keyed_def count_rows_def)
  moreover have "has_permission (user_permissions demo_owner demo_polled) ADMIN" "survey_wf demo_new_survey" "ids_free demo_new_survey demo_polled"
    by code_simp+
  ultimately show ?thesis using survey_roundtrip [of demo_polled demo_owner demo_new_survey 20] by (simp add: demo_new_survey_def)
qed

subsection \<open>What a submission does not check\<close>

text \<open>
  A choice of another, disabled survey gives its role too, under a question that does not exist: the
  only test is that the active survey's required questions are answered.
\<close>

definition demo_two_surveys :: hub where
  "demo_two_surveys = demo_polled\<lparr>survey_state := demo_survey_tables\<lparr>surveys :=
     [\<lparr>survey_id = ''v'', survey_enabled = 0, survey_updated = 3\<rparr>, \<lparr>survey_id = ''w'', survey_enabled = 1, survey_updated = 4\<rparr>]\<rparr>\<rparr>"

lemma foreign_choice_grants_role:
  "fst (submit_survey ''r1'' 9 demo_member
     \<lparr>sub_survey = ''w'', sub_answers = [\<lparr>ai_question = ''nowhere'', ai_choice = Some ''yes'', ai_text = None\<rparr>]\<rparr> demo_two_surveys) =
   Inr (''approved'', [''mods''])"
  by code_simp

text \<open>Two answers to one question fail after the response is stored; the corrected submission is then refused.\<close>

lemma failed_submission_is_final:
  "let twice = demo_submission\<lparr>sub_answers := sub_answers demo_submission @ sub_answers demo_submission\<rparr>;
       t = snd (submit_survey ''r1'' 9 demo_member twice demo_polled) in
   fst (submit_survey ''r1'' 9 demo_member twice demo_polled) = Inl (DbError UNIQUE) \<and>
   fst (submit_survey ''r2'' 11 demo_member demo_submission t) = Inl (Reject CONFLICT ''Survey already submitted'')"
  by code_simp

text \<open>A member who is already approved waits for approval again after writing a text.\<close>

lemma text_answer_unapproves:
  "map_option user_approval (row_at user_key demo_member (users demo_polled)) = Some ''approved''"
  "map_option user_approval (row_at user_key demo_member (users (snd (submit_survey ''r1'' 9 demo_member
     \<lparr>sub_survey = ''v'', sub_answers = [\<lparr>ai_question = ''q'', ai_choice = Some ''yes'', ai_text = Some ''hi''\<rparr>]\<rparr> demo_polled)))) =
   Some ''pending''"
  by code_simp+

text \<open>Once the question of an answer is gone, the list of responses cannot be read at all.\<close>

lemma replaced_question_breaks_listing:
  "fst (admin_list_responses demo_owner ''all'' 50
     (run survey_step demo_polled [SubmitSurvey ''r1'' 9 demo_member demo_submission,
        PutSurvey 20 demo_owner (demo_new_survey\<lparr>sa_questions := []\<rparr>)])) = Inl decode_null"
  by code_simp

end
