(* ===== verification/Seed.thy ===== *)
theory Seed
  imports Hub_Schema "HOL-Library.Signed_Division" "HOL-Library.Char_ord" "HOL-Library.List_Lexorder"
begin

text \<open>
  The discovery service of \<^verbatim>\<open>seed/src\<close>: registration and removal of farms and the public catalogue
  (\<^verbatim>\<open>routes/farms.rs\<close>), and the sweep that revalidates the listings (\<^verbatim>\<open>revalidation.rs\<close>).

  What a farm answers to \<^verbatim>\<open>GET /farm/public-info\<close> is an argument, a parsed JSON body whose objects
  have distinct keys; so is \<^verbatim>\<open>verify_strict\<close> of the signature crate. A farm's languages and tags are
  kept as the lists they encode. Numbers are \<^verbatim>\<open>i64\<close> with the wrap-around of a release build.

  Main results: a listing was confirmed by the farm itself at the listed address, under the listed
  key and with its consent, and it goes away only on a request signed with that key or in a sweep
  in which the farm did not confirm; a sweep leaves exactly the farms that confirm; the catalogue's
  eight queries are one filter; the decoding of tag parameters inverts percent-encoding of ASCII
  text, and of nothing else.
\<close>

subsection \<open>The directory\<close>

record farm_listing =
  rf_url :: string
  rf_pubkey :: string
  rf_name :: string
  rf_description :: "string option"
  rf_country :: "string option"
  rf_region :: "string option"
  rf_languages :: "string list"
  rf_tags :: "string list"
  rf_hub_count :: int
  rf_max_hubs :: "int option"
  rf_capacity :: "int option"
  rf_geo_unverified :: int
  rf_verified :: int
  rf_registered :: int

record seed =
  registered_farms :: "farm_listing list"

type_synonym 'a seed_handler = "(seed, 'a) handler"

definition bad_request :: "string \<Rightarrow> failure" where
  "bad_request code = Reject BAD_REQUEST code"

subsection \<open>Asking a farm\<close>

record farm_public_info =
  fpi_kind :: "string option"
  fpi_public_key :: "string option"
  fpi_allow_discovery_listing :: "bool option"
  fpi_hub_count :: "int option"
  fpi_max_hubs_total :: "int option"

text \<open>No connection, or a response: whether its status is a success, and its body unless unparsable.\<close>

datatype probe = Unreachable | Answer bool "json option"

text \<open>A field of type \<^verbatim>\<open>Option<T>\<close>: absent or null is \<^const>\<open>None\<close>, a value of another type an error.\<close>

definition decode_opt :: "(json \<Rightarrow> 'a option) \<Rightarrow> json option \<Rightarrow> 'a option option" where
  "decode_opt f v = (case v of None \<Rightarrow> Some None | Some JNull \<Rightarrow> Some None
     | Some x \<Rightarrow> (case f x of None \<Rightarrow> None | Some y \<Rightarrow> Some (Some y)))"

definition decode_info :: "json option \<Rightarrow> json option \<Rightarrow> json option \<Rightarrow> json option \<Rightarrow> json option \<Rightarrow> farm_public_info option" where
  "decode_info k p a h m =
     (case (decode_opt as_str k, decode_opt as_str p, decode_opt as_bool a, decode_opt as_i64 h, decode_opt as_i64 m) of
        (Some k', Some p', Some a', Some h', Some m') \<Rightarrow>
          Some \<lparr>fpi_kind = k', fpi_public_key = p', fpi_allow_discovery_listing = a', fpi_hub_count = h', fpi_max_hubs_total = m'\<rparr>
      | _ \<Rightarrow> None)"

text \<open>The derived decoder takes an object by field names or an array by position.\<close>

fun parse_public_info :: "json \<Rightarrow> farm_public_info option" where
  "parse_public_info (JObj kvs) = decode_info (map_of kvs ''kind'') (map_of kvs ''public_key'')
     (map_of kvs ''allow_discovery_listing'') (map_of kvs ''hub_count'') (map_of kvs ''max_hubs_total'')"
| "parse_public_info (JArr [k, p, a, h, m]) = decode_info (Some k) (Some p) (Some a) (Some h) (Some m)"
| "parse_public_info _ = None"

definition public_info_url :: "string \<Rightarrow> string" where
  "public_info_url url = trim_end_slash url @ ''/farm/public-info''"

definition fetch_public_info :: "(string \<Rightarrow> probe) \<Rightarrow> string \<Rightarrow> farm_public_info result" where
  "fetch_public_info net url =
     (case net (public_info_url url) of
        Unreachable \<Rightarrow> Inl (bad_request ''farm_not_reachable'')
      | Answer success body \<Rightarrow>
          if \<not> success then Inl (bad_request ''farm_not_accepting_listing'')
          else case (case body of None \<Rightarrow> None | Some v \<Rightarrow> parse_public_info v) of
              None \<Rightarrow> Inl (bad_request ''farm_invalid_public_info'')
            | Some info \<Rightarrow>
                if fpi_allow_discovery_listing info \<noteq> Some True then Inl (bad_request ''farm_not_accepting_listing'')
                else Inr info)"

definition percent_of :: "int \<Rightarrow> int \<Rightarrow> int" where
  "percent_of hub_count cap = min (wrap_i64 (hub_count * 100) sdiv cap) 100"

definition compute_capacity_pct :: "int \<Rightarrow> int option \<Rightarrow> int option" where
  "compute_capacity_pct hub_count max_hubs =
     (case max_hubs of None \<Rightarrow> None
      | Some cap \<Rightarrow> if cap \<le> 0 then None else Some (percent_of hub_count cap))"

subsection \<open>Registration\<close>

record register_request =
  reg_url :: string
  reg_pubkey :: string
  reg_name :: string
  reg_description :: "string option"
  reg_country :: "string option"
  reg_region :: "string option"
  reg_languages :: "string list option"
  reg_tags :: "string list option"
  reg_signed_nonce :: "string option"

definition listing_of :: "register_request \<Rightarrow> farm_public_info \<Rightarrow> int \<Rightarrow> farm_listing" where
  "listing_of req info now =
     (let hub_count = (case fpi_hub_count info of None \<Rightarrow> 0 | Some n \<Rightarrow> n) in
      \<lparr>rf_url = reg_url req, rf_pubkey = reg_pubkey req, rf_name = trim (reg_name req),
       rf_description = reg_description req, rf_country = reg_country req, rf_region = reg_region req,
       rf_languages = (case reg_languages req of None \<Rightarrow> [''en''] | Some v \<Rightarrow> v),
       rf_tags = (case reg_tags req of None \<Rightarrow> [] | Some v \<Rightarrow> v), rf_hub_count = hub_count,
       rf_max_hubs = fpi_max_hubs_total info, rf_capacity = compute_capacity_pct hub_count (fpi_max_hubs_total info),
       rf_geo_unverified = 0, rf_verified = now, rf_registered = now\<rparr>)"

text \<open>\<^verbatim>\<open>ON CONFLICT(farm_url)\<close> overwrites every column but the date of the first registration.\<close>

definition upsert_listing :: "farm_listing \<Rightarrow> unit seed_handler" where
  "upsert_listing r =
     writing (\<lambda>s. upsert (same_key rf_url) True r (\<lambda>q. r\<lparr>rf_registered := rf_registered q\<rparr>) (registered_farms s))
       (\<lambda>t s. s\<lparr>registered_farms := t\<rparr>)"

definition register :: "(string \<Rightarrow> probe) \<Rightarrow> int \<Rightarrow> register_request \<Rightarrow> (bool \<times> int) seed_handler" where
  "register net now req =
     and_then (check (reg_url req \<noteq> []) (bad_request ''missing_farm_url'')) (\<lambda>_.
     and_then (check (length (reg_pubkey req) = 64) (bad_request ''invalid_farm_pubkey'')) (\<lambda>_.
     and_then (check (trim (reg_name req) \<noteq> []) (bad_request ''missing_name'')) (\<lambda>_.
     and_then (lift (fetch_public_info net (reg_url req))) (\<lambda>info.
     and_then (case fpi_public_key info of
         Some remote_pk \<Rightarrow> check (remote_pk = reg_pubkey req) (bad_request ''pubkey_mismatch'')
       | None \<Rightarrow> fail (bad_request ''farm_missing_public_key'')) (\<lambda>_.
     and_then (upsert_listing (listing_of req info now)) (\<lambda>_.
     ret (True, now)))))))"

subsection \<open>Removal\<close>

record deregister_request =
  der_url :: string
  der_pubkey :: string
  der_nonce :: string
  der_signature :: string

text \<open>\<open>strict\<close> is \<^verbatim>\<open>VerifyingKey::verify_strict\<close>: key bytes, message, signature bytes.\<close>

definition seed_verify :: "crypto \<Rightarrow> (u8 list \<Rightarrow> u8 list \<Rightarrow> u8 list \<Rightarrow> bool) \<Rightarrow> string \<Rightarrow> u8 list \<Rightarrow> string \<Rightarrow> unit result" where
  "seed_verify K strict pubkey_hex message sig_hex =
     (case hex_decode K pubkey_hex of Inl _ \<Rightarrow> Inl (bad_request ''invalid_pubkey_hex'')
      | Inr pub \<Rightarrow>
          if length pub \<noteq> 32 then Inl (bad_request ''invalid_pubkey_length'')
          else if \<not> verifying_key_ok K pub then Inl (bad_request ''invalid_pubkey'')
          else case hex_decode K sig_hex of Inl _ \<Rightarrow> Inl (bad_request ''invalid_signature_hex'')
          | Inr sig \<Rightarrow>
              if length sig \<noteq> 64 then Inl (bad_request ''invalid_signature_length'')
              else if \<not> strict pub message sig then Inl (bad_request ''signature_mismatch'')
              else Inr ())"

definition hex_field :: "crypto \<Rightarrow> string \<Rightarrow> string \<Rightarrow> u8 list seed_handler" where
  "hex_field K code x = lift (case hex_decode K x of Inl _ \<Rightarrow> Inl (bad_request code) | Inr b \<Rightarrow> Inr b)"

definition delete_listing :: "string \<Rightarrow> unit seed_handler" where
  "delete_listing url = modify (\<lambda>s. s\<lparr>registered_farms := delete_key rf_url url (registered_farms s)\<rparr>)"

definition deregister :: "crypto \<Rightarrow> (u8 list \<Rightarrow> u8 list \<Rightarrow> u8 list \<Rightarrow> bool) \<Rightarrow> deregister_request \<Rightarrow> bool seed_handler" where
  "deregister K strict req =
     and_then (check (length (der_pubkey req) = 64) (bad_request ''invalid_farm_pubkey'')) (\<lambda>_.
     and_then (hex_field K ''invalid_farm_pubkey_hex'' (der_pubkey req)) (\<lambda>pubkey_bytes.
     and_then (hex_field K ''invalid_nonce_hex'' (der_nonce req)) (\<lambda>nonce_bytes.
     and_then (lift (seed_verify K strict (der_pubkey req) (pubkey_bytes @ nonce_bytes) (der_signature req))) (\<lambda>_.
     and_then (gets (\<lambda>s. map_option rf_pubkey (row_at rf_url (der_url req) (registered_farms s)))) (\<lambda>stored.
     and_then (case stored of
         None \<Rightarrow> fail (Reject NOT_FOUND ''not_listed'')
       | Some pk \<Rightarrow> check (pk = der_pubkey req) (bad_request ''pubkey_mismatch'')) (\<lambda>_.
     and_then (delete_listing (der_url req)) (\<lambda>_.
     ret True)))))))"

subsection \<open>The catalogue\<close>

text \<open>The decoder of query parameters: a byte is pushed as the character with that code point.\<close>

definition push_char :: "nat \<Rightarrow> string" where
  "push_char b = (if b < 128 then [char_of b] else [char_of (192 + b div 64), char_of (128 + b mod 64)])"

definition to_digit16 :: "char \<Rightarrow> nat option" where
  "to_digit16 c = (let n = of_char c :: nat in
     if 48 \<le> n \<and> n \<le> 57 then Some (n - 48)
     else if 97 \<le> n \<and> n \<le> 102 then Some (n - 87)
     else if 65 \<le> n \<and> n \<le> 70 then Some (n - 55) else None)"

fun percent_decode :: "string \<Rightarrow> string" where
  "percent_decode [] = []"
| "percent_decode (c # cs) =
     (case (if c = CHR ''%'' then (case cs of h # l # _ \<Rightarrow>
                (case (to_digit16 h, to_digit16 l) of (Some hi, Some lo) \<Rightarrow> Some (hi * 16 + lo) | _ \<Rightarrow> None)
              | _ \<Rightarrow> None) else None) of
        Some b \<Rightarrow> push_char b @ percent_decode (drop 2 cs)
      | None \<Rightarrow> (if c = CHR ''+'' then '' '' else push_char (of_char c)) @ percent_decode cs)"

text \<open>\<^verbatim>\<open>str::split\<close> at a character, and \<^verbatim>\<open>split_once\<close>.\<close>

fun split_at_char :: "char \<Rightarrow> string \<Rightarrow> string list" where
  "split_at_char c [] = [[]]"
| "split_at_char c (x # xs) =
     (if x = c then [] # split_at_char c xs
      else case split_at_char c xs of [] \<Rightarrow> [[x]] | p # ps \<Rightarrow> (x # p) # ps)"

definition split_once :: "char \<Rightarrow> string \<Rightarrow> (string \<times> string) option" where
  "split_once c x = (if c \<in> set x then Some (takeWhile (\<lambda>y. y \<noteq> c) x, tl (dropWhile (\<lambda>y. y \<noteq> c) x)) else None)"

definition extract_repeated_param :: "string option \<Rightarrow> string \<Rightarrow> string list" where
  "extract_repeated_param raw key =
     (case raw of None \<Rightarrow> []
      | Some r \<Rightarrow> List.map_filter (\<lambda>pair. case split_once (CHR ''='') pair of None \<Rightarrow> None
          | Some (k, v) \<Rightarrow> if k = key then Some (percent_decode v) else None) (split_at_char (CHR ''&'') r))"

record farms_query =
  fq_country :: "string option"
  fq_region :: "string option"
  fq_language :: "string option"

record farm_entry =
  fe_url :: string
  fe_pubkey :: string
  fe_name :: string
  fe_description :: "string option"
  fe_hub_count :: int
  fe_capacity :: "int option"
  fe_country :: "string option"
  fe_region :: "string option"
  fe_languages :: "string list"
  fe_tags :: "string list"
  fe_geo_unverified :: bool
  fe_verified :: int
  fe_stale :: "bool option"

definition newest_verified :: "farm_listing list \<Rightarrow> farm_listing list" where
  "newest_verified rs = sort_key (\<lambda>r. - rf_verified r) rs"

text \<open>The eight queries, by which of the three filters are given.\<close>

fun select_farms :: "string option \<Rightarrow> string option \<Rightarrow> string option \<Rightarrow> farm_listing list \<Rightarrow> farm_listing list" where
  "select_farms (Some c) (Some l) (Some g) rs =
     newest_verified (filter (\<lambda>r. rf_country r = Some c \<and> rf_region r = Some g \<and> l \<in> set (rf_languages r)) rs)"
| "select_farms (Some c) (Some l) None rs =
     newest_verified (filter (\<lambda>r. rf_country r = Some c \<and> l \<in> set (rf_languages r)) rs)"
| "select_farms (Some c) None (Some g) rs =
     newest_verified (filter (\<lambda>r. rf_country r = Some c \<and> rf_region r = Some g) rs)"
| "select_farms (Some c) None None rs = newest_verified (filter (\<lambda>r. rf_country r = Some c) rs)"
| "select_farms None (Some l) (Some g) rs =
     newest_verified (filter (\<lambda>r. rf_region r = Some g \<and> l \<in> set (rf_languages r)) rs)"
| "select_farms None (Some l) None rs = newest_verified (filter (\<lambda>r. l \<in> set (rf_languages r)) rs)"
| "select_farms None None (Some g) rs = newest_verified (filter (\<lambda>r. rf_region r = Some g) rs)"
| "select_farms None None None rs = newest_verified rs"

definition entry_of :: "int \<Rightarrow> farm_listing \<Rightarrow> farm_entry" where
  "entry_of now r =
     \<lparr>fe_url = rf_url r, fe_pubkey = rf_pubkey r, fe_name = rf_name r, fe_description = rf_description r,
      fe_hub_count = rf_hub_count r,
      fe_capacity = (if (case rf_max_hubs r of None \<Rightarrow> False | Some v \<Rightarrow> 0 < v) then rf_capacity r else None),
      fe_country = rf_country r, fe_region = rf_region r, fe_languages = rf_languages r, fe_tags = rf_tags r,
      fe_geo_unverified = (rf_geo_unverified r \<noteq> 0), fe_verified = rf_verified r,
      fe_stale = (if rf_verified r < now - 86400 then Some True else None)\<rparr>"

definition list_farms :: "int \<Rightarrow> string option \<Rightarrow> farms_query \<Rightarrow> (farm_entry list \<times> int) seed_handler" where
  "list_farms now raw q =
     (let required_tags = extract_repeated_param raw ''tag'' in
      and_then (gets (\<lambda>s. select_farms (fq_country q) (fq_language q) (fq_region q) (registered_farms s))) (\<lambda>rows.
      ret (List.map_filter (\<lambda>r. if list_all (\<lambda>t. t \<in> set (rf_tags r)) required_tags then Some (entry_of now r) else None) rows,
        now)))"

subsection \<open>Revalidation\<close>

definition confirms :: "probe \<Rightarrow> bool" where
  "confirms p = (case p of Unreachable \<Rightarrow> False
     | Answer success body \<Rightarrow> success \<and>
         (case body of None \<Rightarrow> False
          | Some info \<Rightarrow> (case field ''allow_discovery_listing'' info of None \<Rightarrow> False | Some v \<Rightarrow> as_bool v = Some True)))"

definition json_i64 :: "string \<Rightarrow> json \<Rightarrow> int option" where
  "json_i64 k info = (case field k info of None \<Rightarrow> None | Some v \<Rightarrow> as_i64 v)"

definition fresh_counts :: "int \<Rightarrow> json \<Rightarrow> farm_listing \<Rightarrow> farm_listing" where
  "fresh_counts now info r =
     (let hub_count = (case json_i64 ''hub_count'' info of None \<Rightarrow> 0 | Some n \<Rightarrow> n);
          max_hubs = (case json_i64 ''max_hubs_total'' info of None \<Rightarrow> None | Some v \<Rightarrow> if 0 < v then Some v else None) in
      r\<lparr>rf_hub_count := hub_count, rf_max_hubs := max_hubs,
        rf_capacity := (case max_hubs of None \<Rightarrow> None | Some cap \<Rightarrow> Some (if cap \<le> 0 then 0 else percent_of hub_count cap)),
        rf_verified := now\<rparr>)"

text \<open>
  One farm of a sweep. Its two requests may be answered differently: \<open>net\<close> and \<open>net2\<close>. The second
  answer is used whatever its status.
\<close>

definition revalidate :: "(string \<Rightarrow> probe) \<Rightarrow> (string \<Rightarrow> probe) \<Rightarrow> int \<Rightarrow> string \<Rightarrow> seed \<Rightarrow> seed" where
  "revalidate net net2 now url s =
     (if \<not> confirms (net (public_info_url url)) then s\<lparr>registered_farms := delete_key rf_url url (registered_farms s)\<rparr>
      else case net2 (public_info_url url) of
          Answer _ (Some info) \<Rightarrow>
            s\<lparr>registered_farms := update_where (\<lambda>r. rf_url r = url) (fresh_counts now info) (registered_farms s)\<rparr>
        | _ \<Rightarrow> s)"

definition seed_tick :: "(string \<Rightarrow> probe) \<Rightarrow> (string \<Rightarrow> probe) \<Rightarrow> int \<Rightarrow> (nat \<times> nat) seed_handler" where
  "seed_tick net net2 now =
     and_then (gets (\<lambda>s. sort (map rf_url (registered_farms s)))) (\<lambda>urls.
     and_then (modify (\<lambda>s. fold (revalidate net net2 now) urls s)) (\<lambda>_.
     ret (length urls, length (filter (\<lambda>u. \<not> confirms (net (public_info_url u))) urls))))"

subsection \<open>Runs of the service\<close>

datatype seed_op =
    Register "string \<Rightarrow> probe" int register_request
  | Deregister crypto "u8 list \<Rightarrow> u8 list \<Rightarrow> u8 list \<Rightarrow> bool" deregister_request
  | Sweep "string \<Rightarrow> probe" "string \<Rightarrow> probe" int

fun seed_step :: "seed \<Rightarrow> seed_op \<Rightarrow> seed" where
  "seed_step s (Register net now req) = snd (register net now req s)"
| "seed_step s (Deregister K strict req) = snd (deregister K strict req s)"
| "seed_step s (Sweep net net2 now) = snd (seed_tick net net2 now s)"

definition empty_directory :: seed where
  "empty_directory = \<lparr>registered_farms = []\<rparr>"

definition listed_key :: "string \<Rightarrow> seed \<Rightarrow> string option" where
  "listed_key url s = map_option rf_pubkey (row_at rf_url url (registered_farms s))"

text \<open>The farm at an address names its key and consents to be listed.\<close>

definition farm_confirms :: "(string \<Rightarrow> probe) \<Rightarrow> string \<Rightarrow> string \<Rightarrow> bool" where
  "farm_confirms net url pk \<longleftrightarrow> (\<exists>info. fetch_public_info net url = Inr info \<and> fpi_public_key info = Some pk \<and>
     fpi_allow_discovery_listing info = Some True)"

lemma fetch_consents: "fetch_public_info net url = Inr info \<Longrightarrow> fpi_allow_discovery_listing info = Some True"
  by (auto simp: fetch_public_info_def split: probe.splits option.splits if_splits)

lemma listing_of_key [simp]: "rf_url (listing_of req info now) = reg_url req" "rf_pubkey (listing_of req info now) = reg_pubkey req"
  by (simp_all add: listing_of_def Let_def)

subsection \<open>What each request does to the listing of an address\<close>

lemma upsert_listing_row:
  assumes "upsert_listing r s = (Inr (), t)"
  shows "row_at rf_url u (registered_farms t) = (if u = rf_url r
    then Some (case row_at rf_url u (registered_farms s) of None \<Rightarrow> r | Some q \<Rightarrow> r\<lparr>rf_registered := rf_registered q\<rparr>)
    else row_at rf_url u (registered_farms s))"
    and "keyed rf_url (registered_farms s) \<Longrightarrow> keyed rf_url (registered_farms t)"
proof -
  obtain v where v: "upsert (same_key rf_url) True r (\<lambda>q. r\<lparr>rf_registered := rf_registered q\<rparr>) (registered_farms s) = Inr v"
    "t = s\<lparr>registered_farms := v\<rparr>"
    using assms by (auto simp: upsert_listing_def ok_iffs)
  from row_at_upsert [OF _ v(1), of u] v(2) show "row_at rf_url u (registered_farms t) = (if u = rf_url r
    then Some (case row_at rf_url u (registered_farms s) of None \<Rightarrow> r | Some q \<Rightarrow> r\<lparr>rf_registered := rf_registered q\<rparr>)
    else row_at rf_url u (registered_farms s))" by simp
  assume "keyed rf_url (registered_farms s)"
  with v show "keyed rf_url (registered_farms t)"
    by (auto simp: upsert_ok keyed_snoc exists_row_iff same_key_def split: if_splits
        intro!: keyed_map_same [THEN iffD2])
qed

lemma register_wp:
  "wp (register net now req)
     (\<lambda>_ t. \<exists>info. fetch_public_info net (reg_url req) = Inr info \<and> fpi_public_key info = Some (reg_pubkey req) \<and>
        upsert_listing (listing_of req info now) s = (Inr (), t)) (\<lambda>_ t. t = s) s"
  unfolding register_def
  by (auto simp: wps upsert_listing_def ok_iffs split: option.splits sum.splits)

lemma register_row:
  "snd (register net now req s) = s \<or>
   farm_confirms net (reg_url req) (reg_pubkey req) \<and> listed_key (reg_url req) (snd (register net now req s)) = Some (reg_pubkey req) \<and>
   (\<forall>u. u \<noteq> reg_url req \<longrightarrow> listed_key u (snd (register net now req s)) = listed_key u s) \<and>
   (keyed rf_url (registered_farms s) \<longrightarrow> keyed rf_url (registered_farms (snd (register net now req s))))"
proof -
  have "wp (register net now req) (\<lambda>_ t. t = s \<or> farm_confirms net (reg_url req) (reg_pubkey req) \<and>
      listed_key (reg_url req) t = Some (reg_pubkey req) \<and> (\<forall>u. u \<noteq> reg_url req \<longrightarrow> listed_key u t = listed_key u s) \<and>
      (keyed rf_url (registered_farms s) \<longrightarrow> keyed rf_url (registered_farms t)))
    (\<lambda>_ t. t = s \<or> farm_confirms net (reg_url req) (reg_pubkey req) \<and>
      listed_key (reg_url req) t = Some (reg_pubkey req) \<and> (\<forall>u. u \<noteq> reg_url req \<longrightarrow> listed_key u t = listed_key u s) \<and>
      (keyed rf_url (registered_farms s) \<longrightarrow> keyed rf_url (registered_farms t))) s"
    by (rule wp_mono [OF register_wp])
      (auto simp: farm_confirms_def fetch_consents listed_key_def upsert_listing_row(1) upsert_listing_row(2) split: option.splits)
  then show ?thesis by (simp add: wp_always)
qed

definition signed_removal :: "crypto \<Rightarrow> (u8 list \<Rightarrow> u8 list \<Rightarrow> u8 list \<Rightarrow> bool) \<Rightarrow> deregister_request \<Rightarrow> bool" where
  "signed_removal K strict req \<longleftrightarrow> (\<exists>pub nonce sig. hex_decode K (der_pubkey req) = Inr pub \<and> hex_decode K (der_nonce req) = Inr nonce \<and>
     hex_decode K (der_signature req) = Inr sig \<and> strict pub (pub @ nonce) sig)"

lemma deregister_row:
  "snd (deregister K strict req s) = s \<or>
   signed_removal K strict req \<and> listed_key (der_url req) s = Some (der_pubkey req) \<and>
   snd (deregister K strict req s) = s\<lparr>registered_farms := delete_key rf_url (der_url req) (registered_farms s)\<rparr>"
proof -
  have "wp (deregister K strict req)
     (\<lambda>_ t. signed_removal K strict req \<and> listed_key (der_url req) s = Some (der_pubkey req) \<and>
        t = s\<lparr>registered_farms := delete_key rf_url (der_url req) (registered_farms s)\<rparr>) (\<lambda>_ t. t = s) s"
    unfolding deregister_def hex_field_def
    by (auto simp: wps seed_verify_def delete_listing_def listed_key_def signed_removal_def split: option.splits sum.splits if_splits)
  then show ?thesis by (auto simp: wp_def split: prod.splits sum.splits)
qed

definition swept :: "(string \<Rightarrow> probe) \<Rightarrow> (string \<Rightarrow> probe) \<Rightarrow> int \<Rightarrow> farm_listing \<Rightarrow> farm_listing option" where
  "swept net net2 now r =
     (if confirms (net (public_info_url (rf_url r)))
      then Some (case net2 (public_info_url (rf_url r)) of Answer _ (Some info) \<Rightarrow> fresh_counts now info r | _ \<Rightarrow> r)
      else None)"

lemma fresh_counts_keeps [simp]: "rf_url (fresh_counts now info r) = rf_url r" "rf_pubkey (fresh_counts now info r) = rf_pubkey r"
  by (simp_all add: fresh_counts_def Let_def)

lemma revalidate_row:
  "row_at rf_url u (registered_farms (revalidate net net2 now url s)) =
     (if u = url then Option.bind (row_at rf_url u (registered_farms s)) (swept net net2 now)
      else row_at rf_url u (registered_farms s))"
proof (cases "row_at rf_url u (registered_farms s)")
  case None
  then show ?thesis
    by (auto simp: revalidate_def tbl.lookup_remove row_at_update_where split: probe.splits option.splits)
next
  case (Some r)
  then have "rf_url r = u" using row_at_key by fastforce
  with Some show ?thesis
    by (auto simp: revalidate_def tbl.lookup_remove row_at_update_where swept_def split: probe.splits option.splits)
qed

lemma revalidate_keyed: "keyed rf_url (registered_farms s) \<Longrightarrow> keyed rf_url (registered_farms (revalidate net net2 now url s))"
  by (auto simp: revalidate_def delete_key_def keyed_delete_where keyed_update_where split: probe.splits option.splits)

lemma revalidate_all_row:
  "distinct urls \<Longrightarrow> row_at rf_url u (registered_farms (fold (revalidate net net2 now) urls s)) =
     (if u \<in> set urls then Option.bind (row_at rf_url u (registered_farms s)) (swept net net2 now)
      else row_at rf_url u (registered_farms s))"
  by (induction urls arbitrary: s) (auto simp: revalidate_row)

lemma revalidate_all_keyed:
  "keyed rf_url (registered_farms s) \<Longrightarrow> keyed rf_url (registered_farms (fold (revalidate net net2 now) urls s))"
  by (induction urls arbitrary: s) (auto simp: revalidate_keyed)

lemma sweep_row:
  assumes "keyed rf_url (registered_farms s)"
  shows "row_at rf_url u (registered_farms (snd (seed_tick net net2 now s))) =
    Option.bind (row_at rf_url u (registered_farms s)) (swept net net2 now)"
proof -
  have "distinct (sort (map rf_url (registered_farms s)))" using assms by (simp add: keyed_def)
  then show ?thesis
    by (cases "row_at rf_url u (registered_farms s)")
      (auto simp: seed_tick_def run_simps revalidate_all_row dest: row_at_key)
qed

subsection \<open>Consent\<close>

definition registers :: "seed \<Rightarrow> seed_op \<Rightarrow> string \<times> string \<Rightarrow> bool" where
  "registers s op k \<longleftrightarrow> (\<exists>net now req. op = Register net now req \<and> k = (reg_url req, reg_pubkey req) \<and>
     farm_confirms net (reg_url req) (reg_pubkey req))"

lemma seed_keyed: "keyed rf_url (registered_farms s) \<Longrightarrow> keyed rf_url (registered_farms (seed_step s op))"
proof (cases op)
  case (Register net now req)
  moreover assume "keyed rf_url (registered_farms s)"
  ultimately show ?thesis using register_row [of net now req s] by auto
next
  case (Deregister K strict req)
  moreover assume "keyed rf_url (registered_farms s)"
  ultimately show ?thesis using deregister_row [of K strict req s] by (auto simp: tbl.wf_remove)
next
  case (Sweep net net2 now)
  moreover assume "keyed rf_url (registered_farms s)"
  ultimately show ?thesis by (simp add: seed_tick_def run_simps revalidate_all_keyed)
qed

lemma swept_key: "Option.bind x (swept net net2 now) = Some r \<Longrightarrow> \<exists>q. x = Some q \<and> rf_pubkey r = rf_pubkey q"
  by (cases x) (auto simp: swept_def split: if_splits probe.splits option.splits)

interpretation listing: traced "\<lambda>s. keyed rf_url (registered_farms s)" seed_step "\<lambda>k s. listed_key (fst k) s = Some (snd k)" registers
proof unfold_locales
  fix s op and k :: "string \<times> string"
  show "keyed rf_url (registered_farms s) \<Longrightarrow> keyed rf_url (registered_farms (seed_step s op))" by (rule seed_keyed)
  assume ok: "keyed rf_url (registered_farms s)" and now: "listed_key (fst k) (seed_step s op) = Some (snd k)"
  show "listed_key (fst k) s = Some (snd k) \<or> registers s op k"
  proof (cases op)
    case (Register net now' req)
    with register_row [of net now' req s] now show ?thesis
      by (cases "fst k = reg_url req") (auto simp: registers_def prod_eq_iff)
  next
    case (Deregister K strict req)
    with deregister_row [of K strict req s] now show ?thesis
      by (auto simp: listed_key_def tbl.lookup_remove split: if_splits)
  next
    case (Sweep net net2 n)
    with now sweep_row [OF ok, of "fst k" net net2 n] swept_key [of _ net net2 n] show ?thesis
      by (fastforce simp: listed_key_def)
  qed
qed

lemma removal_causes:
  assumes "keyed rf_url (registered_farms s)" "listed_key url s = Some pk" "listed_key url (seed_step s op) = None"
  shows "(\<exists>K strict req. op = Deregister K strict req \<and> der_url req = url \<and> der_pubkey req = pk \<and> signed_removal K strict req) \<or>
    (\<exists>net net2 now. op = Sweep net net2 now \<and> \<not> confirms (net (public_info_url url)))"
proof (cases op)
  case (Register net now req)
  with register_row [of net now req s] assms(2,3) show ?thesis by (cases "url = reg_url req") auto
next
  case (Deregister K strict req)
  with deregister_row [of K strict req s] assms(2,3) show ?thesis
    by (auto simp: listed_key_def tbl.lookup_remove split: if_splits)
next
  case (Sweep net net2 now)
  from assms(2) obtain r where r: "row_at rf_url url (registered_farms s) = Some r" by (auto simp: listed_key_def)
  with Sweep assms(3) sweep_row [OF assms(1), of url net net2 now] have "swept net net2 now r = None"
    by (simp add: listed_key_def)
  moreover from r have "rf_url r = url" using row_at_key by fastforce
  ultimately show ?thesis using Sweep by (auto simp: swept_def split: if_splits)
qed

text \<open>
  C33. The directory lists farms by consent: whatever requests and sweeps have run, a listing's address
  answered, when it was registered, with exactly the listed key and with permission to be listed;
  and a listing only disappears on a removal request signed with its key, or in a sweep in which
  the farm was unreachable or withdrew its permission.
\<close>

theorem directory_is_consensual:
  "(listed_key url (run seed_step empty_directory ops) = Some pk \<longrightarrow>
     (\<exists>pre net now req post. ops = pre @ Register net now req # post \<and> reg_url req = url \<and> reg_pubkey req = pk \<and>
        farm_confirms net url pk)) \<and>
   (listed_key url (run seed_step empty_directory ops) = Some pk \<and>
    listed_key url (run seed_step empty_directory (ops @ [op])) = None \<longrightarrow>
     (\<exists>K strict req. op = Deregister K strict req \<and> der_url req = url \<and> der_pubkey req = pk \<and> signed_removal K strict req) \<or>
     (\<exists>net net2 now. op = Sweep net net2 now \<and> \<not> confirms (net (public_info_url url))))"
proof (intro conjI impI)
  assume "listed_key url (run seed_step empty_directory ops) = Some pk"
  with listing.granted_in_run [of empty_directory "(url, pk)" ops]
  show "\<exists>pre net now req post. ops = pre @ Register net now req # post \<and> reg_url req = url \<and> reg_pubkey req = pk \<and>
        farm_confirms net url pk"
    by (fastforce simp: registers_def empty_directory_def listed_key_def row_at_def)
next
  have "keyed rf_url (registered_farms (run seed_step empty_directory ops))"
    by (rule run_invariant) (use seed_keyed in \<open>auto simp: empty_directory_def\<close>)
  moreover assume "listed_key url (run seed_step empty_directory ops) = Some pk \<and>
    listed_key url (run seed_step empty_directory (ops @ [op])) = None"
  ultimately show "(\<exists>K strict req. op = Deregister K strict req \<and> der_url req = url \<and> der_pubkey req = pk \<and> signed_removal K strict req) \<or>
     (\<exists>net net2 now. op = Sweep net net2 now \<and> \<not> confirms (net (public_info_url url)))"
    by (intro removal_causes) (auto simp: run_append)
qed

text \<open>A directory for the examples: one farm, registered by a request without any signature.\<close>

definition demo_farm_key :: string where
  "demo_farm_key = replicate 64 (CHR ''a'')"

definition demo_info :: json where
  "demo_info = JObj [(''public_key'', JStr demo_farm_key), (''allow_discovery_listing'', JBool True), (''hub_count'', JNum 3),
     (''max_hubs_total'', JNum 4)]"

definition demo_net :: "string \<Rightarrow> probe" where
  "demo_net url = (if url = ''http://f/farm/public-info'' then Answer True (Some demo_info) else Unreachable)"

definition demo_register :: register_request where
  "demo_register = \<lparr>reg_url = ''http://f/'', reg_pubkey = demo_farm_key, reg_name = ''Farm'', reg_description = None,
     reg_country = Some ''PT'', reg_region = None, reg_languages = None, reg_tags = Some [''gaming''], reg_signed_nonce = None\<rparr>"

lemma demo_registration:
  "register demo_net 100 demo_register empty_directory =
     (Inr (True, 100), \<lparr>registered_farms = [listing_of demo_register
        \<lparr>fpi_kind = None, fpi_public_key = Some demo_farm_key, fpi_allow_discovery_listing = Some True, fpi_hub_count = Some 3,
         fpi_max_hubs_total = Some 4\<rparr> 100]\<rparr>)"
proof -
  have "printable ''Farm''" by (simp add: printable_def)
  then have "trim ''Farm'' \<noteq> []" by (simp add: trim_printable)
  moreover have "fetch_public_info demo_net ''http://f/'' = Inr
        \<lparr>fpi_kind = None, fpi_public_key = Some demo_farm_key, fpi_allow_discovery_listing = Some True, fpi_hub_count = Some 3,
         fpi_max_hubs_total = Some 4\<rparr>"
    by (simp add: fetch_public_info_def public_info_url_def trim_end_slash_def demo_net_def demo_info_def decode_info_def
        decode_opt_def i64_range_def)
  ultimately show ?thesis
    by (simp add: register_def demo_register_def run_simps demo_farm_key_def upsert_listing_def writing_def upsert_def
        empty_directory_def)
qed

theorem directory_is_consensual_witness:
  "listed_key ''http://f/'' (run seed_step empty_directory [Register demo_net 100 demo_register]) = Some demo_farm_key \<and>
   farm_confirms demo_net ''http://f/'' demo_farm_key \<and>
   listed_key ''http://f/'' (run seed_step empty_directory ([Register demo_net 100 demo_register] @ [Sweep (\<lambda>_. Unreachable) demo_net 200])) = None"
proof -
  let ?ops = "[Register demo_net 100 demo_register]"
  have listed: "listed_key ''http://f/'' (run seed_step empty_directory ?ops) = Some demo_farm_key"
    by (simp add: demo_registration listed_key_def row_at_def) (simp add: demo_register_def)
  have swept: "listed_key ''http://f/'' (run seed_step empty_directory (?ops @ [Sweep (\<lambda>_. Unreachable) demo_net 200])) = None"
    by (simp add: demo_registration seed_tick_def run_simps revalidate_def confirms_def listed_key_def delete_key_def delete_where_def
        row_at_def)
  from directory_is_consensual [of "''http://f/''" ?ops demo_farm_key "Sweep (\<lambda>_. Unreachable) demo_net 200"] listed
  have "farm_confirms demo_net ''http://f/'' demo_farm_key" by (auto simp: Cons_eq_append_conv)
  with listed swept show ?thesis by blast
qed

text \<open>
  Registration asks for no signature at all: the optional \<^verbatim>\<open>signed_nonce\<close> is never looked at, so that
  anyone can rewrite the name, description, country, languages and tags of a listed farm.
\<close>

lemma registration_needs_no_signature:
  "register net now (req\<lparr>reg_signed_nonce := x\<rparr>) = register net now req"
  by (simp add: register_def listing_of_def cong: option.case_cong)

lemma stranger_renames_listing:
  assumes "listed_key (reg_url req) s = Some (reg_pubkey req)" "farm_confirms net (reg_url req) (reg_pubkey req)"
    and "reg_url req \<noteq> []" "length (reg_pubkey req) = 64" "trim (reg_name req) \<noteq> []"
  shows "map_option rf_name (row_at rf_url (reg_url req) (registered_farms (snd (register net now req s)))) = Some (trim (reg_name req))"
proof -
  from assms(2) obtain info where info: "fetch_public_info net (reg_url req) = Inr info" "fpi_public_key info = Some (reg_pubkey req)"
    by (auto simp: farm_confirms_def)
  obtain q where q: "row_at rf_url (reg_url req) (registered_farms s) = Some q" using assms(1) by (auto simp: listed_key_def)
  have ex: "exists_row (same_key rf_url (listing_of req info now)) (registered_farms s)"
    using row_at_key [OF q] by (auto simp: exists_row_iff same_key_def)
  define t where "t = snd (upsert_listing (listing_of req info now) s)"
  have up: "upsert_listing (listing_of req info now) s = (Inr (), t)"
    using ex by (simp add: t_def upsert_listing_def writing_def exec_def upsert_def)
  have "snd (register net now req s) = t"
    using assms(3-5) info up by (simp add: register_def run_simps)
  with upsert_listing_row(1) [OF up, of "reg_url req"] show ?thesis
    by (simp add: q) (simp add: listing_of_def Let_def)
qed

text \<open>
  A removal request names no time and its signature does not cover the address: sent again after the
  farm has registered anew, or with another address of the same farm, it is granted again.
\<close>

lemma removal_can_be_replayed:
  assumes "deregister K strict req s = (Inr True, t)" "listed_key url u = Some (der_pubkey req)"
  shows "fst (deregister K strict (req\<lparr>der_url := url\<rparr>) u) = Inr True"
proof -
  from assms(1) obtain pub nonce where "length (der_pubkey req) = 64" "hex_decode K (der_pubkey req) = Inr pub"
    "hex_decode K (der_nonce req) = Inr nonce" "seed_verify K strict (der_pubkey req) (pub @ nonce) (der_signature req) = Inr ()"
    by (auto simp: deregister_def hex_field_def ok_iffs split: option.splits sum.splits)
  with assms(2) show ?thesis by (auto simp: deregister_def hex_field_def run_simps delete_listing_def listed_key_def)
qed

subsection \<open>Sweeps\<close>

lemma sweep_counts:
  "keyed rf_url (registered_farms s) \<Longrightarrow>
   length (registered_farms (snd (seed_tick net net2 now s))) + length (filter (\<lambda>r. \<not> confirms (net (public_info_url (rf_url r)))) (registered_farms s)) =
   length (registered_farms s)"
proof -
  assume keyed: "keyed rf_url (registered_farms s)"
  let ?t = "snd (seed_tick net net2 now s)"
  have keyed': "keyed rf_url (registered_farms ?t)" using seed_keyed [of s "Sweep net net2 now"] keyed by simp
  have urls: "rf_url ` set (registered_farms ?t) = rf_url ` {r \<in> set (registered_farms s). confirms (net (public_info_url (rf_url r)))}"
  proof (intro set_eqI iffI)
    fix u assume "u \<in> rf_url ` set (registered_farms ?t)"
    then obtain r where "row_at rf_url u (registered_farms ?t) = Some r" using row_at_keyed [OF keyed'] by blast
    with sweep_row [OF keyed, of u net net2 now] show "u \<in> rf_url ` {r \<in> set (registered_farms s). confirms (net (public_info_url (rf_url r)))}"
      by (cases "row_at rf_url u (registered_farms s)") (auto simp: swept_def split: if_splits dest!: row_at_key)
  next
    fix u assume "u \<in> rf_url ` {r \<in> set (registered_farms s). confirms (net (public_info_url (rf_url r)))}"
    then obtain r where r: "r \<in> set (registered_farms s)" "confirms (net (public_info_url (rf_url r)))" "u = rf_url r" by blast
    with row_at_keyed [OF keyed r(1)] sweep_row [OF keyed, of u net net2 now] obtain q where "row_at rf_url u (registered_farms ?t) = Some q"
      by (auto simp: swept_def)
    then show "u \<in> rf_url ` set (registered_farms ?t)" using row_at_key by fastforce
  qed
  have len: "length xs = card (rf_url ` set xs)" if "keyed rf_url xs" for xs :: "farm_listing list"
    using that distinct_card [of "map rf_url xs"] by (simp add: keyed_def)
  have "length (registered_farms ?t) = length (filter (\<lambda>r. confirms (net (public_info_url (rf_url r)))) (registered_farms s))"
    using len [OF keyed'] len [OF keyed_filter [OF keyed, of "\<lambda>r. confirms (net (public_info_url (rf_url r)))"]] urls by simp
  then show ?thesis using sum_length_filter_compl [of "\<lambda>r. confirms (net (public_info_url (rf_url r)))" "registered_farms s"] by simp
qed

text \<open>
  A sweep leaves exactly the farms whose first answer still permits the listing, each under the same
  address and key, with the numbers of the second answer when it has a body; it reports how many
  farms it asked and how many it removed.
\<close>

theorem sweep_keeps_exactly_confirming:
  assumes "keyed rf_url (registered_farms s)"
  shows "row_at rf_url u (registered_farms (snd (seed_tick net net2 now s))) =
      Option.bind (row_at rf_url u (registered_farms s)) (swept net net2 now)"
    and "\<exists>removed. fst (seed_tick net net2 now s) = Inr (length (registered_farms s), removed) \<and>
      length (registered_farms (snd (seed_tick net net2 now s))) + removed = length (registered_farms s)"
proof -
  show "row_at rf_url u (registered_farms (snd (seed_tick net net2 now s))) =
      Option.bind (row_at rf_url u (registered_farms s)) (swept net net2 now)" by (rule sweep_row [OF assms])
  have "length (filter (\<lambda>u. \<not> confirms (net (public_info_url u))) (sort (map rf_url (registered_farms s)))) =
      length (filter (\<lambda>r. \<not> confirms (net (public_info_url (rf_url r)))) (registered_farms s))"
    by (simp add: filter_sort filter_map comp_def)
  with sweep_counts [OF assms, of net net2 now] show "\<exists>removed. fst (seed_tick net net2 now s) = Inr (length (registered_farms s), removed) \<and>
      length (registered_farms (snd (seed_tick net net2 now s))) + removed = length (registered_farms s)"
    by (auto simp: seed_tick_def run_simps)
qed

text \<open>The sweep does not compare keys: a farm that changed its key stays listed under the old one.\<close>

lemma sweep_ignores_key:
  assumes "keyed rf_url (registered_farms s)" "listed_key url s = Some pk" "confirms (net (public_info_url url))"
  shows "listed_key url (snd (seed_tick net net2 now s)) = Some pk"
proof -
  from assms(2) obtain r where r: "row_at rf_url url (registered_farms s) = Some r" "rf_pubkey r = pk" by (auto simp: listed_key_def)
  then have "rf_url r = url" using row_at_key by fastforce
  with r assms(3) sweep_row [OF assms(1), of url net net2 now] show ?thesis
    by (auto simp: listed_key_def swept_def split: probe.splits option.splits)
qed

subsection \<open>The catalogue is one filter\<close>

definition matches :: "'a option \<Rightarrow> ('a \<Rightarrow> bool) \<Rightarrow> bool" where
  "matches x P = (case x of None \<Rightarrow> True | Some v \<Rightarrow> P v)"

definition wanted :: "farms_query \<Rightarrow> string list \<Rightarrow> farm_listing \<Rightarrow> bool" where
  "wanted q tags r \<longleftrightarrow> matches (fq_country q) (\<lambda>c. rf_country r = Some c) \<and> matches (fq_region q) (\<lambda>g. rf_region r = Some g) \<and>
     matches (fq_language q) (\<lambda>l. l \<in> set (rf_languages r)) \<and> set tags \<subseteq> set (rf_tags r)"

lemma select_farms_filter:
  "select_farms c l g rs = newest_verified (filter (\<lambda>r. matches c (\<lambda>x. rf_country r = Some x) \<and>
     matches g (\<lambda>x. rf_region r = Some x) \<and> matches l (\<lambda>x. x \<in> set (rf_languages r))) rs)"
  by (cases "(c, l, g, rs)" rule: select_farms.cases) (simp_all add: matches_def)

lemma map_filter_if: "List.map_filter (\<lambda>r. if P r then Some (f r) else None) rs = map f (filter P rs)"
  by (induction rs) (auto simp: List.map_filter_def)

text \<open>
  The catalogue lists, most recently verified first, exactly the farms that match every given filter
  and carry every required tag; an entry is marked stale when it was last verified more than a day
  ago, and shows a load only when the farm has a limit.
\<close>

theorem catalogue_is_filter:
  "list_farms now raw q s = (Inr (map (entry_of now) (newest_verified
     (filter (wanted q (extract_repeated_param raw ''tag'')) (registered_farms s))), now), s)"
proof -
  have "filter (\<lambda>r. list_all (\<lambda>t. t \<in> set (rf_tags r)) tags) (select_farms (fq_country q) (fq_language q) (fq_region q) rs) =
      newest_verified (filter (wanted q tags) rs)" for tags rs
    unfolding select_farms_filter newest_verified_def filter_sort filter_filter
    by (rule arg_cong [where f = "sort_key _"], rule filter_cong) (auto simp: wanted_def list_all_iff)
  then show ?thesis by (simp add: list_farms_def run_simps Let_def map_filter_if)
qed

subsection \<open>The load shown\<close>

lemma percent_of_exact:
  assumes "0 \<le> n" "n * 100 < 2 ^ 63" "0 < cap"
  shows "percent_of n cap = min (n * 100 div cap) 100" "0 \<le> percent_of n cap" "percent_of n cap \<le> 100"
proof -
  have "i64_range (n * 100)" using assms by (simp add: i64_range_def)
  then have w: "wrap_i64 (n * 100) = n * 100" by (rule wrap_i64_id)
  have "(n * 100) sdiv cap = n * 100 div cap" using assms(1,3) by (simp add: signed_divide_int_def sgn_if)
  with w show "percent_of n cap = min (n * 100 div cap) 100" by (simp add: percent_of_def)
  then show "0 \<le> percent_of n cap" "percent_of n cap \<le> 100" using assms by (simp_all add: pos_imp_zdiv_nonneg_iff)
qed

text \<open>
  Only the upper end is enforced: a farm that reports a negative number of hubs, or one large enough
  to wrap around, is listed with a negative load.
\<close>

lemma load_can_be_negative: "percent_of (- 5) 10 = - 50" "percent_of (2 ^ 62) 3 \<le> 0"
  by (simp_all add: percent_of_def wrap_i64_def signed_divide_int_def)

subsection \<open>Tag parameters\<close>

text \<open>A client's encoding of a tag: ASCII letters, digits and hyphens as they are, the rest as \<open>%XX\<close>.\<close>

definition hex_digit :: "nat \<Rightarrow> char" where
  "hex_digit d = (if d < 10 then char_of (48 + d) else char_of (55 + d))"

definition unreserved :: "char \<Rightarrow> bool" where
  "unreserved c = (let n = of_char c :: nat in 48 \<le> n \<and> n \<le> 57 \<or> 65 \<le> n \<and> n \<le> 90 \<or> 97 \<le> n \<and> n \<le> 122 \<or> n = 45)"

definition encode_char :: "char \<Rightarrow> string" where
  "encode_char c = (if unreserved c then [c] else [CHR ''%'', hex_digit (of_char c div 16), hex_digit (of_char c mod 16)])"

definition percent_encode :: "string \<Rightarrow> string" where
  "percent_encode x = concat (map encode_char x)"

definition ascii :: "string \<Rightarrow> bool" where
  "ascii x \<longleftrightarrow> list_all (\<lambda>c. (of_char c :: nat) < 128) x"

lemma to_digit16_hex_digit: "d < 16 \<Longrightarrow> to_digit16 (hex_digit d) = Some d"
  by (auto simp: to_digit16_def hex_digit_def Let_def take_bit_eq_mod)

lemma decode_encode_char:
  assumes "(of_char c :: nat) < 128"
  shows "percent_decode (encode_char c @ rest) = c # percent_decode rest"
proof (cases "unreserved c")
  case True
  then have "c \<noteq> CHR ''%''" "c \<noteq> CHR ''+''" by (auto simp: unreserved_def Let_def)
  with True assms show ?thesis by (simp add: encode_char_def push_char_def)
next
  case False
  have "(of_char c :: nat) div 16 < 16" "(of_char c :: nat) mod 16 < 16" using assms by simp_all
  with False assms show ?thesis by (simp add: encode_char_def to_digit16_hex_digit push_char_def)
qed

lemma percent_roundtrip: "ascii x \<Longrightarrow> percent_decode (percent_encode x) = x"
  by (induction x) (simp_all add: percent_encode_def ascii_def decode_encode_char)

lemma hex_digit_plain: "d < 16 \<Longrightarrow> hex_digit d \<noteq> CHR ''&''"
  by (auto simp: hex_digit_def char_of_eq_iff take_bit_eq_mod)

lemma encode_no_ampersand: "CHR ''&'' \<notin> set (percent_encode x)"
proof -
  have "CHR ''&'' \<notin> set (encode_char c)" for c
  proof (cases "unreserved c")
    case False
    have "(of_char c :: nat) div 16 < 16" using nat_of_char_less_256 [of c] by (intro less_mult_imp_div_less) simp
    then have "hex_digit (of_char c div 16) \<noteq> CHR ''&''" "hex_digit (of_char c mod 16) \<noteq> CHR ''&''"
      using hex_digit_plain [of "of_char c mod 16"] hex_digit_plain by simp_all
    with False show ?thesis by (auto simp: encode_char_def)
  qed (auto simp: encode_char_def unreserved_def Let_def)
  then show ?thesis by (auto simp: percent_encode_def)
qed

lemma split_at_char_none: "c \<notin> set x \<Longrightarrow> split_at_char c x = [x]"
  by (induction x) auto

lemma split_at_char_more: "c \<notin> set x \<Longrightarrow> split_at_char c (x @ c # y) = x # split_at_char c y"
  by (induction x) auto

fun tag_query :: "string list \<Rightarrow> string" where
  "tag_query [] = []"
| "tag_query [t] = ''tag='' @ percent_encode t"
| "tag_query (t # ts) = ''tag='' @ percent_encode t @ CHR ''&'' # tag_query ts"

lemma tag_parameter:
  "ascii t \<Longrightarrow> (case split_once (CHR ''='') (''tag='' @ percent_encode t) of None \<Rightarrow> None
     | Some (k, v) \<Rightarrow> if k = ''tag'' then Some (percent_decode v) else None) = Some t"
  by (simp add: split_once_def percent_roundtrip)

text \<open>
  A client that encodes a set of ASCII tags as repeated \<^verbatim>\<open>tag\<close> parameters asks for exactly these tags.
\<close>

theorem tag_filter_roundtrip:
  assumes "list_all ascii (t # ts)"
  shows "extract_repeated_param (Some (tag_query (t # ts))) ''tag'' = t # ts"
  using assms
proof (induction ts arbitrary: t)
  case Nil
  have "CHR ''&'' \<notin> set (''tag='' @ percent_encode t)" using encode_no_ampersand by simp
  with Nil show ?case using tag_parameter [of t] by (simp add: extract_repeated_param_def split_at_char_none List.map_filter_def)
next
  case (Cons u us)
  have "CHR ''&'' \<notin> set (''tag='' @ percent_encode t)" using encode_no_ampersand by simp
  from split_at_char_more [OF this, of "tag_query (u # us)"] Cons.IH [of u] Cons.prems tag_parameter [of t] show ?case
    by (simp add: extract_repeated_param_def List.map_filter_simps)
qed

text \<open>
  Beyond ASCII the decoder is wrong: it takes the bytes of a UTF-8 sequence for characters of their
  own, so that the encoding of a small e with acute comes out as two characters, and such a tag is
  never found.
\<close>

lemma non_ascii_tag_is_garbled:
  "percent_decode (percent_encode [char_of (195 :: nat), char_of (169 :: nat)]) =
     [char_of (195 :: nat), char_of (131 :: nat), char_of (194 :: nat), char_of (169 :: nat)]"
  by (simp add: percent_encode_def encode_char_def unreserved_def hex_digit_def to_digit16_def push_char_def Let_def take_bit_eq_mod)

end
