(* ===== verification/Bots.thy ===== *)
theory Bots
  imports Events Auth
begin

text \<open>
  Bots and webhooks, from \<^verbatim>\<open>hub/src/routes/bots.rs\<close>, \<^verbatim>\<open>hub/src/routes/webhooks.rs\<close> and
  \<^verbatim>\<open>hub/src/token_expiry.rs\<close>: bots hosted by the hub and their bearer tokens, external bots that are
  invited and accept with a signature, the registration of commands and subscriptions, inbound
  webhooks, the audit-log pages of an administrator, and the worker that warns bots whose session
  is about to expire. Identifiers and random bytes are arguments; \<^verbatim>\<open>to_lowercase\<close> is an argument
  \<open>lower\<close>.

  Main results: an approved bot was created by a member, is a webhook, or accepted an unexpired
  invitation of someone who may invite, with a signature over its token; reading the audit log page
  by page gives every entry once; a webhook post needs the secret of an active webhook, whose
  comparison is the equality of the hashes; a session is warned at most once.
\<close>

subsection \<open>Hosted bots\<close>

definition hash_token :: "crypto \<Rightarrow> string \<Rightarrow> string" where
  "hash_token K token = hex_encode K (sha256 K (as_bytes token))"

definition generate_token :: "crypto \<Rightarrow> u8 list \<Rightarrow> u8 list \<Rightarrow> string" where
  "generate_token K a b = hex_encode K a @ hex_encode K b"

definition authenticate_bot :: "crypto \<Rightarrow> string option \<Rightarrow> bot_row hub_handler" where
  "authenticate_bot K header =
     and_then (ok_or (case header of None \<Rightarrow> None | Some h \<Rightarrow> strip_prefix ''Bearer '' h)
       (Reject UNAUTHORIZED ''Missing bot token'')) (\<lambda>raw.
     and_then (gets (\<lambda>s. fetch_optional (\<lambda>b. bot_token_hash b = hash_token K raw) (bots (bot_hosting s)))) (\<lambda>found.
     ok_or found (Reject UNAUTHORIZED ''Invalid bot token'')))"

definition put_bots :: "(bot_row list \<Rightarrow> bot_row list) \<Rightarrow> hub \<Rightarrow> hub" where
  "put_bots f s = s\<lparr>bot_hosting := (bot_hosting s)\<lparr>bots := f (bots (bot_hosting s))\<rparr>\<rparr>"

definition put_slash_commands :: "(slash_command_row list \<Rightarrow> slash_command_row list) \<Rightarrow> hub \<Rightarrow> hub" where
  "put_slash_commands f s =
     s\<lparr>bot_hosting := (bot_hosting s)\<lparr>bot_slash_commands := f (bot_slash_commands (bot_hosting s))\<rparr>\<rparr>"

definition put_bot_events :: "(bot_event_row list \<Rightarrow> bot_event_row list) \<Rightarrow> hub \<Rightarrow> hub" where
  "put_bot_events f s = s\<lparr>bot_hosting := (bot_hosting s)\<lparr>bot_event_queue := f (bot_event_queue (bot_hosting s))\<rparr>\<rparr>"

definition insert_user :: "user_row \<Rightarrow> unit hub_handler" where
  "insert_user u = writing (\<lambda>s. insert_row (same_key user_key) True u (users s)) (\<lambda>t s. s\<lparr>users := t\<rparr>)"

definition insert_user_or_ignore :: "user_row \<Rightarrow> unit hub_handler" where
  "insert_user_or_ignore u = writing (\<lambda>s. insert_or_ignore (same_key user_key) True u (users s)) (\<lambda>t s. s\<lparr>users := t\<rparr>)"

definition insert_bot :: "bot_row \<Rightarrow> unit hub_handler" where
  "insert_bot r =
     writing (\<lambda>s. insert_row (same_key bot_key) True r (bots (bot_hosting s))) (\<lambda>t. put_bots (\<lambda>_. t))"

record bot_created_response =
  bcr_bot :: bot_row
  bcr_token :: string

text \<open>The key is \<^verbatim>\<open>bot_\<close> and the hexadecimal form \<open>u\<close> of a fresh UUID; \<open>a\<close> and \<open>b\<close> are the bytes of two more.\<close>

definition admin_create_bot :: "crypto \<Rightarrow> string \<Rightarrow> u8 list \<Rightarrow> u8 list \<Rightarrow> int \<Rightarrow> string \<Rightarrow> string \<Rightarrow> (status_code \<times> bot_created_response) hub_handler" where
  "admin_create_bot K u a b now user name =
     (let n = trim name; pk = ''bot_'' @ u; token = generate_token K a b;
          r = \<lparr>bot_key = pk, bot_display_name = n, bot_created_by = user, bot_token_hash = hash_token K token,
               bot_webhook_url = None, bot_created = now\<rparr> in
     and_then (check (n \<noteq> []) (Reject BAD_REQUEST ''display_name cannot be empty'')) (\<lambda>_.
     and_then (insert_user ((new_user pk now ''approved'' None)\<lparr>user_display_name := Some n, user_is_bot := 1\<rparr>)) (\<lambda>_.
     and_then (insert_bot r) (\<lambda>_.
     ret (CREATED, \<lparr>bcr_bot = r, bcr_token = token\<rparr>)))))"

definition admin_list_bots :: "bot_row list hub_handler" where
  "admin_list_bots = gets (\<lambda>s. sort_key bot_created (bots (bot_hosting s)))"

definition require_bot :: "string \<Rightarrow> bot_row hub_handler" where
  "require_bot pk =
     and_then (gets (\<lambda>s. row_at bot_key pk (bots (bot_hosting s)))) (\<lambda>found.
     ok_or found (Reject NOT_FOUND ''Bot not found''))"

definition admin_get_bot :: "string \<Rightarrow> (bot_row \<times> (string \<times> string) list) hub_handler" where
  "admin_get_bot pk =
     and_then (require_bot pk) (\<lambda>b.
     gets (\<lambda>s. (b, map (\<lambda>c. (sc_command c, sc_description c))
       (sort_key sc_command (filter (\<lambda>c. sc_bot c = pk) (bot_slash_commands (bot_hosting s)))))))"

definition require_bot_owner :: "string \<Rightarrow> bot_row \<Rightarrow> unit hub_handler" where
  "require_bot_owner user b =
     (if bot_created_by b \<noteq> user then
        and_then (gets (user_permissions user)) (\<lambda>perms. require_permission perms ADMIN)
      else ret ())"

text \<open>\<^verbatim>\<open>DELETE FROM bots\<close> cascades to the commands and the queue of the bot.\<close>

definition delete_bot_row :: "string \<Rightarrow> unit hub_handler" where
  "delete_bot_row pk = modify (\<lambda>s. s\<lparr>bot_hosting := \<lparr>
     bots = delete_where (\<lambda>b. bot_key b = pk) (bots (bot_hosting s)),
     bot_slash_commands = delete_where (\<lambda>c. sc_bot c = pk) (bot_slash_commands (bot_hosting s)),
     bot_event_queue = delete_where (\<lambda>e. be_bot e = pk) (bot_event_queue (bot_hosting s))\<rparr>\<rparr>)"

text \<open>The foreign keys to \<^verbatim>\<open>users\<close>; none of them cascades.\<close>

definition user_referenced :: "hub \<Rightarrow> string \<Rightarrow> bool" where
  "user_referenced s pk \<longleftrightarrow>
     exists_row (\<lambda>r. session_user r = pk) (sessions s) \<or> exists_row (\<lambda>r. channel_created_by r = pk) (channels s) \<or>
     exists_row (\<lambda>r. msg_sender r = pk) (messages s) \<or> exists_row (\<lambda>r. reaction_user r = pk) (message_reactions s) \<or>
     exists_row (\<lambda>r. ur_user r = pk) (user_roles s) \<or> exists_row (\<lambda>r. ban_target r = pk) (bans s) \<or>
     exists_row (\<lambda>r. mute_target r = pk) (mutes s) \<or>
     exists_row (\<lambda>r. hg_installed_by r = pk) (hub_games (game_state s)) \<or>
     exists_row (\<lambda>r. cb_target r = pk) (channel_bans s) \<or> exists_row (\<lambda>r. vm_target r = pk) (voice_mutes s) \<or>
     exists_row (\<lambda>r. cm_key r = pk) (conversation_members s) \<or> exists_row (\<lambda>r. friend_a r = pk) (friends s) \<or>
     exists_row (\<lambda>r. dh_key_pubkey r = pk) (dh_keys s) \<or>
     exists_row (\<lambda>r. icon_uploaded_by r = pk) (hub_icons (front_desk s))"

definition delete_user_row :: "string \<Rightarrow> unit hub_handler" where
  "delete_user_row pk =
     writing (\<lambda>s. if user_exists s pk \<and> user_referenced s pk then Inl (DbError FOREIGN_KEY)
         else Inr (delete_where (\<lambda>u. user_key u = pk) (users s)))
       (\<lambda>t s. s\<lparr>users := t\<rparr>)"

definition admin_delete_bot :: "string \<Rightarrow> string \<Rightarrow> status_code hub_handler" where
  "admin_delete_bot user pk =
     and_then (require_bot pk) (\<lambda>b.
     and_then (require_bot_owner user b) (\<lambda>_.
     and_then (delete_bot_row pk) (\<lambda>_.
     and_then (delete_user_row pk) (\<lambda>_.
     ret NO_CONTENT))))"

definition admin_set_webhook :: "string \<Rightarrow> string \<Rightarrow> string option \<Rightarrow> status_code hub_handler" where
  "admin_set_webhook user pk url =
     and_then (require_bot pk) (\<lambda>b.
     and_then (require_bot_owner user b) (\<lambda>_.
     and_then (modify (put_bots (update_where (\<lambda>r. bot_key r = pk) (\<lambda>r. r\<lparr>bot_webhook_url := url\<rparr>)))) (\<lambda>_.
     ret OK)))"

subsection \<open>What a hosted bot may call\<close>

definition insert_slash_command :: "slash_command_row \<Rightarrow> unit hub_handler" where
  "insert_slash_command r =
     writing (\<lambda>s. insert_row (\<lambda>r q. sc_id q = sc_id r \<or> (sc_bot q = sc_bot r \<and> sc_command q = sc_command r))
         (exists_row (\<lambda>b. bot_key b = sc_bot r) (bots (bot_hosting s))) r (bot_slash_commands (bot_hosting s)))
       (\<lambda>t. put_slash_commands (\<lambda>_. t))"

text \<open>Each command comes with the identifier drawn for it.\<close>

definition bot_set_commands :: "crypto \<Rightarrow> (string \<Rightarrow> string) \<Rightarrow> int \<Rightarrow> string option \<Rightarrow> (string \<times> string \<times> string) list \<Rightarrow> status_code hub_handler" where
  "bot_set_commands K lower now header cmds =
     and_then (authenticate_bot K header) (\<lambda>b.
     and_then (modify (put_slash_commands (delete_where (\<lambda>c. sc_bot c = bot_key b)))) (\<lambda>_.
     and_then (for_each (\<lambda>(i, command, description).
       let word = lower (trim command) in
       if word = [] then ret ()
       else insert_slash_command \<lparr>sc_id = i, sc_bot = bot_key b, sc_command = word, sc_description = trim description,
              sc_created = now\<rparr>) cmds) (\<lambda>_.
     ret OK)))"

text \<open>\<^verbatim>\<open>INSERT INTO messages\<close> and the broadcast, for a bot and for a webhook.\<close>

definition post_as :: "string \<Rightarrow> string \<Rightarrow> string \<Rightarrow> string \<Rightarrow> string \<Rightarrow> int \<Rightarrow> unit hub_handler" where
  "post_as i c sender name content now =
     and_then (insert_message (plain_message i c sender content now None None)) (\<lambda>_.
     send_chat (NewMessage c (plain_response i c sender (Some name) content now None)))"

definition bot_send_message :: "crypto \<Rightarrow> string \<Rightarrow> int \<Rightarrow> string option \<Rightarrow> string \<Rightarrow> string \<Rightarrow> json hub_handler" where
  "bot_send_message K i now header c content =
     and_then (authenticate_bot K header) (\<lambda>b.
     and_then (gets (\<lambda>s. channel_exists s c)) (\<lambda>exists.
     and_then (check exists (Reject NOT_FOUND ''Channel not found'')) (\<lambda>_.
     and_then (post_as i c (bot_key b) (bot_display_name b) content now) (\<lambda>_.
     ret (JObj [(''ok'', JBool True)])))))"

definition bot_poll :: "crypto \<Rightarrow> string option \<Rightarrow> int option \<Rightarrow> bot_event_row list hub_handler" where
  "bot_poll K header since =
     and_then (authenticate_bot K header) (\<lambda>b.
     gets (\<lambda>s. take 100 (sort_key be_created (filter (\<lambda>e. be_bot e = bot_key b \<and> be_delivered e = 0 \<and>
       (case since of None \<Rightarrow> True | Some t \<Rightarrow> t < be_created e)) (bot_event_queue (bot_hosting s))))))"

definition bot_ack_events :: "crypto \<Rightarrow> string option \<Rightarrow> string list \<Rightarrow> status_code hub_handler" where
  "bot_ack_events K header ids =
     and_then (authenticate_bot K header) (\<lambda>b.
     and_then (for_each (\<lambda>i. modify (put_bot_events
       (update_where (\<lambda>e. be_id e = i \<and> be_bot e = bot_key b) (\<lambda>e. e\<lparr>be_delivered := 1\<rparr>)))) ids) (\<lambda>_.
     ret OK))"

subsection \<open>External bots\<close>

definition ascii_hexdigit :: "char \<Rightarrow> bool" where
  "ascii_hexdigit c \<longleftrightarrow> (let n = of_char c :: nat in 48 \<le> n \<and> n \<le> 57 \<or> 65 \<le> n \<and> n \<le> 70 \<or> 97 \<le> n \<and> n \<le> 102)"

definition may_invite_bots :: "hub \<Rightarrow> string \<Rightarrow> bool" where
  "may_invite_bots s user \<longleftrightarrow>
     has_permission (user_permissions user s) MANAGE_ROLES \<or> has_permission (user_permissions user s) ADMIN"

definition ext_invite_bot :: "crypto \<Rightarrow> u8 list \<Rightarrow> int \<Rightarrow> string \<Rightarrow> string \<Rightarrow> string hub_handler" where
  "ext_invite_bot K random now user pk =
     and_then (gets (\<lambda>s. may_invite_bots s user)) (\<lambda>may.
     and_then (check may (Reject FORBIDDEN ''Missing permission: manage_roles'')) (\<lambda>_.
     and_then (check (length pk = 64 \<and> list_all ascii_hexdigit pk)
       (Reject BAD_REQUEST ''pubkey must be 64 hex characters'')) (\<lambda>_.
     and_then (insert_user_or_ignore ((new_user pk now ''bot_pending'' None)\<lparr>user_is_bot := 1\<rparr>)) (\<lambda>_.
     let token = hex_encode K random in
     and_then (update_user pk (\<lambda>u. u\<lparr>user_bot_invite_token := Some token,
       user_bot_invite_expires := Some (now + 86400)\<rparr>)) (\<lambda>_.
     ret token)))))"

text \<open>The two halves of accepting: what is verified, and what is then written.\<close>

definition verify_invite_acceptance :: "crypto \<Rightarrow> int \<Rightarrow> string \<Rightarrow> string \<Rightarrow> unit hub_handler" where
  "verify_invite_acceptance K now pk signature =
     and_then (gets (\<lambda>s. fetch_optional (\<lambda>u. user_key u = pk \<and> user_is_bot u = 1) (users s))) (\<lambda>found.
     and_then (ok_or found (Reject NOT_FOUND ''Bot not found or not invited'')) (\<lambda>u.
     and_then (ok_or (user_bot_invite_token u) (Reject NOT_FOUND ''No pending invite for this bot'')) (\<lambda>stored.
     and_then (case user_bot_invite_expires u of None \<Rightarrow> ret ()
       | Some e \<Rightarrow> check (now \<le> e) (Reject GONE ''Invite token has expired'')) (\<lambda>_.
     case hex_decode K signature of
       Inl _ \<Rightarrow> fail (Reject BAD_REQUEST ''Invalid signature hex'')
     | Inr sig_bytes \<Rightarrow>
         check (verify_signature K pk (as_bytes stored) sig_bytes = Inr ())
           (Reject UNAUTHORIZED ''Invalid signature over invite token'')))))"

definition replace_bot_commands :: "string \<Rightarrow> bot_command_def list \<Rightarrow> unit hub_handler" where
  "replace_bot_commands pk cmds =
     and_then (modify (\<lambda>s. s\<lparr>bot_commands := delete_where (\<lambda>r. bc_pubkey r = pk) (bot_commands s)\<rparr>)) (\<lambda>_.
     for_each (insert_bot_command pk) cmds)"

definition ext_accept_invite :: "crypto \<Rightarrow> int \<Rightarrow> string \<Rightarrow> string \<Rightarrow> bot_meta \<Rightarrow> string hub_handler" where
  "ext_accept_invite K now pk signature meta =
     and_then (verify_invite_acceptance K now pk signature) (\<lambda>_.
     and_then (update_user pk (\<lambda>u. u\<lparr>user_approval := ''approved'', user_bot_invite_token := None,
       user_bot_invite_expires := None\<rparr>)) (\<lambda>_.
     and_then (upsert_bot_profile pk meta now) (\<lambda>_.
     and_then (case bm_commands meta of None \<Rightarrow> ret () | Some cmds \<Rightarrow> replace_bot_commands pk cmds) (\<lambda>_.
     ret ''accepted''))))"

definition ext_remove_bot :: "string \<Rightarrow> string \<Rightarrow> status_code hub_handler" where
  "ext_remove_bot user pk =
     and_then (gets (user_permissions user)) (\<lambda>perms.
     and_then (require_permission perms ADMIN) (\<lambda>_.
     and_then (modify (\<lambda>s. s\<lparr>users := update_where (\<lambda>u. user_key u = pk \<and> user_is_bot u = 1)
       (\<lambda>u. u\<lparr>user_is_bot_removed := 1\<rparr>) (users s)\<rparr>)) (\<lambda>_.
     ret NO_CONTENT)))"

record bot_list_entry =
  bl_pubkey :: string
  bl_name :: string
  bl_avatar :: "string option"
  bl_description :: "string option"
  bl_last_seen :: int
  bl_webhook_url :: "string option"
  bl_commands :: "(string \<times> string) list"

definition commands_by_name :: "hub \<Rightarrow> string \<Rightarrow> bot_command_row list" where
  "commands_by_name s pk = sort_key bc_name (filter (\<lambda>c. bc_pubkey c = pk) (bot_commands s))"

definition ext_list_bots :: "bot_list_entry list hub_handler" where
  "ext_list_bots = gets (\<lambda>s.
     [\<lparr>bl_pubkey = user_key u, bl_name = bp_name p, bl_avatar = bp_avatar_url p, bl_description = bp_description p,
       bl_last_seen = user_last_seen u, bl_webhook_url = bp_webhook_url p,
       bl_commands = map (\<lambda>c. (bc_name c, bc_description c)) (commands_by_name s (user_key u))\<rparr>.
       u \<leftarrow> users s, user_is_bot u = 1 \<and> user_is_bot_removed u = 0, p \<leftarrow> bot_profiles s, bp_pubkey p = user_key u])"

definition require_bot_identity :: "string \<Rightarrow> unit hub_handler" where
  "require_bot_identity user =
     and_then (gets (\<lambda>s. map_option user_is_bot (row_at user_key user (users s)))) (\<lambda>flag.
     check (flag = Some 1) (Reject FORBIDDEN ''Not a bot identity''))"

record bot_me =
  me_profile :: bot_profile_row
  me_commands :: "bot_command_def list"

definition command_def_of :: "bot_command_row \<Rightarrow> bot_command_def" where
  "command_def_of c = \<lparr>bcd_name = bc_name c, bcd_description = bc_description c, bcd_args = bc_args c,
     bcd_scope = Some (bc_scope c), bcd_privileged = Some (bc_privileged c \<noteq> 0), bcd_cooldown = Some (bc_cooldown c)\<rparr>"

definition ext_bot_me :: "string \<Rightarrow> bot_me hub_handler" where
  "ext_bot_me user =
     and_then (require_bot_identity user) (\<lambda>_.
     and_then (gets (\<lambda>s. row_at bp_pubkey user (bot_profiles s))) (\<lambda>found.
     and_then (ok_or found (Reject NOT_FOUND ''Bot profile not found'')) (\<lambda>p.
     gets (\<lambda>s. \<lparr>me_profile = p, me_commands = map command_def_of (commands_by_name s user)\<rparr>))))"

definition ext_update_bot_profile :: "int \<Rightarrow> string \<Rightarrow> bot_meta \<Rightarrow> bot_me hub_handler" where
  "ext_update_bot_profile now user meta =
     and_then (require_bot_identity user) (\<lambda>_.
     and_then (upsert_bot_profile user meta now) (\<lambda>_.
     ext_bot_me user))"

definition ext_update_bot_commands :: "string \<Rightarrow> bot_command_def list \<Rightarrow> status_code hub_handler" where
  "ext_update_bot_commands user cmds =
     and_then (require_bot_identity user) (\<lambda>_.
     and_then (replace_bot_commands user cmds) (\<lambda>_.
     ret OK))"

record bot_subscription =
  bs_event :: string
  bs_channels :: "string list option"

text \<open>The channels a subscription names; the empty string stands for no channel filter.\<close>

definition named_channels :: "bot_subscription \<Rightarrow> string list" where
  "named_channels b = (case bs_channels b of Some (c # cs) \<Rightarrow> c # cs | _ \<Rightarrow> [[]])"

definition needs_channels :: "bot_subscription \<Rightarrow> bool" where
  "needs_channels b \<longleftrightarrow> is_message_event (bs_event b) \<and> bs_event b \<noteq> ''message.mention_bot'' \<and>
     (case bs_channels b of None \<Rightarrow> True | Some cs \<Rightarrow> cs = [])"

definition insert_subscription :: "bot_subscription_row \<Rightarrow> unit hub_handler" where
  "insert_subscription r =
     writing (\<lambda>s. insert_or_ignore (same_key (\<lambda>q. (sub_bot q, sub_event q, sub_channel q))) True r (bot_subscriptions s))
       (\<lambda>t s. s\<lparr>bot_subscriptions := t\<rparr>)"

definition ext_update_bot_subscriptions :: "string \<Rightarrow> bot_subscription list \<Rightarrow> nat hub_handler" where
  "ext_update_bot_subscriptions user subs =
     and_then (require_bot_identity user) (\<lambda>_.
     and_then (for_each (\<lambda>b. check (\<not> needs_channels b)
       (Reject BAD_REQUEST (''Subscription '' @ [CHR 0x27] @ bs_event b @ [CHR 0x27] @ '' requires an explicit channels list''))) subs) (\<lambda>_.
     and_then (modify (\<lambda>s. s\<lparr>bot_subscriptions := delete_where (\<lambda>r. sub_bot r = user) (bot_subscriptions s)\<rparr>)) (\<lambda>_.
     and_then (for_each (\<lambda>b. for_each (\<lambda>c. insert_subscription
       \<lparr>sub_bot = user, sub_event = bs_event b, sub_channel = c\<rparr>) (named_channels b)) subs) (\<lambda>_.
     ret (sum_list (map (\<lambda>b. length (named_channels b)) subs))))))"

subsection \<open>Pages of the audit log\<close>

record audit_query =
  aq_event_type :: "string option"
  aq_since :: "int option"
  aq_until :: "int option"
  aq_cursor :: "int option"
  aq_limit :: "int option"

definition audit_limit :: "audit_query \<Rightarrow> int" where
  "audit_limit q = max (min (case aq_limit q of None \<Rightarrow> 50 | Some l \<Rightarrow> l) 200) 1"

definition audit_filter :: "audit_query \<Rightarrow> audit_row \<Rightarrow> bool" where
  "audit_filter q r \<longleftrightarrow>
     (case aq_since q of None \<Rightarrow> 0 | Some t \<Rightarrow> t) \<le> audit_at r \<and>
     audit_at r \<le> (case aq_until q of None \<Rightarrow> 2 ^ 63 - 1 | Some t \<Rightarrow> t) \<and>
     (case aq_event_type q of None \<Rightarrow> True | Some ty \<Rightarrow> ty = [] \<or> audit_type r = ty)"

definition audit_page :: "audit_query \<Rightarrow> audit_row list \<Rightarrow> audit_row list \<times> int option" where
  "audit_page q log =
     (let limit = audit_limit q;
          rows = take (nat (limit + 1)) (log_order (filter (\<lambda>r.
            (case aq_cursor q of None \<Rightarrow> 0 | Some c \<Rightarrow> c) < audit_seq r \<and> audit_filter q r) log));
          entries = take (nat limit) rows
      in (entries, if limit < int (length rows) \<and> entries \<noteq> [] then Some (audit_seq (last entries)) else None))"

definition admin_audit_log :: "string \<Rightarrow> audit_query \<Rightarrow> (audit_row list \<times> int option) hub_handler" where
  "admin_audit_log user q =
     and_then (gets (user_permissions user)) (\<lambda>perms.
     and_then (require_permission perms ADMIN) (\<lambda>_.
     gets (\<lambda>s. audit_page q (hub_audit_log s))))"

subsection \<open>Webhooks\<close>

definition constant_time_eq :: "u8 list \<Rightarrow> u8 list \<Rightarrow> bool" where
  "constant_time_eq a b \<longleftrightarrow>
     (if length a \<noteq> length b then False
      else foldl (\<lambda>acc (x, y). acc OR (x XOR y)) 0 (zip a b) = 0)"

definition insert_webhook :: "webhook_row \<Rightarrow> unit hub_handler" where
  "insert_webhook w =
     writing (\<lambda>s. insert_row (same_key webhook_id) (channel_exists s (webhook_channel w)) w (webhooks s))
       (\<lambda>t s. s\<lparr>webhooks := t\<rparr>)"

record webhook_request =
  wq_channel :: string
  wq_display_name :: string
  wq_avatar :: "string option"
  wq_rate_limit :: "int option"

definition create_webhook :: "crypto \<Rightarrow> string \<Rightarrow> u8 list \<Rightarrow> int \<Rightarrow> string \<Rightarrow> webhook_request \<Rightarrow> (status_code \<times> string \<times> string) hub_handler" where
  "create_webhook K i random now user req =
     and_then (gets (user_permissions user)) (\<lambda>perms.
     and_then (require_permission perms ADMIN) (\<lambda>_.
     and_then (gets (\<lambda>s. channel_exists s (wq_channel req))) (\<lambda>exists.
     and_then (check exists (Reject NOT_FOUND ''Channel not found'')) (\<lambda>_.
     let secret = hex_encode K random in
     and_then (insert_webhook \<lparr>webhook_id = i, webhook_channel = wq_channel req, webhook_token_hash = hash_token K secret,
       webhook_display_name = wq_display_name req, webhook_avatar = wq_avatar req, webhook_created_by = user,
       webhook_rate_limit = (case wq_rate_limit req of None \<Rightarrow> 5 | Some n \<Rightarrow> n), webhook_active = 1,
       webhook_created = now\<rparr>) (\<lambda>_.
     and_then (insert_user_or_ignore ((new_user i now ''approved'' None)\<lparr>user_display_name := Some (wq_display_name req),
       user_is_bot := 1, user_is_webhook := 1\<rparr>)) (\<lambda>_.
     gets (\<lambda>s. (CREATED, i, hub_url_public s @ ''/webhooks/'' @ i @ ''/'' @ secret))))))))"

definition delete_webhook :: "string \<Rightarrow> string \<Rightarrow> status_code hub_handler" where
  "delete_webhook user i =
     and_then (gets (user_permissions user)) (\<lambda>perms.
     and_then (require_permission perms ADMIN) (\<lambda>_.
     and_then (gets (\<lambda>s. exists_row (\<lambda>w. webhook_id w = i) (webhooks s))) (\<lambda>found.
     and_then (modify (\<lambda>s. s\<lparr>webhooks := update_where (\<lambda>w. webhook_id w = i) (\<lambda>w. w\<lparr>webhook_active := 0\<rparr>) (webhooks s)\<rparr>)) (\<lambda>_.
     and_then (check found (Reject NOT_FOUND ''Webhook not found'')) (\<lambda>_.
     ret NO_CONTENT)))))"

text \<open>The signature header, when present, is only logged, so it is no argument.\<close>

definition post_webhook_message :: "crypto \<Rightarrow> string \<Rightarrow> int \<Rightarrow> string \<Rightarrow> string \<Rightarrow> string \<Rightarrow> string option \<Rightarrow> string hub_handler" where
  "post_webhook_message K m now i token content username =
     and_then (gets (\<lambda>s. fetch_optional (\<lambda>w. webhook_id w = i \<and> webhook_active w = 1) (webhooks s))) (\<lambda>found.
     and_then (ok_or found (Reject NOT_FOUND ''Webhook not found or inactive'')) (\<lambda>w.
     and_then (check (constant_time_eq (as_bytes (hash_token K token)) (as_bytes (webhook_token_hash w)))
       (Reject UNAUTHORIZED ''Invalid webhook token'')) (\<lambda>_.
     let text = trim content in
     and_then (check (text \<noteq> []) (Reject BAD_REQUEST ''content is required'')) (\<lambda>_.
     and_then (post_as m (webhook_channel w) i (case username of None \<Rightarrow> webhook_display_name w | Some n \<Rightarrow> n) text now) (\<lambda>_.
     ret m)))))"

subsection \<open>Warning of expiring sessions\<close>

definition WARN_WINDOW_SECS :: int where
  "WARN_WINDOW_SECS = 72 * 3600"

definition expiring :: "int \<Rightarrow> hub \<Rightarrow> session_row list" where
  "expiring now s = filter (\<lambda>x. exists_row (\<lambda>u. user_key u = session_user x \<and> user_is_bot u = 1) (users s) \<and>
     (case session_expires x of None \<Rightarrow> False | Some e \<Rightarrow> e \<le> now + WARN_WINDOW_SECS) \<and> session_warned x = None) (sessions s)"

text \<open>
  The result lists the warnings handed to connected bots; a full queue drops one. A session is
  marked whether or not its bot is connected.
\<close>

definition token_expiry_tick :: "int \<Rightarrow> (string \<times> int) list hub_handler" where
  "token_expiry_tick now =
     and_then (gets (expiring now)) (\<lambda>rows.
     and_then (gets (\<lambda>s. [(session_user x, the (session_expires x)). x \<leftarrow> rows, bot_sessions (live s) (session_user x) \<noteq> None])) (\<lambda>pushed.
     and_then (for_each (\<lambda>x. modify (\<lambda>s. s\<lparr>sessions := update_where (\<lambda>y. session_token y = session_token x)
       (\<lambda>y. y\<lparr>session_warned := Some now\<rparr>) (sessions s)\<rparr>)) rows) (\<lambda>_.
     ret pushed)))"

subsection \<open>The requests and the users table\<close>

datatype bot_op =
    CreateBot string "u8 list" "u8 list" int string string
  | DeleteBot string string
  | SetBotWebhook string string "string option"
  | SetSlashCommands int "string option" "(string \<times> string \<times> string) list"
  | BotSend string int "string option" string string
  | AckEvents "string option" "string list"
  | InviteBot "u8 list" int string string
  | AcceptInvite int string string bot_meta
  | RemoveBot string string
  | UpdateProfile int string bot_meta
  | UpdateCommands string "bot_command_def list"
  | UpdateSubscriptions string "bot_subscription list"
  | CreateWebhook string "u8 list" int string webhook_request
  | DeleteWebhook string string
  | PostWebhook string int string string string "string option"
  | ExpiryTick int

fun bot_step :: "crypto \<Rightarrow> (string \<Rightarrow> string) \<Rightarrow> hub \<Rightarrow> bot_op \<Rightarrow> hub" where
  "bot_step K lower s (CreateBot u a b now user name) = snd (admin_create_bot K u a b now user name s)"
| "bot_step K lower s (DeleteBot user pk) = snd (admin_delete_bot user pk s)"
| "bot_step K lower s (SetBotWebhook user pk url) = snd (admin_set_webhook user pk url s)"
| "bot_step K lower s (SetSlashCommands now h cmds) = snd (bot_set_commands K lower now h cmds s)"
| "bot_step K lower s (BotSend i now h c content) = snd (bot_send_message K i now h c content s)"
| "bot_step K lower s (AckEvents h ids) = snd (bot_ack_events K h ids s)"
| "bot_step K lower s (InviteBot random now user pk) = snd (ext_invite_bot K random now user pk s)"
| "bot_step K lower s (AcceptInvite now pk signature meta) = snd (ext_accept_invite K now pk signature meta s)"
| "bot_step K lower s (RemoveBot user pk) = snd (ext_remove_bot user pk s)"
| "bot_step K lower s (UpdateProfile now user meta) = snd (ext_update_bot_profile now user meta s)"
| "bot_step K lower s (UpdateCommands user cmds) = snd (ext_update_bot_commands user cmds s)"
| "bot_step K lower s (UpdateSubscriptions user subs) = snd (ext_update_bot_subscriptions user subs s)"
| "bot_step K lower s (CreateWebhook i random now user req) = snd (create_webhook K i random now user req s)"
| "bot_step K lower s (DeleteWebhook user i) = snd (delete_webhook user i s)"
| "bot_step K lower s (PostWebhook m now i token content name) = snd (post_webhook_message K m now i token content name s)"
| "bot_step K lower s (ExpiryTick now) = snd (token_expiry_tick now s)"

lemma preserves_guards [keeps]:
  "preserves P (authenticate_bot K header)" "preserves P (require_bot pk)" "preserves P (require_bot_owner user b)"
  "preserves P (verify_invite_acceptance K now pk signature)" "preserves P (require_bot_identity user)" "preserves P (ext_bot_me user)"
  unfolding authenticate_bot_def require_bot_def require_bot_owner_def verify_invite_acceptance_def require_bot_identity_def
    ext_bot_me_def
  by (intro keeps; (cases "hex_decode K signature")?; simp; intro keeps)+

text \<open>The frames: which writes leave the users table, and the sessions, alone.\<close>

lemma users_frames:
  fixes U :: "user_row list"
  defines "P \<equiv> \<lambda>t :: hub. users t = U"
  shows "preserves P (insert_bot r)" "preserves P (delete_bot_row pk)" "preserves P (insert_slash_command c)"
    "preserves P (post_as i c0 sender n content now)" "preserves P (upsert_bot_profile pk meta now)"
    "preserves P (replace_bot_commands pk cmds)" "preserves P (insert_subscription q)" "preserves P (insert_webhook w)"
  unfolding P_def insert_bot_def delete_bot_row_def insert_slash_command_def post_as_def upsert_bot_profile_def Let_def
    replace_bot_commands_def insert_bot_command_def insert_subscription_def insert_webhook_def insert_message_def
  by (intro keeps preserves_writing preserves_modify; simp add: put_bots_def put_slash_commands_def)+

fun touches_users :: "bot_op \<Rightarrow> bool" where
  "touches_users (CreateBot _ _ _ _ _ _) = True"
| "touches_users (DeleteBot _ _) = True"
| "touches_users (InviteBot _ _ _ _) = True"
| "touches_users (AcceptInvite _ _ _ _) = True"
| "touches_users (RemoveBot _ _) = True"
| "touches_users (CreateWebhook _ _ _ _ _) = True"
| "touches_users _ = False"

lemma users_untouched: "\<not> touches_users op \<Longrightarrow> users (bot_step K lower s op) = users s"
proof -
  assume "\<not> touches_users op"
  have "preserves (\<lambda>t. users t = users s) (admin_set_webhook user pk url)"
    "preserves (\<lambda>t. users t = users s) (bot_set_commands K lower now h cmds)"
    "preserves (\<lambda>t. users t = users s) (bot_send_message K i now h c content)"
    "preserves (\<lambda>t. users t = users s) (bot_ack_events K h ids)"
    "preserves (\<lambda>t. users t = users s) (ext_update_bot_profile now user meta)"
    "preserves (\<lambda>t. users t = users s) (ext_update_bot_commands user cds)"
    "preserves (\<lambda>t. users t = users s) (ext_update_bot_subscriptions user subs)"
    "preserves (\<lambda>t. users t = users s) (delete_webhook user i)"
    "preserves (\<lambda>t. users t = users s) (post_webhook_message K i now j token content name)"
    "preserves (\<lambda>t. users t = users s) (token_expiry_tick now)"
    for user pk url now h cmds i c content ids meta cds subs j token name
    unfolding admin_set_webhook_def bot_set_commands_def bot_send_message_def bot_ack_events_def ext_update_bot_profile_def
      ext_update_bot_commands_def ext_update_bot_subscriptions_def delete_webhook_def post_webhook_message_def Let_def
      token_expiry_tick_def
    by (intro keeps preserves_modify users_frames preserves_case_prod; simp add: put_bots_def put_slash_commands_def put_bot_events_def)+
  then show ?thesis using \<open>\<not> touches_users op\<close> by (cases op) (auto simp: preserves_def)
qed

text \<open>What the other requests do to it, in the order of their statements.\<close>

definition accepted_row :: "user_row \<Rightarrow> user_row" where
  "accepted_row u = u\<lparr>user_approval := ''approved'', user_bot_invite_token := None, user_bot_invite_expires := None\<rparr>"

definition acceptance_valid :: "crypto \<Rightarrow> int \<Rightarrow> string \<Rightarrow> string \<Rightarrow> user_row \<Rightarrow> bool" where
  "acceptance_valid K now pk signature u \<longleftrightarrow> user_is_bot u = 1 \<and>
     (\<exists>stored. user_bot_invite_token u = Some stored \<and>
       (case user_bot_invite_expires u of None \<Rightarrow> True | Some e \<Rightarrow> now \<le> e) \<and>
       (\<exists>sig. hex_decode K signature = Inr sig \<and> verify_signature K pk (as_bytes stored) sig = Inr ()))"

lemma wp_verify_acceptance:
  assumes "keyed user_key (users s)" "\<And>e. E e s"
    and "\<And>u. row_at user_key pk (users s) = Some u \<Longrightarrow> acceptance_valid K now pk signature u \<Longrightarrow> Q () s"
  shows "wp (verify_invite_acceptance K now pk signature) Q E s"
  unfolding verify_invite_acceptance_def
  using assms
  by (auto simp: wps fetch_live acceptance_valid_def split: option.splits sum.splits)

lemma users_after_accept:
  assumes "keyed user_key (users s)"
  shows "users (bot_step K lower s (AcceptInvite now pk signature meta)) = users s \<or>
    (\<exists>u. row_at user_key pk (users s) = Some u \<and> acceptance_valid K now pk signature u \<and>
      users (bot_step K lower s (AcceptInvite now pk signature meta)) =
        update_where (\<lambda>u. user_key u = pk) accepted_row (users s))" (is "?Q (bot_step K lower s _)")
proof -
  have "wp (ext_accept_invite K now pk signature meta) (\<lambda>_. ?Q) (\<lambda>_. ?Q) s"
    unfolding ext_accept_invite_def
  proof (subst wp_and_then, rule wp_verify_acceptance [OF assms])
    fix u assume u: "row_at user_key pk (users s) = Some u" "acceptance_valid K now pk signature u"
    let ?R = "\<lambda>t. users t = update_where (\<lambda>u. user_key u = pk) accepted_row (users s)"
    let ?rest = "and_then (upsert_bot_profile pk meta now) (\<lambda>_.
       and_then (case bm_commands meta of None \<Rightarrow> ret () | Some cmds \<Rightarrow> replace_bot_commands pk cmds) (\<lambda>_. ret ''accepted''))"
    have "preserves ?R ?rest" by (intro keeps users_frames)
    then have "wp ?rest (\<lambda>_. ?Q) (\<lambda>_. ?Q) t" if "?R t" for t
      by (rule wp_mono [OF preserves_wp]) (use that u in auto)
    moreover have "(\<lambda>u. u\<lparr>user_approval := ''approved'', user_bot_invite_token := None, user_bot_invite_expires := None\<rparr>) =
        accepted_row" by (simp add: accepted_row_def fun_eq_iff)
    ultimately show "wp (and_then (update_user pk (\<lambda>u. u\<lparr>user_approval := ''approved'', user_bot_invite_token := None,
        user_bot_invite_expires := None\<rparr>)) (\<lambda>_. ?rest)) (\<lambda>_. ?Q) (\<lambda>_. ?Q) s"
      by (subst wp_and_then) (simp add: update_user_def wp_modify)
  qed auto
  then show ?thesis by (simp add: wp_always)
qed

definition invited_row :: "string \<Rightarrow> int \<Rightarrow> user_row \<Rightarrow> user_row" where
  "invited_row token now u = u\<lparr>user_bot_invite_token := Some token, user_bot_invite_expires := Some (now + 86400)\<rparr>"

definition pending_bot :: "string \<Rightarrow> int \<Rightarrow> user_row" where
  "pending_bot pk now = (new_user pk now ''bot_pending'' None)\<lparr>user_is_bot := 1\<rparr>"

lemma users_after_invite:
  "users (bot_step K lower s (InviteBot random now user pk)) = users s \<or>
   (may_invite_bots s user \<and> (\<exists>t. insert_or_ignore (same_key user_key) True (pending_bot pk now) (users s) = Inr t \<and>
     users (bot_step K lower s (InviteBot random now user pk)) =
       update_where (\<lambda>u. user_key u = pk) (invited_row (hex_encode K random) now) t))"
proof -
  have "(\<lambda>u. u\<lparr>user_bot_invite_token := Some x, user_bot_invite_expires := Some (now + 86400)\<rparr>) = invited_row x now" for x
    by (simp add: invited_row_def fun_eq_iff)
  then show ?thesis
    by (auto simp: ext_invite_bot_def run_defs Let_def insert_user_or_ignore_def writing_def update_user_def pending_bot_def
        split: sum.splits)
qed

definition born_bot :: "user_row \<Rightarrow> bool" where
  "born_bot u \<longleftrightarrow> user_bot_invite_token u = None \<and> user_is_bot u = 1"

lemma users_after_create:
  "users (bot_step K lower s (CreateBot u a b now user name)) = users s \<or>
   (\<exists>r. user_key r = ''bot_'' @ u \<and> born_bot r \<and> insert_row (same_key user_key) True r (users s) =
      Inr (users (bot_step K lower s (CreateBot u a b now user name))))"
proof -
  let ?r = "(new_user (''bot_'' @ u) now ''approved'' None)\<lparr>user_display_name := Some (trim name), user_is_bot := 1\<rparr>"
  have "user_key ?r = ''bot_'' @ u \<and> born_bot ?r" by (simp add: new_user_def born_bot_def)
  then show ?thesis
    by (auto simp: admin_create_bot_def run_defs Let_def insert_user_def writing_def insert_bot_def put_bots_def
        split: sum.splits)
qed

lemma users_after_webhook:
  "users (bot_step K lower s (CreateWebhook i random now user req)) = users s \<or>
   (has_permission (user_permissions user s) ADMIN \<and>
    (\<exists>r. user_key r = i \<and> born_bot r \<and> insert_or_ignore (same_key user_key) True r (users s) =
      Inr (users (bot_step K lower s (CreateWebhook i random now user req)))))"
proof -
  let ?r = "(new_user i now ''approved'' None)\<lparr>user_display_name := Some (wq_display_name req), user_is_bot := 1, user_is_webhook := 1\<rparr>"
  have "user_key ?r = i \<and> born_bot ?r" by (simp add: new_user_def born_bot_def)
  then show ?thesis
    by (auto simp: create_webhook_def run_defs Let_def insert_user_or_ignore_def writing_def insert_webhook_def
        require_permission_def split: sum.splits)
qed

lemma users_after_remove:
  "users (bot_step K lower s (RemoveBot user pk)) = users s \<or>
   users (bot_step K lower s (RemoveBot user pk)) =
     update_where (\<lambda>u. user_key u = pk \<and> user_is_bot u = 1) (\<lambda>u. u\<lparr>user_is_bot_removed := 1\<rparr>) (users s)"
  by (auto simp: ext_remove_bot_def run_defs require_permission_def)

lemma users_after_delete:
  "users (bot_step K lower s (DeleteBot user pk)) = users s \<or>
   users (bot_step K lower s (DeleteBot user pk)) = delete_where (\<lambda>u. user_key u = pk) (users s)"
  by (auto simp: admin_delete_bot_def require_bot_def require_bot_owner_def run_defs require_permission_def delete_bot_row_def
      delete_user_row_def writing_def split: option.splits sum.splits if_splits)

text \<open>Where a row of the users table comes from, one request back.\<close>

definition same_standing :: "user_row \<Rightarrow> user_row \<Rightarrow> bool" where
  "same_standing u v \<longleftrightarrow> user_is_bot u = user_is_bot v \<and> user_approval u = user_approval v \<and>
     user_bot_invite_token u = user_bot_invite_token v \<and> user_bot_invite_expires u = user_bot_invite_expires v"

fun brought_in :: "hub \<Rightarrow> string \<Rightarrow> bot_op \<Rightarrow> bool" where
  "brought_in s pk (CreateBot u a b now user name) \<longleftrightarrow> pk = ''bot_'' @ u"
| "brought_in s pk (CreateWebhook i random now user req) \<longleftrightarrow> pk = i \<and> has_permission (user_permissions user s) ADMIN"
| "brought_in s pk _ \<longleftrightarrow> False"

fun invited_by :: "crypto \<Rightarrow> hub \<Rightarrow> bot_op \<Rightarrow> string \<times> string \<times> int option \<Rightarrow> bool" where
  "invited_by K s (InviteBot random now user p) (pk, token, expires) \<longleftrightarrow>
     p = pk \<and> may_invite_bots s user \<and> token = hex_encode K random \<and> expires = Some (now + 86400)"
| "invited_by K s _ _ \<longleftrightarrow> False"

fun accepted_by :: "crypto \<Rightarrow> hub \<Rightarrow> bot_op \<Rightarrow> string \<Rightarrow> bool" where
  "accepted_by K s (AcceptInvite now p signature meta) pk \<longleftrightarrow>
     p = pk \<and> (\<exists>u. row_at user_key pk (users s) = Some u \<and> acceptance_valid K now pk signature u)"
| "accepted_by K s _ _ \<longleftrightarrow> False"

definition row_origin :: "crypto \<Rightarrow> hub \<Rightarrow> bot_op \<Rightarrow> string \<Rightarrow> user_row \<Rightarrow> bool" where
  "row_origin K s op pk u \<longleftrightarrow>
     (\<exists>v. row_at user_key pk (users s) = Some v \<and> same_standing u v) \<or>
     (brought_in s pk op \<and> born_bot u) \<or>
     (invited_by K s op (pk, the (user_bot_invite_token u), user_bot_invite_expires u) \<and>
       (user_approval u = ''bot_pending'' \<or>
        (\<exists>v. row_at user_key pk (users s) = Some v \<and> user_approval u = user_approval v \<and> user_is_bot u = user_is_bot v))) \<or>
     (accepted_by K s op pk \<and> user_bot_invite_token u = None)"

lemma same_standing_refl [simp]: "same_standing u u"
  by (simp add: same_standing_def)

lemma row_origin_same: "row_at user_key pk (users s) = Some u \<Longrightarrow> row_origin K s op pk u"
  by (auto simp: row_origin_def)

lemma row_at_removal:
  "row_at user_key pk (update_where P (\<lambda>u. u\<lparr>user_is_bot_removed := 1\<rparr>) t) = Some u \<Longrightarrow>
   \<exists>v. row_at user_key pk t = Some v \<and> same_standing u v"
  by (subst (asm) row_at_update_any) (auto simp: same_standing_def split: if_splits)

lemma row_at_deleted: "row_at key pk (delete_where P t) = Some u \<Longrightarrow> keyed key t \<Longrightarrow> row_at key pk t = Some u"
  using row_at_key [of key pk "delete_where P t" u] row_at_keyed [of key t u] by (auto simp: rows)

lemma bot_row_origin:
  assumes "keyed user_key (users s)" "row_at user_key pk (users (bot_step K lower s op)) = Some u"
  shows "row_origin K s op pk u"
proof (cases "touches_users op")
  case False
  with users_untouched [of op K lower s] assms(2) show ?thesis by (simp add: row_origin_same)
next
  case True
  then show ?thesis
  proof (cases op)
    case (CreateBot a b c d e f)
    with users_after_create [of K lower s a b c d e f] assms(2) show ?thesis
      by (auto simp: row_origin_same row_origin_def dest!: row_at_insert_row(1) [of user_key _ _ _ _ pk] split: if_splits)
  next
    case (DeleteBot user p)
    with users_after_delete [of K lower s user p] assms show ?thesis by (auto simp: row_origin_same dest!: row_at_deleted)
  next
    case (InviteBot random now user p)
    with users_after_invite [of K lower s random now user p] assms(2) show ?thesis
    proof (elim disjE conjE exE)
      fix t assume t: "insert_or_ignore (same_key user_key) True (pending_bot p now) (users s) = Inr t"
        and eq: "users (bot_step K lower s (InviteBot random now user p)) =
          update_where (\<lambda>u. user_key u = p) (invited_row (hex_encode K random) now) t" and may: "may_invite_bots s user"
      show ?thesis
      proof (cases "pk = p")
        case True
        with row_at_insert_or_ignore [OF t, of pk] eq assms(2) InviteBot may show ?thesis
          by (auto simp: row_at_update_where invited_row_def row_origin_def pending_bot_def new_user_def split: if_splits)
      next
        case False
        with row_at_insert_or_ignore [OF t, of pk] eq assms(2) InviteBot show ?thesis
          by (intro row_origin_same) (auto simp: row_at_update_where invited_row_def pending_bot_def new_user_def)
      qed
    qed (auto intro: row_origin_same)
  next
    case (AcceptInvite now p signature meta)
    with users_after_accept [OF assms(1), of K lower now p signature meta] assms(2) show ?thesis
      by (auto simp: row_at_update_where accepted_row_def row_origin_def row_origin_same split: if_splits)
  next
    case (RemoveBot user p)
    with users_after_remove [of K lower s user p] assms(2) show ?thesis
      by (auto simp: row_origin_same row_origin_def dest: row_at_removal)
  next
    case (CreateWebhook i random now user req)
    with users_after_webhook [of K lower s i random now user req] assms(2) show ?thesis
      by (auto simp: row_origin_same row_origin_def dest!: row_at_insert_or_ignore [of user_key _ _ _ _ pk] split: if_splits)
  qed auto
qed

lemma keyed_inserted:
  "insert_row (same_key key) fk r t = Inr u \<Longrightarrow> keyed key t \<Longrightarrow> keyed key u"
  "insert_or_ignore (same_key key) fk r t = Inr u \<Longrightarrow> keyed key t \<Longrightarrow> keyed key u"
  by (auto simp: ok_iffs keyed_snoc exists_row_iff same_key_def split: if_splits)

lemma bot_step_keyed: "keyed user_key (users s) \<Longrightarrow> keyed user_key (users (bot_step K lower s op))"
proof (cases "touches_users op")
  case False
  then show "keyed user_key (users s) \<Longrightarrow> ?thesis" by (simp add: users_untouched)
next
  case True
  assume k: "keyed user_key (users s)"
  show ?thesis
  proof (cases op)
    case (CreateBot a b c d e f)
    with users_after_create [of K lower s a b c d e f] k show ?thesis by (auto intro: keyed_inserted)
  next
    case (DeleteBot user p)
    with users_after_delete [of K lower s user p] k show ?thesis by (auto simp: keyed_delete_where)
  next
    case (InviteBot random now user p)
    with users_after_invite [of K lower s random now user p] k show ?thesis
      by (auto intro!: keyed_update_where simp: invited_row_def intro: keyed_inserted)
  next
    case (AcceptInvite now p signature meta)
    with users_after_accept [OF k, of K lower now p signature meta] k show ?thesis
      by (auto intro!: keyed_update_where simp: accepted_row_def)
  next
    case (RemoveBot user p)
    with users_after_remove [of K lower s user p] k show ?thesis by (auto intro!: keyed_update_where)
  next
    case (CreateWebhook i random now user req)
    with users_after_webhook [of K lower s i random now user req] k show ?thesis by (auto intro: keyed_inserted)
  qed (use True in auto)
qed

subsection \<open>Bots join by invitation\<close>

definition approved_bot :: "string \<Rightarrow> hub \<Rightarrow> bool" where
  "approved_bot pk s \<longleftrightarrow>
     (\<exists>u. row_at user_key pk (users s) = Some u \<and> user_is_bot u = 1 \<and> user_approval u = ''approved'')"

fun open_invite :: "string \<times> string \<times> int option \<Rightarrow> hub \<Rightarrow> bool" where
  "open_invite (pk, token, expires) s \<longleftrightarrow> (\<exists>u. row_at user_key pk (users s) = Some u \<and>
     user_bot_invite_token u = Some token \<and> user_bot_invite_expires u = expires)"

interpretation joining: traced "\<lambda>s. keyed user_key (users s)" "bot_step K lower" approved_bot
  "\<lambda>s op pk. brought_in s pk op \<or> accepted_by K s op pk" for K lower
proof unfold_locales
  show "keyed user_key (users s) \<Longrightarrow> keyed user_key (users (bot_step K lower s op))" for s op by (rule bot_step_keyed)
  fix s op pk
  assume k: "keyed user_key (users s)" and "approved_bot pk (bot_step K lower s op)"
  then obtain u where u: "row_at user_key pk (users (bot_step K lower s op)) = Some u" "user_is_bot u = 1"
    "user_approval u = ''approved''" by (auto simp: approved_bot_def)
  from bot_row_origin [OF k u(1)] u(2,3) show "approved_bot pk s \<or> brought_in s pk op \<or> accepted_by K s op pk"
    by (auto simp: row_origin_def approved_bot_def same_standing_def)
qed

interpretation inviting: traced "\<lambda>s. keyed user_key (users s)" "bot_step K lower" open_invite "invited_by K" for K lower
proof unfold_locales
  show "keyed user_key (users s) \<Longrightarrow> keyed user_key (users (bot_step K lower s op))" for s op by (rule bot_step_keyed)
  fix s op and k :: "string \<times> string \<times> int option"
  assume keys: "keyed user_key (users s)" and holds: "open_invite k (bot_step K lower s op)"
  obtain pk token expires where k: "k = (pk, token, expires)" by (cases k)
  with holds obtain u where u: "row_at user_key pk (users (bot_step K lower s op)) = Some u"
    "user_bot_invite_token u = Some token" "user_bot_invite_expires u = expires" by auto
  from bot_row_origin [OF keys u(1)] u(2,3) show "open_invite k s \<or> invited_by K s op k"
    by (auto simp: row_origin_def same_standing_def born_bot_def k)
qed


definition demo_bot :: string where "demo_bot = replicate 64 (CHR ''a'')"
definition demo_bot_signature :: string where "demo_bot_signature = replicate 128 (CHR ''b'')"

definition demo_bot_meta :: bot_meta where
  "demo_bot_meta = \<lparr>bm_name = ''echo'', bm_avatar_url = None, bm_webhook_url = None, bm_description = None,
     bm_homepage_url = None, bm_commands = None, bm_capabilities = None\<rparr>"

text \<open>Two characters to a byte, and one signature that verifies.\<close>

definition demo_bot_crypto :: crypto where
  "demo_bot_crypto = demo_crypto\<lparr>hex_decode := (\<lambda>x. Inr (take (length x div 2) (as_bytes x))),
     ed25519_verify := (\<lambda>pk m sig. m = [7] \<and> sig = replicate 64 (of_char (CHR ''b'')))\<rparr>"

definition demo_joining :: "bot_op list" where
  "demo_joining = [InviteBot [7] 5 demo_mod demo_bot, AcceptInvite 9 demo_bot demo_bot_signature demo_bot_meta]"

lemma as_bytes_replicate [simp]: "as_bytes (replicate n c) = replicate n (of_char c)"
  by (simp add: as_bytes_def map_replicate)

lemma demo_bot_crypto_sel [simp]:
  "hex_encode demo_bot_crypto bs = map (\<lambda>b. char_of (unat b)) bs"
  "hex_decode demo_bot_crypto demo_bot = Inr (replicate 32 (of_char (CHR ''a'')))"
  "hex_decode demo_bot_crypto demo_bot_signature = Inr (replicate 64 (of_char (CHR ''b'')))"
  "verifying_key_ok demo_bot_crypto pk"
  "ed25519_verify demo_bot_crypto pk m sig \<longleftrightarrow> m = [7] \<and> sig = replicate 64 (of_char (CHR ''b''))"
  by (simp_all add: demo_bot_crypto_def demo_bot_def demo_bot_signature_def demo_crypto_def)

lemma demo_may_invite:
  "may_invite_bots demo_hub demo_mod" "length demo_bot = 64" "list_all ascii_hexdigit demo_bot"
  by (simp_all add: may_invite_bots_def has_permission_def demo_bot_def list_all_iff ascii_hexdigit_def)

lemma demo_bot_new: "row_at user_key demo_bot (users demo_hub) = None"
proof -
  have "demo_owner \<noteq> demo_bot" "demo_mod \<noteq> demo_bot" "demo_member \<noteq> demo_bot"
    by (auto simp: demo_bot_def demo_owner_def demo_mod_def demo_member_def dest: arg_cong [of _ _ length])
  then show ?thesis by (simp add: row_at_def demo_hub_def new_user_def)
qed

lemma demo_invite_step:
  "users (bot_step demo_bot_crypto lower demo_hub (InviteBot [7] 5 demo_mod demo_bot)) =
     users demo_hub @ [invited_row [char_of (7 :: nat)] 5 (pending_bot demo_bot 5)]"
  using demo_bot_new
  by (simp add: ext_invite_bot_def run_defs demo_may_invite insert_user_or_ignore_def writing_def insert_or_ignore_def
      exists_row_def same_key_def Let_def update_user_def row_at_None_iff new_user_def pending_bot_def invited_row_def
      update_where_def map_idI)

lemma demo_bot_joins: "approved_bot demo_bot (run (bot_step demo_bot_crypto lower) demo_hub demo_joining)"
proof -
  let ?s = "bot_step demo_bot_crypto lower demo_hub (InviteBot [7] 5 demo_mod demo_bot)"
  let ?u = "invited_row [char_of (7 :: nat)] 5 (pending_bot demo_bot 5)"
  have u: "user_key ?u = demo_bot" "user_is_bot ?u = 1" "user_bot_invite_token ?u = Some [char_of (7 :: nat)]"
    "user_bot_invite_expires ?u = Some 86405"
    by (simp_all add: invited_row_def pending_bot_def new_user_def)
  have verified: "verify_invite_acceptance demo_bot_crypto 9 demo_bot demo_bot_signature ?s = (Inr (), ?s)"
  proof -
    have "fetch_optional (\<lambda>x. user_key x = demo_bot \<and> user_is_bot x = 1) (users ?s) = Some ?u"
      unfolding demo_invite_step using demo_bot_new u
      by (auto simp: fetch_optional_append row_at_None_iff fetch_optional_None_iff split: option.splits
          dest: fetch_optional_SomeD)
    with u as_bytes_char_of_unat [of "[7]"] show ?thesis
      by (simp add: verify_invite_acceptance_def run_defs verify_signature_def)
  qed
  have "row_at user_key demo_bot (users ?s) = Some ?u"
    unfolding demo_invite_step using demo_bot_new u by (auto simp: row_at_append row_at_single)
  with u verified show ?thesis
    by (simp add: demo_joining_def approved_bot_def ext_accept_invite_def run_defs update_user_def upsert_bot_profile_def
        Let_def writing_def upsert_def demo_bot_meta_def row_at_update_where)
qed


subsection \<open>Paging through the audit log\<close>

text \<open>A client that follows \<^verbatim>\<open>next_cursor\<close> for at most \<open>n\<close> pages.\<close>

fun read_log :: "nat \<Rightarrow> audit_query \<Rightarrow> audit_row list \<Rightarrow> audit_row list option" where
  "read_log 0 q log = None"
| "read_log (Suc n) q log =
     (case audit_page q log of
        (entries, None) \<Rightarrow> Some entries
      | (entries, Some c) \<Rightarrow> map_option ((@) entries) (read_log n (q\<lparr>aq_cursor := Some c\<rparr>) log))"

definition audit_matching :: "audit_query \<Rightarrow> audit_row list \<Rightarrow> audit_row list" where
  "audit_matching q log =
     filter (\<lambda>r. (case aq_cursor q of None \<Rightarrow> 0 | Some c \<Rightarrow> c) < audit_seq r \<and> audit_filter q r) log"

lemma audit_limit_pos: "0 < nat (audit_limit q)"
  by (simp add: audit_limit_def)

lemma audit_query_cursor [simp]:
  "audit_limit (q\<lparr>aq_cursor := c\<rparr>) = audit_limit q" "audit_filter (q\<lparr>aq_cursor := c\<rparr>) = audit_filter q"
  by (simp_all add: audit_limit_def audit_filter_def fun_eq_iff)

lemma audit_page_eq:
  assumes "log_ok s"
  shows "audit_page q (hub_audit_log s) =
    (let m = audit_matching q (hub_audit_log s); l = nat (audit_limit q)
     in (take l m, if l < length m then Some (audit_seq (last (take l m))) else None))"
proof -
  have "nat (audit_limit q + 1) = Suc (nat (audit_limit q))" by (simp add: audit_limit_def)
  then show ?thesis
    using audit_limit_pos [of q]
    by (auto simp: audit_page_def Let_def log_order_id [OF assms] audit_matching_def)
qed

lemma after_prefix:
  assumes "sorted_wrt (\<lambda>a b. f a < (f b :: int)) xs" "0 < l" "l < length xs"
  shows "filter (\<lambda>r. f (last (take l xs)) < f r) xs = drop l xs"
proof -
  let ?p = "take l xs"
  from assms(2,3) have p: "?p \<noteq> []" by auto
  have srt: "sorted_wrt (\<lambda>a b. f a < f b) (?p @ drop l xs)" using assms(1) by simp
  then have after: "f (last ?p) < f r" if "r \<in> set (drop l xs)" for r
    using p that unfolding sorted_wrt_append by (meson last_in_set)
  have "sorted_wrt (\<lambda>a b. f a < f b) (butlast ?p @ [last ?p])" using srt p by (simp add: sorted_wrt_append)
  then have "f r < f (last ?p)" if "r \<in> set (butlast ?p)" for r using that unfolding sorted_wrt_append by auto
  moreover have "set ?p = insert (last ?p) (set (butlast ?p))"
    using arg_cong [OF append_butlast_last_id [OF p], of set] by simp
  ultimately have before: "f r \<le> f (last ?p)" if "r \<in> set ?p" for r using that by fastforce
  have "filter (\<lambda>r. f (last ?p) < f r) ?p = []" using before by (auto simp: filter_empty_conv not_less)
  moreover have "filter (\<lambda>r. f (last ?p) < f r) (drop l xs) = drop l xs" using after by simp
  ultimately have "filter (\<lambda>r. f (last ?p) < f r) (?p @ drop l xs) = drop l xs" by (simp only: filter_append append_Nil)
  then show ?thesis by simp
qed

lemma next_page_matching:
  assumes "log_ok s" "nat (audit_limit q) < length (audit_matching q (hub_audit_log s))"
  defines "c \<equiv> audit_seq (last (take (nat (audit_limit q)) (audit_matching q (hub_audit_log s))))"
  shows "audit_matching (q\<lparr>aq_cursor := Some c\<rparr>) (hub_audit_log s) =
    drop (nat (audit_limit q)) (audit_matching q (hub_audit_log s))"
proof -
  let ?m = "audit_matching q (hub_audit_log s)"
  have sorted: "sorted_wrt (\<lambda>a b. audit_seq a < audit_seq b) ?m"
    using assms(1) by (simp add: log_ok_def sorted_wrt_map sorted_wrt_filter audit_matching_def)
  have "last (take (nat (audit_limit q)) ?m) \<in> set ?m"
    using assms(2) audit_limit_pos [of q] by (metis in_set_takeD last_in_set length_0_conv less_nat_zero_code take_eq_Nil not_gr_zero)
  then have "(case aq_cursor q of None \<Rightarrow> 0 | Some c \<Rightarrow> c) < c" by (auto simp: audit_matching_def c_def)
  then have "audit_matching (q\<lparr>aq_cursor := Some c\<rparr>) (hub_audit_log s) = filter (\<lambda>r. c < audit_seq r) ?m"
    by (auto simp: audit_matching_def intro!: filter_cong)
  also have "\<dots> = drop (nat (audit_limit q)) ?m"
    unfolding c_def by (rule after_prefix [OF sorted audit_limit_pos assms(2)])
  finally show ?thesis .
qed

text \<open>
  An administrator who follows the cursors reads the audit log exactly once: on a log numbered in
  increasing order, the pages end, and together they are the entries the query asks for, each once
  and in order, whatever the page size; more pages than entries are never needed.
\<close>

theorem audit_pages_cover_log:
  assumes "log_ok s" "length (audit_matching q (hub_audit_log s)) < n"
  shows "read_log n q (hub_audit_log s) = Some (audit_matching q (hub_audit_log s))"
  using assms(2)
proof (induction n arbitrary: q)
  case (Suc n)
  let ?m = "audit_matching q (hub_audit_log s)" and ?l = "nat (audit_limit q)"
  show ?case
  proof (cases "?l < length ?m")
    case True
    from next_page_matching [OF assms(1) True] audit_limit_pos [of q] Suc.prems True
    have "read_log n (q\<lparr>aq_cursor := Some (audit_seq (last (take ?l ?m)))\<rparr>) (hub_audit_log s) = Some (drop ?l ?m)"
      by (subst Suc.IH) auto
    with True show ?thesis by (simp add: audit_page_eq [OF assms(1)] Let_def)
  qed (simp add: audit_page_eq [OF assms(1)] Let_def)
qed simp

definition demo_audit_query :: audit_query where
  "demo_audit_query = \<lparr>aq_event_type = None, aq_since = None, aq_until = None, aq_cursor = None, aq_limit = Some 1\<rparr>"

theorem audit_pages_cover_log_witness:
  "read_log 3 demo_audit_query (hub_audit_log demo_logged) =
     Some [audit_row_of ''a'' 1 5 demo_event, audit_row_of ''b'' 2 6 demo_event] \<and>
   snd (audit_page demo_audit_query (hub_audit_log demo_logged)) = Some 1"
proof -
  have "audit_matching demo_audit_query (hub_audit_log demo_logged) =
      [audit_row_of ''a'' 1 5 demo_event, audit_row_of ''b'' 2 6 demo_event]"
    by (simp add: audit_matching_def demo_audit_query_def demo_logged_def audit_row_of_def audit_filter_def)
  with audit_pages_cover_log [OF demo_log_ok(1), of demo_audit_query 3] audit_page_eq [OF demo_log_ok(1), of demo_audit_query]
  show ?thesis by (simp add: Let_def audit_limit_def demo_audit_query_def audit_row_of_def)
qed

text \<open>
  Entries that share a number, which overlapping publications produce, can be lost between two
  pages: the cursor skips the second one.
\<close>

lemma paging_loses_shared_numbers:
  "read_log 5 demo_audit_query [audit_row_of ''a'' 2 5 demo_event, audit_row_of ''b'' 2 5 demo_event,
     audit_row_of ''c'' 3 6 demo_event] =
   Some [audit_row_of ''a'' 2 5 demo_event, audit_row_of ''c'' 3 6 demo_event]"
  by code_simp

subsection \<open>Webhooks\<close>

lemma or_eq_0: "(a OR b) = (0 :: u8) \<longleftrightarrow> a = 0 \<and> b = 0"
  by (auto simp: bit_eq_iff bit_simps)

lemma xor_eq_0: "(a XOR b) = (0 :: u8) \<longleftrightarrow> a = b"
  by (auto simp: bit_eq_iff bit_simps)

lemma accumulated_differences:
  "foldl (\<lambda>acc (x, y). acc OR (x XOR y)) acc ps = (0 :: u8) \<longleftrightarrow> acc = 0 \<and> (\<forall>(x, y) \<in> set ps. x = y)"
  by (induction ps arbitrary: acc) (auto simp: or_eq_0 xor_eq_0)

text \<open>The comparison that looks at every byte decides equality.\<close>

lemma constant_time_eq_iff: "constant_time_eq a b \<longleftrightarrow> a = b"
proof (cases "length a = length b")
  case True
  then have "(\<forall>(x, y) \<in> set (zip a b). x = y) \<longleftrightarrow> a = b"
    by (induction a b rule: list_induct2) auto
  with True show ?thesis by (simp add: constant_time_eq_def accumulated_differences)
qed (auto simp: constant_time_eq_def)

text \<open>
  A webhook message is posted exactly for the secret of an active webhook: into that webhook's
  channel and under its identity, whatever the request says.
\<close>

theorem webhook_post_iff:
  assumes "keyed webhook_id (webhooks s)"
  shows "(\<exists>t. post_webhook_message K m now i token content name s = (Inr m, t) \<and>
      messages t = messages s @ [plain_message m c i (trim content) now None None]) \<longleftrightarrow>
    (\<exists>w. row_at webhook_id i (webhooks s) = Some w \<and> webhook_active w = 1 \<and> webhook_channel w = c \<and>
      hash_token K token = webhook_token_hash w \<and> trim content \<noteq> [] \<and>
      row_at msg_id m (messages s) = None \<and> channel_exists s c \<and> user_exists s i)" (is "?l \<longleftrightarrow> ?r")
proof
  assume ?l
  then show ?r
    by (auto simp: post_webhook_message_def ok_iffs Let_def post_as_def insert_message_def fetch_live [OF assms]
        constant_time_eq_iff exists_row_iff same_key_def row_at_None_iff plain_message_def send_chat_def split: option.splits if_splits)
next
  assume ?r
  then show ?l
    by (auto simp: post_webhook_message_def run_defs Let_def post_as_def insert_message_def fetch_live [OF assms]
        constant_time_eq_iff writing_def insert_row_def exists_row_iff same_key_def row_at_None_iff plain_message_def send_chat_def)
qed

subsection \<open>Warnings\<close>

lemma mark_all:
  "for_each (\<lambda>x. modify (\<lambda>s. s\<lparr>sessions := update_where (\<lambda>y. session_token y = session_token x)
     (\<lambda>y. y\<lparr>session_warned := Some now\<rparr>) (sessions s)\<rparr>)) xs s =
   (Inr (), s\<lparr>sessions := update_where (\<lambda>y. session_token y \<in> session_token ` set xs)
     (\<lambda>y. y\<lparr>session_warned := Some now\<rparr>) (sessions s)\<rparr>)"
  by (induction xs arbitrary: s) (auto simp: run_defs update_where_def)

lemma tick_run:
  "snd (token_expiry_tick now s) = s\<lparr>sessions := update_where (\<lambda>y. session_token y \<in> session_token ` set (expiring now s))
     (\<lambda>y. y\<lparr>session_warned := Some now\<rparr>) (sessions s)\<rparr>"
  by (simp add: token_expiry_tick_def and_then_def gets_def ret_def mark_all)

text \<open>After a pass nothing is left to warn about at that time, so no session is warned twice.\<close>

lemma tick_warns_all: "expiring now (snd (token_expiry_tick now s)) = []"
  by (auto simp: tick_run expiring_def rows filter_empty_conv)

lemma tick_keeps_warnings:
  "y \<in> set (sessions (snd (token_expiry_tick now s))) \<Longrightarrow>
   \<exists>x \<in> set (sessions s). y = x \<or> (y = x\<lparr>session_warned := Some now\<rparr> \<and>
     session_token x \<in> session_token ` set (expiring now s))"
  by (auto simp: tick_run rows split: if_splits)

subsection \<open>Where the code falls short\<close>

text \<open>Nothing ever fills the queue that bots poll.\<close>

lemma bot_queue_stays_empty:
  assumes "bot_event_queue (bot_hosting s) = []"
  shows "bot_event_queue (bot_hosting (bot_step K lower s op)) = []"
proof -
  let ?P = "\<lambda>t :: hub. bot_event_queue (bot_hosting t) = []"
  have "preserves ?P (insert_bot r)" "preserves ?P (delete_bot_row pk)" "preserves ?P (insert_slash_command c)"
    "preserves ?P (post_as i c0 sender n content now)" "preserves ?P (upsert_bot_profile pk meta now)"
    "preserves ?P (replace_bot_commands pk cmds)" "preserves ?P (insert_subscription q)" "preserves ?P (insert_webhook w)"
    "preserves ?P (insert_user u)" "preserves ?P (insert_user_or_ignore u)" "preserves ?P (update_user pk f)"
    "preserves ?P (delete_user_row pk)" for r pk c i c0 sender n content now meta cmds q w u f
    unfolding insert_bot_def delete_bot_row_def insert_slash_command_def post_as_def upsert_bot_profile_def Let_def
      replace_bot_commands_def insert_bot_command_def insert_subscription_def insert_webhook_def insert_message_def
      insert_user_def insert_user_or_ignore_def update_user_def delete_user_row_def
    by (intro keeps preserves_writing preserves_modify; simp add: put_bots_def put_slash_commands_def delete_where_def)+
  note writes = this
  have "preserves ?P (admin_create_bot K u a b now user n)" "preserves ?P (admin_delete_bot user pk)"
    "preserves ?P (admin_set_webhook user pk url)" "preserves ?P (bot_set_commands K lower now h cmds)"
    "preserves ?P (bot_send_message K u now h c content)" "preserves ?P (bot_ack_events K h ids)"
    "preserves ?P (ext_invite_bot K a now user pk)" "preserves ?P (ext_accept_invite K now pk user meta)"
    "preserves ?P (ext_remove_bot user pk)" "preserves ?P (ext_update_bot_profile now user meta)"
    "preserves ?P (ext_update_bot_commands user cds)" "preserves ?P (ext_update_bot_subscriptions user subs)"
    "preserves ?P (create_webhook K u a now user req)" "preserves ?P (delete_webhook user u)"
    "preserves ?P (post_webhook_message K u now c token content url)"
    for u a b now user n pk url h cmds c content ids meta cds subs req token
    unfolding admin_create_bot_def admin_delete_bot_def admin_set_webhook_def bot_set_commands_def bot_send_message_def
      bot_ack_events_def ext_invite_bot_def ext_accept_invite_def ext_remove_bot_def ext_update_bot_profile_def
      ext_update_bot_commands_def ext_update_bot_subscriptions_def create_webhook_def delete_webhook_def
      post_webhook_message_def Let_def
    by (intro keeps writes preserves_modify preserves_case_prod;
        simp add: put_bots_def put_slash_commands_def put_bot_events_def update_where_def)+
  then show ?thesis using assms by (cases op) (auto simp: preserves_def tick_run)
qed

text \<open>
  A bot that has posted cannot be deleted: its row in \<^verbatim>\<open>bots\<close> goes, the one in \<^verbatim>\<open>users\<close> stays
  because the message refers to it, and the request fails with a database error.
\<close>

definition demo_hosted :: hub where
  "demo_hosted = demo_chat\<lparr>users := users demo_chat @ [(new_user ''bot_1'' 2 ''approved'' None)\<lparr>user_is_bot := 1\<rparr>],
     messages := [plain_message ''m1'' ''c'' ''bot_1'' ''hi'' 3 None None],
     bot_hosting := \<lparr>bots = [\<lparr>bot_key = ''bot_1'', bot_display_name = ''b'', bot_created_by = demo_member, bot_token_hash = ''h'',
       bot_webhook_url = None, bot_created = 2\<rparr>], bot_slash_commands = [], bot_event_queue = []\<rparr>\<rparr>"

lemma deletion_stops_half_way:
  "let (r, t) = admin_delete_bot demo_member ''bot_1'' demo_hosted
   in r = Inl (DbError FOREIGN_KEY) \<and> bots (bot_hosting t) = [] \<and> user_exists t ''bot_1''"
  by (simp add: admin_delete_bot_def require_bot_def require_bot_owner_def run_defs demo_hosted_def row_at_def delete_bot_row_def
      delete_user_row_def writing_def user_exists_def user_referenced_def exists_row_def plain_message_def delete_where_def
      new_user_def)

text \<open>A removed bot keeps its approval: only listings and slash commands look at the flag.\<close>

lemma removed_bot_stays_approved: "approved_bot pk s \<Longrightarrow> approved_bot pk (bot_step K lower s (RemoveBot user pk))"
  using users_after_remove [of K lower s user pk]
  by (auto simp: approved_bot_def row_at_update_any)

text \<open>
  An invitation also lapses into an approval when the bot logs in with its profile, whatever the
  expiry says: the login gate only looks at the pending status.
\<close>

lemma login_approves_expired_invitation:
  assumes "row_at user_key pk (users s) = Some u" "user_is_bot u = 1" "user_approval u = ''bot_pending''"
    and "keyed user_key (users s)" "vr_is_bot req = Some True" "vr_bot_meta req = Some meta" "bm_commands meta = None"
  shows "approved_bot pk (snd (bot_gate pk req now s))"
  using assms
  by (auto simp: bot_gate_def run_defs fetch_live update_user_def register_bot_def upsert_bot_profile_def Let_def writing_def
      upsert_def approved_bot_def row_at_update_where)

text \<open>A channel list with the empty string passes the check for message events and means every channel.\<close>

lemma empty_channel_is_hub_wide:
  "\<not> needs_channels \<lparr>bs_event = ''message.created'', bs_channels = Some [[]]\<rparr> \<and>
   ''bot'' \<in> set (subscribed_bots (initial\<lparr>bot_subscriptions := map (\<lambda>c. \<lparr>sub_bot = ''bot'', sub_event = ''message.created'',
      sub_channel = c\<rparr>) (named_channels \<lparr>bs_event = ''message.created'', bs_channels = Some [[]]\<rparr>)\<rparr>) ''message.created'' (Some ''secret''))"
  by (simp add: needs_channels_def is_message_event_def named_channels_def subscribed_bots_def)

text \<open>Replacing commands is not atomic: a repeated name stops it with the first ones stored.\<close>

lemma command_replacement_is_partial:
  "let (r, t) = replace_bot_commands ''b'' (map (\<lambda>n. \<lparr>bcd_name = n, bcd_description = [], bcd_args = None, bcd_scope = None,
      bcd_privileged = None, bcd_cooldown = None\<rparr>) [''a'', ''a'', ''c'']) initial
   in r = Inl (DbError UNIQUE) \<and> map bc_name (bot_commands t) = [''a'']"
  by (simp add: replace_bot_commands_def run_defs insert_bot_command_def writing_def insert_row_def exists_row_def same_key_def
      delete_where_def initial_def)

end
