(* ===== verification/Calendar.thy ===== *)
theory Calendar
  imports Prelude "HOL-Library.Char_ord" "HOL-Library.List_Lexorder"
begin

text \<open>
  Dates without a library: \<^verbatim>\<open>unix_timestamp_iso\<close> of \<^verbatim>\<open>hub/src/auth/handlers.rs\<close>, \<^verbatim>\<open>iso_from_unix\<close> of
  \<^verbatim>\<open>hub/src/routes/badges.rs\<close> and \<^verbatim>\<open>current_nonce\<close> of \<^verbatim>\<open>hub/src/routes/directory.rs\<close> decompose a
  number of seconds with the same Julian-day arithmetic. The numbers are \<^verbatim>\<open>u64\<close>; no intermediate value
  leaves their range, and no subtraction goes below zero.

  Main result: the arithmetic is the Gregorian calendar, counted day by day from 1 January 1970.
\<close>

subsection \<open>The code\<close>

type_synonym date = "nat \<times> nat \<times> nat"

definition civil_date :: "nat \<Rightarrow> date" where
  "civil_date days =
     (let jdn = days + 2440588;
          l = jdn + 68569;
          n = (4 * l) div 146097;
          l = l - (146097 * n + 3) div 4;
          year_i = (4000 * (l + 1)) div 1461001;
          l = l - (1461 * year_i) div 4 + 31;
          month_i = (80 * l) div 2447;
          day = l - (2447 * month_i) div 80;
          l = month_i div 11;
          month = month_i + 2 - 12 * l;
          year = 100 * (n - 49) + year_i + l
      in (year, month, day))"

text \<open>\<^verbatim>\<open>{:02}\<close> and \<^verbatim>\<open>{:04}\<close>.\<close>

definition pad_zero :: "nat \<Rightarrow> nat \<Rightarrow> string" where
  "pad_zero w n = (let x = show_nat n in replicate (w - length x) (CHR ''0'') @ x)"

definition iso_from_unix :: "nat \<Rightarrow> string" where
  "iso_from_unix secs =
     (let (year, month, day) = civil_date (secs div 86400);
          time_of_day = secs mod 86400;
          hour = time_of_day div 3600;
          minute = (time_of_day mod 3600) div 60;
          second = time_of_day mod 60
      in pad_zero 4 year @ ''-'' @ pad_zero 2 month @ ''-'' @ pad_zero 2 day @ ''T'' @ pad_zero 2 hour @ '':'' @
         pad_zero 2 minute @ '':'' @ pad_zero 2 second @ ''Z'')"

text \<open>\<^verbatim>\<open>unix_timestamp_iso\<close> has the same decomposition and format.\<close>

definition unix_timestamp_iso :: "nat \<Rightarrow> string" where
  "unix_timestamp_iso secs = iso_from_unix secs"

text \<open>The nonce of a directory listing: the minute that \<open>secs\<close> falls in.\<close>

definition current_nonce :: "nat \<Rightarrow> string" where
  "current_nonce now =
     (let secs = now div 60 * 60;
          (year, month, day) = civil_date (secs div 86400);
          time_of_day = secs mod 86400;
          hour = time_of_day div 3600;
          minute = (time_of_day mod 3600) div 60
      in pad_zero 4 year @ ''-'' @ pad_zero 2 month @ ''-'' @ pad_zero 2 day @ ''T'' @ pad_zero 2 hour @ '':'' @
         pad_zero 2 minute @ ''Z'')"

subsection \<open>The calendar\<close>

definition leap_year :: "nat \<Rightarrow> bool" where
  "leap_year y \<longleftrightarrow> 4 dvd y \<and> (100 dvd y \<longrightarrow> 400 dvd y)"

definition month_length :: "nat \<Rightarrow> nat \<Rightarrow> nat" where
  "month_length y m = (if m = 2 then (if leap_year y then 29 else 28) else if m \<in> {4, 6, 9, 11} then 30 else 31)"

fun next_day :: "date \<Rightarrow> date" where
  "next_day (y, m, d) =
     (if d < month_length y m then (y, m, d + 1) else if m < 12 then (y, m + 1, 1) else (y + 1, 1, 1))"

subsection \<open>Centuries, years, days of the year\<close>

text \<open>
  The arithmetic counts years from 1 March, in centuries \<open>n\<close> of 100 such years. A day is a century,
  a year in it and a day of that year.
\<close>

definition day_of :: "nat \<Rightarrow> nat \<Rightarrow> nat \<Rightarrow> date" where
  "day_of n yi doy =
     (let mi = (80 * (doy + 31)) div 2447
      in (100 * (n - 49) + yi + mi div 11, mi + 2 - 12 * (mi div 11), doy + 31 - (2447 * mi) div 80))"

definition century_start :: "nat \<Rightarrow> nat" where
  "century_start n = (146097 * n + 3) div 4"

definition year_start :: "nat \<Rightarrow> nat" where
  "year_start yi = (1461 * yi) div 4"

definition century_length :: "nat \<Rightarrow> nat" where
  "century_length n = (if 4 dvd n then 36525 else 36524)"

lemma century_start_at: "century_start (4 * q + r) = 146097 * q + (146097 * r + 3) div 4"
proof -
  have "146097 * (4 * q + r) + 3 = 4 * (146097 * q) + (146097 * r + 3)" by simp
  then show ?thesis unfolding century_start_def by (simp only: div_mult_self4)
qed

lemma century_end: "century_start (n + 1) = century_start n + century_length n"
proof -
  obtain q r where n: "n = 4 * q + r" and "r < 4" by (metis div_mult_mod_eq mod_less_divisor mult.commute zero_less_numeral)
  then have "4 dvd n \<longleftrightarrow> r = 0" by presburger
  moreover have "century_start (n + 1) = 146097 * q + (146097 * (r + 1) + 3) div 4"
    "century_start n = 146097 * q + (146097 * r + 3) div 4"
    using century_start_at [of q "r + 1"] century_start_at [of q r] n by simp_all
  moreover have "r = 0 \<or> r = 1 \<or> r = 2 \<or> r = 3" using \<open>r < 4\<close> by linarith
  ultimately show ?thesis by (elim disjE) (simp_all add: century_length_def)
qed

lemma century_start_bounds: "146097 * n \<le> 4 * century_start n" "4 * century_start n \<le> 146097 * n + 3"
  by (simp_all add: century_start_def)

lemma century_of:
  assumes "century_start n \<le> l" "l < century_start (n + 1)"
  shows "(4 * l) div 146097 = n"
proof -
  have "146097 * n \<le> 4 * l" "4 * l < 146097 * n + 146097"
    using assms century_start_bounds [of n] century_start_bounds(2) [of "n + 1"] by (simp_all add: Suc_le_eq [symmetric])
  then show ?thesis by (intro div_nat_eqI) auto
qed

lemma year_start_bounds: "1461 * yi \<le> 4 * year_start yi + 3" "4 * year_start yi \<le> 1461 * yi"
  by (simp_all add: year_start_def)

lemma year_of:
  assumes "yi \<le> 99" "year_start yi \<le> l" "l < year_start (yi + 1)"
  shows "(4000 * (l + 1)) div 1461001 = yi"
proof -
  have "1461001 * yi \<le> 4000 * (l + 1)" "4000 * (l + 1) < 1461001 * yi + 1461001"
    using assms year_start_bounds [of yi] year_start_bounds(2) [of "yi + 1"] by simp_all
  then show ?thesis by (intro div_nat_eqI) auto
qed

text \<open>A day given by its parts, and the date the code computes for it.\<close>

definition valid_parts :: "nat \<Rightarrow> nat \<Rightarrow> nat \<Rightarrow> bool" where
  "valid_parts n yi doy \<longleftrightarrow> 49 \<le> n \<and> yi \<le> 99 \<and> year_start yi + doy < year_start (yi + 1) \<and>
     year_start yi + doy < century_length n"

lemma date_of_parts:
  assumes "valid_parts n yi doy" "days + 2509157 = century_start n + year_start yi + doy"
  shows "civil_date days = day_of n yi doy"
proof -
  let ?l = "days + 2440588 + 68569" and ?l1 = "year_start yi + doy"
  have l: "?l = century_start n + ?l1" using assms(2) by simp
  have n: "(4 * ?l) div 146097 = n"
    by (rule century_of) (use assms century_end [of n] in \<open>auto simp: valid_parts_def\<close>)
  have l1: "?l - (146097 * n + 3) div 4 = ?l1"
    using l by (simp add: century_start_def)
  have yi: "(4000 * (?l1 + 1)) div 1461001 = yi"
    by (rule year_of) (use assms(1) in \<open>auto simp: valid_parts_def\<close>)
  have "?l1 - (1461 * yi) div 4 + 31 = doy + 31" by (simp add: year_start_def)
  with n l1 yi show ?thesis unfolding civil_date_def day_of_def Let_def by simp
qed

subsection \<open>Months\<close>

text \<open>Month \<open>mi\<close> of a year that begins in March, counted from 1, starts after \<open>month_start mi - 30\<close> days.\<close>

definition month_start :: "nat \<Rightarrow> nat" where
  "month_start mi = (2447 * mi) div 80"

lemma month_cases:
  fixes mi :: nat
  assumes "1 \<le> mi" "mi \<le> 12"
  obtains "mi = 1" | "mi = 2" | "mi = 3" | "mi = 4" | "mi = 5" | "mi = 6" | "mi = 7" | "mi = 8" | "mi = 9" | "mi = 10"
    | "mi = 11" | "mi = 12"
proof -
  have "mi = 1 \<or> mi = 2 \<or> mi = 3 \<or> mi = 4 \<or> mi = 5 \<or> mi = 6 \<or> mi = 7 \<or> mi = 8 \<or> mi = 9 \<or> mi = 10 \<or> mi = 11 \<or> mi = 12"
    using assms by presburger
  then show thesis using that by blast
qed

lemma month_of:
  assumes "1 \<le> mi" "mi \<le> 12" "month_start mi < l" "l \<le> month_start (mi + 1)"
  shows "(80 * l) div 2447 = mi"
  by (rule month_cases [OF assms(1,2)]; use assms(3,4) in \<open>simp add: month_start_def; intro div_nat_eqI; simp\<close>)

lemma day_of_month:
  assumes "1 \<le> mi" "mi \<le> 12" "doy + 31 = month_start mi + d" "1 \<le> d" "month_start mi + d \<le> month_start (mi + 1)"
  shows "day_of n yi doy = (100 * (n - 49) + yi + mi div 11, mi + 2 - 12 * (mi div 11), d)"
proof -
  have "(80 * (doy + 31)) div 2447 = mi" by (rule month_of) (use assms in auto)
  with assms(3) show ?thesis by (simp add: day_of_def Let_def month_start_def)
qed

lemma month_exists:
  assumes "doy \<le> 365"
  obtains mi d where "1 \<le> mi" "mi \<le> 12" "doy + 31 = month_start mi + d" "1 \<le> d" "month_start mi + d \<le> month_start (mi + 1)"
proof -
  have "\<exists>mi. 1 \<le> mi \<and> mi \<le> 12 \<and> month_start mi < doy + 31 \<and> doy + 31 \<le> month_start (mi + 1)"
  proof (rule ccontr)
    assume no: "\<not> ?thesis"
    have step: "1 \<le> mi \<Longrightarrow> mi \<le> 12 \<Longrightarrow> month_start mi < doy + 31 \<Longrightarrow> month_start (mi + 1) < doy + 31" for mi
      using no by (meson not_le)
    have "mi \<le> 12 \<Longrightarrow> month_start (mi + 1) < doy + 31" for mi
    proof (induction mi)
      case 0
      show ?case by (simp add: month_start_def)
    next
      case (Suc mi)
      with step [of "mi + 1"] show ?case by simp
    qed
    from this [of 12] assms show False by (simp add: month_start_def)
  qed
  then obtain mi where "1 \<le> mi" "mi \<le> 12" "month_start mi < doy + 31" "doy + 31 \<le> month_start (mi + 1)" by blast
  then show thesis by (intro that [of mi "doy + 31 - month_start mi"]) auto
qed

lemma month_lengths:
  "1 \<le> mi \<Longrightarrow> mi \<le> 11 \<Longrightarrow> month_length y (mi + 2 - 12 * (mi div 11)) = month_start (mi + 1) - month_start mi"
  by (rule month_cases [of mi]) (simp_all add: month_length_def month_start_def)

subsection \<open>Leap years\<close>

definition year_length :: "nat \<Rightarrow> nat \<Rightarrow> nat" where
  "year_length n yi = (if (if yi = 99 then 4 dvd n else yi mod 4 = 3) then 366 else 365)"

lemma year_end: "yi \<le> 99 \<Longrightarrow> year_start (yi + 1) = year_start yi + (if yi mod 4 = 3 then 366 else 365)"
proof -
  obtain q r where y: "yi = 4 * q + r" and "r < 4" by (metis div_mult_mod_eq mod_less_divisor mult.commute zero_less_numeral)
  have at: "year_start (4 * q + x) = 1461 * q + (1461 * x) div 4" for x
  proof -
    have "1461 * (4 * q + x) = 4 * (1461 * q) + 1461 * x" by simp
    then show ?thesis unfolding year_start_def by (simp only: div_mult_self4)
  qed
  have "year_start (yi + 1) = 1461 * q + (1461 * (r + 1)) div 4" "year_start yi = 1461 * q + (1461 * r) div 4"
    using at [of "r + 1"] at [of r] y by simp_all
  moreover have "yi mod 4 = r" using y \<open>r < 4\<close> by simp
  moreover have "r = 0 \<or> r = 1 \<or> r = 2 \<or> r = 3" using \<open>r < 4\<close> by linarith
  ultimately show ?thesis by (elim disjE) simp_all
qed

lemma valid_parts_iff: "valid_parts n yi doy \<longleftrightarrow> 49 \<le> n \<and> yi \<le> 99 \<and> doy < year_length n yi"
proof (cases "yi \<le> 99")
  case True
  have "year_start 99 = 36159" by (simp add: year_start_def)
  moreover have "year_start yi + 366 \<le> 36160" if "yi < 99"
    using that year_start_bounds(2) [of yi] by simp
  moreover have "36524 \<le> century_length n" by (simp add: century_length_def)
  ultimately show ?thesis
    using True year_end [OF True] by (cases "yi = 99") (auto simp: valid_parts_def year_length_def century_length_def)
qed (simp add: valid_parts_def)

lemma leap_iff:
  assumes "49 \<le> n" "yi \<le> 99"
  shows "leap_year (100 * (n - 49) + yi + 1) \<longleftrightarrow> year_length n yi = 366"
proof (cases "yi = 99")
  case True
  then have "100 * (n - 49) + yi + 1 = 100 * (n - 48)" using assms(1) by simp
  moreover have "400 dvd 100 * (n - 48) \<longleftrightarrow> 4 dvd n - 48"
    using dvd_times_left_cancel_iff [of "100 :: nat" 4 "n - 48"] by simp
  moreover have "4 dvd n - 48 \<longleftrightarrow> 4 dvd n" using assms(1) by presburger
  ultimately show ?thesis using True by (simp add: leap_year_def year_length_def)
next
  case False
  then have "\<not> 100 dvd yi + 1" using assms(2) nat_dvd_not_less [of "yi + 1" 100] by simp
  then have "\<not> 100 dvd 100 * (n - 49) + (yi + 1)" by (subst dvd_add_right_iff) simp_all
  moreover have "4 dvd 100 * (n - 49) + (yi + 1) \<longleftrightarrow> 4 dvd yi + 1"
    by (rule dvd_add_right_iff) (rule dvd_mult2, simp)
  moreover have "4 dvd yi + 1 \<longleftrightarrow> yi mod 4 = 3" by presburger
  ultimately show ?thesis using False by (simp add: leap_year_def year_length_def)
qed

subsection \<open>Day by day\<close>

lemma february: "mi = 12 \<Longrightarrow> mi + 2 - 12 * (mi div 11) = 2 \<and> mi div 11 = 1" for mi :: nat
  by simp

lemma next_day_in_year:
  assumes "49 \<le> n" "yi \<le> 99" "doy + 1 < year_length n yi"
  shows "day_of n yi (doy + 1) = next_day (day_of n yi doy)"
proof -
  have "year_length n yi \<le> 366" by (simp add: year_length_def)
  with assms(3) have "doy \<le> 365" "doy + 1 \<le> 365" by simp_all
  then obtain mi d where md: "1 \<le> mi" "mi \<le> 12" "doy + 31 = month_start mi + d" "1 \<le> d"
    "month_start mi + d \<le> month_start (mi + 1)" using month_exists by blast
  note today = day_of_month [OF md]
  show ?thesis
  proof (cases "mi \<le> 11 \<and> month_start mi + d = month_start (mi + 1)")
    case True
    with md have "1 \<le> mi + 1" "mi + 1 \<le> 12" "doy + 1 + 31 = month_start (mi + 1) + 1" by simp_all
    moreover have "month_start (mi + 1) + 1 \<le> month_start (mi + 1 + 1)" by (simp add: month_start_def)
    ultimately have tomorrow: "day_of n yi (doy + 1) =
        (100 * (n - 49) + yi + (mi + 1) div 11, mi + 1 + 2 - 12 * ((mi + 1) div 11), 1)" by (intro day_of_month) simp_all
    have "month_start (mi + 1) - month_start mi = d" using True by (metis diff_add_inverse)
    then have "d = month_length y (mi + 2 - 12 * (mi div 11))" for y using month_lengths [of mi y] True md(1) by simp
    then have "next_day (day_of n yi doy) = (if mi + 2 - 12 * (mi div 11) < 12
        then (100 * (n - 49) + yi + mi div 11, mi + 2 - 12 * (mi div 11) + 1, 1) else (100 * (n - 49) + yi + mi div 11 + 1, 1, 1))"
      unfolding today next_day.simps by simp
    then show ?thesis by (rule ssubst) (rule month_cases [OF md(1,2)]; use tomorrow True in simp)
  next
    case False
    have more: "d < month_length (100 * (n - 49) + yi + mi div 11) (mi + 2 - 12 * (mi div 11)) \<and>
        month_start mi + (d + 1) \<le> month_start (mi + 1)"
    proof (cases "mi = 12")
      case True
      have "month_start 12 = 367" "month_start 13 = 397" by (simp_all add: month_start_def)
      with True md(3) assms(3) have "336 + d + 1 < year_length n yi" by simp
      moreover have "year_length n yi = (if leap_year (100 * (n - 49) + yi + 1) then 366 else 365)"
        using leap_iff [OF assms(1,2)] by (auto simp: year_length_def)
      ultimately show ?thesis
        using True \<open>month_start 12 = 367\<close> \<open>month_start 13 = 397\<close> by (auto simp: month_length_def split: if_splits)
    next
      case not12: False
      with md month_lengths [of mi "100 * (n - 49) + yi + mi div 11"] False show ?thesis by simp
    qed
    have "day_of n yi (doy + 1) = (100 * (n - 49) + yi + mi div 11, mi + 2 - 12 * (mi div 11), d + 1)"
      by (rule day_of_month) (use md more in simp_all)
    with today more show ?thesis by simp
  qed
qed

lemma next_day_after_year:
  assumes "49 \<le> n" "yi \<le> 99" "doy + 1 = year_length n yi"
  shows "next_day (day_of n yi doy) = (100 * (n - 49) + yi + 1, 3, 1)"
proof -
  have ms: "month_start 12 = 367" "month_start 13 = 397" by (simp_all add: month_start_def)
  have "day_of n yi doy = (100 * (n - 49) + yi + 12 div 11, 12 + 2 - 12 * (12 div 11), doy - 336)"
    by (rule day_of_month) (use assms(3) ms in \<open>auto simp: year_length_def split: if_splits\<close>)
  moreover have "doy - 336 = month_length (100 * (n - 49) + yi + 1) 2"
    using assms(3) leap_iff [OF assms(1,2)] by (auto simp: month_length_def year_length_def split: if_splits)
  ultimately show ?thesis by simp
qed

lemma first_of_march: "day_of n yi 0 = (100 * (n - 49) + yi, 3, 1)"
  by (simp add: day_of_def)

text \<open>The parts of the next day.\<close>

lemma next_parts:
  assumes "valid_parts n yi doy"
  obtains n' yi' doy' where "valid_parts n' yi' doy'"
    "century_start n' + year_start yi' + doy' = century_start n + year_start yi + doy + 1"
    "day_of n' yi' doy' = next_day (day_of n yi doy)"
proof -
  from assms have v: "49 \<le> n" "yi \<le> 99" "doy < year_length n yi" by (simp_all add: valid_parts_iff)
  consider "doy + 1 < year_length n yi" | "doy + 1 = year_length n yi" "yi < 99" | "doy + 1 = year_length n yi" "yi = 99"
    using v by linarith
  then show thesis
  proof cases
    case 1
    with v next_day_in_year [OF v(1,2) 1] show thesis by (intro that [of n yi "doy + 1"]) (simp_all add: valid_parts_iff)
  next
    case 2
    with v next_day_after_year [OF v(1,2) 2(1)] year_end [of yi] show thesis
      by (intro that [of n "yi + 1" 0]) (auto simp: valid_parts_iff first_of_march year_length_def)
  next
    case 3
    have "year_start 99 = 36159" "year_start 0 = 0" by (simp_all add: year_start_def)
    with v 3 next_day_after_year [OF v(1,2) 3(1)] century_end [of n] show thesis
      by (intro that [of "n + 1" 0 0]) (auto simp: valid_parts_iff first_of_march year_length_def century_length_def)
  qed
qed

lemma parts_exist:
  "\<exists>n yi doy. valid_parts n yi doy \<and> days + 2509157 = century_start n + year_start yi + doy \<and>
     day_of n yi doy = (next_day ^^ days) (1970, 1, 1)"
proof (induction days)
  case 0
  have "valid_parts 68 69 306" by (simp add: valid_parts_iff year_length_def)
  moreover have "2509157 = century_start 68 + year_start 69 + 306" by (simp add: century_start_def year_start_def)
  moreover have "day_of 68 69 306 = (1970, 1, 1)" by (simp add: day_of_def)
  ultimately show ?case by fastforce
next
  case (Suc days)
  then obtain n yi doy where parts: "valid_parts n yi doy" "days + 2509157 = century_start n + year_start yi + doy"
    "day_of n yi doy = (next_day ^^ days) (1970, 1, 1)" by blast
  from next_parts [OF parts(1)] obtain n' yi' doy' where "valid_parts n' yi' doy'"
    "century_start n' + year_start yi' + doy' = century_start n + year_start yi + doy + 1"
    "day_of n' yi' doy' = next_day (day_of n yi doy)" by blast
  with parts show ?case by (intro exI [of _ n'] exI [of _ yi'] exI [of _ doy']) simp
qed

lemma civil_date_iterates: "civil_date days = (next_day ^^ days) (1970, 1, 1)"
proof -
  obtain n yi doy where parts: "valid_parts n yi doy" "days + 2509157 = century_start n + year_start yi + doy"
    "day_of n yi doy = (next_day ^^ days) (1970, 1, 1)" using parts_exist by blast
  from date_of_parts [OF parts(1,2)] parts(3) show ?thesis by simp
qed

text \<open>The subtractions of the code are those of natural numbers: none goes below zero.\<close>

lemma no_subtraction_underflows:
  "let l = (days :: nat) + 2509157; n = (4 * l) div 146097; l1 = l - (146097 * n + 3) div 4;
       yi = (4000 * (l1 + 1)) div 1461001; l2 = l1 - (1461 * yi) div 4 + 31; mi = (80 * l2) div 2447
   in (146097 * n + 3) div 4 \<le> l \<and> 49 \<le> n \<and> (1461 * yi) div 4 \<le> l1 \<and> (2447 * mi) div 80 \<le> l2 \<and>
      12 * (mi div 11) \<le> mi + 2"
proof -
  obtain n yi doy where v: "valid_parts n yi doy" and l: "days + 2509157 = century_start n + (year_start yi + doy)"
    using parts_exist [of days] by (auto simp: add.assoc)
  have n: "(4 * (days + 2509157)) div 146097 = n"
    by (rule century_of) (use v l century_end [of n] in \<open>auto simp: valid_parts_def\<close>)
  have l1: "days + 2509157 - (146097 * n + 3) div 4 = year_start yi + doy" "(146097 * n + 3) div 4 \<le> days + 2509157"
    using l by (simp_all add: century_start_def)
  have yi: "(4000 * (year_start yi + doy + 1)) div 1461001 = yi"
    by (rule year_of) (use v in \<open>auto simp: valid_parts_def\<close>)
  have "doy \<le> 365" using v by (auto simp: valid_parts_iff year_length_def split: if_splits)
  then have "80 * (doy + 31) \<le> 31680" by simp
  from div_le_mono [OF this, of 2447] have "(80 * (doy + 31)) div 2447 \<le> 12" by simp
  moreover have "12 * (mi div 11) \<le> mi + 2" if "mi \<le> 12" for mi :: nat
  proof (cases "mi < 11")
    case False
    with that have "mi = 11 \<or> mi = 12" by auto
    then show ?thesis by auto
  qed simp
  ultimately have "12 * ((80 * (doy + 31)) div 2447 div 11) \<le> (80 * (doy + 31)) div 2447 + 2" by blast
  moreover have "(2447 * ((80 * (doy + 31)) div 2447)) div 80 \<le> doy + 31"
    using div_le_mono [OF times_div_less_eq_dividend [of 2447 "80 * (doy + 31)"], of 80] by simp
  moreover have "49 \<le> n" using v by (simp add: valid_parts_def)
  ultimately show ?thesis
    unfolding Let_def n l1(1) yi using l1(2) by (simp add: year_start_def)
qed

subsection \<open>Comparing timestamps as strings\<close>

lemma digits_less:
  assumes "length xs = length ys" "parse_digits a xs = Some m" "parse_digits b ys = Some n"
  shows "(a < b \<longrightarrow> m < n) \<and> (b < a \<longrightarrow> n < m) \<and> (a = b \<longrightarrow> (xs < ys \<longleftrightarrow> m < n) \<and> (xs = ys \<longleftrightarrow> m = n))"
  using assms
proof (induction xs ys arbitrary: a b rule: list_induct2)
  case (Cons x xs y ys)
  let ?x = "of_char x :: nat" and ?y = "of_char y :: nat"
  from Cons.prems have d: "48 \<le> ?x" "?x \<le> 57" "48 \<le> ?y" "?y \<le> 57"
    and p: "parse_digits (a * 10 + (?x - 48)) xs = Some m" "parse_digits (b * 10 + (?y - 48)) ys = Some n"
    by (auto simp: Let_def split: if_splits)
  have order: "x < y \<longleftrightarrow> ?x < ?y" "x = y \<longleftrightarrow> ?x = ?y" by (simp_all add: less_char_def)
  consider "?x < ?y" | "?y < ?x" | "?x = ?y" by linarith
  then show ?case
  proof cases
    case 3
    with order Cons.IH [OF p] show ?thesis by auto
  qed (use d order Cons.IH [OF p] in auto)
qed simp

text \<open>Fields of a fixed width compare like their numbers, one after the other.\<close>

lemma show_nat_length: "n < 10 ^ w \<Longrightarrow> 0 < w \<Longrightarrow> length (show_nat n) \<le> w"
proof (induction w arbitrary: n)
  case (Suc w)
  show ?case
  proof (cases "n < 10")
    case False
    with Suc.prems have "n div 10 < 10 ^ w" "0 < w" by (auto intro: Nat.gr0I)
    with Suc.IH show ?thesis by (simp add: show_nat.simps [of n])
  qed (simp add: show_nat.simps [of n])
qed simp

lemma pad_zero_length: "n < 10 ^ w \<Longrightarrow> 0 < w \<Longrightarrow> length (pad_zero w n) = w"
  using show_nat_length [of n w] by (simp add: pad_zero_def Let_def)

lemma pad_zero_parse: "parse_digits 0 (pad_zero w n) = Some n"
proof -
  have "parse_digits 0 (replicate k (CHR ''0'') @ xs) = parse_digits 0 xs" for k xs
    by (induction k) (simp_all add: Let_def)
  then show ?thesis by (simp add: pad_zero_def Let_def parse_show_nat)
qed

lemma field_less:
  assumes "m < 10 ^ w" "n < 10 ^ w" "0 < w"
  shows "pad_zero w m @ u < pad_zero w n @ v \<longleftrightarrow> m < n \<or> m = n \<and> u < v"
proof -
  have prefix: "xs @ u < ys @ v \<longleftrightarrow> xs < ys \<or> xs = ys \<and> u < v" if "length xs = length ys" for xs ys u v :: string
    using that by (induction xs ys rule: list_induct2) auto
  have "length (pad_zero w m) = length (pad_zero w n)" by (simp add: pad_zero_length assms)
  with prefix [OF this, of u v] digits_less [OF this pad_zero_parse pad_zero_parse] show ?thesis by simp
qed

text \<open>The fields stay in range as long as the year has four digits.\<close>

fun date_less :: "date \<Rightarrow> date \<Rightarrow> bool" where
  "date_less (y, m, d) (y', m', d') \<longleftrightarrow> y < y' \<or> y = y' \<and> (m < m' \<or> m = m' \<and> d < d')"

lemma date_less_trans: "date_less a b \<Longrightarrow> date_less b c \<Longrightarrow> date_less a c"
  by (cases a; cases b; cases c) auto

lemma civil_date_Suc: "civil_date (Suc d) = next_day (civil_date d)"
  by (simp add: civil_date_iterates)

lemma civil_date_mono: "a < b \<Longrightarrow> date_less (civil_date a) (civil_date b)"
proof (induction b)
  case (Suc b)
  have step: "date_less (civil_date b) (civil_date (Suc b))"
    unfolding civil_date_Suc by (cases "civil_date b") simp
  with Suc date_less_trans show ?case by (cases "a = b") auto
qed simp

lemma civil_date_fields: "civil_date n = (y, m, d) \<Longrightarrow> m \<le> 12 \<and> d \<le> 31"
proof (induction n arbitrary: y m d)
  case 0
  then show ?case by (simp add: civil_date_iterates)
next
  case (Suc n)
  obtain y' m' d' where "civil_date n = (y', m', d')" by (cases "civil_date n")
  with Suc.IH [OF this] Suc.prems show ?case
    by (auto simp: civil_date_Suc month_length_def split: if_splits)
qed

definition YEAR_10000 :: nat where
  "YEAR_10000 = 2932897 * 86400"

lemma civil_date_four_digits:
  assumes "n < 2932897" "civil_date n = (y, m, d)"
  shows "y \<le> 9999"
proof -
  have last: "civil_date 2932896 = (9999, 12, 31)" unfolding civil_date_def Let_def by simp
  show ?thesis
  proof (cases "n = 2932896")
    case True
    with last assms(2) show ?thesis by simp
  next
    case False
    with assms(1) have "n < 2932896" by linarith
    from civil_date_mono [OF this] have "date_less (y, m, d) (9999, 12, 31)" by (simp only: last assms(2))
    then show ?thesis by auto
  qed
qed

lemma time_fields: "c mod 86400 div 3600 < 24" "c mod 86400 mod 3600 div 60 < 60" "c mod 86400 mod 60 < (60 :: nat)"
  by (simp_all add: less_mult_imp_div_less)

lemma less_by_parts: "x < y \<longleftrightarrow> x div k < y div k \<or> x div k = y div k \<and> x mod k < y mod k" for x y k :: nat
proof (cases "x div k = y div k")
  case True
  then have "x < y \<longleftrightarrow> x mod k < y mod k" by (metis add_less_cancel_left mult_div_mod_eq)
  with True show ?thesis by simp
next
  case False
  then show ?thesis using div_le_mono [of x y k] div_le_mono [of y x k] by (cases "x < y") (auto simp: not_less less_le)
qed

lemma time_less:
  "c mod 86400 < e mod 86400 \<longleftrightarrow>
   c mod 86400 div 3600 < e mod 86400 div 3600 \<or> c mod 86400 div 3600 = e mod 86400 div 3600 \<and>
   (c mod 86400 mod 3600 div 60 < e mod 86400 mod 3600 div 60 \<or> c mod 86400 mod 3600 div 60 = e mod 86400 mod 3600 div 60 \<and>
    c mod 86400 mod 60 < e mod 86400 mod (60 :: nat))"
proof -
  have "z mod 3600 mod 60 = z mod 60" for z :: nat by (simp add: mod_mod_cancel)
  with less_by_parts [of "c mod 86400" "e mod 86400" 3600] less_by_parts [of "c mod 86400 mod 3600" "e mod 86400 mod 3600" 60]
  show ?thesis by simp
qed

lemma date_less_iff: "date_less (civil_date a) (civil_date b) \<longleftrightarrow> a < b"
proof -
  have irrefl: "\<not> date_less x x" for x by (cases x) simp
  consider "a < b" | "a = b" | "b < a" by linarith
  then show ?thesis
    by cases (use civil_date_mono irrefl date_less_trans in blast)+
qed

lemma iso_less_iff:
  assumes "a < YEAR_10000" "b < YEAR_10000"
  shows "iso_from_unix a < iso_from_unix b \<longleftrightarrow> a < b"
proof -
  obtain y m d where a: "civil_date (a div 86400) = (y, m, d)" by (metis prod_cases3)
  obtain y' m' d' where b: "civil_date (b div 86400) = (y', m', d')" by (metis prod_cases3)
  have "a div 86400 < 2932897" "b div 86400 < 2932897"
    using assms by (simp_all add: YEAR_10000_def less_mult_imp_div_less)
  then have bounds: "y < 10000" "y' < 10000" "m < 100" "m' < 100" "d < 100" "d' < 100"
    using civil_date_four_digits [OF _ a] civil_date_four_digits [OF _ b] civil_date_fields [OF a] civil_date_fields [OF b]
    by simp_all
  have times: "c mod 86400 div 3600 < 100" "c mod 86400 mod 3600 div 60 < 100" "c mod 86400 mod 60 < (100 :: nat)" for c
    using time_fields [of c] by simp_all
  have "iso_from_unix a < iso_from_unix b \<longleftrightarrow> date_less (y, m, d) (y', m', d') \<or>
      (y, m, d) = (y', m', d') \<and> a mod 86400 < b mod 86400"
    unfolding iso_from_unix_def a b Let_def prod.case
    by (simp add: field_less bounds times time_less) blast
  also have "\<dots> \<longleftrightarrow> a div 86400 < b div 86400 \<or> a div 86400 = b div 86400 \<and> a mod 86400 < b mod 86400"
    using date_less_iff [of "a div 86400" "b div 86400"] date_less_iff [of "b div 86400" "a div 86400"] a b
    by (metis date_less.simps less_irrefl_nat linorder_neqE_nat)
  also have "\<dots> \<longleftrightarrow> a < b" by (rule less_by_parts [symmetric])
  finally show ?thesis .
qed

text \<open>
  C40. The hub's calendar is right: for every number of days the Julian-day arithmetic gives the
  Gregorian date reached by counting day by day from 1 January 1970, and two timestamps before the
  year 10000 compare as strings, which is how expiry dates are checked, exactly as they compare as
  times.
\<close>

theorem timestamps_are_gregorian:
  "civil_date days = (next_day ^^ days) (1970, 1, 1) \<and>
   (a < YEAR_10000 \<and> b < YEAR_10000 \<longrightarrow> (iso_from_unix a \<le> iso_from_unix b \<longleftrightarrow> a \<le> b))"
  using civil_date_iterates iso_less_iff [of b a] by (simp add: not_less [symmetric])

theorem timestamps_are_gregorian_witness:
  "civil_date 20583 = (2026, 5, 10) \<and> iso_from_unix 1778443200 \<le> iso_from_unix 1778443201"
proof -
  have "civil_date 20583 = (2026, 5, 10)" unfolding civil_date_def Let_def by simp
  with timestamps_are_gregorian [of 20583 1778443200 1778443201] show ?thesis by (simp add: YEAR_10000_def)
qed

text \<open>
  After that they do not: a badge that expires in the year 10000 or later counts as expired at
  once, because its year starts with the digit 1.
\<close>

lemma far_future_sorts_first: "iso_from_unix YEAR_10000 < iso_from_unix 1778443200"
proof -
  have y: "show_nat 10000 = ''10000''" "show_nat 2026 = ''2026''" by (simp_all add: show_nat.simps char_of_def bit_0)
  have "civil_date (YEAR_10000 div 86400) = (10000, 1, 1)" "civil_date (1778443200 div 86400) = (2026, 5, 10)"
    unfolding civil_date_def Let_def YEAR_10000_def by simp_all
  with y show ?thesis by (simp add: iso_from_unix_def Let_def pad_zero_def less_char_def)
qed

end
