(* ===== verification/Settings.thy ===== *)
theory Settings
  imports Bots Calendar "HOL-Library.Option_ord" "HOL-Library.Multiset"
begin

text \<open>
  The hub's settings, members and public face, from \<^verbatim>\<open>hub/src/routes/hub.rs\<close>, \<^verbatim>\<open>users.rs\<close>, \<^verbatim>\<open>me.rs\<close>,
  \<^verbatim>\<open>profile.rs\<close>, \<^verbatim>\<open>hub_icons.rs\<close>, \<^verbatim>\<open>tags.rs\<close> and \<^verbatim>\<open>directory.rs\<close> of the same directory. The name given at
  start-up and the hub's identity are arguments, as are the JSON codec of the tag list and the text
  \<^verbatim>\<open>serde_json\<close> gives to a value.

  Main results: settings, approvals and tags change only for administrators, and what is stored as
  tags is always well formed; a profile the hub hands out was signed by its owner; the listing
  payload does not depend on the order of the tags and its signature verifies.
\<close>

subsection \<open>Settings\<close>

definition upsert_setting :: "string \<Rightarrow> string \<Rightarrow> unit hub_handler" where
  "upsert_setting k v =
     writing (\<lambda>s. upsert (same_key setting_key) True \<lparr>setting_key = k, setting_value = v\<rparr> (\<lambda>r. r\<lparr>setting_value := v\<rparr>)
         (hub_settings s))
       (\<lambda>t s. s\<lparr>hub_settings := t\<rparr>)"

definition require_admin :: "string \<Rightarrow> unit hub_handler" where
  "require_admin user = and_then (gets (user_permissions user)) (\<lambda>perms. require_permission perms ADMIN)"

record update_hub_request =
  uh_name :: "string option"
  uh_description :: "string option"
  uh_icon :: "string option"
  uh_require_approval :: "bool option"
  uh_min_security_level :: "nat option"
  uh_max_channel_depth :: "nat option"

definition upsert_optional :: "string \<Rightarrow> string option \<Rightarrow> unit hub_handler" where
  "upsert_optional k x = (case x of None \<Rightarrow> ret () | Some v \<Rightarrow> upsert_setting k v)"

definition show_flag :: "bool \<Rightarrow> string" where
  "show_flag b = (if b then ''true'' else ''false'')"

definition update_hub :: "string \<Rightarrow> update_hub_request \<Rightarrow> status_code hub_handler" where
  "update_hub user req =
     and_then (require_admin user) (\<lambda>_.
     and_then (case uh_name req of None \<Rightarrow> ret ()
       | Some n \<Rightarrow> and_then (check (trim n \<noteq> []) (Reject BAD_REQUEST ''Name cannot be empty'')) (\<lambda>_.
           upsert_setting ''hub_name'' (trim n))) (\<lambda>_.
     and_then (upsert_optional ''hub_description'' (uh_description req)) (\<lambda>_.
     and_then (upsert_optional ''hub_icon'' (uh_icon req)) (\<lambda>_.
     and_then (upsert_optional ''require_approval'' (map_option show_flag (uh_require_approval req))) (\<lambda>_.
     and_then (upsert_optional ''min_security_level'' (map_option show_nat (uh_min_security_level req))) (\<lambda>_.
     and_then (upsert_optional ''max_channel_depth'' (map_option show_nat (uh_max_channel_depth req))) (\<lambda>_.
     ret OK)))))))"

definition list_pending_users :: "string \<Rightarrow> (string \<times> string option \<times> int) list hub_handler" where
  "list_pending_users user =
     and_then (require_admin user) (\<lambda>_.
     gets (\<lambda>s. map (\<lambda>u. (user_key u, user_display_name u, user_first_seen u))
       (sort_key user_first_seen (filter (\<lambda>u. user_approval u = ''pending'') (users s)))))"

definition approve_user :: "string \<Rightarrow> string \<Rightarrow> status_code hub_handler" where
  "approve_user user target =
     and_then (require_admin user) (\<lambda>_.
     and_then (update_user target (\<lambda>u. u\<lparr>user_approval := ''approved''\<rparr>)) (\<lambda>_.
     ret OK))"

definition get_pow_settings :: "string \<Rightarrow> nat hub_handler" where
  "get_pow_settings user = and_then (require_admin user) (\<lambda>_. gets (number_setting ''min_pow_level'' 256))"

definition patch_pow_settings :: "string \<Rightarrow> u8 \<Rightarrow> status_code hub_handler" where
  "patch_pow_settings user level =
     and_then (require_admin user) (\<lambda>_.
     and_then (upsert_setting ''min_pow_level'' (show_nat (unat level))) (\<lambda>_. ret OK))"

definition get_channel_depth :: "string \<Rightarrow> nat hub_handler" where
  "get_channel_depth user = and_then (require_admin user) (\<lambda>_. gets (number_setting ''max_channel_depth'' (2 ^ 32)))"

definition patch_channel_depth :: "string \<Rightarrow> u32 \<Rightarrow> status_code hub_handler" where
  "patch_channel_depth user d =
     and_then (require_admin user) (\<lambda>_.
     and_then (upsert_setting ''max_channel_depth'' (show_nat (unat d))) (\<lambda>_. ret OK))"

definition flag_setting :: "string \<Rightarrow> hub \<Rightarrow> bool" where
  "flag_setting k s \<longleftrightarrow> setting k s = Some ''true''"

record hub_settings_view =
  hs_require_approval :: bool
  hs_invite_only :: bool
  hs_min_security_level :: nat
  hs_max_channel_depth :: nat

definition get_hub_settings :: "string \<Rightarrow> hub_settings_view hub_handler" where
  "get_hub_settings user =
     and_then (require_admin user) (\<lambda>_.
     gets (\<lambda>s. \<lparr>hs_require_approval = flag_setting ''require_approval'' s, hs_invite_only = flag_setting ''invite_only'' s,
       hs_min_security_level = number_setting ''min_security_level'' (2 ^ 32) s,
       hs_max_channel_depth = number_setting ''max_channel_depth'' (2 ^ 32) s\<rparr>))"

record hub_branding =
  br_name :: string
  br_description :: "string option"
  br_icon :: "string option"

definition current_hub_name :: "string \<Rightarrow> hub \<Rightarrow> string" where
  "current_hub_name start_name s = (case setting ''hub_name'' s of None \<Rightarrow> start_name | Some n \<Rightarrow> n)"

definition read_branding :: "string \<Rightarrow> hub \<Rightarrow> hub_branding" where
  "read_branding start_name s = \<lparr>br_name = current_hub_name start_name s, br_description = setting ''hub_description'' s,
     br_icon = setting ''hub_icon'' s\<rparr>"

subsection \<open>Members\<close>

definition fetch_user_roles :: "hub \<Rightarrow> string \<Rightarrow> role_response list" where
  "fetch_user_roles s pk =
     map (\<lambda>r. to_response r (role_permission_names s (role_id r))) (by_priority_desc (roles_of s pk))"

record member_info =
  mi_key :: string
  mi_display_name :: "string option"
  mi_online :: bool
  mi_first_seen :: int
  mi_last_seen :: int
  mi_roles :: "role_response list"
  mi_is_bot :: bool

definition list_members :: "string \<Rightarrow> member_info list hub_handler" where
  "list_members user =
     and_then (require_admin user) (\<lambda>_.
     gets (\<lambda>s. map (\<lambda>u. \<lparr>mi_key = user_key u, mi_display_name = user_display_name u,
         mi_online = (user_key u \<in> online_users (live s)), mi_first_seen = user_first_seen u,
         mi_last_seen = user_last_seen u, mi_roles = fetch_user_roles s (user_key u), mi_is_bot = (user_is_bot u \<noteq> 0)\<rparr>)
       (sort_key user_first_seen (users s))))"

text \<open>SQLite's \<^verbatim>\<open>LIKE\<close>: ASCII letters without case, \<^verbatim>\<open>%\<close> any text, \<^verbatim>\<open>_\<close> one character.\<close>

definition ascii_lower :: "char \<Rightarrow> nat" where
  "ascii_lower c = (let n = of_char c in if 65 \<le> n \<and> n \<le> 90 then n + 32 else n)"

lemma skip_char_shorter: "x \<noteq> [] \<Longrightarrow> length (dropWhile continues_char (tl x)) < length x"
  using length_dropWhile_le [of continues_char "tl x"] by (cases x) auto

function sql_like :: "string \<Rightarrow> string \<Rightarrow> bool" where
  "sql_like [] x \<longleftrightarrow> x = []"
| "sql_like (p # ps) x \<longleftrightarrow>
     (if p = CHR ''%'' then sql_like ps x \<or> (if x = [] then False else sql_like (p # ps) (dropWhile continues_char (tl x)))
      else if x = [] then False
      else if p = CHR ''_'' then sql_like ps (dropWhile continues_char (tl x))
      else ascii_lower p = ascii_lower (hd x) \<and> sql_like ps (tl x))"
  by pat_completeness auto
termination
  by (relation "measure (\<lambda>(p, x). length p + length x)") (auto dest: skip_char_shorter)

declare sql_like.simps [simp del]

record user_info =
  ui_key :: string
  ui_display_name :: "string option"
  ui_avatar :: "string option"
  ui_online :: bool
  ui_group_role :: "string option"
  ui_is_bot :: bool

definition group_role_of :: "hub \<Rightarrow> string \<Rightarrow> string option" where
  "group_role_of s pk =
     (case by_priority_desc (filter (\<lambda>r. role_display_separately r = 1) (roles_of s pk)) of
        [] \<Rightarrow> None | r # _ \<Rightarrow> Some (role_name r))"

definition user_info_of :: "hub \<Rightarrow> string option \<Rightarrow> user_row \<Rightarrow> user_info" where
  "user_info_of s g u = \<lparr>ui_key = user_key u, ui_display_name = user_display_name u, ui_avatar = user_avatar u,
     ui_online = (user_key u \<in> online_users (live s)), ui_group_role = g, ui_is_bot = (user_is_bot u \<noteq> 0)\<rparr>"

definition by_name :: "user_row list \<Rightarrow> user_row list" where
  "by_name us = sort_key (\<lambda>u. (user_display_name u, user_key u)) us"

definition matches_search :: "string \<Rightarrow> user_row \<Rightarrow> bool" where
  "matches_search q u \<longleftrightarrow>
     (let p = ''%'' @ q @ ''%'' in
      (case user_display_name u of None \<Rightarrow> False | Some n \<Rightarrow> sql_like p n) \<or> sql_like p (user_key u))"

definition list_users :: "string option \<Rightarrow> user_info list hub_handler" where
  "list_users q = gets (\<lambda>s. map (\<lambda>u. user_info_of s (group_role_of s (user_key u)) u)
     (take 50 (by_name (filter (\<lambda>u. case q of None \<Rightarrow> True | Some x \<Rightarrow> matches_search x u) (users s)))))"

definition channel_members :: "string \<Rightarrow> user_info list hub_handler" where
  "channel_members c = gets (\<lambda>s. map (user_info_of s None)
     (by_name (filter (\<lambda>u. \<not> exists_row (\<lambda>b. cb_channel b = c \<and> cb_target b = user_key u) (channel_bans s)) (users s))))"

record me_response =
  mer_key :: string
  mer_display_name :: "string option"
  mer_avatar :: "string option"
  mer_approval :: string
  mer_roles :: "role_response list"

definition me_view :: "string \<Rightarrow> hub \<Rightarrow> me_response" where
  "me_view user s =
     (let (n, status, av) = (case row_at user_key user (users s) of None \<Rightarrow> (None, ''approved'', None)
        | Some u \<Rightarrow> (user_display_name u, user_approval u, user_avatar u))
      in \<lparr>mer_key = user, mer_display_name = n, mer_avatar = av, mer_approval = status, mer_roles = fetch_user_roles s user\<rparr>)"

definition me :: "string \<Rightarrow> me_response hub_handler" where
  "me user = gets (me_view user)"

definition update_me :: "string \<Rightarrow> string option \<Rightarrow> string option \<Rightarrow> me_response hub_handler" where
  "update_me user name avatar =
     and_then (case name of None \<Rightarrow> ret () | Some n \<Rightarrow> update_user user (\<lambda>u. u\<lparr>user_display_name := Some n\<rparr>)) (\<lambda>_.
     and_then (case avatar of None \<Rightarrow> ret ()
       | Some a \<Rightarrow> update_user user (\<lambda>u. u\<lparr>user_avatar := (if a = [] then None else Some a)\<rparr>)) (\<lambda>_.
     gets (me_view user)))"

subsection \<open>Profiles\<close>

definition get_profile :: "string \<Rightarrow> public_hub_profile hub_handler" where
  "get_profile pk =
     and_then (gets (\<lambda>s. row_at prof_pubkey pk (public_hub_profiles (front_desk s)))) (\<lambda>found.
     and_then (ok_or found (Reject NOT_FOUND ''No profile'')) (\<lambda>r.
     ret (prof_profile r)))"

definition upsert_profile :: "profile_row \<Rightarrow> unit hub_handler" where
  "upsert_profile r =
     writing (\<lambda>s. upsert (same_key prof_pubkey) True r (\<lambda>_. r) (public_hub_profiles (front_desk s)))
       (\<lambda>t s. s\<lparr>front_desk := (front_desk s)\<lparr>public_hub_profiles := t\<rparr>\<rparr>)"

definition put_profile :: "crypto \<Rightarrow> int \<Rightarrow> string \<Rightarrow> string \<Rightarrow> public_hub_profile \<Rightarrow> status_code hub_handler" where
  "put_profile K now user pk body =
     and_then (check (pk = user) (Reject FORBIDDEN (''Cannot update another user'' @ [CHR 0x27] @ ''s profile''))) (\<lambda>_.
     and_then (check (php_pubkey body = pk) (Reject BAD_REQUEST ''pubkey mismatch between URL and body'')) (\<lambda>_.
     and_then (case public_hub_profile_verify K body of
         Inl e \<Rightarrow> fail (Reject BAD_REQUEST (''Bad signature: '' @ e)) | Inr _ \<Rightarrow> ret ()) (\<lambda>_.
     and_then (upsert_profile \<lparr>prof_pubkey = pk, prof_profile = body, prof_updated = now\<rparr>) (\<lambda>_.
     ret OK))))"

subsection \<open>Icons\<close>

definition MANAGE_HUB_ICONS :: string where "MANAGE_HUB_ICONS = ''manage_hub_icons''"

definition MAX_SVG_BYTES :: nat where "MAX_SVG_BYTES = 50 * 1024"

definition require_icon_manager :: "string \<Rightarrow> unit hub_handler" where
  "require_icon_manager user = and_then (gets (user_permissions user)) (\<lambda>perms. require_permission perms MANAGE_HUB_ICONS)"

definition put_icons :: "icon_row list \<Rightarrow> hub \<Rightarrow> hub" where
  "put_icons t s = s\<lparr>front_desk := (front_desk s)\<lparr>hub_icons := t\<rparr>\<rparr>"

definition insert_icon :: "icon_row \<Rightarrow> unit hub_handler" where
  "insert_icon r = writing (\<lambda>s. insert_row (same_key icon_id) (user_exists s (icon_uploaded_by r)) r (hub_icons (front_desk s))) put_icons"

definition list_icons :: "icon_row list hub_handler" where
  "list_icons = gets (\<lambda>s. sort_key icon_created (hub_icons (front_desk s)))"

definition create_icon :: "string \<Rightarrow> int \<Rightarrow> string \<Rightarrow> string \<Rightarrow> string \<Rightarrow> (status_code \<times> icon_row) hub_handler" where
  "create_icon i now user name svg =
     and_then (require_icon_manager user) (\<lambda>_.
     and_then (check (trim name \<noteq> []) (Reject BAD_REQUEST ''Icon name cannot be empty'')) (\<lambda>_.
     and_then (check (length svg \<le> MAX_SVG_BYTES) (Reject BAD_REQUEST ''SVG content exceeds 50 KB limit'')) (\<lambda>_.
     let r = \<lparr>icon_id = i, icon_name = trim name, icon_svg = svg, icon_uploaded_by = user, icon_created = now\<rparr> in
     and_then (insert_icon r) (\<lambda>_.
     ret (CREATED, r)))))"

definition icon_exists :: "string \<Rightarrow> hub \<Rightarrow> bool" where
  "icon_exists i s \<longleftrightarrow> exists_row (\<lambda>r. icon_id r = i) (hub_icons (front_desk s))"

definition rename_icon :: "string \<Rightarrow> string \<Rightarrow> string \<Rightarrow> status_code hub_handler" where
  "rename_icon user i name =
     and_then (require_icon_manager user) (\<lambda>_.
     and_then (check (trim name \<noteq> []) (Reject BAD_REQUEST ''Name cannot be empty'')) (\<lambda>_.
     and_then (gets (icon_exists i)) (\<lambda>found.
     and_then (modify (\<lambda>s. put_icons (update_where (\<lambda>r. icon_id r = i) (\<lambda>r. r\<lparr>icon_name := trim name\<rparr>) (hub_icons (front_desk s))) s)) (\<lambda>_.
     and_then (check found (Reject NOT_FOUND ''Icon not found'')) (\<lambda>_.
     ret OK)))))"

definition delete_icon :: "string \<Rightarrow> string \<Rightarrow> status_code hub_handler" where
  "delete_icon user i =
     and_then (require_icon_manager user) (\<lambda>_.
     and_then (gets (icon_exists i)) (\<lambda>found.
     and_then (modify (\<lambda>s. put_icons (delete_where (\<lambda>r. icon_id r = i) (hub_icons (front_desk s))) s)) (\<lambda>_.
     and_then (check found (Reject NOT_FOUND ''Icon not found'')) (\<lambda>_.
     ret NO_CONTENT))))"

subsection \<open>Tags\<close>

definition RESERVED_TAGS :: "string list" where
  "RESERVED_TAGS = [''verified'', ''certified'', ''official'', ''partner'', ''admin'']"

definition MAX_TAGS :: nat where "MAX_TAGS = 12"

definition tag_char :: "char \<Rightarrow> bool" where
  "tag_char c \<longleftrightarrow> (let n = of_char c :: nat in
     48 \<le> n \<and> n \<le> 57 \<or> 65 \<le> n \<and> n \<le> 90 \<or> 97 \<le> n \<and> n \<le> 122 \<or> c = CHR ''-'')"

definition quoted :: "string \<Rightarrow> string" where
  "quoted t = ''Tag '' @ [CHR 0x27] @ t @ [CHR 0x27]"

definition en_dash :: string where "en_dash = [CHR 0xE2, CHR 0x80, CHR 0x93]"

definition normalise_tag :: "(string \<Rightarrow> string) \<Rightarrow> string \<Rightarrow> string + string" where
  "normalise_tag lower raw =
     (let t = lower (trim raw) in
      if t = [] \<or> 32 < length t then Inl (quoted (trim raw) @ '' must be 1'' @ en_dash @ ''32 characters'')
      else if \<not> list_all tag_char t
        then Inl (quoted t @ '' may only contain a'' @ en_dash @ ''z, 0'' @ en_dash @ ''9, and hyphens'')
      else if t \<in> set RESERVED_TAGS then Inl (quoted t @ '' is reserved and cannot be used as a self-tag'')
      else Inr t)"

fun normalise_all :: "(string \<Rightarrow> string) \<Rightarrow> string list \<Rightarrow> string + string list" where
  "normalise_all lower [] = Inr []"
| "normalise_all lower (t # ts) =
     (case normalise_tag lower t of Inl e \<Rightarrow> Inl e
      | Inr x \<Rightarrow> (case normalise_all lower ts of Inl e \<Rightarrow> Inl e | Inr xs \<Rightarrow> Inr (x # xs)))"

text \<open>\<^verbatim>\<open>retain(|t| seen.insert(t.clone()))\<close> keeps the first of equal tags.\<close>

fun keep_first :: "string set \<Rightarrow> string list \<Rightarrow> string list" where
  "keep_first seen [] = []"
| "keep_first seen (t # ts) = (if t \<in> seen then keep_first seen ts else t # keep_first (insert t seen) ts)"

definition load_tags :: "(string \<Rightarrow> string list option) \<Rightarrow> hub \<Rightarrow> string list" where
  "load_tags dec s =
     (case setting ''hub_tags'' s of None \<Rightarrow> []
      | Some raw \<Rightarrow> (case dec raw of None \<Rightarrow> [] | Some ts \<Rightarrow> ts))"

definition load_nsfw :: "hub \<Rightarrow> bool" where
  "load_nsfw s = flag_setting ''hub_nsfw'' s"

definition get_tags :: "(string \<Rightarrow> string list option) \<Rightarrow> string \<Rightarrow> string list hub_handler" where
  "get_tags dec user = and_then (require_admin user) (\<lambda>_. gets (load_tags dec))"

definition patch_tags :: "(string list \<Rightarrow> string) \<Rightarrow> (string \<Rightarrow> string) \<Rightarrow> string \<Rightarrow> string list \<Rightarrow> string list hub_handler" where
  "patch_tags enc lower user tags =
     and_then (require_admin user) (\<lambda>_.
     and_then (check (length tags \<le> MAX_TAGS) (Reject BAD_REQUEST ''A hub may have at most 12 self-tags'')) (\<lambda>_.
     and_then (case normalise_all lower tags of Inl e \<Rightarrow> fail (Reject BAD_REQUEST e) | Inr ts \<Rightarrow> ret (keep_first {} ts)) (\<lambda>ts.
     and_then (upsert_setting ''hub_tags'' (enc ts)) (\<lambda>_.
     ret ts))))"

subsection \<open>Listing the hub in a directory\<close>

definition canonical_payload :: "string \<Rightarrow> string \<Rightarrow> string \<Rightarrow> string \<Rightarrow> string list \<Rightarrow> json" where
  "canonical_payload bio url language nonce tags =
     JObj [(''bio'', JStr bio), (''hub_url'', JStr url), (''language'', JStr language), (''nonce'', JStr nonce),
       (''tags'', JArr (map JStr (sort tags)))]"

record directory_request =
  dr_hub_url :: string
  dr_tags :: "string list"
  dr_language :: string
  dr_bio :: string

record directory_response =
  drs_payload :: string
  drs_pubkey :: string
  drs_signature :: string

definition sign_for_directory :: "crypto \<Rightarrow> (json \<Rightarrow> string) \<Rightarrow> identity \<Rightarrow> nat \<Rightarrow> string \<Rightarrow> directory_request \<Rightarrow> directory_response hub_handler" where
  "sign_for_directory K to_string hub_identity secs user req =
     and_then (require_admin user) (\<lambda>_.
     let payload = to_string (canonical_payload (dr_bio req) (dr_hub_url req) (dr_language req) (current_nonce secs) (dr_tags req)) in
     ret \<lparr>drs_payload = payload, drs_pubkey = public_key_hex K hub_identity,
          drs_signature = hex_encode K (sign K hub_identity (as_bytes payload))\<rparr>)"

subsection \<open>The requests\<close>

datatype settings_op =
    UpdateHub string update_hub_request
  | ApproveUser string string
  | PatchPow string u8
  | PatchDepth string u32
  | UpdateMe string "string option" "string option"
  | PutProfile int string string public_hub_profile
  | CreateIcon string int string string string
  | RenameIcon string string string
  | DeleteIcon string string
  | PatchTags string "string list"

fun settings_step :: "crypto \<Rightarrow> (string list \<Rightarrow> string) \<Rightarrow> (string \<Rightarrow> string) \<Rightarrow> hub \<Rightarrow> settings_op \<Rightarrow> hub" where
  "settings_step K enc lower s (UpdateHub user req) = snd (update_hub user req s)"
| "settings_step K enc lower s (ApproveUser user target) = snd (approve_user user target s)"
| "settings_step K enc lower s (PatchPow user level) = snd (patch_pow_settings user level s)"
| "settings_step K enc lower s (PatchDepth user d) = snd (patch_channel_depth user d s)"
| "settings_step K enc lower s (UpdateMe user name avatar) = snd (update_me user name avatar s)"
| "settings_step K enc lower s (PutProfile now user pk body) = snd (put_profile K now user pk body s)"
| "settings_step K enc lower s (CreateIcon i now user name svg) = snd (create_icon i now user name svg s)"
| "settings_step K enc lower s (RenameIcon user i name) = snd (rename_icon user i name s)"
| "settings_step K enc lower s (DeleteIcon user i) = snd (delete_icon user i s)"
| "settings_step K enc lower s (PatchTags user tags) = snd (patch_tags enc lower user tags s)"

fun settings_actor :: "settings_op \<Rightarrow> string" where
  "settings_actor (UpdateHub user _) = user"
| "settings_actor (ApproveUser user _) = user"
| "settings_actor (PatchPow user _) = user"
| "settings_actor (PatchDepth user _) = user"
| "settings_actor (UpdateMe user _ _) = user"
| "settings_actor (PutProfile _ user _ _) = user"
| "settings_actor (CreateIcon _ _ user _ _) = user"
| "settings_actor (RenameIcon user _ _) = user"
| "settings_actor (DeleteIcon user _) = user"
| "settings_actor (PatchTags user _) = user"

lemma preserves_settings_guards [keeps]: "preserves P (require_admin user)" "preserves P (require_icon_manager user)"
  unfolding require_admin_def require_icon_manager_def by (intro keeps)+

lemmas settings_defs = update_hub_def approve_user_def patch_pow_settings_def patch_channel_depth_def update_me_def
  put_profile_def create_icon_def rename_icon_def delete_icon_def patch_tags_def

subsection \<open>What members cannot do\<close>

definition admin_view :: "hub \<Rightarrow> setting_row list \<times> (string \<times> string) list" where
  "admin_view s = (hub_settings s, map (\<lambda>u. (user_key u, user_approval u)) (users s))"

definition is_admin :: "hub \<Rightarrow> string \<Rightarrow> bool" where
  "is_admin s user \<longleftrightarrow> has_permission (user_permissions user s) ADMIN"

lemma require_admin_fails: "\<not> is_admin s user \<Longrightarrow> snd (and_then (require_admin user) f s) = s"
  by (simp add: require_admin_def require_permission_def run_defs is_admin_def)

lemma admin_view_update:
  "(\<And>u. user_key (f u) = user_key u \<and> user_approval (f u) = user_approval u) \<Longrightarrow> preserves (\<lambda>t. admin_view t = v) (update_user pk f)"
  unfolding update_user_def by (rule preserves_modify) (auto simp: admin_view_def update_where_def)

lemma member_step:
  assumes "\<not> is_admin s (settings_actor op)"
  shows "admin_view (settings_step K enc lower s op) = admin_view s"
proof -
  have "preserves (\<lambda>t. admin_view t = admin_view s) (update_me user name avatar)"
    "preserves (\<lambda>t. admin_view t = admin_view s) (put_profile K now user pk body)"
    "preserves (\<lambda>t. admin_view t = admin_view s) (create_icon i now user n svg)"
    "preserves (\<lambda>t. admin_view t = admin_view s) (rename_icon user i n)"
    "preserves (\<lambda>t. admin_view t = admin_view s) (delete_icon user i)" for user name avatar now pk body i n svg
    unfolding settings_defs upsert_profile_def insert_icon_def Let_def
    by (intro keeps admin_view_update preserves_writing preserves_modify; (cases "public_hub_profile_verify K body")?;
        simp add: admin_view_def put_icons_def keeps)+
  then show ?thesis
    using assms
    by (cases op) (auto simp: preserves_def update_hub_def approve_user_def patch_pow_settings_def patch_channel_depth_def
        patch_tags_def require_admin_fails)
qed

text \<open>No request of this component touches roles, so permissions do not change.\<close>

lemma settings_keep_roles:
  "roles (settings_step K enc lower s op) = roles s \<and> role_permissions (settings_step K enc lower s op) = role_permissions s \<and>
   user_roles (settings_step K enc lower s op) = user_roles s"
proof -
  let ?P = "\<lambda>t. roles t = roles s \<and> role_permissions t = role_permissions s \<and> user_roles t = user_roles s"
  have w: "preserves ?P (upsert_setting k v)" "preserves ?P (upsert_optional k x)" "preserves ?P (update_user pk f)" for k v x pk f
    unfolding upsert_optional_def upsert_setting_def update_user_def by (intro keeps preserves_writing preserves_modify; simp)+
  have "preserves ?P (update_hub user req)" "preserves ?P (approve_user user target)" "preserves ?P (patch_pow_settings user level)"
    "preserves ?P (patch_channel_depth user d)" "preserves ?P (update_me user name avatar)"
    "preserves ?P (put_profile K now user pk body)" "preserves ?P (create_icon i now user n svg)"
    "preserves ?P (rename_icon user i n)" "preserves ?P (delete_icon user i)" "preserves ?P (patch_tags enc lower user tags)"
    for user req target level d name avatar now pk body i n svg tags
    unfolding settings_defs upsert_profile_def insert_icon_def Let_def
    by (intro keeps w preserves_writing preserves_modify;
        (cases "public_hub_profile_verify K body")?; (cases "normalise_all lower tags")?; simp add: put_icons_def keeps)+
  then show ?thesis by (cases op) (auto simp: preserves_def)
qed

text \<open>
  Administration is reserved: no sequence of requests of users without the admin permission changes
  a setting of the hub or anybody's approval.
\<close>

theorem members_cannot_administer:
  assumes "list_all (\<lambda>op. \<not> is_admin s (settings_actor op)) ops"
  shows "admin_view (run (settings_step K enc lower) s ops) = admin_view s"
  using assms
proof (induction ops arbitrary: s)
  case (Cons op ops)
  have "is_admin (settings_step K enc lower s op) = is_admin s"
    using settings_keep_roles [of K enc lower s op] user_permissions_cong [of "settings_step K enc lower s op" s]
    by (simp add: is_admin_def fun_eq_iff)
  with Cons member_step [of s op K enc lower] show ?case by simp
qed simp

subsection \<open>Stored tags\<close>

definition tag_ok :: "string \<Rightarrow> bool" where
  "tag_ok t \<longleftrightarrow> t \<noteq> [] \<and> length t \<le> 32 \<and> list_all tag_char t \<and> t \<notin> set RESERVED_TAGS"

definition tags_ok :: "string list \<Rightarrow> bool" where
  "tags_ok ts \<longleftrightarrow> length ts \<le> MAX_TAGS \<and> distinct ts \<and> list_all tag_ok ts"

lemma normalise_all_ok: "normalise_all lower ts = Inr us \<Longrightarrow> length us = length ts \<and> list_all tag_ok us"
proof (induction ts arbitrary: us)
  case (Cons t ts)
  then show ?case
    by (auto simp: normalise_tag_def Let_def tag_ok_def split: sum.splits if_splits)
qed simp

lemma keep_first_length: "length (keep_first seen ts) \<le> length ts"
  by (induction ts arbitrary: seen) (auto intro: le_SucI)

lemma keep_first_props: "set (keep_first seen ts) = set ts - seen" "distinct (keep_first seen ts)"
proof -
  show s: "set (keep_first seen ts) = set ts - seen" for seen ts
    by (induction ts arbitrary: seen) auto
  show "distinct (keep_first seen ts)"
    by (induction ts arbitrary: seen) (auto simp: s)
qed

lemma tags_ok_kept: "normalise_all lower ts = Inr us \<Longrightarrow> length ts \<le> MAX_TAGS \<Longrightarrow> tags_ok (keep_first {} us)"
  using normalise_all_ok [of lower ts us] keep_first_props [of "{}" us] keep_first_length [of "{}" us]
  by (auto simp: tags_ok_def list_all_iff)

lemma upsert_setting_run:
  "upsert_setting k v s = (Inr (), s\<lparr>hub_settings := hub_settings (snd (upsert_setting k v s))\<rparr>)"
  "setting j (snd (upsert_setting k v s)) = (if j = k then Some v else setting j s)"
proof -
  let ?r = "\<lparr>setting_key = k, setting_value = v\<rparr>" and ?f = "\<lambda>r. r\<lparr>setting_value := v\<rparr>"
  obtain t where t: "upsert (same_key setting_key) True ?r ?f (hub_settings s) = Inr t"
    by (cases "exists_row (same_key setting_key ?r) (hub_settings s)") (auto simp: upsert_def)
  then have run: "upsert_setting k v s = (Inr (), s\<lparr>hub_settings := t\<rparr>)"
    by (simp add: upsert_setting_def writing_def exec_def)
  then show "upsert_setting k v s = (Inr (), s\<lparr>hub_settings := hub_settings (snd (upsert_setting k v s))\<rparr>)" by simp
  have "row_at setting_key j t = (if j = k then Some (case row_at setting_key j (hub_settings s) of None \<Rightarrow> ?r | Some q \<Rightarrow> ?f q)
      else row_at setting_key j (hub_settings s))"
    using row_at_upsert [of setting_key ?r ?f True "hub_settings s" t j] t by simp
  with run show "setting j (snd (upsert_setting k v s)) = (if j = k then Some v else setting j s)"
    by (auto simp: setting_def split: option.splits)
qed

definition stored_tags_ok :: "(string \<Rightarrow> string list option) \<Rightarrow> hub \<Rightarrow> bool" where
  "stored_tags_ok dec s \<longleftrightarrow> tags_ok (load_tags dec s)"

lemma tags_ok_Nil: "tags_ok []"
  by (simp add: tags_ok_def)

lemma load_tags_cong: "setting ''hub_tags'' s = setting ''hub_tags'' t \<Longrightarrow> load_tags dec s = load_tags dec t"
  by (simp add: load_tags_def)

lemma tags_kept_by_other_settings: "k \<noteq> ''hub_tags'' \<Longrightarrow> preserves (stored_tags_ok dec) (upsert_setting k v)"
  unfolding preserves_def stored_tags_ok_def
  using load_tags_cong [of "snd (upsert_setting k v s)" s dec for s] upsert_setting_run(2) [of "''hub_tags''" k v] by auto

lemma tags_kept_by_optional: "k \<noteq> ''hub_tags'' \<Longrightarrow> preserves (stored_tags_ok dec) (upsert_optional k x)"
  unfolding upsert_optional_def by (auto intro!: keeps tags_kept_by_other_settings split: option.splits)

lemma stored_tags_frame: "(\<And>s. hub_settings (f s) = hub_settings s) \<Longrightarrow> stored_tags_ok dec s \<Longrightarrow> stored_tags_ok dec (f s)"
  unfolding stored_tags_ok_def using load_tags_cong [of "f s" s] by (simp add: setting_def)

lemma patch_tags_keeps:
  assumes codec: "\<And>ts. dec (enc ts) = Some ts"
  shows "preserves (stored_tags_ok dec) (patch_tags enc lower user tags)"
proof -
  have "preserves (stored_tags_ok dec) (upsert_setting ''hub_tags'' (enc ts))" if "tags_ok ts" for ts
    using that upsert_setting_run(2) [of "''hub_tags''" "''hub_tags''" "enc ts"]
    by (simp add: preserves_def stored_tags_ok_def load_tags_def codec)
  then have "wp (upsert_setting ''hub_tags'' (enc ts)) (\<lambda>_. stored_tags_ok dec) (\<lambda>_. stored_tags_ok dec) s"
    if "tags_ok ts" "stored_tags_ok dec s" for ts s
    using that by (simp add: preserves_wp)
  then show ?thesis
    unfolding preserves_def wp_always [symmetric]
    by (auto simp: patch_tags_def require_admin_def require_permission_def wps wp_ret [abs_def] tags_ok_kept split: sum.splits)
qed

lemma tags_kept_by_step:
  assumes codec: "\<And>ts. dec (enc ts) = Some ts" and "stored_tags_ok dec s"
  shows "stored_tags_ok dec (settings_step K enc lower s op)"
proof -
  let ?P = "stored_tags_ok dec"
  have w: "preserves ?P (update_user pk f)" for pk f
    unfolding update_user_def by (rule preserves_modify) (simp add: stored_tags_frame)
  have "preserves ?P (update_hub user req)" "preserves ?P (approve_user user target)" "preserves ?P (patch_pow_settings user level)"
    "preserves ?P (patch_channel_depth user d)" "preserves ?P (update_me user name avatar)"
    for user req target level d name avatar
    unfolding settings_defs Let_def by (intro keeps w tags_kept_by_other_settings tags_kept_by_optional; simp)+
  moreover have "preserves ?P (put_profile K now user pk body)" "preserves ?P (create_icon i now user n svg)"
    "preserves ?P (rename_icon user i n)" "preserves ?P (delete_icon user i)" for now user pk body i n svg
    unfolding settings_defs upsert_profile_def insert_icon_def Let_def
    by (intro keeps preserves_writing preserves_modify;
        (cases "public_hub_profile_verify K body")?; simp add: put_icons_def keeps stored_tags_frame)+
  ultimately show ?thesis
    using assms patch_tags_keeps [of dec enc, OF codec] by (cases op) (auto simp: preserves_def)
qed

subsection \<open>Stored profiles\<close>

definition profiles_signed :: "crypto \<Rightarrow> hub \<Rightarrow> bool" where
  "profiles_signed K s \<longleftrightarrow> list_all (\<lambda>r. php_pubkey (prof_profile r) = prof_pubkey r \<and>
     public_hub_profile_verify K (prof_profile r) = Inr ()) (public_hub_profiles (front_desk s))"

lemma profiles_signed_frame:
  "(\<And>s. public_hub_profiles (front_desk (f s)) = public_hub_profiles (front_desk s)) \<Longrightarrow> profiles_signed K s \<Longrightarrow> profiles_signed K (f s)"
  by (simp add: profiles_signed_def)

lemma put_profile_signed: "preserves (profiles_signed K) (put_profile K now user pk body)"
  unfolding preserves_def wp_always [symmetric] put_profile_def upsert_profile_def profiles_signed_def
  by (auto simp: wps list_all_iff upsert_def update_where_def split: sum.splits if_splits)

lemma profiles_kept_by_step:
  assumes "profiles_signed K s"
  shows "profiles_signed K (settings_step K enc lower s op)"
proof -
  let ?P = "profiles_signed K"
  have w: "preserves ?P (upsert_setting k v)" "preserves ?P (upsert_optional k x)" "preserves ?P (update_user pk f)" for k v x pk f
    unfolding upsert_optional_def upsert_setting_def update_user_def
    by (intro keeps preserves_writing preserves_modify; simp add: profiles_signed_def)+
  have "preserves ?P (update_hub user req)" "preserves ?P (approve_user user target)" "preserves ?P (patch_pow_settings user level)"
    "preserves ?P (patch_channel_depth user d)" "preserves ?P (update_me user name avatar)" "preserves ?P (patch_tags enc lower user tags)"
    for user req target level d name avatar tags
    unfolding settings_defs Let_def by (intro keeps w; (cases "normalise_all lower tags")?; simp add: keeps)+
  moreover have "preserves ?P (create_icon i now user n svg)" "preserves ?P (rename_icon user i n)" "preserves ?P (delete_icon user i)"
    for now user i n svg
    unfolding settings_defs insert_icon_def Let_def
    by (intro keeps preserves_writing preserves_modify; simp add: put_icons_def profiles_signed_def)+
  ultimately show ?thesis
    using assms put_profile_signed by (cases op) (auto simp: preserves_def)
qed

text \<open>
  C39. Whatever requests arrive, the hub's tags stay at most twelve distinct, non-reserved words of
  letters, digits and hyphens of at most 32 bytes, and a profile the hub hands out for a key names
  that key and carries its owner's signature. The hypothesis on the codec is that reading back what
  was written returns it.
\<close>

theorem public_face_is_sound:
  assumes codec: "\<And>ts. dec (enc ts) = Some ts"
    and start: "stored_tags_ok dec s" "profiles_signed K s"
    and t: "t = run (settings_step K enc lower) s ops"
  shows "tags_ok (load_tags dec t) \<and>
    (\<forall>pk p u. get_profile pk t = (Inr p, u) \<longrightarrow> php_pubkey p = pk \<and> public_hub_profile_verify K p = Inr ())"
proof -
  have "stored_tags_ok dec t" "profiles_signed K t"
    unfolding t using start
    by (auto intro: run_invariant [where P = "stored_tags_ok dec"] run_invariant [where P = "profiles_signed K"]
        tags_kept_by_step [OF codec] profiles_kept_by_step)
  then show ?thesis
    by (auto simp: stored_tags_ok_def profiles_signed_def list_all_iff get_profile_def run_defs
        split: option.splits dest!: row_at_key)
qed

fun demo_show_list :: "string list \<Rightarrow> string" where
  "demo_show_list [] = []"
| "demo_show_list (t # ts) = concat (map (\<lambda>c. [CHR ''.'', c]) t) @ CHR ''!'' # demo_show_list ts"

fun demo_read_list :: "string \<Rightarrow> string list option" where
  "demo_read_list [] = Some []"
| "demo_read_list [c] = (if c = CHR ''!'' then Some [[]] else None)"
| "demo_read_list (c # d # cs) =
     (if c = CHR ''!'' then map_option (Cons []) (demo_read_list (d # cs))
      else (case demo_read_list cs of Some (t # ts) \<Rightarrow> Some ((d # t) # ts) | _ \<Rightarrow> None))"

lemma demo_list_roundtrip: "demo_read_list (demo_show_list ts) = Some ts"
proof (induction ts)
  case (Cons t ts)
  have "demo_read_list (CHR ''!'' # x) = map_option (Cons []) (demo_read_list x)" for x by (cases x) auto
  with Cons show ?case by (induction t) auto
qed simp

definition demo_face_ops :: "settings_op list" where
  "demo_face_ops = [PatchTags demo_owner [''chess'', ''chess''], PatchTags demo_member [''spam''], UpdateMe demo_member (Some ''M'') None]"

lemma demo_face_start: "stored_tags_ok demo_read_list demo_hub" "profiles_signed demo_crypto demo_hub"
proof -
  have "load_tags demo_read_list demo_hub = []" "public_hub_profiles (front_desk demo_hub) = []" by code_simp+
  then show "stored_tags_ok demo_read_list demo_hub" "profiles_signed demo_crypto demo_hub"
    by (simp_all add: stored_tags_ok_def tags_ok_Nil profiles_signed_def)
qed

theorem public_face_is_sound_witness:
  "tags_ok (load_tags demo_read_list (run (settings_step demo_crypto demo_show_list id) demo_hub demo_face_ops))"
  using public_face_is_sound [OF demo_list_roundtrip demo_face_start refl] by blast

text \<open>The signature of a profile covers neither its display name nor its avatar.\<close>

lemma profile_name_unsigned:
  "public_hub_profile_verify K (p\<lparr>php_display_name := n, php_avatar := a\<rparr>) = public_hub_profile_verify K p"
  by (simp add: public_hub_profile_verify_def)

text \<open>A search for \<^verbatim>\<open>%\<close> or \<^verbatim>\<open>_\<close> is a search for anything.\<close>

lemma like_any: "sql_like ''%'' x"
proof (induction x rule: length_induct)
  case (1 x)
  then show ?case
    using skip_char_shorter [of x] by (subst sql_like.simps(2)) (cases "x = []"; simp add: sql_like.simps(1))
qed

lemma like_percent: "sql_like p x \<Longrightarrow> sql_like (CHR ''%'' # p) x"
  by (subst sql_like.simps(2)) simp

lemma wildcard_matches_everybody: "matches_search ''%'' u"
  using like_percent [OF like_percent [OF like_any]] by (simp add: matches_search_def)

subsection \<open>The listing payload\<close>

lemma listing_ignores_tag_order:
  "mset tags = mset tags' \<Longrightarrow> canonical_payload bio url l n tags = canonical_payload bio url l n tags'"
  using properties_for_sort [of "sort tags'" tags] by (simp add: canonical_payload_def)

lemma listing_signature_verifies:
  assumes "hex_roundtrip K" "signing_correct K" "length (signing_key i) = 32"
    and "sign_for_directory K to_string i secs user req s = (Inr d, t)"
  shows "check_sig K (drs_pubkey d) (as_bytes (drs_payload d)) (drs_signature d) = Inr ()"
    and "is_admin s user" and "t = s"
  using assms sign_verifies [of K i]
  by (auto simp: check_sig_def hex_roundtrip_def sign_for_directory_def require_admin_def require_permission_def run_defs is_admin_def Let_def split: if_splits)

end
