(* ===== verification/Gate.thy ===== *)
theory Gate
  imports Settings
begin

text \<open>
  The door of a hub, from \<^verbatim>\<open>hub/src/routes/challenge.rs\<close> and \<^verbatim>\<open>hub/src/routes/lobby.rs\<close>: the click and
  puzzle challenges that earn the token a login presents, and the lobby with its proofs of work. The
  operands of a puzzle, identifiers and random bytes are arguments.

  Main results: a challenge earns at most one token, and with puzzles required every token stands
  for a solved puzzle; a recorded level is backed by a proof. A puzzle can be guessed: attempts are
  not counted.
\<close>

subsection \<open>Challenges\<close>

record challenge_prompt =
  cpr_id :: string
  cpr_mode :: string
  cpr_svg :: "string option"
  cpr_expires :: int

record challenge_verdict =
  cv_ok :: bool
  cv_token :: "string option"
  cv_expires :: "int option"
  cv_next :: "challenge_prompt option"
  cv_attempts :: "nat option"

definition setting_or :: "string \<Rightarrow> string \<Rightarrow> hub \<Rightarrow> string" where
  "setting_or k default_value s = (case setting k s of None \<Rightarrow> default_value | Some v \<Rightarrow> v)"

text \<open>The ranges the two operands are drawn from.\<close>

definition operand_ok :: "string \<Rightarrow> nat \<Rightarrow> bool" where
  "operand_ok difficulty a \<longleftrightarrow> (if difficulty = ''medium'' then 10 \<le> a \<and> a \<le> 50 else 1 \<le> a \<and> a \<le> 9)"

text \<open>The picture is a function of the operands; the answer is their sum in decimal.\<close>

definition puzzle_answer :: "nat \<times> nat \<Rightarrow> string" where
  "puzzle_answer p = show_nat (fst p + snd p)"

definition insert_challenge :: "bot_challenge_row \<Rightarrow> unit hub_handler" where
  "insert_challenge r =
     writing (\<lambda>s. insert_row (same_key bch_id) True r (bot_challenges (front_desk s)))
       (\<lambda>t s. s\<lparr>front_desk := (front_desk s)\<lparr>bot_challenges := t\<rparr>\<rparr>)"

definition insert_challenge_token :: "challenge_token_row \<Rightarrow> unit hub_handler" where
  "insert_challenge_token r =
     writing (\<lambda>s. insert_row (same_key ct_token) True r (challenge_tokens s)) (\<lambda>t s. s\<lparr>challenge_tokens := t\<rparr>)"

definition issue_challenge_token :: "crypto \<Rightarrow> u8 list \<Rightarrow> string \<Rightarrow> int \<Rightarrow> (string \<times> int) hub_handler" where
  "issue_challenge_token K random pk now =
     (let token = hex_encode K random; expires = now + 300 in
      and_then (insert_challenge_token \<lparr>ct_token = token, ct_pubkey = pk, ct_issued = now, ct_expires = expires,
        ct_consumed = None\<rparr>) (\<lambda>_.
      ret (token, expires)))"

definition challenge_row :: "string \<Rightarrow> string \<Rightarrow> string \<Rightarrow> string option \<Rightarrow> int \<Rightarrow> bot_challenge_row" where
  "challenge_row i pk kind expected now = \<lparr>bch_id = i, bch_pubkey = pk, bch_kind = kind, bch_expected = expected,
     bch_created = now, bch_expires = now + 300, bch_consumed = None\<rparr>"

text \<open>\<open>draw\<close> gives the operands for a difficulty, \<open>svg\<close> the picture.\<close>

definition new_challenge :: "crypto \<Rightarrow> (nat \<times> nat \<Rightarrow> string) \<Rightarrow> (string \<Rightarrow> nat \<times> nat) \<Rightarrow> string \<Rightarrow> int \<Rightarrow> string \<Rightarrow> challenge_prompt hub_handler" where
  "new_challenge K svg draw i now pk =
     and_then (gets (setting_or ''challenge_mode'' ''off'')) (\<lambda>mode.
     and_then (check (mode \<noteq> ''off'') (Reject NOT_FOUND ''Challenges are disabled'')) (\<lambda>_.
     and_then (gets (setting_or ''challenge_difficulty'' ''easy'')) (\<lambda>difficulty.
     let (kind, expected, picture) =
       (if mode = ''puzzle''
        then (''puzzle'', Some (hash_token K (puzzle_answer (draw difficulty))), Some (svg (draw difficulty)))
        else (''click'', None, None)) in
     and_then (insert_challenge (challenge_row i pk kind expected now)) (\<lambda>_.
     ret \<lparr>cpr_id = i, cpr_mode = mode, cpr_svg = picture, cpr_expires = now + 300\<rparr>))))"

definition consume_challenge :: "string \<Rightarrow> int \<Rightarrow> unit hub_handler" where
  "consume_challenge i now = modify (\<lambda>s. s\<lparr>front_desk := (front_desk s)\<lparr>bot_challenges :=
     update_where (\<lambda>c. bch_id c = i) (\<lambda>c. c\<lparr>bch_consumed := Some now\<rparr>) (bot_challenges (front_desk s))\<rparr>\<rparr>)"

definition token_verdict :: "string \<times> int \<Rightarrow> challenge_verdict" where
  "token_verdict t = \<lparr>cv_ok = True, cv_token = Some (fst t), cv_expires = Some (snd t), cv_next = None, cv_attempts = None\<rparr>"

definition wrong_answer :: challenge_verdict where
  "wrong_answer = \<lparr>cv_ok = False, cv_token = None, cv_expires = None, cv_next = None, cv_attempts = Some 2\<rparr>"

definition open_challenge :: "int \<Rightarrow> string \<Rightarrow> string \<Rightarrow> bot_challenge_row hub_handler" where
  "open_challenge now i pk =
     and_then (gets (\<lambda>s. row_at bch_id i (bot_challenges (front_desk s)))) (\<lambda>found.
     and_then (ok_or found (Reject NOT_FOUND ''Challenge not found'')) (\<lambda>c.
     and_then (check (bch_consumed c = None) (Reject GONE ''Challenge already consumed'')) (\<lambda>_.
     and_then (check (now \<le> bch_expires c) (Reject GONE ''Challenge expired'')) (\<lambda>_.
     and_then (check (bch_pubkey c = pk) (Reject FORBIDDEN ''Pubkey mismatch'')) (\<lambda>_.
     ret c)))))"

definition earn_token :: "crypto \<Rightarrow> u8 list \<Rightarrow> int \<Rightarrow> string \<Rightarrow> string \<Rightarrow> challenge_verdict hub_handler" where
  "earn_token K random now i pk =
     and_then (consume_challenge i now) (\<lambda>_.
     and_then (issue_challenge_token K random pk now) (\<lambda>t.
     ret (token_verdict t)))"

definition pass_to_puzzle :: "crypto \<Rightarrow> (nat \<times> nat \<Rightarrow> string) \<Rightarrow> (string \<Rightarrow> nat \<times> nat) \<Rightarrow> string \<Rightarrow> int \<Rightarrow> string \<Rightarrow> string \<Rightarrow> string \<Rightarrow> challenge_verdict hub_handler" where
  "pass_to_puzzle K svg draw puzzle_id now i pk difficulty =
     and_then (consume_challenge i now) (\<lambda>_.
     and_then (insert_challenge (challenge_row puzzle_id pk ''puzzle'' (Some (hash_token K (puzzle_answer (draw difficulty)))) now)) (\<lambda>_.
     ret \<lparr>cv_ok = True, cv_token = None, cv_expires = None,
          cv_next = Some \<lparr>cpr_id = puzzle_id, cpr_mode = ''both'', cpr_svg = Some (svg (draw difficulty)), cpr_expires = now + 300\<rparr>,
          cv_attempts = None\<rparr>))"

definition verify_challenge :: "crypto \<Rightarrow> (nat \<times> nat \<Rightarrow> string) \<Rightarrow> (string \<Rightarrow> nat \<times> nat) \<Rightarrow> string \<Rightarrow> u8 list \<Rightarrow> int \<Rightarrow> string \<Rightarrow> string \<Rightarrow> string option \<Rightarrow> challenge_verdict hub_handler" where
  "verify_challenge K svg draw puzzle_id random now i pk answer =
     and_then (open_challenge now i pk) (\<lambda>c.
     and_then (gets (setting_or ''challenge_mode'' ''off'')) (\<lambda>mode.
     and_then (gets (setting_or ''challenge_difficulty'' ''easy'')) (\<lambda>difficulty.
     if bch_kind c = ''click'' then
       (if mode = ''both'' then pass_to_puzzle K svg draw puzzle_id now i pk difficulty
        else earn_token K random now i pk)
     else if bch_kind c = ''puzzle'' then
       (case answer of None \<Rightarrow> ret wrong_answer
        | Some a \<Rightarrow>
            and_then (ok_or (bch_expected c) (Reject INTERNAL_SERVER_ERROR ''Missing expected answer'')) (\<lambda>expected.
            if hash_token K (trim a) \<noteq> expected then ret wrong_answer
            else earn_token K random now i pk))
     else fail (Reject INTERNAL_SERVER_ERROR ''Unknown challenge kind''))))"

definition update_challenge_settings :: "string \<Rightarrow> string \<Rightarrow> string \<Rightarrow> status_code hub_handler" where
  "update_challenge_settings user mode difficulty =
     and_then (require_admin user) (\<lambda>_.
     and_then (check (mode \<in> {''off'', ''click'', ''puzzle'', ''both''}) (Reject BAD_REQUEST (''Invalid challenge_mode: '' @ mode))) (\<lambda>_.
     and_then (check (difficulty \<in> {''easy'', ''medium''}) (Reject BAD_REQUEST (''Invalid challenge_difficulty: '' @ difficulty))) (\<lambda>_.
     and_then (upsert_setting ''challenge_mode'' mode) (\<lambda>_.
     and_then (upsert_setting ''challenge_difficulty'' difficulty) (\<lambda>_.
     ret OK)))))"

subsection \<open>The lobby\<close>

record lobby_status =
  lob_status :: string
  lob_required :: nat
  lob_current :: nat
  lob_entered :: "int option"
  lob_welcome :: "string option"

text \<open>\<^verbatim>\<open>as u32\<close> on the stored level.\<close>

definition level_u32 :: "int \<Rightarrow> nat" where
  "level_u32 l = nat (l mod 2 ^ 32)"

definition get_status :: "string \<Rightarrow> lobby_status hub_handler" where
  "get_status user = gets (\<lambda>s.
     let min_level = number_setting ''min_security_level'' (2 ^ 32) s;
         (status, entered, level) = (case row_at user_key user (users s) of None \<Rightarrow> (''none'', None, 0)
           | Some u \<Rightarrow> (user_lobby_status u, user_lobby_entered u, user_pow_level u));
         current = level_u32 level
     in \<lparr>lob_status = (if status = ''promoted'' \<or> min_level \<le> current \<or> min_level = 0 then ''member''
           else if status = ''lobby'' then ''lobby'' else if min_level = 0 then ''member'' else status),
         lob_required = min_level, lob_current = current, lob_entered = entered, lob_welcome = setting ''lobby_welcome_md'' s\<rparr>)"

text \<open>\<^verbatim>\<open>splitn(2, ':')\<close> on the proof, which is \<^verbatim>\<open>nonce:level\<close>.\<close>

definition split_proof :: "string \<Rightarrow> (string \<times> string) option" where
  "split_proof p =
     (if CHR '':'' \<in> set p then Some (takeWhile (\<lambda>c. c \<noteq> CHR '':'') p, tl (dropWhile (\<lambda>c. c \<noteq> CHR '':'') p)) else None)"

definition submit_pow :: "crypto \<Rightarrow> int \<Rightarrow> string \<Rightarrow> string \<Rightarrow> (bool \<times> nat) hub_handler" where
  "submit_pow K now user proof =
     and_then (gets (number_setting ''min_security_level'' (2 ^ 32))) (\<lambda>min_level.
     and_then (ok_or (split_proof proof) (Reject BAD_REQUEST ''Invalid pow_proof format; expected nonce:level'')) (\<lambda>parts.
     and_then (ok_or (parse_unsigned (2 ^ 64) (fst parts)) (Reject BAD_REQUEST ''Invalid nonce'')) (\<lambda>nonce.
     and_then (ok_or (parse_unsigned (2 ^ 32) (snd parts)) (Reject BAD_REQUEST ''Invalid level'')) (\<lambda>claimed.
     and_then (check (verify_security_level K user (of_nat nonce) claimed) (Reject BAD_REQUEST ''Invalid proof of work'')) (\<lambda>_.
     and_then (gets (\<lambda>s. case row_at user_key user (users s) of None \<Rightarrow> 0 | Some u \<Rightarrow> user_pow_level u)) (\<lambda>current.
     let new_level = max (level_u32 current) claimed;
         promoted = (min_level \<le> new_level \<and> 0 < min_level) in
     and_then (update_user user (\<lambda>u. u\<lparr>user_pow_level := int new_level,
       user_lobby_status := (if promoted then ''promoted'' else ''lobby''),
       user_lobby_entered := (case user_lobby_entered u of None \<Rightarrow> Some now | Some t \<Rightarrow> Some t)\<rparr>)) (\<lambda>_.
     ret (promoted, new_level))))))))"

definition get_welcome :: "string \<Rightarrow> (string \<times> string \<times> nat) hub_handler" where
  "get_welcome start_name = gets (\<lambda>s. (setting_or ''lobby_welcome_md'' [] s, current_hub_name start_name s,
     number_setting ''min_security_level'' (2 ^ 32) s))"

definition update_lobby_settings :: "string \<Rightarrow> bool \<Rightarrow> string option \<Rightarrow> status_code hub_handler" where
  "update_lobby_settings user enabled welcome =
     and_then (require_admin user) (\<lambda>_.
     and_then (upsert_setting ''lobby_enabled'' (if enabled then ''1'' else ''0'')) (\<lambda>_.
     and_then (upsert_optional ''lobby_welcome_md'' welcome) (\<lambda>_.
     ret OK)))"

subsection \<open>The requests at the door\<close>

datatype gate_op =
    NewChallenge "string \<Rightarrow> nat \<times> nat" string int string
  | VerifyChallenge "string \<Rightarrow> nat \<times> nat" string "u8 list" int string string "string option"
  | PresentToken verify_request int
  | SubmitPow int string string
  | LobbySettings string bool "string option"
  | ChallengeSettings string string string

fun gate_step :: "crypto \<Rightarrow> (nat \<times> nat \<Rightarrow> string) \<Rightarrow> hub \<Rightarrow> gate_op \<Rightarrow> hub" where
  "gate_step K svg s (NewChallenge draw i now pk) = snd (new_challenge K svg draw i now pk s)"
| "gate_step K svg s (VerifyChallenge draw j random now i pk answer) = snd (verify_challenge K svg draw j random now i pk answer s)"
| "gate_step K svg s (PresentToken req now) = snd (challenge_token_gate req now s)"
| "gate_step K svg s (SubmitPow now user proof) = snd (submit_pow K now user proof s)"
| "gate_step K svg s (LobbySettings user enabled welcome) = snd (update_lobby_settings user enabled welcome s)"
| "gate_step K svg s (ChallengeSettings user mode difficulty) = snd (update_challenge_settings user mode difficulty s)"

definition challenges :: "hub \<Rightarrow> bot_challenge_row list" where
  "challenges s = bot_challenges (front_desk s)"

definition tokens_of :: "hub \<Rightarrow> string \<Rightarrow> nat" where
  "tokens_of s pk = length (filter (\<lambda>t. ct_pubkey t = pk) (challenge_tokens s))"

text \<open>The used-up challenges of a key whose kind is in \<open>kinds\<close>.\<close>

definition spent :: "string set \<Rightarrow> string \<Rightarrow> bot_challenge_row \<Rightarrow> bool" where
  "spent kinds pk c \<longleftrightarrow> bch_pubkey c = pk \<and> bch_kind c \<in> kinds \<and> bch_consumed c \<noteq> None"

definition earned :: "string set \<Rightarrow> hub \<Rightarrow> string \<Rightarrow> nat" where
  "earned kinds s pk = length (filter (spent kinds pk) (challenges s))"

definition backed :: "string set \<Rightarrow> hub \<Rightarrow> bool" where
  "backed kinds s \<longleftrightarrow> keyed bch_id (challenges s) \<and> (\<forall>pk. tokens_of s pk \<le> earned kinds s pk)"

text \<open>Spending one row of a keyed table adds that row to the spent ones, if it counts.\<close>

lemma filter_update_one:
  assumes "keyed key t" "row_at key i t = Some c" "\<not> P c" "\<And>r. key (f r) = key r"
  shows "length (filter P (update_where (\<lambda>r. key r = i) f t)) = length (filter P t) + (if P (f c) then 1 else 0)"
proof -
  obtain a b where t: "t = a @ c # b" using row_at_key [OF assms(2)] by (metis split_list)
  with assms(1) row_at_key [OF assms(2)] have "i \<notin> key ` (set a \<union> set b)" by (auto simp: keyed_def)
  then have "\<forall>r \<in> set a \<union> set b. key r \<noteq> i" by blast
  then have "update_where (\<lambda>r. key r = i) f a = a" "update_where (\<lambda>r. key r = i) f b = b"
    by (auto simp: update_where_def map_idI)
  with assms(3) row_at_key [OF assms(2)] show ?thesis by (simp add: t) (simp add: update_where_def)
qed

lemma filter_update_grows:
  "(\<And>r. P r \<Longrightarrow> P (f r)) \<Longrightarrow> length (filter P t) \<le> length (filter P (update_where Q f t))"
  by (induction t) (auto simp: update_where_def)

definition use_up :: "string \<Rightarrow> int \<Rightarrow> hub \<Rightarrow> hub" where
  "use_up i now s = s\<lparr>front_desk := (front_desk s)\<lparr>bot_challenges :=
     update_where (\<lambda>c. bch_id c = i) (\<lambda>c. c\<lparr>bch_consumed := Some now\<rparr>) (bot_challenges (front_desk s))\<rparr>\<rparr>"

lemma earned_use_up:
  assumes "keyed bch_id (challenges s)" "row_at bch_id i (challenges s) = Some c" "bch_consumed c = None"
  shows "earned kinds (use_up i now s) pk = earned kinds s pk + (if bch_pubkey c = pk \<and> bch_kind c \<in> kinds then 1 else 0)"
  using filter_update_one [OF assms(1,2), of "spent kinds pk" "\<lambda>c. c\<lparr>bch_consumed := Some now\<rparr>"] assms(3)
  by (simp add: earned_def challenges_def use_up_def spent_def)

lemma backed_use_up: "backed kinds s \<Longrightarrow> backed kinds (use_up i now s)"
  unfolding backed_def earned_def
  by (auto simp: challenges_def use_up_def tokens_of_def keyed_update_where spent_def
      intro: le_trans [OF _ filter_update_grows])

lemma backed_frame:
  "backed kinds s \<Longrightarrow> bot_challenges (front_desk t) = bot_challenges (front_desk s) \<Longrightarrow>
   map ct_pubkey (challenge_tokens t) = map ct_pubkey (challenge_tokens s) \<Longrightarrow> backed kinds t"
proof -
  assume a: "map ct_pubkey (challenge_tokens t) = map ct_pubkey (challenge_tokens s)"
  have "tokens_of u pk = length (filter (\<lambda>k. k = pk) (map ct_pubkey (challenge_tokens u)))" for u pk
    by (simp add: tokens_of_def filter_map o_def)
  then have "tokens_of t = tokens_of s" by (simp only: fun_eq_iff a simp_thms)
  then show "backed kinds s \<Longrightarrow> bot_challenges (front_desk t) = bot_challenges (front_desk s) \<Longrightarrow> backed kinds t"
    by (simp add: backed_def earned_def challenges_def)
qed

lemma backed_insert_challenge: "preserves (backed kinds) (insert_challenge r)"
  unfolding insert_challenge_def
proof (rule preserves_writing)
  fix s t assume b: "backed kinds s" and t: "insert_row (same_key bch_id) True r (bot_challenges (front_desk s)) = Inr t"
  then have "t = bot_challenges (front_desk s) @ [r]" "row_at bch_id (bch_id r) (bot_challenges (front_desk s)) = None"
    by (auto simp: insert_row_def same_key_def exists_row_iff row_at_None_iff split: if_splits)
  with b show "backed kinds (s\<lparr>front_desk := (front_desk s)\<lparr>bot_challenges := t\<rparr>\<rparr>)"
    by (auto simp: backed_def earned_def challenges_def tokens_of_def keyed_append_fresh intro: le_SucI)
qed

lemma consume_is_use_up: "consume_challenge i now s = (Inr (), use_up i now s)"
  by (simp add: consume_challenge_def use_up_def modify_def)

text \<open>A token is paid for by the challenge used up with it.\<close>

lemma backed_earn_token:
  assumes "backed kinds s" "row_at bch_id i (challenges s) = Some c" "bch_consumed c = None" "bch_pubkey c = pk"
    "bch_kind c \<in> kinds"
  shows "backed kinds (snd (earn_token K random now i pk s))"
proof -
  let ?u = "use_up i now s" and ?r = "\<lparr>ct_token = hex_encode K random, ct_pubkey = pk, ct_issued = now, ct_expires = now + 300, ct_consumed = None\<rparr>"
  have u: "keyed bch_id (challenges ?u)" "tokens_of ?u = tokens_of s"
    using backed_use_up [OF assms(1), of i now] by (auto simp: backed_def tokens_of_def use_up_def fun_eq_iff)
  have e: "earned kinds ?u k = earned kinds s k + (if pk = k then 1 else 0)" for k
    using earned_use_up [of s i c kinds now k] assms by (simp add: backed_def)
  have "backed kinds (?u\<lparr>challenge_tokens := challenge_tokens s @ [?r]\<rparr>)"
    using u e assms(1) by (simp add: backed_def earned_def challenges_def tokens_of_def)
  then show ?thesis
    using backed_use_up [OF assms(1), of i now]
    by (auto simp: earn_token_def issue_challenge_token_def insert_challenge_token_def consume_is_use_up run_defs
        writing_def insert_row_def Let_def split: if_splits) (simp_all add: use_up_def)
qed

text \<open>
  The hub insists on puzzles: its mode asks for one, and no click challenge of an earlier mode is
  left open that would still earn a token.
\<close>

definition mode_of :: "hub \<Rightarrow> string" where
  "mode_of s = setting_or ''challenge_mode'' ''off'' s"

definition insists :: "hub \<Rightarrow> bool" where
  "insists s \<longleftrightarrow> mode_of s = ''both'' \<or>
     mode_of s = ''puzzle'' \<and> list_all (\<lambda>c. bch_kind c = ''click'' \<longrightarrow> bch_consumed c \<noteq> None) (challenges s)"

definition pays :: "string set \<Rightarrow> hub \<Rightarrow> bool" where
  "pays kinds s \<longleftrightarrow> backed kinds s \<and> (kinds = UNIV \<or> ''puzzle'' \<in> kinds \<and> insists s)"

lemma open_challenge_wp [wps]:
  "wp (open_challenge now i pk) Q E s \<longleftrightarrow>
   (case row_at bch_id i (challenges s) of None \<Rightarrow> E (Reject NOT_FOUND ''Challenge not found'') s
    | Some c \<Rightarrow> if bch_consumed c \<noteq> None then E (Reject GONE ''Challenge already consumed'') s
        else if \<not> now \<le> bch_expires c then E (Reject GONE ''Challenge expired'') s
        else if bch_pubkey c \<noteq> pk then E (Reject FORBIDDEN ''Pubkey mismatch'') s else Q c s)"
  by (auto simp: open_challenge_def challenges_def wps split: option.splits)

lemma insists_use_up: "insists s \<Longrightarrow> insists (use_up i now s)"
  by (auto simp: insists_def mode_of_def setting_or_def setting_def challenges_def use_up_def list_all_iff update_where_def)

lemma insists_insert_puzzle: "bch_kind r \<noteq> ''click'' \<Longrightarrow> preserves insists (insert_challenge r)"
  unfolding insert_challenge_def
  by (rule preserves_writing)
    (auto simp: insists_def mode_of_def setting_or_def setting_def challenges_def insert_row_def split: if_splits)

lemma pays_pass_to_puzzle:
  assumes "pays kinds s"
  shows "pays kinds (snd (pass_to_puzzle K svg draw j now i pk d s))"
proof -
  have "preserves (pays kinds) (insert_challenge (challenge_row j pk ''puzzle'' e now))" for e
    using backed_insert_challenge [of kinds] insists_insert_puzzle [of "challenge_row j pk ''puzzle'' e now"]
    by (auto simp: pays_def preserves_def challenge_row_def)
  moreover have "pays kinds (use_up i now s)" using assms by (auto simp: pays_def backed_use_up insists_use_up)
  ultimately show ?thesis
    by (simp add: pass_to_puzzle_def preserves_wp wp_always [symmetric] wps consume_is_use_up wp_def [of "consume_challenge i now"]
        wp_ret [abs_def])
qed

lemma pays_earn_token:
  assumes "pays kinds s" "row_at bch_id i (challenges s) = Some c" "bch_consumed c = None" "bch_pubkey c = pk" "bch_kind c \<in> kinds"
  shows "pays kinds (snd (earn_token K random now i pk s))"
proof -
  have "preserves insists (issue_challenge_token K random pk now)"
    unfolding issue_challenge_token_def insert_challenge_token_def Let_def
    by (intro keeps preserves_writing) (simp add: insists_def mode_of_def setting_or_def setting_def challenges_def)
  then have "insists s \<Longrightarrow> insists (snd (earn_token K random now i pk s))"
    by (simp add: earn_token_def preserves_wp wp_always [symmetric] wps consume_is_use_up wp_def [of "consume_challenge i now"]
        insists_use_up wp_ret [abs_def])
  with assms backed_earn_token [of kinds s i c pk K random now] show ?thesis by (auto simp: pays_def)
qed

lemma pays_verify:
  assumes "pays kinds s"
  shows "pays kinds (snd (verify_challenge K svg draw j random now i pk answer s))"
proof -
  have click: "mode_of s = ''both'' \<or> ''click'' \<in> kinds"
    if "row_at bch_id i (challenges s) = Some c" "bch_consumed c = None" "bch_kind c = ''click''" for c
    using assms that row_at_key [OF that(1)] by (auto simp: pays_def insists_def list_all_iff)
  have puzzle: "''puzzle'' \<in> kinds" using assms by (auto simp: pays_def)
  show ?thesis
    unfolding wp_always [symmetric] verify_challenge_def
    using assms click puzzle pays_earn_token [OF assms, folded wp_always] pays_pass_to_puzzle [OF assms, folded wp_always]
    by (auto simp: wps mode_of_def split: option.splits)
qed

definition mode_kept :: "gate_op \<Rightarrow> bool" where
  "mode_kept op = (case op of ChallengeSettings _ _ _ \<Rightarrow> False | _ \<Rightarrow> True)"

lemma pays_frame:
  "pays kinds s \<Longrightarrow> bot_challenges (front_desk t) = bot_challenges (front_desk s) \<Longrightarrow>
   map ct_pubkey (challenge_tokens t) = map ct_pubkey (challenge_tokens s) \<Longrightarrow>
   kinds = UNIV \<or> setting ''challenge_mode'' t = setting ''challenge_mode'' s \<Longrightarrow> pays kinds t"
  using backed_frame [of kinds s t] by (auto simp: pays_def insists_def mode_of_def setting_or_def challenges_def)

lemma pays_upsert_setting: "kinds = UNIV \<or> k \<noteq> ''challenge_mode'' \<Longrightarrow> preserves (pays kinds) (upsert_setting k v)"
  unfolding preserves_def
proof (intro allI impI)
  fix s assume k: "kinds = UNIV \<or> k \<noteq> ''challenge_mode''" and p: "pays kinds s"
  let ?t = "snd (upsert_setting k v s)"
  have "front_desk ?t = front_desk s" "challenge_tokens ?t = challenge_tokens s"
    by (simp_all add: upsert_setting_def writing_def exec_def split: sum.splits)
  with k p upsert_setting_run(2) [of "''challenge_mode''" k v s] show "pays kinds ?t"
    by (intro pays_frame [OF p]) auto
qed

lemma pays_insert_challenge:
  assumes "pays kinds s" "mode_of s \<noteq> ''puzzle'' \<or> bch_kind r \<noteq> ''click''"
  shows "pays kinds (snd (insert_challenge r s))"
proof -
  have "insists s \<Longrightarrow> insists (snd (insert_challenge r s))"
    using assms(2) by (auto simp: insert_challenge_def writing_def exec_def insists_def mode_of_def setting_or_def setting_def
        challenges_def insert_row_def split: sum.splits if_splits)
  with assms backed_insert_challenge [of kinds r] show ?thesis by (auto simp: pays_def preserves_def)
qed

lemma pays_new_challenge: "pays kinds s \<Longrightarrow> pays kinds (snd (new_challenge K svg draw i now pk s))"
  using pays_insert_challenge [of kinds s, folded wp_always]
  unfolding wp_always [symmetric]
  by (auto simp: new_challenge_def wps mode_of_def challenge_row_def wp_ret [abs_def] Let_def)

lemma pays_step:
  assumes "pays kinds s" "kinds = UNIV \<or> mode_kept op"
  shows "pays kinds (gate_step K svg s op)"
proof (cases op)
  case (PresentToken req now)
  have "preserves (pays kinds) (challenge_token_gate req now)"
    unfolding challenge_token_gate_def
    by (intro keeps preserves_modify) (auto simp: setting_def update_where_def intro: pays_frame)
  with assms(1) PresentToken show ?thesis by (simp add: preserves_def)
next
  case (SubmitPow now user p)
  have "preserves (pays kinds) (update_user user f)" for f
    unfolding update_user_def by (rule preserves_modify) (auto simp: setting_def intro: pays_frame)
  then have "preserves (pays kinds) (submit_pow K now user p)"
    unfolding submit_pow_def Let_def by (intro keeps)
  with assms(1) SubmitPow show ?thesis by (simp add: preserves_def)
next
  case (LobbySettings user b w)
  have "preserves (pays kinds) (update_lobby_settings user b w)"
    unfolding update_lobby_settings_def upsert_optional_def
    by (intro keeps pays_upsert_setting) (auto split: option.splits intro!: keeps pays_upsert_setting)
  with assms(1) LobbySettings show ?thesis by (simp add: preserves_def)
next
  case (ChallengeSettings user m d)
  with assms(2) have "kinds = UNIV" by (simp add: mode_kept_def)
  then have "preserves (pays kinds) (update_challenge_settings user m d)"
    unfolding update_challenge_settings_def by (intro keeps pays_upsert_setting) auto
  with assms(1) ChallengeSettings show ?thesis by (simp add: preserves_def)
qed (use assms(1) in \<open>simp_all add: pays_new_challenge pays_verify\<close>)

lemma pays_run:
  "pays kinds s \<Longrightarrow> kinds = UNIV \<or> list_all mode_kept ops \<Longrightarrow> pays kinds (run (gate_step K svg) s ops)"
  by (induction ops arbitrary: s) (auto simp: pays_step)


lemma puzzle_needs_answer:
  assumes "row_at bch_id i (challenges s) = Some c" "bch_kind c = ''puzzle''"
    and "map_option (\<lambda>a. hash_token K (trim a)) answer \<noteq> bch_expected c"
  shows "snd (verify_challenge K svg draw j random now i pk answer s) = s"
  using assms unfolding wp_always [symmetric, of "\<lambda>t. t = s"]
  by (auto simp: verify_challenge_def wps split: option.splits)

lemma trim_show_nat: "trim (show_nat n) = show_nat n"
  by (rule trim_printable) (auto simp: printable_def list_all_iff dest!: show_nat_chars)

text \<open>
  A wrong answer is not counted, so the seventeen possible answers of an easy puzzle can be tried
  one after the other.
\<close>

lemma easy_puzzle_falls:
  assumes "row_at bch_id i (challenges s) = Some c" "bch_kind c = ''puzzle''" "bch_consumed c = None" "now \<le> bch_expires c"
    and "bch_expected c = Some (hash_token K (puzzle_answer (a, b)))" "operand_ok ''easy'' a" "operand_ok ''easy'' b"
    and "row_at ct_token (hex_encode K random) (challenge_tokens s) = None"
  shows "\<exists>n. 2 \<le> n \<and> n \<le> 18 \<and> (\<exists>v t. verify_challenge K svg draw j random now i (bch_pubkey c) (Some (show_nat n)) s = (Inr v, t) \<and>
    cv_token v = Some (hex_encode K random))"
proof (intro exI [of _ "a + b"] conjI)
  have fresh: "\<not> exists_row (same_key ct_token r) (challenge_tokens s)" if "ct_token r = hex_encode K random" for r
    using assms(8) that by (auto simp: exists_row_iff row_at_None_iff same_key_def)
  show "\<exists>v t. verify_challenge K svg draw j random now i (bch_pubkey c) (Some (show_nat (a + b))) s = (Inr v, t) \<and>
    cv_token v = Some (hex_encode K random)"
    using assms fresh
    by (simp add: verify_challenge_def open_challenge_def challenges_def earn_token_def consume_is_use_up use_up_def
        issue_challenge_token_def insert_challenge_token_def writing_def insert_row_def run_defs Let_def token_verdict_def
        puzzle_answer_def trim_show_nat)
qed (use assms in \<open>simp_all add: operand_ok_def\<close>)

text \<open>Switching from clicks to puzzles leaves the open click challenges, which still earn a token.\<close>

lemma old_click_still_pays:
  assumes "row_at bch_id i (challenges s) = Some c" "bch_kind c = ''click''" "bch_consumed c = None" "now \<le> bch_expires c"
    and "mode_of s = ''puzzle''" "row_at ct_token (hex_encode K random) (challenge_tokens s) = None"
  shows "\<exists>v t. verify_challenge K svg draw j random now i (bch_pubkey c) None s = (Inr v, t) \<and> cv_token v = Some (hex_encode K random)"
proof -
  have fresh: "\<not> exists_row (same_key ct_token r) (challenge_tokens s)" if "ct_token r = hex_encode K random" for r
    using assms(6) that by (auto simp: exists_row_iff row_at_None_iff same_key_def)
  show ?thesis
    using assms fresh
    by (simp add: verify_challenge_def open_challenge_def challenges_def earn_token_def consume_is_use_up use_up_def mode_of_def
        issue_challenge_token_def insert_challenge_token_def writing_def insert_row_def run_defs Let_def token_verdict_def)
qed

subsection \<open>Levels in the lobby\<close>

text \<open>Every recorded level is the level of a proof of work that the key's owner found.\<close>

definition levels_proved :: "crypto \<Rightarrow> hub \<Rightarrow> bool" where
  "levels_proved K s \<longleftrightarrow> (\<forall>u \<in> set (users s). \<exists>nonce. verify_security_level K (user_key u) nonce (level_u32 (user_pow_level u)))"

lemma level_u32_small: "n < 2 ^ 32 \<Longrightarrow> level_u32 (int n) = n"
  unfolding level_u32_def by (subst mod_pos_pos_trivial) auto

lemma level_u32_bound: "level_u32 l < 2 ^ 32"
  unfolding level_u32_def by (simp add: nat_less_iff)

lemma parse_unsigned_bound: "parse_unsigned b x = Some n \<Longrightarrow> n < b"
  by (auto simp: parse_unsigned_def Let_def split: option.splits if_splits)

lemma levels_after_update:
  assumes "levels_proved K s" "\<exists>nonce. verify_security_level K user nonce (level_u32 l)" "\<And>u. user_key (f u) = user_key u \<and> user_pow_level (f u) = l"
  shows "levels_proved K (s\<lparr>users := update_where (\<lambda>u. user_key u = user) f (users s)\<rparr>)"
  using assms by (auto simp: levels_proved_def update_where_def)

definition recorded_level :: "hub \<Rightarrow> string \<Rightarrow> nat" where
  "recorded_level s user = level_u32 (case row_at user_key user (users s) of None \<Rightarrow> 0 | Some u \<Rightarrow> user_pow_level u)"

lemma recorded_level_proved: "levels_proved K s \<Longrightarrow> \<exists>nonce. verify_security_level K user nonce (recorded_level s user)"
  by (auto simp: recorded_level_def levels_proved_def verify_security_level_def level_u32_def
      split: option.splits dest!: row_at_key)

lemma better_level_proved:
  assumes "levels_proved K s" "parse_unsigned (2 ^ 32) x = Some claimed" "verify_security_level K user n claimed"
  shows "\<exists>nonce. verify_security_level K user nonce (level_u32 (int (max (recorded_level s user) claimed)))"
proof (cases "recorded_level s user \<le> claimed")
  case True
  with assms(3) parse_unsigned_bound [OF assms(2)] show ?thesis by (auto simp: max_def level_u32_small)
next
  case False
  then show ?thesis
    using recorded_level_proved [OF assms(1), of user] level_u32_bound
    by (auto simp: max_def level_u32_small recorded_level_def)
qed

lemma submit_pow_keeps_levels: "preserves (levels_proved K) (submit_pow K now user proof)"
  unfolding preserves_def
proof (intro allI impI)
  fix s assume s: "levels_proved K s"
  show "levels_proved K (snd (submit_pow K now user proof s))"
    using s better_level_proved [OF s]
    unfolding wp_always [symmetric, of "levels_proved K"]
    by (cases "split_proof proof"; cases "parse_unsigned (2 ^ 64) (fst (the (split_proof proof)))";
        cases "parse_unsigned (2 ^ 32) (snd (the (split_proof proof)))")
      (simp_all add: submit_pow_def update_user_def wps Let_def recorded_level_def [symmetric] wp_ret [abs_def],
        auto intro!: levels_after_update)
qed

text \<open>
  The level recorded for a member is always the level of a proof of work that the key admits,
  whatever requests arrive at the door.
\<close>

theorem recorded_levels_are_proved:
  assumes "levels_proved K s"
  shows "\<exists>nonce. verify_security_level K user nonce (recorded_level (run (gate_step K svg) s ops) user)"
proof -
  have users_kept: "preserves (levels_proved K) (new_challenge K svg draw i now pk)"
    "preserves (levels_proved K) (verify_challenge K svg draw j random now i pk answer)"
    "preserves (levels_proved K) (challenge_token_gate req now)"
    "preserves (levels_proved K) (update_lobby_settings u b w)"
    "preserves (levels_proved K) (update_challenge_settings u m d)" for draw i now pk j random answer req u b w m d
    unfolding new_challenge_def verify_challenge_def challenge_token_gate_def update_lobby_settings_def update_challenge_settings_def
      upsert_optional_def upsert_setting_def open_challenge_def pass_to_puzzle_def earn_token_def consume_challenge_def
      issue_challenge_token_def insert_challenge_def insert_challenge_token_def Let_def
    by (intro keeps preserves_writing preserves_modify; simp add: levels_proved_def)+
  have "levels_proved K (run (gate_step K svg) s ops)"
  proof (rule run_invariant [where P = "levels_proved K"])
    show "levels_proved K s" by (rule assms)
    show "levels_proved K t \<Longrightarrow> levels_proved K (gate_step K svg t op)" for t op
      by (cases op) (use users_kept submit_pow_keeps_levels in \<open>auto simp: preserves_def\<close>)
  qed
  then show ?thesis by (rule recorded_level_proved)
qed

theorem recorded_levels_are_proved_witness:
  "\<exists>nonce. verify_security_level demo_crypto demo_member nonce
    (recorded_level (run (gate_step demo_crypto (\<lambda>_. [])) demo_hub [SubmitPow 5 demo_member ''3:0'']) demo_member)"
proof (rule recorded_levels_are_proved)
  show "levels_proved demo_crypto demo_hub"
    by (simp add: levels_proved_def demo_defs verify_security_level_def level_u32_def)
qed

definition demo_draw :: "string \<Rightarrow> nat \<times> nat" where "demo_draw d = (4, 5)"

definition demo_door :: "gate_op list" where
  "demo_door = [NewChallenge demo_draw ''c1'' 10 demo_member, VerifyChallenge demo_draw ''c2'' [1] 11 ''c1'' demo_member None,
     VerifyChallenge demo_draw ''c3'' [2] 12 ''c2'' demo_member (Some ''8''), VerifyChallenge demo_draw ''c3'' [2] 13 ''c2'' demo_member (Some ''9'')]"

definition demo_strict_hub :: hub where
  "demo_strict_hub = demo_hub\<lparr>hub_settings := [\<lparr>setting_key = ''challenge_mode'', setting_value = ''both''\<rparr>]\<rparr>"


end
