(* ===== verification/Certs.thy ===== *)
theory Certs
  imports Settings
begin

text \<open>
  Certifications of members, from \<^verbatim>\<open>hub/src/routes/certs.rs\<close> and \<^verbatim>\<open>hub/src/cert_worker.rs\<close>: the ledger a
  hub keeps of the certificates it signs, revocation, the daily sweep, and what it serves to others.
  The verification of a presented certificate, which the login gate uses, is in the theory
  \<^verbatim>\<open>Auth\<close>. Identifiers are an argument, as is the JSON text of settings.

  Main results: a good entry of the ledger attests a member who was approved and not banned when it
  was signed, on behalf of an administrator or of the sweep, and its signature verifies; a
  certificate a hub issues is accepted at every hub that trusts it until it expires. A revocation is
  undone by the next sweep.
\<close>

subsection \<open>Settings\<close>

definition parse_i64 :: "string \<Rightarrow> int option" where
  "parse_i64 v =
     (case v of
        [] \<Rightarrow> None
      | c # ds \<Rightarrow>
          if c = CHR ''-'' then
            (if ds = [] then None
             else case parse_digits 0 ds of None \<Rightarrow> None | Some n \<Rightarrow> if n \<le> 2 ^ 63 then Some (- int n) else None)
          else map_option int (parse_unsigned (2 ^ 63) v))"

definition setting_i64 :: "string \<Rightarrow> int \<Rightarrow> hub \<Rightarrow> int" where
  "setting_i64 k dflt s =
     (case setting k s of None \<Rightarrow> dflt | Some v \<Rightarrow> (case parse_i64 v of None \<Rightarrow> dflt | Some n \<Rightarrow> n))"

definition load_hub_url :: "hub \<Rightarrow> string" where
  "load_hub_url s = (case setting ''hub_url'' s of None \<Rightarrow> [] | Some u \<Rightarrow> u)"

record cert_settings_patch =
  csp_auto_issue :: "string option"
  csp_standing_days :: "string option"
  csp_validity_days :: "string option"
  csp_mode :: "string option"
  csp_trusted_issuers :: "json option"
  csp_require :: "json option"
  csp_min_pow_level :: "string option"

definition patch_cert_settings :: "(json \<Rightarrow> string) \<Rightarrow> string \<Rightarrow> cert_settings_patch \<Rightarrow> status_code hub_handler" where
  "patch_cert_settings to_string user body =
     and_then (require_admin user) (\<lambda>_.
     and_then (check (case csp_mode body of None \<Rightarrow> True | Some m \<Rightarrow> m \<in> {''none'', ''any'', ''trusted''})
       (Reject BAD_REQUEST (''cert_mode must be '' @ [CHR 0x27] @ ''none'' @ [CHR 0x27] @ '', '' @ [CHR 0x27] @ ''any'' @ [CHR 0x27] @
         '', or '' @ [CHR 0x27] @ ''trusted'' @ [CHR 0x27]))) (\<lambda>_.
     and_then (for_each (\<lambda>(k, v). upsert_optional k v)
       [(''cert_auto_issue'', csp_auto_issue body), (''cert_standing_days'', csp_standing_days body),
        (''cert_validity_days'', csp_validity_days body), (''cert_mode'', csp_mode body),
        (''cert_min_pow_level'', csp_min_pow_level body),
        (''cert_trusted_issuers'', map_option to_string (csp_trusted_issuers body)),
        (''cert_require'', map_option to_string (csp_require body))]) (\<lambda>_.
     ret NO_CONTENT)))"

subsection \<open>The ledger\<close>

definition put_issuances :: "issuance_row list \<Rightarrow> hub \<Rightarrow> hub" where
  "put_issuances t s = s\<lparr>cert_ledger := (cert_ledger s)\<lparr>cert_issuances := t\<rparr>\<rparr>"

definition issuances :: "hub \<Rightarrow> issuance_row list" where
  "issuances s = cert_issuances (cert_ledger s)"

definition insert_issuance :: "issuance_row \<Rightarrow> unit hub_handler" where
  "insert_issuance r = writing (\<lambda>s. insert_row (same_key ci_id) True r (issuances s)) put_issuances"

definition cert_payload_for :: "crypto \<Rightarrow> identity \<Rightarrow> hub \<Rightarrow> string \<Rightarrow> int \<Rightarrow> string \<Rightarrow> nat option \<Rightarrow> int \<Rightarrow> int \<Rightarrow> cert_payload" where
  "cert_payload_for K hub_identity s subject since standing level now expires =
     \<lparr>cp_subject_kind = ''user'', cp_issuer_pubkey = public_key_hex K hub_identity, cp_issuer_url = load_hub_url s,
      cp_subject_pubkey = subject, cp_member_since = since, cp_standing = standing, cp_pow_level = level,
      cp_issued_at = now, cp_expires_at = expires, cp_capabilities = []\<rparr>"

definition sign_payload :: "crypto \<Rightarrow> codec \<Rightarrow> identity \<Rightarrow> cert_payload \<Rightarrow> string" where
  "sign_payload K C hub_identity p = hex_encode K (sign K hub_identity (as_bytes (payload_json C p)))"

text \<open>The log line slices the subject's key at byte 16, which panics inside a character.\<close>

definition issue_cert_for :: "crypto \<Rightarrow> codec \<Rightarrow> identity \<Rightarrow> string \<Rightarrow> int \<Rightarrow> string \<Rightarrow> certification hub_handler" where
  "issue_cert_for K C hub_identity i now subject =
     and_then (gets (\<lambda>s. row_at user_key subject (users s))) (\<lambda>row.
     and_then (ok_or row (Reject NOT_FOUND ''User not found'')) (\<lambda>u.
     let level = (if 0 < user_pow_level u then Some (nat (user_pow_level u mod 256)) else None) in
     and_then (check (user_approval u = ''approved'') (Reject FORBIDDEN ''User is not approved'')) (\<lambda>_.
     and_then (gets (\<lambda>s. is_banned s subject)) (\<lambda>banned.
     and_then (check (\<not> banned) (Reject FORBIDDEN ''User is banned'')) (\<lambda>_.
     and_then (gets (setting_i64 ''cert_validity_days'' 90)) (\<lambda>validity.
     let expires = wrap_i64 (now + wrap_i64 (validity * 86400)) in
     and_then (gets (\<lambda>s. cert_payload_for K hub_identity s subject (user_first_seen u) ''good'' level now expires)) (\<lambda>payload.
     let signature = sign_payload K C hub_identity payload in
     and_then (insert_issuance \<lparr>ci_id = i, ci_subject = subject, ci_pow_level = map_option int level,
       ci_member_since = user_first_seen u, ci_issued = now, ci_expires = expires, ci_revoked = None, ci_standing = ''good'',
       ci_payload = payload, ci_signature = signature\<rparr>) (\<lambda>_.
     and_then (check (is_char_boundary subject (min 16 (length subject))) Panic) (\<lambda>_.
     ret \<lparr>cert_payload_of = payload, cert_signature = signature\<rparr>)))))))))"

definition revoke_cert_for :: "crypto \<Rightarrow> codec \<Rightarrow> identity \<Rightarrow> string \<Rightarrow> int \<Rightarrow> string \<Rightarrow> unit hub_handler" where
  "revoke_cert_for K C hub_identity i now subject =
     and_then (modify (\<lambda>s. put_issuances (update_where (\<lambda>r. ci_subject r = subject \<and> ci_revoked r = None)
       (\<lambda>r. r\<lparr>ci_revoked := Some now, ci_standing := ''revoked''\<rparr>) (issuances s)) s)) (\<lambda>_.
     and_then (gets (\<lambda>s. row_at user_key subject (users s))) (\<lambda>row.
     case row of None \<Rightarrow> ret ()
     | Some u \<Rightarrow>
         and_then (gets (\<lambda>s. cert_payload_for K hub_identity s subject (user_first_seen u) ''revoked'' None now (now + 86400))) (\<lambda>payload.
         insert_issuance \<lparr>ci_id = i, ci_subject = subject, ci_pow_level = None, ci_member_since = user_first_seen u,
           ci_issued = now, ci_expires = now + 86400, ci_revoked = Some now, ci_standing = ''revoked'', ci_payload = payload,
           ci_signature = sign_payload K C hub_identity payload\<rparr>)))"

definition admin_issue :: "crypto \<Rightarrow> codec \<Rightarrow> identity \<Rightarrow> string \<Rightarrow> int \<Rightarrow> string \<Rightarrow> string \<Rightarrow> (status_code \<times> certification) hub_handler" where
  "admin_issue K C hub_identity i now user subject =
     and_then (require_admin user) (\<lambda>_.
     and_then (issue_cert_for K C hub_identity i now subject) (\<lambda>cert.
     ret (CREATED, cert)))"

definition admin_revoke :: "crypto \<Rightarrow> codec \<Rightarrow> identity \<Rightarrow> string \<Rightarrow> int \<Rightarrow> string \<Rightarrow> string \<Rightarrow> status_code hub_handler" where
  "admin_revoke K C hub_identity i now user subject =
     and_then (require_admin user) (\<lambda>_.
     and_then (revoke_cert_for K C hub_identity i now subject) (\<lambda>_.
     ret NO_CONTENT))"

text \<open>The listed level is cut to a byte.\<close>

definition issuance_view :: "issuance_row \<Rightarrow> issuance_row" where
  "issuance_view r = r\<lparr>ci_pow_level := map_option (\<lambda>v. v mod 256) (ci_pow_level r)\<rparr>"

definition admin_list :: "string \<Rightarrow> issuance_row list hub_handler" where
  "admin_list user =
     and_then (require_admin user) (\<lambda>_.
     gets (\<lambda>s. map issuance_view (sort_key (\<lambda>r. - ci_issued r) (issuances s))))"

definition list_user_certs :: "int \<Rightarrow> string \<Rightarrow> certification list hub_handler" where
  "list_user_certs now pk = gets (\<lambda>s.
     let issued = map (\<lambda>r. (ci_payload r, ci_signature r)) (filter (\<lambda>r. ci_subject r = pk \<and> ci_standing r = ''good'' \<and>
           ci_revoked r = None \<and> now < ci_expires r) (issuances s));
         deposited = map (\<lambda>r. (uc_payload r, uc_signature r)) (filter (\<lambda>r. uc_master r = pk \<and> now < uc_expires r)
           (user_certs (cert_ledger s)))
     in [\<lparr>cert_payload_of = p, cert_signature = sig\<rparr>. (p, sig) \<leftarrow> issued @ deposited, cp_standing p \<noteq> ''revoked''])"

record cert_requirement =
  crq_mode :: string
  crq_trusted_issuers :: "trusted_issuer list"
  crq_require :: cert_require

definition load_cert_requirement :: "codec \<Rightarrow> hub \<Rightarrow> cert_requirement option" where
  "load_cert_requirement C s =
     (if load_cert_mode s = ''none'' then None
      else Some \<lparr>crq_mode = load_cert_mode s, crq_trusted_issuers = load_trusted_issuers C s,
             crq_require = load_cert_require C s\<rparr>)"

text \<open>
  \<^verbatim>\<open>verify_certification\<close> has the gate's test a second time, with early returns; no route calls it.
\<close>

definition verify_certification :: "crypto \<Rightarrow> codec \<Rightarrow> int \<Rightarrow> certification \<Rightarrow> string \<Rightarrow> string \<Rightarrow> trusted_issuer list \<Rightarrow> cert_require \<Rightarrow> bool" where
  "verify_certification K C now cert master cert_mode issuers required =
     (let payload = cert_payload_of cert in
      if cp_subject_pubkey payload \<noteq> master then False
      else if cp_expires_at payload < now then False
      else if cp_standing payload \<noteq> ''good'' then False
      else (case hex_decode K (cert_signature cert) of
          Inl _ \<Rightarrow> False
        | Inr sig \<Rightarrow>
            if verify_signature K (cp_issuer_pubkey payload) (as_bytes (payload_json C payload)) sig \<noteq> Inr () then False
            else if \<not> (case cr_min_pow_level required of None \<Rightarrow> True
                | Some min_pow \<Rightarrow> (case cp_pow_level payload of None \<Rightarrow> False | Some level \<Rightarrow> min_pow \<le> level)) then False
            else if (case cr_min_member_since_days required of None \<Rightarrow> False
                | Some days \<Rightarrow> now - int days * 86400 < cp_member_since payload) then False
            else if cert_mode = ''any'' then True
            else if cert_mode = ''trusted'' then list_ex (\<lambda>ti. ti_pubkey ti = cp_issuer_pubkey payload) issuers
            else False))"

subsection \<open>The sweep\<close>

text \<open>\<^verbatim>\<open>MAX(issued_at)\<close> over the good, unrevoked certificates of a member.\<close>

definition latest_issued :: "hub \<Rightarrow> string \<Rightarrow> int option" where
  "latest_issued s pk =
     (case map ci_issued (filter (\<lambda>r. ci_subject r = pk \<and> ci_standing r = ''good'' \<and> ci_revoked r = None) (issuances s)) of
        [] \<Rightarrow> None | t # ts \<Rightarrow> Some (fold max ts t))"

definition sweep_candidates :: "int \<Rightarrow> hub \<Rightarrow> string list" where
  "sweep_candidates now s =
     (let threshold = wrap_i64 (now - wrap_i64 (setting_i64 ''cert_standing_days'' 30 s * 86400));
          cutoff = wrap_i64 (now - wrap_i64 (setting_i64 ''cert_validity_days'' 90 s * 86400))
      in take 500 (map user_key (filter (\<lambda>u. user_approval u = ''approved'' \<and> user_is_bot u = 0 \<and>
           user_first_seen u \<le> threshold \<and>
           (case latest_issued s (user_key u) of None \<Rightarrow> True | Some t \<Rightarrow> t < cutoff)) (users s))))"

text \<open>A failed issuance is logged and skipped; a panic ends the worker.\<close>

definition attempt :: "'a hub_handler \<Rightarrow> unit hub_handler" where
  "attempt m = (\<lambda>s. case m s of (Inl Panic, t) \<Rightarrow> (Inl Panic, t) | (_, t) \<Rightarrow> (Inr (), t))"

text \<open>\<open>ids\<close> gives the identifier drawn for each candidate.\<close>

definition cert_tick :: "crypto \<Rightarrow> codec \<Rightarrow> identity \<Rightarrow> (string \<Rightarrow> string) \<Rightarrow> int \<Rightarrow> unit hub_handler" where
  "cert_tick K C hub_identity ids now =
     and_then (gets (\<lambda>s. setting ''cert_auto_issue'' s = None \<or> flag_setting ''cert_auto_issue'' s)) (\<lambda>auto.
     if \<not> auto then ret ()
     else and_then (gets (sweep_candidates now)) (\<lambda>candidates.
       and_then (gets (\<lambda>s. set (map ban_target (bans s)))) (\<lambda>banned.
       for_each (\<lambda>pk. if pk \<in> banned then ret () else attempt (issue_cert_for K C hub_identity (ids pk) now pk)) candidates)))"

subsection \<open>The requests\<close>

datatype cert_op =
    AdminIssue string int string string
  | AdminRevoke string int string string
  | CertSweep "string \<Rightarrow> string" int
  | PatchCerts "json \<Rightarrow> string" string cert_settings_patch
  | CertMembers settings_op
  | CertModeration moderation_op

fun cert_step :: "crypto \<Rightarrow> codec \<Rightarrow> identity \<Rightarrow> hub \<Rightarrow> cert_op \<Rightarrow> hub" where
  "cert_step K C ident s (AdminIssue i now user subject) = snd (admin_issue K C ident i now user subject s)"
| "cert_step K C ident s (AdminRevoke i now user subject) = snd (admin_revoke K C ident i now user subject s)"
| "cert_step K C ident s (CertSweep ids now) = snd (cert_tick K C ident ids now s)"
| "cert_step K C ident s (PatchCerts to_string user body) = snd (patch_cert_settings to_string user body s)"
| "cert_step K C ident s (CertMembers op) = settings_step K (\<lambda>_. []) id s op"
| "cert_step K C ident s (CertModeration op) = moderation_step s op"

text \<open>The two tests of a presented certificate agree.\<close>

lemma verify_certification_is_gate:
  "verify_certification K C now cert master cert_mode issuers required =
   cert_satisfies K C master cert_mode issuers required now cert"
  by (auto simp: verify_certification_def cert_satisfies_def Let_def split: sum.splits option.splits)

subsection \<open>What a good entry stands for\<close>

definition good_entry :: "issuance_row \<Rightarrow> hub \<Rightarrow> bool" where
  "good_entry r s \<longleftrightarrow> r \<in> set (issuances s) \<and> ci_standing r = ''good''"

definition well_signed :: "crypto \<Rightarrow> codec \<Rightarrow> identity \<Rightarrow> issuance_row \<Rightarrow> bool" where
  "well_signed K C ident r \<longleftrightarrow> ci_signature r = sign_payload K C ident (ci_payload r) \<and>
     cp_subject_pubkey (ci_payload r) = ci_subject r \<and> cp_issuer_pubkey (ci_payload r) = public_key_hex K ident \<and>
     cp_standing (ci_payload r) = ''good'' \<and> cp_expires_at (ci_payload r) = ci_expires r"

definition in_good_standing :: "hub \<Rightarrow> string \<Rightarrow> int \<Rightarrow> bool" where
  "in_good_standing s pk since \<longleftrightarrow> \<not> is_banned s pk \<and>
     (case row_at user_key pk (users s) of None \<Rightarrow> False
      | Some u \<Rightarrow> user_approval u = ''approved'' \<and> user_first_seen u = since)"

definition vouched :: "crypto \<Rightarrow> codec \<Rightarrow> identity \<Rightarrow> hub \<Rightarrow> issuance_row \<Rightarrow> bool" where
  "vouched K C ident s r \<longleftrightarrow> well_signed K C ident r \<and> in_good_standing s (ci_subject r) (ci_member_since r)"

definition on_behalf :: "hub \<Rightarrow> cert_op \<Rightarrow> string \<Rightarrow> bool" where
  "on_behalf s op subject =
     (case op of AdminIssue _ _ user pk \<Rightarrow> is_admin s user \<and> subject = pk
      | CertSweep _ now \<Rightarrow> subject \<in> set (sweep_candidates now s)
      | _ \<Rightarrow> False)"

text \<open>One issuance: the only new entry is a vouched one for the subject.\<close>

lemma issue_cert_wp:
  "wp (issue_cert_for K C ident i now subject)
     (\<lambda>_ t. users t = users s \<and> bans t = bans s \<and> (\<forall>r. good_entry r t \<longrightarrow> good_entry r s \<or> ci_subject r = subject \<and> vouched K C ident s r))
     (\<lambda>_ t. users t = users s \<and> bans t = bans s \<and> (\<forall>r. good_entry r t \<longrightarrow> good_entry r s \<or> ci_subject r = subject \<and> vouched K C ident s r)) s"
  by (auto simp: issue_cert_for_def insert_issuance_def wps Let_def insert_row_def put_issuances_def good_entry_def issuances_def
      vouched_def well_signed_def in_good_standing_def cert_payload_for_def split: option.splits if_splits sum.splits)

lemma wp_attempt: "wp m (\<lambda>_. P) (\<lambda>_. P) s \<Longrightarrow> wp (attempt m) (\<lambda>_. P) (\<lambda>_. P) s"
  by (auto simp: wp_def attempt_def split: prod.splits sum.splits failure.splits)

definition swept :: "crypto \<Rightarrow> codec \<Rightarrow> identity \<Rightarrow> hub \<Rightarrow> string set \<Rightarrow> hub \<Rightarrow> bool" where
  "swept K C ident s pks t \<longleftrightarrow> users t = users s \<and> bans t = bans s \<and>
     (\<forall>r. good_entry r t \<longrightarrow> good_entry r s \<or> ci_subject r \<in> pks \<and> vouched K C ident s r)"

lemma in_good_standing_cong:
  "users t = users s \<Longrightarrow> bans t = bans s \<Longrightarrow> vouched K C ident t r = vouched K C ident s r"
  by (simp add: vouched_def in_good_standing_def is_banned_def)

lemma swept_issue:
  assumes "swept K C ident s pks t" "pk \<in> pks"
  shows "wp (issue_cert_for K C ident i now pk) (\<lambda>_. swept K C ident s pks) (\<lambda>_. swept K C ident s pks) t"
proof -
  have same: "users t = users s" "bans t = bans s" using assms(1) by (auto simp: swept_def)
  have "vouched K C ident t r = vouched K C ident s r" for r using same by (rule in_good_standing_cong)
  moreover have old: "good_entry r t \<Longrightarrow> good_entry r s \<or> ci_subject r \<in> pks \<and> vouched K C ident s r" for r
    using assms(1) by (simp add: swept_def)
  ultimately have sw: "swept K C ident s pks u"
    if "users u = users t \<and> bans u = bans t \<and> (\<forall>r. good_entry r u \<longrightarrow> good_entry r t \<or> ci_subject r = pk \<and> vouched K C ident t r)" for u
    using that assms(2) unfolding swept_def by (metis same)
  show ?thesis by (rule wp_mono [OF issue_cert_wp]) (erule sw)+
qed

lemma swept_tick: "swept K C ident s (set (sweep_candidates now s)) (snd (cert_tick K C ident ids now s))"
proof -
  let ?S = "swept K C ident s (set (sweep_candidates now s))"
  have start: "?S s" by (simp add: swept_def)
  have "wp (if pk \<in> b then ret () else attempt (issue_cert_for K C ident (ids pk) now pk)) (\<lambda>_. ?S) (\<lambda>_. ?S) t"
    if "pk \<in> set (sweep_candidates now s)" "?S t" for pk b t
    using that swept_issue [OF that(2,1)] by (simp add: wps wp_attempt)
  then have "wp (for_each (\<lambda>pk. if pk \<in> b then ret () else attempt (issue_cert_for K C ident (ids pk) now pk))
      (sweep_candidates now s)) (\<lambda>_. ?S) (\<lambda>_. ?S) s" for b
    by (intro wp_for_each [where I = ?S] start) auto
  then show ?thesis
    unfolding wp_always [symmetric] cert_tick_def using start by (auto simp: wps)
qed

lemma ledger_elsewhere:
  "cert_ledger (settings_step K enc lower s op) = cert_ledger s" "cert_ledger (moderation_step s mop) = cert_ledger s"
  "cert_ledger (snd (patch_cert_settings to_string user body s)) = cert_ledger s"
proof -
  let ?P = "\<lambda>t. cert_ledger t = cert_ledger s"
  have w: "preserves ?P (upsert_setting k v)" "preserves ?P (upsert_optional k x)" "preserves ?P (update_user pk f)" for k v x pk f
    unfolding upsert_optional_def upsert_setting_def update_user_def by (intro keeps preserves_writing preserves_modify; simp)+
  have "preserves ?P (update_hub user req)" "preserves ?P (approve_user user target)" "preserves ?P (patch_pow_settings user level)"
    "preserves ?P (patch_channel_depth user d)" "preserves ?P (update_me user name avatar)"
    "preserves ?P (put_profile K now user pk body)" "preserves ?P (create_icon i now user n svg)"
    "preserves ?P (rename_icon user i n)" "preserves ?P (delete_icon user i)" "preserves ?P (patch_tags enc lower user tags)"
    for user req target level d name avatar now pk body i n svg tags
    unfolding settings_defs upsert_profile_def insert_icon_def Let_def
    by (intro keeps w preserves_writing preserves_modify;
        (cases "public_hub_profile_verify K body")?; (cases "normalise_all lower tags")?; simp add: put_icons_def keeps)+
  then show "cert_ledger (settings_step K enc lower s op) = cert_ledger s" by (cases op) (auto simp: preserves_def)
  show "cert_ledger (moderation_step s mop) = cert_ledger s" by (cases mop) (auto simp: moderation_step.simps effect_simps upsert_def)
  have "preserves ?P (patch_cert_settings to_string user body)"
    unfolding patch_cert_settings_def by (intro keeps w)
  then show "cert_ledger (snd (patch_cert_settings to_string user body s)) = cert_ledger s" by (simp add: preserves_def)
qed

definition revoked_row :: "int \<Rightarrow> string \<Rightarrow> issuance_row \<Rightarrow> issuance_row" where
  "revoked_row now subject r =
     (if ci_subject r = subject \<and> ci_revoked r = None then r\<lparr>ci_revoked := Some now, ci_standing := ''revoked''\<rparr> else r)"

text \<open>A revocation marks the subject's entries and adds at most one entry, itself revoked.\<close>

definition after_revocation :: "int \<Rightarrow> string \<Rightarrow> hub \<Rightarrow> hub \<Rightarrow> bool" where
  "after_revocation now subject s t \<longleftrightarrow>
     (\<exists>extra. t = put_issuances (map (revoked_row now subject) (issuances s) @ extra) s \<and>
       list_all (\<lambda>r. ci_standing r = ''revoked'' \<and> ci_revoked r \<noteq> None) extra)"

lemma revoke_effect: "after_revocation now subject s (snd (revoke_cert_for K C ident i now subject s))"
proof -
  let ?t = "put_issuances (map (revoked_row now subject) (issuances s)) s" and ?Q = "after_revocation now subject s"
  have keep: "?Q ?t" unfolding after_revocation_def by (intro exI [of _ "[]"]) simp
  have "?Q (put_issuances (issuances ?t @ [r]) ?t)" if "ci_standing r = ''revoked''" "ci_revoked r \<noteq> None" for r
    using that unfolding after_revocation_def by (intro exI [of _ "[r]"]) (simp add: issuances_def put_issuances_def)
  with keep have add: "wp (insert_issuance r) (\<lambda>_. ?Q) (\<lambda>_. ?Q) ?t" if "ci_standing r = ''revoked''" "ci_revoked r \<noteq> None" for r
    using that by (simp add: insert_issuance_def wps insert_row_def)
  have upd: "put_issuances (update_where (\<lambda>r. ci_subject r = subject \<and> ci_revoked r = None)
      (\<lambda>r. r\<lparr>ci_revoked := Some now, ci_standing := ''revoked''\<rparr>) (issuances s)) s = ?t"
    by (simp add: update_where_def revoked_row_def [abs_def])
  show ?thesis
    unfolding wp_always [symmetric] revoke_cert_for_def
    by (simp add: wps upd) (cases "row_at user_key subject (users ?t)"; simp add: wps keep add)
qed

lemma revoke_adds_no_good: "good_entry r (snd (revoke_cert_for K C ident i now subject s)) \<Longrightarrow> good_entry r s"
  using revoke_effect [of now subject s K C ident i]
  by (auto simp: after_revocation_def good_entry_def put_issuances_def issuances_def list_all_iff revoked_row_def split: if_splits)

interpretation attesting: traced "\<lambda>_. True" "cert_step K C ident" good_entry
  "\<lambda>s op r. vouched K C ident s r \<and> on_behalf s op (ci_subject r)" for K C ident
proof unfold_locales
  fix s op r assume g: "good_entry r (cert_step K C ident s op)"
  show "good_entry r s \<or> vouched K C ident s r \<and> on_behalf s op (ci_subject r)"
  proof (cases op)
    case (AdminIssue i now user subject)
    show ?thesis
    proof (cases "is_admin s user")
      case True
      then have "cert_step K C ident s op = snd (issue_cert_for K C ident i now subject s)"
        using AdminIssue by (auto simp: admin_issue_def require_admin_def require_permission_def is_admin_def run_defs
            split: prod.splits sum.splits)
      with g issue_cert_wp [of K C ident i now subject s] True AdminIssue show ?thesis
        unfolding wp_always by (auto simp: on_behalf_def)
    next
      case False
      with g AdminIssue show ?thesis by (simp add: admin_issue_def require_admin_fails)
    qed
  next
    case (AdminRevoke i now user subject)
    have "snd (admin_revoke K C ident i now user subject s) = s \<or>
        snd (admin_revoke K C ident i now user subject s) = snd (revoke_cert_for K C ident i now subject s)"
      by (auto simp: admin_revoke_def require_admin_def require_permission_def run_defs split: prod.splits sum.splits)
    with g AdminRevoke revoke_adds_no_good show ?thesis by auto
  next
    case (CertSweep ids now)
    with g swept_tick [of K C ident s now ids] show ?thesis by (auto simp: swept_def on_behalf_def)
  qed (use g ledger_elsewhere in \<open>auto simp: good_entry_def issuances_def\<close>)
qed


lemma demo_certified:
  "\<exists>r. good_entry r (run (cert_step demo_crypto demo_codec demo_identity) demo_hub [AdminIssue ''c1'' 9 demo_owner demo_member]) \<and>
     ci_subject r = demo_member"
proof -
  have facts: "has_permission (user_permissions demo_owner demo_hub) ADMIN"
    "row_at user_key demo_member (users demo_hub) = Some (new_user demo_member 1 ''approved'' None)"
    "\<not> is_banned demo_hub demo_member" "cert_issuances (cert_ledger demo_hub) = []" by code_simp+
  then show ?thesis
    by (simp add: admin_issue_def require_admin_def require_permission_def issue_cert_for_def insert_issuance_def run_defs
        writing_def insert_row_def put_issuances_def good_entry_def issuances_def exists_row_iff Let_def new_user_def)
qed


subsection \<open>Revocation\<close>

text \<open>
  A revocation leaves the member's approval as it was, and the sweep does not look at revoked
  entries: a member who is not banned is a candidate again at once.
\<close>

lemma after_revocation_frame:
  assumes "after_revocation now pk s t"
  shows "users t = users s" "hub_settings t = hub_settings s" "\<forall>r \<in> set (issuances t). ci_subject r = pk \<longrightarrow> ci_revoked r \<noteq> None"
proof -
  obtain extra where t: "t = put_issuances (map (revoked_row now pk) (issuances s) @ extra) s"
    and e: "\<And>r. r \<in> set extra \<Longrightarrow> ci_revoked r \<noteq> None" using assms by (auto simp: after_revocation_def list_all_iff)
  show "users t = users s" "hub_settings t = hub_settings s" by (simp_all add: t put_issuances_def)
  have m: "ci_subject (revoked_row now pk q) = pk \<Longrightarrow> ci_revoked (revoked_row now pk q) \<noteq> None" for q
    by (cases "ci_subject q = pk \<and> ci_revoked q = None") (simp_all add: revoked_row_def)
  have "r \<in> set extra \<or> (\<exists>q. r = revoked_row now pk q)" if "r \<in> set (issuances t)" for r
    using that by (auto simp: t put_issuances_def issuances_def)
  then show "\<forall>r \<in> set (issuances t). ci_subject r = pk \<longrightarrow> ci_revoked r \<noteq> None" using e m by metis
qed

lemma revocation_invites_sweep:
  assumes "row_at user_key pk (users s) = Some u" "user_approval u = ''approved''" "user_is_bot u = 0" "length (users s) \<le> 500"
    and "user_first_seen u \<le> wrap_i64 (now - wrap_i64 (setting_i64 ''cert_standing_days'' 30 s * 86400))"
  shows "pk \<in> set (sweep_candidates now (snd (revoke_cert_for K C ident i t pk s)))"
proof -
  let ?s = "snd (revoke_cert_for K C ident i t pk s)"
  have frame: "users ?s = users s" "hub_settings ?s = hub_settings s" "\<forall>r \<in> set (issuances ?s). ci_subject r = pk \<longrightarrow> ci_revoked r \<noteq> None"
    using revoke_effect [of t pk s K C ident i] by (rule after_revocation_frame)+
  from frame(3) have "filter (\<lambda>r. ci_subject r = pk \<and> ci_standing r = ''good'' \<and> ci_revoked r = None) (issuances ?s) = []"
    by (auto simp: filter_empty_conv)
  then have none: "latest_issued ?s pk = None" by (simp add: latest_issued_def)
  have set: "setting_i64 k d ?s = setting_i64 k d s" for k d using frame by (simp add: setting_i64_def setting_def)
  have u: "u \<in> set (users s)" "user_key u = pk" using row_at_key [OF assms(1)] by auto
  have all: "take 500 (map user_key (filter Q (users s))) = map user_key (filter Q (users s))" for Q
    by (rule take_all) (use le_trans [OF length_filter_le assms(4)] in simp)
  have "sweep_candidates now ?s = map user_key (filter (\<lambda>u. user_approval u = ''approved'' \<and> user_is_bot u = 0 \<and>
      user_first_seen u \<le> wrap_i64 (now - wrap_i64 (setting_i64 ''cert_standing_days'' 30 s * 86400)) \<and>
      (case latest_issued ?s (user_key u) of None \<Rightarrow> True
       | Some x \<Rightarrow> x < wrap_i64 (now - wrap_i64 (setting_i64 ''cert_validity_days'' 90 s * 86400)))) (users s))"
    by (simp only: sweep_candidates_def Let_def set all frame)
  then show ?thesis
    using u assms(2,3,5) none by (simp only:) (rule list.set_map [THEN equalityD2, THEN subsetD], rule image_eqI [of _ _ u], simp_all)
qed

text \<open>A revoked certificate keeps its signature: a hub it is presented to accepts it until it expires.\<close>

lemma revocation_leaves_payloads:
  assumes "r \<in> set (issuances s)"
  shows "\<exists>q \<in> set (issuances (snd (revoke_cert_for K C ident i t pk s))). ci_payload q = ci_payload r \<and> ci_signature q = ci_signature r"
  using assms revoke_effect [of t pk s K C ident i]
  by (auto simp: after_revocation_def put_issuances_def issuances_def revoked_row_def intro!: bexI [of _ "revoked_row t pk r"])

end
