(* ===== verification/Badges.thy ===== *)
theory Badges
  imports Gate Certs Dms
begin

text \<open>
  Badges that hubs award each other, from \<^verbatim>\<open>hub/src/routes/badges.rs\<close>, \<^verbatim>\<open>receive_badge_offer\<close> of
  \<^verbatim>\<open>hub/src/federation/handlers.rs\<close>, \<^verbatim>\<open>post_badge_offer\<close> of \<^verbatim>\<open>federation/client.rs\<close>, and the public \<^verbatim>\<open>/info\<close> of
  \<^verbatim>\<open>hub/src/routes/health.rs\<close>. The JSON text of a badge is written and read by a codec, and the answers of
  other hubs, identifiers and the time in seconds are arguments.

  Main results: every badge a hub shows was signed by its issuer for this hub and accepted by an
  administrator; a badge awarded to a hub that accepts it is shown there, and verifies for everybody.
\<close>

subsection \<open>Data\<close>

record badge_payload =
  bp_issuer_pubkey :: string
  bp_issuer_url :: string
  bp_subject_pubkey :: string
  bp_label :: string
  bp_issued_at :: string
  bp_expires_at :: "string option"

record badge_envelope =
  env_payload :: badge_payload
  env_signature :: string

record badge_codec =
  write_badge :: "badge_payload \<Rightarrow> string"
  read_badge :: "string \<Rightarrow> string + badge_payload"

record badge_offer_request =
  bor_from_key :: string
  bor_from_url :: string
  bor_label :: string
  bor_note :: "string option"
  bor_payload :: string
  bor_signature :: string

record issue_badge_request =
  ibr_recipient_url :: string
  ibr_label :: string
  ibr_note :: "string option"
  ibr_expires_days :: "nat option"

definition offers :: "hub \<Rightarrow> badge_offer_row list" where "offers s = badge_offers (badge_state s)"
definition held :: "hub \<Rightarrow> hub_badge_row list" where "held s = hub_badges (badge_state s)"
definition issued :: "hub \<Rightarrow> issued_badge_row list" where "issued s = issued_badges (badge_state s)"

definition put_offers :: "badge_offer_row list \<Rightarrow> hub \<Rightarrow> hub" where
  "put_offers t s = s\<lparr>badge_state := (badge_state s)\<lparr>badge_offers := t\<rparr>\<rparr>"
definition put_held :: "hub_badge_row list \<Rightarrow> hub \<Rightarrow> hub" where
  "put_held t s = s\<lparr>badge_state := (badge_state s)\<lparr>hub_badges := t\<rparr>\<rparr>"
definition put_issued :: "issued_badge_row list \<Rightarrow> hub \<Rightarrow> hub" where
  "put_issued t s = s\<lparr>badge_state := (badge_state s)\<lparr>issued_badges := t\<rparr>\<rparr>"

text \<open>Reading the stored payloads of a listing stops at the first one that cannot be read.\<close>

fun read_payloads :: "badge_codec \<Rightarrow> ('r \<Rightarrow> string) \<Rightarrow> 'r list \<Rightarrow> ('r \<times> badge_payload) list hub_handler" where
  "read_payloads B text [] = ret []"
| "read_payloads B text (r # rs) =
     (case read_badge B (text r) of
        Inl e \<Rightarrow> fail (Reject INTERNAL_SERVER_ERROR (''Payload parse error: '' @ e))
      | Inr p \<Rightarrow> and_then (read_payloads B text rs) (\<lambda>ps. ret ((r, p) # ps)))"

subsection \<open>Offers from other hubs\<close>

definition insert_offer_row :: "badge_offer_row \<Rightarrow> unit hub_handler" where
  "insert_offer_row r = writing (\<lambda>s. insert_row (same_key bo_id) True r (offers s)) put_offers"

definition receive_badge_offer :: "crypto \<Rightarrow> badge_codec \<Rightarrow> identity \<Rightarrow> string \<Rightarrow> nat \<Rightarrow> badge_offer_request \<Rightarrow> status_code hub_handler" where
  "receive_badge_offer K B ident i secs req =
     and_then (lift (case read_badge B (bor_payload req) of
         Inl _ \<Rightarrow> Inl (Reject BAD_REQUEST ''Malformed badge payload JSON'') | Inr p \<Rightarrow> Inr p)) (\<lambda>payload.
     and_then (check (bp_subject_pubkey payload = public_key_hex K ident)
       (Reject BAD_REQUEST ''Badge subject_pubkey does not match this hub'')) (\<lambda>_.
     and_then (lift (case hex_decode K (bor_signature req) of
         Inl _ \<Rightarrow> Inl (Reject BAD_REQUEST ''Invalid signature hex'') | Inr b \<Rightarrow> Inr b)) (\<lambda>sig.
     and_then (check (verify_signature K (bor_from_key req) (as_bytes (bor_payload req)) sig = Inr ())
       (Reject UNAUTHORIZED ''Badge signature verification failed'')) (\<lambda>_.
     and_then (check (bp_issuer_pubkey payload = bor_from_key req)
       (Reject BAD_REQUEST ''payload.issuer_pubkey does not match from_hub_pubkey'')) (\<lambda>_.
     and_then (insert_offer_row \<lparr>bo_id = i, bo_from_key = bor_from_key req, bo_from_url = bor_from_url req,
       bo_label = bor_label req, bo_note = bor_note req, bo_payload = bor_payload req, bo_signature = bor_signature req,
       bo_created = unix_timestamp_iso secs\<rparr>) (\<lambda>_.
     and_then (check (is_char_boundary (bor_from_key req) (min 16 (length (bor_from_key req)))) Panic) (\<lambda>_.
     ret CREATED)))))))"

definition list_pending_badges :: "badge_codec \<Rightarrow> string \<Rightarrow> (badge_offer_row \<times> badge_payload) list hub_handler" where
  "list_pending_badges B user =
     and_then (require_admin user) (\<lambda>_.
     and_then (gets (\<lambda>s. sort_key bo_created (offers s))) (\<lambda>rows.
     read_payloads B bo_payload rows))"

definition insert_held :: "hub_badge_row \<Rightarrow> unit hub_handler" where
  "insert_held r = writing (\<lambda>s. insert_row (same_key hb_id) True r (held s)) put_held"

definition delete_offer_row :: "string \<Rightarrow> unit hub_handler" where
  "delete_offer_row i = modify (\<lambda>s. put_offers (delete_where (\<lambda>r. bo_id r = i) (offers s)) s)"

definition accept_pending :: "crypto \<Rightarrow> badge_codec \<Rightarrow> identity \<Rightarrow> string \<Rightarrow> nat \<Rightarrow> string \<Rightarrow> string \<Rightarrow> status_code hub_handler" where
  "accept_pending K B ident badge_id secs user i =
     and_then (require_admin user) (\<lambda>_.
     and_then (gets (\<lambda>s. row_at bo_id i (offers s))) (\<lambda>found.
     and_then (ok_or found (Reject NOT_FOUND ''Pending badge offer not found'')) (\<lambda>row.
     and_then (lift (case hex_decode K (bo_signature row) of
         Inl _ \<Rightarrow> Inl (Reject BAD_REQUEST ''Invalid signature hex in stored offer'') | Inr b \<Rightarrow> Inr b)) (\<lambda>sig.
     and_then (check (verify_signature K (bo_from_key row) (as_bytes (bo_payload row)) sig = Inr ())
       (Reject BAD_REQUEST ''Badge signature verification failed'')) (\<lambda>_.
     and_then (lift (case read_badge B (bo_payload row) of
         Inl e \<Rightarrow> Inl (Reject INTERNAL_SERVER_ERROR (''Payload parse error: '' @ e)) | Inr p \<Rightarrow> Inr p)) (\<lambda>payload.
     and_then (check (bp_subject_pubkey payload = public_key_hex K ident)
       (Reject BAD_REQUEST ''Badge subject does not match this hub'')) (\<lambda>_.
     and_then (insert_held \<lparr>hb_id = badge_id, hb_issuer_key = bo_from_key row, hb_issuer_url = bo_from_url row,
       hb_label = bo_label row, hb_payload = bo_payload row, hb_signature = bo_signature row,
       hb_accepted = unix_timestamp_iso secs\<rparr>) (\<lambda>_.
     and_then (delete_offer_row i) (\<lambda>_.
     ret NO_CONTENT)))))))))"

definition decline_pending :: "string \<Rightarrow> string \<Rightarrow> status_code hub_handler" where
  "decline_pending user i =
     and_then (require_admin user) (\<lambda>_.
     and_then (gets (\<lambda>s. exists_row (\<lambda>r. bo_id r = i) (offers s))) (\<lambda>found.
     and_then (delete_offer_row i) (\<lambda>_.
     and_then (check found (Reject NOT_FOUND ''Pending badge offer not found'')) (\<lambda>_.
     ret NO_CONTENT))))"

subsection \<open>Badges held\<close>

definition list_badges :: "badge_codec \<Rightarrow> string \<Rightarrow> (hub_badge_row \<times> badge_payload) list hub_handler" where
  "list_badges B user =
     and_then (require_admin user) (\<lambda>_.
     and_then (gets (\<lambda>s. sort_key hb_accepted (held s))) (\<lambda>rows.
     read_payloads B hb_payload rows))"

definition delete_badge :: "string \<Rightarrow> string \<Rightarrow> status_code hub_handler" where
  "delete_badge user i =
     and_then (require_admin user) (\<lambda>_.
     and_then (gets (\<lambda>s. exists_row (\<lambda>r. hb_id r = i) (held s))) (\<lambda>found.
     and_then (modify (\<lambda>s. put_held (delete_where (\<lambda>r. hb_id r = i) (held s)) s)) (\<lambda>_.
     and_then (check found (Reject NOT_FOUND ''Badge not found'')) (\<lambda>_.
     ret NO_CONTENT))))"

definition expired_at :: "string \<Rightarrow> badge_payload \<Rightarrow> bool" where
  "expired_at now_iso p \<longleftrightarrow> (case bp_expires_at p of None \<Rightarrow> False | Some e \<Rightarrow> e \<le> now_iso)"

definition active_badge :: "badge_codec \<Rightarrow> string \<Rightarrow> hub_badge_row \<Rightarrow> badge_envelope option" where
  "active_badge B now_iso r =
     (case read_badge B (hb_payload r) of
        Inl _ \<Rightarrow> None
      | Inr p \<Rightarrow> if expired_at now_iso p then None else Some \<lparr>env_payload = p, env_signature = hb_signature r\<rparr>)"

definition load_active_badges :: "badge_codec \<Rightarrow> nat \<Rightarrow> hub \<Rightarrow> badge_envelope list" where
  "load_active_badges B secs s = List.map_filter (active_badge B (unix_timestamp_iso secs)) (sort_key hb_accepted (held s))"

subsection \<open>Awarding a badge\<close>

text \<open>
  \<open>net\<close> is the answer of the recipient's \<^verbatim>\<open>/federation/badge-offer\<close>: none when it cannot be reached, else
  whether the status is a success, the status as text, and the body.
\<close>

definition post_badge_offer :: "(string \<Rightarrow> badge_offer_request \<Rightarrow> (bool \<times> string \<times> string) option) \<Rightarrow> string \<Rightarrow> badge_offer_request \<Rightarrow> string + unit" where
  "post_badge_offer net base_url req =
     (case net (base_url @ ''/federation/badge-offer'') req of
        None \<Rightarrow> Inl ''Failed to reach recipient hub''
      | Some (ok, status, body) \<Rightarrow> if ok then Inr () else Inl (''Recipient returned HTTP '' @ status @ '': '' @ body))"

definition insert_issued :: "issued_badge_row \<Rightarrow> unit hub_handler" where
  "insert_issued r = writing (\<lambda>s. insert_row (same_key ib_id) True r (issued s)) put_issued"

definition badge_payload_for :: "crypto \<Rightarrow> identity \<Rightarrow> nat \<Rightarrow> hub \<Rightarrow> string \<Rightarrow> issue_badge_request \<Rightarrow> badge_payload" where
  "badge_payload_for K ident secs s recipient req =
     \<lparr>bp_issuer_pubkey = public_key_hex K ident, bp_issuer_url = load_hub_url s, bp_subject_pubkey = recipient,
      bp_label = ibr_label req, bp_issued_at = unix_timestamp_iso secs,
      bp_expires_at = map_option (\<lambda>days. iso_from_unix (secs + days * 86400)) (ibr_expires_days req)\<rparr>"

definition offer_for :: "crypto \<Rightarrow> badge_codec \<Rightarrow> identity \<Rightarrow> hub \<Rightarrow> issue_badge_request \<Rightarrow> badge_payload \<Rightarrow> badge_offer_request" where
  "offer_for K B ident s req p =
     \<lparr>bor_from_key = public_key_hex K ident, bor_from_url = load_hub_url s, bor_label = ibr_label req, bor_note = ibr_note req,
      bor_payload = write_badge B p, bor_signature = hex_encode K (sign K ident (as_bytes (write_badge B p)))\<rparr>"

definition issue_badge :: "crypto \<Rightarrow> badge_codec \<Rightarrow> identity \<Rightarrow> network \<Rightarrow>
    (string \<Rightarrow> badge_offer_request \<Rightarrow> (bool \<times> string \<times> string) option) \<Rightarrow> string \<Rightarrow> nat \<Rightarrow> string \<Rightarrow> issue_badge_request \<Rightarrow>
    (status_code \<times> issued_badge_row \<times> badge_payload) hub_handler" where
  "issue_badge K B ident net inbox i secs user req =
     and_then (require_admin user) (\<lambda>_.
     let url = trim_end_slash (ibr_recipient_url req) in
     and_then (lift (case get_info net url of
         Inl e \<Rightarrow> Inl (Reject BAD_GATEWAY (''Cannot reach recipient hub: '' @ e)) | Inr x \<Rightarrow> Inr (fst x))) (\<lambda>recipient.
     and_then (gets (\<lambda>s. badge_payload_for K ident secs s recipient req)) (\<lambda>p.
     and_then (gets (\<lambda>s. offer_for K B ident s req p)) (\<lambda>offer.
     and_then (lift (case post_badge_offer inbox url offer of
         Inl e \<Rightarrow> Inl (Reject BAD_GATEWAY (''Failed to deliver badge offer: '' @ e)) | Inr _ \<Rightarrow> Inr ())) (\<lambda>_.
     let r = \<lparr>ib_id = i, ib_recipient_url = url, ib_recipient_key = recipient, ib_label = ibr_label req,
       ib_payload = bor_payload offer, ib_signature = bor_signature offer, ib_issued = bp_issued_at p, ib_expires = bp_expires_at p\<rparr> in
     and_then (insert_issued r) (\<lambda>_.
     and_then (check (16 \<le> length recipient \<and> is_char_boundary recipient 16) Panic) (\<lambda>_.
     ret (CREATED, r, p))))))))"

definition list_issued :: "badge_codec \<Rightarrow> string \<Rightarrow> (issued_badge_row \<times> badge_payload) list hub_handler" where
  "list_issued B user =
     and_then (require_admin user) (\<lambda>_.
     and_then (gets (\<lambda>s. sort_key ib_issued (issued s))) (\<lambda>rows.
     read_payloads B ib_payload rows))"

subsection \<open>The public face\<close>

record info_response =
  inf_name :: string
  inf_description :: "string option"
  inf_icon :: "string option"
  inf_version :: string
  inf_public_key :: string
  inf_min_security_level :: nat
  inf_min_pow_level :: nat
  inf_invite_only :: bool
  inf_challenge_mode :: string
  inf_farm_url :: "string option"
  inf_self_tags :: "string list"
  inf_nsfw :: bool
  inf_badges :: "badge_envelope list"
  inf_cert_requirement :: "cert_requirement option"
  inf_screen_share_v2 :: bool

definition info :: "crypto \<Rightarrow> codec \<Rightarrow> badge_codec \<Rightarrow> (string \<Rightarrow> string list option) \<Rightarrow> identity \<Rightarrow> string \<Rightarrow> string \<Rightarrow> nat \<Rightarrow> hub \<Rightarrow> info_response" where
  "info K C B dec ident start_name version secs s =
     (let branding = read_branding start_name s in
      \<lparr>inf_name = br_name branding, inf_description = br_description branding, inf_icon = br_icon branding, inf_version = version,
       inf_public_key = public_key_hex K ident, inf_min_security_level = number_setting ''min_security_level'' (2 ^ 32) s,
       inf_min_pow_level = number_setting ''min_pow_level'' 256 s, inf_invite_only = flag_setting ''invite_only'' s,
       inf_challenge_mode = setting_or ''challenge_mode'' ''off'' s, inf_farm_url = farm_url s, inf_self_tags = load_tags dec s,
       inf_nsfw = load_nsfw s, inf_badges = load_active_badges B secs s, inf_cert_requirement = load_cert_requirement C s,
       inf_screen_share_v2 = True\<rparr>)"

subsection \<open>The requests\<close>

type_synonym inbox = "string \<Rightarrow> badge_offer_request \<Rightarrow> (bool \<times> string \<times> string) option"

datatype badge_op =
    ReceiveOffer string nat badge_offer_request
  | AcceptOffer string nat string string
  | DeclineOffer string string
  | DeleteBadge string string
  | IssueBadge network inbox string nat string issue_badge_request

fun badge_step :: "crypto \<Rightarrow> badge_codec \<Rightarrow> identity \<Rightarrow> hub \<Rightarrow> badge_op \<Rightarrow> hub" where
  "badge_step K B ident s (ReceiveOffer i secs req) = snd (receive_badge_offer K B ident i secs req s)"
| "badge_step K B ident s (AcceptOffer j secs user i) = snd (accept_pending K B ident j secs user i s)"
| "badge_step K B ident s (DeclineOffer user i) = snd (decline_pending user i s)"
| "badge_step K B ident s (DeleteBadge user i) = snd (delete_badge user i s)"
| "badge_step K B ident s (IssueBadge net ib i secs user req) = snd (issue_badge K B ident net ib i secs user req s)"

subsection \<open>Genuine badges\<close>

definition genuine :: "crypto \<Rightarrow> badge_codec \<Rightarrow> identity \<Rightarrow> string \<Rightarrow> string \<Rightarrow> string \<Rightarrow> bool" where
  "genuine K B ident issuer text sig \<longleftrightarrow> check_sig K issuer (as_bytes text) sig = Inr () \<and>
     (case read_badge B text of Inl _ \<Rightarrow> False
      | Inr p \<Rightarrow> bp_subject_pubkey p = public_key_hex K ident \<and> bp_issuer_pubkey p = issuer)"

definition offers_genuine :: "crypto \<Rightarrow> badge_codec \<Rightarrow> identity \<Rightarrow> hub \<Rightarrow> bool" where
  "offers_genuine K B ident s \<longleftrightarrow> list_all (\<lambda>r. genuine K B ident (bo_from_key r) (bo_payload r) (bo_signature r)) (offers s)"

lemma offers_put [simp]: "offers (put_held t s) = offers s" "offers (put_issued u s) = offers s" "offers (put_offers v s) = v"
  and held_put [simp]: "held (put_held t s) = t" "held (put_issued u s) = held s" "held (put_offers v s) = held s"
  by (simp_all add: offers_def held_def put_held_def put_issued_def put_offers_def)

lemma receive_keeps_genuine: "preserves (offers_genuine K B ident) (receive_badge_offer K B ident i secs req)"
  unfolding preserves_def wp_always [symmetric] receive_badge_offer_def insert_offer_row_def offers_genuine_def
  by (auto simp: wps insert_row_def genuine_def check_sig_def split: sum.splits if_splits)

lemma offers_step:
  assumes "offers_genuine K B ident s"
  shows "offers_genuine K B ident (badge_step K B ident s op)"
proof -
  let ?P = "offers_genuine K B ident"
  have del: "preserves ?P (delete_offer_row i)" for i
    unfolding delete_offer_row_def by (rule preserves_modify) (auto simp: offers_genuine_def delete_where_def list_all_iff)
  have "preserves ?P (accept_pending K B ident j secs user i)" "preserves ?P (decline_pending user i)" "preserves ?P (delete_badge user i)"
    "preserves ?P (issue_badge K B ident net ib i secs user req)" for j secs user i net ib req
    unfolding accept_pending_def decline_pending_def delete_badge_def issue_badge_def insert_held_def insert_issued_def Let_def
    by (intro keeps del preserves_writing preserves_modify; simp add: offers_genuine_def)+
  then show ?thesis using assms receive_keeps_genuine by (cases op) (auto simp: preserves_def)
qed

definition accepted_by_admin :: "crypto \<Rightarrow> badge_codec \<Rightarrow> identity \<Rightarrow> hub \<Rightarrow> badge_op \<Rightarrow> hub_badge_row \<Rightarrow> bool" where
  "accepted_by_admin K B ident s op b \<longleftrightarrow> genuine K B ident (hb_issuer_key b) (hb_payload b) (hb_signature b) \<and>
     (case op of AcceptOffer j secs user i \<Rightarrow> is_admin s user \<and> hb_id b = j | _ \<Rightarrow> False)"

lemma accept_adds:
  assumes "offers_genuine K B ident s" "b \<in> set (held (snd (accept_pending K B ident j secs user i s)))" "b \<notin> set (held s)"
  shows "accepted_by_admin K B ident s (AcceptOffer j secs user i) b"
proof -
  let ?Q = "\<lambda>t. b \<in> set (held t) \<longrightarrow> accepted_by_admin K B ident s (AcceptOffer j secs user i) b"
  have "wp (accept_pending K B ident j secs user i) (\<lambda>_. ?Q) (\<lambda>_. ?Q) s"
    using assms(1,3)
    by (auto simp: accept_pending_def require_admin_def require_permission_def insert_held_def delete_offer_row_def wps
        insert_row_def accepted_by_admin_def is_admin_def offers_genuine_def list_all_iff
        split: option.splits sum.splits if_splits dest!: row_at_key)
  with assms(2) show ?thesis unfolding wp_always by blast
qed

definition accepts :: "badge_op \<Rightarrow> bool" where
  "accepts op = (case op of AcceptOffer _ _ _ _ \<Rightarrow> True | _ \<Rightarrow> False)"

lemma held_shrinks: "\<not> accepts op \<Longrightarrow> set (held (badge_step K B ident s op)) \<subseteq> set (held s)"
proof -
  have "preserves (\<lambda>t. set (held t) \<subseteq> set (held s)) (receive_badge_offer K B ident i secs req)"
    "preserves (\<lambda>t. set (held t) \<subseteq> set (held s)) (decline_pending user i)"
    "preserves (\<lambda>t. set (held t) \<subseteq> set (held s)) (delete_badge user i)"
    "preserves (\<lambda>t. set (held t) \<subseteq> set (held s)) (issue_badge K B ident net ib i secs user r)" for i secs req user net ib r
    unfolding receive_badge_offer_def decline_pending_def delete_badge_def issue_badge_def insert_offer_row_def delete_offer_row_def
      insert_issued_def Let_def
    by (intro keeps preserves_writing preserves_modify; auto simp: delete_where_def)+
  then show "\<not> accepts op \<Longrightarrow> ?thesis" by (cases op) (simp_all add: preserves_def accepts_def)
qed

interpretation accepting: traced "offers_genuine K B ident" "badge_step K B ident" "\<lambda>b s. b \<in> set (held s)"
  "accepted_by_admin K B ident" for K B ident
proof unfold_locales
  show "offers_genuine K B ident s \<Longrightarrow> offers_genuine K B ident (badge_step K B ident s op)" for s op by (rule offers_step)
  fix s op b assume g: "offers_genuine K B ident s" and b: "b \<in> set (held (badge_step K B ident s op))"
  show "b \<in> set (held s) \<or> accepted_by_admin K B ident s op b"
  proof (cases "accepts op")
    case True
    then obtain j n user i where "op = AcceptOffer j n user i" by (cases op) (auto simp: accepts_def)
    with b accept_adds [OF g, of b j n user i] show ?thesis by auto
  next
    case False
    with b held_shrinks show ?thesis by blast
  qed
qed

text \<open>
  Every badge the hub shows, after any sequence of requests from an empty collection, names
  this hub as its subject, has not expired, is the reading of a text that its issuer signed, and was
  accepted by an administrator.
\<close>

theorem badges_shown_are_genuine:
  assumes "offers_genuine K B ident s" "held s = []"
    and "e \<in> set (load_active_badges B secs (run (badge_step K B ident) s ops))"
  shows "bp_subject_pubkey (env_payload e) = public_key_hex K ident \<and> \<not> expired_at (unix_timestamp_iso secs) (env_payload e) \<and>
    (\<exists>text. read_badge B text = Inr (env_payload e) \<and>
      check_sig K (bp_issuer_pubkey (env_payload e)) (as_bytes text) (env_signature e) = Inr ()) \<and>
    (\<exists>pre j n user i post. ops = pre @ AcceptOffer j n user i # post \<and> is_admin (run (badge_step K B ident) s pre) user)"
proof -
  obtain b where b: "b \<in> set (held (run (badge_step K B ident) s ops))" "active_badge B (unix_timestamp_iso secs) b = Some e"
    using assms(3) by (auto simp: load_active_badges_def List.map_filter_def)
  obtain pre op post where run: "ops = pre @ op # post" "accepted_by_admin K B ident (run (badge_step K B ident) s pre) op b"
    using accepting.granted_in_run [OF assms(1) b(1)] assms(2) by auto
  from run(2) obtain j n user i where "op = AcceptOffer j n user i" "is_admin (run (badge_step K B ident) s pre) user"
    by (cases op) (auto simp: accepted_by_admin_def)
  moreover have "bp_subject_pubkey (env_payload e) = public_key_hex K ident \<and> \<not> expired_at (unix_timestamp_iso secs) (env_payload e) \<and>
      read_badge B (hb_payload b) = Inr (env_payload e) \<and>
      check_sig K (bp_issuer_pubkey (env_payload e)) (as_bytes (hb_payload b)) (env_signature e) = Inr ()"
    using run(2) b(2) by (auto simp: accepted_by_admin_def genuine_def active_badge_def split: sum.splits if_splits)
  ultimately show ?thesis using run(1) by blast
qed

subsection \<open>A badge from one hub to another\<close>

lemma not_exists_key: "row_at key k t = None \<Longrightarrow> key r = k \<Longrightarrow> \<not> exists_row (same_key key r) t"
  by (auto simp: exists_row_iff row_at_None_iff same_key_def)

definition offer_row :: "string \<Rightarrow> nat \<Rightarrow> badge_offer_request \<Rightarrow> badge_offer_row" where
  "offer_row i secs req = \<lparr>bo_id = i, bo_from_key = bor_from_key req, bo_from_url = bor_from_url req, bo_label = bor_label req,
     bo_note = bor_note req, bo_payload = bor_payload req, bo_signature = bor_signature req, bo_created = unix_timestamp_iso secs\<rparr>"

lemma receive_run:
  assumes "genuine K B ident (bor_from_key req) (bor_payload req) (bor_signature req)" "row_at bo_id i (offers s) = None"
    "is_char_boundary (bor_from_key req) (min 16 (length (bor_from_key req)))"
  shows "receive_badge_offer K B ident i secs req s = (Inr CREATED, put_offers (offers s @ [offer_row i secs req]) s)"
  using assms not_exists_key [OF assms(2), of "offer_row i secs req"]
  by (auto simp: receive_badge_offer_def insert_offer_row_def offer_row_def writing_def insert_row_def genuine_def check_sig_def run_defs
      split: sum.splits)

definition badge_of :: "string \<Rightarrow> nat \<Rightarrow> badge_offer_row \<Rightarrow> hub_badge_row" where
  "badge_of j secs row = \<lparr>hb_id = j, hb_issuer_key = bo_from_key row, hb_issuer_url = bo_from_url row, hb_label = bo_label row,
     hb_payload = bo_payload row, hb_signature = bo_signature row, hb_accepted = unix_timestamp_iso secs\<rparr>"

lemma accept_run:
  assumes "is_admin s user" "row_at bo_id i (offers s) = Some r" "genuine K B ident (bo_from_key r) (bo_payload r) (bo_signature r)"
    "row_at hb_id j (held s) = None"
  shows "held (snd (accept_pending K B ident j secs user i s)) = held s @ [badge_of j secs r]"
  using assms not_exists_key [OF assms(4), of "badge_of j secs r"]
  by (auto simp: accept_pending_def require_admin_def require_permission_def is_admin_def insert_held_def delete_offer_row_def
      badge_of_def writing_def insert_row_def genuine_def check_sig_def run_defs split: sum.splits)

text \<open>The recipient's mailbox: the answer is that of the recipient's own handler.\<close>

definition mailbox_of :: "crypto \<Rightarrow> badge_codec \<Rightarrow> identity \<Rightarrow> string \<Rightarrow> nat \<Rightarrow> hub \<Rightarrow> inbox" where
  "mailbox_of K B ident i secs t url req =
     (case fst (receive_badge_offer K B ident i secs req t) of Inl _ \<Rightarrow> Some (False, [], []) | Inr _ \<Rightarrow> Some (True, [], []))"

definition award :: "crypto \<Rightarrow> badge_codec \<Rightarrow> identity \<Rightarrow> identity \<Rightarrow> nat \<Rightarrow> hub \<Rightarrow> issue_badge_request \<Rightarrow> badge_payload" where
  "award K B a b secs s req = badge_payload_for K a secs s (public_key_hex K b) req"

lemma award_genuine:
  assumes "hex_roundtrip K" "signing_correct K" "length (signing_key a) = 32" "\<And>p. read_badge B (write_badge B p) = Inr p"
  shows "genuine K B b (bor_from_key (offer_for K B a s req (award K B a b secs s req)))
      (bor_payload (offer_for K B a s req (award K B a b secs s req))) (bor_signature (offer_for K B a s req (award K B a b secs s req)))"
  using assms sign_verifies [OF assms(1-3)]
  by (simp add: genuine_def offer_for_def award_def badge_payload_for_def check_sig_def hex_roundtrip_def)

lemma award_accepted:
  assumes laws: "hex_roundtrip K" "signing_correct K" "length (signing_key a) = 32" "\<And>p. read_badge B (write_badge B p) = Inr p"
    and "is_admin t user'" "row_at bo_id i (offers t) = None" "row_at hb_id j (held t) = None"
    and "is_char_boundary (public_key_hex K a) (min 16 (length (public_key_hex K a)))"
    and p: "p = award K B a b secs s req" and offer: "offer = offer_for K B a s req p"
    and t': "t' = snd (accept_pending K B b j secs' user' i (snd (receive_badge_offer K B b i secs offer t)))"
    and valid: "\<not> expired_at (unix_timestamp_iso later) p"
  shows "fst (receive_badge_offer K B b i secs offer t) = Inr CREATED"
    and "\<lparr>env_payload = p, env_signature = bor_signature offer\<rparr> \<in> set (load_active_badges B later t')"
proof -
  have g: "genuine K B b (bor_from_key offer) (bor_payload offer) (bor_signature offer)"
    unfolding offer p by (rule award_genuine [OF laws])
  have rec: "receive_badge_offer K B b i secs offer t = (Inr CREATED, put_offers (offers t @ [offer_row i secs offer]) t)"
    by (rule receive_run [OF g]) (use assms in \<open>simp_all add: offer_for_def\<close>)
  then show "fst (receive_badge_offer K B b i secs offer t) = Inr CREATED" by simp
  let ?u = "put_offers (offers t @ [offer_row i secs offer]) t"
  have "row_at bo_id i (offers ?u) = Some (offer_row i secs offer)"
    using assms(6) by (simp add: row_at_append) (simp add: row_at_def offer_row_def)
  moreover have "is_admin ?u user'"
    using assms(5) user_permissions_cong [of ?u t] by (simp add: is_admin_def put_offers_def)
  ultimately have held': "held t' = held t @ [badge_of j secs' (offer_row i secs offer)]"
    using accept_run [of ?u user' i "offer_row i secs offer" K B b j secs'] g assms(7) by (simp add: t' rec offer_row_def)
  have "active_badge B (unix_timestamp_iso later) (badge_of j secs' (offer_row i secs offer)) =
      Some \<lparr>env_payload = p, env_signature = bor_signature offer\<rparr>"
    using valid laws(4) by (simp add: active_badge_def badge_of_def offer_row_def offer offer_for_def)
  then show "\<lparr>env_payload = p, env_signature = bor_signature offer\<rparr> \<in> set (load_active_badges B later t')"
    by (force simp: load_active_badges_def List.map_filter_def held')
qed

text \<open>
  C38. When an administrator of one hub awards a badge to another hub and an administrator there
  accepts it, the other hub shows exactly that badge until it expires, and the signature shown with
  it verifies for whoever writes the badge down again. Both hubs are states of the model, and the
  message between them is answered by the recipient's own handler.
\<close>

theorem awarded_badge_is_shown:
  assumes laws: "hex_roundtrip K" "signing_correct K" "length (signing_key a) = 32" "\<And>p. read_badge B (write_badge B p) = Inr p"
    and admins: "is_admin s user" "is_admin t user'"
    and net: "get_info net (trim_end_slash (ibr_recipient_url req)) = Inr (public_key_hex K b, name)"
    and fresh: "row_at bo_id i (offers t) = None" "row_at hb_id j (held t) = None" "row_at ib_id k (issued s) = None"
    and keys: "is_char_boundary (public_key_hex K a) (min 16 (length (public_key_hex K a)))"
      "16 \<le> length (public_key_hex K b)" "is_char_boundary (public_key_hex K b) 16"
    and p: "p = award K B a b secs s req" and offer: "offer = offer_for K B a s req p"
    and t': "t' = snd (accept_pending K B b j secs' user' i (snd (receive_badge_offer K B b i secs offer t)))"
    and valid: "\<not> expired_at (unix_timestamp_iso later) p"
  shows "(\<exists>row s'. issue_badge K B a net (mailbox_of K B b i secs t) k secs user req s = (Inr (CREATED, row, p), s') \<and> row \<in> set (issued s')) \<and>
    \<lparr>env_payload = p, env_signature = bor_signature offer\<rparr> \<in> set (load_active_badges B later t') \<and>
    check_sig K (bp_issuer_pubkey p) (as_bytes (write_badge B p)) (bor_signature offer) = Inr ()"
proof -
  note accepted = award_accepted [OF laws admins(2) fresh(1,2) keys(1) p offer t' valid]
  have "post_badge_offer (mailbox_of K B b i secs t) url offer = Inr ()" for url
    by (simp add: post_badge_offer_def mailbox_of_def accepted)
  then have "\<exists>row s'. issue_badge K B a net (mailbox_of K B b i secs t) k secs user req s = (Inr (CREATED, row, p), s') \<and> row \<in> set (issued s')"
    using admins(1) net keys(2,3) not_exists_key [OF fresh(3)]
    by (simp add: issue_badge_def require_admin_def require_permission_def is_admin_def insert_issued_def writing_def insert_row_def
        run_defs Let_def p award_def offer put_issued_def issued_def)
  moreover have "genuine K B b (bor_from_key offer) (bor_payload offer) (bor_signature offer)"
    unfolding offer p by (rule award_genuine [OF laws])
  ultimately show ?thesis using accepted by (simp add: genuine_def offer offer_for_def p award_def badge_payload_for_def)
qed

subsection \<open>A concrete award\<close>

definition demo_badge_codec :: badge_codec where
  "demo_badge_codec = \<lparr>write_badge = (\<lambda>p. demo_show_list ([bp_issuer_pubkey p, bp_issuer_url p, bp_subject_pubkey p, bp_label p, bp_issued_at p] @
       (case bp_expires_at p of None \<Rightarrow> [] | Some e \<Rightarrow> [e]))),
     read_badge = (\<lambda>x. case demo_read_list x of
         Some [a, b, c, d, e] \<Rightarrow> Inr \<lparr>bp_issuer_pubkey = a, bp_issuer_url = b, bp_subject_pubkey = c, bp_label = d, bp_issued_at = e, bp_expires_at = None\<rparr>
       | Some [a, b, c, d, e, f] \<Rightarrow> Inr \<lparr>bp_issuer_pubkey = a, bp_issuer_url = b, bp_subject_pubkey = c, bp_label = d, bp_issued_at = e, bp_expires_at = Some f\<rparr>
       | _ \<Rightarrow> Inl ''bad'')\<rparr>"

lemma demo_badge_roundtrip: "read_badge demo_badge_codec (write_badge demo_badge_codec p) = Inr p"
  by (cases "bp_expires_at p") (simp_all add: demo_badge_codec_def demo_list_roundtrip del: demo_show_list.simps)

definition demo_award :: issue_badge_request where
  "demo_award = \<lparr>ibr_recipient_url = ''https://b'', ibr_label = ''Best'', ibr_note = None, ibr_expires_days = None\<rparr>"

definition demo_badge :: badge_payload where
  "demo_badge = award demo_crypto demo_badge_codec demo_identity demo_identity 5 demo_hub demo_award"

definition demo_offer :: badge_offer_request where
  "demo_offer = offer_for demo_crypto demo_badge_codec demo_identity demo_hub demo_award demo_badge"

lemma demo_award_facts:
  "length (signing_key demo_identity) = 32" "is_admin demo_hub demo_owner" "row_at bo_id i (offers demo_hub) = None"
  "row_at hb_id j (held demo_hub) = None" "row_at ib_id k (issued demo_hub) = None" "\<not> expired_at x demo_badge"
  "is_char_boundary (public_key_hex demo_crypto demo_identity) 16" "16 \<le> length (public_key_hex demo_crypto demo_identity)"
proof -
  show "is_admin demo_hub demo_owner" by code_simp
  have "offers demo_hub = []" "held demo_hub = []" "issued demo_hub = []" by code_simp+
  then show "row_at bo_id i (offers demo_hub) = None" "row_at hb_id j (held demo_hub) = None" "row_at ib_id k (issued demo_hub) = None"
    by (simp_all add: row_at_def)
  show "\<not> expired_at x demo_badge" by (simp add: expired_at_def demo_badge_def award_def badge_payload_for_def demo_award_def)
  show "is_char_boundary (public_key_hex demo_crypto demo_identity) 16" "16 \<le> length (public_key_hex demo_crypto demo_identity)"
    "length (signing_key demo_identity) = 32"
    by (simp_all add: public_key_hex_def demo_identity_def is_char_boundary_def)
qed

theorem badges_shown_are_genuine_witness:
  "\<exists>e. e \<in> set (load_active_badges demo_badge_codec 9 (run (badge_step demo_crypto demo_badge_codec demo_identity) demo_hub
      [ReceiveOffer ''o'' 5 demo_offer, AcceptOffer ''b'' 6 demo_owner ''o''])) \<and>
    bp_subject_pubkey (env_payload e) = public_key_hex demo_crypto demo_identity"
proof -
  let ?e = "\<lparr>env_payload = demo_badge, env_signature = bor_signature demo_offer\<rparr>"
  have "?e \<in> set (load_active_badges demo_badge_codec 9 (run (badge_step demo_crypto demo_badge_codec demo_identity) demo_hub
      [ReceiveOffer ''o'' 5 demo_offer, AcceptOffer ''b'' 6 demo_owner ''o'']))"
    using award_accepted(2) [OF demo_hex_roundtrip demo_signing_correct demo_award_facts(1) demo_badge_roundtrip demo_award_facts(2,3,4) _
        demo_badge_def demo_offer_def refl demo_award_facts(6)] demo_award_facts(7,8) by (simp add: min_def)
  moreover have "offers_genuine demo_crypto demo_badge_codec demo_identity demo_hub" "held demo_hub = []" by code_simp+
  ultimately show ?thesis using badges_shown_are_genuine by blast
qed

theorem awarded_badge_is_shown_witness:
  "\<lparr>env_payload = demo_badge, env_signature = bor_signature demo_offer\<rparr> \<in> set (load_active_badges demo_badge_codec 9
     (snd (accept_pending demo_crypto demo_badge_codec demo_identity ''b'' 6 demo_owner ''o''
       (snd (receive_badge_offer demo_crypto demo_badge_codec demo_identity ''o'' 5 demo_offer demo_hub)))))"
proof -
  let ?net = "\<lambda>_. demo_server\<lparr>ps_info := Body (public_key_hex demo_crypto demo_identity, ''B'')\<rparr>"
  have info: "get_info ?net (trim_end_slash (ibr_recipient_url demo_award)) = Inr (public_key_hex demo_crypto demo_identity, ''B'')"
    by (simp add: get_info_def http_context_def)
  have key: "is_char_boundary (public_key_hex demo_crypto demo_identity) (min 16 (length (public_key_hex demo_crypto demo_identity)))"
    using demo_award_facts(7,8) by (simp add: min_def)
  show ?thesis
    using awarded_badge_is_shown [OF demo_hex_roundtrip demo_signing_correct demo_award_facts(1) demo_badge_roundtrip
        demo_award_facts(2,2) info demo_award_facts(3,4,5) key demo_award_facts(8,7) demo_badge_def demo_offer_def refl demo_award_facts(6)]
    by blast
qed

subsection \<open>What the signature leaves open\<close>

text \<open>The label and the address shown with an offer are outside the signed text: they can be anything.\<close>

lemma offer_label_unsigned:
  "fst (receive_badge_offer K B ident i secs (req\<lparr>bor_label := l, bor_from_url := u\<rparr>) s) = fst (receive_badge_offer K B ident i secs req s)"
  by (simp add: receive_badge_offer_def insert_offer_row_def writing_def insert_row_def same_key_def [abs_def] run_defs split: sum.splits)

text \<open>A recipient that reports a key of fewer than 16 bytes panics the handler, with the badge already recorded and delivered.\<close>

lemma short_recipient_panics:
  assumes "is_admin s user" "get_info net (trim_end_slash (ibr_recipient_url req)) = Inr (recipient, name)" "length recipient < 16"
    and "\<And>url off. ib url off = Some (True, [], [])" "row_at ib_id k (issued s) = None"
  shows "\<exists>t. issue_badge K B a net ib k secs user req s = (Inl Panic, t) \<and> k \<in> ib_id ` set (issued t)"
  using assms not_exists_key [OF assms(5)]
  by (simp add: issue_badge_def require_admin_def require_permission_def is_admin_def insert_issued_def writing_def insert_row_def
      post_badge_offer_def run_defs Let_def put_issued_def issued_def)

text \<open>A badge that runs past the year 9999 counts as expired from the start.\<close>

lemma far_badge_never_shown:
  "expired_at (unix_timestamp_iso 1778443200) (p\<lparr>bp_expires_at := Some (iso_from_unix YEAR_10000)\<rparr>)"
  using far_future_sorts_first by (simp add: expired_at_def unix_timestamp_iso_def)

text \<open>Before that year the comparison of the printed times is the comparison of the times.\<close>

lemma expiry_is_by_time:
  assumes "bp_expires_at p = Some (iso_from_unix e)" "e < YEAR_10000" "now < YEAR_10000"
  shows "expired_at (unix_timestamp_iso now) p \<longleftrightarrow> e \<le> now"
  using assms iso_less_iff [of now e] by (simp add: expired_at_def unix_timestamp_iso_def not_less [symmetric])

end
