(* ===== verification/Live.thy ===== *)
theory Live
  imports Events Outbox "HOL-Library.AList"
begin

text \<open>
  The WebSocket connections of a hub, from \<^verbatim>\<open>hub/src/routes/ws.rs\<close>, the forwarding of voice packets of
  \<^verbatim>\<open>hub/src/main.rs\<close> and the voice read-outs of \<^verbatim>\<open>hub/src/routes/channels.rs\<close>. A connection's local
  variables are a record; a client frame takes the hub and the connection to new ones and a list of
  frames for its socket. What other tasks broadcast reaches a connection through the delivery
  functions, which change nothing. Hash maps are association lists in iteration order.

  Main results: whoever is in a voice channel passed its gates when joining; a channel has at most
  one sharer; direct messages reach members of the conversation only; and what a connection is sent
  of others' messages comes from channels it subscribed to.
\<close>

subsection \<open>Connections\<close>

record connection =
  con_id :: nat
  con_key :: string
  con_is_bot :: bool
  con_voice :: "string option"
  con_pending :: "(string \<times> string \<times> u32 \<times> bool) option"
  con_conversations :: "string set"
  con_subscribed :: "string set"
  con_component_times :: "((string \<times> string) \<times> nat) list"
  con_queue :: "json list"

text \<open>The frames a socket is sent.\<close>

datatype frame =
    Hello int
  | ShareStarted string string string string string bool
  | ShareChunkOut string string string u32 bool
  | BinaryFrame "u8 list"
  | WsError string string
  | VoiceJoined string nat "(string \<times> string option) list"
  | VoiceFrame voice_frame
  | ChatFrame chat_event
  | DmFrame dm_push
  | BotFrame json
  | ReplayUnavailable int int
  | ReplayComplete nat int

datatype client_message =
    Subscribe string
  | Unsubscribe string
  | VoiceJoin string "16 word"
  | VoiceLeave string
  | VoiceSpeaking string bool
  | Typing string bool
  | DmTypingIn string bool
  | ScreenShareStart string string string string bool
  | ScreenShareChunk string string u32 bool
  | ScreenShareStop string string
  | ScreenShareViewerJoin string string
  | ScreenShareViewerLeave string string
  | ScreenShareOffer string string string string
  | ScreenShareAnswer string string string string
  | ScreenShareIce string string string string
  | Resume int
  | ComponentInteraction string string "string list"

type_synonym outcome = "hub \<times> connection \<times> frame list"

definition with_live :: "(live_state \<Rightarrow> live_state) \<Rightarrow> hub \<Rightarrow> hub" where
  "with_live f s = s\<lparr>live := f (live s)\<rparr>"

definition emit_voice :: "string \<Rightarrow> voice_frame \<Rightarrow> hub \<Rightarrow> hub" where
  "emit_voice c f s = with_live (\<lambda>l. l\<lparr>voice_event_tx := voice_event_tx l @ [(c, f)]\<rparr>) s"

definition emit_chat :: "chat_event \<Rightarrow> hub \<Rightarrow> hub" where
  "emit_chat e s = s\<lparr>chat_tx := chat_tx s @ [e]\<rparr>"

definition spawn_event :: "hub_event \<Rightarrow> hub \<Rightarrow> hub" where
  "spawn_event e s = s\<lparr>spawned := spawned s @ [e]\<rparr>"

subsection \<open>Opening a connection\<close>

definition ws_handler :: "string \<Rightarrow> hub \<Rightarrow> failure + string" where
  "ws_handler token s =
     (case row_at session_token token (sessions s) of
        None \<Rightarrow> Inl (Reject UNAUTHORIZED ''Invalid token'')
      | Some r \<Rightarrow>
          if 0 < count_rows (\<lambda>v. rev_subkey v = session_user r) (subkey_revocations s)
          then Inl (Reject UNAUTHORIZED ''Key has been revoked'')
          else if \<not> is_char_boundary (session_user r) (min 16 (length (session_user r))) then Inl Panic
          else Inr (session_user r))"

definition is_bot_key :: "hub \<Rightarrow> string \<Rightarrow> bool" where
  "is_bot_key s pk \<longleftrightarrow> (case row_at user_key pk (users s) of None \<Rightarrow> False | Some u \<Rightarrow> user_is_bot u \<noteq> 0)"

definition my_conversations :: "hub \<Rightarrow> string \<Rightarrow> string set" where
  "my_conversations s pk = set (map cm_conversation (filter (\<lambda>m. cm_key m = pk) (conversation_members s)))"

definition auto_subscribed :: "hub \<Rightarrow> string \<Rightarrow> string set" where
  "auto_subscribed s pk = set (map channel_id (filter (\<lambda>c. channel_is_category c = 0 \<and>
     \<not> exists_row (\<lambda>b. cb_channel b = channel_id c \<and> cb_target b = pk) (channel_bans s)) (channels s)))"

text \<open>The two frames that introduce a stream, the second with its cached first chunk.\<close>

definition introduce :: "string \<Rightarrow> string \<times> stream_meta \<Rightarrow> frame list" where
  "introduce c st =
     ShareStarted c (fst st) (sm_sharer (snd st)) (sm_kind (snd st)) (sm_mime (snd st)) (sm_has_audio (snd st)) #
     (case sm_init_chunk (snd st) of None \<Rightarrow> []
      | Some b \<Rightarrow> [ShareChunkOut c (fst st) (sm_sharer (snd st)) 0 True, BinaryFrame b])"

definition shares_in_progress :: "(string \<Rightarrow> bool) \<Rightarrow> (stream_meta \<Rightarrow> bool) \<Rightarrow> hub \<Rightarrow> frame list" where
  "shares_in_progress wanted_channel wanted_stream s =
     concat (map (\<lambda>((c, _), a). if wanted_channel c
       then concat (map (introduce c) (filter (\<lambda>st. wanted_stream (snd st)) (share_streams a))) else [])
       (screen_shares (live s)))"

definition open_connection :: "nat \<Rightarrow> nat \<Rightarrow> string \<Rightarrow> hub \<Rightarrow> outcome" where
  "open_connection i instant pk s =
     (let c = \<lparr>con_id = i, con_key = pk, con_is_bot = is_bot_key s pk, con_voice = None, con_pending = None,
            con_conversations = my_conversations s pk, con_subscribed = auto_subscribed s pk, con_component_times = [],
            con_queue = []\<rparr>;
          s' = with_live (\<lambda>l. l\<lparr>online_users := insert pk (online_users l),
            bot_sessions := (if con_is_bot c then (bot_sessions l)(pk \<mapsto> i) else bot_sessions l)\<rparr>) s
      in (s', c, Hello (hub_audit_seq s) #
            shares_in_progress (\<lambda>ch. ch \<in> con_subscribed c) (\<lambda>m. sm_started m < instant) s))"

subsection \<open>Voice\<close>

definition min_talk_power :: "hub \<Rightarrow> string \<Rightarrow> int" where
  "min_talk_power s c =
     (let m = (case row_at channel_id c (channels s) of None \<Rightarrow> 0 | Some r \<Rightarrow> channel_min_talk_power r) in
      if m = 0 then (case row_at cs_channel c (channel_settings s) of None \<Rightarrow> 0 | Some r \<Rightarrow> cs_min_talk_power r) else m)"

definition effective_power :: "hub \<Rightarrow> string \<Rightarrow> int" where
  "effective_power s pk = max (max_or_zero (map role_talk_power (roles_of s pk))) (max_priority (user_permissions pk s))"

definition voice_gate :: "hub \<Rightarrow> string \<Rightarrow> string \<Rightarrow> string option" where
  "voice_gate s c pk =
     (if is_voice_muted s pk then Some ''You are voice-muted on this hub.''
      else if is_channel_voice_muted s c pk then Some ''You are voice-muted in this channel.''
      else if 0 < min_talk_power s c \<and> effective_power s pk < min_talk_power s c \<and> \<not> has_raised_hand s c pk
      then Some (''This channel requires talk priority '' @ show_int (min_talk_power s c) @ ''; you have '' @
        show_int (effective_power s pk) @ ''. Raise your hand to request access.'')
      else None)"

definition participants :: "hub \<Rightarrow> string \<Rightarrow> (string \<times> 16 word) list" where
  "participants s c = (case map_of (voice_channels (live s)) c of None \<Rightarrow> [] | Some p \<Rightarrow> p)"

definition get_voice_participants :: "hub \<Rightarrow> string \<Rightarrow> (string \<times> string option) list" where
  "get_voice_participants s c = map (\<lambda>(pk, _). (pk, display_name s pk)) (participants s c)"

definition enter_voice :: "string \<Rightarrow> string \<Rightarrow> 16 word \<Rightarrow> hub \<Rightarrow> hub" where
  "enter_voice pk c addr s = with_live (\<lambda>l. l\<lparr>
     voice_channels := AList.update c (AList.update pk addr (participants s c)) (voice_channels l),
     voice_addr_map := AList.update addr (c, pk) (voice_addr_map l)\<rparr>) s"

definition voice_join :: "nat \<Rightarrow> string \<Rightarrow> 16 word \<Rightarrow> connection \<Rightarrow> hub \<Rightarrow> outcome" where
  "voice_join udp c addr k s =
     (case voice_gate s c (con_key k) of
        Some e \<Rightarrow> (s, k, [WsError ''voice_join'' e])
      | None \<Rightarrow>
          let pk = con_key k;
              s1 = enter_voice pk c addr s;
              s2 = emit_voice c (VoiceParticipantJoined c pk (display_name s pk)) s1;
              s3 = spawn_event \<lparr>ev_type = ''member.joined'', ev_actor = Some pk, ev_target = None, ev_channel = Some c,
                ev_payload = JObj [(''display_name'', json_opt (display_name s pk))]\<rparr> s2
          in (s3, k\<lparr>con_voice := Some c\<rparr>, [VoiceJoined c udp (get_voice_participants s1 c)]))"

definition leave_voice :: "string \<Rightarrow> string \<Rightarrow> hub \<Rightarrow> hub" where
  "leave_voice pk c s =
     (let addr = map_of (participants s c) pk;
          rest = AList.delete pk (participants s c);
          s1 = with_live (\<lambda>l. l\<lparr>
            voice_channels := (if rest = [] then AList.delete c (voice_channels l) else AList.update c rest (voice_channels l)),
            voice_addr_map := (case addr of None \<Rightarrow> voice_addr_map l | Some a \<Rightarrow> AList.delete a (voice_addr_map l))\<rparr>) s
      in emit_voice c (VoiceParticipantLeft c pk) s1)"

definition voice_leave :: "string \<Rightarrow> connection \<Rightarrow> hub \<Rightarrow> outcome" where
  "voice_leave c k s =
     (spawn_event \<lparr>ev_type = ''member.left'', ev_actor = Some (con_key k), ev_target = None, ev_channel = Some c, ev_payload = JObj []\<rparr>
        (leave_voice (con_key k) c s), k\<lparr>con_voice := None\<rparr>, [])"

text \<open>The forwarding task of \<^verbatim>\<open>main.rs\<close>: the addresses a packet is sent on to.\<close>

definition forward_packet :: "16 word \<Rightarrow> hub \<Rightarrow> (16 word) list" where
  "forward_packet from_addr s =
     (case map_of (voice_addr_map (live s)) from_addr of None \<Rightarrow> []
      | Some (c, _) \<Rightarrow> filter (\<lambda>a. a \<noteq> from_addr) (map snd (participants s c)))"

definition voice_populations :: "hub \<Rightarrow> (string \<times> nat) list" where
  "voice_populations s = map (\<lambda>(c, p). (c, length p)) (filter (\<lambda>(c, p). p \<noteq> []) (voice_channels (live s)))"

definition voice_channel_participants :: "hub \<Rightarrow> (string \<times> (string \<times> string option) list) list" where
  "voice_channel_participants s =
     map (\<lambda>(c, p). (c, map (\<lambda>(pk, _). (pk, display_name s pk)) p)) (filter (\<lambda>(c, p). p \<noteq> []) (voice_channels (live s)))"

definition voice_active_users :: "hub \<Rightarrow> string set" where
  "voice_active_users s = set (concat (map (\<lambda>(c, p). map fst p) (voice_channels (live s))))"

subsection \<open>Screen sharing\<close>

definition share_of :: "hub \<Rightarrow> string \<Rightarrow> string \<Rightarrow> active_share option" where
  "share_of s c pk = map_of (screen_shares (live s)) (c, pk)"

definition has_stream :: "string \<Rightarrow> active_share option \<Rightarrow> bool" where
  "has_stream st a = (case a of None \<Rightarrow> False | Some x \<Rightarrow> map_of (share_streams x) st \<noteq> None)"

definition put_shares :: "((string \<times> string) \<times> active_share) list \<Rightarrow> hub \<Rightarrow> hub" where
  "put_shares x s = with_live (\<lambda>l. l\<lparr>screen_shares := x\<rparr>) s"

definition other_sharer :: "hub \<Rightarrow> string \<Rightarrow> string \<Rightarrow> bool" where
  "other_sharer s c pk = list_ex (\<lambda>((ch, sharer), _). ch = c \<and> sharer \<noteq> pk) (screen_shares (live s))"

definition share_start :: "nat \<Rightarrow> string \<Rightarrow> string \<Rightarrow> string \<Rightarrow> string \<Rightarrow> bool \<Rightarrow> connection \<Rightarrow> hub \<Rightarrow> outcome" where
  "share_start instant c st kind mime audio k s =
     (let pk = con_key k in
      if other_sharer s c pk then (s, k, [WsError ''screen_share'' ''Someone else is already sharing in this channel.''])
      else
        let a = (case share_of s c pk of None \<Rightarrow> \<lparr>share_streams = [], share_viewers = {}\<rparr> | Some x \<Rightarrow> x);
            meta = \<lparr>sm_kind = kind, sm_mime = mime, sm_has_audio = audio, sm_sharer = pk, sm_init_chunk = None, sm_started = instant\<rparr>;
            s1 = put_shares (AList.update (c, pk) (a\<lparr>share_streams := AList.update st meta (share_streams a)\<rparr>) (screen_shares (live s))) s
        in (emit_chat (ScreenShareStarted c st pk kind mime audio) s1, k, []))"

definition share_stop :: "string \<Rightarrow> string \<Rightarrow> connection \<Rightarrow> hub \<Rightarrow> outcome" where
  "share_stop c st k s =
     (let pk = con_key k;
          s1 = (case share_of s c pk of None \<Rightarrow> s
            | Some a \<Rightarrow>
                let rest = AList.delete st (share_streams a) in
                put_shares (if rest = [] then AList.delete (c, pk) (screen_shares (live s))
                  else AList.update (c, pk) (a\<lparr>share_streams := rest\<rparr>) (screen_shares (live s))) s)
      in (emit_chat (ScreenShareStopped c st pk) s1, k, []))"

text \<open>The first share of a channel with a stream, in iteration order.\<close>

definition find_share :: "hub \<Rightarrow> string \<Rightarrow> string \<Rightarrow> (string \<times> active_share) option" where
  "find_share s c st = map_option (\<lambda>((ch, sharer), a). (sharer, a))
     (find (\<lambda>((ch, _), a). ch = c \<and> has_stream st (Some a)) (screen_shares (live s)))"

definition set_viewers :: "(string set \<Rightarrow> string set) \<Rightarrow> string \<Rightarrow> string \<Rightarrow> active_share \<Rightarrow> hub \<Rightarrow> hub" where
  "set_viewers f c sharer a s =
     put_shares (AList.update (c, sharer) (a\<lparr>share_viewers := f (share_viewers a)\<rparr>) (screen_shares (live s))) s"

definition send_v2_signal :: "string \<Rightarrow> string \<Rightarrow> share_signal \<Rightarrow> hub \<Rightarrow> hub" where
  "send_v2_signal c to_pubkey sig s = emit_chat (ScreenShareSignal c to_pubkey sig) s"

definition viewer_join :: "string \<Rightarrow> string \<Rightarrow> connection \<Rightarrow> hub \<Rightarrow> outcome" where
  "viewer_join c st k s =
     (case find_share s c st of
        None \<Rightarrow> (s, k, [WsError ''screen_share_viewer_join'' ''No active share with that stream_id in this channel.''])
      | Some (sharer, a) \<Rightarrow>
          (send_v2_signal c sharer (ScreenShareViewerJoined st (con_key k)) (set_viewers (insert (con_key k)) c sharer a s), k, []))"

definition viewer_leave :: "string \<Rightarrow> string \<Rightarrow> connection \<Rightarrow> hub \<Rightarrow> outcome" where
  "viewer_leave c st k s =
     (case find_share s c st of
        None \<Rightarrow> (s, k, [])
      | Some (sharer, a) \<Rightarrow>
          (send_v2_signal c sharer (ScreenShareViewerLeft st (con_key k)) (set_viewers (\<lambda>v. v - {con_key k}) c sharer a s), k, []))"

text \<open>Signals are relayed only around a stream: from its sharer, to its sharer, or either.\<close>

definition relay :: "bool \<Rightarrow> string \<Rightarrow> string \<Rightarrow> share_signal \<Rightarrow> connection \<Rightarrow> hub \<Rightarrow> outcome" where
  "relay allowed c to_pubkey sig k s = (if allowed then send_v2_signal c to_pubkey sig s else s, k, [])"

definition share_chunk :: "u8 list \<Rightarrow> connection \<Rightarrow> hub \<Rightarrow> hub \<times> connection" where
  "share_chunk bytes k s =
     (case con_pending k of None \<Rightarrow> (s, k)
      | Some (c, st, seq, is_init) \<Rightarrow>
          let pk = con_key k;
              s1 = (case share_of s c pk of None \<Rightarrow> s
                | Some a \<Rightarrow> (case map_of (share_streams a) st of None \<Rightarrow> s
                    | Some m \<Rightarrow> if is_init then put_shares (AList.update (c, pk)
                          (a\<lparr>share_streams := AList.update st (m\<lparr>sm_init_chunk := Some bytes\<rparr>) (share_streams a)\<rparr>)
                          (screen_shares (live s))) s else s));
              s2 = with_live (\<lambda>l. l\<lparr>screen_share_tx := screen_share_tx l @
                [\<lparr>ce_channel = c, ce_stream = st, ce_sharer = pk, ce_seq = seq, ce_is_init = is_init, ce_data = bytes\<rparr>]\<rparr>) s1
          in (s2, k\<lparr>con_pending := None\<rparr>))"

subsection \<open>Replay\<close>

text \<open>
  The replayed events are pushed into the connection's own queue, which holds 256 and is emptied by
  this very task: with more events than fit, the task waits for itself. \<open>resume\<close> is \<open>None\<close> then.
  Nothing is delivered while the task is in this arm, so its buffer for live events stays empty.
\<close>

definition QUEUE_SLOTS :: nat where "QUEUE_SLOTS = 256"

definition resume :: "int \<Rightarrow> int \<Rightarrow> connection \<Rightarrow> hub \<Rightarrow> outcome option" where
  "resume now since k s =
     (if \<not> con_is_bot k then Some (s, k, [])
      else
        let (result, sent) = replay_events_for_bot (\<lambda>_. True) now (con_key k) since s in
        if QUEUE_SLOTS < length (con_queue k) + length sent then None
        else Some (s, k\<lparr>con_queue := con_queue k @ sent\<rparr>,
          [case result of Unavailable first at \<Rightarrow> ReplayUnavailable first at | Complete n \<Rightarrow> ReplayComplete n (hub_audit_seq s)]))"

subsection \<open>Components of messages\<close>

record interaction_env =
  ie_post :: component_bot
  ie_component_id :: string
  ie_ephemeral_id :: string

definition too_soon :: "nat \<Rightarrow> (string \<times> string) \<Rightarrow> connection \<Rightarrow> bool" where
  "too_soon instant key k = (case map_of (con_component_times k) key of None \<Rightarrow> False | Some prev \<Rightarrow> instant - prev < 3000)"

definition note_interaction :: "nat \<Rightarrow> (string \<times> string) \<Rightarrow> connection \<Rightarrow> connection" where
  "note_interaction instant key k =
     (let times = AList.update key instant (con_component_times k) in
      k\<lparr>con_component_times := (if 500 < length times then filter (\<lambda>(_, t). instant - t < 60000) times else times)\<rparr>)"

definition component_interaction :: "interaction_env \<Rightarrow> int \<Rightarrow> nat \<Rightarrow> string \<Rightarrow> string \<Rightarrow> string list \<Rightarrow> connection \<Rightarrow> hub \<Rightarrow> outcome" where
  "component_interaction E now instant message custom values k s =
     (let key = (con_key k, custom) in
      if too_soon instant key k then (s, k, [WsError ''component_interaction'' ''Please wait before interacting again.''])
      else (snd (dispatch_component (ie_post E) (ie_component_id E) (ie_ephemeral_id E) now message custom values (con_key k) s),
            note_interaction instant key k, []))"

subsection \<open>A frame from the client\<close>

definition subscribe :: "string \<Rightarrow> connection \<Rightarrow> hub \<Rightarrow> outcome" where
  "subscribe c k s =
     (if c \<in> con_subscribed k then (s, k, [])
      else (s, k\<lparr>con_subscribed := insert c (con_subscribed k)\<rparr>, shares_in_progress (\<lambda>ch. ch = c) (\<lambda>_. True) s))"

fun client_frame :: "nat \<Rightarrow> interaction_env \<Rightarrow> int \<Rightarrow> nat \<Rightarrow> client_message \<Rightarrow> connection \<Rightarrow> hub \<Rightarrow> outcome option" where
  "client_frame udp E now instant (Subscribe c) k s = Some (subscribe c k s)"
| "client_frame udp E now instant (Unsubscribe c) k s = Some (s, k\<lparr>con_subscribed := con_subscribed k - {c}\<rparr>, [])"
| "client_frame udp E now instant (VoiceJoin c addr) k s = Some (voice_join udp c addr k s)"
| "client_frame udp E now instant (VoiceLeave c) k s = Some (voice_leave c k s)"
| "client_frame udp E now instant (VoiceSpeaking c b) k s = Some (emit_voice c (VoiceParticipantSpeaking c (con_key k) b) s, k, [])"
| "client_frame udp E now instant (Typing c b) k s = Some (emit_chat (TypingEvent c (con_key k) (display_name s (con_key k)) b) s, k, [])"
| "client_frame udp E now instant (DmTypingIn d b) k s =
     Some (s\<lparr>dm_tx := dm_tx s @ [DmTyping d (con_key k) (display_name s (con_key k)) b]\<rparr>, k, [])"
| "client_frame udp E now instant (ScreenShareStart c st kind mime audio) k s = Some (share_start instant c st kind mime audio k s)"
| "client_frame udp E now instant (ScreenShareChunk c st seq i) k s = Some (s, k\<lparr>con_pending := Some (c, st, seq, i)\<rparr>, [])"
| "client_frame udp E now instant (ScreenShareStop c st) k s = Some (share_stop c st k s)"
| "client_frame udp E now instant (ScreenShareViewerJoin c st) k s = Some (viewer_join c st k s)"
| "client_frame udp E now instant (ScreenShareViewerLeave c st) k s = Some (viewer_leave c st k s)"
| "client_frame udp E now instant (ScreenShareOffer c to_pk st sdp) k s =
     Some (relay (has_stream st (share_of s c (con_key k))) c to_pk (ScreenShareOfferIn to_pk st sdp (con_key k)) k s)"
| "client_frame udp E now instant (ScreenShareAnswer c to_pk st sdp) k s =
     Some (relay (has_stream st (share_of s c to_pk)) c to_pk (ScreenShareAnswerIn to_pk st sdp (con_key k)) k s)"
| "client_frame udp E now instant (ScreenShareIce c to_pk st cand) k s =
     Some (relay (has_stream st (share_of s c (con_key k)) \<or> has_stream st (share_of s c to_pk)) c to_pk
       (ScreenShareIceIn to_pk st cand (con_key k)) k s)"
| "client_frame udp E now instant (Resume since) k s = resume now since k s"
| "client_frame udp E now instant (ComponentInteraction m custom values) k s = Some (component_interaction E now instant m custom values k s)"

subsection \<open>Closing a connection\<close>

definition close_connection :: "connection \<Rightarrow> hub \<Rightarrow> hub" where
  "close_connection k s =
     (let pk = con_key k;
          s1 = (case con_voice k of None \<Rightarrow> s | Some c \<Rightarrow> leave_voice pk c s)
      in with_live (\<lambda>l. l\<lparr>
           screen_shares := map (\<lambda>(key, a). (key, a\<lparr>share_viewers := share_viewers a - {pk}\<rparr>))
             (filter (\<lambda>((_, sharer), _). sharer \<noteq> pk) (screen_shares l)),
           bot_sessions := (if con_is_bot k then (bot_sessions l)(pk := None) else bot_sessions l),
           online_users := online_users l - {pk}\<rparr>) s1)"

subsection \<open>What reaches a connection\<close>

fun chat_channel :: "chat_event \<Rightarrow> string" where
  "chat_channel (NewMessage c _) = c"
| "chat_channel (EditedMessage c _) = c"
| "chat_channel (DeletedMessage c _) = c"
| "chat_channel (ReactionsUpdated c _ _) = c"
| "chat_channel (GameEvent c _) = c"
| "chat_channel (TypingEvent c _ _ _) = c"
| "chat_channel (ScreenShareStarted c _ _ _ _ _) = c"
| "chat_channel (ScreenShareStopped c _ _) = c"
| "chat_channel (ScreenShareSignal c _ _) = c"

definition deliver_chat :: "connection \<Rightarrow> chat_event \<Rightarrow> frame list" where
  "deliver_chat k e =
     (if chat_channel e \<notin> con_subscribed k then []
      else case e of
          TypingEvent _ sender _ _ \<Rightarrow> if sender = con_key k then [] else [ChatFrame e]
        | NewMessage _ m \<Rightarrow> (case mr_visible_to m of None \<Rightarrow> [ChatFrame e] | Some v \<Rightarrow> if v = con_key k then [ChatFrame e] else [])
        | ScreenShareSignal _ to_pk _ \<Rightarrow> if to_pk = con_key k then [ChatFrame e] else []
        | _ \<Rightarrow> [ChatFrame e])"

fun voice_subject :: "voice_frame \<Rightarrow> string" where
  "voice_subject (VoiceParticipantJoined _ pk _) = pk"
| "voice_subject (VoiceParticipantLeft _ pk) = pk"
| "voice_subject (VoiceParticipantSpeaking _ pk _) = pk"

definition deliver_voice :: "connection \<Rightarrow> string \<times> voice_frame \<Rightarrow> frame list" where
  "deliver_voice k ev = (if con_voice k = Some (fst ev) \<and> voice_subject (snd ev) \<noteq> con_key k then [VoiceFrame (snd ev)] else [])"

fun push_conversation :: "dm_push \<Rightarrow> string" where
  "push_conversation (DmSent e) = dme_conversation e"
| "push_conversation (DmTyping d _ _ _) = d"

fun push_sender :: "dm_push \<Rightarrow> string" where
  "push_sender (DmSent e) = dme_sender e"
| "push_sender (DmTyping _ pk _ _) = pk"

definition deliver_dm :: "connection \<Rightarrow> dm_push \<Rightarrow> frame list" where
  "deliver_dm k d = (if push_sender d = con_key k \<or> push_conversation d \<notin> con_conversations k then [] else [DmFrame d])"

definition deliver_chunk :: "connection \<Rightarrow> chunk_event \<Rightarrow> frame list" where
  "deliver_chunk k ev =
     (if ce_sharer ev \<noteq> con_key k \<and> ce_channel ev \<in> con_subscribed k
      then [ShareChunkOut (ce_channel ev) (ce_stream ev) (ce_sharer ev) (ce_seq ev) (ce_is_init ev), BinaryFrame (ce_data ev)] else [])"

subsection \<open>The server\<close>

text \<open>
  The connections are served by one task each; here their steps are interleaved in any order. A
  connection whose \<open>client_frame\<close> is \<open>None\<close> is stuck: it stays open and takes no further steps.
\<close>

record server =
  srv_hub :: hub
  srv_connections :: "connection list"
  srv_stuck :: "nat set"

datatype live_op =
    Connect nat nat string
  | ClientFrame nat interaction_env int nat client_message
  | ClientBytes nat "u8 list"
  | Disconnect nat
  | DirectMessages dm_op
  | ModerateHub moderation_op

definition connection_at :: "server \<Rightarrow> nat \<Rightarrow> connection option" where
  "connection_at v i = (if i \<in> srv_stuck v then None else row_at con_id i (srv_connections v))"

definition put_connection :: "connection \<Rightarrow> server \<Rightarrow> server" where
  "put_connection k v = v\<lparr>srv_connections := map (\<lambda>q. if con_id q = con_id k then k else q) (srv_connections v)\<rparr>"

fun live_step :: "nat \<Rightarrow> server \<Rightarrow> live_op \<Rightarrow> server" where
  "live_step udp v (Connect i instant token) =
     (case ws_handler token (srv_hub v) of Inl _ \<Rightarrow> v
      | Inr pk \<Rightarrow>
          if row_at con_id i (srv_connections v) \<noteq> None then v
          else let (s, k, _) = open_connection i instant pk (srv_hub v) in v\<lparr>srv_hub := s, srv_connections := srv_connections v @ [k]\<rparr>)"
| "live_step udp v (ClientFrame i E now instant m) =
     (case connection_at v i of None \<Rightarrow> v
      | Some k \<Rightarrow> (case client_frame udp E now instant m k (srv_hub v) of
            None \<Rightarrow> v\<lparr>srv_stuck := insert i (srv_stuck v)\<rparr>
          | Some (s, k', _) \<Rightarrow> put_connection k' (v\<lparr>srv_hub := s\<rparr>)))"
| "live_step udp v (ClientBytes i bytes) =
     (case connection_at v i of None \<Rightarrow> v
      | Some k \<Rightarrow> let (s, k') = share_chunk bytes k (srv_hub v) in put_connection k' (v\<lparr>srv_hub := s\<rparr>))"
| "live_step udp v (Disconnect i) =
     (case connection_at v i of None \<Rightarrow> v
      | Some k \<Rightarrow> v\<lparr>srv_hub := close_connection k (srv_hub v), srv_connections := filter (\<lambda>q. con_id q \<noteq> i) (srv_connections v)\<rparr>)"
| "live_step udp v (DirectMessages op) = v\<lparr>srv_hub := dm_step (srv_hub v) op\<rparr>"
| "live_step udp v (ModerateHub op) = v\<lparr>srv_hub := moderation_step (srv_hub v) op\<rparr>"

subsection \<open>What the other requests leave alone\<close>

text \<open>Memberships only grow, and nothing but the steps of connections touches the live state.\<close>

lemma dm_requests_keep:
  assumes frames: "\<And>t x. P t \<Longrightarrow> P (t\<lparr>users := x\<rparr>)" "\<And>t x. P t \<Longrightarrow> P (t\<lparr>dm_messages := x\<rparr>)" "\<And>t x. P t \<Longrightarrow> P (t\<lparr>dm_outbox := x\<rparr>)"
    "\<And>t x. P t \<Longrightarrow> P (t\<lparr>dm_tx := x\<rparr>)" "\<And>t x. P t \<Longrightarrow> P (t\<lparr>peers := x\<rparr>)" "\<And>t x. P t \<Longrightarrow> P (t\<lparr>peer_tokens := x\<rparr>)"
    "\<And>t x. P t \<Longrightarrow> P (t\<lparr>dm_blocks := x\<rparr>)" "\<And>t x. P t \<Longrightarrow> P (t\<lparr>friends := x\<rparr>)" "\<And>t x. P t \<Longrightarrow> P (t\<lparr>conversations := x\<rparr>)"
    and members: "\<And>t m. P t \<Longrightarrow> P (t\<lparr>conversation_members := conversation_members t @ [m]\<rparr>)"
  shows "P s \<Longrightarrow> P (dm_step s op)"
proof -
  have ins: "preserves P (insert_member m)" "preserves P (insert_or_ignore_member m)" for m
    unfolding insert_member_def insert_or_ignore_member_def
    by (rule preserves_writing; auto simp: ok_iffs intro: members split: if_splits)+
  note defs = create_conversation_def add_member_def receive_federated_dm_def open_conversation_def store_dm_def insert_dm_message_def
    send_dm_event_def send_dm_def deliver_to_member_def first_delivery_def insert_outbox_def delete_outbox_def update_outbox_def
    tick_def retry_def load_envelope_def put_dm_blocks_def insert_dm_block_def send_friend_request_def accept_friend_request_def
    remove_friend_def ensure_user_stub_def insert_or_ignore_user_def insert_conversation_def Let_def
  have "preserves P (create_conversation uuid now user pks hubs)" "preserves P (send_dm K ident net uuid now user c req)"
    "preserves P (receive_federated_dm K now freq)" "preserves P (tick K ident net now)" "preserves P (put_dm_blocks user pks)"
    "preserves P (send_friend_request now user target hub name)" "preserves P (accept_friend_request user target)"
    "preserves P (remove_friend user target)" for uuid now user pks hubs K ident net c req freq target hub name
    unfolding defs by (intro keeps ins deliver_keeps preserves_writing preserves_modify frames; assumption)+
  then show "P s \<Longrightarrow> P (dm_step s op)" by (cases op) (simp_all add: preserves_def)
qed

lemma live_elsewhere:
  "live (dm_step s dop) = live s" "live (moderation_step s mop) = live s" "live (message_step s sop) = live s"
proof -
  show "live (dm_step s dop) = live s" by (rule dm_requests_keep [where P = "\<lambda>t. live t = live s"]) simp_all
  show "live (message_step s sop) = live s" by (rule message_requests_keep [where P = "\<lambda>t. live t = live s"]) simp_all
  show "live (moderation_step s mop) = live s"
    by (cases mop) (auto simp: moderation_step.simps effect_simps upsert_def)
qed

lemma live_with_live [simp]: "live (with_live f s) = f (live s)"
  and live_emit [simp]: "live (emit_chat e s) = live s" "live (spawn_event h s) = live s" "live (send_v2_signal c p g s) = live s"
  by (simp_all add: with_live_def emit_chat_def spawn_event_def send_v2_signal_def)

lemma live_dispatch: "live (snd (dispatch_component post cid eph now i custom vs user s)) = live s"
  using live_elsewhere(3) [of s "Interact post cid eph now i custom vs user"] by simp

subsection \<open>Who is in a voice channel\<close>

definition in_voice :: "string \<times> string \<Rightarrow> hub \<Rightarrow> bool" where
  "in_voice x s \<longleftrightarrow> snd x \<in> fst ` set (participants s (fst x))"

lemma participants_cong: "voice_channels (live t) = voice_channels (live s) \<Longrightarrow> participants t c = participants s c"
  by (simp add: participants_def)

lemma in_voice_cong: "voice_channels (live t) = voice_channels (live s) \<Longrightarrow> in_voice x t = in_voice x s"
  using participants_cong [of t s "fst x"] by (simp add: in_voice_def)

lemma participants_enter:
  "participants (enter_voice pk c addr s) d = (if d = c then AList.update pk addr (participants s c) else participants s d)"
  by (simp add: participants_def enter_voice_def update_conv')

lemma participants_leave:
  "participants (leave_voice pk c s) d = (if d = c then AList.delete pk (participants s c) else participants s d)"
  by (auto simp: participants_def leave_voice_def emit_voice_def Let_def update_conv' delete_conv' split: option.splits)

lemma in_voice_leave: "in_voice x (leave_voice pk c s) \<Longrightarrow> in_voice x s"
  using dom_delete_subset [of pk "participants s c"] by (auto simp: in_voice_def participants_leave split: if_splits)

lemma voice_kept_by_shares:
  "voice_channels (live (fst (share_start t c st kd mime au k s))) = voice_channels (live s)"
  "voice_channels (live (fst (share_stop c st k s))) = voice_channels (live s)"
  "voice_channels (live (fst (viewer_join c st k s))) = voice_channels (live s)"
  "voice_channels (live (fst (viewer_leave c st k s))) = voice_channels (live s)"
  "voice_channels (live (fst (relay b c p g k s))) = voice_channels (live s)"
  "voice_channels (live (fst (share_chunk bytes k s))) = voice_channels (live s)"
  by (simp_all add: share_start_def share_stop_def viewer_join_def viewer_leave_def relay_def share_chunk_def put_shares_def
      set_viewers_def Let_def split: option.splits prod.splits)

definition joins :: "hub \<Rightarrow> connection \<Rightarrow> client_message \<Rightarrow> string \<times> string \<Rightarrow> bool" where
  "joins s k m x \<longleftrightarrow> con_key k = snd x \<and> voice_gate s (fst x) (snd x) = None \<and> (\<exists>addr. m = VoiceJoin (fst x) addr)"

lemma other_frames_keep_voice:
  assumes "client_frame udp E now instant m k s = Some (t, k', fs)" "\<And>c a. m \<noteq> VoiceJoin c a" "\<And>c. m \<noteq> VoiceLeave c"
  shows "voice_channels (live t) = voice_channels (live s)"
  using assms
  by (cases m) (auto simp: subscribe_def share_start_def share_stop_def viewer_join_def viewer_leave_def relay_def resume_def
      component_interaction_def emit_voice_def put_shares_def set_viewers_def live_dispatch Let_def split: if_splits option.splits prod.splits)

lemma client_frame_voice:
  assumes "client_frame udp E now instant m k s = Some (t, k', fs)" "in_voice x t"
  shows "in_voice x s \<or> joins s k m x"
proof -
  consider (join) c addr where "m = VoiceJoin c addr" | (leave) c where "m = VoiceLeave c"
    | (other) "\<And>c a. m \<noteq> VoiceJoin c a" "\<And>c. m \<noteq> VoiceLeave c" by blast
  then show ?thesis
  proof cases
    case join
    show ?thesis
    proof (cases "voice_gate s c (con_key k)")
      case None
      with assms join have "in_voice x (enter_voice (con_key k) c addr s)"
        using in_voice_cong [of t "enter_voice (con_key k) c addr s" x]
        by (auto simp: voice_join_def Let_def emit_voice_def)
      then have "in_voice x s \<or> x = (c, con_key k)"
        by (cases x) (auto simp: in_voice_def participants_enter dom_update split: if_splits)
      with None join show ?thesis by (auto simp: joins_def)
    qed (use assms join in \<open>auto simp: voice_join_def\<close>)
  next
    case leave
    with assms have "in_voice x (leave_voice (con_key k) c s)"
      using in_voice_cong [of t "leave_voice (con_key k) c s" x] by (auto simp: voice_leave_def)
    then show ?thesis using in_voice_leave by blast
  next
    case other
    with other_frames_keep_voice [OF assms(1)] in_voice_cong [of t s x] assms(2) show ?thesis by blast
  qed
qed

lemma close_voice: "in_voice x (close_connection k s) \<Longrightarrow> in_voice x s"
proof -
  assume a: "in_voice x (close_connection k s)"
  let ?t = "case con_voice k of None \<Rightarrow> s | Some c \<Rightarrow> leave_voice (con_key k) c s"
  have "in_voice x ?t" using a in_voice_cong [of "close_connection k s" ?t x] by (simp add: close_connection_def Let_def)
  then show "in_voice x s" by (auto split: option.splits dest: in_voice_leave)
qed

lemma open_voice: "voice_channels (live (fst (open_connection i t pk s))) = voice_channels (live s)"
  by (simp add: open_connection_def Let_def)

definition admitted_to_voice :: "server \<Rightarrow> live_op \<Rightarrow> string \<times> string \<Rightarrow> bool" where
  "admitted_to_voice v op x =
     (case op of ClientFrame i E now instant m \<Rightarrow> (case connection_at v i of None \<Rightarrow> False | Some k \<Rightarrow> joins (srv_hub v) k m x)
      | _ \<Rightarrow> False)"

interpretation speaking: traced "\<lambda>_. True" "live_step udp" "\<lambda>x v. in_voice x (srv_hub v)" admitted_to_voice for udp
proof unfold_locales
  fix v op x assume h: "in_voice x (srv_hub (live_step udp v op))"
  show "in_voice x (srv_hub v) \<or> admitted_to_voice v op x"
  proof (cases op)
    case (Connect i t tok)
    with h in_voice_cong [OF open_voice, of x] show ?thesis
      by (auto simp: Let_def split: sum.splits if_splits prod.splits) (metis fst_conv)
  next
    case (ClientFrame i E now t m)
    with h show ?thesis
      by (auto simp: admitted_to_voice_def put_connection_def split: option.splits dest: client_frame_voice)
  next
    case (ClientBytes i b)
    with h in_voice_cong [OF voice_kept_by_shares(6), of x] show ?thesis
      by (auto simp: put_connection_def Let_def split: option.splits prod.splits) (metis fst_conv)
  next
    case (Disconnect i)
    with h show ?thesis by (auto split: option.splits dest: close_voice)
  qed (use h live_elsewhere in_voice_cong in \<open>auto simp: in_voice_def participants_def\<close>)
qed

subsection \<open>Where connections come from\<close>

definition connected :: "string \<Rightarrow> server \<Rightarrow> bool" where
  "connected pk v \<longleftrightarrow> list_ex (\<lambda>k. con_key k = pk) (srv_connections v)"

definition opened_by :: "server \<Rightarrow> live_op \<Rightarrow> string \<Rightarrow> bool" where
  "opened_by v op pk = (case op of Connect i t tok \<Rightarrow> ws_handler tok (srv_hub v) = Inr pk | _ \<Rightarrow> False)"

lemma client_frame_key:
  "client_frame udp E now instant m k s = Some (t, k', fs) \<Longrightarrow> con_key k' = con_key k \<and> con_id k' = con_id k \<and>
     con_conversations k' = con_conversations k \<and> con_is_bot k' = con_is_bot k"
  by (cases m) (auto simp: subscribe_def voice_join_def voice_leave_def share_start_def share_stop_def viewer_join_def viewer_leave_def
      relay_def resume_def component_interaction_def note_interaction_def Let_def split: if_splits option.splits prod.splits)

lemma share_chunk_key:
  "share_chunk b k s = (t, k') \<Longrightarrow> con_key k' = con_key k \<and> con_id k' = con_id k \<and> con_conversations k' = con_conversations k"
  by (auto simp: share_chunk_def Let_def split: option.splits prod.splits)

lemma connection_at_member: "connection_at v i = Some k \<Longrightarrow> k \<in> set (srv_connections v) \<and> con_id k = i"
  using row_at_key [of con_id i "srv_connections v" k] by (auto simp: connection_at_def split: if_splits)

lemma connected_put:
  assumes "connected pk (put_connection k' (v\<lparr>srv_hub := s\<rparr>))" "connection_at v i = Some k" "con_key k' = con_key k"
  shows "connected pk v"
  using assms connection_at_member [OF assms(2)] by (auto simp: connected_def put_connection_def list_ex_iff split: if_splits)

interpretation arriving: traced "\<lambda>_. True" "live_step udp" connected opened_by for udp
proof unfold_locales
  fix v op pk assume h: "connected pk (live_step udp v op)"
  show "connected pk v \<or> opened_by v op pk"
  proof (cases op)
    case (Connect i t tok)
    with h show ?thesis
      by (auto simp: connected_def opened_by_def open_connection_def Let_def list_ex_iff split: sum.splits if_splits)
  next
    case (ClientFrame i E now t m)
    with h show ?thesis
      by (auto split: option.splits dest!: client_frame_key intro: connected_put) (simp add: connected_def)
  next
    case (ClientBytes i b)
    with h show ?thesis by (auto split: option.splits prod.splits dest!: share_chunk_key intro: connected_put)
  next
    case (Disconnect i)
    with h show ?thesis by (auto simp: connected_def list_ex_iff split: option.splits)
  qed (use h in \<open>auto simp: connected_def\<close>)
qed


subsection \<open>One sharer\<close>

definition sharers :: "hub \<Rightarrow> (string \<times> string) set" where
  "sharers s = fst ` set (screen_shares (live s))"

definition one_sharer :: "hub \<Rightarrow> bool" where
  "one_sharer s \<longleftrightarrow> (\<forall>c a b. (c, a) \<in> sharers s \<and> (c, b) \<in> sharers s \<longrightarrow> a = b)"

lemma one_sharer_subset: "one_sharer s \<Longrightarrow> sharers t \<subseteq> sharers s \<Longrightarrow> one_sharer t"
  by (auto simp: one_sharer_def)

lemma sharers_put: "sharers (put_shares x s) = fst ` set x"
  by (simp add: sharers_def put_shares_def)

lemma sharers_cong: "screen_shares (live t) = screen_shares (live s) \<Longrightarrow> sharers t = sharers s"
  by (simp add: sharers_def)

lemma share_of_sharer: "share_of s c pk = Some a \<Longrightarrow> (c, pk) \<in> sharers s"
  by (force simp: share_of_def sharers_def dest: map_of_SomeD)

lemma find_share_sharer: "find_share s c st = Some (pk, a) \<Longrightarrow> (c, pk) \<in> sharers s"
proof -
  assume "find_share s c st = Some (pk, a)"
  then obtain ch where "fetch_optional (\<lambda>((ch, _), a). ch = c \<and> has_stream st (Some a)) (screen_shares (live s)) = Some ((ch, pk), a)"
    by (auto simp: find_share_def fetch_optional_def split: prod.splits)
  from fetch_optional_SomeD [OF this] show "(c, pk) \<in> sharers s" by (force simp: sharers_def)
qed

lemma share_start_one:
  assumes "one_sharer s"
  shows "one_sharer (fst (share_start t c st kd mime au k s))"
proof (cases "other_sharer s c (con_key k)")
  case False
  then have none: "\<And>b. (c, b) \<in> sharers s \<Longrightarrow> b = con_key k"
    by (force simp: other_sharer_def sharers_def list_ex_iff)
  have "sharers (fst (share_start t c st kd mime au k s)) = insert (c, con_key k) (sharers s)"
    using False by (simp add: share_start_def Let_def sharers_def put_shares_def dom_update)
  with assms none show ?thesis by (auto simp: one_sharer_def)
qed (use assms in \<open>simp add: share_start_def\<close>)

lemma sharers_shrink:
  "sharers (fst (share_stop c st k s)) \<subseteq> sharers s" "sharers (fst (viewer_join c st k s)) \<subseteq> sharers s"
  "sharers (fst (viewer_leave c st k s)) \<subseteq> sharers s" "sharers (fst (share_chunk b k s)) \<subseteq> sharers s"
  "sharers (close_connection k s) \<subseteq> sharers s"
proof -
  have upd: "(c, pk) \<in> sharers s \<Longrightarrow> sharers (put_shares (AList.update (c, pk) a (screen_shares (live s))) s) \<subseteq> sharers s" for c pk a
    by (simp add: sharers_put dom_update) (simp add: sharers_def)
  have del: "sharers (put_shares (AList.delete x (screen_shares (live s))) s) \<subseteq> sharers s" for x
    unfolding sharers_put by (simp add: sharers_def dom_delete_subset)
  have emit: "sharers (emit_chat e t) = sharers t" "sharers (send_v2_signal c p g t) = sharers t"
      "sharers (with_live (\<lambda>l. l\<lparr>screen_share_tx := f l\<rparr>) t) = sharers t" for e c p g f t
    by (simp_all add: sharers_def)
  show "sharers (fst (share_stop c st k s)) \<subseteq> sharers s"
    using upd [OF share_of_sharer] del by (simp add: share_stop_def Let_def emit split: option.splits)
  show "sharers (fst (viewer_join c st k s)) \<subseteq> sharers s" "sharers (fst (viewer_leave c st k s)) \<subseteq> sharers s"
    using upd [OF find_share_sharer] by (simp_all add: viewer_join_def viewer_leave_def set_viewers_def emit split: option.splits prod.splits)
  show "sharers (fst (share_chunk b k s)) \<subseteq> sharers s"
    using upd [OF share_of_sharer] by (simp add: share_chunk_def Let_def emit split: option.splits prod.splits)
  have leave: "sharers (leave_voice pk c t) = sharers t" for pk c t
    by (simp add: sharers_def leave_voice_def emit_voice_def Let_def)
  have "sharers (close_connection k s) \<subseteq> sharers (case con_voice k of None \<Rightarrow> s | Some c \<Rightarrow> leave_voice (con_key k) c s)"
    by (force simp: close_connection_def Let_def sharers_def)
  then show "sharers (close_connection k s) \<subseteq> sharers s" by (simp add: leave split: option.splits)
qed

definition touches_shares :: "client_message \<Rightarrow> bool" where
  "touches_shares m = (case m of ScreenShareStart _ _ _ _ _ \<Rightarrow> True | ScreenShareStop _ _ \<Rightarrow> True
     | ScreenShareViewerJoin _ _ \<Rightarrow> True | ScreenShareViewerLeave _ _ \<Rightarrow> True | _ \<Rightarrow> False)"

lemma other_frames_keep_shares:
  assumes "client_frame udp E now instant m k s = Some (t, k', fs)" "\<not> touches_shares m"
  shows "sharers t = sharers s"
proof -
  have "screen_shares (live t) = screen_shares (live s)"
    using assms
    by (cases m) (auto simp: touches_shares_def subscribe_def voice_join_def voice_leave_def leave_voice_def enter_voice_def
        emit_voice_def relay_def resume_def component_interaction_def live_dispatch Let_def split: if_splits option.splits prod.splits)
  then show ?thesis by (rule sharers_cong)
qed

lemma client_frame_one:
  assumes "client_frame udp E now instant m k s = Some (t, k', fs)" "one_sharer s"
  shows "one_sharer t"
proof (cases m)
  case (ScreenShareStart c st kd mime au)
  with assms share_start_one [OF assms(2), of instant c st kd mime au k] show ?thesis by simp
next
  case (ScreenShareStop c st)
  with assms sharers_shrink(1) [of c st k s] show ?thesis by (auto intro: one_sharer_subset)
next
  case (ScreenShareViewerJoin c st)
  with assms sharers_shrink(2) [of c st k s] show ?thesis by (auto intro: one_sharer_subset)
next
  case (ScreenShareViewerLeave c st)
  with assms sharers_shrink(3) [of c st k s] show ?thesis by (auto intro: one_sharer_subset)
qed (use assms(2) other_frames_keep_shares [OF assms(1)] in \<open>simp_all add: touches_shares_def one_sharer_def\<close>)

text \<open>
  A channel has at most one sharer: no interleaving of frames, connects and disconnects brings
  a second key to share in a channel where one is sharing, with any number of streams.
\<close>

theorem one_sharer_per_channel:
  assumes "one_sharer (srv_hub v)"
  shows "one_sharer (srv_hub (run (live_step udp) v ops))"
proof (rule run_invariant [where P = "\<lambda>v. one_sharer (srv_hub v)", OF _ assms])
  fix v :: server and op assume one: "one_sharer (srv_hub v)"
  show "one_sharer (srv_hub (live_step udp v op))"
  proof (cases op)
    case (Connect i t tok)
    with one show ?thesis
      by (auto simp: open_connection_def Let_def one_sharer_def sharers_def split: sum.splits)
  next
    case (ClientFrame i E now t m)
    with one show ?thesis by (auto simp: put_connection_def split: option.splits dest: client_frame_one)
  next
    case (ClientBytes i b)
    with one sharers_shrink(4) show ?thesis
      by (auto simp: put_connection_def Let_def split: option.splits prod.splits) (metis fst_conv one_sharer_subset)
  next
    case (Disconnect i)
    with one sharers_shrink(5) show ?thesis by (auto split: option.splits intro: one_sharer_subset)
  qed (use one live_elsewhere in \<open>simp_all add: one_sharer_def sharers_def\<close>)
qed

subsection \<open>Direct messages\<close>

definition memberships :: "hub \<Rightarrow> (string \<times> string) set" where
  "memberships s = (\<lambda>m. (cm_conversation m, cm_key m)) ` set (conversation_members s)"

definition conversations_sound :: "server \<Rightarrow> bool" where
  "conversations_sound v \<longleftrightarrow> (\<forall>k \<in> set (srv_connections v). \<forall>c \<in> con_conversations k. (c, con_key k) \<in> memberships (srv_hub v))"

lemma members_kept_dm: "memberships s \<subseteq> memberships (dm_step s op)"
  by (rule dm_requests_keep [where P = "\<lambda>t. memberships s \<subseteq> memberships t"]) (auto simp: memberships_def)

lemma members_kept_elsewhere:
  "memberships (moderation_step s mop) = memberships s" "memberships (message_step s sop) = memberships s"
proof -
  show "memberships (message_step s sop) = memberships s"
    by (rule message_requests_keep [where P = "\<lambda>t. memberships t = memberships s"]) (simp_all add: memberships_def)
  show "memberships (moderation_step s mop) = memberships s"
    by (cases mop) (auto simp: memberships_def moderation_step.simps effect_simps upsert_def)
qed

lemma members_kept_frame:
  assumes "client_frame udp E now instant m k s = Some (t, k', fs)"
  shows "memberships t = memberships s"
proof -
  have d: "memberships (snd (dispatch_component post cid eph n i custom vs user s)) = memberships s" for post cid eph n i custom vs user
    using members_kept_elsewhere(2) [of s "Interact post cid eph n i custom vs user"] by simp
  have w: "memberships (with_live f u) = memberships u" "memberships (emit_chat e u) = memberships u"
    "memberships (spawn_event h u) = memberships u" "memberships (send_v2_signal c p g u) = memberships u"
    "memberships (u\<lparr>dm_tx := x\<rparr>) = memberships u" for f u e h c p g x
    by (simp_all add: memberships_def with_live_def emit_chat_def spawn_event_def send_v2_signal_def)
  show ?thesis
    using assms
    by (cases m) (auto simp: subscribe_def voice_join_def voice_leave_def leave_voice_def enter_voice_def emit_voice_def share_start_def
        share_stop_def viewer_join_def viewer_leave_def relay_def resume_def component_interaction_def put_shares_def set_viewers_def
        d w Let_def split: if_splits option.splits prod.splits)
qed

lemma members_kept_rest:
  "memberships (close_connection k s) = memberships s" "memberships (fst (share_chunk b k s)) = memberships s"
  "memberships (fst (open_connection i t pk s)) = memberships s"
  by (simp_all add: memberships_def close_connection_def leave_voice_def emit_voice_def share_chunk_def open_connection_def put_shares_def
      with_live_def Let_def split: option.splits prod.splits)

lemma members_kept_chunk: "share_chunk b k s = (t, k') \<Longrightarrow> memberships t = memberships s"
  using members_kept_rest(2) [of b k s] by simp

lemma conversations_sound_step: "conversations_sound v \<Longrightarrow> conversations_sound (live_step udp v op)"
proof -
  assume s: "conversations_sound v"
  have put: "conversations_sound (put_connection k' (v\<lparr>srv_hub := t\<rparr>))"
    if "connection_at v i = Some k" "con_key k' = con_key k" "con_conversations k' = con_conversations k" "memberships t = memberships (srv_hub v)" for i k k' t
    using s that connection_at_member [OF that(1)] by (auto simp: conversations_sound_def put_connection_def split: if_splits)
  show ?thesis
  proof (cases op)
    case (Connect i t tok)
    have "(c, pk) \<in> memberships (srv_hub v)" if "c \<in> my_conversations (srv_hub v) pk" for c pk
      using that by (force simp: my_conversations_def memberships_def)
    with s Connect members_kept_rest(3) [of i t _ "srv_hub v"] show ?thesis
      by (auto simp: conversations_sound_def open_connection_def Let_def split: sum.splits)
  next
    case (ClientFrame i E now t m)
    with s show ?thesis
      by (auto split: option.splits dest: client_frame_key members_kept_frame intro!: put) (simp add: conversations_sound_def)
  next
    case (ClientBytes i b)
    with s show ?thesis
      by (auto simp del: split_paired_All split: option.splits prod.splits dest: share_chunk_key members_kept_chunk intro!: put)
  next
    case (Disconnect i)
    with s members_kept_rest(1) show ?thesis by (auto simp: conversations_sound_def split: option.splits)
  next
    case (DirectMessages dop)
    with s members_kept_dm [of "srv_hub v" dop] show ?thesis by (auto simp: conversations_sound_def)
  qed (use s members_kept_elsewhere in \<open>simp add: conversations_sound_def\<close>)
qed

text \<open>
  A direct message, or the sign that somebody is typing one, is pushed only to connections of
  members of the conversation, in every reachable state of the server.
\<close>

theorem dms_reach_members_only:
  assumes "conversations_sound v" "k \<in> set (srv_connections (run (live_step udp) v ops))" "deliver_dm k d \<noteq> []"
  shows "is_member (srv_hub (run (live_step udp) v ops)) (push_conversation d) (con_key k)"
proof -
  have "conversations_sound (run (live_step udp) v ops)"
    using assms(1) by (rule run_invariant [where P = conversations_sound, rotated]) (rule conversations_sound_step)
  with assms(2,3) show ?thesis
    by (force simp: conversations_sound_def deliver_dm_def memberships_def is_member_def load_members_def split: if_splits)
qed

subsection \<open>A concrete server\<close>

definition demo_server_start :: server where
  "demo_server_start = \<lparr>srv_hub = demo_hub, srv_connections = [], srv_stuck = {}\<rparr>"

definition demo_env :: interaction_env where
  "demo_env = \<lparr>ie_post = (\<lambda>_ _. None), ie_component_id = ''x'', ie_ephemeral_id = ''y''\<rparr>"

definition demo_call :: "live_op list" where
  "demo_call = [Connect 1 5 ''t-member'', ClientFrame 1 demo_env 6 6 (VoiceJoin ''lounge'' 4000),
     ClientFrame 1 demo_env 7 7 (ScreenShareStart ''lounge'' ''st'' ''screen'' ''video/webm'' False)]"

lemma demo_call_run: "in_voice (''lounge'', demo_member) (srv_hub (run (live_step 9) demo_server_start demo_call))"
  by code_simp


theorem one_sharer_per_channel_witness: "one_sharer (srv_hub (run (live_step 9) demo_server_start demo_call))"
proof (rule one_sharer_per_channel)
  have "screen_shares (live (srv_hub demo_server_start)) = []" by code_simp
  then show "one_sharer (srv_hub demo_server_start)" by (simp add: one_sharer_def sharers_def)
qed

definition demo_dm_server :: server where
  "demo_dm_server = \<lparr>srv_hub = demo_dms\<lparr>sessions := [demo_session ''t-owner'' demo_owner]\<rparr>, srv_connections = [], srv_stuck = {}\<rparr>"

definition demo_typing :: dm_push where "demo_typing = DmTyping ''d'' demo_mod None True"

theorem dms_reach_members_only_witness:
  "\<exists>k. k \<in> set (srv_connections (run (live_step 9) demo_dm_server [Connect 1 5 ''t-owner''])) \<and> deliver_dm k demo_typing \<noteq> [] \<and>
     is_member (srv_hub (run (live_step 9) demo_dm_server [Connect 1 5 ''t-owner''])) ''d'' (con_key k)"
proof -
  have "list_ex (\<lambda>k. deliver_dm k demo_typing \<noteq> []) (srv_connections (run (live_step 9) demo_dm_server [Connect 1 5 ''t-owner'']))"
    by code_simp
  then obtain k where k: "k \<in> set (srv_connections (run (live_step 9) demo_dm_server [Connect 1 5 ''t-owner'']))" "deliver_dm k demo_typing \<noteq> []"
    by (auto simp: list_ex_iff)
  have sound: "conversations_sound demo_dm_server" by (simp add: conversations_sound_def demo_dm_server_def)
  have "push_conversation demo_typing = ''d''" by (simp add: demo_typing_def)
  with dms_reach_members_only [OF sound k] k show ?thesis by metis
qed

subsection \<open>What goes astray\<close>

text \<open>A channel ban does not keep anybody out of voice: the gate does not look at it.\<close>

lemma voice_gate_ignores_bans: "voice_gate (s\<lparr>channel_bans := b\<rparr>) c pk = voice_gate s c pk"
proof -
  have "user_permissions pk (s\<lparr>channel_bans := b\<rparr>) = user_permissions pk s" by (rule user_permissions_cong) simp_all
  then have "effective_power (s\<lparr>channel_bans := b\<rparr>) pk = effective_power s pk" by (simp add: effective_power_def roles_of_def)
  moreover have "min_talk_power (s\<lparr>channel_bans := b\<rparr>) c = min_talk_power s c" by (simp add: min_talk_power_def Let_def)
  ultimately show ?thesis
    by (simp add: voice_gate_def is_voice_muted_def is_channel_voice_muted_def has_raised_hand_def)
qed

text \<open>Nor does the channel have to exist, and a second join leaves the first entry behind.\<close>

lemma rejoining_leaves_a_ghost:
  assumes "c \<noteq> d" "voice_gate s c (con_key k) = None"
  shows "in_voice (d, con_key k) (fst (voice_join udp c addr k s)) \<longleftrightarrow> in_voice (d, con_key k) s"
proof -
  have "in_voice (d, con_key k) (fst (voice_join udp c addr k s)) \<longleftrightarrow> in_voice (d, con_key k) (enter_voice (con_key k) c addr s)"
    using assms(2) by (intro in_voice_cong) (simp add: voice_join_def Let_def emit_voice_def)
  with assms(1) show ?thesis by (auto simp: in_voice_def participants_enter)
qed

text \<open>\<^verbatim>\<open>VoiceLeave\<close> of any other channel makes the connection forget the one it is in, which closing it then does not leave.\<close>

lemma leaving_elsewhere_strands:
  assumes "c \<noteq> d" "in_voice (c, con_key k) s" "con_voice k = Some c" "voice_leave d k s = (t, k', fs)"
  shows "in_voice (c, con_key k) (close_connection k' t)"
proof -
  have t: "k' = k\<lparr>con_voice := None\<rparr>" "voice_channels (live t) = voice_channels (live (leave_voice (con_key k) d s))"
    using assms(4) by (auto simp: voice_leave_def)
  have "in_voice (c, con_key k) t"
    using assms(1,2) in_voice_cong [OF t(2), of "(c, con_key k)"] by (simp add: in_voice_def participants_leave)
  then show ?thesis
    by (simp add: t(1) close_connection_def Let_def in_voice_def participants_def)
qed

text \<open>With two connections of one key, closing either takes the key offline.\<close>

lemma closing_one_of_two_goes_offline: "con_key k \<notin> online_users (live (close_connection k s))"
  by (simp add: close_connection_def Let_def)

text \<open>A replay of more events than the queue holds never returns.\<close>

lemma long_replay_hangs:
  assumes "con_is_bot k" "replay_events_for_bot (\<lambda>_. True) now (con_key k) since s = (Complete n, sent)" "QUEUE_SLOTS < length sent"
  shows "resume now since k s = None"
  using assms by (simp add: resume_def)

text \<open>An edit of a message that only one member may see goes to everybody subscribed to the channel.\<close>

lemma ephemeral_edit_leaks: "c \<in> con_subscribed k \<Longrightarrow> deliver_chat k (EditedMessage c m) = [ChatFrame (EditedMessage c m)]"
  by (simp add: deliver_chat_def)

text \<open>Subscribing is not checked against channel bans.\<close>

lemma banned_can_subscribe: "c \<in> con_subscribed (fst (snd (subscribe c k s)))"
  by (simp add: subscribe_def)

text \<open>A chunk is passed on although its sender shares nothing in the channel.\<close>

lemma chunk_without_share:
  assumes "con_pending k = Some (c, st, n, first)" "share_of s c (con_key k) = None"
  shows "\<exists>e. screen_share_tx (live (fst (share_chunk b k s))) = screen_share_tx (live s) @ [e] \<and> ce_channel e = c \<and> ce_sharer e = con_key k"
  using assms by (simp add: share_chunk_def Let_def)

end
