(* ===== verification/Spec2Isabelle.thy ===== *)
theory Spec2Isabelle
  imports Pow Invites Channels Pairing Sessions Recovery Rate_Limit Farm_Hubs Outbox Game_Sessions Alliances Surveys Seed Badges Live
begin

text \<open>
  Verification of the Voxply server: header under construction.
\<close>

end
